(* ===== verification/Prelude.thy ===== *)
theory Prelude
  imports Main "HOL-Library.Char_ord" "HOL-Library.List_Lexorder" "HOL-Library.Word"
begin

text \<open>
  Shared vocabulary of the development: Go strings and byte slices, results with an error,
  64-bit wrap-around, the byte classes the validators test, and decimal printing and reading
  (\<^verbatim>\<open>strconv.FormatUint\<close>, \<^verbatim>\<open>strconv.ParseUint\<close>) with their round trip.
\<close>

section \<open>Types\<close>

type_synonym bytes = string
type_synonym u16 = "16 word"
type_synonym u32 = "32 word"
type_synonym u64 = "64 word"
type_synonym ('e, 'a) result = "'e + 'a"

named_theorems result_simps "equations that open a result-producing expression"
named_theorems byte_simps "byte class facts"

section \<open>Results\<close>

text \<open>
  A Go call that returns \<^verbatim>\<open>(value, error)\<close> is a sum: \<open>Inl\<close> the error, \<open>Inr\<close> the value.
  \<open>bindR\<close> is the pattern \<^verbatim>\<open>x, err := f(); if err != nil { return err }\<close> and \<open>guardR\<close> is
  \<^verbatim>\<open>if !cond { return err }\<close>.
\<close>

definition bindR :: "('e, 'a) result \<Rightarrow> ('a \<Rightarrow> ('e, 'b) result) \<Rightarrow> ('e, 'b) result" where
  "bindR m f = (case m of Inl e \<Rightarrow> Inl e | Inr x \<Rightarrow> f x)"

definition guardR :: "bool \<Rightarrow> 'e \<Rightarrow> ('e, unit) result" where
  "guardR c e = (if c then Inr () else Inl e)"

fun is_ok :: "('e, 'a) result \<Rightarrow> bool" where
  "is_ok (Inl _) = False"
| "is_ok (Inr _) = True"

lemma bindR_Inl [simp]: "bindR (Inl e) f = Inl e"
  by (simp add: bindR_def)

lemma bindR_Inr [simp]: "bindR (Inr x) f = f x"
  by (simp add: bindR_def)

lemma bindR_eq_Inr [result_simps]:
  "(bindR m f = Inr y) \<longleftrightarrow> (\<exists>x. m = Inr x \<and> f x = Inr y)"
  by (cases m) simp_all

lemma bindR_eq_Inl [result_simps]:
  "(bindR m f = Inl e) \<longleftrightarrow> m = Inl e \<or> (\<exists>x. m = Inr x \<and> f x = Inl e)"
  by (cases m) simp_all

lemma guardR_eq_Inr [simp, result_simps]: "(guardR c e = Inr u) \<longleftrightarrow> c"
  by (simp add: guardR_def)

lemma guardR_eq_Inl [simp, result_simps]: "(guardR c e = Inl e') \<longleftrightarrow> \<not> c \<and> e' = e"
  by (auto simp: guardR_def)

lemma guardR_True [simp]: "guardR True e = Inr ()"
  by (simp add: guardR_def)

lemma guardR_False [simp]: "guardR False e = Inl e"
  by (simp add: guardR_def)

lemma bindR_assoc: "bindR (bindR m f) g = bindR m (\<lambda>x. bindR (f x) g)"
  by (cases m) simp_all

lemma bindR_cong [fundef_cong]:
  "m = m' \<Longrightarrow> (\<And>x. m' = Inr x \<Longrightarrow> f x = f' x) \<Longrightarrow> bindR m f = bindR m' f'"
  by (cases m') simp_all

lemma is_ok_iff: "is_ok r \<longleftrightarrow> (\<exists>x. r = Inr x)"
  by (cases r) simp_all

section \<open>Machine integers\<close>

text \<open>\<open>wrap64\<close> is the value an \<^verbatim>\<open>int64\<close> operation leaves for an exact integer result.\<close>

definition wrap64 :: "int \<Rightarrow> int" where
  "wrap64 x = (x + 2 ^ 63) mod 2 ^ 64 - 2 ^ 63"

definition int64 :: "int \<Rightarrow> bool" where
  "int64 x \<longleftrightarrow> - (2 ^ 63) \<le> x \<and> x < 2 ^ 63"

lemma int64_wrap64: "int64 (wrap64 x)"
  by (simp add: int64_def wrap64_def)

lemma wrap64_id: "int64 x \<Longrightarrow> wrap64 x = x"
  by (simp add: int64_def wrap64_def)

lemma wrap64_max: "wrap64 (9223372036854775807 + 1) = - 9223372036854775808"
  by (simp add: wrap64_def)

section \<open>Byte classes\<close>

definition is_digit :: "char \<Rightarrow> bool" where
  "is_digit c \<longleftrightarrow> CHR ''0'' \<le> c \<and> c \<le> CHR ''9''"

definition is_lower :: "char \<Rightarrow> bool" where
  "is_lower c \<longleftrightarrow> CHR ''a'' \<le> c \<and> c \<le> CHR ''z''"

definition is_upper :: "char \<Rightarrow> bool" where
  "is_upper c \<longleftrightarrow> CHR ''A'' \<le> c \<and> c \<le> CHR ''Z''"

definition is_lower_hex :: "char \<Rightarrow> bool" where
  "is_lower_hex c \<longleftrightarrow> is_digit c \<or> CHR ''a'' \<le> c \<and> c \<le> CHR ''f''"

text \<open>The byte expression \<^verbatim>\<open>c - '0'\<close>, which wraps modulo 256.\<close>

definition digit_val :: "char \<Rightarrow> nat" where
  "digit_val c = (of_char c + 208) mod 256"

definition digit_char :: "nat \<Rightarrow> char" where
  "digit_char d = char_of (d + 48)"

lemma is_digit_code: "is_digit c \<longleftrightarrow> 48 \<le> (of_char c :: nat) \<and> (of_char c :: nat) \<le> 57"
  by (simp add: is_digit_def less_eq_char_def)

lemma is_lower_code: "is_lower c \<longleftrightarrow> 97 \<le> (of_char c :: nat) \<and> (of_char c :: nat) \<le> 122"
  by (simp add: is_lower_def less_eq_char_def)

lemma is_upper_code: "is_upper c \<longleftrightarrow> 65 \<le> (of_char c :: nat) \<and> (of_char c :: nat) \<le> 90"
  by (simp add: is_upper_def less_eq_char_def)

lemma digit_val_digit: "is_digit c \<Longrightarrow> digit_val c = of_char c - 48"
proof -
  assume "is_digit c"
  then obtain k :: nat where "of_char c = k + 48" "k < 10"
    unfolding is_digit_code
    by (intro that [of "of_char c - 48"]) linarith+
  then show ?thesis by (simp add: digit_val_def)
qed

lemma of_char_digit_char [simp]: "d < 10 \<Longrightarrow> (of_char (digit_char d) :: nat) = d + 48"
  by (simp add: digit_char_def)

lemma digit_char_0 [simp]: "digit_char 0 = CHR ''0''"
  by code_simp

lemma digit_char_1 [simp]: "digit_char 1 = CHR ''1''" "digit_char (Suc 0) = CHR ''1''"
  by code_simp+

lemma is_digit_digit_char [simp]: "d < 10 \<Longrightarrow> is_digit (digit_char d)"
  by (simp add: is_digit_code)

lemma digit_val_digit_char [simp]: "d < 10 \<Longrightarrow> digit_val (digit_char d) = d"
  by (simp add: digit_val_digit)

lemma digit_val_less: "is_digit c \<Longrightarrow> digit_val c < 10"
  using digit_val_digit [of c] unfolding is_digit_code by linarith

lemma char_eq_iff_code: "c = d \<longleftrightarrow> (of_char c :: nat) = of_char d"
  by simp

lemma digit_char_digit_val [simp]: "is_digit c \<Longrightarrow> digit_char (digit_val c) = c"
  using of_char_digit_char [of "digit_val c"] digit_val_less [of c]
  by (simp add: char_eq_iff_code digit_val_digit is_digit_code del: of_char_eq_iff)

lemma digit_val_inj: "is_digit c \<Longrightarrow> is_digit d \<Longrightarrow> digit_val c = digit_val d \<Longrightarrow> c = d"
  by (metis digit_char_digit_val)

lemma digit_less_iff: "is_digit c \<Longrightarrow> is_digit d \<Longrightarrow> c < d \<longleftrightarrow> digit_val c < digit_val d"
  by (auto simp: is_digit_code less_char_def digit_val_digit)

lemma digit_val_zero_iff: "is_digit c \<Longrightarrow> digit_val c = 0 \<longleftrightarrow> c = CHR ''0''"
  by (auto simp: is_digit_code digit_val_digit char_eq_iff_code simp del: of_char_eq_iff)

section \<open>Decimal numerals\<close>

text \<open>Value of a digit string, most significant digit first.\<close>

fun dec_acc :: "nat \<Rightarrow> bytes \<Rightarrow> nat" where
  "dec_acc n [] = n"
| "dec_acc n (c # cs) = dec_acc (n * 10 + digit_val c) cs"

definition dec_val :: "bytes \<Rightarrow> nat" where
  "dec_val s = dec_acc 0 s"

text \<open>Decimal printing without leading zeros: \<^verbatim>\<open>strconv.FormatUint(v, 10)\<close>.\<close>

fun fmt_nat :: "nat \<Rightarrow> bytes" where
  "fmt_nat n = (if n < 10 then [digit_char n] else fmt_nat (n div 10) @ [digit_char (n mod 10)])"

declare fmt_nat.simps [simp del]

text \<open>\<^verbatim>\<open>strconv.FormatInt(v, 10)\<close> and \<^verbatim>\<open>strconv.Itoa\<close>.\<close>

definition fmt_int :: "int \<Rightarrow> bytes" where
  "fmt_int i = (if i < 0 then CHR ''-'' # fmt_nat (nat (- i)) else fmt_nat (nat i))"

definition all_digits :: "bytes \<Rightarrow> bool" where
  "all_digits s \<longleftrightarrow> list_all is_digit s"

text \<open>Canonical decimal numerals: digits, no leading zero unless the numeral is a single zero.\<close>

definition canonical_dec :: "bytes \<Rightarrow> bool" where
  "canonical_dec s \<longleftrightarrow> s \<noteq> [] \<and> all_digits s \<and> (1 < length s \<longrightarrow> hd s \<noteq> CHR ''0'')"

lemma all_digits_Nil [simp]: "all_digits []"
  by (simp add: all_digits_def)

lemma all_digits_Cons [simp]: "all_digits (c # s) \<longleftrightarrow> is_digit c \<and> all_digits s"
  by (simp add: all_digits_def)

lemma all_digits_append [simp]: "all_digits (s @ t) \<longleftrightarrow> all_digits s \<and> all_digits t"
  by (simp add: all_digits_def)

lemma dec_acc_append: "dec_acc n (s @ t) = dec_acc (dec_acc n s) t"
  by (induction s arbitrary: n) simp_all

lemma dec_acc_eq: "dec_acc n s = n * 10 ^ length s + dec_acc 0 s"
proof (induction s arbitrary: n)
  case (Cons c s)
  show ?case
    using Cons.IH [of "n * 10 + digit_val c"] Cons.IH [of "digit_val c"]
    by (simp add: algebra_simps)
qed simp

lemma dec_val_Nil [simp]: "dec_val [] = 0"
  by (simp add: dec_val_def)

lemma dec_val_Cons: "dec_val (c # s) = digit_val c * 10 ^ length s + dec_val s"
  using dec_acc_eq [of "digit_val c" s] by (simp add: dec_val_def)

lemma dec_val_append: "dec_val (s @ t) = dec_val s * 10 ^ length t + dec_val t"
  using dec_acc_eq [of "dec_acc 0 s" t] by (simp add: dec_val_def dec_acc_append)

lemma dec_val_snoc: "dec_val (s @ [c]) = dec_val s * 10 + digit_val c"
  by (simp add: dec_val_append dec_val_Cons)

lemma dec_val_less: "all_digits s \<Longrightarrow> dec_val s < 10 ^ length s"
proof (induction s)
  case (Cons c s)
  then have "dec_val s < 10 ^ length s" and "digit_val c \<le> 9"
    using digit_val_less [of c] by auto
  moreover from this(2) have "digit_val c * 10 ^ length s \<le> 9 * 10 ^ length s"
    by (rule mult_right_mono) simp
  ultimately show ?case unfolding dec_val_Cons length_Cons power_Suc by linarith
qed simp

lemma dec_val_ge: "all_digits (c # s) \<Longrightarrow> c \<noteq> CHR ''0'' \<Longrightarrow> 10 ^ length s \<le> dec_val (c # s)"
proof -
  assume a: "all_digits (c # s)" and nz: "c \<noteq> CHR ''0''"
  then have "1 \<le> digit_val c"
    using digit_val_zero_iff [of c] by (cases "digit_val c") auto
  then have "1 * 10 ^ length s \<le> digit_val c * 10 ^ length s"
    by (rule mult_right_mono) simp
  then show ?thesis by (simp add: dec_val_Cons trans_le_add1)
qed

lemma dec_val_less_iff:
  "all_digits s \<Longrightarrow> all_digits t \<Longrightarrow> length s = length t \<Longrightarrow> s < t \<longleftrightarrow> dec_val s < dec_val t"
proof (induction s arbitrary: t)
  case (Cons c s)
  then obtain d u where t: "t = d # u" by (cases t) auto
  have bs: "dec_val s < 10 ^ length s" "dec_val u < 10 ^ length s"
    using Cons.prems t dec_val_less [of s] dec_val_less [of u] by auto
  have IH: "s < u \<longleftrightarrow> dec_val s < dec_val u"
    using Cons t by auto
  have dg: "c < d \<longleftrightarrow> digit_val c < digit_val d" and eq: "c = d \<longleftrightarrow> digit_val c = digit_val d"
    using Cons.prems t digit_less_iff [of c d] digit_val_inj [of c d] by auto
  have len: "length u = length s" using Cons.prems t by simp
  let ?p = "10 ^ length s :: nat"
  consider "digit_val c < digit_val d" | "digit_val c = digit_val d" | "digit_val d < digit_val c"
    by linarith
  then show ?case
  proof cases
    case 1
    then have "(digit_val c + 1) * ?p \<le> digit_val d * ?p" by (intro mult_right_mono) auto
    then have "dec_val (c # s) < dec_val t" using bs len t by (simp add: dec_val_Cons)
    then show ?thesis using 1 dg t by simp
  next
    case 2
    then show ?thesis using eq IH dg len t by (simp add: dec_val_Cons)
  next
    case 3
    then have "(digit_val d + 1) * ?p \<le> digit_val c * ?p" by (intro mult_right_mono) auto
    then have "dec_val t < dec_val (c # s)" using bs len t by (simp add: dec_val_Cons)
    then show ?thesis using 3 dg eq t by auto
  qed
qed simp

lemma dec_val_inj:
  assumes "all_digits s" "all_digits t" "length s = length t" "dec_val s = dec_val t"
  shows "s = t"
  using dec_val_less_iff [OF assms(1-3)] dec_val_less_iff [OF assms(2,1)] assms(3,4)
  by (cases s t rule: linorder_cases) auto

lemma canonical_length_less:
  assumes "canonical_dec s" "canonical_dec t" "length s < length t"
  shows "dec_val s < dec_val t"
proof -
  obtain d u where t: "t = d # u" using assms(2) by (cases t) (auto simp: canonical_dec_def)
  then have "10 ^ length u \<le> dec_val t"
    using assms dec_val_ge [of d u] by (cases u) (auto simp: canonical_dec_def)
  moreover have "dec_val s < 10 ^ length s"
    using assms(1) by (simp add: canonical_dec_def dec_val_less)
  moreover have "(10::nat) ^ length s \<le> 10 ^ length u"
    using assms(3) t by (intro power_increasing) auto
  ultimately show ?thesis by linarith
qed

lemma canonical_dec_inj:
  assumes "canonical_dec s" "canonical_dec t" "dec_val s = dec_val t"
  shows "s = t"
  using canonical_length_less [OF assms(1,2)] canonical_length_less [OF assms(2,1)] assms
  by (cases "length s" "length t" rule: linorder_cases)
    (auto simp: canonical_dec_def intro: dec_val_inj)

lemma canonical_le_iff:
  assumes "canonical_dec s" "canonical_dec t"
  shows "dec_val s \<le> dec_val t \<longleftrightarrow> length s < length t \<or> length s = length t \<and> s \<le> t"
proof (cases "length s" "length t" rule: linorder_cases)
  case less
  then show ?thesis using canonical_length_less [OF assms] by simp
next
  case equal
  then have "t < s \<longleftrightarrow> dec_val t < dec_val s"
    using assms by (intro dec_val_less_iff) (auto simp: canonical_dec_def)
  then show ?thesis using equal by (auto simp: not_less [symmetric])
next
  case greater
  then show ?thesis using canonical_length_less [OF assms(2,1)] by simp
qed

lemma all_digits_fmt_nat [simp]: "all_digits (fmt_nat n)"
proof (induction n rule: fmt_nat.induct)
  case (1 n)
  then show ?case by (subst fmt_nat.simps) simp
qed

lemma fmt_nat_nonempty [simp]: "fmt_nat n \<noteq> []"
  by (subst fmt_nat.simps) simp

lemma dec_val_fmt_nat [simp]: "dec_val (fmt_nat n) = n"
proof (induction n rule: fmt_nat.induct)
  case (1 n)
  then show ?case by (subst fmt_nat.simps) (simp add: dec_val_Cons dec_val_snoc)
qed

lemma hd_fmt_nat: "0 < n \<Longrightarrow> hd (fmt_nat n) \<noteq> CHR ''0''"
proof (induction n rule: fmt_nat.induct)
  case (1 n)
  show ?case
  proof (cases "n < 10")
    case True
    then have "digit_char n \<noteq> CHR ''0''"
      using 1(2) digit_val_digit_char [of n] digit_val_zero_iff [of "digit_char n"] is_digit_digit_char [of n]
      by linarith
    then show ?thesis using True by (subst fmt_nat.simps) simp
  next
    case False
    then show ?thesis using 1 by (subst fmt_nat.simps) (simp add: hd_append)
  qed
qed

lemma canonical_fmt_nat [simp]: "canonical_dec (fmt_nat n)"
proof -
  have "1 < length (fmt_nat n) \<Longrightarrow> 0 < n"
    by (cases n) (simp_all add: fmt_nat.simps [of 0])
  then show ?thesis using hd_fmt_nat [of n] by (auto simp: canonical_dec_def)
qed

lemma fmt_nat_dec_val: "canonical_dec s \<Longrightarrow> fmt_nat (dec_val s) = s"
  by (rule canonical_dec_inj) simp_all

lemma fmt_nat_inj [simp]: "fmt_nat m = fmt_nat n \<longleftrightarrow> m = n"
  by (metis dec_val_fmt_nat)

lemma fmt_nat_digits: "c \<in> set (fmt_nat n) \<Longrightarrow> is_digit c"
  using all_digits_fmt_nat [of n] by (auto simp: all_digits_def list_all_iff)

lemma is_digit_not_minus [simp]: "\<not> is_digit (CHR ''-'')"
  by (simp add: is_digit_code)

lemma fmt_int_inj: "fmt_int i = fmt_int j \<Longrightarrow> i = j"
proof -
  have m: "fmt_nat n \<noteq> CHR ''-'' # s" for n s
    using fmt_nat_digits [of "CHR ''-''" n] by (metis is_digit_not_minus list.set_intros(1))
  show "fmt_int i = fmt_int j \<Longrightarrow> i = j"
    using m m [symmetric] by (auto simp: fmt_int_def split: if_splits)
qed

section \<open>Instants\<close>

text \<open>
  A \<^verbatim>\<open>time.Time\<close> is an instant in nanoseconds from the Unix epoch, a \<^verbatim>\<open>time.Duration\<close> a number of nanoseconds. The zero
  value is the first instant of year 1.
\<close>

type_synonym instant = int

definition zeroTime :: instant where
  "zeroTime = - 62135596800000000000"

definition millisecond :: int where "millisecond = 1000000"
definition second :: int where "second = 1000000000"
definition minute :: int where "minute = 60000000000"

definition UnixMilli :: "instant \<Rightarrow> int" where
  "UnixMilli t = wrap64 (t div millisecond)"

definition timeOfMilli :: "int \<Rightarrow> instant" where
  "timeOfMilli ms = ms * millisecond"

text \<open>A \<^verbatim>\<open>context.Context\<close>: \<open>None\<close> is nil, \<open>Some True\<close> one that is done.\<close>

type_synonym goContext = "bool option"

section \<open>Codecs\<close>

text \<open>
  The contract of a codec whose encoder may refuse: what it emits decodes, to the value up to the normal form the
  codec keeps. A wire text then stands for one value only.
\<close>

locale codec =
  fixes enc :: "'a \<Rightarrow> ('e, bytes) result"
    and dec :: "bytes \<Rightarrow> ('f, 'a) result"
    and norm :: "'a \<Rightarrow> 'a"
  assumes dec_enc: "enc x = Inr w \<Longrightarrow> dec w = Inr (norm x)"
begin

lemma enc_unambiguous:
  assumes "enc x = Inr w" "enc y = Inr w"
  shows "norm x = norm y"
  using dec_enc [OF assms(1)] dec_enc [OF assms(2)] by simp

lemma enc_decodable: "enc x = Inr w \<Longrightarrow> is_ok (dec w)"
  using dec_enc by simp

end

end
