(* ===== verification/Grammar.thy ===== *)
theory Grammar
  imports Prelude
begin

text \<open>
  The lexical validators of \<^verbatim>\<open>core/protocol/go\<close>: identifiers and message types, bounded decimal
  strings, error codes, and the media v1 field grammars. Each loop of the source is a recursive
  function over the remaining bytes that carries the source's loop index; the lemmas characterise
  the accepted language.
\<close>

section \<open>Identifiers, decimals and error codes\<close>

definition ident_byte :: "char \<Rightarrow> bool" where
  "ident_byte c \<longleftrightarrow> is_lower c \<or> is_upper c \<or> is_digit c \<or> c = CHR ''_'' \<or> c = CHR ''-''"

definition type_byte :: "char \<Rightarrow> bool" where
  "type_byte c \<longleftrightarrow> is_lower c \<or> c = CHR ''_'' \<or> is_digit c"

fun identifier_loop :: "bool \<Rightarrow> nat \<Rightarrow> bytes \<Rightarrow> bool" where
  "identifier_loop messageType i [] = True"
| "identifier_loop messageType i (c # cs) =
     (if messageType then
        (if is_lower c \<or> (0 < i \<and> (c = CHR ''_'' \<or> is_digit c))
         then identifier_loop messageType (Suc i) cs else False)
      else if is_lower c \<or> is_upper c \<or> is_digit c \<or> c = CHR ''_'' \<or> c = CHR ''-''
      then identifier_loop messageType (Suc i) cs
      else False)"

definition is_identifier :: "bytes \<Rightarrow> nat \<Rightarrow> bool \<Rightarrow> bool" where
  "is_identifier s limit messageType =
     (if length s = 0 \<or> limit < length s then False else identifier_loop messageType 0 s)"

definition decimal :: "bytes \<Rightarrow> bytes \<Rightarrow> bool" where
  "decimal s maximum =
     (if length s = 0 \<or> length maximum < length s \<or> (1 < length s \<and> hd s = CHR ''0'') then False
      else if \<not> list_all is_digit s then False
      else length s < length maximum \<or> s \<le> maximum)"

definition code_byte :: "char \<Rightarrow> bool" where
  "code_byte c \<longleftrightarrow> is_upper c \<or> is_digit c \<or> c = CHR ''_''"

definition validCode :: "bytes \<Rightarrow> bool" where
  "validCode s =
     (if length s = 0 \<or> 64 < length s \<or> \<not> is_upper (hd s) then False else list_all code_byte s)"

section \<open>Media v1 fields\<close>

definition MaxMediaSize :: int where
  "MaxMediaSize = 104857600"

record MediaMetadata =
  mm_MediaKey :: bytes
  mm_Kind :: bytes
  mm_ContentType :: bytes
  mm_Size :: bytes
  mm_SHA256 :: bytes

definition SupportedMediaKind :: "bytes \<Rightarrow> bool" where
  "SupportedMediaKind kind \<longleftrightarrow>
     kind = ''image'' \<or> kind = ''video'' \<or> kind = ''audio'' \<or> kind = ''file''"

definition ValidMediaKey :: "bytes \<Rightarrow> bool" where
  "ValidMediaKey value = is_identifier value 128 False"

text \<open>The first loop of \<^verbatim>\<open>ValidMediaContentType\<close>: \<open>None\<close> is its early \<^verbatim>\<open>return false\<close>.\<close>

fun find_slash :: "nat \<Rightarrow> int \<Rightarrow> bytes \<Rightarrow> int option" where
  "find_slash i slash [] = Some slash"
| "find_slash i slash (c # cs) =
     (if c = CHR ''/'' then (if 0 \<le> slash then None else find_slash (Suc i) (int i) cs)
      else find_slash (Suc i) slash cs)"

definition mime_first :: "char \<Rightarrow> bool" where
  "mime_first c \<longleftrightarrow> is_lower c \<or> is_digit c"

definition mime_rest :: "char \<Rightarrow> bool" where
  "mime_rest c \<longleftrightarrow> is_lower c \<or> is_digit c \<or> c \<in> set ''!#$&^_.+-''"

fun mime_loop :: "nat \<Rightarrow> int \<Rightarrow> bytes \<Rightarrow> bool" where
  "mime_loop i slash [] = True"
| "mime_loop i slash (c # cs) =
     (if i = 0 \<or> int i = slash + 1 then
        (if mime_first c then mime_loop (Suc i) slash cs else False)
      else if c = CHR ''/'' then mime_loop (Suc i) slash cs
      else if mime_rest c then mime_loop (Suc i) slash cs
      else False)"

definition ValidMediaContentType :: "bytes \<Rightarrow> bool" where
  "ValidMediaContentType value =
     (if length value = 0 \<or> 128 < length value then False
      else case find_slash 0 (-1) value of
        None \<Rightarrow> False
      | Some slash \<Rightarrow>
          if slash < 1 \<or> 63 < slash \<or> int (length value) - slash - 1 < 1 \<or>
             64 < int (length value) - slash - 1 then False
          else mime_loop 0 slash value)"

text \<open>\<^verbatim>\<open>strconv.ParseInt(value, 10, 64)\<close>: optional sign, at least one digit, in range.\<close>

definition ParseInt64 :: "bytes \<Rightarrow> int option" where
  "ParseInt64 s =
     (let neg = (s \<noteq> [] \<and> hd s = CHR ''-'');
          ds = (if s \<noteq> [] \<and> (hd s = CHR ''-'' \<or> hd s = CHR ''+'') then tl s else s);
          v = (if neg then - int (dec_val ds) else int (dec_val ds))
      in if ds \<noteq> [] \<and> all_digits ds \<and> int64 v then Some v else None)"

definition ValidMediaSize :: "bytes \<Rightarrow> bool" where
  "ValidMediaSize value =
     (if length value = 0 \<or> 9 < length value \<or>
         \<not> (CHR ''1'' \<le> hd value \<and> hd value \<le> CHR ''9'') then False
      else if \<not> list_all is_digit (tl value) then False
      else case ParseInt64 value of None \<Rightarrow> False | Some n \<Rightarrow> 1 \<le> n \<and> n \<le> MaxMediaSize)"

definition ValidMediaSHA256 :: "bytes \<Rightarrow> bool" where
  "ValidMediaSHA256 value =
     (if length value \<noteq> 64 then False else list_all is_lower_hex value)"

definition ValidMediaMetadata :: "MediaMetadata \<Rightarrow> bool" where
  "ValidMediaMetadata m \<longleftrightarrow>
     ValidMediaKey (mm_MediaKey m) \<and> SupportedMediaKind (mm_Kind m) \<and>
     ValidMediaContentType (mm_ContentType m) \<and> ValidMediaSize (mm_Size m) \<and>
     ValidMediaSHA256 (mm_SHA256 m)"

section \<open>The accepted languages\<close>

text \<open>The identifier grammar every package copies: one to 128 bytes of \<^verbatim>\<open>[A-Za-z0-9_-]\<close>.\<close>

definition ident128 :: "bytes \<Rightarrow> bool" where
  "ident128 s \<longleftrightarrow> s \<noteq> [] \<and> length s \<le> 128 \<and> list_all ident_byte s"

lemma identifier_loop_plain: "identifier_loop False i s \<longleftrightarrow> list_all ident_byte s"
  by (induction s arbitrary: i) (auto simp: ident_byte_def)

lemma identifier_loop_type: "0 < i \<Longrightarrow> identifier_loop True i s \<longleftrightarrow> list_all type_byte s"
  by (induction s arbitrary: i) (auto simp: type_byte_def)

lemma identifier_plain:
  "is_identifier s n False \<longleftrightarrow> s \<noteq> [] \<and> length s \<le> n \<and> list_all ident_byte s"
  by (auto simp: is_identifier_def identifier_loop_plain)

lemma identifier_128 [simp]: "is_identifier s 128 False \<longleftrightarrow> ident128 s"
  by (simp add: identifier_plain ident128_def)

lemma identifier_type:
  "is_identifier s n True \<longleftrightarrow> s \<noteq> [] \<and> length s \<le> n \<and> is_lower (hd s) \<and> list_all type_byte (tl s)"
  by (cases s) (auto simp: is_identifier_def identifier_loop_type)

lemma identifier_type_bytes: "is_identifier s n True \<Longrightarrow> list_all type_byte s"
  by (cases s) (auto simp: identifier_type type_byte_def)

lemma decimal_canonical: "decimal s m \<Longrightarrow> canonical_dec s"
  by (auto simp: decimal_def canonical_dec_def all_digits_def split: if_splits)

lemma decimal_iff_le:
  assumes "canonical_dec m"
  shows "decimal s m \<longleftrightarrow> canonical_dec s \<and> dec_val s \<le> dec_val m"
proof (cases "canonical_dec s")
  case True
  then show ?thesis
    using canonical_le_iff [OF True assms]
    by (auto simp: decimal_def canonical_dec_def all_digits_def)
next
  case False
  then show ?thesis using decimal_canonical by blast
qed

lemma decimal_iff_fmt:
  assumes "canonical_dec m"
  shows "decimal s m \<longleftrightarrow> (\<exists>n \<le> dec_val m. s = fmt_nat n)"
  using decimal_iff_le [OF assms, of s] fmt_nat_dec_val [of s] by force

lemma canonical_max_int64: "canonical_dec ''9223372036854775807''"
  by (simp add: canonical_dec_def is_digit_code)

lemma dec_val_max_int64: "dec_val ''9223372036854775807'' = 9223372036854775807"
  by (simp add: dec_val_def digit_val_def)

lemma canonical_max_int32: "canonical_dec ''2147483647''"
  by (simp add: canonical_dec_def is_digit_code)

lemma dec_val_max_int32: "dec_val ''2147483647'' = 2147483647"
  by (simp add: dec_val_def digit_val_def)

lemma validCode_iff:
  "validCode s \<longleftrightarrow> s \<noteq> [] \<and> length s \<le> 64 \<and> is_upper (hd s) \<and> list_all code_byte s"
  by (auto simp: validCode_def)

text \<open>The slash scan finds the position of the only slash.\<close>

lemma find_slash_seen: "0 \<le> k \<Longrightarrow> find_slash i k s = (if CHR ''/'' \<in> set s then None else Some k)"
  by (induction s arbitrary: i) auto

lemma find_slash_none: "CHR ''/'' \<notin> set s \<Longrightarrow> find_slash i (-1) s = Some (-1)"
  by (induction s arbitrary: i) auto

lemma find_slash_first:
  "CHR ''/'' \<notin> set t \<Longrightarrow>
   find_slash i (-1) (t @ CHR ''/'' # u) =
     (if CHR ''/'' \<in> set u then None else Some (int (i + length t)))"
  by (induction t arbitrary: i) (auto simp: find_slash_seen)

lemma mime_rest_not_slash: "\<not> mime_rest (CHR ''/'')" "\<not> mime_first (CHR ''/'')"
  by (simp_all add: mime_rest_def mime_first_def is_lower_code is_digit_code)

lemma mime_first_rest: "mime_first c \<Longrightarrow> mime_rest c"
  by (auto simp: mime_first_def mime_rest_def)

lemma mime_loop_tail:
  "CHR ''/'' \<notin> set s \<Longrightarrow> 0 < i \<Longrightarrow> k + 1 < int i \<Longrightarrow> mime_loop i k s \<longleftrightarrow> list_all mime_rest s"
  by (induction s arbitrary: i) auto

lemma mime_loop_head:
  "CHR ''/'' \<notin> set t \<Longrightarrow> 0 < i \<Longrightarrow> k = int (i + length t) \<Longrightarrow>
   mime_loop i k (t @ CHR ''/'' # u) \<longleftrightarrow> list_all mime_rest t \<and> mime_loop (i + length t) k (CHR ''/'' # u)"
  by (induction t arbitrary: i) auto

lemma mime_loop_split:
  assumes "CHR ''/'' \<notin> set (a # t)" "CHR ''/'' \<notin> set (b # u)"
  shows "mime_loop 0 (int (length (a # t))) ((a # t) @ CHR ''/'' # (b # u)) \<longleftrightarrow>
    mime_first a \<and> list_all mime_rest t \<and> mime_first b \<and> list_all mime_rest u"
proof -
  have "mime_loop 1 (int (Suc (length t))) (t @ CHR ''/'' # (b # u)) \<longleftrightarrow>
    list_all mime_rest t \<and> mime_loop (1 + length t) (int (Suc (length t))) (CHR ''/'' # b # u)"
    using assms by (intro mime_loop_head) auto
  also have "mime_loop (1 + length t) (int (Suc (length t))) (CHR ''/'' # b # u) \<longleftrightarrow>
    mime_first b \<and> mime_loop (Suc (Suc (Suc (length t)))) (int (Suc (length t))) u"
    by simp
  also have "mime_loop (Suc (Suc (Suc (length t)))) (int (Suc (length t))) u \<longleftrightarrow> list_all mime_rest u"
    using assms by (intro mime_loop_tail) auto
  finally show ?thesis by simp
qed

text \<open>The media v1 MIME grammar as a language: type and subtype around one slash.\<close>

definition mime_token :: "nat \<Rightarrow> bytes \<Rightarrow> bool" where
  "mime_token n t \<longleftrightarrow> t \<noteq> [] \<and> length t \<le> n \<and> mime_first (hd t) \<and> list_all mime_rest (tl t)"

lemma mime_token_no_slash: "mime_token n t \<Longrightarrow> CHR ''/'' \<notin> set t"
  by (cases t) (auto simp: mime_token_def list_all_iff dest: mime_first_rest
      simp: mime_rest_not_slash)

lemma ContentType_sound:
  assumes "ValidMediaContentType s"
  shows "\<exists>t u. s = t @ CHR ''/'' # u \<and> mime_token 63 t \<and> mime_token 64 u"
proof -
  obtain k where k: "find_slash 0 (-1) s = Some k" "1 \<le> k" "k \<le> 63"
    "1 \<le> int (length s) - k - 1" "int (length s) - k - 1 \<le> 64" "mime_loop 0 k s"
    using assms by (auto simp: ValidMediaContentType_def split: if_splits option.splits)
  then have "CHR ''/'' \<in> set s" using find_slash_none [of s 0] by fastforce
  then obtain t u where s: "s = t @ CHR ''/'' # u" and t: "CHR ''/'' \<notin> set t"
    by (meson split_list_first)
  have u: "CHR ''/'' \<notin> set u" and kt: "k = int (length t)"
    using k(1) find_slash_first [OF t, of 0 u] s by (auto split: if_splits)
  obtain a t' b u' where "t = a # t'" "u = b # u'"
    using k kt s by (cases t; cases u) auto
  then show ?thesis
    using k kt s t u mime_loop_split [of a t' b u']
    by (intro exI [of _ t] exI [of _ u]) (auto simp: mime_token_def)
qed

lemma ContentType_complete:
  assumes "mime_token 63 t" "mime_token 64 u"
  shows "ValidMediaContentType (t @ CHR ''/'' # u)"
proof -
  obtain a t' b u' where tu: "t = a # t'" "u = b # u'"
    using assms by (cases t; cases u) (auto simp: mime_token_def)
  have ns: "CHR ''/'' \<notin> set t" "CHR ''/'' \<notin> set u"
    using assms mime_token_no_slash by auto
  have "find_slash 0 (-1) (t @ CHR ''/'' # u) = Some (int (length t))"
    using find_slash_first [OF ns(1), of 0 u] ns(2) by simp
  moreover have "mime_loop 0 (int (length t)) (t @ CHR ''/'' # u)"
    using mime_loop_split [of a t' b u'] assms tu ns by (auto simp: mime_token_def)
  ultimately show ?thesis
    using assms tu by (auto simp: ValidMediaContentType_def mime_token_def)
qed

lemma ValidMediaSize_parts:
  "ValidMediaSize s \<longleftrightarrow> s \<noteq> [] \<and> length s \<le> 9 \<and> canonical_dec s \<and> hd s \<noteq> CHR ''0'' \<and>
     int (dec_val s) \<le> MaxMediaSize"
proof (cases s)
  case (Cons c t)
  have first: "CHR ''1'' \<le> c \<and> c \<le> CHR ''9'' \<longleftrightarrow> is_digit c \<and> c \<noteq> CHR ''0''"
    by (auto simp: is_digit_code less_eq_char_def char_eq_iff_code simp del: of_char_eq_iff)
  show ?thesis
  proof (cases "length s \<le> 9 \<and> all_digits s \<and> c \<noteq> CHR ''0''")
    case True
    then have d: "is_digit c" "all_digits t" using Cons by auto
    have pm: "c \<noteq> CHR ''-''" "c \<noteq> CHR ''+''" using d(1) by (auto simp: is_digit_code)
    have "dec_val s < 10 ^ length s" using True by (simp add: dec_val_less)
    moreover have "(10::nat) ^ length s \<le> 10 ^ 9" using True by (intro power_increasing) auto
    ultimately have lt: "dec_val s < 10 ^ 9" by (rule less_le_trans)
    have "(10::nat) ^ length t \<le> dec_val s" using True Cons dec_val_ge [of c t] by simp
    then have "1 \<le> dec_val s" using one_le_power [of "10::nat" "length t"] by linarith
    moreover have "ParseInt64 s = Some (int (dec_val s))"
      using True Cons pm lt by (auto simp: ParseInt64_def Let_def int64_def)
    ultimately show ?thesis
      using True Cons first d by (auto simp: ValidMediaSize_def canonical_dec_def all_digits_def)
  next
    case False
    then show ?thesis
      using Cons first by (auto simp: ValidMediaSize_def canonical_dec_def all_digits_def split: if_splits)
  qed
qed (simp add: ValidMediaSize_def)

section \<open>Properties\<close>

text \<open>
  \<^verbatim>\<open>decimal(s, maximum)\<close> accepts exactly the canonical decimal numerals of the numbers from
  zero to the maximum, so string comparison decides the numeric bound.
\<close>

theorem decimal_accepts:
  assumes "canonical_dec m"
  shows "decimal s m \<longleftrightarrow> (\<exists>n \<le> dec_val m. s = fmt_nat n)"
  using assms by (rule decimal_iff_fmt)

theorem decimal_accepts_witness:
  "canonical_dec ''2147483647'' \<and>
   (decimal ''2147483648'' ''2147483647'' \<longleftrightarrow> (\<exists>n \<le> dec_val ''2147483647''. ''2147483648'' = fmt_nat n))"
  using canonical_max_int32 decimal_accepts [OF canonical_max_int32, of "''2147483648''"] by simp

text \<open>
  \<^verbatim>\<open>ValidMediaContentType\<close> with its two index loops accepts exactly the strings made of a type
  token of 1 to 63 bytes, one slash and a subtype token of 1 to 64 bytes.
\<close>

theorem ValidMediaContentType_language:
  "ValidMediaContentType s \<longleftrightarrow> (\<exists>t u. s = t @ CHR ''/'' # u \<and> mime_token 63 t \<and> mime_token 64 u)"
  using ContentType_sound ContentType_complete by blast

text \<open>
  \<^verbatim>\<open>ValidMediaSize\<close> accepts exactly the canonical decimal numerals of 1 to 104857600; the
  parse inside it never overflows.
\<close>

theorem ValidMediaSize_range:
  "ValidMediaSize s \<longleftrightarrow> (\<exists>n. 1 \<le> n \<and> n \<le> 104857600 \<and> s = fmt_nat n)"
proof
  assume v: "ValidMediaSize s"
  then obtain c t where ct: "s = c # t" by (cases s) (auto simp: ValidMediaSize_parts)
  then have "10 ^ length t \<le> dec_val s"
    using v dec_val_ge [of c t] by (auto simp: ValidMediaSize_parts canonical_dec_def)
  then have "1 \<le> dec_val s" using one_le_power [of "10::nat" "length t"] by linarith
  then show "\<exists>n. 1 \<le> n \<and> n \<le> 104857600 \<and> s = fmt_nat n"
    using v fmt_nat_dec_val [of s]
    by (intro exI [of _ "dec_val s"]) (simp add: ValidMediaSize_parts MaxMediaSize_def)
next
  assume "\<exists>n. 1 \<le> n \<and> n \<le> 104857600 \<and> s = fmt_nat n"
  then obtain n where n: "1 \<le> n" "n \<le> 104857600" and s: "s = fmt_nat n" by blast
  have "dec_val ''104857600'' = 104857600" by (simp add: dec_val_def digit_val_def)
  then have "dec_val s \<le> dec_val ''104857600''" using n s by simp
  moreover have "canonical_dec ''104857600''" by (simp add: canonical_dec_def is_digit_code)
  ultimately have "length s \<le> 9"
    using canonical_le_iff [of s "''104857600''"] s by auto
  then show "ValidMediaSize s"
    using n s hd_fmt_nat [of n] by (simp add: ValidMediaSize_parts MaxMediaSize_def)
qed

end
