(* ===== verification/JsonFacts.thy ===== *)
theory JsonFacts
  imports Json
begin

text \<open>
  Facts about the byte scanner: it only moves forward, more fuel never changes a result and the
  fuel of \<open>json_parse\<close> is enough, a value that parses alone parses the same way when structural
  punctuation follows, and quoting is undone by unquoting.
\<close>

named_theorems scan_suffix "scanners return a suffix of their input"

section \<open>Scanners move forward\<close>

lemma skip_ws_suffix [scan_suffix]: "suffix (skip_ws s) s"
  by (simp add: skip_ws_def suffix_dropWhile)

lemma strict_suffix_Cons [simp]: "strict_suffix r (x # xs) \<longleftrightarrow> suffix r xs"
  by (auto simp: strict_suffix_def suffix_Cons dest: suffix_length_le)

lemma suffix_CutI: "suffix r s \<Longrightarrow> suffix r (c # s)"
  by (simp add: suffix_Cons)

lemma strict_suffix_imp: "strict_suffix r s \<Longrightarrow> suffix r s"
  by (simp add: strict_suffix_def)

lemma suffix_strict_trans: "strict_suffix r s \<Longrightarrow> suffix s t \<Longrightarrow> strict_suffix r t"
  by (rule suffix_order.less_le_trans)

lemma scan_string_suffix [scan_suffix]: "scan_string s = Some r \<Longrightarrow> strict_suffix r s"
proof (induction s arbitrary: r rule: scan_string.induct)
  case (2 c cs)
  show ?case
  proof (cases "c = dquote \<or> c \<noteq> bslash")
    case True
    then show ?thesis using 2 by (auto split: if_splits intro: strict_suffix_imp)
  next
    case False
    then obtain e t where cs: "cs = e # t" using 2(4) by (cases cs) auto
    show ?thesis
    proof (cases "simple_escape e")
      case True
      then show ?thesis using 2 False cs by (auto intro!: suffix_CutI strict_suffix_imp)
    next
      case ns: False
      then have e: "e = CHR ''u''" using 2(4) False cs by (auto split: if_splits)
      then obtain h1 h2 h3 h4 t' where t: "t = h1 # h2 # h3 # h4 # t'"
        using 2(4) False cs ns by (auto split: list.splits)
      then have "strict_suffix r t'" using 2 False cs ns e by (auto split: if_splits)
      then show ?thesis by (auto simp: cs t intro!: suffix_CutI strict_suffix_imp)
    qed
  qed
qed simp

lemma digits1_suffix [scan_suffix]: "digits1 s = Some r \<Longrightarrow> strict_suffix r s"
  by (auto simp: digits1_def suffix_dropWhile split: list.splits if_splits)

lemma scan_int_suffix [scan_suffix]: "scan_int s = Some r \<Longrightarrow> strict_suffix r s"
  by (auto simp: scan_int_def suffix_dropWhile split: list.splits if_splits)

lemma scan_frac_suffix [scan_suffix]: "scan_frac s = Some r \<Longrightarrow> suffix r s"
  by (auto simp: scan_frac_def split: list.splits if_splits
      intro!: suffix_CutI strict_suffix_imp dest: digits1_suffix)

lemma scan_exp_suffix [scan_suffix]: "scan_exp s = Some r \<Longrightarrow> suffix r s"
  by (auto simp: scan_exp_def split: list.splits if_splits
      dest!: digits1_suffix intro: suffix_CutI strict_suffix_imp)

lemma scan_number_suffix [scan_suffix]: "scan_number s = Some r \<Longrightarrow> strict_suffix r s"
proof -
  assume "scan_number s = Some r"
  then obtain a b where ab: "scan_int (case s of c # r \<Rightarrow> if c = CHR ''-'' then r else s | [] \<Rightarrow> s) = Some a"
    "scan_frac a = Some b" "scan_exp b = Some r"
    by (auto simp: scan_number_def bind_eq_Some_conv)
  then have "suffix r a" using scan_exp_suffix scan_frac_suffix suffix_order.order_trans by blast
  moreover have "strict_suffix a s"
    using scan_int_suffix [OF ab(1)]
    by (auto split: list.splits if_splits intro: suffix_order.less_le_trans strict_suffix_imp)
  ultimately show ?thesis by (rule suffix_order.le_less_trans)
qed

lemma match_lit_suffix [scan_suffix]: "match_lit l s = Some r \<Longrightarrow> l \<noteq> [] \<Longrightarrow> strict_suffix r s"
  by (cases l; cases s) (auto simp: match_lit_def suffix_drop split: if_splits)

lemma scalar_suffix [scan_suffix]: "scalar s = Some (j, r) \<Longrightarrow> strict_suffix r s"
  by (auto simp: scalar_def split: list.splits if_splits
      dest!: scan_string_suffix scan_number_suffix match_lit_suffix intro: strict_suffix_imp)

lemma skip_ws_Cons_suffix: "skip_ws s = c # r \<Longrightarrow> strict_suffix r s"
  using skip_ws_suffix [of s] by (metis suffix_ConsD')

section \<open>The grammar as a relation\<close>

text \<open>
  \<open>jval d s j r\<close>: at nesting depth \<open>d\<close> the input \<open>s\<close> starts with the value \<open>j\<close> and \<open>r\<close> is left.
  No fuel; the scanner computes exactly this relation.
\<close>

inductive jval :: "nat \<Rightarrow> bytes \<Rightarrow> json \<Rightarrow> bytes \<Rightarrow> bool"
  and jelems :: "nat \<Rightarrow> bytes \<Rightarrow> json list \<Rightarrow> bytes \<Rightarrow> bool"
  and jmembers :: "nat \<Rightarrow> bytes \<Rightarrow> (bytes \<times> bytes \<times> json) list \<Rightarrow> bytes \<Rightarrow> bool" where
  obj0: "skip_ws s = CHR ''{'' # t \<Longrightarrow> d < MaxNesting \<Longrightarrow> skip_ws t = CHR ''}'' # r \<Longrightarrow>
     jval d s (JObject []) r"
| obj: "skip_ws s = CHR ''{'' # t \<Longrightarrow> d < MaxNesting \<Longrightarrow> skip_ws t = e # q \<Longrightarrow> e \<noteq> CHR ''}'' \<Longrightarrow>
     jmembers (Suc d) (e # q) ms r \<Longrightarrow> jval d s (JObject ms) r"
| arr0: "skip_ws s = CHR ''['' # t \<Longrightarrow> d < MaxNesting \<Longrightarrow> skip_ws t = CHR '']'' # r \<Longrightarrow>
     jval d s (JArray []) r"
| arr: "skip_ws s = CHR ''['' # t \<Longrightarrow> d < MaxNesting \<Longrightarrow> skip_ws t = e # q \<Longrightarrow> e \<noteq> CHR '']'' \<Longrightarrow>
     jelems (Suc d) (e # q) vs r \<Longrightarrow> jval d s (JArray vs) r"
| sca: "skip_ws s = c # t \<Longrightarrow> c \<noteq> CHR ''{'' \<Longrightarrow> c \<noteq> CHR ''['' \<Longrightarrow> scalar (c # t) = Some (j, r) \<Longrightarrow>
     jval d s j r"
| el1: "jval d s v q \<Longrightarrow> skip_ws q = CHR '']'' # r \<Longrightarrow> jelems d s [v] r"
| el2: "jval d s v q \<Longrightarrow> skip_ws q = CHR '','' # t \<Longrightarrow> jelems d t vs r \<Longrightarrow> jelems d s (v # vs) r"
| mem1: "skip_ws s = dquote # q \<Longrightarrow> scan_string q = Some q1 \<Longrightarrow> skip_ws q1 = CHR '':'' # q2 \<Longrightarrow>
     jval d q2 v q3 \<Longrightarrow> skip_ws q3 = CHR ''}'' # r \<Longrightarrow>
     jmembers d s [(unquote (butlast (consumed q q1)), consumed (skip_ws q2) q3, v)] r"
| mem2: "skip_ws s = dquote # q \<Longrightarrow> scan_string q = Some q1 \<Longrightarrow> skip_ws q1 = CHR '':'' # q2 \<Longrightarrow>
     jval d q2 v q3 \<Longrightarrow> skip_ws q3 = CHR '','' # t \<Longrightarrow> jmembers d t ms r \<Longrightarrow>
     jmembers d s ((unquote (butlast (consumed q q1)), consumed (skip_ws q2) q3, v) # ms) r"

lemma pv_sound_aux:
  "pv n d s = Some (j, r) \<Longrightarrow> jval d s j r"
  "pelems n d s = Some (vs, r) \<Longrightarrow> jelems d s vs r"
  "pmembers n d s = Some (ms, r) \<Longrightarrow> jmembers d s ms r"
proof (induction n d s and n d s and n d s arbitrary: j r and vs r and ms r rule: pv_pelems_pmembers.induct)
  case (2 n d s)
  then obtain c t where s: "skip_ws s = c # t" by (auto split: list.splits)
  consider "c = CHR ''{''" | "c = CHR ''[''" | "c \<noteq> CHR ''{''" "c \<noteq> CHR ''[''" by blast
  then show ?case
  proof cases
    case 1
    then obtain e q where e: "skip_ws t = e # q" "\<not> MaxNesting \<le> d"
      using "2.prems" s by (auto split: list.splits if_splits)
    then show ?thesis
      using "2.prems" "2.IH"(1) s 1 by (auto split: if_splits intro: jval_jelems_jmembers.intros)
  next
    case 2
    then obtain e q where e: "skip_ws t = e # q" "\<not> MaxNesting \<le> d"
      using "2.prems" s by (auto split: list.splits if_splits)
    then show ?thesis
      using "2.prems" "2.IH"(2) s 2 by (auto split: if_splits intro: jval_jelems_jmembers.intros)
  next
    case 3
    then show ?thesis using "2.prems" s by (auto intro: sca)
  qed
next
  case (4 n d s)
  then obtain v q e t where q: "pv n d s = Some (v, q)" "skip_ws q = e # t"
    by (auto split: option.splits list.splits)
  show ?case
    using "4.prems" q "4.IH"(2) [OF q(1) refl q(2)] "4.IH"(1) [OF q(1)]
    by (auto split: if_splits intro: el1 el2)
next
  case (6 n d s)
  then obtain q q1 q2 v q3 e t where q: "skip_ws s = dquote # q" "scan_string q = Some q1"
    "skip_ws q1 = CHR '':'' # q2" "pv n d q2 = Some (v, q3)" "skip_ws q3 = e # t"
    by (auto simp: Let_def split: option.splits list.splits if_splits)
  have v: "jval d q2 v q3" using "6.IH"(1) q by auto
  show ?case
    using "6.prems" "6.IH"(2) q v by (auto simp: Let_def split: if_splits intro: mem1 mem2)
qed simp_all

lemmas pv_sound = pv_sound_aux(1)

lemma jval_suffix_aux:
  "jval d s j r \<Longrightarrow> strict_suffix r s"
  "jelems d s vs r \<Longrightarrow> strict_suffix r s"
  "jmembers d s ms r \<Longrightarrow> strict_suffix r s"
proof (induction rule: jval_jelems_jmembers.inducts)
  case (sca s c t j r d)
  then show ?case using scalar_suffix skip_ws_suffix [of s] by (metis suffix_strict_trans)
qed (meson skip_ws_Cons_suffix scan_string_suffix skip_ws_suffix suffix_order.less_trans
    suffix_strict_trans strict_suffix_Cons suffix_CutI strict_suffix_imp suffix_order.le_less_trans
    suffix_order.order_refl)+

lemmas jval_suffix = jval_suffix_aux(1)

lemma consumed_eq: "suffix r s \<Longrightarrow> s = consumed s r @ r"
  by (auto simp: consumed_def suffix_def)

lemma consumed_append [simp]: "consumed (x @ r) r = x"
  by (simp add: consumed_def)

lemma consumed_extend: "suffix r s \<Longrightarrow> consumed (s @ t) (r @ t) = consumed s r"
  by (auto simp: consumed_def suffix_def)

section \<open>Fuel is enough\<close>

lemma skip_ws_length: "skip_ws s = c # r \<Longrightarrow> length r < length s"
  by (rule suffix_length_less [OF skip_ws_Cons_suffix])

lemma pv_complete_aux:
  "jval d s j r \<Longrightarrow> 2 * length s < n \<Longrightarrow> pv n d s = Some (j, r)"
  "jelems d s vs r \<Longrightarrow> 2 * length s + 1 < n \<Longrightarrow> pelems n d s = Some (vs, r)"
  "jmembers d s ms r \<Longrightarrow> 2 * length s < n \<Longrightarrow> pmembers n d s = Some (ms, r)"
proof (induction arbitrary: n and n and n rule: jval_jelems_jmembers.inducts)
  case (obj0 s t d r n)
  then show ?case by (cases n) (auto)
next
  case (obj s t d e q ms r n)
  then obtain m where m: "n = Suc m" by (cases n) auto
  have "length (e # q) < length s"
    using skip_ws_length [OF obj(1)] skip_ws_suffix [of t] obj(3) by (metis le_less_trans suffix_length_le)
  then have "pmembers m (Suc d) (e # q) = Some (ms, r)" using obj.IH obj.prems m by simp
  then show ?case using obj(1-4) m by simp
next
  case (arr0 s t d r n)
  then show ?case by (cases n) auto
next
  case (arr s t d e q vs r n)
  then obtain m where m: "n = Suc m" by (cases n) auto
  have "length (e # q) < length s"
    using skip_ws_length [OF arr(1)] skip_ws_suffix [of t] arr(3) by (metis le_less_trans suffix_length_le)
  then have "pelems m (Suc d) (e # q) = Some (vs, r)" using arr.IH arr.prems m by simp
  then show ?case using arr(1-4) m by simp
next
  case (sca s c t j r d n)
  then show ?case by (cases n) auto
next
  case (el1 d s v q r n)
  then show ?case by (cases n) auto
next
  case (el2 d s v q t vs r n)
  then obtain m where m: "n = Suc m" by (cases n) auto
  have "length t + 2 \<le> length s"
    using skip_ws_length [OF el2(2)] suffix_length_less [OF jval_suffix [OF el2(1)]] by simp
  then show ?case using el2 m by simp
next
  case (mem1 s q q1 q2 d v q3 r n)
  then obtain m where m: "n = Suc m" by (cases n) auto
  have "length q2 < length s"
    using skip_ws_length [OF mem1(1)] skip_ws_length [OF mem1(3)]
      suffix_length_less [OF scan_string_suffix [OF mem1(2)]] by simp
  then show ?case using mem1 m by (simp add: Let_def)
next
  case (mem2 s q q1 q2 d v q3 t ms r n)
  then obtain m where m: "n = Suc m" by (cases n) auto
  have "length q2 < length s" "length t < length s"
    using skip_ws_length [OF mem2(1)] skip_ws_length [OF mem2(3)] skip_ws_length [OF mem2(5)]
      suffix_length_less [OF jval_suffix [OF mem2(4)]]
      suffix_length_less [OF scan_string_suffix [OF mem2(2)]] by simp_all
  then show ?case using mem2 m by (simp add: Let_def)
qed

text \<open>Any fuel above twice the input's length gives the same answer as every larger fuel.\<close>

lemma pv_enough: "2 * length s < n \<Longrightarrow> pv n d s = Some (j, r) \<longleftrightarrow> jval d s j r"
  using pv_sound pv_complete_aux(1) by blast

lemma json_parse_iff: "json_parse s = Some j \<longleftrightarrow> (\<exists>r. jval 0 s j r \<and> skip_ws r = [])"
proof -
  define x where "x = pv (2 * length s + 2) 0 s"
  have x: "x = Some (j, r) \<longleftrightarrow> jval 0 s j r" for j r
    unfolding x_def by (rule pv_enough) simp
  show ?thesis
    unfolding json_parse_def x_def [symmetric] x [symmetric] by (auto split: option.splits if_splits)
qed

lemma jval_det: "jval d s j r \<Longrightarrow> jval d s j' r' \<Longrightarrow> j' = j \<and> r' = r"
  using pv_complete_aux(1) [of d s j r "2 * length s + 1"] pv_complete_aux(1) [of d s j' r' "2 * length s + 1"]
  by simp

section \<open>Depth\<close>

text \<open>The depth argument only decides whether the nesting limit is hit.\<close>

lemma jval_depth_aux:
  "jval d s j r \<Longrightarrow> d' \<le> d \<Longrightarrow> jval d' s j r"
  "jelems d s vs r \<Longrightarrow> d' \<le> d \<Longrightarrow> jelems d' s vs r"
  "jmembers d s ms r \<Longrightarrow> d' \<le> d \<Longrightarrow> jmembers d' s ms r"
  by (induction arbitrary: d' and d' and d' rule: jval_jelems_jmembers.inducts)
    (force intro: jval_jelems_jmembers.intros)+

lemmas jval_depth = jval_depth_aux(1)

lemma jval_any_depth: "jval d s j r \<Longrightarrow> jval d' s j' r' \<Longrightarrow> j' = j \<and> r' = r"
  using jval_depth [of d s j r "min d d'"] jval_depth [of d' s j' r' "min d d'"] jval_det
  by (metis min.cobounded1 min.cobounded2)

section \<open>Values followed by punctuation\<close>

definition stops :: "bytes \<Rightarrow> bool" where
  "stops t \<longleftrightarrow> t \<noteq> [] \<and> hd t \<in> {CHR '','', CHR ''}'', CHR '']''}"

lemma stops_facts:
  assumes "stops t"
  shows "dropWhile is_digit t = t" "skip_ws t = t"
  using assms by (cases t; auto simp: stops_def is_digit_code skip_ws_def is_ws_def)+

lemma dropWhile_digits_stop: "stops t \<Longrightarrow> dropWhile is_digit (s @ t) = dropWhile is_digit s @ t"
  by (induction s) (auto simp: stops_facts)

lemma skip_ws_append: "skip_ws s \<noteq> [] \<Longrightarrow> skip_ws (s @ t) = skip_ws s @ t"
  by (induction s) (auto simp: skip_ws_def)

lemma skip_ws_append_Nil: "skip_ws s = [] \<Longrightarrow> skip_ws (s @ t) = skip_ws t"
  by (induction s) (auto simp: skip_ws_def split: if_splits)

lemma digits1_stop: "stops t \<Longrightarrow> digits1 s = Some r \<Longrightarrow> digits1 (s @ t) = Some (r @ t)"
  by (auto simp: digits1_def dropWhile_digits_stop split: list.splits if_splits)

lemma scan_int_stop: "stops t \<Longrightarrow> scan_int s = Some r \<Longrightarrow> scan_int (s @ t) = Some (r @ t)"
  by (auto simp: scan_int_def dropWhile_digits_stop split: list.splits if_splits)

lemma scan_frac_stop: "stops t \<Longrightarrow> scan_frac s = Some r \<Longrightarrow> scan_frac (s @ t) = Some (r @ t)"
  by (cases s; cases t) (auto simp: scan_frac_def digits1_stop stops_def split: if_splits)

lemma scan_exp_stop:
  assumes "stops t" "scan_exp s = Some r"
  shows "scan_exp (s @ t) = Some (r @ t)"
proof (cases s)
  case Nil
  then show ?thesis using assms by (cases t) (auto simp: scan_exp_def stops_def)
next
  case (Cons c u)
  then show ?thesis
    using assms digits1_stop [OF assms(1)]
    digits1_stop [OF assms(1), of u r]
    by (cases u) (auto simp: scan_exp_def split: if_splits)
qed

lemma scan_number_stop: "stops t \<Longrightarrow> scan_number s = Some r \<Longrightarrow> scan_number (s @ t) = Some (r @ t)"
proof -
  assume t: "stops t" and "scan_number s = Some r"
  then obtain a b where ab: "scan_int (case s of c # r \<Rightarrow> if c = CHR ''-'' then r else s | [] \<Rightarrow> s) = Some a"
    "scan_frac a = Some b" "scan_exp b = Some r"
    by (auto simp: scan_number_def bind_eq_Some_conv)
  have ne: "s \<noteq> []" using ab(1) by (auto simp: scan_int_def)
  have "(case s @ t of c # r \<Rightarrow> if c = CHR ''-'' then r else s @ t | [] \<Rightarrow> s @ t) =
      (case s of c # r \<Rightarrow> if c = CHR ''-'' then r else s | [] \<Rightarrow> s) @ t"
    using ne by (cases s) auto
  then show ?thesis
    using scan_int_stop [OF t ab(1)] scan_frac_stop [OF t ab(2)] scan_exp_stop [OF t ab(3)]
    by (simp add: scan_number_def)
qed

lemma match_lit_append: "match_lit l s = Some r \<Longrightarrow> match_lit l (s @ t) = Some (r @ t)"
proof -
  assume "match_lit l s = Some r"
  then have "take (length l) s = l" "r = drop (length l) s" by (auto simp: match_lit_def split: if_splits)
  moreover from this have "length l \<le> length s" by (metis length_take min.cobounded1)
  ultimately show ?thesis by (simp add: match_lit_def)
qed

lemma scan_string_append: "scan_string s = Some r \<Longrightarrow> scan_string (s @ t) = Some (r @ t)"
proof (induction s arbitrary: r rule: scan_string.induct)
  case (2 c cs)
  show ?case
  proof (cases "c = dquote \<or> c \<noteq> bslash")
    case True
    then show ?thesis using 2 by (auto split: if_splits)
  next
    case False
    then obtain e u where cs: "cs = e # u" using 2(4) by (cases cs) auto
    show ?thesis
    proof (cases "simple_escape e")
      case True
      then show ?thesis using 2 False cs by auto
    next
      case ns: False
      then have e: "e = CHR ''u''" using 2(4) False cs by (auto split: if_splits)
      then obtain h1 h2 h3 h4 u' where u: "u = h1 # h2 # h3 # h4 # u'"
        using 2(4) False cs ns by (auto split: list.splits)
      then show ?thesis using 2 False cs ns e by (auto split: if_splits)
    qed
  qed
qed simp

lemma scalar_stop:
  assumes "stops t" "scalar s = Some (j, r)"
  shows "scalar (s @ t) = Some (j, r @ t)"
proof -
  obtain c u where s: "s = c # u" using assms(2) by (cases s) (auto simp: scalar_def)
  consider (str) "c = dquote" | (num) "c \<noteq> dquote" "c = CHR ''-'' \<or> is_digit c"
    | (lit) "c \<noteq> dquote" "c \<noteq> CHR ''-''" "\<not> is_digit c" by blast
  then show ?thesis
  proof cases
    case str
    then have r: "scan_string u = Some r" "j = JString (unquote (butlast (consumed u r)))"
      using assms(2) s by (auto simp: scalar_def)
    then show ?thesis
      using str s scan_string_append [OF r(1), of t]
        consumed_extend [OF strict_suffix_imp [OF scan_string_suffix [OF r(1)]], of t]
      by (simp add: scalar_def)
  next
    case num
    then have r: "scan_number s = Some r" "j = JNumber (consumed s r)"
      using assms(2) s by (auto simp: scalar_def)
    then show ?thesis
      using num s scan_number_stop [OF assms(1) r(1)]
        consumed_extend [OF strict_suffix_imp [OF scan_number_suffix [OF r(1)]], of t]
      by (auto simp: scalar_def)
  next
    case lit
    then show ?thesis
      using assms(2) s match_lit_append [of _ s _ t] by (fastforce simp: scalar_def split: if_splits)
  qed
qed

text \<open>A value leaves a suffix of the input after its leading white space.\<close>

lemma jval_skip_suffix:
  assumes "jval d s j r"
  shows "suffix r (skip_ws s) \<and> skip_ws s \<noteq> []"
  using assms
proof (cases rule: jval.cases)
  case (obj0 t)
  then show ?thesis using skip_ws_Cons_suffix [of t] by (auto intro!: suffix_CutI strict_suffix_imp)
next
  case (obj t e q ms)
  then have "strict_suffix r t"
    using jval_suffix_aux(3) skip_ws_suffix [of t] by (metis suffix_strict_trans)
  then show ?thesis using obj by (auto intro!: suffix_CutI strict_suffix_imp)
next
  case (arr0 t)
  then show ?thesis using skip_ws_Cons_suffix [of t] by (auto intro!: suffix_CutI strict_suffix_imp)
next
  case (arr t e q vs)
  then have "strict_suffix r t"
    using jval_suffix_aux(2) skip_ws_suffix [of t] by (metis suffix_strict_trans)
  then show ?thesis using arr by (auto intro!: suffix_CutI strict_suffix_imp)
next
  case (sca c t)
  then show ?thesis using strict_suffix_imp [OF scalar_suffix [of "c # t" j r]] by simp
qed

lemma member_spans:
  "scan_string q = Some q1 \<Longrightarrow> consumed (q @ t) (q1 @ t) = consumed q q1"
  "jval d q2 v q3 \<Longrightarrow> consumed (skip_ws (q2 @ t)) (q3 @ t) = consumed (skip_ws q2) q3"
  using consumed_extend [OF strict_suffix_imp [OF scan_string_suffix]] jval_skip_suffix
  by (auto simp: skip_ws_append consumed_extend)

lemma jval_stop_aux:
  "jval d s j r \<Longrightarrow> stops t \<Longrightarrow> jval d (s @ t) j (r @ t)"
  "jelems d s vs r \<Longrightarrow> stops t \<Longrightarrow> jelems d (s @ t) vs (r @ t)"
  "jmembers d s ms r \<Longrightarrow> stops t \<Longrightarrow> jmembers d (s @ t) ms (r @ t)"
proof (induction rule: jval_jelems_jmembers.inducts)
  case (obj s q d e q' ms r)
  then show ?case by (intro jval_jelems_jmembers.obj [of _ "q @ t" d e "q' @ t"]) (simp_all add: skip_ws_append)
next
  case (arr s q d e q' vs r)
  then show ?case by (intro jval_jelems_jmembers.arr [of _ "q @ t" d e "q' @ t"]) (simp_all add: skip_ws_append)
next
  case (sca s c q j r d)
  then show ?case using scalar_stop [of t "c # q"]
    by (intro jval_jelems_jmembers.sca [of _ c "q @ t"]) (simp_all add: skip_ws_append)
next
  case (obj0 s q d r)
  then show ?case by (intro jval_jelems_jmembers.obj0 [of _ "q @ t"]) (simp_all add: skip_ws_append)
next
  case (arr0 s q d r)
  then show ?case by (intro jval_jelems_jmembers.arr0 [of _ "q @ t"]) (simp_all add: skip_ws_append)
next
  case (el1 d s v q r)
  then show ?case by (intro jval_jelems_jmembers.el1 [of d _ v "q @ t"]) (simp_all add: skip_ws_append)
next
  case (el2 d s v q u vs r)
  then show ?case by (intro jval_jelems_jmembers.el2 [of d _ v "q @ t" "u @ t"]) (simp_all add: skip_ws_append)
next
  case (mem1 s q q1 q2 d v q3 r)
  have "jmembers d (s @ t)
      [(unquote (butlast (consumed (q @ t) (q1 @ t))), consumed (skip_ws (q2 @ t)) (q3 @ t), v)] (r @ t)"
    using mem1 scan_string_append [OF mem1(2), of t]
    by (intro jval_jelems_jmembers.mem1) (simp_all add: skip_ws_append)
  then show ?case
    using mem1 by (simp add: member_spans)
next
  case (mem2 s q q1 q2 d v q3 u ms r)
  have "jmembers d (s @ t)
      ((unquote (butlast (consumed (q @ t) (q1 @ t))), consumed (skip_ws (q2 @ t)) (q3 @ t), v) # ms) (r @ t)"
    using mem2 scan_string_append [OF mem2(2), of t]
    by (intro jval_jelems_jmembers.mem2) (simp_all add: skip_ws_append)
  then show ?case
    using mem2 by (simp add: member_spans)
qed

lemmas jval_stop = jval_stop_aux(1)

end
