(* ===== verification/JsonQuote.thy ===== *)
theory JsonQuote
  imports JsonFacts
begin

text \<open>
  Quoted strings read back: scanning the quoted form of any byte string stops at its closing quote,
  and unquoting it gives the string with malformed UTF-8 replaced by U+FFFD, hence the string
  itself when it is well formed, or when the result is plain ASCII.
\<close>

section \<open>Replacing malformed UTF-8\<close>

function coerce_utf8 :: "bytes \<Rightarrow> bytes" where
  "coerce_utf8 s =
     (if s = [] then []
      else if utf8_len s = 0 then rune_error @ coerce_utf8 (tl s)
      else take (utf8_len s) s @ coerce_utf8 (drop (utf8_len s) s))"
  by pat_completeness auto
termination
  by (relation "measure length") auto

declare coerce_utf8.simps [simp del]

lemma coerce_Nil [simp]: "coerce_utf8 [] = []"
  by (simp add: coerce_utf8.simps)

lemma coerce_valid: "utf8_valid s \<Longrightarrow> coerce_utf8 s = s"
proof (induction s rule: utf8_valid.induct)
  case (1 s)
  then show ?case
    by (subst coerce_utf8.simps) (auto simp: utf8_valid.simps [of s] split: if_splits)
qed

lemma rune_error_high: "rune_error = [CHR 0xEF, CHR 0xBF, CHR 0xBD]"
  by code_simp

lemma coerce_ascii: "list_all (\<lambda>c. code c < 128) (coerce_utf8 s) \<Longrightarrow> coerce_utf8 s = s"
proof (induction s rule: coerce_utf8.induct)
  case (1 s)
  show ?case
  proof (cases "s = [] \<or> utf8_len s = 0")
    case True
    then show ?thesis using "1.prems" by (auto simp: coerce_utf8.simps [of s] rune_error_high)
  next
    case False
    then show ?thesis using 1 by (auto simp: coerce_utf8.simps [of s])
  qed
qed

section \<open>Rune chunks\<close>

lemma utf8_len_le: "utf8_len s \<le> length s"
  by (cases s) (auto simp: utf8_len.simps(2) split: list.splits)

lemma utf8_len_ascii: "code c < 128 \<Longrightarrow> utf8_len (c # s) = 1"
  by (simp add: utf8_len.simps(2))

lemma utf8_len_local: "0 < utf8_len s \<Longrightarrow> utf8_len (take (utf8_len s) s @ q) = utf8_len s"
proof (cases s)
  case (Cons a t)
  assume pos: "0 < utf8_len s"
  consider (1) "code a < 128" | (2) b u where "\<not> code a < 128" "lead2 a" "t = b # u" "cont b"
    | (3) b c u where "\<not> code a < 128" "\<not> lead2 a" "lead3 a" "t = b # c # u" "second3 a b" "cont c"
    | (4) b c d u where "\<not> code a < 128" "\<not> lead2 a" "\<not> lead3 a" "lead4 a" "t = b # c # d # u"
        "second4 a b" "cont c" "cont d"
    using pos Cons that by (auto simp: utf8_len.simps(2) split: list.splits if_splits)
  then show ?thesis using Cons by cases (auto simp: utf8_len.simps(2))
qed simp

lemma cont_high: "cont x \<Longrightarrow> 128 \<le> code x"
  by (simp add: cont_def)

lemma utf8_chunk_high:
  "0 < utf8_len (c # s) \<Longrightarrow> 128 \<le> code c \<Longrightarrow> x \<in> set (take (utf8_len (c # s)) (c # s)) \<Longrightarrow> 128 \<le> code x"
  by (auto simp: utf8_len.simps(2) second3_def second4_def dest: cont_high split: list.splits if_splits)

lemma high_not_special: "128 \<le> code x \<Longrightarrow> x \<noteq> dquote \<and> x \<noteq> bslash \<and> \<not> code x < 32"
  by (auto simp: dquote_def bslash_def)

lemma scan_string_high: "\<forall>x \<in> set p. 128 \<le> code x \<Longrightarrow> scan_string (p @ q) = scan_string q"
  by (induction p) (auto simp: high_not_special)

lemma unquote_rune:
  assumes "0 < utf8_len s" "hd s \<noteq> bslash"
  shows "unquote (take (utf8_len s) s @ q) = take (utf8_len s) s @ unquote q"
proof -
  obtain c t where s: "s = c # t" using assms(1) by (cases s) auto
  let ?p = "take (utf8_len s) s"
  obtain n where n: "utf8_len s = Suc n" using assms(1) by (cases "utf8_len s") auto
  have p: "?p = c # take n t" unfolding n by (simp add: s)
  have len: "length ?p = utf8_len s" using utf8_len_le [of s] by simp
  have "utf8_len (?p @ q) = utf8_len s" by (rule utf8_len_local [OF assms(1)])
  then have l: "utf8_len (c # take n t @ q) = length ?p" using p len by simp
  have "unquote (c # take n t @ q) =
      take (length ?p) (c # take n t @ q) @ unquote (drop (length ?p) (c # take n t @ q))"
    using assms s l len by (subst unquote.simps(2)) simp
  moreover have "c # take n t @ q = ?p @ q" using p by simp
  ultimately show ?thesis by (metis append_eq_conv_conj)
qed

section \<open>Escapes\<close>

lemma hex_digit_facts:
  "d < 16 \<Longrightarrow> is_hex (hex_digit d)" "d < 16 \<Longrightarrow> hex_val (hex_digit d) = d"
  by (auto simp: hex_digit_def is_hex_def hex_val_def is_digit_code less_eq_char_def)

lemma hex4_val_digits:
  assumes "v < 65536"
  shows "hex4_val (hex_digit (v div 4096)) (hex_digit (v div 256 mod 16)) (hex_digit (v div 16 mod 16))
    (hex_digit (v mod 16)) = v"
proof -
  have "v div 4096 < 16" using assms by linarith
  moreover have "v div 4096 * 16 + v div 256 mod 16 = v div 256"
    using div_mult_mod_eq [of "v div 256" 16] by (simp add: div_mult2_eq [symmetric])
  moreover have "v div 256 * 16 + v div 16 mod 16 = v div 16"
    using div_mult_mod_eq [of "v div 16" 16] by (simp add: div_mult2_eq [symmetric])
  ultimately show ?thesis by (simp add: hex4_val_def hex_digit_facts)
qed

lemma unquote_u_escape: "v < 55296 \<Longrightarrow> unquote (u_escape v @ q) = utf8_encode v @ unquote q"
  using hex4_val_digits [of v] by (simp add: u_escape_def unquote.simps(2) Let_def)

lemma scan_u_escape: "v < 65536 \<Longrightarrow> scan_string (u_escape v @ q) = scan_string q"
proof -
  assume v: "v < 65536"
  then have "v div 4096 < 16" by linarith
  then show ?thesis
    by (simp add: u_escape_def hex_digit_facts simple_escape_def dquote_def bslash_def)
qed

lemma utf8_encode_ascii: "code c < 128 \<Longrightarrow> utf8_encode (code c) = [c]"
  by (simp add: utf8_encode_def)

lemma unquote_escape:
  assumes "code c < 128"
  shows "unquote (escape_ascii html c @ q) = c # unquote q"
proof -
  have plain: "unquote (c # q) = c # unquote q" if "c \<noteq> bslash"
    using unquote_rune [of "c # q" q] that assms by (simp add: utf8_len_ascii unquote.simps(2))
  have u: "unquote (u_escape (code c) @ q) = c # unquote q"
    using unquote_u_escape [of "code c" q] assms by (simp add: utf8_encode_ascii)
  have e: "e \<noteq> CHR ''u'' \<Longrightarrow> unquote (bslash # e # q) = unescape e # unquote q" for e
    by (simp add: unquote.simps(2))
  show ?thesis
  proof (cases "c = dquote \<or> c = bslash \<or> c = CHR 0x08 \<or> c = CHR 0x0C \<or> c = CHR 0x0A \<or> c = CHR 0x0D \<or> c = CHR 0x09")
    case True
    then show ?thesis
      by (elim disjE) (simp_all add: escape_ascii_def e [unfolded bslash_def] unescape_def dquote_def bslash_def)
  next
    case False
    then show ?thesis using plain u by (simp add: escape_ascii_def)
  qed
qed

lemma scan_escape:
  assumes "code c < 128"
  shows "scan_string (escape_ascii html c @ q) = scan_string q"
  using assms scan_u_escape [of "code c" q]
  by (auto simp: escape_ascii_def simple_escape_def dquote_def bslash_def)

lemma line_sep_facts:
  assumes "line_sep s"
  shows "utf8_len s = 3"
    and "utf8_encode (if take 1 (drop 2 s) = [CHR 0xA8] then 8232 else 8233) = take 3 s"
proof -
  obtain x t where s: "s = CHR 0xE2 # CHR 0x80 # x # t" "x = CHR 0xA8 \<or> x = CHR 0xA9"
    using assms by (cases s; cases "tl s"; cases "tl (tl s)") (auto simp: line_sep_def)
  then show "utf8_len s = 3"
    by (auto simp: utf8_len.simps(2) lead2_def lead3_def second3_def cont_def)
  have c: "char_of (226::nat) = CHR 0xE2" "char_of (128::nat) = CHR 0x80" "char_of (168::nat) = CHR 0xA8"
    "char_of (169::nat) = CHR 0xA9"
    by code_simp+
  have "utf8_encode 8232 = [CHR 0xE2, CHR 0x80, CHR 0xA8]" "utf8_encode 8233 = [CHR 0xE2, CHR 0x80, CHR 0xA9]"
    by (simp_all add: utf8_encode_def c)
  then show "utf8_encode (if take 1 (drop 2 s) = [CHR 0xA8] then 8232 else 8233) = take 3 s"
    using s by auto
qed

lemma ufffd_chunk:
  "unquote (bslash # ''ufffd'' @ q) = rune_error @ unquote q"
  "scan_string (bslash # ''ufffd'' @ q) = scan_string q"
proof -
  have "hex4_val (CHR ''f'') (CHR ''f'') (CHR ''f'') (CHR ''d'') = 65533"
    by (simp add: hex4_val_def hex_val_def is_digit_code)
  moreover have "utf8_encode 65533 = rune_error" by (simp add: utf8_encode_def rune_error_def)
  ultimately show "unquote (bslash # ''ufffd'' @ q) = rune_error @ unquote q"
    by (simp add: unquote.simps(2))
  have "is_hex (CHR ''f'')" "is_hex (CHR ''d'')" by (simp_all add: is_hex_def)
  then show "scan_string (bslash # ''ufffd'' @ q) = scan_string q"
    by (simp add: simple_escape_def dquote_def bslash_def)
qed

section \<open>Quoting and unquoting\<close>

lemma scan_quote_body: "scan_string (quote_body html s @ dquote # r) = Some r"
proof (induction html s rule: quote_body.induct)
  case (1 html)
  then show ?case by simp
next
  case (2 html c cs)
  consider (a) "code c < 128" | (b) "\<not> code c < 128" "utf8_len (c # cs) = 0"
    | (c) "\<not> code c < 128" "utf8_len (c # cs) \<noteq> 0" "line_sep (c # cs)"
    | (d) "\<not> code c < 128" "utf8_len (c # cs) \<noteq> 0" "\<not> line_sep (c # cs)" by blast
  then show ?case
  proof cases
    case a
    then show ?thesis using 2(1) scan_escape [OF a] by (simp add: quote_body.simps(2))
  next
    case b
    then show ?thesis using 2(2) ufffd_chunk(2) [of "quote_body html cs @ dquote # r"]
      by (simp add: quote_body.simps(2) del: scan_string.simps)
  next
    case c
    then show ?thesis using 2(3) scan_u_escape by (simp add: quote_body.simps(2))
  next
    case d
    have "\<forall>x \<in> set (take (utf8_len (c # cs)) (c # cs)). 128 \<le> code x"
      using utf8_chunk_high [of c cs] d by simp
    then show ?thesis using 2(4) d scan_string_high by (simp add: quote_body.simps(2))
  qed
qed

lemma unquote_quote_body: "unquote (quote_body html s) = coerce_utf8 s"
proof (induction html s rule: quote_body.induct)
  case (1 html)
  then show ?case by simp
next
  case (2 html c cs)
  consider (a) "code c < 128" | (b) "\<not> code c < 128" "utf8_len (c # cs) = 0"
    | (c) "\<not> code c < 128" "utf8_len (c # cs) \<noteq> 0" "line_sep (c # cs)"
    | (d) "\<not> code c < 128" "utf8_len (c # cs) \<noteq> 0" "\<not> line_sep (c # cs)" by blast
  then show ?case
  proof cases
    case a
    then show ?thesis
      using 2(1) unquote_escape [OF a] by (simp add: quote_body.simps(2) coerce_utf8.simps [of "c # cs"] utf8_len_ascii)
  next
    case b
    then show ?thesis using 2(2) ufffd_chunk(1) [of "quote_body html cs"]
      by (simp add: quote_body.simps(2) coerce_utf8.simps [of "c # cs"])
  next
    case c
    then show ?thesis
      using 2(3) line_sep_facts [OF c(3)] unquote_u_escape
      by (simp add: quote_body.simps(2) coerce_utf8.simps [of "c # cs"] split: if_splits)
  next
    case d
    then have "c \<noteq> bslash" using high_not_special [of c] by simp
    then show ?thesis
      using 2(4) d unquote_rune [of "c # cs"]
      by (simp add: quote_body.simps(2) coerce_utf8.simps [of "c # cs"])
  qed
qed

text \<open>Bytes that need no escape.\<close>

definition plain_byte :: "char \<Rightarrow> bool" where
  "plain_byte c \<longleftrightarrow> 32 \<le> code c \<and> code c < 128 \<and> c \<noteq> dquote \<and> c \<noteq> bslash \<and>
     c \<noteq> CHR ''<'' \<and> c \<noteq> CHR ''>'' \<and> c \<noteq> CHR ''&''"

lemma quote_plain: "list_all plain_byte s \<Longrightarrow> quote_body html s = s"
  by (induction s) (auto simp: quote_body.simps(2) escape_ascii_def plain_byte_def)

lemma scan_plain: "list_all plain_byte s \<Longrightarrow> scan_string (s @ dquote # r) = Some r"
  using scan_quote_body [of False s r] by (simp add: quote_plain)

lemma coerce_plain: "list_all plain_byte s \<Longrightarrow> coerce_utf8 s = s"
proof (induction s)
  case (Cons c s)
  then show ?case
    by (subst coerce_utf8.simps) (auto simp: utf8_len_ascii plain_byte_def)
qed simp

lemma unquote_plain: "list_all plain_byte s \<Longrightarrow> unquote s = s"
  using unquote_quote_body [of False s] by (simp add: quote_plain coerce_plain)

lemma coerce_ascii_id: "list_all (\<lambda>c. code c < 128) s \<Longrightarrow> coerce_utf8 s = s"
proof (induction s)
  case (Cons c s)
  then show ?case by (subst coerce_utf8.simps) (auto simp: utf8_len_ascii)
qed simp

lemma ident_plain: "ident_byte c \<Longrightarrow> plain_byte c"
  by (auto simp: ident_byte_def plain_byte_def is_lower_code is_upper_code is_digit_code dquote_def bslash_def)

lemma type_ident: "type_byte c \<Longrightarrow> ident_byte c"
  by (auto simp: type_byte_def ident_byte_def)

lemma digit_ident: "is_digit c \<Longrightarrow> ident_byte c"
  by (auto simp: ident_byte_def)

text \<open>A quoted string whose unquoted form is an identifier was that identifier.\<close>

lemma coerce_ident: "list_all ident_byte (coerce_utf8 s) \<Longrightarrow> coerce_utf8 s = s"
  using ident_plain by (intro coerce_ascii) (auto simp: list_all_iff plain_byte_def)

text \<open>A quoted string as a scalar value.\<close>

lemma scalar_quoted: "scalar (quote_string html s @ r) = Some (JString (coerce_utf8 s), r)"
proof -
  have "consumed (quote_body html s @ dquote # r) r = quote_body html s @ [dquote]"
    using consumed_append [of "quote_body html s @ [dquote]" r] by simp
  then show ?thesis
    by (simp add: scalar_def quote_string_def scan_quote_body unquote_quote_body)
qed

lemma skip_ws_id: "s \<noteq> [] \<Longrightarrow> \<not> is_ws (hd s) \<Longrightarrow> skip_ws s = s"
  by (cases s) (auto simp: skip_ws_def)

lemma jval_quoted: "jval d (quote_string html s @ r) (JString (coerce_utf8 s)) r"
  by (rule sca [of _ dquote "quote_body html s @ [dquote] @ r"])
    (use scalar_quoted [of html s r] in \<open>simp_all add: quote_string_def skip_ws_def is_ws_def dquote_def\<close>)

lemma scan_int_digits:
  assumes "canonical_dec s" "stops r"
  shows "scan_int (s @ r) = Some r"
proof -
  obtain c t where s: "s = c # t" using assms(1) by (cases s) (auto simp: canonical_dec_def)
  have d: "is_digit c" "all_digits t" using assms(1) s by (auto simp: canonical_dec_def)
  have "dropWhile is_digit (t @ r) = r"
    using d(2) stops_facts(1) [OF assms(2)] by (induction t) auto
  then show ?thesis
    using d assms s by (auto simp: scan_int_def canonical_dec_def)
qed

lemma jval_decimal:
  assumes "canonical_dec s" "stops r"
  shows "jval d (s @ r) (JNumber s) r"
proof -
  obtain c t where s: "s = c # t" using assms(1) by (cases s) (auto simp: canonical_dec_def)
  have d: "is_digit c" using assms(1) s by (auto simp: canonical_dec_def)
  then have nm: "c \<noteq> CHR ''-''" "c \<noteq> dquote" "\<not> is_ws c" "c \<noteq> CHR ''{''" "c \<noteq> CHR ''[''"
    by (auto simp: is_digit_code dquote_def is_ws_def)
  have fe: "scan_frac r = Some r" "scan_exp r = Some r"
    using assms(2) by (cases r; auto simp: stops_def scan_frac_def scan_exp_def)+
  have "scan_number (s @ r) = Some r"
    using scan_int_digits [OF assms] nm s fe by (simp add: scan_number_def)
  then have "scalar (s @ r) = Some (JNumber s, r)"
    using d nm s consumed_append [of s r] by (simp add: scalar_def)
  then show ?thesis using s nm by (intro sca [of _ c "t @ r"]) (auto simp: skip_ws_def)
qed

end
