(* ===== verification/StrictFacts.thy ===== *)
theory StrictFacts
  imports Strict
begin

text \<open>
  What the strict walk guarantees: it never runs out of fuel, and a document it accepts is JSON in
  the grammar of the scanner, without duplicate keys in any object, with bounded nesting and
  bounded number tokens.
\<close>

section \<open>Tokens move forward\<close>

lemma mk_simps [simp]: "d_rest (mk r st stk) = r" "d_state (mk r st stk) = st" "d_stack (mk r st stk) = stk"
  by (simp_all add: mk_def)

lemma closeDelim_Inr [simp]:
  "closeDelim c cs stk = Inr (tok, d) \<longleftrightarrow> (\<exists>p ps. stk = p # ps \<and> tok = TDelim c \<and> d = mk cs (valueEnd p) ps)"
  by (auto simp: closeDelim_def split: list.splits)

lemma token_loop_delims:
  "token_loop st stk (CHR ''['' # cs) =
     (if valueAllowed st then Inr (TDelim (CHR ''[''), mk cs ArrayStart (st # stk)) else Inl SyntaxError)"
  "token_loop st stk (CHR ''{'' # cs) =
     (if valueAllowed st then Inr (TDelim (CHR ''{''), mk cs ObjectStart (st # stk)) else Inl SyntaxError)"
  "token_loop st stk (CHR '']'' # cs) =
     (if st = ArrayStart \<or> st = ArrayComma then closeDelim (CHR '']'') cs stk else Inl SyntaxError)"
  "token_loop st stk (CHR ''}'' # cs) =
     (if st = ObjectStart \<or> st = ObjectComma then closeDelim (CHR ''}'') cs stk else Inl SyntaxError)"
  "token_loop st stk (CHR '':'' # cs) =
     (if st = ObjectColon then token_loop ObjectValue stk cs else Inl SyntaxError)"
  "token_loop st stk (CHR '','' # cs) =
     (if st = ArrayComma then token_loop ArrayValue stk cs
      else if st = ObjectComma then token_loop ObjectKey stk cs else Inl SyntaxError)"
  by (simp_all add: is_ws_def)

lemma token_loop_ws: "is_ws c \<Longrightarrow> token_loop st stk (c # cs) = token_loop st stk cs"
  by simp

lemma token_loop_val:
  assumes "\<not> is_ws c" "c \<notin> {CHR ''['', CHR '']'', CHR ''{'', CHR ''}'', CHR '':'', CHR '',''}"
  shows "token_loop st stk (c # cs) =
     (if c = dquote \<and> (st = ObjectStart \<or> st = ObjectKey) then
        (case scan_string cs of
           None \<Rightarrow> Inl SyntaxError
         | Some r \<Rightarrow> Inr (TString (unquote (butlast (consumed cs r))), mk r ObjectColon stk))
      else if valueAllowed st then
        (case scalar (c # cs) of
           None \<Rightarrow> Inl SyntaxError
         | Some (j, r) \<Rightarrow> Inr (tokenOf j, mk r (valueEnd st) stk))
      else Inl SyntaxError)"
  using assms by simp

lemmas token_loop_Cons = token_loop_delims token_loop_ws token_loop_val

declare token_loop.simps(2) [simp del]

text \<open>The classes of first bytes the scanner distinguishes.\<close>

lemma token_byte_cases:
  obtains (ws) "is_ws c" | (delim) "c \<in> {CHR ''['', CHR '']'', CHR ''{'', CHR ''}''}"
    | (sep) "c \<in> {CHR '':'', CHR '',''}"
    | (val) "\<not> is_ws c" "c \<notin> {CHR ''['', CHR '']'', CHR ''{'', CHR ''}'', CHR '':'', CHR '',''}"
  by blast

lemma token_loop_suffix: "token_loop st stk s = Inr (tok, d) \<Longrightarrow> strict_suffix (d_rest d) s"
proof (induction s arbitrary: st)
  case (Cons c cs)
  have step: "strict_suffix (d_rest d) (c # cs)" if "strict_suffix (d_rest d) cs"
    using that by (simp add: strict_suffix_imp)
  show ?case
  proof (cases c rule: token_byte_cases)
    case ws
    then show ?thesis using Cons step by (simp add: token_loop_ws)
  next
    case delim
    then have "d_rest d = cs"
      using Cons.prems by (elim insertE) (auto simp: token_loop_delims split: if_split_asm)
    then show ?thesis by simp
  next
    case sep
    then have "\<exists>st'. token_loop st' stk cs = Inr (tok, d)"
      using Cons.prems by (elim insertE) (auto simp: token_loop_delims split: if_split_asm)
    then show ?thesis using Cons.IH step by blast
  next
    case val
    show ?thesis
      using Cons.prems scan_string_suffix [of cs] scalar_suffix [of "c # cs"] strict_suffix_imp
      unfolding token_loop_val [OF val] by (auto split: if_split_asm option.split_asm)
  qed
qed simp

lemma Token_suffix: "Token d = Inr (tok, d1) \<Longrightarrow> length (d_rest d1) < length (d_rest d)"
  using token_loop_suffix suffix_length_less unfolding Token_def by blast

lemma token_loop_skip: "token_loop st stk (skip_ws s) = token_loop st stk s"
  by (induction s) (auto simp: skip_ws_def token_loop_ws)

lemma More_rest: "More d = (b, d0) \<Longrightarrow> length (d_rest d0) \<le> length (d_rest d)"
  using suffix_length_le [OF skip_ws_suffix, of "d_rest d"] by (auto simp: More_def Let_def)

lemma closing_suffix: "closing c d = Inr d' \<Longrightarrow> length (d_rest d') < length (d_rest d)"
  using Token_suffix by (auto simp: closing_def split: sum.splits if_splits)

lemma walk_length:
  "json_value n d depth maxDepth = Inr d' \<Longrightarrow> length (d_rest d') < length (d_rest d)"
  "value_members n seen d depth maxDepth = Inr d' \<Longrightarrow> length (d_rest d') \<le> length (d_rest d)"
  "value_elems n d depth maxDepth = Inr d' \<Longrightarrow> length (d_rest d') \<le> length (d_rest d)"
proof (induction n d depth maxDepth and n seen d depth maxDepth and n d depth maxDepth
    arbitrary: d' and d' and d' rule: json_value_value_members_value_elems.induct)
  case (2 n d depth maxDepth)
  then obtain tok d1 where t: "Token d = Inr (tok, d1)" by (auto split: sum.splits)
  show ?case
  proof (cases tok)
    case (TDelim delim)
    then obtain d2 where d2: "closing delim d2 = Inr d'"
      "(if delim = CHR ''{'' then value_members n [] d1 (depth + 1) maxDepth
        else value_elems n d1 (depth + 1) maxDepth) = Inr d2"
      "delim = CHR ''{'' \<or> delim = CHR ''[''" "\<not> maxDepth < depth + 1"
      using "2.prems" t by (auto simp: bindR_eq_Inr split: if_splits)
    then have "length (d_rest d2) \<le> length (d_rest d1)"
      using "2.IH"(1,2) [OF t refl TDelim] by (cases "delim = CHR ''{''") auto
    then show ?thesis using closing_suffix [OF d2(1)] Token_suffix [OF t] by simp
  qed (use "2.prems" t Token_suffix in \<open>auto split: if_splits\<close>)
next
  case (4 n seen d depth maxDepth)
  obtain more d0 where m: "More d = (more, d0)" by fastforce
  show ?case
  proof (cases more)
    case True
    then obtain name d1 d2 where t: "Token d0 = Inr (TString name, d1)"
      "name \<notin> set seen" "pairedSurrogates (consumed (d_rest d0) (d_rest d1))"
      "json_value n d1 depth maxDepth = Inr d2" "value_members n (name # seen) d2 depth maxDepth = Inr d'"
      using "4.prems" m by (auto simp: bindR_eq_Inr split: sum.splits token.splits if_splits)
    then have "length (d_rest d2) < length (d_rest d1)" "length (d_rest d') \<le> length (d_rest d2)"
      using "4.IH" m True by auto
    then show ?thesis using Token_suffix [OF t(1)] More_rest [OF m] by simp
  qed (use "4.prems" m More_rest in auto)
next
  case (6 n d depth maxDepth)
  obtain more d0 where m: "More d = (more, d0)" by fastforce
  show ?case
  proof (cases more)
    case True
    then obtain d1 where t: "json_value n d0 depth maxDepth = Inr d1" "value_elems n d1 depth maxDepth = Inr d'"
      using "6.prems" m by (auto simp: bindR_eq_Inr)
    then show ?thesis using "6.IH" m True More_rest [OF m] by fastforce
  qed (use "6.prems" m More_rest in auto)
qed simp_all

lemma closing_no_fuel: "closing c d \<noteq> Inl NoFuel"
  by (auto simp: closing_def split: sum.splits)

lemma walk_fuel:
  "2 * length (d_rest d) < n \<Longrightarrow> json_value n d depth maxDepth \<noteq> Inl NoFuel"
  "2 * length (d_rest d) < n \<Longrightarrow> value_members n seen d depth maxDepth \<noteq> Inl NoFuel"
  "2 * length (d_rest d) + 1 < n \<Longrightarrow> value_elems n d depth maxDepth \<noteq> Inl NoFuel"
proof (induction n d depth maxDepth and n seen d depth maxDepth and n d depth maxDepth
    rule: json_value_value_members_value_elems.induct)
  case (2 n d depth maxDepth)
  show ?case
  proof (cases "Token d")
    case (Inr a)
    obtain tok d1 where t: "Token d = Inr (tok, d1)" using Inr by (cases a) auto
    then have l: "length (d_rest d1) < length (d_rest d)" by (rule Token_suffix)
    show ?thesis
      using "2.IH"(1,2) [OF t refl] "2.prems" t l closing_no_fuel
      by (auto simp: bindR_eq_Inl split: token.splits if_splits)
  qed simp
next
  case (4 n seen d depth maxDepth)
  obtain more d0 where m: "More d = (more, d0)" by fastforce
  show ?case
  proof
    assume nf: "value_members (Suc n) seen d depth maxDepth = Inl NoFuel"
    then obtain name d1 where t: "more" "Token d0 = Inr (TString name, d1)"
      "\<not> (name \<in> set seen \<or> \<not> pairedSurrogates (consumed (d_rest d0) (d_rest d1)))"
      using m by (auto split: if_splits sum.splits token.splits)
    have l: "length (d_rest d1) < length (d_rest d)"
      using Token_suffix [OF t(2)] More_rest [OF m] by simp
    have v: "json_value n d1 depth maxDepth \<noteq> Inl NoFuel"
      using "4.IH"(1) m t l "4.prems" by auto
    then obtain d2 where d2: "json_value n d1 depth maxDepth = Inr d2"
      "value_members n (name # seen) d2 depth maxDepth = Inl NoFuel"
      using nf m t by (auto simp: bindR_eq_Inl)
    then show False
      using "4.IH"(2) m t l "4.prems" walk_length(1) [OF d2(1)] by auto
  qed
next
  case (6 n d depth maxDepth)
  obtain more d0 where m: "More d = (more, d0)" by fastforce
  show ?case
  proof
    assume nf: "value_elems (Suc n) d depth maxDepth = Inl NoFuel"
    then have more by (cases more) (use m in auto)
    have v: "json_value n d0 depth maxDepth \<noteq> Inl NoFuel"
      using "6.IH"(1) m \<open>more\<close> More_rest [OF m] "6.prems" by auto
    then obtain d1 where d1: "json_value n d0 depth maxDepth = Inr d1"
      "value_elems n d1 depth maxDepth = Inl NoFuel"
      using nf m \<open>more\<close> by (auto simp: bindR_eq_Inl)
    then show False
      using "6.IH"(2) m \<open>more\<close> More_rest [OF m] "6.prems" walk_length(1) [OF d1(1)] by auto
  qed
qed simp_all

section \<open>What one token says about the input\<close>

lemma skip_ws_cases:
  obtains "skip_ws s = []" | c t where "skip_ws s = c # t" "\<not> is_ws c"
  using hd_dropWhile [of is_ws s] by (cases "skip_ws s") (auto simp: skip_ws_def)

lemma value_token:
  assumes "token_loop st stk s = Inr (tok, d1)" "valueAllowed st" "tok \<noteq> TDelim (CHR '']'')"
  obtains (arr) t where "skip_ws s = CHR ''['' # t" "tok = TDelim (CHR ''['')" "d1 = mk t ArrayStart (st # stk)"
  | (obj) t where "skip_ws s = CHR ''{'' # t" "tok = TDelim (CHR ''{'')" "d1 = mk t ObjectStart (st # stk)"
  | (sca) c t j r where "skip_ws s = c # t" "c \<noteq> CHR ''{''" "c \<noteq> CHR ''[''" "scalar (c # t) = Some (j, r)"
      "tok = tokenOf j" "d1 = mk r (valueEnd st) stk"
proof (cases s rule: skip_ws_cases)
  case 1
  then show ?thesis using assms(1) by (simp add: token_loop_skip [symmetric, of _ _ s])
next
  case (2 c t)
  then have tok: "token_loop st stk (c # t) = Inr (tok, d1)"
    using assms(1) by (simp add: token_loop_skip [symmetric, of _ _ s])
  have st: "st \<notin> {ArrayComma, ObjectStart, ObjectKey, ObjectColon, ObjectComma}"
    using assms(2) by (auto simp: valueAllowed_def)
  show ?thesis
  proof (cases c rule: token_byte_cases)
    case val
    then show ?thesis
      using tok st assms(2) 2(1) sca unfolding token_loop_val [OF val] by (auto split: option.split_asm)
  qed (use tok st assms(2,3) 2 arr obj in \<open>auto simp: token_loop_delims split: if_split_asm\<close>)
qed

lemma separator_token:
  assumes "token_loop st stk s = Inr (tok, d1)"
  shows "st = ObjectColon \<Longrightarrow> \<exists>t. skip_ws s = CHR '':'' # t \<and> token_loop ObjectValue stk t = Inr (tok, d1)"
    and "st = ArrayComma \<Longrightarrow> tok \<noteq> TDelim (CHR '']'') \<Longrightarrow>
      \<exists>t. skip_ws s = CHR '','' # t \<and> token_loop ArrayValue stk t = Inr (tok, d1)"
    and "st = ObjectComma \<Longrightarrow> tok \<noteq> TDelim (CHR ''}'') \<Longrightarrow>
      \<exists>t. skip_ws s = CHR '','' # t \<and> token_loop ObjectKey stk t = Inr (tok, d1)"
proof -
  obtain c t where s: "skip_ws s = c # t" "\<not> is_ws c"
    using assms by (cases s rule: skip_ws_cases) (simp_all add: token_loop_skip [symmetric, of _ _ s])
  then have tok: "token_loop st stk (c # t) = Inr (tok, d1)"
    using assms by (simp add: token_loop_skip [symmetric, of _ _ s])
  show "st = ObjectColon \<Longrightarrow> \<exists>t. skip_ws s = CHR '':'' # t \<and> token_loop ObjectValue stk t = Inr (tok, d1)"
    using tok s by (cases c rule: token_byte_cases) (auto simp: token_loop_delims token_loop_val valueAllowed_def)
  show "st = ArrayComma \<Longrightarrow> tok \<noteq> TDelim (CHR '']'') \<Longrightarrow>
      \<exists>t. skip_ws s = CHR '','' # t \<and> token_loop ArrayValue stk t = Inr (tok, d1)"
    using tok s by (cases c rule: token_byte_cases) (auto simp: token_loop_delims token_loop_val valueAllowed_def)
  show "st = ObjectComma \<Longrightarrow> tok \<noteq> TDelim (CHR ''}'') \<Longrightarrow>
      \<exists>t. skip_ws s = CHR '','' # t \<and> token_loop ObjectKey stk t = Inr (tok, d1)"
    using tok s by (cases c rule: token_byte_cases) (auto simp: token_loop_delims token_loop_val valueAllowed_def)
qed

lemma key_token:
  assumes "token_loop st stk s = Inr (TString name, d1)" "st = ObjectStart \<or> st = ObjectKey"
  shows "\<exists>q q1. skip_ws s = dquote # q \<and> scan_string q = Some q1 \<and>
    name = unquote (butlast (consumed q q1)) \<and> d1 = mk q1 ObjectColon stk"
proof -
  obtain c t where s: "skip_ws s = c # t" "\<not> is_ws c"
    using assms by (cases s rule: skip_ws_cases) (simp_all add: token_loop_skip [symmetric, of _ _ s])
  then have "token_loop st stk (c # t) = Inr (TString name, d1)"
    using assms by (simp add: token_loop_skip [symmetric, of _ _ s])
  then show ?thesis
    using s assms(2)
    by (cases c rule: token_byte_cases)
      (auto simp: token_loop_delims token_loop_val valueAllowed_def split: if_split_asm option.split_asm)
qed

lemma after_separator_no_close:
  assumes "c = CHR ''}'' \<or> c = CHR '']''" "st \<in> {ObjectValue, ArrayValue, ObjectKey}"
  shows "token_loop st stk s \<noteq> Inr (TDelim c, d1)"
proof
  assume tok: "token_loop st stk s = Inr (TDelim c, d1)"
  obtain e t where s: "skip_ws s = e # t" "\<not> is_ws e"
    using tok by (cases s rule: skip_ws_cases) (simp_all add: token_loop_skip [symmetric, of _ _ s])
  have no: "tokenOf j \<noteq> TDelim x" for j x by (cases j) auto
  have "token_loop st stk (e # t) = Inr (TDelim c, d1)"
    using s tok by (simp add: token_loop_skip [symmetric, of _ _ s])
  then show False
    using s assms no
    by (cases e rule: token_byte_cases)
      (auto simp: token_loop_delims token_loop_val split: if_split_asm option.split_asm)
qed

lemma close_token:
  assumes "token_loop st stk s = Inr (TDelim c, d1)" "c = CHR ''}'' \<or> c = CHR '']''"
  shows "\<exists>p ps t. stk = p # ps \<and> skip_ws s = c # t \<and> d1 = mk t (valueEnd p) ps"
proof -
  obtain e t where s: "skip_ws s = e # t" "\<not> is_ws e"
    using assms by (cases s rule: skip_ws_cases) (simp_all add: token_loop_skip [symmetric, of _ _ s])
  have no: "tokenOf j \<noteq> TDelim x" for j x by (cases j) auto
  have "token_loop st stk (e # t) = Inr (TDelim c, d1)"
    using s assms by (simp add: token_loop_skip [symmetric, of _ _ s])
  then show ?thesis
    using s assms(2) no after_separator_no_close [OF assms(2)]
    by (cases e rule: token_byte_cases)
      (auto simp: token_loop_delims token_loop_val split: if_split_asm option.split_asm)
qed

lemma closing_token:
  assumes "closing delim d = Inr d'" "delim = CHR ''{'' \<or> delim = CHR ''[''"
  shows "\<exists>p ps. d_stack d = p # ps \<and> d_state d' = valueEnd p \<and> d_stack d' = ps \<and>
    skip_ws (d_rest d) = (if delim = CHR ''{'' then CHR ''}'' else CHR '']'') # d_rest d'"
proof -
  define c where "c = (if delim = CHR ''{'' then CHR ''}'' else CHR '']'')"
  have "Token d = Inr (TDelim c, d')"
    using assms by (auto simp: closing_def c_def split: sum.splits if_split_asm)
  then have "\<exists>p ps t. d_stack d = p # ps \<and> skip_ws (d_rest d) = c # t \<and> d' = mk t (valueEnd p) ps"
    unfolding Token_def by (rule close_token) (simp add: c_def)
  then show ?thesis by (auto simp: c_def)
qed

lemma top_eof: "token_loop st stk s = Inl EOF \<Longrightarrow> valueAllowed st \<Longrightarrow> skip_ws s = []"
proof (rule ccontr)
  assume a: "token_loop st stk s = Inl EOF" "valueAllowed st" "skip_ws s \<noteq> []"
  then obtain c t where s: "skip_ws s = c # t" "\<not> is_ws c" by (cases s rule: skip_ws_cases) auto
  then have "token_loop st stk (c # t) = Inl EOF"
    using a by (simp add: token_loop_skip [symmetric, of _ _ s])
  then show False
    using s a(2)
    by (cases c rule: token_byte_cases)
      (auto simp: token_loop_delims token_loop_val valueAllowed_def closeDelim_def
        split: if_split_asm option.split_asm list.split_asm)
qed

section \<open>The walk accepts only unambiguous values\<close>

text \<open>
  What the walk promises of a decoded value, with \<open>d\<close> levels of nesting left: no object repeats a
  key, numbers have at most 128 bytes and the nesting is bounded.
\<close>

fun jwf :: "nat \<Rightarrow> json \<Rightarrow> bool" where
  "jwf d (JNumber n) = (length n \<le> 128)"
| "jwf d (JArray vs) = (0 < d \<and> (\<forall>v\<in>set vs. jwf (d - 1) v))"
| "jwf d (JObject ms) = (0 < d \<and> distinct (map fst ms) \<and> (\<forall>(k, raw, v)\<in>set ms. jwf (d - 1) v))"
| "jwf d _ = True"

lemma jval_ws: "jval d s j r \<Longrightarrow> skip_ws s' = skip_ws s \<Longrightarrow> jval d s' j r"
  by (erule jval.cases) (auto intro: jval_jelems_jmembers.intros)

lemma jelems_ws: "jelems d s vs r \<Longrightarrow> skip_ws s' = skip_ws s \<Longrightarrow> jelems d s' vs r"
  by (erule jelems.cases) (auto intro: el1 el2 jval_ws)

lemma jmembers_ws: "jmembers d s ms r \<Longrightarrow> skip_ws s' = skip_ws s \<Longrightarrow> jmembers d s' ms r"
  by (erule jmembers.cases) (auto intro: mem1 mem2)

lemma skip_ws_idem [simp]: "skip_ws (skip_ws s) = skip_ws s"
  by (simp add: skip_ws_def)

text \<open>Where the value begins, past the separator that the state of the decoder expects.\<close>

fun entry :: "tokenState \<Rightarrow> bytes \<Rightarrow> bytes \<Rightarrow> bool" where
  "entry ObjectColon s t = (skip_ws s = CHR '':'' # t)"
| "entry ArrayComma s t = (skip_ws s = CHR '','' # t)"
| "entry ObjectComma s t = (skip_ws s = CHR '','' # t)"
| "entry st s t = (s = t)"

fun entryState :: "tokenState \<Rightarrow> tokenState" where
  "entryState ObjectColon = ObjectValue"
| "entryState ArrayComma = ArrayValue"
| "entryState ObjectComma = ObjectKey"
| "entryState st = st"

definition valuePos :: "tokenState \<Rightarrow> bool" where
  "valuePos st \<longleftrightarrow> st \<in> {TopValue, ArrayStart, ArrayComma, ObjectColon}"

lemma entry_token:
  assumes "Token d = Inr (tok, d1)" "valuePos (d_state d)" "tok \<noteq> TDelim (CHR '']'')"
  shows "\<exists>t. entry (d_state d) (d_rest d) t \<and> valueAllowed (entryState (d_state d)) \<and>
    token_loop (entryState (d_state d)) (d_stack d) t = Inr (tok, d1)"
  using assms separator_token [of "d_state d" "d_stack d" "d_rest d" tok d1]
  unfolding Token_def valuePos_def by (auto simp: valueAllowed_def)

definition walked :: "nat \<Rightarrow> nat \<Rightarrow> decoder \<Rightarrow> decoder \<Rightarrow> bool" where
  "walked k m d d' \<longleftrightarrow> d_state d' = valueEnd (entryState (d_state d)) \<and> d_stack d' = d_stack d \<and>
     (\<exists>t j. entry (d_state d) (d_rest d) t \<and> jval k t j (d_rest d') \<and> jwf (m - k) j)"

definition membersWalked :: "nat \<Rightarrow> nat \<Rightarrow> bytes list \<Rightarrow> decoder \<Rightarrow> decoder \<Rightarrow> bool" where
  "membersWalked k m seen d d' \<longleftrightarrow> (\<exists>p ps. d_stack d = p # ps \<and> d_state d' = valueEnd p \<and> d_stack d' = ps) \<and>
     (skip_ws (d_rest d) = CHR ''}'' # d_rest d' \<or>
      (\<exists>t ms. entry (d_state d) (d_rest d) t \<and> jmembers k t ms (d_rest d') \<and> distinct (map fst ms) \<and>
         set (map fst ms) \<inter> set seen = {} \<and> (\<forall>(key, raw, v)\<in>set ms. jwf (m - k) v)))"

definition elemsWalked :: "nat \<Rightarrow> nat \<Rightarrow> decoder \<Rightarrow> decoder \<Rightarrow> bool" where
  "elemsWalked k m d d' \<longleftrightarrow> (\<exists>p ps. d_stack d = p # ps \<and> d_state d' = valueEnd p \<and> d_stack d' = ps) \<and>
     (skip_ws (d_rest d) = CHR '']'' # d_rest d' \<or>
      (\<exists>t vs. entry (d_state d) (d_rest d) t \<and> jelems k t vs (d_rest d') \<and> (\<forall>v\<in>set vs. jwf (m - k) v)))"

lemma More_state: "More d = (b, d0) \<Longrightarrow> d0 = d\<lparr>d_rest := skip_ws (d_rest d)\<rparr>"
  by (auto simp: More_def Let_def)

lemma jmembers_head: "jmembers d s ms r \<Longrightarrow> \<exists>q. skip_ws s = dquote # q"
  by (erule jmembers.cases) auto

lemma jval_head: "jval d s v r \<Longrightarrow> \<exists>c q. skip_ws s = c # q \<and> c \<noteq> CHR '']''"
  by (erule jval.cases) (auto simp: scalar_def is_digit_code dquote_def split: if_splits)

lemma jelems_head: "jelems d s vs r \<Longrightarrow> \<exists>c q. skip_ws s = c # q \<and> c \<noteq> CHR '']''"
  by (erule jelems.cases) (auto dest: jval_head)

lemma object_walked:
  assumes "entry (d_state d) (d_rest d) t" "skip_ws t = CHR ''{'' # u"
    "d1 = mk u ObjectStart (entryState (d_state d) # d_stack d)"
    "membersWalked (k + 1) m [] d1 d'" "k + 1 \<le> m" "m \<le> MaxNesting"
  shows "walked k m d d'"
proof -
  have "\<exists>j. jval k t j (d_rest d') \<and> jwf (m - k) j"
  proof (cases "skip_ws u = CHR ''}'' # d_rest d'")
    case True
    then have "jval k t (JObject []) (d_rest d')" using assms by (auto intro: obj0)
    then show ?thesis using assms(5) by (intro exI [of _ "JObject []"]) simp
  next
    case False
    then obtain ms where ms: "jmembers (Suc k) u ms (d_rest d')" "distinct (map fst ms)"
      "\<forall>(key, raw, v)\<in>set ms. jwf (m - Suc k) v"
      using assms(3,4) by (auto simp: membersWalked_def)
    obtain q where q: "skip_ws u = dquote # q" using jmembers_head [OF ms(1)] by blast
    have "jmembers (Suc k) (dquote # q) ms (d_rest d')"
      using jmembers_ws [OF ms(1), of "skip_ws u"] by (simp flip: q)
    then have "jval k t (JObject ms) (d_rest d')"
      using assms(2,5,6) q by (intro obj [OF assms(2) _ q]) (auto simp: dquote_def)
    then show ?thesis using ms assms(5) by (intro exI [of _ "JObject ms"]) simp
  qed
  then show ?thesis using assms(1,3,4) by (auto simp: walked_def membersWalked_def)
qed

lemma array_walked:
  assumes "entry (d_state d) (d_rest d) t" "skip_ws t = CHR ''['' # u"
    "d1 = mk u ArrayStart (entryState (d_state d) # d_stack d)"
    "elemsWalked (k + 1) m d1 d'" "k + 1 \<le> m" "m \<le> MaxNesting"
  shows "walked k m d d'"
proof -
  have "\<exists>j. jval k t j (d_rest d') \<and> jwf (m - k) j"
  proof (cases "skip_ws u = CHR '']'' # d_rest d'")
    case True
    then have "jval k t (JArray []) (d_rest d')" using assms by (auto intro: arr0)
    then show ?thesis using assms(5) by (intro exI [of _ "JArray []"]) simp
  next
    case False
    then obtain vs where vs: "jelems (Suc k) u vs (d_rest d')" "\<forall>v\<in>set vs. jwf (m - Suc k) v"
      using assms(3,4) by (auto simp: elemsWalked_def)
    obtain c q where q: "skip_ws u = c # q" "c \<noteq> CHR '']''" using jelems_head [OF vs(1)] by blast
    have "jelems (Suc k) (c # q) vs (d_rest d')"
      using jelems_ws [OF vs(1), of "skip_ws u"] by (simp flip: q(1))
    then have "jval k t (JArray vs) (d_rest d')"
      using assms(2,5,6) q by (intro arr [OF assms(2) _ q]) auto
    then show ?thesis using vs assms(5) by (intro exI [of _ "JArray vs"]) simp
  qed
  then show ?thesis using assms(1,3,4) by (auto simp: walked_def elemsWalked_def)
qed

lemma member_key:
  assumes "d_state d = ObjectStart \<or> d_state d = ObjectComma" "d0 = d\<lparr>d_rest := skip_ws (d_rest d)\<rparr>"
    "Token d0 = Inr (TString name, d1)"
  shows "\<exists>t q q1. entry (d_state d) (d_rest d) t \<and> skip_ws t = dquote # q \<and> scan_string q = Some q1 \<and>
    name = unquote (butlast (consumed q q1)) \<and> d1 = mk q1 ObjectColon (d_stack d)"
proof -
  have "\<exists>t. entry (d_state d) (d_rest d) t \<and>
      token_loop (if d_state d = ObjectStart then ObjectStart else ObjectKey) (d_stack d) t = Inr (TString name, d1)"
    using assms separator_token(3) [of "d_state d" "d_stack d" "d_rest d" "TString name" d1]
    by (auto simp: Token_def token_loop_skip)
  then obtain t where t: "entry (d_state d) (d_rest d) t"
    "token_loop (if d_state d = ObjectStart then ObjectStart else ObjectKey) (d_stack d) t = Inr (TString name, d1)"
    by blast
  show ?thesis using key_token [OF t(2)] t(1) by auto
qed

lemma member_walked:
  assumes "d_state d = ObjectStart \<or> d_state d = ObjectComma" "d0 = d\<lparr>d_rest := skip_ws (d_rest d)\<rparr>"
    "Token d0 = Inr (TString name, d1)" "name \<notin> set seen"
    "walked k m d1 d2" "d_state d2 = ObjectComma \<Longrightarrow> membersWalked k m (name # seen) d2 d'"
  shows "membersWalked k m seen d d'"
proof -
  obtain t q q1 where t: "entry (d_state d) (d_rest d) t" and q: "skip_ws t = dquote # q" "scan_string q = Some q1"
    "name = unquote (butlast (consumed q q1))" "d1 = mk q1 ObjectColon (d_stack d)"
    using member_key [OF assms(1-3)] by blast
  obtain q2 v where v: "skip_ws q1 = CHR '':'' # q2" "jval k q2 v (d_rest d2)" "jwf (m - k) v"
    "d_state d2 = ObjectComma" "d_stack d2 = d_stack d"
    using assms(5) q(4) by (auto simp: walked_def)
  note rest = assms(6) [OF v(4)]
  have "\<exists>ms. jmembers k t ms (d_rest d') \<and> distinct (map fst ms) \<and>
      set (map fst ms) \<inter> set seen = {} \<and> (\<forall>(key, raw, v)\<in>set ms. jwf (m - k) v)"
  proof (cases "skip_ws (d_rest d2) = CHR ''}'' # d_rest d'")
    case True
    show ?thesis
      using mem1 [OF q(1,2) v(1,2) True] v(3) assms(4) q(3) by (intro exI conjI) (assumption, auto)
  next
    case False
    then obtain u ms where ms: "skip_ws (d_rest d2) = CHR '','' # u" "jmembers k u ms (d_rest d')"
      "distinct (map fst ms)" "set (map fst ms) \<inter> set (name # seen) = {}" "\<forall>(key, raw, v)\<in>set ms. jwf (m - k) v"
      using rest v(4) by (auto simp: membersWalked_def)
    show ?thesis
      using mem2 [OF q(1,2) v(1,2) ms(1,2)] v(3) assms(4) ms(3-5) q(3)
      by (intro exI conjI) (assumption, auto)
  qed
  then show ?thesis using rest v(5) t by (auto simp: membersWalked_def)
qed

lemma elem_walked:
  assumes "d_state d = ArrayStart \<or> d_state d = ArrayComma" "d0 = d\<lparr>d_rest := skip_ws (d_rest d)\<rparr>"
    "walked k m d0 d1" "d_state d1 = ArrayComma \<Longrightarrow> elemsWalked k m d1 d'"
  shows "elemsWalked k m d d'"
proof -
  obtain t0 v where v: "entry (d_state d) (skip_ws (d_rest d)) t0" "jval k t0 v (d_rest d1)" "jwf (m - k) v"
    "d_state d1 = ArrayComma" "d_stack d1 = d_stack d"
    using assms(1-3) by (auto simp: walked_def)
  note rest = assms(4) [OF v(4)]
  obtain t where t: "entry (d_state d) (d_rest d) t" "jval k t v (d_rest d1)"
    using assms(1) v(1,2) jval_ws [OF v(2), of "d_rest d"] by auto
  have "\<exists>vs. jelems k t vs (d_rest d') \<and> (\<forall>v\<in>set vs. jwf (m - k) v)"
  proof (cases "skip_ws (d_rest d1) = CHR '']'' # d_rest d'")
    case True
    show ?thesis using el1 [OF t(2) True] v(3) by auto
  next
    case False
    then obtain u vs where vs: "skip_ws (d_rest d1) = CHR '','' # u" "jelems k u vs (d_rest d')"
      "\<forall>v\<in>set vs. jwf (m - k) v"
      using rest v(4) by (auto simp: elemsWalked_def)
    show ?thesis using el2 [OF t(2) vs(1,2)] v(3) vs(3) by (intro exI [of _ "v # vs"]) simp
  qed
  then show ?thesis using rest v(5) t(1) by (auto simp: elemsWalked_def)
qed

lemma walk_sound_aux:
  "m \<le> MaxNesting \<Longrightarrow> json_value n d k m = Inr d' \<Longrightarrow> valuePos (d_state d) \<Longrightarrow> walked k m d d'"
  "m \<le> MaxNesting \<Longrightarrow> value_members n seen d k m = Inr d' \<Longrightarrow> closing (CHR ''{'') d' = Inr d'' \<Longrightarrow>
     d_state d = ObjectStart \<or> d_state d = ObjectComma \<Longrightarrow> membersWalked k m seen d d''"
  "m \<le> MaxNesting \<Longrightarrow> value_elems n d k m = Inr d' \<Longrightarrow> closing (CHR ''['') d' = Inr d'' \<Longrightarrow>
     d_state d = ArrayStart \<or> d_state d = ArrayComma \<Longrightarrow> elemsWalked k m d d''"
proof (induction n d k m and n seen d k m and n d k m
    arbitrary: d' and d' d'' and d' d'' rule: json_value_value_members_value_elems.induct)
  case (2 n d k m)
  obtain tok d1 where tok1: "Token d = Inr (tok, d1)"
    using "2.prems"(2) by (auto split: sum.splits)
  then have tok: "Token d = Inr (tok, d1)" "tok \<noteq> TDelim (CHR '']'')"
    using "2.prems"(2) by auto
  obtain t where t: "entry (d_state d) (d_rest d) t" "valueAllowed (entryState (d_state d))"
    "token_loop (entryState (d_state d)) (d_stack d) t = Inr (tok, d1)"
    using entry_token [OF tok(1) "2.prems"(3) tok(2)] by blast
  from t(3,2) tok(2) show ?case
  proof (cases rule: value_token)
    case (arr u)
    then obtain d2 where "value_elems n d1 (k + 1) m = Inr d2" "closing (CHR ''['') d2 = Inr d'" "k + 1 \<le> m"
      using "2.prems"(2) tok(1) by (auto simp: bindR_eq_Inr split: if_splits)
    moreover from this have "elemsWalked (k + 1) m d1 d'"
      using "2.IH"(2) [OF tok(1) refl arr(2)] "2.prems"(1) arr(3) by auto
    ultimately show ?thesis using array_walked [OF t(1) arr(1,3)] "2.prems"(1) by blast
  next
    case (obj u)
    then obtain d2 where "value_members n [] d1 (k + 1) m = Inr d2" "closing (CHR ''{'') d2 = Inr d'" "k + 1 \<le> m"
      using "2.prems"(2) tok(1) by (auto simp: bindR_eq_Inr split: if_splits)
    moreover from this have "membersWalked (k + 1) m [] d1 d'"
      using "2.IH"(1) [OF tok(1) refl obj(2)] "2.prems"(1) obj(3) by auto
    ultimately show ?thesis using object_walked [OF t(1) obj(1,3)] "2.prems"(1) by blast
  next
    case (sca c u j r)
    then have "d1 = d'" "jwf (m - k) j"
      using "2.prems"(2) tok(1)
      by (cases j; auto split: if_splits simp: scalar_def)+
    then show ?thesis
      using sca(6) t(1) jval_jelems_jmembers.sca [OF sca(1-4), of k] unfolding walked_def
      by (intro conjI exI [of _ t] exI [of _ j]) auto
  qed
next
  case (4 n seen d k m)
  obtain b d0 where m: "More d = (b, d0)" by fastforce
  show ?case
  proof (cases b)
    case True
    then obtain name d1 d2 where t: "Token d0 = Inr (TString name, d1)" "name \<notin> set seen"
      "pairedSurrogates (consumed (d_rest d0) (d_rest d1))"
      "json_value n d1 k m = Inr d2" "value_members n (name # seen) d2 k m = Inr d'"
      using "4.prems" m by (auto simp: bindR_eq_Inr split: sum.splits token.splits if_splits)
    have "d_state d1 = ObjectColon" using member_key [OF "4.prems"(4) More_state [OF m] t(1)] by auto
    then have v: "walked k m d1 d2" using "4.IH"(1) m True t "4.prems"(1) by (auto simp: valuePos_def)
    show ?thesis
      using "4.IH"(2) m True t "4.prems"(1,3) by (intro member_walked [OF "4.prems"(4) More_state [OF m] t(1,2) v]) auto
  next
    case False
    then show ?thesis
      using "4.prems" m More_state [OF m] closing_token [OF "4.prems"(3)] by (auto simp: membersWalked_def)
  qed
next
  case (6 n d k m)
  obtain b d0 where m: "More d = (b, d0)" by fastforce
  show ?case
  proof (cases b)
    case True
    then obtain d1 where t: "json_value n d0 k m = Inr d1" "value_elems n d1 k m = Inr d'"
      using "6.prems" m by (auto simp: bindR_eq_Inr)
    have "valuePos (d_state d0)" using More_state [OF m] "6.prems"(4) by (auto simp: valuePos_def)
    then have v: "walked k m d0 d1" using "6.IH"(1) m True t "6.prems"(1) by auto
    show ?thesis
      using "6.IH"(2) m True t "6.prems"(1,3) by (intro elem_walked [OF "6.prems"(4) More_state [OF m] v]) auto
  next
    case False
    then show ?thesis
      using "6.prems" m More_state [OF m] closing_token [OF "6.prems"(3)] by (auto simp: elemsWalked_def)
  qed
qed simp_all

section \<open>The promise of the strict check\<close>

lemma walk_never_out_of_fuel:
  "json_value (2 * length w + 2) (mk w TopValue []) 0 m \<noteq> Inl NoFuel"
  by (rule walk_fuel(1)) simp

lemma strict_sound:
  assumes "strictJSONLimits w mb m = Inr ()" "m \<le> MaxNesting"
  shows "length w \<le> mb \<and> utf8_valid w \<and> (\<exists>j. json_parse w = Some j \<and> jwf m j)"
proof -
  define v where "v = json_value (2 * length w + 2) (mk w TopValue []) 0 m"
  obtain d where d: "v = Inr d" "Token d = Inl EOF" and w: "length w \<le> mb" "utf8_valid w"
    using assms(1) [unfolded strictJSONLimits_def, folded v_def]
    by (auto split: if_splits sum.splits walkError.splits tokenError.splits)
  have "walked 0 m (mk w TopValue []) d"
    using d(1) unfolding v_def by (rule walk_sound_aux(1) [OF assms(2)]) (simp add: valuePos_def)
  then obtain j where j: "jval 0 w j (d_rest d)" "jwf m j" "d_state d = TopValue"
    by (auto simp: walked_def)
  have "skip_ws (d_rest d) = []"
    using d(2) j(3) by (auto simp: Token_def valueAllowed_def intro: top_eof)
  then show ?thesis using j w by (auto simp: json_parse_iff)
qed

text \<open>
  The strict check is sound and never gives up: its walk does not run out of fuel on any input,
  and a document it accepts is within the byte limit, is UTF-8, parses with the JSON grammar, repeats
  no key in any of its objects, nests at most \<open>m\<close> deep and has numbers of at most 128 bytes.
\<close>

theorem strictJSON_unambiguous:
  assumes "m \<le> MaxNesting"
  shows "json_value (2 * length w + 2) (mk w TopValue []) 0 m \<noteq> Inl NoFuel \<and>
    (strictJSONLimits w mb m = Inr () \<longrightarrow>
       length w \<le> mb \<and> utf8_valid w \<and> (\<exists>j. json_parse w = Some j \<and> jwf m j))"
  using walk_never_out_of_fuel strict_sound assms by blast

theorem strictJSON_unambiguous_witness:
  "strictJSONLimits ''[{},1]'' 64 2 = Inr () \<and> length ''[{},1]'' \<le> 64 \<and> utf8_valid ''[{},1]'' \<and>
   (\<exists>j. json_parse ''[{},1]'' = Some j \<and> jwf 2 j)"
proof -
  have a: "strictJSONLimits ''[{},1]'' 64 2 = Inr ()" by code_simp
  then show ?thesis using strictJSON_unambiguous [of 2 "''[{},1]''" 64] by (simp add: MaxNesting_def)
qed

end
