(* ===== verification/Payload.thy ===== *)
theory Payload
  imports StrictFacts
begin

text \<open>
  Reading fields out of decoded objects (\<^verbatim>\<open>objectFields\<close>, \<^verbatim>\<open>stringField\<close>, \<^verbatim>\<open>versionField\<close> of
  \<^verbatim>\<open>core/protocol/go/send.go\<close>) and the two registered payloads: text and the closed media object of
  \<^verbatim>\<open>core/protocol/go/media.go\<close>, with its encoder. A map read of a missing key gives a nil slice, which is the
  empty list here.
\<close>

section \<open>Fields\<close>

definition rawField :: "fields \<Rightarrow> bytes \<Rightarrow> bytes" where
  "rawField f k = (case field f k of None \<Rightarrow> [] | Some r \<Rightarrow> r)"

definition objectFields :: "bytes \<Rightarrow> (ErrorCode, fields) result" where
  "objectFields raw = (case unmarshal_fields raw of None \<Rightarrow> Inl InvalidMessage | Some f \<Rightarrow> Inr f)"

definition stringField :: "fields \<Rightarrow> bytes \<Rightarrow> (ErrorCode, bytes) result" where
  "stringField f k = (case field f k of
       None \<Rightarrow> Inl InvalidMessage
     | Some r \<Rightarrow>
         if r = ''null'' then Inl InvalidMessage
         else (case unmarshal_string r of None \<Rightarrow> Inl InvalidMessage | Some s \<Rightarrow> Inr s))"

definition maxVersion :: bytes where "maxVersion = ''2147483647''"
definition maxInt64 :: bytes where "maxInt64 = ''9223372036854775807''"

definition versionField :: "fields \<Rightarrow> bytes \<Rightarrow> (ErrorCode, u32) result" where
  "versionField f k =
     (let r = rawField f k in
      if \<not> decimal r maxVersion \<or> r = ''0'' then Inl InvalidMessage
      else Inr (word_of_int (int (dec_val r))))"

section \<open>The media payload\<close>

definition MaxMediaPayloadBytes :: nat where "MaxMediaPayloadBytes = 4096"

definition decodeMediaFields :: "fields \<Rightarrow> (ErrorCode, MediaMetadata) result" where
  "decodeMediaFields f =
     bindR (stringField f ''mediaKey'') (\<lambda>mediaKey.
     bindR (stringField f ''kind'') (\<lambda>kind.
     bindR (stringField f ''contentType'') (\<lambda>contentType.
     bindR (stringField f ''size'') (\<lambda>size.
     bindR (stringField f ''sha256'') (\<lambda>sha256.
       Inr \<lparr>mm_MediaKey = mediaKey, mm_Kind = kind, mm_ContentType = contentType,
            mm_Size = size, mm_SHA256 = sha256\<rparr>)))))"

definition validateMediaPayload :: "bytes \<Rightarrow> (ErrorCode, unit) result" where
  "validateMediaPayload raw =
     (if MaxMediaPayloadBytes < length raw then Inl TooLarge
      else (case unmarshal_fields raw of
          None \<Rightarrow> Inl InvalidMessage
        | Some fs \<Rightarrow>
            if field_count fs \<noteq> 5 then Inl InvalidMessage
            else (case decodeMediaFields fs of
                Inl _ \<Rightarrow> Inl InvalidMessage
              | Inr metadata \<Rightarrow> if \<not> ValidMediaMetadata metadata then Inl InvalidMessage else Inr ())))"

text \<open>
  \<^verbatim>\<open>json.Unmarshal(raw, &metadata)\<close> into the struct: members are assigned in the order of the document and
  a member that is not a string makes the call fail. It runs only on documents whose keys are exactly the five names,
  so the case-insensitive fallback of the library is never consulted.
\<close>

fun assignMember :: "MediaMetadata \<Rightarrow> bytes \<times> bytes \<times> json \<Rightarrow> MediaMetadata option" where
  "assignMember metadata (k, raw, v) =
     (if k \<in> {''mediaKey'', ''kind'', ''contentType'', ''size'', ''sha256''} then
        (case v of
           JString s \<Rightarrow> Some
             (if k = ''mediaKey'' then metadata\<lparr>mm_MediaKey := s\<rparr>
              else if k = ''kind'' then metadata\<lparr>mm_Kind := s\<rparr>
              else if k = ''contentType'' then metadata\<lparr>mm_ContentType := s\<rparr>
              else if k = ''size'' then metadata\<lparr>mm_Size := s\<rparr>
              else metadata\<lparr>mm_SHA256 := s\<rparr>)
         | JNull \<Rightarrow> Some metadata
         | _ \<Rightarrow> None)
      else Some metadata)"

fun assignMembers :: "MediaMetadata \<Rightarrow> (bytes \<times> bytes \<times> json) list \<Rightarrow> MediaMetadata option" where
  "assignMembers metadata [] = Some metadata"
| "assignMembers metadata (m # ms) = Option.bind (assignMember metadata m) (\<lambda>metadata'. assignMembers metadata' ms)"

definition zeroMetadata :: MediaMetadata where
  "zeroMetadata = \<lparr>mm_MediaKey = [], mm_Kind = [], mm_ContentType = [], mm_Size = [], mm_SHA256 = []\<rparr>"

definition unmarshal_metadata :: "bytes \<Rightarrow> MediaMetadata option" where
  "unmarshal_metadata raw = (case json_parse raw of Some (JObject ms) \<Rightarrow> assignMembers zeroMetadata ms | _ \<Rightarrow> None)"

definition DecodeMediaPayload :: "bytes \<Rightarrow> (ErrorCode, MediaMetadata) result" where
  "DecodeMediaPayload raw =
     bindR (strictJSONLimits raw MaxMediaPayloadBytes MaxDepth) (\<lambda>_.
     bindR (validateMediaPayload raw) (\<lambda>_.
       (case unmarshal_metadata raw of None \<Rightarrow> Inl InvalidMessage | Some metadata \<Rightarrow> Inr metadata)))"

text \<open>Objects as text: what \<^verbatim>\<open>json.Marshal\<close> and the hand-written encoders emit.\<close>

fun members_text :: "(bytes \<times> bytes) list \<Rightarrow> bytes" where
  "members_text [] = []"
| "members_text [(k, raw)] = dquote # k @ dquote # CHR '':'' # raw"
| "members_text ((k, raw) # m # ms) = (dquote # k @ dquote # CHR '':'' # raw) @ CHR '','' # members_text (m # ms)"

definition object_text :: "(bytes \<times> bytes) list \<Rightarrow> bytes" where
  "object_text ms = CHR ''{'' # members_text ms @ ''}''"

definition marshal_metadata :: "MediaMetadata \<Rightarrow> bytes" where
  "marshal_metadata metadata = object_text
     [(''mediaKey'', quote_string True (mm_MediaKey metadata)), (''kind'', quote_string True (mm_Kind metadata)),
      (''contentType'', quote_string True (mm_ContentType metadata)), (''size'', quote_string True (mm_Size metadata)),
      (''sha256'', quote_string True (mm_SHA256 metadata))]"

definition EncodeMediaPayload :: "MediaMetadata \<Rightarrow> (ErrorCode, bytes) result" where
  "EncodeMediaPayload metadata =
     (if \<not> ValidMediaMetadata metadata then Inl InvalidMessage
      else let raw = marshal_metadata metadata in
        if MaxMediaPayloadBytes < length raw then Inl TooLarge
        else bindR (validateMediaPayload raw) (\<lambda>_. Inr raw))"

section \<open>Registered payloads\<close>

definition validateKnownPayload :: "bytes \<Rightarrow> u32 \<Rightarrow> bytes \<Rightarrow> (ErrorCode, unit) result" where
  "validateKnownPayload messageType version raw =
     (if version \<noteq> 1 then Inr ()
      else if messageType = ''text'' then
        bindR (objectFields raw) (\<lambda>fs.
          (case stringField fs ''text'' of
             Inl _ \<Rightarrow> Inl InvalidMessage
           | Inr text \<Rightarrow> if length text = 0 \<or> MaxTextBytes < length text then Inl InvalidMessage else Inr ()))
      else if messageType = ''media'' then validateMediaPayload raw
      else Inr ())"

end
