(* ===== verification/ObjectText.thy ===== *)
theory ObjectText
  imports Payload
begin

text \<open>
  Objects written as text and read back: the encoders of the protocol concatenate members, the decoders
  parse them. Lemmas shared by the round trips of messages, frames, media payloads and cursors.
\<close>

section \<open>The text of a value\<close>

text \<open>The part of a document that a raw message keeps: the value without the white space around it.\<close>

definition value_text :: "bytes \<Rightarrow> bytes" where
  "value_text s = (case pv (2 * length s + 2) 0 s of Some (j, r) \<Rightarrow> consumed (skip_ws s) r | None \<Rightarrow> s)"

lemma value_text_jval: "jval 0 s v r \<Longrightarrow> value_text s = consumed (skip_ws s) r"
  using pv_enough [of s "2 * length s + 2" 0 v r] by (simp add: value_text_def)

lemma json_valid_iff: "json_valid s \<longleftrightarrow> (\<exists>v r. jval 0 s v r \<and> skip_ws r = [])"
  by (auto simp: json_valid_def json_parse_iff)

lemma jval_punct:
  assumes "jval d0 s v r" "skip_ws r = []" "stops t" "jval d (s @ t) v' r'"
  shows "v' = v \<and> skip_ws r' = t \<and> consumed (skip_ws (s @ t)) r' = consumed (skip_ws s) r"
proof -
  have "v' = v \<and> r' = r @ t" using jval_any_depth [OF jval_stop [OF assms(1,3)] assms(4)] .
  then show ?thesis
    using member_spans(2) [OF assms(1), of t] assms(2,3) by (simp add: skip_ws_append_Nil stops_facts)
qed

lemma jval_dquote_key:
  "list_all plain_byte k \<Longrightarrow> skip_ws (dquote # k @ dquote # CHR '':'' # s) = dquote # k @ dquote # CHR '':'' # s"
  "list_all plain_byte k \<Longrightarrow> scan_string (k @ dquote # CHR '':'' # s) = Some (CHR '':'' # s)"
  "list_all plain_byte k \<Longrightarrow> unquote (butlast (consumed (k @ dquote # CHR '':'' # s) (CHR '':'' # s))) = k"
  "skip_ws (CHR '':'' # s) = CHR '':'' # s"
proof -
  show "list_all plain_byte k \<Longrightarrow> unquote (butlast (consumed (k @ dquote # CHR '':'' # s) (CHR '':'' # s))) = k"
    using consumed_append [of "k @ [dquote]" "CHR '':'' # s"] by (simp add: unquote_plain)
qed (simp_all add: skip_ws_def is_ws_def dquote_def scan_plain [unfolded dquote_def])

section \<open>Reading members back\<close>

text \<open>
  \<open>reads raw T V\<close>: wherever a text \<open>raw\<close> stands before a comma or a closing bracket and a value is read there, the
  value is \<open>V\<close>, its raw text is \<open>T\<close> and the reader stops at that punctuation.
\<close>

definition reads :: "bytes \<Rightarrow> bytes \<Rightarrow> json \<Rightarrow> bool" where
  "reads raw T V \<longleftrightarrow> (\<forall>d t v r. stops t \<longrightarrow> jval d (raw @ t) v r \<longrightarrow>
     v = V \<and> skip_ws r = t \<and> consumed (skip_ws (raw @ t)) r = T)"

lemma reads_valid: "jval 0 raw v q \<Longrightarrow> skip_ws q = [] \<Longrightarrow> reads raw (value_text raw) v"
  unfolding reads_def using jval_punct value_text_jval by metis

lemma member_inv:
  assumes "jmembers d (dquote # k @ dquote # CHR '':'' # raw @ t) ms r" "list_all plain_byte k" "stops t" "reads raw T V"
  shows "t = CHR ''}'' # r \<and> ms = [(k, T, V)] \<or>
    (\<exists>u ms'. t = CHR '','' # u \<and> ms = (k, T, V) # ms' \<and> jmembers d u ms' r)"
  using assms(1)
proof (cases rule: jmembers.cases)
  case (mem1 q0 q1 q2 v' q3)
  then have q2: "q2 = raw @ t" using assms(2) by (auto simp: jval_dquote_key)
  then have "v' = V \<and> skip_ws q3 = t \<and> consumed (skip_ws (raw @ t)) q3 = T"
    using assms(3,4) mem1(5) unfolding reads_def by blast
  then show ?thesis using mem1 assms(2) q2 by (auto simp: jval_dquote_key)
next
  case (mem2 q0 q1 q2 v' q3 u ms')
  then have q2: "q2 = raw @ t" using assms(2) by (auto simp: jval_dquote_key)
  then have "v' = V \<and> skip_ws q3 = t \<and> consumed (skip_ws (raw @ t)) q3 = T"
    using assms(3,4) mem2(5) unfolding reads_def by blast
  then show ?thesis using mem2 assms(2) q2 by (auto simp: jval_dquote_key)
qed

definition reads_member :: "bytes \<times> bytes \<Rightarrow> bytes \<times> bytes \<times> json \<Rightarrow> bool" where
  "reads_member = (\<lambda>(k, raw) (k', T, V). k' = k \<and> list_all plain_byte k \<and> reads raw T V)"

lemma jmembers_text_inv:
  "jmembers d (members_text kvs @ CHR ''}'' # rest) ms' r \<Longrightarrow> list_all2 reads_member kvs ms \<Longrightarrow> kvs \<noteq> [] \<Longrightarrow>
   r = rest \<and> ms' = ms"
proof (induction kvs arbitrary: ms ms' rule: members_text.induct)
  case (2 k raw)
  then obtain T V where T: "ms = [(k, T, V)]" "list_all plain_byte k" "reads raw T V"
    by (auto simp: list_all2_Cons1 reads_member_def)
  have s: "stops (CHR ''}'' # rest)" by (simp add: stops_def)
  show ?case using member_inv [OF _ T(2) s T(3)] 2(1) T(1) by auto
next
  case (3 k raw m kvs)
  then obtain T V ns where T: "ms = (k, T, V) # ns" "list_all plain_byte k" "reads raw T V"
    "list_all2 reads_member (m # kvs) ns"
    by (auto simp: list_all2_Cons1 [of _ "(k, raw)"] reads_member_def)
  define t where "t = CHR '','' # members_text (m # kvs) @ CHR ''}'' # rest"
  have s: "stops t" by (simp add: stops_def t_def)
  show ?case using member_inv [OF _ T(2) s T(3), of d ms' r] 3(1) [OF _ T(4)] 3(2) T(1) by (auto simp: t_def)
qed simp

lemma members_text_head: "kvs \<noteq> [] \<Longrightarrow> \<exists>u. members_text kvs = dquote # u"
  by (cases kvs rule: members_text.cases) auto

lemma object_text_inv:
  assumes "jval d (object_text kvs @ t) j r" "list_all2 reads_member kvs ms" "kvs \<noteq> []"
  shows "j = JObject ms \<and> r = t"
proof -
  obtain u where u: "members_text kvs = dquote # u" using members_text_head [OF assms(3)] by blast
  have "\<exists>ms'. j = JObject ms' \<and> jmembers (Suc d) (members_text kvs @ CHR ''}'' # t) ms' r"
    using assms(1) by (cases rule: jval.cases) (auto simp: object_text_def u skip_ws_def is_ws_def dquote_def)
  then show ?thesis using jmembers_text_inv [OF _ assms(2,3)] by blast
qed

lemma object_text_ws: "skip_ws (object_text kvs @ t) = object_text kvs @ t"
  by (simp add: object_text_def skip_ws_def is_ws_def)

lemma reads_object:
  assumes "list_all2 reads_member kvs ms" "kvs \<noteq> []"
  shows "reads (object_text kvs) (object_text kvs) (JObject ms)"
  unfolding reads_def
proof (intro allI impI)
  fix d t v r
  assume "stops t" "jval d (object_text kvs @ t) v r"
  then show "v = JObject ms \<and> skip_ws r = t \<and> consumed (skip_ws (object_text kvs @ t)) r = object_text kvs"
    using object_text_inv [OF _ assms, of d t v r] by (simp add: object_text_ws stops_facts(2))
qed

lemma object_text_reads:
  assumes "unmarshal_fields (object_text kvs) = Some fs" "list_all2 reads_member kvs ms" "kvs \<noteq> []"
  shows "fs = map (\<lambda>(k, raw, v). (k, raw)) ms"
proof -
  obtain j where j: "json_parse (object_text kvs) = Some j"
    using assms(1) by (cases "json_parse (object_text kvs)") (auto simp: unmarshal_fields_def)
  then obtain r where "jval 0 (object_text kvs @ []) j r" by (auto simp: json_parse_iff)
  from object_text_inv [OF this assms(2,3)] show ?thesis using assms(1) j by (auto simp: unmarshal_fields_def)
qed

definition member_of :: "bytes \<times> bytes \<Rightarrow> bytes \<times> bytes \<times> json" where
  "member_of = (\<lambda>(k, raw). (k, value_text raw, the (json_parse raw)))"

definition text_ok :: "bytes \<times> bytes \<Rightarrow> bool" where
  "text_ok = (\<lambda>(k, raw). list_all plain_byte k \<and> json_valid raw)"

lemma reads_parsed: "json_parse raw = Some v \<Longrightarrow> reads raw (value_text raw) v"
  using reads_valid by (auto simp: json_parse_iff)

lemma reads_member_ok: "text_ok kr \<Longrightarrow> reads_member kr (member_of kr)"
  using reads_parsed by (auto simp: text_ok_def reads_member_def member_of_def json_valid_def split: prod.splits)

lemma reads_members_ok: "list_all text_ok kvs \<Longrightarrow> list_all2 reads_member kvs (map member_of kvs)"
  by (induction kvs) (auto simp: reads_member_ok)

lemma object_text_fields:
  assumes "unmarshal_fields (object_text kvs) = Some fs" "list_all text_ok kvs" "kvs \<noteq> []"
  shows "fs = map (\<lambda>(k, raw). (k, value_text raw)) kvs"
  using object_text_reads [OF assms(1) reads_members_ok [OF assms(2)] assms(3)] by (auto simp: member_of_def)

section \<open>Texts of strings and numbers\<close>

text \<open>A quoted text whose body scans to its closing quote.\<close>

lemma string_text:
  assumes "\<And>r. scan_string (b @ dquote # r) = Some r"
  shows "value_text (dquote # b @ [dquote]) = dquote # b @ [dquote]"
    "json_parse (dquote # b @ [dquote]) = Some (JString (unquote b))" "json_valid (dquote # b @ [dquote])"
proof -
  have ws: "skip_ws (dquote # b @ [dquote]) = dquote # b @ [dquote]"
    by (simp add: skip_ws_def dquote_def is_ws_def)
  have "scalar (dquote # b @ [dquote]) = Some (JString (unquote b), [])"
    using assms [of "[]"] by (simp add: scalar_def consumed_def)
  then have j: "jval 0 (dquote # b @ [dquote]) (JString (unquote b)) []"
    by (intro sca [OF ws]) (simp_all add: dquote_def)
  show "value_text (dquote # b @ [dquote]) = dquote # b @ [dquote]"
    using value_text_jval [OF j] by (simp add: ws consumed_def)
  show p: "json_parse (dquote # b @ [dquote]) = Some (JString (unquote b))"
    using j by (auto simp: json_parse_iff skip_ws_def)
  show "json_valid (dquote # b @ [dquote])" by (simp add: json_valid_def p)
qed

lemmas quoted_text [simp] =
  string_text [OF scan_quote_body, folded quote_string_def, unfolded unquote_quote_body]

lemma decimal_text:
  assumes "canonical_dec s"
  shows "value_text s = s" "json_parse s = Some (JNumber s)" "json_valid s"
proof -
  obtain c t where ct: "s = c # t" using assms by (cases s) (simp_all add: canonical_dec_def)
  then have s: "s = c # t" "is_digit c" "all_digits t" "c = CHR ''0'' \<longrightarrow> t = []"
    using assms unfolding ct canonical_dec_def by auto
  then have nm: "c \<noteq> CHR ''-''" "c \<noteq> dquote" "\<not> is_ws c" "c \<noteq> CHR ''{''" "c \<noteq> CHR ''[''"
    by (auto simp: is_digit_code dquote_def is_ws_def)
  have "scan_int s = Some []"
    using s by (auto simp: scan_int_def all_digits_def list_all_iff)
  then have "scan_number s = Some []"
    using s(1) nm by (simp add: scan_number_def scan_frac_def scan_exp_def)
  then have sc: "scalar (c # t) = Some (JNumber s, [])"
    using s nm by (simp add: scalar_def consumed_def)
  have ws: "skip_ws s = c # t" using s(1) nm by (simp add: skip_ws_def)
  have j: "jval 0 s (JNumber s) []" using sca [OF ws nm(4,5) sc] .
  then show "value_text s = s" using value_text_jval [OF j] ws s by (simp add: consumed_def)
  show "json_parse s = Some (JNumber s)" using j by (auto simp: json_parse_iff skip_ws_def)
  then show "json_valid s" by (simp add: json_valid_def)
qed

lemmas number_text [simp] = decimal_text [OF canonical_fmt_nat]

text \<open>Lookups in the fields of an object text.\<close>

lemma field_Cons [simp]: "field ((k, v) # fs) x = (case field fs x of Some y \<Rightarrow> Some y | None \<Rightarrow> if k = x then Some v else None)"
  by (auto simp: field_def map_add_def split: option.splits)

lemma field_Nil [simp]: "field [] x = None"
  by (simp add: field_def)

lemma unmarshal_quoted [simp]: "unmarshal_string (quote_string html s) = Some (coerce_utf8 s)"
  by (simp add: unmarshal_string_def)

lemma quote_not_null [simp]: "quote_string html s \<noteq> ''null''"
  by (simp add: quote_string_def dquote_def)

lemma stringField_quoted: "field fs k = Some (quote_string html s) \<Longrightarrow> stringField fs k = Inr (coerce_utf8 s)"
  by (simp add: stringField_def)

lemma versionField_number:
  "field fs k = Some (fmt_nat n) \<Longrightarrow> versionField fs k = Inr v \<Longrightarrow> v = word_of_int (int n)"
  by (auto simp: versionField_def rawField_def Let_def split: if_splits)

text \<open>The keys the protocol writes are plain; the two rules evaluate that on a literal key.\<close>

lemma text_ok_simps:
  "text_ok (k, raw) \<longleftrightarrow> list_all plain_byte k \<and> json_valid raw"
  by (simp add: text_ok_def)

lemmas key_simps = text_ok_simps plain_byte_def dquote_def bslash_def

lemma identifier_ident: "is_identifier s n t \<Longrightarrow> list_all ident_byte s"
  using identifier_type_bytes [of s n] type_ident by (cases t) (auto simp: identifier_plain list_all_iff)

end
