(* ===== verification/Message.thy ===== *)
theory Message
  imports ObjectText "HOL-Library.Code_Target_Nat"
begin

text \<open>
  The persisted message envelope of \<^verbatim>\<open>core/protocol/go/message.go\<close>: its shape, decoder and encoder. The property is
  the round trip: whatever the encoder emits decodes to the message it was given, so that no field and no payload
  fragment can inject envelope fields.
\<close>

section \<open>The envelope\<close>

record Message =
  m_ProtocolVersion :: u32
  m_Version :: u32
  m_ClientMsgID :: bytes
  m_ServerMsgID :: bytes
  m_ConversationID :: bytes
  m_ConversationSeq :: bytes
  m_SenderID :: bytes
  m_Type :: bytes
  m_ServerTime :: bytes
  m_Payload :: "bytes option"

definition Message_Supported :: "Message \<Rightarrow> bool" where
  "Message_Supported m \<longleftrightarrow>
     m_ProtocolVersion m = 1 \<and> m_Version m = 1 \<and> (m_Type m = ''text'' \<or> m_Type m = ''media'')"

definition shape :: "Message \<Rightarrow> bool" where
  "shape m \<longleftrightarrow>
     0 < m_ProtocolVersion m \<and> m_ProtocolVersion m \<le> 2147483647 \<and>
     0 < m_Version m \<and> m_Version m \<le> 2147483647 \<and>
     is_identifier (m_ClientMsgID m) 128 False \<and> is_identifier (m_ServerMsgID m) 128 False \<and>
     is_identifier (m_ConversationID m) 128 False \<and> is_identifier (m_SenderID m) 128 False \<and>
     is_identifier (m_Type m) 64 True \<and> decimal (m_ConversationSeq m) maxInt64 \<and>
     decimal (m_ServerTime m) maxInt64"

text \<open>
  The two field loops of \<^verbatim>\<open>decodeMessage\<close> range over maps; every failure gives the same code, so the order
  in which the source visits the keys does not matter.
\<close>

definition decodeMessage :: "bytes \<Rightarrow> bool \<Rightarrow> (ErrorCode, Message) result" where
  "decodeMessage wire semantics =
     bindR (strictJSON wire) (\<lambda>_.
     bindR (objectFields wire) (\<lambda>fs.
     bindR (stringField fs ''clientMsgId'') (\<lambda>clientMsgId.
     bindR (stringField fs ''serverMsgId'') (\<lambda>serverMsgId.
     bindR (stringField fs ''conversationId'') (\<lambda>conversationId.
     bindR (stringField fs ''conversationSeq'') (\<lambda>conversationSeq.
     bindR (stringField fs ''senderId'') (\<lambda>senderId.
     bindR (stringField fs ''type'') (\<lambda>type.
     bindR (stringField fs ''serverTime'') (\<lambda>serverTime.
     bindR (versionField fs ''protocolVersion'') (\<lambda>protocolVersion.
     bindR (versionField fs ''version'') (\<lambda>version.
       let raw = rawField fs ''payload'';
           m = \<lparr>m_ProtocolVersion = protocolVersion, m_Version = version, m_ClientMsgID = clientMsgId,
                m_ServerMsgID = serverMsgId, m_ConversationID = conversationId,
                m_ConversationSeq = conversationSeq, m_SenderID = senderId, m_Type = type,
                m_ServerTime = serverTime, m_Payload = Some raw\<rparr> in
       if field fs ''payload'' = None \<or> unmarshal_fields raw = None \<or> \<not> shape m then Inl InvalidMessage
       else if semantics \<and> protocolVersion \<noteq> 1 then Inl UnsupportedVersion
       else bindR (if semantics then validateKnownPayload type version raw else Inr ()) (\<lambda>_. Inr m))))))))))))"

definition Decode :: "bytes \<Rightarrow> (ErrorCode, Message) result" where
  "Decode wire = decodeMessage wire True"

text \<open>The size loop that starts \<^verbatim>\<open>Encode\<close>; \<^verbatim>\<open>lowerBound\<close> of \<^verbatim>\<open>send.go\<close> is the same loop.\<close>

fun lowerBound :: "int \<Rightarrow> int \<Rightarrow> nat list \<Rightarrow> (ErrorCode, unit) result" where
  "lowerBound limit sofar [] = Inr ()"
| "lowerBound limit sofar (n # sizes) =
     (if limit - sofar < int n then Inl TooLarge else lowerBound limit (sofar + int n) sizes)"

definition payloadText :: "bytes option \<Rightarrow> bytes" where
  "payloadText p = (case p of None \<Rightarrow> ''null'' | Some raw \<Rightarrow> raw)"

definition payloadLen :: "bytes option \<Rightarrow> nat" where
  "payloadLen p = (case p of None \<Rightarrow> 0 | Some raw \<Rightarrow> length raw)"

definition messageMembers :: "Message \<Rightarrow> (bytes \<times> bytes) list" where
  "messageMembers m =
     [(''protocolVersion'', fmt_nat (unat (m_ProtocolVersion m))), (''version'', fmt_nat (unat (m_Version m))),
      (''clientMsgId'', quote_string False (m_ClientMsgID m)), (''serverMsgId'', quote_string False (m_ServerMsgID m)),
      (''conversationId'', quote_string False (m_ConversationID m)),
      (''conversationSeq'', quote_string False (m_ConversationSeq m)),
      (''senderId'', quote_string False (m_SenderID m)), (''type'', quote_string False (m_Type m)),
      (''serverTime'', quote_string False (m_ServerTime m)), (''payload'', payloadText (m_Payload m))]"

definition Encode :: "Message \<Rightarrow> (ErrorCode, bytes) result" where
  "Encode m =
     bindR (lowerBound (int MaxBytes) 0
         [length (m_ClientMsgID m), length (m_ServerMsgID m), length (m_ConversationID m),
          length (m_ConversationSeq m), length (m_SenderID m), length (m_Type m), length (m_ServerTime m),
          payloadLen (m_Payload m)]) (\<lambda>_.
     let wire = object_text (messageMembers m) in
     bindR (Decode wire) (\<lambda>_.
       if m_Payload m \<noteq> None \<and> \<not> json_valid (payloadText (m_Payload m)) then Inl InvalidJSON
       else Inr wire))"

definition Validate :: "Message \<Rightarrow> (ErrorCode, unit) result" where
  "Validate m = bindR (Encode m) (\<lambda>_. Inr ())"

section \<open>Round trip\<close>

lemma json_valid_null: "json_valid ''null''"
  by code_simp

lemma messageMembers_ok:
  "m_Payload m = None \<or> json_valid (payloadText (m_Payload m)) \<Longrightarrow> list_all text_ok (messageMembers m)"
  by (cases "m_Payload m") (simp_all add: messageMembers_def payloadText_def json_valid_null key_simps)

lemma decodeMessage_fields:
  assumes "decodeMessage wire semantics = Inr m" "unmarshal_fields wire = Some fs"
  shows "stringField fs ''clientMsgId'' = Inr (m_ClientMsgID m)"
    "stringField fs ''serverMsgId'' = Inr (m_ServerMsgID m)"
    "stringField fs ''conversationId'' = Inr (m_ConversationID m)"
    "stringField fs ''conversationSeq'' = Inr (m_ConversationSeq m)"
    "stringField fs ''senderId'' = Inr (m_SenderID m)"
    "stringField fs ''type'' = Inr (m_Type m)"
    "stringField fs ''serverTime'' = Inr (m_ServerTime m)"
    "versionField fs ''protocolVersion'' = Inr (m_ProtocolVersion m)"
    "versionField fs ''version'' = Inr (m_Version m)"
    "m_Payload m = Some (rawField fs ''payload'')" "shape m"
    "semantics \<longrightarrow> m_ProtocolVersion m = 1"
  using assms by (auto simp: decodeMessage_def objectFields_def Let_def bindR_eq_Inr split: if_splits option.splits)

lemma unmarshal_fields_null: "unmarshal_fields (value_text ''null'') = None"
  by code_simp

lemma decimal_ident: "decimal s m \<Longrightarrow> list_all ident_byte s"
  using digit_ident by (auto dest!: decimal_canonical simp: canonical_dec_def all_digits_def list_all_iff)

lemma shape_idents:
  assumes "shape m"
  shows "list_all ident_byte (m_ClientMsgID m)" "list_all ident_byte (m_ServerMsgID m)"
    "list_all ident_byte (m_ConversationID m)" "list_all ident_byte (m_SenderID m)"
    "list_all ident_byte (m_Type m)" "list_all ident_byte (m_ConversationSeq m)" "list_all ident_byte (m_ServerTime m)"
  using assms decimal_ident identifier_ident unfolding shape_def by blast+

lemma Encode_Decode:
  assumes "Encode m = Inr w"
  shows "\<exists>p. m_Payload m = Some p \<and> json_valid p \<and> Decode w = Inr (m\<lparr>m_Payload := Some (value_text p)\<rparr>)"
proof -
  obtain m' where w: "w = object_text (messageMembers m)" "Decode w = Inr m'"
    "m_Payload m = None \<or> json_valid (payloadText (m_Payload m))"
    using assms by (auto simp: Encode_def Let_def bindR_eq_Inr split: if_splits)
  obtain fs where fs: "unmarshal_fields w = Some fs" "unmarshal_fields (rawField fs ''payload'') \<noteq> None"
    using w(2) by (auto simp: Decode_def decodeMessage_def objectFields_def Let_def bindR_eq_Inr
        split: if_splits option.splits)
  have fs': "fs = map (\<lambda>(k, raw). (k, value_text raw)) (messageMembers m)"
    using object_text_fields [OF fs(1) [unfolded w(1)] messageMembers_ok [OF w(3)]] by (simp add: messageMembers_def)
  note f = decodeMessage_fields [OF w(2) [unfolded Decode_def] fs(1)]
  have look: "field fs ''clientMsgId'' = Some (quote_string False (m_ClientMsgID m))"
    "field fs ''serverMsgId'' = Some (quote_string False (m_ServerMsgID m))"
    "field fs ''conversationId'' = Some (quote_string False (m_ConversationID m))"
    "field fs ''conversationSeq'' = Some (quote_string False (m_ConversationSeq m))"
    "field fs ''senderId'' = Some (quote_string False (m_SenderID m))"
    "field fs ''type'' = Some (quote_string False (m_Type m))"
    "field fs ''serverTime'' = Some (quote_string False (m_ServerTime m))"
    "field fs ''protocolVersion'' = Some (fmt_nat (unat (m_ProtocolVersion m)))"
    "field fs ''version'' = Some (fmt_nat (unat (m_Version m)))"
    "field fs ''payload'' = Some (value_text (payloadText (m_Payload m)))"
    by (simp_all add: fs' messageMembers_def)
  obtain p where p: "m_Payload m = Some p"
    using fs(2) look(10) unmarshal_fields_null by (cases "m_Payload m") (auto simp: rawField_def payloadText_def)
  have strs: "m_ClientMsgID m' = coerce_utf8 (m_ClientMsgID m)" "m_ServerMsgID m' = coerce_utf8 (m_ServerMsgID m)"
    "m_ConversationID m' = coerce_utf8 (m_ConversationID m)" "m_ConversationSeq m' = coerce_utf8 (m_ConversationSeq m)"
    "m_SenderID m' = coerce_utf8 (m_SenderID m)" "m_Type m' = coerce_utf8 (m_Type m)"
    "m_ServerTime m' = coerce_utf8 (m_ServerTime m)"
    using f(1-7) look(1-7) by (simp_all add: stringField_quoted)
  have "m' = m\<lparr>m_Payload := Some (value_text p)\<rparr>"
    using strs shape_idents [OF f(11)] coerce_ident f(8-10) look(8-10) p
      versionField_number [OF look(8) f(8)] versionField_number [OF look(9) f(9)]
    by (intro Message.equality) (simp_all add: rawField_def payloadText_def)
  then show ?thesis using w p by (auto simp: payloadText_def)
qed

text \<open>The message with its payload text without surrounding white space.\<close>

definition trimPayload :: "Message \<Rightarrow> Message" where
  "trimPayload m = m\<lparr>m_Payload := map_option value_text (m_Payload m)\<rparr>"

interpretation message_codec: codec Encode Decode trimPayload
  using Encode_Decode by unfold_locales (fastforce simp: trimPayload_def)

lemma Decode_sound:
  assumes "Decode w = Inr m"
  shows "shape m \<and> m_ProtocolVersion m = 1 \<and> length w \<le> MaxBytes \<and> utf8_valid w \<and>
    (\<exists>ms. json_parse w = Some (JObject ms) \<and> jwf MaxDepth (JObject ms))"
proof -
  obtain fs where fs: "unmarshal_fields w = Some fs" and st: "strictJSON w = Inr ()"
    using assms by (auto simp: Decode_def decodeMessage_def objectFields_def bindR_eq_Inr split: option.splits)
  have "length w \<le> MaxBytes \<and> utf8_valid w \<and> (\<exists>j. json_parse w = Some j \<and> jwf MaxDepth j)"
    using strict_sound [OF st [unfolded strictJSON_def]] by (simp add: MaxDepth_def MaxNesting_def)
  then show ?thesis
    using fs decodeMessage_fields(11,12) [OF assms [unfolded Decode_def] fs]
    by (auto simp: unmarshal_fields_def split: option.splits json.splits)
qed

text \<open>
  C25. Message round trip: when \<^verbatim>\<open>Encode\<close> returns a wire text, that text decodes to the message that was
  encoded, every identifier, sequence, time, type and version unchanged and the payload exactly the given JSON value
  without the white space around it. So neither a string field nor a payload fragment can add, drop or change an
  envelope field.
\<close>

theorem Encode_roundtrip:
  assumes "Encode m = Inr w"
  shows "\<exists>p. m_Payload m = Some p \<and> json_valid p \<and> Decode w = Inr (m\<lparr>m_Payload := Some (value_text p)\<rparr>)"
  using assms by (rule Encode_Decode)

definition sampleMessage :: Message where
  "sampleMessage = \<lparr>m_ProtocolVersion = 1, m_Version = 1, m_ClientMsgID = ''c1'', m_ServerMsgID = ''s1'',
     m_ConversationID = ''v1'', m_ConversationSeq = ''1'', m_SenderID = ''u1'', m_Type = ''text'', m_ServerTime = ''7'',
     m_Payload = Some (object_text [(''text'', quote_string False ''hi'')])\<rparr>"

lemma sampleMessage_ok: "is_ok (Encode sampleMessage)"
  by code_simp

theorem Encode_roundtrip_witness:
  "\<exists>w. Encode sampleMessage = Inr w \<and>
     (\<exists>p. m_Payload sampleMessage = Some p \<and> json_valid p \<and>
       Decode w = Inr (sampleMessage\<lparr>m_Payload := Some (value_text p)\<rparr>))"
proof -
  obtain w where w: "Encode sampleMessage = Inr w" using sampleMessage_ok by (auto simp: is_ok_iff)
  show ?thesis using Encode_roundtrip [OF w] w by blast
qed

text \<open>
  C36. A decoded message is well formed: \<^verbatim>\<open>Decode\<close> returns a message only when its identifiers, decimals and
  versions have the documented shape, the protocol version is 1, and the text was a UTF-8 JSON object of at most
  65536 bytes and 32 levels that repeats no key anywhere.
\<close>

theorem Decode_wellformed:
  assumes "Decode w = Inr m"
  shows "shape m \<and> m_ProtocolVersion m = 1 \<and> length w \<le> MaxBytes \<and> utf8_valid w \<and>
    (\<exists>ms. json_parse w = Some (JObject ms) \<and> jwf MaxDepth (JObject ms))"
  using assms by (rule Decode_sound)

theorem Decode_wellformed_witness:
  "\<exists>w m. Decode w = Inr m \<and> shape m \<and> m_ProtocolVersion m = 1 \<and> length w \<le> MaxBytes \<and> utf8_valid w \<and>
    (\<exists>ms. json_parse w = Some (JObject ms) \<and> jwf MaxDepth (JObject ms))"
proof -
  obtain w where w: "Encode sampleMessage = Inr w" using sampleMessage_ok by (auto simp: is_ok_iff)
  obtain m where m: "Decode w = Inr m" using Encode_Decode [OF w] by blast
  show ?thesis using Decode_wellformed [OF m] m by blast
qed

end
