(* ===== verification/Base64.thy ===== *)
theory Base64
  imports JsonQuote
begin

text \<open>
  \<^verbatim>\<open>base64.RawURLEncoding\<close> of the Go library, as webhook nonces and signatures, cursors and bearer tokens use it: no
  padding, alphabet \<^verbatim>\<open>A-Za-z0-9-_\<close>. The decoder skips carriage returns and line feeds; \<^verbatim>\<open>Strict()\<close> also
  refuses non-zero bits after the last byte.
\<close>

section \<open>The alphabet\<close>

definition b64_char :: "nat \<Rightarrow> char" where
  "b64_char n =
     (if n < 26 then char_of (n + 65) else if n < 52 then char_of (n + 71)
      else if n < 62 then char_of (n - 4) else if n = 62 then CHR ''-'' else CHR ''_'')"

definition b64_val :: "char \<Rightarrow> nat option" where
  "b64_val c =
     (if is_upper c then Some (code c - 65) else if is_lower c then Some (code c - 71)
      else if is_digit c then Some (code c + 4) else if c = CHR ''-'' then Some 62
      else if c = CHR ''_'' then Some 63 else None)"

section \<open>Encoding and decoding\<close>

fun b64_encode :: "bytes \<Rightarrow> bytes" where
  "b64_encode [] = []"
| "b64_encode [a] = [b64_char (code a div 4), b64_char (code a mod 4 * 16)]"
| "b64_encode [a, b] =
     [b64_char (code a div 4), b64_char (code a mod 4 * 16 + code b div 16), b64_char (code b mod 16 * 4)]"
| "b64_encode (a # b # c # s) =
     [b64_char (code a div 4), b64_char (code a mod 4 * 16 + code b div 16),
      b64_char (code b mod 16 * 4 + code c div 64), b64_char (code c mod 64)] @ b64_encode s"

fun b64_quads :: "bool \<Rightarrow> bytes \<Rightarrow> bytes option" where
  "b64_quads strict [] = Some []"
| "b64_quads strict [x] = None"
| "b64_quads strict [x, y] =
     Option.bind (b64_val x) (\<lambda>p. Option.bind (b64_val y) (\<lambda>q.
       if strict \<and> q mod 16 \<noteq> 0 then None else Some [char_of (p * 4 + q div 16)]))"
| "b64_quads strict [x, y, z] =
     Option.bind (b64_val x) (\<lambda>p. Option.bind (b64_val y) (\<lambda>q. Option.bind (b64_val z) (\<lambda>r.
       if strict \<and> r mod 4 \<noteq> 0 then None
       else Some [char_of (p * 4 + q div 16), char_of (q mod 16 * 16 + r div 4)])))"
| "b64_quads strict (x # y # z # w # s) =
     Option.bind (b64_val x) (\<lambda>p. Option.bind (b64_val y) (\<lambda>q. Option.bind (b64_val z) (\<lambda>r. Option.bind (b64_val w) (\<lambda>t.
       map_option (\<lambda>rest. [char_of (p * 4 + q div 16), char_of (q mod 16 * 16 + r div 4), char_of (r mod 4 * 64 + t)] @ rest)
         (b64_quads strict s)))))"

definition b64_decode :: "bool \<Rightarrow> bytes \<Rightarrow> bytes option" where
  "b64_decode strict s = b64_quads strict (filter (\<lambda>c. c \<noteq> CHR 0x0A \<and> c \<noteq> CHR 0x0D) s)"

section \<open>Round trip\<close>

lemma code_b64_char:
  "n < 64 \<Longrightarrow> code (b64_char n) = (if n < 26 then n + 65 else if n < 52 then n + 71 else if n < 62 then n - 4
     else if n = 62 then 45 else 95)"
  by (simp add: b64_char_def)

lemma b64_val_char [simp]: "n < 64 \<Longrightarrow> b64_val (b64_char n) = Some n"
  using code_b64_char [of n]
  by (auto simp: b64_val_def is_upper_code is_lower_code is_digit_code char_eq_iff_code simp del: of_char_eq_iff split: if_splits)

lemma b64_char_ident: "n < 64 \<Longrightarrow> ident_byte (b64_char n)"
  using code_b64_char [of n]
  by (auto simp: ident_byte_def is_upper_code is_lower_code is_digit_code char_eq_iff_code simp del: of_char_eq_iff split: if_splits)

lemma b64_pieces:
  assumes "(a::nat) < 256" "b < 256" "c < 256"
  shows "a div 4 < 64" "a mod 4 * 16 < 64" "a mod 4 * 16 + b div 16 < 64" "b mod 16 * 4 < 64"
    "b mod 16 * 4 + c div 64 < 64" "c mod 64 < 64"
    "a div 4 * 4 + (a mod 4 * 16) div 16 = a" "a div 4 * 4 + (a mod 4 * 16 + b div 16) div 16 = a"
    "(a mod 4 * 16 + b div 16) mod 16 * 16 + (b mod 16 * 4) div 4 = b"
    "(a mod 4 * 16 + b div 16) mod 16 * 16 + (b mod 16 * 4 + c div 64) div 4 = b"
    "(b mod 16 * 4 + c div 64) mod 4 * 64 + c mod 64 = c" "a mod 4 * 16 mod 16 = 0" "b mod 16 * 4 mod 4 = 0"
proof -
  have d: "a div 4 < 64" "b div 16 < 16" "c div 64 < 4" using assms by linarith+
  have m: "a mod 4 < 4" "b mod 16 < 16" "c mod 64 < 64" by simp_all
  show "a div 4 < 64" "a mod 4 * 16 < 64" "a mod 4 * 16 + b div 16 < 64" "b mod 16 * 4 < 64"
    "b mod 16 * 4 + c div 64 < 64" "c mod 64 < 64"
    using d m by linarith+
  show "a div 4 * 4 + (a mod 4 * 16) div 16 = a" "a div 4 * 4 + (a mod 4 * 16 + b div 16) div 16 = a"
    "(a mod 4 * 16 + b div 16) mod 16 * 16 + (b mod 16 * 4) div 4 = b"
    "(a mod 4 * 16 + b div 16) mod 16 * 16 + (b mod 16 * 4 + c div 64) div 4 = b"
    "(b mod 16 * 4 + c div 64) mod 4 * 64 + c mod 64 = c" "a mod 4 * 16 mod 16 = 0" "b mod 16 * 4 mod 4 = 0"
    using d by simp_all
qed

lemma code_less [simp]: "code c < 256"
  using mod_less_divisor [of 256 "code c"] by (simp only: of_char_mod_256)

lemma b64_code_div:
  "code b div 16 div 16 = 0" "code b div 16 mod 16 = code b div 16"
  "code b div 64 div 4 = 0" "code b div 64 mod 4 = code b div 64"
  using code_less [of b] by (simp_all add: div_less mod_less less_mult_imp_div_less)

lemmas b64_code_pieces = b64_pieces [of "code a" "code b" "code c", OF code_less code_less code_less] for a b c

lemma b64_encode_ident: "list_all ident_byte (b64_encode s)"
  by (induction s rule: b64_encode.induct) (simp_all add: b64_char_ident b64_code_pieces)

lemma b64_quads_encode: "b64_quads strict (b64_encode s) = Some s"
  by (induction s rule: b64_encode.induct) (simp_all add: b64_code_pieces b64_code_div)

lemma ident_not_newline: "ident_byte c \<Longrightarrow> c \<noteq> CHR 0x0A \<and> c \<noteq> CHR 0x0D"
  using ident_plain [of c] by (auto simp: plain_byte_def)

lemma b64_decode_encode [simp]: "b64_decode strict (b64_encode s) = Some s"
proof -
  have "filter (\<lambda>c. c \<noteq> CHR 0x0A \<and> c \<noteq> CHR 0x0D) (b64_encode s) = b64_encode s"
    using b64_encode_ident ident_not_newline by (auto simp: filter_id_conv list_all_iff)
  then show ?thesis by (simp add: b64_decode_def b64_quads_encode)
qed

lemma b64_encode_inj: "b64_encode s = b64_encode t \<Longrightarrow> s = t"
  by (metis b64_decode_encode option.inject)

lemma b64_encode_length: "length (b64_encode s) = (4 * length s + 2) div 3"
  by (induction s rule: b64_encode.induct) simp_all

interpretation b64_codec: codec "\<lambda>s. Inr (b64_encode s) :: (unit, bytes) result"
  "\<lambda>w. case b64_decode True w of None \<Rightarrow> Inl () | Some s \<Rightarrow> Inr s" id
  by unfold_locales auto

end
