(* ===== verification/Sha256.thy ===== *)
theory Sha256
  imports Base64 "HOL-Library.Word"
begin

text \<open>
  \<^verbatim>\<open>crypto/sha256\<close> and \<^verbatim>\<open>crypto/hmac\<close> of the Go library at the width the source uses them: the FIPS 180-4 compression on
  32-bit words and HMAC with a 64-byte block. The development relies on the length of the digest only.
\<close>

unbundle bit_operations_syntax

text \<open>
  The constants are the first 32 bits of the fractional parts of roots of the first primes: cube roots for the rounds,
  square roots for the initial state. \<open>root_bits\<close> finds an integer root bit by bit.
\<close>

fun root_bits :: "nat \<Rightarrow> nat \<Rightarrow> nat \<Rightarrow> nat \<Rightarrow> nat" where
  "root_bits k n 0 r = r"
| "root_bits k n (Suc b) r = root_bits k n b (if (r + 2 ^ b) ^ k \<le> n then r + 2 ^ b else r)"

definition small_primes :: "nat list" where
  "small_primes = filter (\<lambda>n. list_all (\<lambda>d. n mod d \<noteq> 0) [2..<n]) [2..<312]"

definition sha256_k :: "u32 list" where
  "sha256_k = map (\<lambda>p. word_of_int (int (root_bits 3 (p * 2 ^ 96) 36 0))) small_primes"

definition sha256_init :: "u32 list" where
  "sha256_init = map (\<lambda>p. word_of_int (int (root_bits 2 (p * 2 ^ 64) 36 0))) [2, 3, 5, 7, 11, 13, 17, 19]"

definition rotr :: "nat \<Rightarrow> u32 \<Rightarrow> u32" where
  "rotr n x = drop_bit n x OR push_bit (32 - n) x"

definition word_of_bytes :: "bytes \<Rightarrow> u32" where
  "word_of_bytes s = foldl (\<lambda>w c. push_bit 8 w OR word_of_int (int (code c))) 0 s"

definition bytes_of_word :: "u32 \<Rightarrow> bytes" where
  "bytes_of_word w = map (\<lambda>n. char_of (unat (drop_bit n w AND 0xff))) [24, 16, 8, 0]"

text \<open>Message padding: the bit 1, zeros up to 56 modulo 64, the length in bits as eight bytes.\<close>

definition sha256_pad :: "bytes \<Rightarrow> bytes" where
  "sha256_pad s =
     (let n = length s; z = (119 - n mod 64) mod 64
      in s @ [CHR 0x80] @ replicate z (CHR 0x00) @ map (\<lambda>i. char_of (8 * n div 256 ^ (7 - i) mod 256)) [0..<8])"

fun chunks :: "nat \<Rightarrow> nat \<Rightarrow> 'a list \<Rightarrow> 'a list list" where
  "chunks 0 k s = []"
| "chunks (Suc n) k s = take k s # chunks n k (drop k s)"

fun schedule :: "nat \<Rightarrow> u32 list \<Rightarrow> u32 list" where
  "schedule 0 w = w"
| "schedule (Suc n) w =
     (let t = length w; x = w ! (t - 15); y = w ! (t - 2);
          s0 = rotr 7 x XOR rotr 18 x XOR drop_bit 3 x;
          s1 = rotr 17 y XOR rotr 19 y XOR drop_bit 10 y
      in schedule n (w @ [w ! (t - 16) + s0 + w ! (t - 7) + s1]))"

fun sha256_round :: "u32 list \<Rightarrow> u32 \<times> u32 \<Rightarrow> u32 list" where
  "sha256_round [a, b, c, d, e, f, g, h] (k, w) =
     (let t1 = h + (rotr 6 e XOR rotr 11 e XOR rotr 25 e) + ((e AND f) XOR (NOT e AND g)) + k + w;
          t2 = (rotr 2 a XOR rotr 13 a XOR rotr 22 a) + ((a AND b) XOR (a AND c) XOR (b AND c))
      in [t1 + t2, a, b, c, d + t1, e, f, g])"
| "sha256_round x _ = x"

definition sha256_block :: "u32 list \<Rightarrow> bytes \<Rightarrow> u32 list" where
  "sha256_block st block =
     (let w = schedule 48 (map word_of_bytes (chunks 16 4 block))
      in map2 (+) st (foldl sha256_round st (zip sha256_k w)))"

definition sha256 :: "bytes \<Rightarrow> bytes" where
  "sha256 s = (let p = sha256_pad s
     in concat (map bytes_of_word (foldl sha256_block sha256_init (chunks (length p div 64) 64 p))))"

definition xor_byte :: "nat \<Rightarrow> char \<Rightarrow> char" where
  "xor_byte k c = char_of (k XOR code c)"

definition hmac_sha256 :: "bytes \<Rightarrow> bytes \<Rightarrow> bytes" where
  "hmac_sha256 key msg =
     (let k0 = (if 64 < length key then sha256 key else key); k = k0 @ replicate (64 - length k0) (CHR 0x00)
      in sha256 (map (xor_byte 92) k @ sha256 (map (xor_byte 54) k @ msg)))"

section \<open>The digest has 32 bytes\<close>

lemma sha256_round_length: "length st = 8 \<Longrightarrow> length (sha256_round st kw) = 8"
  by (induction st kw rule: sha256_round.induct) (simp_all add: Let_def)

lemma sha256_rounds_length: "length st = 8 \<Longrightarrow> length (foldl sha256_round st kws) = 8"
  by (induction kws arbitrary: st) (simp_all add: sha256_round_length)

lemma sha256_block_length: "length st = 8 \<Longrightarrow> length (sha256_block st block) = 8"
  by (simp add: sha256_block_def Let_def sha256_rounds_length)

lemma sha256_blocks_length: "length st = 8 \<Longrightarrow> length (foldl sha256_block st bs) = 8"
  by (induction bs arbitrary: st) (simp_all add: sha256_block_length)

lemma length_concat_words: "length (concat (map bytes_of_word ws)) = 4 * length ws"
  by (induction ws) (simp_all add: bytes_of_word_def)

lemma length_sha256 [simp]: "length (sha256 s) = 32"
  by (simp add: sha256_def Let_def length_concat_words sha256_blocks_length sha256_init_def)

lemma length_hmac [simp]: "length (hmac_sha256 key msg) = 32"
  by (simp add: hmac_sha256_def Let_def)

section \<open>Hexadecimal text\<close>

text \<open>\<^verbatim>\<open>hex.EncodeToString\<close>.\<close>

definition hex_encode :: "bytes \<Rightarrow> bytes" where
  "hex_encode s = concat (map (\<lambda>c. [hex_digit (code c div 16), hex_digit (code c mod 16)]) s)"

lemma hex_encode_Cons [simp]:
  "hex_encode (c # s) = hex_digit (code c div 16) # hex_digit (code c mod 16) # hex_encode s" "hex_encode [] = []"
  by (simp_all add: hex_encode_def)

lemma hex_encode_inj: "hex_encode s = hex_encode t \<Longrightarrow> s = t"
proof (induction s arbitrary: t)
  case (Cons c s)
  then obtain d u where t: "t = d # u" by (cases t) auto
  have lt: "code c div 16 < 16" "code c mod 16 < 16" "code d div 16 < 16" "code d mod 16 < 16"
    using code_less [of c] code_less [of d] by (simp_all add: less_mult_imp_div_less)
  have eq: "hex_digit (code c div 16) = hex_digit (code d div 16)" "hex_digit (code c mod 16) = hex_digit (code d mod 16)"
    "hex_encode s = hex_encode u"
    using Cons.prems t by simp_all
  have "code c div 16 = code d div 16"
    using arg_cong [OF eq(1), of hex_val] unfolding hex_digit_facts(2) [OF lt(1)] hex_digit_facts(2) [OF lt(3)] .
  moreover have "code c mod 16 = code d mod 16"
    using arg_cong [OF eq(2), of hex_val] unfolding hex_digit_facts(2) [OF lt(2)] hex_digit_facts(2) [OF lt(4)] .
  ultimately have "code c = code d" by (metis div_mult_mod_eq)
  then show ?case using Cons.IH [OF eq(3)] t by simp
next
  case Nil
  then show ?case by (cases t) simp_all
qed

end
