(* ===== verification/WebhookProtocol.thy ===== *)
theory WebhookProtocol
  imports Message Sha256 "HOL-Library.AList"
begin

text \<open>
  The signed webhook protocol of \<^verbatim>\<open>core/protocol/go/webhook.go\<close>: the event envelope, the security headers, the canonical
  signing text, signature verification and the in-memory replay guard. A replay guard and a key resolver are
  parameters where the source takes interfaces; \<^verbatim>\<open>MemoryWebhookReplayGuard\<close> is the guard of the package.
\<close>

section \<open>Codes, envelope and headers\<close>

datatype WebhookCode =
    WebhookInvalidJSON | WebhookInvalidEnvelope | WebhookEnvelopeTooLarge | WebhookEnvelopeTooDeep
  | WebhookUnsupportedSchema | WebhookInvalidHeaders | WebhookInvalidSignature | WebhookTimestampMismatch
  | WebhookReplayDetected | WebhookReplayUnavailable | WebhookCapacityExceeded | WebhookUnknownKey
  | WebhookKeyUnavailable | WebhookIdentityMismatch

text \<open>An error of a guard or a resolver: one with a stable code, or any other.\<close>

datatype guardError = WebhookErr WebhookCode | OtherErr

definition WebhookErrorCode :: "guardError option \<Rightarrow> WebhookCode option" where
  "WebhookErrorCode err = (case err of Some (WebhookErr c) \<Rightarrow> Some c | _ \<Rightarrow> None)"

definition WebhookSchemaVersion :: u32 where "WebhookSchemaVersion = 1"
definition WebhookSignatureVersion :: bytes where "WebhookSignatureVersion = ''1''"
definition WebhookTimestampWindow :: int where "WebhookTimestampWindow = 5 * minute"
definition WebhookMinSecretBytes :: nat where "WebhookMinSecretBytes = 32"
definition WebhookMaxHeaderBytes :: nat where "WebhookMaxHeaderBytes = 4096"
definition WebhookMaxEnvelopeBytes :: nat where "WebhookMaxEnvelopeBytes = MaxBytes"
definition WebhookMaxEnvelopeDepth :: nat where "WebhookMaxEnvelopeDepth = MaxDepth"

record WebhookEnvelope =
  we_EventID :: bytes
  we_EventType :: bytes
  we_OccurredAt :: bytes
  we_SchemaVersion :: u32
  we_Payload :: bytes

record WebhookHeaders =
  wh_EventID :: bytes
  wh_DeliveryID :: bytes
  wh_Timestamp :: bytes
  wh_Nonce :: bytes
  wh_KeyID :: bytes
  wh_SignatureVersion :: bytes
  wh_Signature :: bytes

section \<open>Validators\<close>

definition header_byte :: "char \<Rightarrow> bool" where
  "header_byte c \<longleftrightarrow> \<not> (code c < 32 \<or> 126 < code c)"

definition validWebhookHeaderValue :: "bytes \<Rightarrow> bool" where
  "validWebhookHeaderValue value =
     (if length value = 0 \<or> WebhookMaxHeaderBytes < length value then False else list_all header_byte value)"

fun eventType_loop :: "nat \<Rightarrow> bytes \<Rightarrow> bool" where
  "eventType_loop i [] = True"
| "eventType_loop i (c # cs) =
     (if is_lower c \<or> is_digit c \<or> (0 < i \<and> (c = CHR ''_'' \<or> c = CHR ''.'')) then eventType_loop (Suc i) cs else False)"

definition webhookEventType :: "bytes \<Rightarrow> bool" where
  "webhookEventType value =
     (if length value = 0 \<or> 128 < length value \<or> \<not> is_lower (hd value) then False else eventType_loop 0 value)"

definition quoteWebhookString :: "bytes \<Rightarrow> (WebhookCode, bytes) result" where
  "quoteWebhookString value =
     (if \<not> validWebhookHeaderValue value then Inl WebhookInvalidEnvelope else Inr (quote_string True value))"

definition validateWebhookBodySyntax :: "bytes \<Rightarrow> (WebhookCode, unit) result" where
  "validateWebhookBodySyntax wire =
     (if WebhookMaxEnvelopeBytes < length wire then Inl WebhookEnvelopeTooLarge
      else case strictJSONLimits wire WebhookMaxEnvelopeBytes WebhookMaxEnvelopeDepth of
        Inl TooLarge \<Rightarrow> Inl WebhookEnvelopeTooLarge
      | Inl TooDeep \<Rightarrow> Inl WebhookEnvelopeTooDeep
      | Inl _ \<Rightarrow> Inl WebhookInvalidJSON
      | Inr _ \<Rightarrow> Inr ())"

definition validateWebhookSigningHeaders :: "WebhookHeaders \<Rightarrow> (WebhookCode, unit) result" where
  "validateWebhookSigningHeaders h =
     (if \<not> is_identifier (wh_EventID h) 128 False \<or> \<not> is_identifier (wh_DeliveryID h) 128 False \<or>
         \<not> is_identifier (wh_KeyID h) 64 False \<or> \<not> decimal (wh_Timestamp h) maxInt64 \<or>
         wh_SignatureVersion h \<noteq> WebhookSignatureVersion \<or> \<not> validWebhookHeaderValue (wh_Nonce h) \<or>
         wh_Signature h \<noteq> [] \<and> \<not> validWebhookHeaderValue (wh_Signature h) then Inl WebhookInvalidHeaders
      else case b64_decode False (wh_Nonce h) of
        None \<Rightarrow> Inl WebhookInvalidHeaders
      | Some nonceBytes \<Rightarrow>
          if length nonceBytes \<noteq> 16 \<or> b64_encode nonceBytes \<noteq> wh_Nonce h then Inl WebhookInvalidHeaders else Inr ())"

definition hasV1 :: "bytes \<Rightarrow> bool" where
  "hasV1 s \<longleftrightarrow> take 3 s = ''v1=''"

definition validateWebhookHeaders :: "WebhookHeaders \<Rightarrow> (WebhookCode, unit) result" where
  "validateWebhookHeaders h =
     bindR (validateWebhookSigningHeaders h) (\<lambda>_.
       if wh_Signature h = [] \<or> \<not> hasV1 (wh_Signature h) then Inl WebhookInvalidSignature else Inr ())"

definition validateWebhookSignatureEncoding :: "bytes \<Rightarrow> (WebhookCode, bytes) result" where
  "validateWebhookSignatureEncoding signature =
     (if \<not> hasV1 signature then Inl WebhookInvalidSignature
      else let encoded = drop 3 signature in
        case b64_decode True encoded of
          None \<Rightarrow> Inl WebhookInvalidSignature
        | Some decoded \<Rightarrow>
            if length decoded \<noteq> 32 \<or> b64_encode decoded \<noteq> encoded then Inl WebhookInvalidSignature else Inr decoded)"

section \<open>The envelope codec\<close>

definition DecodeWebhookEnvelope :: "bytes \<Rightarrow> (WebhookCode, WebhookEnvelope) result" where
  "DecodeWebhookEnvelope wire =
     bindR (validateWebhookBodySyntax wire) (\<lambda>_.
     case objectFields wire of
       Inl _ \<Rightarrow> Inl WebhookInvalidEnvelope
     | Inr fs \<Rightarrow>
     (case stringField fs ''eventId'' of
       Inl _ \<Rightarrow> Inl WebhookInvalidEnvelope
     | Inr eventID \<Rightarrow>
     if \<not> is_identifier eventID 128 False then Inl WebhookInvalidEnvelope else
     (case stringField fs ''eventType'' of
       Inl _ \<Rightarrow> Inl WebhookInvalidEnvelope
     | Inr eventType \<Rightarrow>
     if \<not> webhookEventType eventType then Inl WebhookInvalidEnvelope else
     (case stringField fs ''occurredAt'' of
       Inl _ \<Rightarrow> Inl WebhookInvalidEnvelope
     | Inr occurredAt \<Rightarrow>
     if \<not> decimal occurredAt maxInt64 then Inl WebhookInvalidEnvelope else
     let versionRaw = rawField fs ''schemaVersion'' in
     if field fs ''schemaVersion'' = None \<or> \<not> decimal versionRaw maxVersion \<or> versionRaw = ''0''
     then Inl WebhookInvalidEnvelope else
     let version = word_of_int (int (dec_val versionRaw)) in
     if version \<noteq> WebhookSchemaVersion then Inl WebhookUnsupportedSchema else
     let payload = rawField fs ''payload'' in
     if field fs ''payload'' = None \<or> \<not> json_valid payload then Inl WebhookInvalidEnvelope
     else if \<not> is_ok (objectFields payload) then Inl WebhookInvalidEnvelope
     else Inr \<lparr>we_EventID = eventID, we_EventType = eventType, we_OccurredAt = occurredAt,
               we_SchemaVersion = version, we_Payload = payload\<rparr>))))"

definition envelopeMembers :: "WebhookEnvelope \<Rightarrow> (bytes \<times> bytes) list" where
  "envelopeMembers e =
     [(''eventId'', quote_string True (we_EventID e)), (''eventType'', quote_string True (we_EventType e)),
      (''occurredAt'', quote_string True (we_OccurredAt e)),
      (''schemaVersion'', fmt_nat (unat (we_SchemaVersion e))), (''payload'', we_Payload e)]"

definition EncodeWebhookEnvelope :: "WebhookEnvelope \<Rightarrow> (WebhookCode, bytes) result" where
  "EncodeWebhookEnvelope e =
     (if WebhookMaxEnvelopeBytes < length (we_Payload e) then Inl WebhookEnvelopeTooLarge
      else
        bindR (quoteWebhookString (we_EventID e)) (\<lambda>_.
        bindR (quoteWebhookString (we_EventType e)) (\<lambda>_.
        bindR (quoteWebhookString (we_OccurredAt e)) (\<lambda>_.
        if we_SchemaVersion e \<noteq> WebhookSchemaVersion then Inl WebhookUnsupportedSchema
        else if length (we_Payload e) = 0 \<or> \<not> json_valid (we_Payload e) then Inl WebhookInvalidEnvelope
        else if unmarshal_fields (we_Payload e) = None then Inl WebhookInvalidEnvelope
        else
          let out = object_text (envelopeMembers e) in
          if WebhookMaxEnvelopeBytes < length out then Inl WebhookEnvelopeTooLarge
          else bindR (DecodeWebhookEnvelope out) (\<lambda>_. Inr out)))))"

section \<open>Headers\<close>

text \<open>
  \<^verbatim>\<open>strings.ToLower\<close> as far as a comparison with an ASCII constant can tell: ASCII letters, and the two other runes
  whose lower case is ASCII, the Kelvin sign and the capital I with dot.
\<close>

fun toLower :: "bytes \<Rightarrow> bytes" where
  "toLower [] = []"
| "toLower (c # cs) =
     (if is_upper c then char_of (code c + 32) # toLower cs
      else if c = CHR 0xE2 \<and> take 2 cs = [CHR 0x84, CHR 0xAA] then CHR ''k'' # toLower (drop 2 cs)
      else if c = CHR 0xC4 \<and> take 1 cs = [CHR 0xB0] then CHR ''i'' # toLower (drop 1 cs)
      else c # toLower cs)"

definition requiredHeaders :: "bytes list" where
  "requiredHeaders =
     [''x-newim-event-id'', ''x-newim-delivery-id'', ''x-newim-timestamp'', ''x-newim-nonce'', ''x-newim-key-id'',
      ''x-newim-signature-version'', ''x-newim-signature'']"

fun collectHeaders :: "(bytes \<times> bytes list) list \<Rightarrow> (bytes \<times> bytes) list \<Rightarrow> (WebhookCode, (bytes \<times> bytes) list) result" where
  "collectHeaders [] found = Inr found"
| "collectHeaders ((key, vals) # rest) found =
     (let k = toLower key in
      if k \<notin> set requiredHeaders then collectHeaders rest found
      else (case vals of
          [v] \<Rightarrow>
            if \<not> validWebhookHeaderValue v then Inl WebhookInvalidHeaders
            else if map_of found k \<noteq> None then Inl WebhookInvalidHeaders
            else collectHeaders rest ((k, v) # found)
        | _ \<Rightarrow> Inl WebhookInvalidHeaders))"

definition headerOf :: "(bytes \<times> bytes) list \<Rightarrow> bytes \<Rightarrow> bytes" where
  "headerOf found k = (case map_of found k of None \<Rightarrow> [] | Some v \<Rightarrow> v)"

definition ParseWebhookHeaders :: "(bytes \<times> bytes list) list \<Rightarrow> (WebhookCode, WebhookHeaders) result" where
  "ParseWebhookHeaders values =
     bindR (collectHeaders values []) (\<lambda>found.
       if \<not> list_all (\<lambda>k. map_of found k \<noteq> None) requiredHeaders then Inl WebhookInvalidHeaders
       else
         let h = \<lparr>wh_EventID = headerOf found ''x-newim-event-id'', wh_DeliveryID = headerOf found ''x-newim-delivery-id'',
                  wh_Timestamp = headerOf found ''x-newim-timestamp'', wh_Nonce = headerOf found ''x-newim-nonce'',
                  wh_KeyID = headerOf found ''x-newim-key-id'',
                  wh_SignatureVersion = headerOf found ''x-newim-signature-version'',
                  wh_Signature = headerOf found ''x-newim-signature''\<rparr> in
         bindR (validateWebhookHeaders h) (\<lambda>_.
         bindR (validateWebhookSignatureEncoding (wh_Signature h)) (\<lambda>_. Inr h)))"

section \<open>Signing and verifying\<close>

definition signingLines :: "WebhookHeaders \<Rightarrow> bytes \<Rightarrow> bytes list" where
  "signingLines h body =
     [WebhookSignatureVersion, wh_KeyID h, wh_DeliveryID h, wh_EventID h, wh_Timestamp h, wh_Nonce h,
      hex_encode (sha256 body)]"

definition CanonicalWebhookSigningBytes :: "WebhookHeaders \<Rightarrow> bytes \<Rightarrow> (WebhookCode, bytes) result" where
  "CanonicalWebhookSigningBytes h body =
     bindR (validateWebhookSigningHeaders h) (\<lambda>_.
       if WebhookMaxEnvelopeBytes < length body then Inl WebhookEnvelopeTooLarge
       else Inr (concat (map (\<lambda>part. part @ [CHR 0x0A]) (signingLines h body))))"

definition SignWebhook :: "bytes \<Rightarrow> WebhookHeaders \<Rightarrow> bytes \<Rightarrow> (WebhookCode, bytes) result" where
  "SignWebhook secret h body =
     (if length secret < WebhookMinSecretBytes then Inl WebhookInvalidHeaders
      else bindR (CanonicalWebhookSigningBytes h body) (\<lambda>signing.
        Inr (''v1='' @ b64_encode (hmac_sha256 secret signing))))"

text \<open>A replay guard: \<^verbatim>\<open>ReserveWebhookNonce\<close> on a state of its own.\<close>

type_synonym 'g reserve = "'g \<Rightarrow> bytes \<Rightarrow> bytes \<Rightarrow> instant \<Rightarrow> instant \<Rightarrow> (guardError, bool) result \<times> 'g"

definition checkWebhookSignature :: "bytes \<Rightarrow> WebhookHeaders \<Rightarrow> bytes \<Rightarrow> instant \<Rightarrow> (WebhookCode, instant) result" where
  "checkWebhookSignature secret h body now =
     (if length secret < WebhookMinSecretBytes then Inl WebhookInvalidSignature
      else
        bindR (validateWebhookHeaders h) (\<lambda>_.
        if wh_SignatureVersion h \<noteq> WebhookSignatureVersion \<or> \<not> hasV1 (wh_Signature h) then Inl WebhookInvalidSignature
        else
          bindR (validateWebhookSignatureEncoding (wh_Signature h)) (\<lambda>provided.
          bindR (CanonicalWebhookSigningBytes h body) (\<lambda>signing.
          if provided \<noteq> hmac_sha256 secret signing then Inl WebhookInvalidSignature
          else
            bindR (DecodeWebhookEnvelope body) (\<lambda>envelope.
            if wh_EventID h \<noteq> we_EventID envelope then Inl WebhookIdentityMismatch
            else (case ParseInt64 (wh_Timestamp h) of
                None \<Rightarrow> Inl WebhookInvalidHeaders
              | Some timestamp \<Rightarrow>
                  if timestamp < 0 then Inl WebhookInvalidHeaders
                  else
                    let lower = wrap64 (UnixMilli now - WebhookTimestampWindow div millisecond);
                        upper = wrap64 (UnixMilli now + WebhookTimestampWindow div millisecond) in
                    if timestamp < lower \<or> upper < timestamp then Inl WebhookTimestampMismatch
                    else Inr (timeOfMilli timestamp + (WebhookTimestampWindow + millisecond))))))))"

definition VerifyWebhookSignature ::
  "goContext \<Rightarrow> bytes \<Rightarrow> WebhookHeaders \<Rightarrow> bytes \<Rightarrow> instant \<Rightarrow> 'g reserve option \<Rightarrow> 'g \<Rightarrow> (WebhookCode, unit) result \<times> 'g" where
  "VerifyWebhookSignature ctx secret h body now replay g =
     (case (ctx, replay) of
        (Some _, Some reserve) \<Rightarrow>
          if now = zeroTime then (Inl WebhookReplayUnavailable, g)
          else (case checkWebhookSignature secret h body now of
              Inl e \<Rightarrow> (Inl e, g)
            | Inr expiresAt \<Rightarrow>
                (case reserve g (wh_KeyID h) (wh_Nonce h) now expiresAt of
                   (Inl err, g') \<Rightarrow>
                     (case WebhookErrorCode (Some err) of
                        Some c \<Rightarrow> (Inl c, g')
                      | None \<Rightarrow> (Inl WebhookReplayUnavailable, g'))
                 | (Inr accepted, g') \<Rightarrow> if \<not> accepted then (Inl WebhookReplayDetected, g') else (Inr (), g')))
      | _ \<Rightarrow> (Inl WebhookReplayUnavailable, g))"

definition VerifyWebhookRequest ::
  "goContext \<Rightarrow> WebhookHeaders \<Rightarrow> bytes \<Rightarrow> instant \<Rightarrow> 'g reserve option \<Rightarrow>
   (bytes \<Rightarrow> (guardError, bytes) result) option \<Rightarrow> 'g \<Rightarrow> (WebhookCode, unit) result \<times> 'g" where
  "VerifyWebhookRequest ctx h body now replay resolver g =
     (case (ctx, replay, resolver) of
        (Some _, Some _, Some resolve) \<Rightarrow>
          if now = zeroTime then (Inl WebhookReplayUnavailable, g)
          else (case bindR (validateWebhookHeaders h) (\<lambda>_.
                     bindR (validateWebhookBodySyntax body) (\<lambda>_.
                     bindR (validateWebhookSignatureEncoding (wh_Signature h)) (\<lambda>_. Inr ()))) of
              Inl e \<Rightarrow> (Inl e, g)
            | Inr _ \<Rightarrow>
                (case resolve (wh_KeyID h) of
                   Inl err \<Rightarrow>
                     (case WebhookErrorCode (Some err) of
                        Some c \<Rightarrow> (Inl c, g)
                      | None \<Rightarrow> (Inl WebhookKeyUnavailable, g))
                 | Inr secret \<Rightarrow> VerifyWebhookSignature ctx secret h body now replay g))
      | _ \<Rightarrow> (Inl WebhookReplayUnavailable, g))"

section \<open>The memory guard\<close>

record MemoryWebhookReplayGuard =
  rg_limit :: int
  rg_entries :: "(bytes \<times> instant) list"

definition NewMemoryWebhookReplayGuard :: "int \<Rightarrow> (WebhookCode, MemoryWebhookReplayGuard) result" where
  "NewMemoryWebhookReplayGuard limit =
     (if limit \<le> 0 \<or> 1000000 < limit then Inl WebhookInvalidHeaders else Inr \<lparr>rg_limit = limit, rg_entries = []\<rparr>)"

definition nonceKey :: "bytes \<Rightarrow> bytes \<Rightarrow> bytes" where
  "nonceKey keyID nonce = keyID @ [CHR 0x0A] @ nonce"

definition purge :: "instant \<Rightarrow> (bytes \<times> instant) list \<Rightarrow> (bytes \<times> instant) list" where
  "purge now = filter (\<lambda>(k, expiry). \<not> expiry < now)"

text \<open>Under the mutex, so one step; a nil guard is not modelled, a done context is.\<close>

definition ReserveWebhookNonce :: "goContext \<Rightarrow> MemoryWebhookReplayGuard reserve" where
  "ReserveWebhookNonce ctx g keyID nonce now expiresAt =
     (if ctx = None \<or> ctx = Some True then (Inl (WebhookErr WebhookReplayUnavailable), g)
      else
        let entries = purge now (rg_entries g); g' = g\<lparr>rg_entries := entries\<rparr>; key = nonceKey keyID nonce in
        (case map_of entries key of
           Some expiry \<Rightarrow>
             if \<not> expiry < now then (Inr False, g')
             else if expiresAt < now then (Inl (WebhookErr WebhookReplayUnavailable), g')
             else if rg_limit g \<le> int (length entries) then (Inl (WebhookErr WebhookCapacityExceeded), g')
             else (Inr True, g'\<lparr>rg_entries := AList.update key expiresAt entries\<rparr>)
         | None \<Rightarrow>
             if expiresAt < now then (Inl (WebhookErr WebhookReplayUnavailable), g')
             else if rg_limit g \<le> int (length entries) then (Inl (WebhookErr WebhookCapacityExceeded), g')
             else (Inr True, g'\<lparr>rg_entries := AList.update key expiresAt entries\<rparr>)))"

end
