(* ===== verification/WebhookFacts.thy ===== *)
theory WebhookFacts
  imports WebhookProtocol
begin

text \<open>
  What the signed webhook protocol guarantees: envelopes round trip, a request verifies exactly when its signature is the
  one the signer produces for it, the signed text determines every header and the body digest, and the memory guard
  accepts a signed request at most once.
\<close>

section \<open>The envelope round trip\<close>

lemma header_ascii: "validWebhookHeaderValue s \<Longrightarrow> list_all (\<lambda>c. code c < 128) s"
  by (auto simp: validWebhookHeaderValue_def header_byte_def list_all_iff split: if_splits)

lemma header_coerce: "validWebhookHeaderValue s \<Longrightarrow> coerce_utf8 s = s"
  by (intro coerce_ascii_id header_ascii)

lemma decode_envelope_fields:
  assumes "DecodeWebhookEnvelope w = Inr e" "unmarshal_fields w = Some fs"
  shows "stringField fs ''eventId'' = Inr (we_EventID e)" "stringField fs ''eventType'' = Inr (we_EventType e)"
    "stringField fs ''occurredAt'' = Inr (we_OccurredAt e)" "we_SchemaVersion e = 1"
    "we_Payload e = rawField fs ''payload''"
  using assms
  by (auto simp: DecodeWebhookEnvelope_def objectFields_def Let_def WebhookSchemaVersion_def bindR_eq_Inr
      split: sum.splits option.splits if_splits)

lemma envelopeMembers_ok: "json_valid (we_Payload e) \<Longrightarrow> list_all text_ok (envelopeMembers e)"
  by (simp add: envelopeMembers_def key_simps)

lemma EncodeEnvelope_Decode:
  assumes "EncodeWebhookEnvelope e = Inr w"
  shows "DecodeWebhookEnvelope w = Inr (e\<lparr>we_Payload := value_text (we_Payload e)\<rparr>)"
proof -
  have e: "w = object_text (envelopeMembers e)" "json_valid (we_Payload e)" "we_SchemaVersion e = 1"
    "validWebhookHeaderValue (we_EventID e)" "validWebhookHeaderValue (we_EventType e)"
    "validWebhookHeaderValue (we_OccurredAt e)" "is_ok (DecodeWebhookEnvelope w)"
    using assms by (auto simp: EncodeWebhookEnvelope_def quoteWebhookString_def WebhookSchemaVersion_def Let_def
        bindR_eq_Inr is_ok_iff split: if_splits)
  then obtain e' where d: "DecodeWebhookEnvelope w = Inr e'" by (auto simp: is_ok_iff)
  then obtain fs where fs: "unmarshal_fields w = Some fs"
    by (auto simp: DecodeWebhookEnvelope_def objectFields_def bindR_eq_Inr split: option.splits)
  have fs': "fs = map (\<lambda>(k, raw). (k, value_text raw)) (envelopeMembers e)"
    using object_text_fields [OF fs [unfolded e(1)] envelopeMembers_ok [OF e(2)]] by (simp add: envelopeMembers_def)
  have look: "field fs ''eventId'' = Some (quote_string True (we_EventID e))"
    "field fs ''eventType'' = Some (quote_string True (we_EventType e))"
    "field fs ''occurredAt'' = Some (quote_string True (we_OccurredAt e))"
    "rawField fs ''payload'' = value_text (we_Payload e)"
    by (simp_all add: fs' envelopeMembers_def rawField_def)
  note f = decode_envelope_fields [OF d fs]
  have "e' = e\<lparr>we_Payload := value_text (we_Payload e)\<rparr>"
    using f look e(3) header_coerce [OF e(4)] header_coerce [OF e(5)] header_coerce [OF e(6)]
    by (intro WebhookEnvelope.equality) (simp_all add: stringField_quoted)
  then show ?thesis using d by simp
qed

interpretation webhook_codec: codec EncodeWebhookEnvelope DecodeWebhookEnvelope
  "\<lambda>e. e\<lparr>we_Payload := value_text (we_Payload e)\<rparr>"
  by unfold_locales (rule EncodeEnvelope_Decode)

section \<open>Signatures\<close>

lemma ParseInt64_decimal:
  assumes "decimal s maxInt64"
  shows "ParseInt64 s = Some (int (dec_val s))"
proof -
  have c: "canonical_dec maxInt64" by code_simp
  have v: "dec_val maxInt64 = 9223372036854775807" by (simp add: maxInt64_def dec_val_def digit_val_def)
  have s: "canonical_dec s" "dec_val s \<le> 9223372036854775807"
    using decimal_iff_le [OF c, of s] assms v by auto
  then obtain d t where t: "s = d # t" "is_digit d" "all_digits t" by (cases s) (auto simp: canonical_dec_def)
  then have "d \<noteq> CHR ''-''" "d \<noteq> CHR ''+''" by (auto simp: is_digit_code)
  then show ?thesis using t s(2) by (simp add: ParseInt64_def int64_def)
qed

definition inWindow :: "int \<Rightarrow> instant \<Rightarrow> bool" where
  "inWindow ts now \<longleftrightarrow> wrap64 (UnixMilli now - 300000) \<le> ts \<and> ts \<le> wrap64 (UnixMilli now + 300000)"

definition nonceExpiry :: "WebhookHeaders \<Rightarrow> instant" where
  "nonceExpiry h = timeOfMilli (int (dec_val (wh_Timestamp h))) + (WebhookTimestampWindow + millisecond)"

lemma signature_decodes:
  assumes "length mac = 32"
  shows "hasV1 (''v1='' @ b64_encode mac)" "validateWebhookSignatureEncoding (''v1='' @ b64_encode mac) = Inr mac"
  using assms by (simp_all add: hasV1_def validateWebhookSignatureEncoding_def)

lemma signature_encodes:
  assumes "validateWebhookSignatureEncoding s = Inr mac"
  shows "s = ''v1='' @ b64_encode mac \<and> length mac = 32"
proof -
  have "take 3 s = ''v1=''" "drop 3 s = b64_encode mac" "length mac = 32"
    using assms by (auto simp: validateWebhookSignatureEncoding_def hasV1_def Let_def split: if_splits option.splits)
  then show ?thesis using append_take_drop_id [of 3 s] by argo
qed

lemma check_iff:
  "checkWebhookSignature secret h body now = Inr e \<longleftrightarrow>
     SignWebhook secret h body = Inr (wh_Signature h) \<and>
     (\<exists>env. DecodeWebhookEnvelope body = Inr env \<and> we_EventID env = wh_EventID h) \<and>
     inWindow (int (dec_val (wh_Timestamp h))) now \<and> e = nonceExpiry h" (is "?L \<longleftrightarrow> ?R")
proof
  assume l: ?L
  then obtain mac signing env where c: "WebhookMinSecretBytes \<le> length secret"
    "validateWebhookHeaders h = Inr ()" "validateWebhookSignatureEncoding (wh_Signature h) = Inr mac"
    "CanonicalWebhookSigningBytes h body = Inr signing" "mac = hmac_sha256 secret signing"
    "DecodeWebhookEnvelope body = Inr env" "we_EventID env = wh_EventID h"
    by (auto simp: checkWebhookSignature_def bindR_eq_Inr split: if_splits)
  have d: "decimal (wh_Timestamp h) maxInt64"
    using c(2) by (auto simp: validateWebhookHeaders_def validateWebhookSigningHeaders_def bindR_eq_Inr split: if_splits)
  have "inWindow (int (dec_val (wh_Timestamp h))) now \<and> e = nonceExpiry h"
    using l ParseInt64_decimal [OF d]
    by (auto simp: checkWebhookSignature_def bindR_eq_Inr Let_def inWindow_def nonceExpiry_def
        WebhookTimestampWindow_def minute_def millisecond_def split: if_splits)
  moreover have "SignWebhook secret h body = Inr (wh_Signature h)"
    using c signature_encodes [OF c(3)] by (simp add: SignWebhook_def)
  ultimately show ?R using c by blast
next
  assume r: ?R
  then obtain signing where s: "WebhookMinSecretBytes \<le> length secret"
    "CanonicalWebhookSigningBytes h body = Inr signing" "wh_Signature h = ''v1='' @ b64_encode (hmac_sha256 secret signing)"
    by (auto simp: SignWebhook_def bindR_eq_Inr split: if_splits)
  have sh: "validateWebhookSigningHeaders h = Inr ()" using s(2) by (auto simp: CanonicalWebhookSigningBytes_def bindR_eq_Inr)
  have d: "decimal (wh_Timestamp h) maxInt64" "wh_SignatureVersion h = WebhookSignatureVersion"
    using sh by (auto simp: validateWebhookSigningHeaders_def split: if_splits)
  have "validateWebhookHeaders h = Inr ()" using sh s(3) by (simp add: validateWebhookHeaders_def hasV1_def)
  then show ?L
    using r s d ParseInt64_decimal [OF d(1)] signature_decodes [of "hmac_sha256 secret signing"]
    by (auto simp: checkWebhookSignature_def Let_def inWindow_def nonceExpiry_def WebhookTimestampWindow_def
        minute_def millisecond_def not_less)
qed

section \<open>The signed text determines what was signed\<close>

definition lines_text :: "bytes list \<Rightarrow> bytes" where
  "lines_text parts = concat (map (\<lambda>part. part @ [CHR 0x0A]) parts)"

lemma append_newline_inj:
  assumes "CHR 0x0A \<notin> set a" "CHR 0x0A \<notin> set b" "a @ CHR 0x0A # s = b @ CHR 0x0A # t"
  shows "a = b \<and> s = t"
  using assms
proof (induction a arbitrary: b)
  case Nil
  then show ?case by (cases b) auto
next
  case (Cons x a)
  then show ?case by (cases b) auto
qed

lemma lines_text_inj:
  "\<forall>p\<in>set ps. CHR 0x0A \<notin> set p \<Longrightarrow> \<forall>q\<in>set qs. CHR 0x0A \<notin> set q \<Longrightarrow> length ps = length qs \<Longrightarrow>
   lines_text ps = lines_text qs \<Longrightarrow> ps = qs"
proof (induction ps arbitrary: qs)
  case (Cons p ps)
  then obtain q rs where qs: "qs = q # rs" by (cases qs) auto
  have "p @ CHR 0x0A # lines_text ps = q @ CHR 0x0A # lines_text rs"
    using Cons.prems(4) qs by (simp add: lines_text_def)
  then have "p = q \<and> lines_text ps = lines_text rs"
    using append_newline_inj [of p q "lines_text ps" "lines_text rs"] Cons.prems(1,2) qs by simp
  then show ?case using Cons.IH [of rs] Cons.prems qs by auto
qed simp

lemma ident_no_newline: "list_all ident_byte s \<Longrightarrow> CHR 0x0A \<notin> set s"
  using ident_not_newline by (auto simp: list_all_iff)

lemma hex_digit_newline: "d < 16 \<Longrightarrow> hex_digit d \<noteq> CHR 0x0A"
  using hex_digit_facts(1) [of d] by (auto simp: is_hex_def is_digit_code less_eq_char_def)

lemma hex_no_newline: "CHR 0x0A \<notin> set (hex_encode s)"
proof (induction s)
  case (Cons c s)
  have "code c div 16 < 16" using code_less [of c] by (simp add: less_mult_imp_div_less)
  then have "hex_digit (code c div 16) \<noteq> CHR 0x0A" "hex_digit (code c mod 16) \<noteq> CHR 0x0A"
    using hex_digit_newline by simp_all
  then show ?case using Cons by simp
qed simp

lemma header_no_newline: "validWebhookHeaderValue s \<Longrightarrow> CHR 0x0A \<notin> set s"
  by (auto simp: validWebhookHeaderValue_def header_byte_def list_all_iff split: if_splits)

lemma signingLines_clean:
  assumes "validateWebhookSigningHeaders h = Inr ()"
  shows "\<forall>p\<in>set (signingLines h body). CHR 0x0A \<notin> set p"
proof -
  have "list_all ident_byte (wh_EventID h)" "list_all ident_byte (wh_DeliveryID h)" "list_all ident_byte (wh_KeyID h)"
    "list_all ident_byte (wh_Timestamp h)" "validWebhookHeaderValue (wh_Nonce h)"
    using assms decimal_ident identifier_ident
    by (auto simp: validateWebhookSigningHeaders_def ident128_def simp del: identifier_128 split: if_splits)
  then show ?thesis
    using ident_no_newline hex_no_newline header_no_newline by (auto simp: signingLines_def WebhookSignatureVersion_def)
qed

lemma signing_text_inj:
  assumes "CanonicalWebhookSigningBytes h body = Inr t" "CanonicalWebhookSigningBytes h' body' = Inr t"
  shows "wh_KeyID h = wh_KeyID h' \<and> wh_DeliveryID h = wh_DeliveryID h' \<and> wh_EventID h = wh_EventID h' \<and>
    wh_Timestamp h = wh_Timestamp h' \<and> wh_Nonce h = wh_Nonce h' \<and> sha256 body = sha256 body'"
proof -
  have v: "validateWebhookSigningHeaders h = Inr ()" "validateWebhookSigningHeaders h' = Inr ()"
    "lines_text (signingLines h body) = lines_text (signingLines h' body')"
    using assms by (auto simp: CanonicalWebhookSigningBytes_def lines_text_def bindR_eq_Inr split: if_splits)
  have "signingLines h body = signingLines h' body'"
    using lines_text_inj [OF signingLines_clean [OF v(1)] signingLines_clean [OF v(2)] _ v(3)]
    by (simp add: signingLines_def)
  then show ?thesis using hex_encode_inj by (auto simp: signingLines_def)
qed

section \<open>The memory guard\<close>

definition guard_ok :: "MemoryWebhookReplayGuard \<Rightarrow> bool" where
  "guard_ok g \<longleftrightarrow> distinct (map fst (rg_entries g)) \<and> int (length (rg_entries g)) \<le> rg_limit g"

lemma update_new: "map_of al k = None \<Longrightarrow> AList.update k v al = al @ [(k, v)]"
  by (induction al) (auto split: if_splits)

lemma purge_length: "length (purge now es) \<le> length es"
  by (simp add: purge_def)

lemma purge_distinct: "distinct (map fst es) \<Longrightarrow> distinct (map fst (purge now es))"
  by (simp add: purge_def distinct_map_filter)

lemma purge_live: "map_of (purge now es) k = Some e \<Longrightarrow> \<not> e < now"
  by (auto simp: purge_def dest: map_of_SomeD)

lemma purge_keep: "map_of es k = Some e \<Longrightarrow> \<not> e < now \<Longrightarrow> map_of (purge now es) k = Some e"
  by (induction es) (auto simp: purge_def split: if_splits)

lemma Reserve_cases:
  assumes "ReserveWebhookNonce ctx g k n now exp = (r, g')"
  obtains (unavailable) "r = Inl (WebhookErr WebhookReplayUnavailable)" "g' = g"
  | (known) "map_of (purge now (rg_entries g)) (nonceKey k n) \<noteq> None" "r = Inr False"
      "g' = g\<lparr>rg_entries := purge now (rg_entries g)\<rparr>"
  | (refused) "r \<noteq> Inr True" "g' = g\<lparr>rg_entries := purge now (rg_entries g)\<rparr>"
      "map_of (purge now (rg_entries g)) (nonceKey k n) = None"
  | (accepted) "map_of (purge now (rg_entries g)) (nonceKey k n) = None" "r = Inr True" "\<not> exp < now"
      "int (length (purge now (rg_entries g))) < rg_limit g"
      "g' = g\<lparr>rg_entries := purge now (rg_entries g) @ [(nonceKey k n, exp)]\<rparr>"
proof (cases "ctx = None \<or> ctx = Some True")
  case True
  then show ?thesis using assms unavailable by (auto simp: ReserveWebhookNonce_def)
next
  case False
  show ?thesis
  proof (cases "map_of (purge now (rg_entries g)) (nonceKey k n)")
    case None
    then show ?thesis
      using assms False refused accepted update_new [OF None]
      by (auto simp: ReserveWebhookNonce_def Let_def split: if_splits)
  next
    case (Some e)
    then show ?thesis
      using assms False known purge_live [OF Some] by (auto simp: ReserveWebhookNonce_def Let_def)
  qed
qed

lemma guard_ok_reserve:
  assumes "guard_ok g" "ReserveWebhookNonce ctx g k n now exp = (r, g')"
  shows "guard_ok g' \<and> rg_limit g' = rg_limit g"
  using assms(2)
proof (cases rule: Reserve_cases)
  case accepted
  then have "nonceKey k n \<notin> fst ` set (purge now (rg_entries g))" by (simp add: map_of_eq_None_iff)
  then show ?thesis
    using accepted assms(1) purge_distinct [of "rg_entries g" now] by (auto simp: guard_ok_def)
qed (use assms(1) purge_distinct [of "rg_entries g" now] purge_length [of now "rg_entries g"] in \<open>auto simp: guard_ok_def\<close>)

lemma reserve_keeps:
  assumes "ReserveWebhookNonce ctx g k n now exp = (r, g')" "map_of (rg_entries g) key = Some e" "now \<le> e"
  shows "map_of (rg_entries g') key = Some e"
  using assms(1) purge_keep [OF assms(2), of now] assms(3)
  by (cases rule: Reserve_cases) (auto simp: assms(2) map_add_Some_iff)

section \<open>Replay guards\<close>

text \<open>
  Every later state of a guard: any calls by anyone, for any key and nonce and with any expiry, with a clock that does
  not run backwards.
\<close>

inductive later :: "(goContext \<Rightarrow> 'g reserve) \<Rightarrow> 'g \<times> instant \<Rightarrow> 'g \<times> instant \<Rightarrow> bool" for R where
  same: "later R s s"
| call: "later R s (g, t) \<Longrightarrow> t \<le> now \<Longrightarrow> R ctx g k n now exp = (r, g') \<Longrightarrow> later R s (g', now)"

inductive_cases later_callE: "later R s (g', now)"

lemma check_expiry:
  assumes "checkWebhookSignature secret h body now = Inr e" "int64 (now div millisecond - 300000)" "int64 (now div millisecond)"
  shows "now \<le> nonceExpiry h \<and> e = nonceExpiry h"
proof -
  have w: "inWindow (int (dec_val (wh_Timestamp h))) now" "e = nonceExpiry h" using assms(1) by (simp_all add: check_iff)
  then have "now div millisecond - 300000 \<le> int (dec_val (wh_Timestamp h))"
    using assms(2,3) by (simp add: inWindow_def UnixMilli_def wrap64_id)
  then show ?thesis
    using w(2) by (simp add: nonceExpiry_def timeOfMilli_def WebhookTimestampWindow_def minute_def millisecond_def)
qed

lemma Verify_accepts:
  "VerifyWebhookSignature ctx secret h body now (Some reserve) g = (Inr (), g') \<longleftrightarrow>
     ctx \<noteq> None \<and> now \<noteq> zeroTime \<and> checkWebhookSignature secret h body now = Inr (nonceExpiry h) \<and>
     reserve g (wh_KeyID h) (wh_Nonce h) now (nonceExpiry h) = (Inr True, g')"
proof (cases "checkWebhookSignature secret h body now")
  case (Inr e)
  moreover from this have "e = nonceExpiry h" by (simp add: check_iff)
  ultimately show ?thesis
    by (auto simp: VerifyWebhookSignature_def WebhookErrorCode_def split: option.splits prod.splits sum.splits guardError.splits)
qed (auto simp: VerifyWebhookSignature_def split: option.splits)

text \<open>
  What a guard must promise, with \<open>held g k n e\<close> for a reservation that lasts until \<open>e\<close>, and what the verifier gains:
  no request is accepted twice.
\<close>

locale replay_guard =
  fixes reserve :: "goContext \<Rightarrow> 'g reserve"
    and held :: "'g \<Rightarrow> bytes \<Rightarrow> bytes \<Rightarrow> instant \<Rightarrow> bool"
  assumes accepted_held: "reserve ctx g k n now e = (Inr True, g') \<Longrightarrow> held g' k n e"
    and held_kept: "reserve ctx g k' n' now e' = (r, g') \<Longrightarrow> held g k n e \<Longrightarrow> now \<le> e \<Longrightarrow> held g' k n e"
    and held_refused: "reserve ctx g k n now e' = (r, g') \<Longrightarrow> held g k n e \<Longrightarrow> now \<le> e \<Longrightarrow> r \<noteq> Inr True"
begin

lemma later_held:
  assumes "later reserve (g, t) (g', t')" "held g k n e" "t' \<le> e"
  shows "held g' k n e"
  using assms
proof (induction "(g, t)" "(g', t')" arbitrary: g' t' rule: later.induct)
  case (call g1 t1 now ctx k' n' exp r g')
  then have "held g1 k n e" by auto
  then show ?case using held_kept [OF call(4)] call.prems by blast
qed simp

lemma accepted_once:
  assumes "VerifyWebhookSignature ctx secret h body now (Some (reserve ctx)) g = (Inr (), g1)"
    "later reserve (g1, now) (g2, t)" "t \<le> now2" "int64 (now2 div millisecond - 300000)" "int64 (now2 div millisecond)"
    "wh_KeyID h' = wh_KeyID h" "wh_Nonce h' = wh_Nonce h" "wh_Timestamp h' = wh_Timestamp h"
  shows "VerifyWebhookSignature ctx' secret' h' body' now2 (Some (reserve ctx')) g2 \<noteq> (Inr (), g3)"
proof
  assume "VerifyWebhookSignature ctx' secret' h' body' now2 (Some (reserve ctx')) g2 = (Inr (), g3)"
  then have c: "checkWebhookSignature secret' h' body' now2 = Inr (nonceExpiry h')"
    "reserve ctx' g2 (wh_KeyID h') (wh_Nonce h') now2 (nonceExpiry h') = (Inr True, g3)"
    by (simp_all add: Verify_accepts)
  have e: "nonceExpiry h' = nonceExpiry h" using assms(8) by (simp add: nonceExpiry_def)
  have n: "now2 \<le> nonceExpiry h" using check_expiry [OF c(1) assms(4,5)] e by simp
  have "held g1 (wh_KeyID h) (wh_Nonce h) (nonceExpiry h)"
    using assms(1) accepted_held by (auto simp: Verify_accepts)
  then have "held g2 (wh_KeyID h) (wh_Nonce h) (nonceExpiry h)"
    using later_held [OF assms(2)] assms(3) n by auto
  then show False using held_refused [OF c(2)] assms(6,7) n by auto
qed

end

interpretation memory_guard: replay_guard ReserveWebhookNonce
  "\<lambda>g k n e. map_of (rg_entries g) (nonceKey k n) = Some e"
proof
  fix ctx g k n now e g'
  assume "ReserveWebhookNonce ctx g k n now e = (Inr True, g')"
  then show "map_of (rg_entries g') (nonceKey k n) = Some e"
    by (cases rule: Reserve_cases) (auto simp: map_add_Some_iff)
next
  fix ctx g k' n' now e' r g' k n e
  assume "ReserveWebhookNonce ctx g k' n' now e' = (r, g')" "map_of (rg_entries g) (nonceKey k n) = Some e" "now \<le> e"
  then show "map_of (rg_entries g') (nonceKey k n) = Some e" by (rule reserve_keeps)
next
  fix ctx g k n now e' r g' e
  assume a: "ReserveWebhookNonce ctx g k n now e' = (r, g')" "map_of (rg_entries g) (nonceKey k n) = Some e" "now \<le> e"
  then show "r \<noteq> Inr True"
    using purge_keep [OF a(2), of now] by (cases rule: Reserve_cases) auto
qed

lemma later_ok: "later ReserveWebhookNonce (g, t) (g', t') \<Longrightarrow> guard_ok g \<Longrightarrow> guard_ok g' \<and> rg_limit g' = rg_limit g"
  by (induction "(g, t)" "(g', t')" arbitrary: g' t' rule: later.induct) (use guard_ok_reserve in fastforce)+

section \<open>Signing produces verifiable headers\<close>

lemma signature_header: "validWebhookHeaderValue (''v1='' @ b64_encode (hmac_sha256 secret t))"
proof -
  have "header_byte c" if "ident_byte c" for c
    using ident_plain [OF that] that
    by (auto simp: header_byte_def plain_byte_def ident_byte_def is_lower_code is_upper_code is_digit_code)
  then have "list_all header_byte (b64_encode (hmac_sha256 secret t))"
    using b64_encode_ident by (auto simp: list_all_iff)
  then show ?thesis
    by (simp add: validWebhookHeaderValue_def WebhookMaxHeaderBytes_def b64_encode_length header_byte_def)
qed

lemma sign_verifies:
  assumes "SignWebhook secret h body = Inr sig" "wh_Signature h = []"
  shows "SignWebhook secret (h\<lparr>wh_Signature := sig\<rparr>) body = Inr sig"
proof -
  obtain t where t: "CanonicalWebhookSigningBytes h body = Inr t" "sig = ''v1='' @ b64_encode (hmac_sha256 secret t)"
    "WebhookMinSecretBytes \<le> length secret"
    using assms(1) by (auto simp: SignWebhook_def bindR_eq_Inr split: if_splits)
  have "CanonicalWebhookSigningBytes (h\<lparr>wh_Signature := sig\<rparr>) body = Inr t"
    using t(1) assms(2) signature_header [of secret t] t(2)
    by (auto simp: CanonicalWebhookSigningBytes_def validateWebhookSigningHeaders_def signingLines_def bindR_eq_Inr
        split: if_splits option.splits)
  then show ?thesis using t by (simp add: SignWebhook_def)
qed

section \<open>Properties\<close>

definition sampleEnvelope :: WebhookEnvelope where
  "sampleEnvelope = \<lparr>we_EventID = ''e1'', we_EventType = ''message.persisted'', we_OccurredAt = ''7'', we_SchemaVersion = 1,
     we_Payload = ''{}''\<rparr>"

definition sampleBody :: bytes where
  "sampleBody = object_text (envelopeMembers sampleEnvelope)"

definition sampleUnsigned :: WebhookHeaders where
  "sampleUnsigned = \<lparr>wh_EventID = ''e1'', wh_DeliveryID = ''d1'', wh_Timestamp = ''1000000'',
     wh_Nonce = b64_encode (replicate 16 (CHR ''n'')), wh_KeyID = ''k1'', wh_SignatureVersion = ''1'', wh_Signature = []\<rparr>"

definition sampleSecret :: bytes where
  "sampleSecret = replicate 32 (CHR ''s'')"

definition sampleSignature :: bytes where
  "sampleSignature = (case SignWebhook sampleSecret sampleUnsigned sampleBody of Inl _ \<Rightarrow> [] | Inr s \<Rightarrow> s)"

definition sampleHeaders :: WebhookHeaders where
  "sampleHeaders = sampleUnsigned\<lparr>wh_Signature := sampleSignature\<rparr>"

definition sampleNow :: instant where "sampleNow = 1000000 * millisecond"

definition sampleGuard :: MemoryWebhookReplayGuard where
  "sampleGuard = \<lparr>rg_limit = 10, rg_entries = []\<rparr>"

lemma sampleEnvelope_encodes: "EncodeWebhookEnvelope sampleEnvelope = Inr sampleBody"
  by code_simp

lemma sampleEnvelope_decodes: "DecodeWebhookEnvelope sampleBody = Inr sampleEnvelope"
  by code_simp

lemma sampleHeaders_valid: "validateWebhookSigningHeaders sampleUnsigned = Inr ()"
  by code_simp

lemma sampleBody_length: "\<not> WebhookMaxEnvelopeBytes < length sampleBody"
  by code_simp

lemma sampleSigned: "SignWebhook sampleSecret sampleUnsigned sampleBody = Inr sampleSignature"
  using sampleHeaders_valid sampleBody_length
  by (simp add: sampleSignature_def SignWebhook_def CanonicalWebhookSigningBytes_def sampleSecret_def WebhookMinSecretBytes_def)

lemma sampleCheck: "checkWebhookSignature sampleSecret sampleHeaders sampleBody sampleNow = Inr (nonceExpiry sampleHeaders)"
proof -
  have "SignWebhook sampleSecret sampleHeaders sampleBody = Inr (wh_Signature sampleHeaders)"
    using sign_verifies [OF sampleSigned] by (simp add: sampleHeaders_def sampleUnsigned_def)
  moreover have "int (dec_val ''1000000'') = 1000000" by code_simp
  ultimately show ?thesis
    using sampleEnvelope_decodes
    by (simp add: check_iff sampleHeaders_def sampleUnsigned_def sampleEnvelope_def inWindow_def sampleNow_def UnixMilli_def
        millisecond_def wrap64_def)
qed

lemma sampleExpiry: "nonceExpiry sampleHeaders = 1300001000000"
proof -
  have "int (dec_val ''1000000'') = 1000000" by code_simp
  then show ?thesis
    by (simp add: nonceExpiry_def timeOfMilli_def sampleHeaders_def sampleUnsigned_def WebhookTimestampWindow_def minute_def
        millisecond_def)
qed

lemma sampleAccepted:
  "\<exists>g. VerifyWebhookSignature (Some False) sampleSecret sampleHeaders sampleBody sampleNow
     (Some (ReserveWebhookNonce (Some False))) sampleGuard = (Inr (), g)"
  using sampleCheck unfolding Verify_accepts
  by (simp add: sampleExpiry ReserveWebhookNonce_def sampleGuard_def purge_def sampleNow_def zeroTime_def millisecond_def)

text \<open>
  Webhook envelope round trip: what \<^verbatim>\<open>EncodeWebhookEnvelope\<close> emits decodes to the envelope it was given, the payload
  being the same JSON value without surrounding white space.
\<close>

theorem webhook_envelope_roundtrip:
  assumes "EncodeWebhookEnvelope e = Inr w"
  shows "DecodeWebhookEnvelope w = Inr (e\<lparr>we_Payload := value_text (we_Payload e)\<rparr>)"
  using assms by (rule EncodeEnvelope_Decode)

theorem webhook_envelope_roundtrip_witness:
  "EncodeWebhookEnvelope sampleEnvelope = Inr sampleBody \<and>
   DecodeWebhookEnvelope sampleBody = Inr (sampleEnvelope\<lparr>we_Payload := value_text ''{}''\<rparr>)"
  using webhook_envelope_roundtrip [OF sampleEnvelope_encodes] sampleEnvelope_encodes by (simp add: sampleEnvelope_def)

text \<open>
  Signature verification is exact: with a guard and a clock, \<^verbatim>\<open>VerifyWebhookSignature\<close> accepts a request exactly when
  its signature is the one \<^verbatim>\<open>SignWebhook\<close> produces for these headers and this body under the secret, the body is an
  envelope with the header's event id, the timestamp is within five minutes of the clock, and the guard newly reserves the
  nonce until one millisecond after the window.
\<close>

theorem verify_iff_signed:
  "VerifyWebhookSignature (Some c) secret h body now (Some reserve) g = (Inr (), g') \<longleftrightarrow>
     now \<noteq> zeroTime \<and> SignWebhook secret h body = Inr (wh_Signature h) \<and>
     (\<exists>env. DecodeWebhookEnvelope body = Inr env \<and> we_EventID env = wh_EventID h) \<and>
     inWindow (int (dec_val (wh_Timestamp h))) now \<and>
     reserve g (wh_KeyID h) (wh_Nonce h) now (nonceExpiry h) = (Inr True, g')"
  by (auto simp: Verify_accepts check_iff)

text \<open>
  C39. No replay: once a request has been accepted with the memory guard, no request with the same key id, nonce and
  timestamp is ever accepted again, whatever secret, body or other headers it carries and whatever other reservations
  happen in between, as long as the clock does not run backwards (and is a representable time).
\<close>

theorem webhook_accepted_once:
  assumes "VerifyWebhookSignature ctx secret h body now (Some (ReserveWebhookNonce ctx)) g = (Inr (), g1)"
    "later ReserveWebhookNonce (g1, now) (g2, t)" "t \<le> now2"
    "int64 (now2 div millisecond - 300000)" "int64 (now2 div millisecond)"
    "wh_KeyID h' = wh_KeyID h" "wh_Nonce h' = wh_Nonce h" "wh_Timestamp h' = wh_Timestamp h"
  shows "VerifyWebhookSignature ctx' secret' h' body' now2 (Some (ReserveWebhookNonce ctx')) g2 \<noteq> (Inr (), g3)"
  using assms by (rule memory_guard.accepted_once)

theorem webhook_accepted_once_witness:
  "\<exists>g1. VerifyWebhookSignature (Some False) sampleSecret sampleHeaders sampleBody sampleNow
     (Some (ReserveWebhookNonce (Some False))) sampleGuard = (Inr (), g1) \<and>
   (\<forall>g3. VerifyWebhookSignature (Some False) sampleSecret sampleHeaders sampleBody (sampleNow + 1)
     (Some (ReserveWebhookNonce (Some False))) g1 \<noteq> (Inr (), g3))"
proof -
  obtain g1 where g1: "VerifyWebhookSignature (Some False) sampleSecret sampleHeaders sampleBody sampleNow
     (Some (ReserveWebhookNonce (Some False))) sampleGuard = (Inr (), g1)" using sampleAccepted by blast
  show ?thesis
    using webhook_accepted_once [OF g1 later.same, of "sampleNow + 1" sampleHeaders] g1
    by (auto simp: sampleNow_def millisecond_def int64_def)
qed

text \<open>
  The signed text is unambiguous: two header sets and bodies with the same canonical signing bytes agree in key id,
  delivery id, event id, timestamp, nonce and body digest, so no field can be shifted into a neighbour.
\<close>

theorem signing_text_unambiguous:
  assumes "CanonicalWebhookSigningBytes h body = Inr t" "CanonicalWebhookSigningBytes h' body' = Inr t"
  shows "wh_KeyID h = wh_KeyID h' \<and> wh_DeliveryID h = wh_DeliveryID h' \<and> wh_EventID h = wh_EventID h' \<and>
    wh_Timestamp h = wh_Timestamp h' \<and> wh_Nonce h = wh_Nonce h' \<and> sha256 body = sha256 body'"
  using assms by (rule signing_text_inj)

theorem signing_text_unambiguous_witness:
  "CanonicalWebhookSigningBytes (sampleUnsigned\<lparr>wh_Signature := ''x''\<rparr>) sampleBody = CanonicalWebhookSigningBytes sampleUnsigned sampleBody \<and>
   wh_Nonce (sampleUnsigned\<lparr>wh_Signature := ''x''\<rparr>) = wh_Nonce sampleUnsigned"
proof -
  obtain t where t: "CanonicalWebhookSigningBytes sampleUnsigned sampleBody = Inr t"
    using sampleHeaders_valid sampleBody_length by (simp add: CanonicalWebhookSigningBytes_def)
  have "validateWebhookSigningHeaders (sampleUnsigned\<lparr>wh_Signature := ''x''\<rparr>) = Inr ()" by code_simp
  then have h: "CanonicalWebhookSigningBytes (sampleUnsigned\<lparr>wh_Signature := ''x''\<rparr>) sampleBody = Inr t"
    using t sampleHeaders_valid sampleBody_length by (simp add: CanonicalWebhookSigningBytes_def signingLines_def)
  show ?thesis using signing_text_unambiguous [OF h t] h t by simp
qed

text \<open>
  The memory guard is bounded: from a new guard, after any calls, it holds at most its limit of reservations, one per
  key and nonce.
\<close>

theorem memory_guard_bounded:
  assumes "NewMemoryWebhookReplayGuard limit = Inr g" "later ReserveWebhookNonce (g, t) (g', t')"
  shows "distinct (map fst (rg_entries g')) \<and> int (length (rg_entries g')) \<le> limit \<and> limit \<le> 1000000"
proof -
  have "guard_ok g" "rg_limit g = limit" "limit \<le> 1000000"
    using assms(1) by (auto simp: NewMemoryWebhookReplayGuard_def guard_ok_def split: if_splits)
  then show ?thesis using later_ok [OF assms(2)] by (auto simp: guard_ok_def)
qed

theorem memory_guard_bounded_witness:
  "\<exists>g'. later ReserveWebhookNonce (sampleGuard, 0) (g', 5) \<and> length (rg_entries g') = 1 \<and> int (length (rg_entries g')) \<le> 10"
proof -
  let ?g = "snd (ReserveWebhookNonce (Some False) sampleGuard ''k1'' ''n'' 5 9)"
  have l: "later ReserveWebhookNonce (sampleGuard, 0) (?g, 5)"
    by (rule later.call [OF later.same, where r = "fst (ReserveWebhookNonce (Some False) sampleGuard ''k1'' ''n'' 5 9)"]) simp_all
  have n: "NewMemoryWebhookReplayGuard 10 = Inr sampleGuard" by (simp add: NewMemoryWebhookReplayGuard_def sampleGuard_def)
  have "length (rg_entries ?g) = 1" by (simp add: ReserveWebhookNonce_def sampleGuard_def purge_def)
  then show ?thesis using memory_guard_bounded [OF n l] l by blast
qed

end
