(* ===== verification/AuthToken.thy ===== *)
theory AuthToken
  imports Sha256
begin

text \<open>
  Access tokens of \<^verbatim>\<open>server/auth/session\<close>: codes, bindings, identities and snapshots (\<^verbatim>\<open>types.go\<close>, \<^verbatim>\<open>store.go\<close>), generation
  from an entropy reader and parsing of the raw bearer value (\<^verbatim>\<open>token.go\<close>).
\<close>

section \<open>Codes and identities\<close>

datatype authCode =
    AuthInvalidInput | AuthTokenMalformed | AuthTokenExpired | AuthTokenRevoked | AuthSessionRevoked
  | AuthSessionNotFound | AuthForbidden | AuthStorageUnavailable | AuthPolicyRequired | AuthPolicyInvalid
  | AuthObserverRequired | AuthClockRequired | AuthTokenUnknown | AuthTokenCollision | AuthEntropyUnavailable

record SessionBinding =
  sb_UserID :: bytes
  sb_DeviceID :: bytes
  sb_SessionID :: bytes

text \<open>\<^verbatim>\<open>validIdentifier\<close> of \<^verbatim>\<open>token.go\<close> and \<^verbatim>\<open>identifier\<close> of the repository are the same loop.\<close>

definition validIdentifier :: "bytes \<Rightarrow> bool" where
  "validIdentifier value =
     (if length value = 0 \<or> 128 < length value then False
      else list_all (\<lambda>ch. is_upper ch \<or> is_lower ch \<or> is_digit ch \<or> ch = CHR ''_'' \<or> ch = CHR ''-'') value)"

definition validTokenID :: "bytes \<Rightarrow> bool" where
  "validTokenID value = (if length value \<noteq> 32 then False else list_all is_lower_hex value)"

definition Binding_Valid :: "SessionBinding \<Rightarrow> bool" where
  "Binding_Valid b \<longleftrightarrow> validIdentifier (sb_UserID b) \<and> validIdentifier (sb_DeviceID b) \<and> validIdentifier (sb_SessionID b)"

record ConnectionIdentity =
  ci_userID :: bytes
  ci_deviceID :: bytes
  ci_sessionID :: bytes
  ci_connectionID :: bytes
  ci_tokenID :: bytes

definition NewConnectionIdentity ::
  "bytes \<Rightarrow> bytes \<Rightarrow> bytes \<Rightarrow> bytes \<Rightarrow> bytes \<Rightarrow> (authCode, ConnectionIdentity) result" where
  "NewConnectionIdentity userID deviceID sessionID connectionID tokenID =
     (if \<not> validIdentifier userID \<or> \<not> validIdentifier deviceID \<or> \<not> validIdentifier sessionID \<or>
         \<not> validIdentifier connectionID \<or> \<not> validTokenID tokenID then Inl AuthInvalidInput
      else Inr \<lparr>ci_userID = userID, ci_deviceID = deviceID, ci_sessionID = sessionID,
                ci_connectionID = connectionID, ci_tokenID = tokenID\<rparr>)"

datatype RevocationOutcome = RevokeOK | RevokeNoop

section \<open>Snapshots\<close>

record TokenSnapshot =
  ts_tokenID :: bytes
  ts_digest :: bytes
  ts_binding :: SessionBinding
  ts_expiresAt :: instant
  ts_tokenRevokedAt :: "instant option"
  ts_sessionRevokedAt :: "instant option"

definition NewTokenSnapshot ::
  "bytes \<Rightarrow> bytes \<Rightarrow> SessionBinding \<Rightarrow> instant \<Rightarrow> instant option \<Rightarrow> instant option \<Rightarrow> (authCode, TokenSnapshot) result" where
  "NewTokenSnapshot tokenID digest binding expiresAt tokenRevokedAt sessionRevokedAt =
     (if \<not> validTokenID tokenID \<or> length digest \<noteq> 32 \<or> \<not> Binding_Valid binding \<or> expiresAt = zeroTime
      then Inl AuthStorageUnavailable
      else Inr \<lparr>ts_tokenID = tokenID, ts_digest = digest, ts_binding = binding, ts_expiresAt = expiresAt,
                ts_tokenRevokedAt = tokenRevokedAt, ts_sessionRevokedAt = sessionRevokedAt\<rparr>)"

record SessionSnapshot =
  sn_binding :: SessionBinding
  sn_revokedAt :: "instant option"

definition NewSessionSnapshot :: "SessionBinding \<Rightarrow> instant option \<Rightarrow> (authCode, SessionSnapshot) result" where
  "NewSessionSnapshot binding revokedAt =
     (if \<not> Binding_Valid binding then Inl AuthStorageUnavailable
      else Inr \<lparr>sn_binding = binding, sn_revokedAt = revokedAt\<rparr>)"

definition VerifyDigest :: "TokenSnapshot \<Rightarrow> bytes \<Rightarrow> bool" where
  "VerifyDigest s provided \<longleftrightarrow> ts_digest s = provided"

section \<open>Tokens\<close>

definition TokenPrefix :: bytes where "TokenPrefix = ''n1_''"
definition RawTokenLen :: nat where "RawTokenLen = 79"
definition MinTTL :: int where "MinTTL = second"
definition MaxTTL :: int where "MaxTTL = 24 * 60 * minute"

record IssuedToken =
  it_tokenID :: bytes
  it_rawToken :: bytes
  it_digest :: bytes
  it_issuedAt :: instant
  it_expiresAt :: instant

definition newIssuedToken :: "bytes \<Rightarrow> bytes \<Rightarrow> bytes \<Rightarrow> instant \<Rightarrow> instant \<Rightarrow> (authCode, IssuedToken) result" where
  "newIssuedToken tokenID rawToken digest issuedAt expiresAt =
     (if \<not> validTokenID tokenID \<or> length rawToken \<noteq> RawTokenLen \<or> issuedAt = zeroTime \<or> expiresAt = zeroTime \<or>
         \<not> issuedAt < expiresAt then Inl AuthInvalidInput
      else Inr \<lparr>it_tokenID = tokenID, it_rawToken = rawToken, it_digest = digest, it_issuedAt = issuedAt, it_expiresAt = expiresAt\<rparr>)"

text \<open>
  The entropy reader is the list of the bytes it will deliver; \<^verbatim>\<open>io.ReadFull\<close> takes what there is and fails when that
  is too little. \<^verbatim>\<open>Truncate(time.Microsecond)\<close> rounds down to a multiple of the unit since the zero time.
\<close>

definition readFull :: "nat \<Rightarrow> bytes \<Rightarrow> bytes option \<times> bytes" where
  "readFull n entropy = (if length entropy < n then (None, []) else (Some (take n entropy), drop n entropy))"

definition truncMicro :: "instant \<Rightarrow> instant" where
  "truncMicro t = t div 1000 * 1000"

definition rawToken :: "bytes \<Rightarrow> bytes \<Rightarrow> bytes" where
  "rawToken tokenIDBytes secretBytes = TokenPrefix @ hex_encode tokenIDBytes @ ''_'' @ b64_encode secretBytes"

definition generateIssuedToken :: "bytes \<Rightarrow> instant \<Rightarrow> int \<Rightarrow> (authCode, IssuedToken) result \<times> bytes" where
  "generateIssuedToken entropy now ttl =
     (if now = zeroTime \<or> ttl < MinTTL \<or> MaxTTL < ttl then (Inl AuthInvalidInput, entropy)
      else case readFull 16 entropy of
        (None, e1) \<Rightarrow> (Inl AuthEntropyUnavailable, e1)
      | (Some tokenIDBytes, e1) \<Rightarrow> (case readFull 32 e1 of
          (None, e2) \<Rightarrow> (Inl AuthEntropyUnavailable, e2)
        | (Some secretBytes, e2) \<Rightarrow>
            let tokenID = hex_encode tokenIDBytes;
                raw = rawToken tokenIDBytes secretBytes;
                issuedAt = truncMicro now;
                expiresAt = issuedAt + ttl
            in if \<not> issuedAt < expiresAt then (Inl AuthInvalidInput, e2)
               else (newIssuedToken tokenID raw (sha256 raw) issuedAt expiresAt, e2)))"

definition parseRawToken :: "bytes \<Rightarrow> (authCode, bytes \<times> bytes) result" where
  "parseRawToken raw =
     (if length raw \<noteq> RawTokenLen \<or> take 3 raw \<noteq> TokenPrefix \<or> raw ! 35 \<noteq> CHR ''_'' then Inl AuthTokenMalformed
      else
        let tokenID = take 32 (drop 3 raw) in
        if \<not> validTokenID tokenID then Inl AuthTokenMalformed
        else
          let secret = drop 36 raw in
          case b64_decode False secret of
            None \<Rightarrow> Inl AuthTokenMalformed
          | Some decoded \<Rightarrow>
              if length decoded \<noteq> 32 \<or> b64_encode decoded \<noteq> secret then Inl AuthTokenMalformed
              else Inr (tokenID, sha256 raw))"

section \<open>Generated tokens parse\<close>

lemma validIdentifier_ident [simp]: "validIdentifier s \<longleftrightarrow> ident128 s"
  by (auto simp: validIdentifier_def ident128_def ident_byte_def list_all_iff)

lemma hex_digit_lower: "d < 16 \<Longrightarrow> is_lower_hex (hex_digit d)"
  by (auto simp: hex_digit_def is_lower_hex_def is_digit_code less_eq_char_def)

lemma hex_encode_length: "length (hex_encode s) = 2 * length s"
  by (induction s) simp_all

lemma hex_encode_lower: "list_all is_lower_hex (hex_encode s)"
proof (induction s)
  case (Cons c s)
  have "code c div 16 < 16" using code_less [of c] by (simp add: less_mult_imp_div_less)
  then show ?case using Cons hex_digit_lower by simp
qed simp

lemma validTokenID_hex: "length s = 16 \<Longrightarrow> validTokenID (hex_encode s)"
  by (simp add: validTokenID_def hex_encode_length hex_encode_lower)

lemma rawToken_parses:
  assumes "length i = 16" "length s = 32"
  shows "parseRawToken (rawToken i s) = Inr (hex_encode i, sha256 (rawToken i s))" "length (rawToken i s) = RawTokenLen"
proof -
  have l: "length (hex_encode i) = 32" "length (b64_encode s) = 43"
    using assms by (simp_all add: hex_encode_length b64_encode_length)
  have r: "rawToken i s = TokenPrefix @ hex_encode i @ CHR ''_'' # b64_encode s" by (simp add: rawToken_def)
  have p: "take 3 (rawToken i s) = TokenPrefix" "rawToken i s ! 35 = CHR ''_''"
    "take 32 (drop 3 (rawToken i s)) = hex_encode i" "drop 36 (rawToken i s) = b64_encode s"
    using l by (simp_all add: r TokenPrefix_def nth_append)
  show len: "length (rawToken i s) = RawTokenLen" using l by (simp add: r TokenPrefix_def RawTokenLen_def)
  show "parseRawToken (rawToken i s) = Inr (hex_encode i, sha256 (rawToken i s))"
    using assms p len validTokenID_hex [OF assms(1)] by (simp add: parseRawToken_def Let_def)
qed

lemma generate_cases:
  assumes "generateIssuedToken entropy now ttl = (Inr tok, e')"
  obtains i s where "length i = 16" "length s = 32" "it_tokenID tok = hex_encode i" "it_rawToken tok = rawToken i s"
    "it_digest tok = sha256 (rawToken i s)" "it_issuedAt tok = truncMicro now" "it_expiresAt tok = truncMicro now + ttl"
    "MinTTL \<le> ttl" "ttl \<le> MaxTTL" "entropy = i @ s @ e'" "it_expiresAt tok \<noteq> zeroTime"
proof -
  define i where "i = take 16 entropy"
  define s where "s = take 32 (drop 16 entropy)"
  have len: "16 \<le> length entropy" "48 \<le> length entropy"
    using assms by (auto simp: generateIssuedToken_def readFull_def split: if_splits)
  then have r: "readFull 16 entropy = (Some i, drop 16 entropy)"
    "readFull 32 (drop 16 entropy) = (Some s, drop 32 (drop 16 entropy))"
    by (simp_all add: readFull_def i_def s_def)
  have e: "i @ s @ drop 32 (drop 16 entropy) = entropy" unfolding i_def s_def append_take_drop_id ..
  note g = assms [unfolded generateIssuedToken_def r, simplified]
  have f: "e' = drop 32 (drop 16 entropy)" "MinTTL \<le> ttl" "ttl \<le> MaxTTL"
    using g by (auto simp: r Let_def newIssuedToken_def split: if_splits)
  have t: "tok = \<lparr>it_tokenID = hex_encode i, it_rawToken = rawToken i s, it_digest = sha256 (rawToken i s),
      it_issuedAt = truncMicro now, it_expiresAt = truncMicro now + ttl\<rparr>" "truncMicro now + ttl \<noteq> zeroTime"
    using g by (auto simp: r Let_def newIssuedToken_def split: if_splits)
  show ?thesis
    using len f t e by (intro that [of i s]) (simp_all add: i_def s_def)
qed

end
