(* ===== verification/Database.thy ===== *)
theory Database
  imports Sha256
begin

text \<open>
  What the repositories share: tables keyed by text, and the behaviour of the driver in one transaction. Every statement
  may fail; a commit may succeed, fail and be rolled back, or report an error although the server applied it. Each
  transaction is one step of the model: the row locks the repositories take make them serial on the rows they touch.
\<close>

type_synonym 'r table = "(bytes \<times> 'r) list"

datatype commitOutcome = Committed | CommitLost | CommitFailed

text \<open>
  One transaction's luck: whether beginning or configuring it fails, which of its statements fail (counted from 0 in the
  order the source issues them), and how the commit ends.
\<close>

record dbEnv =
  env_begin :: bool
  env_stmt :: "nat \<Rightarrow> bool"
  env_commit :: commitOutcome

definition goodEnv :: dbEnv where
  "goodEnv = \<lparr>env_begin = False, env_stmt = (\<lambda>_. False), env_commit = Committed\<rparr>"

definition finish :: "dbEnv \<Rightarrow> 'e \<Rightarrow> 'db \<Rightarrow> 'db \<Rightarrow> 'a \<Rightarrow> ('e, 'a) result \<times> 'db" where
  "finish env e db db' x = (case env_commit env of
       Committed \<Rightarrow> (Inr x, db')
     | CommitLost \<Rightarrow> (Inl e, db')
     | CommitFailed \<Rightarrow> (Inl e, db))"

lemma finish_Inr [simp]: "finish env e db db' x = (Inr y, d) \<longleftrightarrow> env_commit env = Committed \<and> y = x \<and> d = db'"
  by (auto simp: finish_def split: commitOutcome.splits)

lemma finish_state: "snd (finish env e db db' x) = db \<or> snd (finish env e db db' x) = db'"
  by (auto simp: finish_def split: commitOutcome.splits)

lemma finish_good [simp]: "finish goodEnv e db db' x = (Inr x, db')"
  by (simp add: finish_def goodEnv_def)

lemma goodEnv_simps [simp]: "\<not> env_begin goodEnv" "\<not> env_stmt goodEnv n"
  by (simp_all add: goodEnv_def)

lemma pair_of_fst: "fst p = x \<Longrightarrow> p = (x, snd p)"
  by (cases p) simp

text \<open>What the driver reports: a server error with its SQLSTATE, or one of the client-side failures.\<close>

datatype driverError =
    PgError bytes | DeadlineExceeded | Canceled | EndOfFile | NetClosed | NetOpError | ConnectError | OtherError

text \<open>
  The luck of a transaction where the repository tells driver errors apart.
\<close>

record txEnv =
  tx_begin :: "driverError option"
  tx_stmt :: "nat \<Rightarrow> driverError option"
  tx_commit :: commitOutcome

definition goodTx :: txEnv where
  "goodTx = \<lparr>tx_begin = None, tx_stmt = (\<lambda>_. None), tx_commit = Committed\<rparr>"

lemma goodTx_simps [simp]: "tx_begin goodTx = None" "tx_stmt goodTx n = None" "tx_commit goodTx = Committed"
  by (simp_all add: goodTx_def)

text \<open>Updating every row of a table; keys stay as they are.\<close>

definition mapRows :: "(bytes \<Rightarrow> 'r \<Rightarrow> 'r) \<Rightarrow> 'r table \<Rightarrow> 'r table" where
  "mapRows f t = map (\<lambda>(k, r). (k, f k r)) t"

lemma map_of_mapRows [simp]: "map_of (mapRows f t) k = map_option (f k) (map_of t k)"
  by (induction t) (auto simp: mapRows_def)

lemma keys_mapRows [simp]: "map fst (mapRows f t) = map fst t"
  by (auto simp: mapRows_def)

section \<open>Runs of a store\<close>

text \<open>
  A store moves by transactions. The contract its clients use: an invariant every transaction keeps, and facts
  that hold for ever once they hold (a revocation, a persisted message, a terminal delivery).
\<close>

locale store_runs =
  fixes step :: "'s \<Rightarrow> 's \<Rightarrow> bool"
    and inv :: "'s \<Rightarrow> bool"
  assumes inv_step: "step s t \<Longrightarrow> inv s \<Longrightarrow> inv t"
begin

lemma inv_runs: "step\<^sup>*\<^sup>* s t \<Longrightarrow> inv s \<Longrightarrow> inv t"
  by (induction rule: rtranclp_induct) (auto intro: inv_step)

end

locale store_latch = store_runs +
  fixes latched :: "'s \<Rightarrow> 'k \<Rightarrow> bool"
  assumes latch_step: "step s t \<Longrightarrow> inv s \<Longrightarrow> latched s k \<Longrightarrow> latched t k"
begin

lemma latch_runs: "step\<^sup>*\<^sup>* s t \<Longrightarrow> inv s \<Longrightarrow> latched s k \<Longrightarrow> latched t k"
  by (induction rule: rtranclp_induct) (auto intro: latch_step inv_runs)

lemma latched_excludes:
  assumes "step\<^sup>*\<^sup>* s t" "inv s" "latched s k" "\<And>s. inv s \<Longrightarrow> latched s k \<Longrightarrow> \<not> accepts s"
  shows "\<not> accepts t"
  using assms(4) inv_runs [OF assms(1,2)] latch_runs [OF assms(1-3)] by blast

end

end
