(* ===== verification/AuthStore.thy ===== *)
theory AuthStore
  imports AuthToken Database
begin

text \<open>
  The token repository of \<^verbatim>\<open>server/storage/authsession/repository.go\<close> over the tables of
  \<^verbatim>\<open>infra/db/migrations/004_auth_sessions.sql\<close>: issue, authenticate, the three revocations and the session lookup, each with
  the failures of its statements and of its commit.
\<close>

section \<open>Tables\<close>

record session_row =
  ss_user :: bytes
  ss_device :: bytes
  ss_revoked :: "instant option"

record token_row =
  tk_digest :: bytes
  tk_session :: bytes
  tk_created :: instant
  tk_expires :: instant
  tk_revoked :: "instant option"

record authdb =
  db_sessions :: "session_row table"
  db_tokens :: "token_row table"

text \<open>
  \<^verbatim>\<open>timestamptz\<close> keeps microseconds. The insert is refused by a check constraint, then by the unique keys (a collision
  to the caller), then by the reference to the session.
\<close>

datatype insertOutcome = Inserted authdb | Collision | Rejected

definition insertToken :: "authdb \<Rightarrow> bytes \<Rightarrow> token_row \<Rightarrow> insertOutcome" where
  "insertToken db tokenID row =
     (if \<not> validTokenID tokenID \<or> length (tk_digest row) \<noteq> 32 \<or> \<not> tk_created row < tk_expires row then Rejected
      else if map_of (db_tokens db) tokenID \<noteq> None \<or> tk_digest row \<in> set (map (\<lambda>(k, r). tk_digest r) (db_tokens db))
      then Collision
      else if map_of (db_sessions db) (tk_session row) = None then Rejected
      else Inserted (db\<lparr>db_tokens := (tokenID, row) # db_tokens db\<rparr>))"

text \<open>\<^verbatim>\<open>UPDATE ... SET revoked_at WHERE ... AND revoked_at IS NULL\<close> with the check that it is not before \<^verbatim>\<open>created_at\<close>.\<close>

definition revokeRows :: "(bytes \<Rightarrow> token_row \<Rightarrow> bool) \<Rightarrow> instant \<Rightarrow> authdb \<Rightarrow> authdb option" where
  "revokeRows sel at db =
     (if list_all (\<lambda>(k, r). sel k r \<and> tk_revoked r = None \<longrightarrow> tk_created r \<le> truncMicro at) (db_tokens db)
      then Some (db\<lparr>db_tokens := mapRows (\<lambda>k r. if sel k r \<and> tk_revoked r = None
             then r\<lparr>tk_revoked := Some (truncMicro at)\<rparr> else r) (db_tokens db)\<rparr>)
      else None)"

definition revokeSessionRow :: "bytes \<Rightarrow> instant \<Rightarrow> authdb \<Rightarrow> authdb" where
  "revokeSessionRow sessionID at db =
     db\<lparr>db_sessions := mapRows (\<lambda>k r. if k = sessionID \<and> ss_revoked r = None
          then r\<lparr>ss_revoked := Some (truncMicro at)\<rparr> else r) (db_sessions db)\<rparr>"

section \<open>Operations\<close>

definition Repo_Issue ::
  "goContext \<Rightarrow> dbEnv \<Rightarrow> SessionBinding \<Rightarrow> ('s \<Rightarrow> (authCode, IssuedToken) result \<times> 's) \<Rightarrow> 's \<Rightarrow> authdb \<Rightarrow>
   (authCode, IssuedToken) result \<times> 's \<times> authdb" where
  "Repo_Issue ctx env binding generate s db =
     (if ctx = None \<or> \<not> Binding_Valid binding then (Inl AuthInvalidInput, s, db)
      else if env_begin env \<or> env_stmt env 0 then (Inl AuthStorageUnavailable, s, db)
      else case map_of (db_sessions db) (sb_SessionID binding) of
        None \<Rightarrow> (Inl AuthSessionNotFound, s, db)
      | Some row \<Rightarrow>
          if ss_user row \<noteq> sb_UserID binding \<or> ss_device row \<noteq> sb_DeviceID binding then (Inl AuthForbidden, s, db)
          else if ss_revoked row \<noteq> None then (Inl AuthSessionRevoked, s, db)
          else (case generate s of
              (Inl e, s') \<Rightarrow> (Inl e, s', db)
            | (Inr issued, s') \<Rightarrow>
                if it_tokenID issued = [] \<or> it_rawToken issued = [] \<or> it_expiresAt issued = zeroTime \<or>
                   \<not> it_issuedAt issued < it_expiresAt issued then (Inl AuthStorageUnavailable, s', db)
                else if env_stmt env 1 then (Inl AuthStorageUnavailable, s', db)
                else (case insertToken db (it_tokenID issued)
                      \<lparr>tk_digest = it_digest issued, tk_session = sb_SessionID binding,
                       tk_created = truncMicro (it_issuedAt issued), tk_expires = truncMicro (it_expiresAt issued),
                       tk_revoked = None\<rparr> of
                    Collision \<Rightarrow> (Inl AuthTokenCollision, s', db)
                  | Rejected \<Rightarrow> (Inl AuthStorageUnavailable, s', db)
                  | Inserted db' \<Rightarrow>
                      (case finish env AuthStorageUnavailable db db' issued of (r, db'') \<Rightarrow> (r, s', db'')))))"

text \<open>The three reads that \<^verbatim>\<open>Authenticate\<close> and \<^verbatim>\<open>RevokeBearer\<close> share.\<close>

definition readSnapshot :: "dbEnv \<Rightarrow> bytes \<Rightarrow> authdb \<Rightarrow> (authCode, TokenSnapshot) result" where
  "readSnapshot env tokenID db =
     (if env_stmt env 0 then Inl AuthStorageUnavailable
      else case map_of (db_tokens db) tokenID of
        None \<Rightarrow> Inl AuthTokenUnknown
      | Some tok \<Rightarrow>
          if env_stmt env 1 then Inl AuthStorageUnavailable
          else (case map_of (db_sessions db) (tk_session tok) of
              None \<Rightarrow> Inl AuthTokenUnknown
            | Some ses \<Rightarrow>
                if env_stmt env 2 then Inl AuthStorageUnavailable
                else NewTokenSnapshot tokenID (tk_digest tok)
                  \<lparr>sb_UserID = ss_user ses, sb_DeviceID = ss_device ses, sb_SessionID = tk_session tok\<rparr>
                  (tk_expires tok) (tk_revoked tok) (ss_revoked ses)))"

text \<open>
  \<^verbatim>\<open>Authenticate\<close> commits whatever the verification says and only then reports its error; it changes no row. The
  verification hands its findings to the caller as its value.
\<close>

definition Repo_Authenticate ::
  "goContext \<Rightarrow> dbEnv \<Rightarrow> bytes \<Rightarrow> (TokenSnapshot \<Rightarrow> (authCode, 'a) result) \<Rightarrow> authdb \<Rightarrow> (authCode, 'a) result" where
  "Repo_Authenticate ctx env tokenID verify db =
     (if ctx = None \<or> \<not> validTokenID tokenID then Inl AuthInvalidInput
      else if env_begin env then Inl AuthStorageUnavailable
      else bindR (readSnapshot env tokenID db) (\<lambda>snapshot.
        if env_commit env \<noteq> Committed then Inl AuthStorageUnavailable else verify snapshot))"

definition Repo_RevokeBearer ::
  "goContext \<Rightarrow> dbEnv \<Rightarrow> bytes \<Rightarrow> (TokenSnapshot \<Rightarrow> (authCode, unit) result) \<Rightarrow> instant \<Rightarrow> authdb \<Rightarrow>
   (authCode, RevocationOutcome) result \<times> authdb" where
  "Repo_RevokeBearer ctx env tokenID verify revokedAt db =
     (if ctx = None \<or> \<not> validTokenID tokenID \<or> revokedAt = zeroTime then (Inl AuthInvalidInput, db)
      else if env_begin env then (Inl AuthStorageUnavailable, db)
      else case readSnapshot env tokenID db of
        Inl e \<Rightarrow> (Inl e, db)
      | Inr snapshot \<Rightarrow> (case verify snapshot of
          Inl e \<Rightarrow> (Inl e, db)
        | Inr _ \<Rightarrow>
            if ts_tokenRevokedAt snapshot = None then
              (if env_stmt env 3 then (Inl AuthStorageUnavailable, db)
               else case revokeRows (\<lambda>k r. k = tokenID) revokedAt db of
                 None \<Rightarrow> (Inl AuthStorageUnavailable, db)
               | Some db' \<Rightarrow> finish env AuthStorageUnavailable db db' RevokeOK)
            else finish env AuthStorageUnavailable db db RevokeNoop))"

definition Repo_LookupSession :: "goContext \<Rightarrow> dbEnv \<Rightarrow> bytes \<Rightarrow> authdb \<Rightarrow> (authCode, SessionSnapshot) result" where
  "Repo_LookupSession ctx env sessionID db =
     (if ctx = None \<or> \<not> validIdentifier sessionID then Inl AuthInvalidInput
      else if env_begin env \<or> env_stmt env 0 then Inl AuthStorageUnavailable
      else case map_of (db_sessions db) sessionID of
        None \<Rightarrow> Inl AuthSessionNotFound
      | Some row \<Rightarrow>
          bindR (NewSessionSnapshot \<lparr>sb_UserID = ss_user row, sb_DeviceID = ss_device row, sb_SessionID = sessionID\<rparr>
            (ss_revoked row)) (\<lambda>snapshot.
            if env_commit env \<noteq> Committed then Inl AuthStorageUnavailable else Inr snapshot))"

definition Repo_RevokeSession ::
  "goContext \<Rightarrow> dbEnv \<Rightarrow> SessionBinding \<Rightarrow> instant \<Rightarrow> authdb \<Rightarrow> (authCode, RevocationOutcome) result \<times> authdb" where
  "Repo_RevokeSession ctx env binding revokedAt db =
     (if ctx = None \<or> \<not> Binding_Valid binding \<or> revokedAt = zeroTime then (Inl AuthInvalidInput, db)
      else if env_begin env \<or> env_stmt env 0 then (Inl AuthStorageUnavailable, db)
      else case map_of (db_sessions db) (sb_SessionID binding) of
        None \<Rightarrow> (Inl AuthSessionNotFound, db)
      | Some row \<Rightarrow>
          if ss_user row \<noteq> sb_UserID binding \<or> ss_device row \<noteq> sb_DeviceID binding then (Inl AuthForbidden, db)
          else if ss_revoked row = None \<and> env_stmt env 1 then (Inl AuthStorageUnavailable, db)
          else
            let db1 = (if ss_revoked row = None then revokeSessionRow (sb_SessionID binding) revokedAt db else db) in
            if env_stmt env 2 then (Inl AuthStorageUnavailable, db)
            else (case revokeRows (\<lambda>k r. tk_session r = sb_SessionID binding) revokedAt db1 of
                None \<Rightarrow> (Inl AuthStorageUnavailable, db)
              | Some db2 \<Rightarrow>
                  finish env AuthStorageUnavailable db db2 (if ss_revoked row \<noteq> None then RevokeNoop else RevokeOK)))"

definition Repo_RevokeToken ::
  "goContext \<Rightarrow> dbEnv \<Rightarrow> bytes \<Rightarrow> bytes \<Rightarrow> instant \<Rightarrow> authdb \<Rightarrow> (authCode, RevocationOutcome) result \<times> authdb" where
  "Repo_RevokeToken ctx env userID tokenID revokedAt db =
     (if ctx = None \<or> \<not> validIdentifier userID \<or> \<not> validTokenID tokenID \<or> revokedAt = zeroTime then (Inl AuthInvalidInput, db)
      else if env_begin env \<or> env_stmt env 0 then (Inl AuthStorageUnavailable, db)
      else case map_of (db_tokens db) tokenID of
        None \<Rightarrow> (Inl AuthTokenUnknown, db)
      | Some tok \<Rightarrow>
          if env_stmt env 1 then (Inl AuthStorageUnavailable, db)
          else (case map_of (db_sessions db) (tk_session tok) of
              None \<Rightarrow> (Inl AuthTokenUnknown, db)
            | Some ses \<Rightarrow>
                if ss_user ses \<noteq> userID then (Inl AuthForbidden, db)
                else if env_stmt env 2 then (Inl AuthStorageUnavailable, db)
                else if tk_revoked tok = None then
                  (if env_stmt env 3 then (Inl AuthStorageUnavailable, db)
                   else case revokeRows (\<lambda>k r. k = tokenID) revokedAt db of
                     None \<Rightarrow> (Inl AuthStorageUnavailable, db)
                   | Some db' \<Rightarrow> finish env AuthStorageUnavailable db db' RevokeOK)
                else finish env AuthStorageUnavailable db db RevokeNoop))"

end
