(* ===== verification/AuthService.thy ===== *)
theory AuthService
  imports AuthStore
begin

text \<open>
  The session service of \<^verbatim>\<open>server/auth/session/service.go\<close> and \<^verbatim>\<open>bearer.go\<close> on top of the repository. The clock is a
  parameter per reading and the login policy a function; the observer, which sees only labels after the result is
  decided, is left out.
\<close>

section \<open>Construction and clock\<close>

record authConfig =
  ac_hasClock :: bool
  ac_hasObserver :: bool
  ac_RequestTimeout :: int

definition defaultRequestTimeout :: int where "defaultRequestTimeout = 5 * second"

definition Auth_NewService :: "bool \<Rightarrow> authConfig \<Rightarrow> (authCode, int) result" where
  "Auth_NewService hasStore config =
     (if \<not> ac_hasClock config then Inl AuthClockRequired
      else if \<not> ac_hasObserver config then Inl AuthObserverRequired
      else if \<not> hasStore then Inl AuthInvalidInput
      else
        let timeout = (if ac_RequestTimeout config = 0 then defaultRequestTimeout else ac_RequestTimeout config) in
        if timeout < millisecond \<or> defaultRequestTimeout < timeout then Inl AuthInvalidInput else Inr timeout)"

definition currentTime :: "instant \<Rightarrow> (authCode, instant) result" where
  "currentTime now = (if now = zeroTime then Inl AuthStorageUnavailable else Inr now)"

section \<open>Issue\<close>

definition generateAt :: "instant \<Rightarrow> int \<Rightarrow> bytes \<Rightarrow> (authCode, IssuedToken) result \<times> bytes" where
  "generateAt clock ttl entropy = (case currentTime clock of
       Inl e \<Rightarrow> (Inl e, entropy)
     | Inr now \<Rightarrow> generateIssuedToken entropy now ttl)"

definition maxIssueAttempts :: nat where "maxIssueAttempts = 3"

text \<open>The attempt loop: \<open>left\<close> attempts remain, the transaction and the clock of each are its own.\<close>

fun issue_loop ::
  "nat \<Rightarrow> goContext \<Rightarrow> (nat \<Rightarrow> dbEnv) \<Rightarrow> (nat \<Rightarrow> instant) \<Rightarrow> SessionBinding \<Rightarrow> int \<Rightarrow> bytes \<Rightarrow> authdb \<Rightarrow>
   (authCode, IssuedToken) result \<times> bytes \<times> authdb" where
  "issue_loop 0 ctx envs clock binding ttl entropy db = (Inl AuthTokenCollision, entropy, db)"
| "issue_loop (Suc left) ctx envs clock binding ttl entropy db =
     (case Repo_Issue ctx (envs left) binding (generateAt (clock left) ttl) entropy db of
        (Inr issued, entropy', db') \<Rightarrow> (Inr issued, entropy', db')
      | (Inl e, entropy', db') \<Rightarrow>
          if e \<noteq> AuthTokenCollision then (Inl e, entropy', db')
          else issue_loop left ctx envs clock binding ttl entropy' db')"

definition Auth_Issue ::
  "goContext \<Rightarrow> (nat \<Rightarrow> dbEnv) \<Rightarrow> (nat \<Rightarrow> instant) \<Rightarrow> SessionBinding \<Rightarrow> int \<Rightarrow> bytes \<Rightarrow> authdb \<Rightarrow>
   (authCode, IssuedToken) result \<times> bytes \<times> authdb" where
  "Auth_Issue ctx envs clock binding ttl entropy db =
     (if ctx = None \<or> \<not> Binding_Valid binding \<or> ttl < MinTTL \<or> MaxTTL < ttl then (Inl AuthInvalidInput, entropy, db)
      else issue_loop maxIssueAttempts ctx envs clock binding ttl entropy db)"

section \<open>Authenticate\<close>

record AuthenticateRequest =
  ar_Token :: bytes
  ar_Binding :: SessionBinding
  ar_ConnectionID :: bytes

definition verifyBound :: "bytes \<Rightarrow> SessionBinding \<Rightarrow> instant \<Rightarrow> TokenSnapshot \<Rightarrow> (authCode, unit) result" where
  "verifyBound digest binding clock snapshot =
     (if \<not> VerifyDigest snapshot digest then Inl AuthTokenUnknown
      else if ts_binding snapshot \<noteq> binding then Inl AuthForbidden
      else if ts_tokenRevokedAt snapshot \<noteq> None then Inl AuthTokenRevoked
      else if ts_sessionRevokedAt snapshot \<noteq> None then Inl AuthSessionRevoked
      else bindR (currentTime clock) (\<lambda>now.
        if \<not> now < ts_expiresAt snapshot then Inl AuthTokenExpired else Inr ()))"

definition Auth_Authenticate ::
  "goContext \<Rightarrow> dbEnv \<Rightarrow> instant \<Rightarrow> AuthenticateRequest \<Rightarrow> authdb \<Rightarrow> (authCode, ConnectionIdentity) result" where
  "Auth_Authenticate ctx env clock request db =
     (if ctx = None \<or> \<not> Binding_Valid (ar_Binding request) \<or> \<not> validIdentifier (ar_ConnectionID request)
      then Inl AuthInvalidInput
      else bindR (parseRawToken (ar_Token request)) (\<lambda>(tokenID, digest).
        bindR (Repo_Authenticate ctx env tokenID (verifyBound digest (ar_Binding request) clock) db) (\<lambda>_.
          NewConnectionIdentity (sb_UserID (ar_Binding request)) (sb_DeviceID (ar_Binding request))
            (sb_SessionID (ar_Binding request)) (ar_ConnectionID request) tokenID)))"

record BearerSession =
  bs_binding :: SessionBinding
  bs_tokenID :: bytes
  bs_expiresAt :: instant

definition newBearerSession :: "SessionBinding \<Rightarrow> bytes \<Rightarrow> instant \<Rightarrow> (authCode, BearerSession) result" where
  "newBearerSession binding tokenID expiresAt =
     (if \<not> Binding_Valid binding \<or> \<not> validTokenID tokenID \<or> expiresAt = zeroTime then Inl AuthStorageUnavailable
      else Inr \<lparr>bs_binding = binding, bs_tokenID = tokenID, bs_expiresAt = expiresAt\<rparr>)"

definition verifyBearer :: "bytes \<Rightarrow> instant \<Rightarrow> TokenSnapshot \<Rightarrow> (authCode, SessionBinding \<times> instant) result" where
  "verifyBearer digest clock snapshot =
     (if \<not> VerifyDigest snapshot digest then Inl AuthTokenUnknown
      else if ts_tokenRevokedAt snapshot \<noteq> None then Inl AuthTokenRevoked
      else if ts_sessionRevokedAt snapshot \<noteq> None then Inl AuthSessionRevoked
      else bindR (currentTime clock) (\<lambda>now.
        if \<not> now < ts_expiresAt snapshot then Inl AuthTokenExpired
        else Inr (ts_binding snapshot, ts_expiresAt snapshot)))"

definition AuthenticateBearer ::
  "goContext \<Rightarrow> dbEnv \<Rightarrow> instant \<Rightarrow> bytes \<Rightarrow> authdb \<Rightarrow> (authCode, BearerSession) result" where
  "AuthenticateBearer ctx env clock raw db =
     (if ctx = None then Inl AuthInvalidInput
      else bindR (parseRawToken raw) (\<lambda>(tokenID, digest).
        bindR (Repo_Authenticate ctx env tokenID (verifyBearer digest clock) db) (\<lambda>(binding, expiresAt).
          newBearerSession binding tokenID expiresAt)))"

section \<open>Revoke\<close>

definition RevokeBearer ::
  "goContext \<Rightarrow> dbEnv \<Rightarrow> instant \<Rightarrow> bytes \<Rightarrow> authdb \<Rightarrow> (authCode, RevocationOutcome) result \<times> authdb" where
  "RevokeBearer ctx env clock raw db =
     (if ctx = None then (Inl AuthInvalidInput, db)
      else case parseRawToken raw of
        Inl e \<Rightarrow> (Inl e, db)
      | Inr (tokenID, digest) \<Rightarrow> (case currentTime clock of
          Inl e \<Rightarrow> (Inl e, db)
        | Inr now \<Rightarrow>
            Repo_RevokeBearer ctx env tokenID
              (\<lambda>snapshot. if \<not> VerifyDigest snapshot digest then Inl AuthTokenUnknown else Inr ()) now db))"

definition Auth_RevokeSession ::
  "goContext \<Rightarrow> dbEnv \<Rightarrow> instant \<Rightarrow> SessionBinding \<Rightarrow> authdb \<Rightarrow> (authCode, RevocationOutcome) result \<times> authdb" where
  "Auth_RevokeSession ctx env clock binding db =
     (if ctx = None \<or> \<not> Binding_Valid binding then (Inl AuthInvalidInput, db)
      else case currentTime clock of
        Inl e \<Rightarrow> (Inl e, db)
      | Inr now \<Rightarrow> Repo_RevokeSession ctx env binding now db)"

definition Auth_RevokeToken ::
  "goContext \<Rightarrow> dbEnv \<Rightarrow> instant \<Rightarrow> bytes \<Rightarrow> bytes \<Rightarrow> authdb \<Rightarrow> (authCode, RevocationOutcome) result \<times> authdb" where
  "Auth_RevokeToken ctx env clock userID tokenID db =
     (if ctx = None \<or> \<not> validIdentifier userID \<or> \<not> validTokenID tokenID then (Inl AuthInvalidInput, db)
      else case currentTime clock of
        Inl e \<Rightarrow> (Inl e, db)
      | Inr now \<Rightarrow> Repo_RevokeToken ctx env userID tokenID now db)"

section \<open>Login planning\<close>

record KickTarget =
  kt_UserID :: bytes
  kt_DeviceID :: bytes
  kt_SessionID :: bytes

record LoginPlan =
  lp_Binding :: SessionBinding
  lp_KickTargets :: "KickTarget list"

text \<open>Lookup \<open>n\<close> of a plan has its own transaction and sees the tables \<open>dbs n\<close>.\<close>

fun plan_targets ::
  "goContext \<Rightarrow> (nat \<Rightarrow> dbEnv) \<Rightarrow> nat \<Rightarrow> (nat \<Rightarrow> authdb) \<Rightarrow> bytes \<Rightarrow> KickTarget list \<Rightarrow> KickTarget list \<Rightarrow> (authCode, KickTarget list) result" where
  "plan_targets ctx envs n dbs userID targets [] = Inr targets"
| "plan_targets ctx envs n dbs userID targets (target # rest) =
     (if \<not> validIdentifier (kt_UserID target) \<or> \<not> validIdentifier (kt_DeviceID target) \<or>
         \<not> validIdentifier (kt_SessionID target) then Inl AuthPolicyInvalid
      else if kt_UserID target \<noteq> userID then Inl AuthForbidden
      else if target \<in> set targets then Inl AuthPolicyInvalid
      else (case Repo_LookupSession ctx (envs n) (kt_SessionID target) (dbs n) of
          Inl e \<Rightarrow> if e = AuthStorageUnavailable then Inl AuthStorageUnavailable else Inl AuthPolicyInvalid
        | Inr snapshot \<Rightarrow>
            if sb_UserID (sn_binding snapshot) \<noteq> kt_UserID target \<or> sb_DeviceID (sn_binding snapshot) \<noteq> kt_DeviceID target
            then Inl AuthForbidden
            else plan_targets ctx envs (Suc n) dbs userID (targets @ [target]) rest))"

text \<open>The policy is \<open>None\<close> when none was injected; its own error is \<open>None\<close> too, inside.\<close>

definition PlanLogin ::
  "goContext \<Rightarrow> (nat \<Rightarrow> dbEnv) \<Rightarrow> (SessionBinding \<Rightarrow> KickTarget list option) option \<Rightarrow> SessionBinding \<Rightarrow> (nat \<Rightarrow> authdb) \<Rightarrow>
   (authCode, LoginPlan) result" where
  "PlanLogin ctx envs policy binding dbs =
     (case policy of
        None \<Rightarrow> Inl AuthPolicyRequired
      | Some decide \<Rightarrow>
          if ctx = None \<or> \<not> Binding_Valid binding then Inl AuthInvalidInput
          else (case decide binding of
              None \<Rightarrow> Inl AuthPolicyInvalid
            | Some kicks \<Rightarrow>
                if 100 < length kicks then Inl AuthPolicyInvalid
                else bindR (plan_targets ctx envs 0 dbs (sb_UserID binding) [] kicks) (\<lambda>targets.
                  bindR (Repo_LookupSession ctx (envs (length kicks)) (sb_SessionID binding) (dbs (length kicks))) (\<lambda>current.
                    if sb_UserID (sn_binding current) \<noteq> sb_UserID binding \<or>
                       sb_DeviceID (sn_binding current) \<noteq> sb_DeviceID binding then Inl AuthForbidden
                    else if sn_revokedAt current \<noteq> None then Inl AuthSessionRevoked
                    else Inr \<lparr>lp_Binding = binding, lp_KickTargets = targets\<rparr>))))"

end
