(* ===== verification/AuthFacts.thy ===== *)
theory AuthFacts
  imports AuthService
begin

text \<open>
  What the session service guarantees: an invariant of its tables, revocation for ever, the exact condition under which
  a bearer token is accepted, and that a token just issued is accepted until it expires.
\<close>

section \<open>What one transaction does to the tables\<close>

text \<open>Every operation leaves the tables as they are or makes one of three changes.\<close>

inductive auth_change :: "authdb \<Rightarrow> authdb \<Rightarrow> bool" where
  same: "auth_change db db"
| insert: "insertToken db tokenID row = Inserted db' \<Longrightarrow> tk_revoked row = None \<Longrightarrow>
    map_of (db_sessions db) (tk_session row) = Some ses \<Longrightarrow> ss_revoked ses = None \<Longrightarrow> auth_change db db'"
| tokens: "revokeRows sel at db = Some db' \<Longrightarrow> auth_change db db'"
| session: "revokeRows (\<lambda>k r. tk_session r = sid) at (revokeSessionRow sid at db) = Some db' \<Longrightarrow> auth_change db db'"

lemma finish_change: "auth_change db db' \<Longrightarrow> finish env e db db' x = (r, d) \<Longrightarrow> auth_change db d"
  by (auto simp: finish_def intro: same split: commitOutcome.splits)

lemma Repo_Issue_change:
  assumes "Repo_Issue ctx env binding generate s db = (r, s', d)"
  shows "auth_change db d"
  using assms
  by (auto simp: Repo_Issue_def same elim!: finish_change [rotated]
      split: if_splits option.splits prod.splits sum.splits insertOutcome.splits) (erule insert; simp)

lemma Repo_RevokeBearer_change: "Repo_RevokeBearer ctx env i verify at db = (r, d) \<Longrightarrow> auth_change db d"
  by (auto simp: Repo_RevokeBearer_def Let_def intro: same finish_change tokens split: if_splits option.splits prod.splits sum.splits)

lemma Repo_RevokeToken_change: "Repo_RevokeToken ctx env u i at db = (r, d) \<Longrightarrow> auth_change db d"
  by (auto simp: Repo_RevokeToken_def Let_def intro: same finish_change tokens split: if_splits option.splits prod.splits sum.splits)

lemma Repo_RevokeSession_change: "Repo_RevokeSession ctx env b at db = (r, d) \<Longrightarrow> auth_change db d"
  by (auto simp: Repo_RevokeSession_def Let_def intro: same finish_change tokens session
      split: if_splits option.splits prod.splits sum.splits)

text \<open>A collision leaves the tables alone, so the attempts of \<^verbatim>\<open>Issue\<close> together make one change.\<close>

lemma Repo_Issue_collision:
  assumes "Repo_Issue ctx env binding generate s db = (Inl AuthTokenCollision, s', d)"
  shows "d = db"
  using assms
  by (auto simp: Repo_Issue_def finish_def split: if_splits option.splits prod.splits sum.splits
      insertOutcome.splits commitOutcome.splits)

lemma issue_loop_change: "issue_loop n ctx envs clock b ttl entropy db = (r, e', d) \<Longrightarrow> auth_change db d"
proof (induction n arbitrary: entropy)
  case (Suc n)
  then show ?case
    by (auto dest: Repo_Issue_collision intro: Repo_Issue_change split: prod.splits sum.splits if_splits)
qed (simp add: same)

section \<open>Runs of the service\<close>

text \<open>Every operation is a step; so is one attempt of \<^verbatim>\<open>Issue\<close>, since others may come between two attempts.\<close>

inductive auth_step :: "authdb \<Rightarrow> authdb \<Rightarrow> bool" where
  Issue: "Auth_Issue ctx envs clock binding ttl entropy db = (r, entropy', db') \<Longrightarrow> auth_step db db'"
| Attempt: "Repo_Issue ctx env binding (generateAt now ttl) entropy db = (r, entropy', db') \<Longrightarrow> auth_step db db'"
| Bearer: "RevokeBearer ctx env now raw db = (q, db') \<Longrightarrow> auth_step db db'"
| Session: "Auth_RevokeSession ctx env now binding db = (q, db') \<Longrightarrow> auth_step db db'"
| Token: "Auth_RevokeToken ctx env now userID tokenID db = (q, db') \<Longrightarrow> auth_step db db'"

lemma auth_step_change: "auth_step db db' \<Longrightarrow> auth_change db db'"
proof (induction rule: auth_step.induct)
  case Issue
  then show ?case by (auto simp: Auth_Issue_def intro: same issue_loop_change split: if_splits)
next
  case Attempt
  then show ?case by (rule Repo_Issue_change)
next
  case Bearer
  then show ?case by (auto simp: RevokeBearer_def intro: same Repo_RevokeBearer_change split: if_splits sum.splits)
next
  case Session
  then show ?case by (auto simp: Auth_RevokeSession_def intro: same Repo_RevokeSession_change split: if_splits sum.splits)
next
  case Token
  then show ?case by (auto simp: Auth_RevokeToken_def intro: same Repo_RevokeToken_change split: if_splits sum.splits)
qed

text \<open>The invariant of a token row in a database.\<close>

definition tokenRowOK :: "authdb \<Rightarrow> bytes \<Rightarrow> token_row \<Rightarrow> bool" where
  "tokenRowOK db k r \<longleftrightarrow> validTokenID k \<and> length (tk_digest r) = 32 \<and> tk_created r < tk_expires r \<and>
     (case tk_revoked r of None \<Rightarrow> True | Some t \<Rightarrow> tk_created r \<le> t) \<and>
     (case map_of (db_sessions db) (tk_session r) of
        None \<Rightarrow> False
      | Some ses \<Rightarrow> ss_revoked ses \<noteq> None \<longrightarrow> tk_revoked r \<noteq> None)"

definition authInv :: "authdb \<Rightarrow> bool" where
  "authInv db \<longleftrightarrow> distinct (map fst (db_sessions db)) \<and> distinct (map fst (db_tokens db)) \<and>
     distinct (map (\<lambda>(k, r). tk_digest r) (db_tokens db)) \<and> list_all (\<lambda>(k, r). tokenRowOK db k r) (db_tokens db)"

lemma insertToken_inv:
  assumes "insertToken db tokenID row = Inserted db'" "tk_revoked row = None"
    "map_of (db_sessions db) (tk_session row) = Some ses" "ss_revoked ses = None" "authInv db"
  shows "authInv db'"
proof -
  have d: "db' = db\<lparr>db_tokens := (tokenID, row) # db_tokens db\<rparr>" "validTokenID tokenID" "length (tk_digest row) = 32"
    "tk_created row < tk_expires row" "tokenID \<notin> fst ` set (db_tokens db)"
    "tk_digest row \<notin> (\<lambda>(k, r). tk_digest r) ` set (db_tokens db)"
    using assms(1) by (auto simp: insertToken_def map_of_eq_None_iff split: if_splits)
  have "tokenRowOK db' k r \<longleftrightarrow> tokenRowOK db k r" for k r by (simp add: d(1) tokenRowOK_def)
  moreover have "tokenRowOK db tokenID row" using assms d by (simp add: tokenRowOK_def)
  ultimately show ?thesis using assms(5) d by (simp add: authInv_def)
qed

lemma mapRows_digests:
  assumes "\<And>k r. tk_digest (f k r) = tk_digest r"
  shows "map (\<lambda>(k, r). tk_digest r) (mapRows f t) = map (\<lambda>(k, r). tk_digest r) t"
  using assms by (auto simp: mapRows_def)

lemma list_all_mapRows: "list_all (\<lambda>(k, r). P k r) (mapRows f t) \<longleftrightarrow> list_all (\<lambda>(k, r). P k (f k r)) t"
  by (auto simp: mapRows_def list_all_iff)

lemma revoked_row_ok:
  assumes "tokenRowOK db k r \<or> sel \<and> tk_revoked r = None \<and> tokenRowOK db k (r\<lparr>tk_revoked := Some (tk_created r)\<rparr>)"
    "sel \<and> tk_revoked r = None \<longrightarrow> tk_created r \<le> t"
  shows "tokenRowOK db k (if sel \<and> tk_revoked r = None then r\<lparr>tk_revoked := Some t\<rparr> else r)"
  using assms by (cases "tk_revoked r") (auto simp: tokenRowOK_def split: option.splits)

lemma revokeRows_inv:
  assumes "revokeRows sel at db = Some db'" "distinct (map fst (db_sessions db))" "distinct (map fst (db_tokens db))"
    "distinct (map (\<lambda>(k, r). tk_digest r) (db_tokens db))"
    "list_all (\<lambda>(k, r). tokenRowOK db k r \<or> sel k r \<and> tk_revoked r = None \<and>
       tokenRowOK db k (r\<lparr>tk_revoked := Some (tk_created r)\<rparr>)) (db_tokens db)"
  shows "authInv db'"
proof -
  define f where "f k r = (if sel k r \<and> tk_revoked r = None then r\<lparr>tk_revoked := Some (truncMicro at)\<rparr> else r)" for k r
  have c: "list_all (\<lambda>(k, r). sel k r \<and> tk_revoked r = None \<longrightarrow> tk_created r \<le> truncMicro at) (db_tokens db)"
    "db' = db\<lparr>db_tokens := mapRows f (db_tokens db)\<rparr>"
    using assms(1) by (auto simp: revokeRows_def f_def [abs_def] split: if_splits)
  have "tokenRowOK db' = tokenRowOK db" by (intro ext) (simp add: c(2) tokenRowOK_def)
  moreover have "tokenRowOK db k (f k r)" if "(k, r) \<in> set (db_tokens db)" for k r
    unfolding f_def using that c(1) assms(5) by (intro revoked_row_ok) (auto simp: list_all_iff)
  ultimately have "list_all (\<lambda>(k, r). tokenRowOK db' k (f k r)) (db_tokens db)" by (auto simp: list_all_iff)
  then show ?thesis using assms(2-4) c(2) by (simp add: authInv_def list_all_mapRows mapRows_digests f_def)
qed


lemma revokeSessionRow_tokens: "db_tokens (revokeSessionRow sid at db) = db_tokens db"
  by (simp add: revokeSessionRow_def)

lemma revokeSession_inv:
  assumes "authInv db" "revokeRows (\<lambda>k r. tk_session r = sid) at (revokeSessionRow sid at db) = Some db'"
  shows "authInv db'"
proof (rule revokeRows_inv [OF assms(2)])
  let ?db = "revokeSessionRow sid at db"
  have "tokenRowOK ?db k r \<or> tk_session r = sid \<and> tk_revoked r = None \<and>
      tokenRowOK ?db k (r\<lparr>tk_revoked := Some (tk_created r)\<rparr>)" if "tokenRowOK db k r" for k r
    using that by (cases "tk_revoked r") (auto simp: tokenRowOK_def revokeSessionRow_def split: option.splits)
  then show "list_all (\<lambda>(k, r). tokenRowOK ?db k r \<or> tk_session r = sid \<and> tk_revoked r = None \<and>
      tokenRowOK ?db k (r\<lparr>tk_revoked := Some (tk_created r)\<rparr>)) (db_tokens ?db)"
    using assms(1) by (fastforce simp: authInv_def list_all_iff revokeSessionRow_tokens)
qed (use assms(1) in \<open>simp_all add: authInv_def revokeSessionRow_def\<close>)

lemma auth_change_inv: "auth_change db db' \<Longrightarrow> authInv db \<Longrightarrow> authInv db'"
proof (induction rule: auth_change.induct)
  case (tokens sel at db db')
  then show ?case by (intro revokeRows_inv [OF tokens(1)]) (auto simp: authInv_def list_all_iff)
qed (auto intro: insertToken_inv revokeSession_inv)

section \<open>Revocation is for ever\<close>

text \<open>A token is out of service when it, or its session, carries a revocation time; the time is part of the latch.\<close>

definition revokedAt :: "authdb \<Rightarrow> bytes \<times> instant \<Rightarrow> bool" where
  "revokedAt db = (\<lambda>(tokenID, at). case map_of (db_tokens db) tokenID of None \<Rightarrow> False | Some r \<Rightarrow> tk_revoked r = Some at)"

lemma revokeRows_lookup:
  assumes "revokeRows sel at db = Some db'"
  shows "map_of (db_tokens db') k = map_option (\<lambda>r. if sel k r \<and> tk_revoked r = None
      then r\<lparr>tk_revoked := Some (truncMicro at)\<rparr> else r) (map_of (db_tokens db) k)"
    "db_sessions db' = db_sessions db"
  using assms by (auto simp: revokeRows_def split: if_splits)

lemma revokedAt_change: "auth_change db db' \<Longrightarrow> revokedAt db k \<Longrightarrow> revokedAt db' k"
proof (induction rule: auth_change.induct)
  case (insert db tokenID row db')
  then show ?case by (auto simp: revokedAt_def insertToken_def split: if_splits prod.splits)
next
  case (tokens sel at db db')
  then show ?case by (auto simp: revokedAt_def revokeRows_lookup split: prod.splits option.splits)
next
  case (session sid at db db')
  then show ?case by (auto simp: revokedAt_def revokeRows_lookup revokeSessionRow_tokens split: prod.splits option.splits)
qed

definition sessionRevoked :: "authdb \<Rightarrow> bytes \<Rightarrow> bool" where
  "sessionRevoked db sid \<longleftrightarrow> (case map_of (db_sessions db) sid of None \<Rightarrow> False | Some ses \<Rightarrow> ss_revoked ses \<noteq> None)"

lemma sessionRevoked_row: "sessionRevoked (revokeSessionRow i at db) sid \<longleftrightarrow>
    sessionRevoked db sid \<or> i = sid \<and> map_of (db_sessions db) sid \<noteq> None"
  by (auto simp: sessionRevoked_def revokeSessionRow_def split: option.splits)

lemma sessionRevoked_change: "auth_change db db' \<Longrightarrow> sessionRevoked db sid \<Longrightarrow> sessionRevoked db' sid"
proof (induction rule: auth_change.induct)
  case (insert db tokenID row db')
  then show ?case by (auto simp: sessionRevoked_def insertToken_def split: if_splits)
next
  case (session i at db db')
  have "sessionRevoked (revokeSessionRow i at db) sid" using session by (simp add: sessionRevoked_row)
  then show ?case using revokeRows_lookup(2) [OF session(1)] by (simp add: sessionRevoked_def)
qed (simp_all add: sessionRevoked_def revokeRows_lookup(2))

interpretation auth_runs: store_runs auth_step authInv
  by unfold_locales (auto intro: auth_change_inv auth_step_change)

interpretation auth_latch: store_latch auth_step authInv revokedAt
  by unfold_locales (auto intro: revokedAt_change auth_step_change)

interpretation session_latch: store_latch auth_step authInv sessionRevoked
  by unfold_locales (auto intro: sessionRevoked_change auth_step_change)


section \<open>Authentication\<close>

definition readEnv :: "dbEnv \<Rightarrow> bool" where
  "readEnv env \<longleftrightarrow> \<not> env_begin env \<and> \<not> env_stmt env 0 \<and> \<not> env_stmt env 1 \<and> \<not> env_stmt env 2 \<and> env_commit env = Committed"

lemma readSnapshot_iff:
  "\<not> env_begin env \<and> env_commit env = Committed \<and> readSnapshot env tokenID db = Inr snap \<longleftrightarrow>
     readEnv env \<and> (\<exists>tok ses. map_of (db_tokens db) tokenID = Some tok \<and> map_of (db_sessions db) (tk_session tok) = Some ses \<and>
       NewTokenSnapshot tokenID (tk_digest tok)
         \<lparr>sb_UserID = ss_user ses, sb_DeviceID = ss_device ses, sb_SessionID = tk_session tok\<rparr>
         (tk_expires tok) (tk_revoked tok) (ss_revoked ses) = Inr snap)"
  by (auto simp: readSnapshot_def readEnv_def split: option.splits)

text \<open>A row of a token in service, with the binding of its session.\<close>

definition inService :: "authdb \<Rightarrow> bytes \<Rightarrow> bytes \<Rightarrow> instant \<Rightarrow> SessionBinding \<Rightarrow> instant \<Rightarrow> bool" where
  "inService db tokenID digest now binding expires \<longleftrightarrow>
     (case map_of (db_tokens db) tokenID of None \<Rightarrow> False
      | Some tok \<Rightarrow> (case map_of (db_sessions db) (tk_session tok) of None \<Rightarrow> False
        | Some ses \<Rightarrow> tk_digest tok = digest \<and> length digest = 32 \<and> tk_revoked tok = None \<and> ss_revoked ses = None \<and>
            binding = \<lparr>sb_UserID = ss_user ses, sb_DeviceID = ss_device ses, sb_SessionID = tk_session tok\<rparr> \<and>
            Binding_Valid binding \<and> expires = tk_expires tok \<and> expires \<noteq> zeroTime \<and> now < expires \<and> now \<noteq> zeroTime))"

lemma NewTokenSnapshot_iff:
  "NewTokenSnapshot i d b e t s = Inr snap \<longleftrightarrow> validTokenID i \<and> length d = 32 \<and> Binding_Valid b \<and> e \<noteq> zeroTime \<and>
     snap = \<lparr>ts_tokenID = i, ts_digest = d, ts_binding = b, ts_expiresAt = e, ts_tokenRevokedAt = t, ts_sessionRevokedAt = s\<rparr>"
  by (auto simp: NewTokenSnapshot_def)

lemma inService_iff:
  "inService db tokenID digest now b e \<longleftrightarrow>
     (\<exists>tok ses. map_of (db_tokens db) tokenID = Some tok \<and> map_of (db_sessions db) (tk_session tok) = Some ses \<and>
        tk_digest tok = digest \<and> length digest = 32 \<and> tk_revoked tok = None \<and> ss_revoked ses = None \<and>
        b = \<lparr>sb_UserID = ss_user ses, sb_DeviceID = ss_device ses, sb_SessionID = tk_session tok\<rparr> \<and>
        Binding_Valid b \<and> e = tk_expires tok \<and> e \<noteq> zeroTime \<and> now < e \<and> now \<noteq> zeroTime)"
  by (simp add: inService_def split: option.splits)

lemma Repo_Authenticate_iff:
  "Repo_Authenticate ctx env tokenID verify db = Inr x \<longleftrightarrow>
     ctx \<noteq> None \<and> validTokenID tokenID \<and>
     (\<exists>snap. (\<not> env_begin env \<and> env_commit env = Committed \<and> readSnapshot env tokenID db = Inr snap) \<and> verify snap = Inr x)"
  by (auto simp: Repo_Authenticate_def bindR_eq_Inr split: if_splits)

lemma parseRawToken_id: "parseRawToken raw = Inr (tokenID, digest) \<Longrightarrow> validTokenID tokenID \<and> digest = sha256 raw"
  by (auto simp: parseRawToken_def Let_def split: if_splits option.splits)

lemma verifyBearer_iff:
  "verifyBearer digest now snap = Inr (b, e) \<longleftrightarrow> ts_digest snap = digest \<and> ts_tokenRevokedAt snap = None \<and>
     ts_sessionRevokedAt snap = None \<and> now \<noteq> zeroTime \<and> now < e \<and> b = ts_binding snap \<and> e = ts_expiresAt snap"
  by (auto simp: verifyBearer_def VerifyDigest_def currentTime_def bindR_eq_Inr split: if_splits)

lemma verifyBound_iff:
  "verifyBound digest b now snap = Inr u \<longleftrightarrow> verifyBearer digest now snap = Inr (b, ts_expiresAt snap)"
  by (auto simp: verifyBound_def verifyBearer_def VerifyDigest_def currentTime_def bindR_eq_Inr split: if_splits)

lemma newBearerSession_iff:
  "newBearerSession b tokenID e = Inr bs \<longleftrightarrow> Binding_Valid b \<and> validTokenID tokenID \<and> e \<noteq> zeroTime \<and>
     b = bs_binding bs \<and> tokenID = bs_tokenID bs \<and> e = bs_expiresAt bs"
  by (cases bs) (auto simp: newBearerSession_def)

lemma Repo_bearer_iff:
  assumes "validTokenID tokenID"
  shows "Repo_Authenticate ctx env tokenID (verifyBearer digest now) db = Inr (b, e) \<longleftrightarrow>
     ctx \<noteq> None \<and> readEnv env \<and> inService db tokenID digest now b e"
  unfolding Repo_Authenticate_iff readSnapshot_iff verifyBearer_iff
    NewTokenSnapshot_iff inService_iff
  using assms by fastforce

lemma Repo_bound_iff:
  assumes "validTokenID tokenID"
  shows "Repo_Authenticate ctx env tokenID (verifyBound digest b now) db = Inr u \<longleftrightarrow>
     ctx \<noteq> None \<and> readEnv env \<and> (\<exists>e. inService db tokenID digest now b e)"
  unfolding Repo_Authenticate_iff readSnapshot_iff verifyBound_iff verifyBearer_iff
    NewTokenSnapshot_iff inService_iff
  using assms by fastforce

lemma bearer_accepts_iff:
  "AuthenticateBearer ctx env now raw db = Inr bs \<longleftrightarrow>
     ctx \<noteq> None \<and> readEnv env \<and> parseRawToken raw = Inr (bs_tokenID bs, sha256 raw) \<and>
     inService db (bs_tokenID bs) (sha256 raw) now (bs_binding bs) (bs_expiresAt bs)"
proof (cases "parseRawToken raw")
  case (Inr p)
  then obtain tokenID digest where p: "parseRawToken raw = Inr (tokenID, digest)" by (cases p) auto
  then have v: "validTokenID tokenID" "digest = sha256 raw" using parseRawToken_id by auto
  have "AuthenticateBearer ctx env now raw db = Inr bs \<longleftrightarrow> ctx \<noteq> None \<and>
      (\<exists>b e. Repo_Authenticate ctx env tokenID (verifyBearer digest now) db = Inr (b, e) \<and>
         newBearerSession b tokenID e = Inr bs)"
    by (auto simp: AuthenticateBearer_def p bindR_eq_Inr)
  also have "\<dots> \<longleftrightarrow> ctx \<noteq> None \<and> readEnv env \<and> bs_tokenID bs = tokenID \<and>
      inService db tokenID digest now (bs_binding bs) (bs_expiresAt bs)"
    unfolding Repo_bearer_iff [OF v(1)] newBearerSession_iff using v(1) by (auto simp: inService_iff)
  finally show ?thesis using p v by auto
qed (simp add: AuthenticateBearer_def)


lemma inService_not_revoked:
  "inService db tokenID digest now b e \<Longrightarrow> \<not> revokedAt db (tokenID, at)"
  "inService db tokenID digest now b e \<Longrightarrow> \<not> sessionRevoked db (sb_SessionID b)"
  by (auto simp: inService_iff revokedAt_def sessionRevoked_def)

lemma Auth_Authenticate_service:
  assumes "Auth_Authenticate ctx env now request db = Inr ci"
  shows "\<exists>e. inService db (ci_tokenID ci) (sha256 (ar_Token request)) now (ar_Binding request) e"
    "parseRawToken (ar_Token request) = Inr (ci_tokenID ci, sha256 (ar_Token request))"
proof -
  obtain tokenID digest where p: "parseRawToken (ar_Token request) = Inr (tokenID, digest)"
    "Repo_Authenticate ctx env tokenID (verifyBound digest (ar_Binding request) now) db = Inr ()"
    "NewConnectionIdentity (sb_UserID (ar_Binding request)) (sb_DeviceID (ar_Binding request))
            (sb_SessionID (ar_Binding request)) (ar_ConnectionID request) tokenID = Inr ci"
    using assms by (auto simp: Auth_Authenticate_def bindR_eq_Inr split: if_splits)
  note v = parseRawToken_id [OF p(1)]
  have "ci_tokenID ci = tokenID" using p(3) by (auto simp: NewConnectionIdentity_def split: if_splits)
  then show "\<exists>e. inService db (ci_tokenID ci) (sha256 (ar_Token request)) now (ar_Binding request) e"
    "parseRawToken (ar_Token request) = Inr (ci_tokenID ci, sha256 (ar_Token request))"
    using p v Repo_bound_iff by blast+
qed

section \<open>Revocations take hold\<close>

definition sampleBinding :: SessionBinding where
  "sampleBinding = \<lparr>sb_UserID = ''alice'', sb_DeviceID = ''phone'', sb_SessionID = ''s1''\<rparr>"

definition sampleRaw :: bytes where
  "sampleRaw = rawToken (replicate 16 (CHR ''a'')) (replicate 32 (CHR ''b''))"

definition sampleTokenID :: bytes where
  "sampleTokenID = hex_encode (replicate 16 (CHR ''a''))"

definition sampleAuthDb :: authdb where
  "sampleAuthDb = \<lparr>
     db_sessions = [(''s1'', \<lparr>ss_user = ''alice'', ss_device = ''phone'', ss_revoked = None\<rparr>),
                    (''s2'', \<lparr>ss_user = ''alice'', ss_device = ''tablet'', ss_revoked = None\<rparr>)],
     db_tokens = [(sampleTokenID, \<lparr>tk_digest = sha256 sampleRaw, tk_session = ''s1'', tk_created = 0,
                    tk_expires = 60 * minute, tk_revoked = None\<rparr>)]\<rparr>"

lemma sampleRaw_parses: "parseRawToken sampleRaw = Inr (sampleTokenID, sha256 sampleRaw)"
  by (simp add: sampleRaw_def sampleTokenID_def rawToken_parses(1))

lemma sampleTokenID_valid: "validTokenID sampleTokenID"
  by (simp add: sampleTokenID_def validTokenID_hex)

lemma sampleBinding_valid: "Binding_Valid sampleBinding"
  unfolding Binding_Valid_def sampleBinding_def by code_simp

lemma sampleAuthDb_inv: "authInv sampleAuthDb"
  using sampleTokenID_valid by (simp add: authInv_def sampleAuthDb_def tokenRowOK_def minute_def)

lemma sample_revokes_session:
  "fst (Auth_RevokeSession (Some False) goodEnv 1000 sampleBinding sampleAuthDb) = Inr RevokeOK"
  using sampleBinding_valid
  by (simp add: Auth_RevokeSession_def Repo_RevokeSession_def currentTime_def zeroTime_def Let_def revokeRows_def
      sampleAuthDb_def sampleBinding_def revokeSessionRow_def mapRows_def truncMicro_def)

lemma sample_revokes_bearer: "fst (RevokeBearer (Some False) goodEnv 1000 sampleRaw sampleAuthDb) = Inr RevokeOK"
  using sampleTokenID_valid sampleBinding_valid
  by (simp add: RevokeBearer_def sampleRaw_parses Repo_RevokeBearer_def readSnapshot_def NewTokenSnapshot_def VerifyDigest_def
      currentTime_def zeroTime_def Let_def revokeRows_def sampleAuthDb_def sampleBinding_def truncMicro_def minute_def)

lemma Auth_RevokeSession_revokes:
  assumes "Auth_RevokeSession ctx env now binding db = (Inr outcome, db')"
  shows "sessionRevoked db' (sb_SessionID binding)"
proof -
  let ?sid = "sb_SessionID binding"
  obtain row where r: "map_of (db_sessions db) ?sid = Some row"
    "revokeRows (\<lambda>k r. tk_session r = ?sid) now (if ss_revoked row = None then revokeSessionRow ?sid now db else db) = Some db'"
    using assms by (auto simp: Auth_RevokeSession_def Repo_RevokeSession_def Let_def currentTime_def
        split: if_splits option.splits)
  then show ?thesis using revokeRows_lookup(2) [OF r(2)] by (auto simp: sessionRevoked_def revokeSessionRow_def)
qed

lemma Repo_RevokeBearer_revokes:
  assumes "Repo_RevokeBearer ctx env tokenID verify now db = (Inr outcome, db')"
  shows "\<exists>at. revokedAt db' (tokenID, at)"
proof -
  obtain snap where r: "readSnapshot env tokenID db = Inr snap"
    "if ts_tokenRevokedAt snap = None then revokeRows (\<lambda>k r. k = tokenID) now db = Some db' else db' = db"
    using assms by (auto simp: Repo_RevokeBearer_def Let_def split: if_splits sum.splits option.splits)
  then obtain tok where t: "map_of (db_tokens db) tokenID = Some tok" "ts_tokenRevokedAt snap = tk_revoked tok"
    by (auto simp: readSnapshot_def NewTokenSnapshot_iff split: if_splits option.splits)
  show ?thesis
    using r(2) t by (cases "tk_revoked tok") (auto simp: revokedAt_def revokeRows_lookup)
qed

text \<open>
  C27. \<^verbatim>\<open>AuthenticateBearer\<close> accepts a raw token exactly when it is well formed, its row holds the SHA-256 digest of the
  presented text, neither the token nor its session is revoked, and the clock is before the stored expiry. The session
  it reports is the one the tables bind the token to: nothing of it comes from the request.
\<close>

theorem AuthenticateBearer_iff:
  "AuthenticateBearer ctx env now raw db = Inr bs \<longleftrightarrow>
     ctx \<noteq> None \<and> readEnv env \<and> parseRawToken raw = Inr (bs_tokenID bs, sha256 raw) \<and>
     inService db (bs_tokenID bs) (sha256 raw) now (bs_binding bs) (bs_expiresAt bs)"
  by (rule bearer_accepts_iff)

text \<open>
  C26. When \<^verbatim>\<open>RevokeSession\<close> returns without an error, the session is out for good: whatever operations of the service
  run afterwards, with whatever database failures, no bearer token and no connection attempt authenticates into that
  session again.
\<close>

theorem revoke_session_final:
  assumes "authInv db" "Auth_RevokeSession ctx env now binding db = (Inr outcome, db1)" "auth_step\<^sup>*\<^sup>* db1 db2"
  shows "(AuthenticateBearer ctx' env' now' raw db2 = Inr bs \<longrightarrow> sb_SessionID (bs_binding bs) \<noteq> sb_SessionID binding) \<and>
    (sb_SessionID (ar_Binding request) = sb_SessionID binding \<longrightarrow> \<not> is_ok (Auth_Authenticate ctx' env' now' request db2))"
proof (intro conjI impI)
  have "authInv db1" using assms(1,2) by (auto intro: auth_runs.inv_step auth_step.Session)
  then have s: "sessionRevoked db2 (sb_SessionID binding)"
    using session_latch.latch_runs [OF assms(3)] Auth_RevokeSession_revokes [OF assms(2)] by blast
  show "AuthenticateBearer ctx' env' now' raw db2 = Inr bs \<Longrightarrow> sb_SessionID (bs_binding bs) \<noteq> sb_SessionID binding"
    using s inService_not_revoked(2) unfolding bearer_accepts_iff by metis
  show "\<not> is_ok (Auth_Authenticate ctx' env' now' request db2)"
    if "sb_SessionID (ar_Binding request) = sb_SessionID binding"
    using s that Auth_Authenticate_service(1) inService_not_revoked(2) by (fastforce simp: is_ok_iff)
qed

theorem revoke_session_final_witness:
  "\<not> is_ok (Auth_Authenticate (Some False) goodEnv 2000
     \<lparr>ar_Token = sampleRaw, ar_Binding = sampleBinding, ar_ConnectionID = ''n1''\<rparr>
     (snd (Auth_RevokeSession (Some False) goodEnv 1000 sampleBinding sampleAuthDb)))"
  using revoke_session_final [OF sampleAuthDb_inv pair_of_fst [OF sample_revokes_session] rtranclp.rtrancl_refl,
      where request = "\<lparr>ar_Token = sampleRaw, ar_Binding = sampleBinding, ar_ConnectionID = ''n1''\<rparr>"]
  by simp

text \<open>
  C35. When \<^verbatim>\<open>RevokeBearer\<close> returns without an error, the presented token carries a revocation time that no later
  operation rewrites, and it never authenticates again, neither as a bearer nor for a connection.
\<close>

theorem revoke_bearer_final:
  assumes "authInv db" "RevokeBearer ctx env now raw db = (Inr outcome, db1)" "auth_step\<^sup>*\<^sup>* db1 db2"
  shows "\<not> is_ok (AuthenticateBearer ctx' env' now' raw db2) \<and>
    (ar_Token request = raw \<longrightarrow> \<not> is_ok (Auth_Authenticate ctx' env' now' request db2)) \<and>
    (\<exists>tokenID at. parseRawToken raw = Inr (tokenID, sha256 raw) \<and> revokedAt db1 (tokenID, at) \<and> revokedAt db2 (tokenID, at))"
proof -
  have i: "authInv db1" using assms(1,2) by (auto intro: auth_runs.inv_step auth_step.Bearer)
  obtain tokenID digest where p: "parseRawToken raw = Inr (tokenID, digest)"
    using assms(2) by (auto simp: RevokeBearer_def split: if_splits sum.splits)
  obtain at where r: "revokedAt db1 (tokenID, at)"
    using assms(2) p by (auto simp: RevokeBearer_def split: if_splits sum.splits dest: Repo_RevokeBearer_revokes)
  have r2: "revokedAt db2 (tokenID, at)" using auth_latch.latch_runs [OF assms(3) i r] .
  have b: "AuthenticateBearer ctx' env' now' raw db2 \<noteq> Inr bs" for bs
    using r2 p inService_not_revoked(1) unfolding bearer_accepts_iff by fastforce
  have a: "Auth_Authenticate ctx' env' now' request db2 \<noteq> Inr ci" if "ar_Token request = raw" for ci
    using r2 p that Auth_Authenticate_service inService_not_revoked(1) by fastforce
  show ?thesis using p r r2 a b parseRawToken_id [OF p] by (auto simp: is_ok_iff)
qed

theorem revoke_bearer_final_witness:
  "\<not> is_ok (AuthenticateBearer (Some False) goodEnv 2000 sampleRaw
     (snd (RevokeBearer (Some False) goodEnv 1000 sampleRaw sampleAuthDb)))"
  using revoke_bearer_final [OF sampleAuthDb_inv pair_of_fst [OF sample_revokes_bearer]
      rtranclp.rtrancl_refl, of "Some False" goodEnv 2000]
  by simp

text \<open>
  C37. The tables stay well formed in every run of the service, whatever its database does: keys and digests are unique,
  every token belongs to a stored session and expires after it was created, no revocation precedes the creation, and a
  revoked session has no live token.
\<close>

theorem auth_tables_wellformed:
  assumes "authInv db" "auth_step\<^sup>*\<^sup>* db db'"
  shows "authInv db'"
  using auth_runs.inv_runs [OF assms(2,1)] .

theorem auth_tables_wellformed_witness:
  "authInv (snd (RevokeBearer (Some False) goodEnv 1000 sampleRaw sampleAuthDb))"
  by (rule auth_tables_wellformed [OF sampleAuthDb_inv r_into_rtranclp, OF auth_step.Bearer [OF surjective_pairing]])

section \<open>Issued tokens work\<close>

lemma truncMicro_le: "truncMicro t \<le> t"
  using minus_mod_eq_div_mult [of t 1000] pos_mod_sign [of 1000 t] by (simp add: truncMicro_def)

lemma truncMicro_idem [simp]: "truncMicro (truncMicro t) = truncMicro t"
  by (simp add: truncMicro_def)

lemma issue_loop_success:
  assumes "issue_loop n ctx envs clock b ttl entropy db = (Inr tok, e', db')"
  shows "\<exists>m ent. Repo_Issue ctx (envs m) b (generateAt (clock m) ttl) ent db = (Inr tok, e', db')"
  using assms
proof (induction n arbitrary: entropy)
  case (Suc n)
  then show ?case
    by (auto dest: Repo_Issue_collision split: prod.splits sum.splits if_splits)
qed simp

lemma Auth_Issue_row:
  assumes "Auth_Issue ctx envs clock b ttl entropy db = (Inr tok, e', db')"
  obtains ses where "map_of (db_sessions db') (sb_SessionID b) = Some ses" "ss_revoked ses = None" "Binding_Valid b"
    "ss_user ses = sb_UserID b" "ss_device ses = sb_DeviceID b"
    "map_of (db_tokens db') (it_tokenID tok) = Some
       \<lparr>tk_digest = sha256 (it_rawToken tok), tk_session = sb_SessionID b, tk_created = truncMicro (it_issuedAt tok),
        tk_expires = truncMicro (it_expiresAt tok), tk_revoked = None\<rparr>"
    "parseRawToken (it_rawToken tok) = Inr (it_tokenID tok, sha256 (it_rawToken tok))"
proof -
  obtain m ent where r: "Repo_Issue ctx (envs m) b (generateAt (clock m) ttl) ent db = (Inr tok, e', db')" "Binding_Valid b"
    using assms issue_loop_success by (fastforce simp: Auth_Issue_def split: if_splits)
  then obtain ses where s: "map_of (db_sessions db) (sb_SessionID b) = Some ses" "ss_revoked ses = None"
      "ss_user ses = sb_UserID b" "ss_device ses = sb_DeviceID b"
    and g: "generateAt (clock m) ttl ent = (Inr tok, e')"
    and ins: "insertToken db (it_tokenID tok) \<lparr>tk_digest = it_digest tok, tk_session = sb_SessionID b,
       tk_created = truncMicro (it_issuedAt tok), tk_expires = truncMicro (it_expiresAt tok), tk_revoked = None\<rparr> = Inserted db'"
    by (auto simp: Repo_Issue_def split: if_splits option.splits sum.splits prod.splits insertOutcome.splits)
  have "generateIssuedToken ent (clock m) ttl = (Inr tok, e')"
    using g by (auto simp: generateAt_def currentTime_def split: if_splits)
  then obtain i sec where t: "length i = 16" "length sec = 32" "it_tokenID tok = hex_encode i" "it_rawToken tok = rawToken i sec"
    "it_digest tok = sha256 (rawToken i sec)"
    by (elim generate_cases) metis
  show thesis
    using that [of ses] s r(2) ins t rawToken_parses(1) [OF t(1,2)] by (auto simp: insertToken_def split: if_splits)
qed


lemma Auth_Issue_accepts:
  assumes "Auth_Issue ctx envs clock b ttl entropy db = (Inr tok, e', db')" "readEnv env" "zeroTime < now"
    "now < truncMicro (it_expiresAt tok)"
  shows "AuthenticateBearer (Some done) env now (it_rawToken tok) db' = Inr
    \<lparr>bs_binding = b, bs_tokenID = it_tokenID tok, bs_expiresAt = truncMicro (it_expiresAt tok)\<rparr>"
  using assms(1)
proof (cases rule: Auth_Issue_row)
  case (1 ses)
  then have "inService db' (it_tokenID tok) (sha256 (it_rawToken tok)) now b (truncMicro (it_expiresAt tok))"
    using assms(3,4) by (simp add: inService_def)
  then show ?thesis using 1 assms(2) by (simp add: bearer_accepts_iff)
qed

lemma generate_fresh:
  assumes "zeroTime < truncMicro now" "MinTTL \<le> ttl" "ttl \<le> MaxTTL" "length i = 16" "length s = 32"
  shows "generateIssuedToken (i @ s @ rest) now ttl = (Inr \<lparr>it_tokenID = hex_encode i, it_rawToken = rawToken i s,
      it_digest = sha256 (rawToken i s), it_issuedAt = truncMicro now, it_expiresAt = truncMicro now + ttl\<rparr>, rest)"
    "truncMicro now < truncMicro (truncMicro now + ttl)" "truncMicro now + ttl \<noteq> zeroTime"
proof -
  have t: "1000000000 \<le> ttl" using assms(2) by (simp add: MinTTL_def second_def)
  then show ne: "truncMicro now + ttl \<noteq> zeroTime" using assms(1) by simp
  have "(truncMicro now + ttl) div 1000 = now div 1000 + ttl div 1000" by (simp add: truncMicro_def)
  then show "truncMicro now < truncMicro (truncMicro now + ttl)" using t by (simp add: truncMicro_def)
  show "generateIssuedToken (i @ s @ rest) now ttl = (Inr \<lparr>it_tokenID = hex_encode i, it_rawToken = rawToken i s,
      it_digest = sha256 (rawToken i s), it_issuedAt = truncMicro now, it_expiresAt = truncMicro now + ttl\<rparr>, rest)"
    using assms t ne truncMicro_le [of now] rawToken_parses(2) [OF assms(4,5)] validTokenID_hex [OF assms(4)]
    by (simp add: generateIssuedToken_def readFull_def newIssuedToken_def Let_def)
qed

text \<open>
  C28. Issuing succeeds and its token is accepted: for an owned, unrevoked session and an unused identifier, a service
  with 48 bytes of entropy and a working database returns a token that \<^verbatim>\<open>AuthenticateBearer\<close> maps to the session's
  binding at every instant before the stored expiry.
\<close>

theorem issue_then_authenticate:
  assumes "Binding_Valid b" "map_of (db_sessions db) (sb_SessionID b) = Some ses" "ss_user ses = sb_UserID b"
    "ss_device ses = sb_DeviceID b" "ss_revoked ses = None" "MinTTL \<le> ttl" "ttl \<le> MaxTTL" "length i = 16" "length s = 32"
    "map_of (db_tokens db) (hex_encode i) = None" "sha256 (rawToken i s) \<notin> set (map (\<lambda>(k, r). tk_digest r) (db_tokens db))"
    "zeroTime < truncMicro t0" "t0 \<le> now" "now < truncMicro (truncMicro t0 + ttl)" "readEnv env"
  shows "\<exists>tok db'. Auth_Issue (Some c) (\<lambda>_. goodEnv) (\<lambda>_. t0) b ttl (i @ s @ rest) db = (Inr tok, rest, db') \<and>
    AuthenticateBearer (Some c') env now (it_rawToken tok) db' =
      Inr \<lparr>bs_binding = b, bs_tokenID = hex_encode i, bs_expiresAt = truncMicro (truncMicro t0 + ttl)\<rparr>"
proof -
  note g = generate_fresh [OF assms(12,6,7,8,9)]
  let ?tok = "\<lparr>it_tokenID = hex_encode i, it_rawToken = rawToken i s,
      it_digest = sha256 (rawToken i s), it_issuedAt = truncMicro t0, it_expiresAt = truncMicro t0 + ttl\<rparr>"
  let ?row = "\<lparr>tk_digest = sha256 (rawToken i s), tk_session = sb_SessionID b, tk_created = truncMicro t0,
      tk_expires = truncMicro (truncMicro t0 + ttl), tk_revoked = None\<rparr>"
  have ins: "insertToken db (hex_encode i) ?row = Inserted (db\<lparr>db_tokens := (hex_encode i, ?row) # db_tokens db\<rparr>)"
    using assms g validTokenID_hex [OF assms(8)] by (simp add: insertToken_def)
  have l: "0 < ttl" using assms(6) by (simp add: MinTTL_def second_def)
  have ne: "hex_encode i \<noteq> []" "rawToken i s \<noteq> []"
    using assms(8) by (auto simp: rawToken_def TokenPrefix_def hex_encode_length simp flip: length_0_conv)
  have gen: "generateAt t0 ttl (i @ s @ rest) = (Inr ?tok, rest)" using g assms(12) truncMicro_le [of t0] by (simp add: generateAt_def currentTime_def)
  have "Repo_Issue (Some c) goodEnv b (generateAt t0 ttl) (i @ s @ rest) db =
      (Inr ?tok, rest, db\<lparr>db_tokens := (hex_encode i, ?row) # db_tokens db\<rparr>)"
    using assms(1-5) g(3) ins ne l by (simp add: Repo_Issue_def gen)
  then have i: "Auth_Issue (Some c) (\<lambda>_. goodEnv) (\<lambda>_. t0) b ttl (i @ s @ rest) db =
      (Inr ?tok, rest, db\<lparr>db_tokens := (hex_encode i, ?row) # db_tokens db\<rparr>)"
    using assms(1,6,7) by (simp add: Auth_Issue_def maxIssueAttempts_def numeral_3_eq_3)
  show ?thesis
    using i Auth_Issue_accepts [OF i assms(15), of now c'] assms(12,13,14) truncMicro_le [of t0] by fastforce
qed


theorem issue_then_authenticate_witness:
  "\<exists>tok db'. Auth_Issue (Some False) (\<lambda>_. goodEnv) (\<lambda>_. 5000) sampleBinding minute
      (replicate 16 (CHR ''c'') @ replicate 32 (CHR ''d'') @ ''rest'') (sampleAuthDb\<lparr>db_tokens := []\<rparr>) = (Inr tok, ''rest'', db') \<and>
    AuthenticateBearer (Some False) goodEnv 6000 (it_rawToken tok) db' =
      Inr \<lparr>bs_binding = sampleBinding, bs_tokenID = hex_encode (replicate 16 (CHR ''c'')), bs_expiresAt = 60000005000\<rparr>"
proof -
  have t: "truncMicro (truncMicro 5000 + minute) = 60000005000" by (simp add: truncMicro_def minute_def)
  show ?thesis
    unfolding t [symmetric]
    by (rule issue_then_authenticate [OF sampleBinding_valid,
          where ses = "\<lparr>ss_user = ''alice'', ss_device = ''phone'', ss_revoked = None\<rparr>"])
      (simp_all add: sampleAuthDb_def sampleBinding_def readEnv_def goodEnv_def MinTTL_def MaxTTL_def second_def minute_def
        truncMicro_def zeroTime_def)
qed

text \<open>
  The expiry a caller of \<^verbatim>\<open>Issue\<close> sees need not be the stored one: the database keeps microseconds, a lifetime may have
  nanoseconds. The stored expiry, the one that counts, is then the earlier.
\<close>

lemma issued_expiry_not_persisted:
  "\<exists>tok rest. generateIssuedToken (replicate 48 (CHR ''c'')) 5000 (second + 1) = (Inr tok, rest) \<and>
     truncMicro (it_expiresAt tok) < it_expiresAt tok"
proof -
  have r: "replicate 48 (CHR ''c'') = replicate 16 (CHR ''c'') @ replicate 32 (CHR ''c'') @ []"
    by (simp flip: replicate_add)
  show ?thesis
    unfolding r by (subst generate_fresh) (simp_all add: truncMicro_def zeroTime_def MinTTL_def MaxTTL_def second_def minute_def)
qed

section \<open>Failures\<close>

definition durable :: "dbEnv \<Rightarrow> bool" where
  "durable env \<longleftrightarrow> env_commit env \<noteq> CommitLost"

lemma finish_error: "durable env \<Longrightarrow> finish env e db db' x = (Inl e', d) \<Longrightarrow> d = db"
  by (auto simp: finish_def durable_def split: commitOutcome.splits)

lemma Repo_Issue_error:
  assumes "durable env" "Repo_Issue ctx env b generate s db = (Inl e, s', d)"
  shows "d = db"
  using assms(2) finish_error [OF assms(1)]
  by (auto simp: Repo_Issue_def split: if_splits option.splits prod.splits sum.splits insertOutcome.splits)

lemma issue_loop_error:
  "(\<And>n. durable (envs n)) \<Longrightarrow> issue_loop n ctx envs clock b ttl entropy db = (Inl e, e', d) \<Longrightarrow> d = db"
proof (induction n arbitrary: entropy db)
  case (Suc n)
  then show ?case by (auto dest: Repo_Issue_error split: prod.splits sum.splits if_splits)
qed simp

lemma Repo_revoke_error:
  assumes "durable env"
  shows "Repo_RevokeBearer ctx env i verify at db = (Inl e, d) \<Longrightarrow> d = db"
    "Repo_RevokeSession ctx env b at db = (Inl e, d) \<Longrightarrow> d = db"
    "Repo_RevokeToken ctx env u i at db = (Inl e, d) \<Longrightarrow> d = db"
  using finish_error [OF assms]
  by (auto simp: Repo_RevokeBearer_def Repo_RevokeSession_def Repo_RevokeToken_def Let_def
      split: if_splits option.splits prod.splits sum.splits)

text \<open>
  An operation that reports an error has changed nothing, unless its commit was applied although the driver
  reported a failure: no half-inserted token, and no session revoked without its tokens.
\<close>

theorem auth_errors_change_nothing:
  assumes "\<And>n. durable (envs n)" "durable env"
  shows "(Auth_Issue ctx envs clock b ttl entropy db = (Inl e, entropy', d) \<longrightarrow> d = db) \<and>
    (RevokeBearer ctx env now raw db = (Inl e, d) \<longrightarrow> d = db) \<and>
    (Auth_RevokeSession ctx env now b db = (Inl e, d) \<longrightarrow> d = db) \<and>
    (Auth_RevokeToken ctx env now u i db = (Inl e, d) \<longrightarrow> d = db)"
  using issue_loop_error [OF assms(1)] Repo_revoke_error [OF assms(2)]
  by (auto simp: Auth_Issue_def RevokeBearer_def Auth_RevokeSession_def Auth_RevokeToken_def
      split: if_splits sum.splits prod.splits)

theorem auth_errors_change_nothing_witness:
  "snd (RevokeBearer (Some False) (goodEnv\<lparr>env_commit := CommitFailed\<rparr>) 1000 sampleRaw sampleAuthDb) = sampleAuthDb"
proof -
  let ?env = "goodEnv\<lparr>env_commit := CommitFailed\<rparr>"
  have f: "fst (RevokeBearer (Some False) ?env 1000 sampleRaw sampleAuthDb) = Inl AuthStorageUnavailable"
    using sampleTokenID_valid sampleBinding_valid
    by (simp add: RevokeBearer_def sampleRaw_parses Repo_RevokeBearer_def readSnapshot_def NewTokenSnapshot_def VerifyDigest_def
        currentTime_def zeroTime_def Let_def revokeRows_def sampleAuthDb_def sampleBinding_def truncMicro_def minute_def
        finish_def goodEnv_def)
  have "durable ?env" by (simp add: durable_def)
  then show ?thesis
    using auth_errors_change_nothing [of "\<lambda>_. ?env" ?env] pair_of_fst [OF f]
    by blast
qed

section \<open>Login plans\<close>

lemma plan_targets_ok:
  assumes "plan_targets ctx envs n dbs u ts ks = Inr targets"
  shows "targets = ts @ ks \<and> (distinct ts \<longrightarrow> distinct targets) \<and>
    (\<forall>t\<in>set ks. kt_UserID t = u \<and> (\<exists>n ses. map_of (db_sessions (dbs n)) (kt_SessionID t) = Some ses \<and>
       ss_user ses = u \<and> ss_device ses = kt_DeviceID t))"
  using assms
proof (induction ks arbitrary: n ts)
  case (Cons k ks)
  then obtain snap where k: "kt_UserID k = u" "k \<notin> set ts" "Repo_LookupSession ctx (envs n) (kt_SessionID k) (dbs n) = Inr snap"
    "sb_UserID (sn_binding snap) = u" "sb_DeviceID (sn_binding snap) = kt_DeviceID k"
    "plan_targets ctx envs (Suc n) dbs u (ts @ [k]) ks = Inr targets"
    by (auto split: if_splits sum.splits)
  have "\<exists>ses. map_of (db_sessions (dbs n)) (kt_SessionID k) = Some ses \<and> ss_user ses = u \<and> ss_device ses = kt_DeviceID k"
    using k by (auto simp: Repo_LookupSession_def NewSessionSnapshot_def bindR_eq_Inr split: if_splits option.splits)
  then show ?case using Cons.IH [OF k(6)] k(1,2) by auto
qed simp

text \<open>
  A login plan kicks only what the policy named, at most a hundred targets and none twice, and each one is a stored
  session of the user who logs in, on the device named, in the tables its lookup saw; the session that logs in is the user's own and not revoked.
\<close>

theorem login_plan_targets:
  assumes "PlanLogin ctx envs policy b dbs = Inr plan"
  shows "(\<exists>decide. policy = Some decide \<and> decide b = Some (lp_KickTargets plan)) \<and> lp_Binding plan = b \<and>
    length (lp_KickTargets plan) \<le> 100 \<and> distinct (lp_KickTargets plan) \<and>
    (\<forall>t\<in>set (lp_KickTargets plan). kt_UserID t = sb_UserID b \<and> (\<exists>n ses. map_of (db_sessions (dbs n)) (kt_SessionID t) = Some ses \<and>
       ss_user ses = sb_UserID b \<and> ss_device ses = kt_DeviceID t)) \<and>
    (\<exists>ses. map_of (db_sessions (dbs (length (lp_KickTargets plan)))) (sb_SessionID b) = Some ses \<and> ss_user ses = sb_UserID b \<and>
       ss_device ses = sb_DeviceID b \<and> ss_revoked ses = None)"
proof -
  obtain decide ks targets snap where p: "policy = Some decide" "decide b = Some ks" "length ks \<le> 100"
    "plan_targets ctx envs 0 dbs (sb_UserID b) [] ks = Inr targets"
    "Repo_LookupSession ctx (envs (length ks)) (sb_SessionID b) (dbs (length ks)) = Inr snap" "sn_revokedAt snap = None"
    "sb_UserID (sn_binding snap) = sb_UserID b" "sb_DeviceID (sn_binding snap) = sb_DeviceID b"
    "plan = \<lparr>lp_Binding = b, lp_KickTargets = targets\<rparr>"
    using assms by (auto simp: PlanLogin_def bindR_eq_Inr split: if_splits option.splits)
  have "\<exists>ses. map_of (db_sessions (dbs (length ks))) (sb_SessionID b) = Some ses \<and> ss_user ses = sb_UserID b \<and>
       ss_device ses = sb_DeviceID b \<and> ss_revoked ses = None"
    using p(5-8) by (auto simp: Repo_LookupSession_def NewSessionSnapshot_def bindR_eq_Inr split: if_splits option.splits)
  then show ?thesis using plan_targets_ok [OF p(4)] p(1-3,9) by clarsimp
qed

theorem login_plan_targets_witness:
  "\<exists>plan. PlanLogin (Some False) (\<lambda>_. goodEnv)
      (Some (\<lambda>_. Some [\<lparr>kt_UserID = ''alice'', kt_DeviceID = ''tablet'', kt_SessionID = ''s2''\<rparr>])) sampleBinding (\<lambda>_. sampleAuthDb) = Inr plan \<and>
    lp_Binding plan = sampleBinding \<and> distinct (lp_KickTargets plan)"
proof -
  have ids: "ident128 ''alice''" "ident128 ''tablet''" "ident128 ''s2''" "ident128 ''s1''" "ident128 ''phone''" by code_simp+
  have "\<exists>plan. PlanLogin (Some False) (\<lambda>_. goodEnv)
      (Some (\<lambda>_. Some [\<lparr>kt_UserID = ''alice'', kt_DeviceID = ''tablet'', kt_SessionID = ''s2''\<rparr>])) sampleBinding (\<lambda>_. sampleAuthDb) = Inr plan"
    using ids sampleBinding_valid
    by (simp add: PlanLogin_def Repo_LookupSession_def NewSessionSnapshot_def Binding_Valid_def sampleAuthDb_def
        sampleBinding_def goodEnv_def)
  then show ?thesis using login_plan_targets by blast
qed

end
