(* ===== verification/MediaPayload.thy ===== *)
theory MediaPayload
  imports ObjectText "HOL-Library.Code_Target_Nat"
begin

text \<open>
  The media payload codec of \<^verbatim>\<open>core/protocol/go/media.go\<close>: valid metadata always encodes to a text the validator
  accepts, and metadata that decodes is valid.
\<close>

section \<open>Objects that do parse\<close>

lemma jmembers_text:
  "list_all (\<lambda>(k, raw). list_all plain_byte k \<and> (\<exists>v q. jval d raw v q \<and> skip_ws q = [])) kvs \<Longrightarrow> kvs \<noteq> [] \<Longrightarrow>
   \<exists>ms. jmembers d (members_text kvs @ CHR ''}'' # rest) ms rest"
proof (induction kvs rule: members_text.induct)
  case (2 k raw)
  then obtain v q where v: "jval d raw v q" "skip_ws q = []" and k: "list_all plain_byte k" by auto
  have s: "stops (CHR ''}'' # rest)" by (simp add: stops_def)
  have "skip_ws (q @ CHR ''}'' # rest) = CHR ''}'' # rest"
    using v(2) s by (simp add: skip_ws_append_Nil stops_facts)
  then show ?case
    using mem1 [OF jval_dquote_key(1) [OF k] jval_dquote_key(2) [OF k] jval_dquote_key(4) jval_stop [OF v(1) s]]
    by auto
next
  case (3 k raw m kvs)
  then obtain v q where v: "jval d raw v q" "skip_ws q = []" and k: "list_all plain_byte k" by auto
  obtain ms where ms: "jmembers d (members_text (m # kvs) @ CHR ''}'' # rest) ms rest" using 3 by auto
  define t where "t = CHR '','' # members_text (m # kvs) @ CHR ''}'' # rest"
  have s: "stops t" by (simp add: stops_def t_def)
  have "skip_ws (q @ t) = CHR '','' # members_text (m # kvs) @ CHR ''}'' # rest"
    using v(2) s by (simp add: skip_ws_append_Nil stops_facts t_def)
  from mem2 [OF jval_dquote_key(1) [OF k] jval_dquote_key(2) [OF k] jval_dquote_key(4) jval_stop [OF v(1) s] this ms]
  show ?case by (auto simp: t_def)
qed simp

lemma object_text_parses:
  assumes "list_all (\<lambda>(k, raw). list_all plain_byte k \<and> (\<exists>v q. jval 1 raw v q \<and> skip_ws q = [])) kvs" "kvs \<noteq> []"
  shows "\<exists>j. json_parse (object_text kvs) = Some j"
proof -
  obtain ms where ms: "jmembers 1 (members_text kvs @ ''}'') ms []" using jmembers_text [OF assms, of "[]"] by auto
  obtain u where u: "members_text kvs = dquote # u" using members_text_head [OF assms(2)] by blast
  have "jval 0 (object_text kvs) (JObject ms) []"
    using ms by (intro obj [of _ "members_text kvs @ ''}''" 0 dquote "u @ ''}''"])
      (simp_all add: object_text_def u skip_ws_def is_ws_def dquote_def MaxNesting_def)
  moreover have "skip_ws [] = []" by (simp add: skip_ws_def)
  ultimately show ?thesis unfolding json_parse_iff by blast
qed

lemma quoted_parses: "\<exists>v q. jval d (quote_string html s) v q \<and> skip_ws q = []"
proof -
  have "skip_ws [] = []" by (simp add: skip_ws_def)
  then show ?thesis using jval_quoted [of d html s "[]"] by auto
qed

section \<open>Encoding is total on valid metadata\<close>

lemma escape_length: "length (escape_ascii html c) \<le> 6"
  by (simp add: escape_ascii_def u_escape_def)

lemma quote_body_length: "length (quote_body html s) \<le> 6 * length s"
proof (induction html s rule: quote_body.induct)
  case (2 html c cs)
  let ?n = "utf8_len (c # cs)"
  consider "code c < 128" | "\<not> code c < 128" "?n = 0" | "\<not> code c < 128" "?n \<noteq> 0" "line_sep (c # cs)"
    | "\<not> code c < 128" "?n \<noteq> 0" "\<not> line_sep (c # cs)" by blast
  then show ?case
  proof cases
    case 1
    then show ?thesis using "2.IH"(1) escape_length [of html c] by (simp add: quote_body.simps(2))
  next
    case 2
    then show ?thesis using "2.IH"(2) by (simp add: quote_body.simps(2))
  next
    case 3
    then have "?n = 3" using line_sep_facts(1) by blast
    then have "3 \<le> length (c # cs)" using utf8_len_le [of "c # cs"] by linarith
    then show ?thesis using "2.IH"(3) 3 by (simp add: quote_body.simps(2) u_escape_def)
  next
    case 4
    have "?n \<le> length (c # cs)" by (rule utf8_len_le)
    then show ?thesis
      using "2.IH"(4) [OF 4] 4 by (simp add: quote_body.simps(2) [of html c cs] min_absorb2 del: utf8_len.simps)
  qed
qed simp

lemma metadata_lengths:
  assumes "ValidMediaMetadata md"
  shows "length (mm_MediaKey md) \<le> 128" "length (mm_Kind md) \<le> 5" "length (mm_ContentType md) \<le> 128"
    "length (mm_Size md) \<le> 9" "length (mm_SHA256 md) = 64"
  using assms
  by (auto simp: ValidMediaMetadata_def ValidMediaKey_def ident128_def SupportedMediaKind_def ValidMediaContentType_def
      ValidMediaSize_def ValidMediaSHA256_def split: if_splits)

lemma mime_loop_ascii: "mime_loop i slash s \<Longrightarrow> list_all (\<lambda>c. code c < 128) s"
  by (induction i slash s rule: mime_loop.induct)
    (auto simp: mime_first_def mime_rest_def is_lower_code is_digit_code split: if_splits)

lemma metadata_ascii:
  assumes "ValidMediaMetadata md"
  shows "list_all (\<lambda>c. code c < 128) (mm_MediaKey md)" "list_all (\<lambda>c. code c < 128) (mm_Kind md)"
    "list_all (\<lambda>c. code c < 128) (mm_ContentType md)" "list_all (\<lambda>c. code c < 128) (mm_Size md)"
    "list_all (\<lambda>c. code c < 128) (mm_SHA256 md)"
proof -
  note v = assms [unfolded ValidMediaMetadata_def]
  show "list_all (\<lambda>c. code c < 128) (mm_MediaKey md)"
    using v ident_plain by (auto simp: ValidMediaKey_def ident128_def list_all_iff plain_byte_def)
  show "list_all (\<lambda>c. code c < 128) (mm_Kind md)" using v by (auto simp: SupportedMediaKind_def)
  show "list_all (\<lambda>c. code c < 128) (mm_ContentType md)"
    using v mime_loop_ascii by (auto simp: ValidMediaContentType_def split: if_splits option.splits)
  show "list_all (\<lambda>c. code c < 128) (mm_Size md)"
    using v by (cases "mm_Size md")
      (auto simp: ValidMediaSize_def less_eq_char_def list_all_iff is_digit_code split: if_splits)
  show "list_all (\<lambda>c. code c < 128) (mm_SHA256 md)"
    using v by (auto simp: ValidMediaSHA256_def list_all_iff is_lower_hex_def is_digit_code less_eq_char_def split: if_splits)
qed

lemmas metadata_coerce = metadata_ascii [THEN coerce_ascii_id]

definition mediaMembers :: "MediaMetadata \<Rightarrow> (bytes \<times> bytes) list" where
  "mediaMembers md =
     [(''mediaKey'', quote_string True (mm_MediaKey md)), (''kind'', quote_string True (mm_Kind md)),
      (''contentType'', quote_string True (mm_ContentType md)), (''size'', quote_string True (mm_Size md)),
      (''sha256'', quote_string True (mm_SHA256 md))]"

lemma marshal_members: "marshal_metadata md = object_text (mediaMembers md)"
  by (simp add: marshal_metadata_def mediaMembers_def)

lemma marshal_fields: "unmarshal_fields (marshal_metadata md) = Some (mediaMembers md)"
proof -
  have ne: "mediaMembers md \<noteq> []" by (simp add: mediaMembers_def)
  have ok: "list_all text_ok (mediaMembers md)" by (simp add: mediaMembers_def key_simps)
  obtain j where j: "json_parse (marshal_metadata md) = Some j"
    using object_text_parses [OF _ ne] quoted_parses [of 1 True] unfolding marshal_members
    by (auto simp: mediaMembers_def key_simps)
  then obtain r where "jval 0 (object_text (mediaMembers md) @ []) j r"
    by (auto simp: json_parse_iff marshal_members)
  then have "j = JObject (map member_of (mediaMembers md))"
    using object_text_inv [OF _ reads_members_ok [OF ok] ne] by blast
  then show ?thesis using j by (simp add: unmarshal_fields_def mediaMembers_def member_of_def)
qed

lemma decode_mediaMembers:
  assumes "ValidMediaMetadata md"
  shows "decodeMediaFields (mediaMembers md) = Inr md"
proof -
  have "stringField (mediaMembers md) ''mediaKey'' = Inr (mm_MediaKey md)"
    "stringField (mediaMembers md) ''kind'' = Inr (mm_Kind md)"
    "stringField (mediaMembers md) ''contentType'' = Inr (mm_ContentType md)"
    "stringField (mediaMembers md) ''size'' = Inr (mm_Size md)"
    "stringField (mediaMembers md) ''sha256'' = Inr (mm_SHA256 md)"
    using metadata_coerce [OF assms] by (simp_all add: stringField_def mediaMembers_def)
  then show ?thesis by (simp add: decodeMediaFields_def)
qed

lemma marshal_length: "ValidMediaMetadata md \<Longrightarrow> length (marshal_metadata md) \<le> MaxMediaPayloadBytes"
proof -
  assume "ValidMediaMetadata md"
  note l = metadata_lengths [OF this]
  show ?thesis
    using l quote_body_length [of True "mm_MediaKey md"] quote_body_length [of True "mm_Kind md"]
      quote_body_length [of True "mm_ContentType md"] quote_body_length [of True "mm_Size md"]
      quote_body_length [of True "mm_SHA256 md"]
    by (simp add: marshal_metadata_def object_text_def quote_string_def MaxMediaPayloadBytes_def)
qed

lemma Encode_media_total:
  assumes "ValidMediaMetadata md"
  shows "EncodeMediaPayload md = Inr (marshal_metadata md)"
  using assms marshal_length [OF assms] decode_mediaMembers [OF assms]
  by (simp add: EncodeMediaPayload_def validateMediaPayload_def marshal_fields field_count_def mediaMembers_def)

section \<open>Decoded metadata is valid\<close>

lemma jmembers_values:
  "jval d s j r \<Longrightarrow> True" "jelems d s vs r \<Longrightarrow> True"
  "jmembers d s ms r \<Longrightarrow> (k, raw, v) \<in> set ms \<Longrightarrow> \<exists>d q2 q3. jval d q2 v q3 \<and> raw = consumed (skip_ws q2) q3"
  by (induction rule: jval_jelems_jmembers.inducts) auto

lemma jval_literal_extend:
  assumes "jval d s j r" "j = JString t \<or> j = JNull"
  shows "jval d' (s @ x) j (r @ x)"
proof -
  obtain c u where c: "skip_ws s = c # u" "c \<noteq> CHR ''{''" "c \<noteq> CHR ''[''" "scalar (c # u) = Some (j, r)"
    using assms by (auto elim: jval.cases)
  have "scalar (c # u @ x) = Some (j, r @ x)"
  proof (cases "c = dquote")
    case True
    then have q: "scan_string u = Some r" "j = JString (unquote (butlast (consumed u r)))"
      using c(4) by (auto simp: scalar_def)
    then show ?thesis
      using True scan_string_append [OF q(1), of x] member_spans(1) [OF q(1), of x] by (simp add: scalar_def)
  next
    case False
    then have q: "j = JNull" "c = CHR ''n''" "match_lit ''null'' (c # u) = Some r"
      using c(4) assms(2) by (auto simp: scalar_def split: if_splits)
    then show ?thesis using match_lit_append [OF q(3), of x] by (simp add: scalar_def dquote_def is_digit_code)
  qed
  then show ?thesis using c by (intro sca [of _ c "u @ x"]) (simp_all add: skip_ws_append)
qed

lemma member_string:
  assumes "jval d q2 v q3" "raw = consumed (skip_ws q2) q3" "unmarshal_string raw = Some t" "raw \<noteq> ''null''"
  shows "v = JString t"
proof -
  have q2: "skip_ws q2 = raw @ q3" using consumed_eq jval_skip_suffix [OF assms(1)] assms(2) by blast
  then have v: "jval d (raw @ q3) v q3" using jval_ws [OF assms(1), of "raw @ q3"] by (simp flip: q2)
  obtain j where j: "json_parse raw = Some j" "j = JString t \<or> j = JNull \<and> t = []"
    using assms(3) by (auto simp: unmarshal_string_def split: option.splits json.splits)
  then obtain r where r: "jval 0 raw j r" "skip_ws r = []" by (auto simp: json_parse_iff)
  have "jval d (raw @ q3) j (r @ q3)" using jval_literal_extend [OF r(1)] j(2) by blast
  then have eq: "j = v" "r = []" using jval_det [OF v] by auto
  have "j \<noteq> JNull"
  proof
    assume n: "j = JNull"
    have "skip_ws raw = raw" using q2 jval_skip_suffix [OF assms(1)] r(1) eq
      by (metis append_Nil2 consumed_append consumed_eq jval_skip_suffix skip_ws_append skip_ws_idem same_append_eq)
    then have "raw = ''null''"
      using r(1) n eq(2)
      by (auto elim!: jval.cases simp: scalar_def match_lit_def split: if_splits)
    then show False using assms(4) by simp
  qed
  then show ?thesis using j(2) eq by auto
qed

definition mediaNames :: "bytes list" where
  "mediaNames = [''mediaKey'', ''kind'', ''contentType'', ''size'', ''sha256'']"

definition component :: "MediaMetadata \<Rightarrow> bytes \<Rightarrow> bytes" where
  "component md k =
     (if k = ''mediaKey'' then mm_MediaKey md else if k = ''kind'' then mm_Kind md
      else if k = ''contentType'' then mm_ContentType md else if k = ''size'' then mm_Size md else mm_SHA256 md)"

lemma component_eq: "(\<And>k. k \<in> set mediaNames \<Longrightarrow> component a k = component b k) \<Longrightarrow> a = b"
proof (rule MediaMetadata.equality)
  assume e: "\<And>k. k \<in> set mediaNames \<Longrightarrow> component a k = component b k"
  show "mm_MediaKey a = mm_MediaKey b" using e [of "''mediaKey''"] by (simp add: mediaNames_def component_def)
  show "mm_Kind a = mm_Kind b" using e [of "''kind''"] by (simp add: mediaNames_def component_def)
  show "mm_ContentType a = mm_ContentType b" using e [of "''contentType''"] by (simp add: mediaNames_def component_def)
  show "mm_Size a = mm_Size b" using e [of "''size''"] by (simp add: mediaNames_def component_def)
  show "mm_SHA256 a = mm_SHA256 b" using e [of "''sha256''"] by (simp add: mediaNames_def component_def)
qed simp

lemma assignMember_component:
  assumes "k \<in> set mediaNames"
  shows "\<exists>md'. assignMember md (k, raw, JString s) = Some md' \<and> component md' k = s \<and>
    (\<forall>k'\<in>set mediaNames. k' \<noteq> k \<longrightarrow> component md' k' = component md k')"
  using assms unfolding mediaNames_def by (auto simp: component_def)

lemma assignMembers_components:
  "distinct (map fst ms) \<Longrightarrow> \<forall>(k, raw, v)\<in>set ms. k \<in> set mediaNames \<and> v = JString (f k) \<Longrightarrow>
   \<exists>md'. assignMembers md ms = Some md' \<and>
     (\<forall>k\<in>set mediaNames. component md' k = (if k \<in> fst ` set ms then f k else component md k))"
proof (induction ms arbitrary: md)
  case (Cons m ms)
  obtain k raw where m: "m = (k, raw, JString (f k))" "k \<in> set mediaNames" using Cons.prems(2) by (cases m) auto
  obtain md1 where md1: "assignMember md m = Some md1" "component md1 k = f k"
    "\<forall>k'\<in>set mediaNames. k' \<noteq> k \<longrightarrow> component md1 k' = component md k'"
    using assignMember_component [OF m(2), of md raw "f k"] m(1) by blast
  obtain md2 where md2: "assignMembers md1 ms = Some md2"
    "\<forall>k\<in>set mediaNames. component md2 k = (if k \<in> fst ` set ms then f k else component md1 k)"
    using Cons.IH [of md1] Cons.prems by auto
  have "\<forall>k'\<in>set mediaNames. component md2 k' = (if k' \<in> fst ` set (m # ms) then f k' else component md k')"
    using md2(2) md1(2,3) m(1) by auto
  then show ?case using md1(1) md2(1) by auto
qed simp

lemma decodeMediaFields_component:
  assumes "decodeMediaFields fs = Inr md" "k \<in> set mediaNames"
  shows "stringField fs k = Inr (component md k)"
proof -
  have "stringField fs ''mediaKey'' = Inr (mm_MediaKey md) \<and> stringField fs ''kind'' = Inr (mm_Kind md) \<and>
    stringField fs ''contentType'' = Inr (mm_ContentType md) \<and> stringField fs ''size'' = Inr (mm_Size md) \<and>
    stringField fs ''sha256'' = Inr (mm_SHA256 md)"
    using assms(1) by (auto simp: decodeMediaFields_def bindR_eq_Inr)
  then show ?thesis using assms(2) unfolding mediaNames_def by (auto simp: component_def)
qed

lemma stringField_member:
  assumes "stringField fs k = Inr s"
  shows "\<exists>raw. field fs k = Some raw \<and> (k, raw) \<in> set fs \<and> raw \<noteq> ''null'' \<and> unmarshal_string raw = Some s"
  using assms by (auto simp: stringField_def field_def split: option.splits if_splits dest!: map_of_SomeD)

lemma unmarshal_metadata_fields:
  assumes p: "json_parse raw = Some (JObject ms)" and d: "distinct (map fst ms)"
    and n: "field_count (map (\<lambda>(k, raw, v). (k, raw)) ms) = 5"
    and md: "decodeMediaFields (map (\<lambda>(k, raw, v). (k, raw)) ms) = Inr md"
  shows "unmarshal_metadata raw = Some md"
proof -
  let ?fs = "map (\<lambda>(k, raw, v). (k, raw)) ms"
  have fst_fs: "map fst ?fs = map fst ms" by auto
  have sub: "set mediaNames \<subseteq> fst ` set ms"
  proof
    fix k
    assume "k \<in> set mediaNames"
    then have "k \<in> fst ` set ?fs" using decodeMediaFields_component [OF md] stringField_member by (metis fst_conv imageI)
    then show "k \<in> fst ` set ms" using fst_fs by (metis list.set_map)
  qed
  have "card (fst ` set ms) = 5"
    using n d unfolding field_count_def fst_fs by (simp add: distinct_card distinct_remdups_id flip: set_map)
  moreover have "card (set mediaNames) = 5" by code_simp
  ultimately have names: "fst ` set ms = set mediaNames" using sub by (metis card_subset_eq finite_imageI finite_set)
  obtain r where j: "jval 0 raw (JObject ms) r" using p by (auto simp: json_parse_iff)
  have ms: "ms = [] \<or> (\<exists>s. jmembers (Suc 0) s ms r)"
    using j by (cases rule: jval.cases) (auto simp: scalar_def split: list.splits if_splits)
  have val: "v = JString (component md k)" if "(k, w, v) \<in> set ms" for k w v
  proof -
    have k: "k \<in> set mediaNames" using that names by force
    obtain w' where w': "field ?fs k = Some w'" "w' \<noteq> ''null''" "unmarshal_string w' = Some (component md k)"
      using stringField_member [OF decodeMediaFields_component [OF md k]] by blast
    have "field ?fs k = Some w"
      using d that map_of_is_SomeI [of "rev ?fs" k w] unfolding field_def
      by (force simp: rev_map [symmetric] simp flip: fst_fs)
    then show ?thesis
      using ms that w' jmembers_values(3) member_string by (metis empty_iff list.set(1) option.inject)
  qed
  obtain md' where md': "assignMembers zeroMetadata ms = Some md'"
    "\<forall>k\<in>set mediaNames. component md' k = component md k"
    using assignMembers_components [OF d, of "component md" zeroMetadata] val names
    by force
  then have "md' = md" using component_eq by blast
  then show ?thesis using p md' by (simp add: unmarshal_metadata_def)
qed

lemma Decode_media_valid:
  assumes "DecodeMediaPayload raw = Inr md"
  shows "ValidMediaMetadata md \<and> length raw \<le> MaxMediaPayloadBytes \<and> utf8_valid raw"
proof -
  have st: "strictJSONLimits raw MaxMediaPayloadBytes MaxDepth = Inr ()"
    using assms by (auto simp: DecodeMediaPayload_def bindR_eq_Inr)
  obtain fs md0 where f: "unmarshal_fields raw = Some fs" "field_count fs = 5" "decodeMediaFields fs = Inr md0"
    "ValidMediaMetadata md0" "unmarshal_metadata raw = Some md"
    using assms by (auto simp: DecodeMediaPayload_def validateMediaPayload_def bindR_eq_Inr split: if_splits option.splits sum.splits)
  obtain ms where ms: "json_parse raw = Some (JObject ms)" "fs = map (\<lambda>(k, raw, v). (k, raw)) ms"
    using f(1) by (auto simp: unmarshal_fields_def split: option.splits json.splits)
  have s: "length raw \<le> MaxMediaPayloadBytes" "utf8_valid raw" "jwf MaxDepth (JObject ms)"
    using strict_sound [OF st] ms(1) by (auto simp: MaxDepth_def MaxNesting_def)
  have "unmarshal_metadata raw = Some md0"
    using unmarshal_metadata_fields [OF ms(1)] s(3) f(2,3) ms(2) by simp
  then show ?thesis using f(4,5) s by simp
qed

section \<open>Properties\<close>

text \<open>
  The media payload codec: valid metadata always encodes, to a text that the validator reads back as exactly that
  metadata, and whatever \<^verbatim>\<open>DecodeMediaPayload\<close> returns is valid metadata from a text of at most 4096 bytes.
\<close>

theorem media_payload_codec:
  "(ValidMediaMetadata md \<longrightarrow> (\<exists>raw fs. EncodeMediaPayload md = Inr raw \<and> validateMediaPayload raw = Inr () \<and>
      unmarshal_fields raw = Some fs \<and> decodeMediaFields fs = Inr md)) \<and>
   (DecodeMediaPayload text = Inr md' \<longrightarrow> ValidMediaMetadata md' \<and> length text \<le> MaxMediaPayloadBytes)"
proof -
  have "validateMediaPayload (marshal_metadata md) = Inr ()" if "ValidMediaMetadata md"
    using Encode_media_total [OF that] by (auto simp: EncodeMediaPayload_def Let_def bindR_eq_Inr split: if_splits)
  then show ?thesis using Encode_media_total marshal_fields decode_mediaMembers Decode_media_valid by blast
qed

definition sampleMetadata :: MediaMetadata where
  "sampleMetadata = \<lparr>mm_MediaKey = ''k-1'', mm_Kind = ''image'', mm_ContentType = ''image/png'', mm_Size = ''10'',
     mm_SHA256 = replicate 64 (CHR ''a'')\<rparr>"

lemma sampleMetadata_valid: "ValidMediaMetadata sampleMetadata"
  by code_simp

lemma sampleMetadata_decodes: "DecodeMediaPayload (marshal_metadata sampleMetadata) = Inr sampleMetadata"
  by code_simp

theorem media_payload_codec_witness:
  "EncodeMediaPayload sampleMetadata = Inr (marshal_metadata sampleMetadata) \<and>
   DecodeMediaPayload (marshal_metadata sampleMetadata) = Inr sampleMetadata \<and> ValidMediaMetadata sampleMetadata"
  using media_payload_codec [of sampleMetadata "marshal_metadata sampleMetadata" sampleMetadata]
    sampleMetadata_valid sampleMetadata_decodes Encode_media_total by blast

end
