(* ===== verification/MediaTypes.thy ===== *)
theory MediaTypes
  imports MediaPayload AuthToken
begin

text \<open>
  Domain types and validation of \<^verbatim>\<open>server/media\<close> (\<^verbatim>\<open>types.go\<close>, \<^verbatim>\<open>validation.go\<close>): metadata, upload intents and grants, and
  the agreement of the server's own grammar with the one of the wire protocol.
\<close>

section \<open>Types\<close>

datatype mediaCode =
    MediaInvalidInput | MediaInvalidToken | MediaNotFound | MediaUnauthorized | MediaExpired | MediaConflict
  | MediaStorageUnavailable | MediaGrantCollision

datatype mediaState = StatePending | StateReady

record Metadata =
  md_MediaKey :: bytes
  md_Kind :: bytes
  md_ContentType :: bytes
  md_Size :: int
  md_SHA256 :: bytes

record UploadIntent =
  ui_Kind :: bytes
  ui_ContentType :: bytes
  ui_Size :: int
  ui_SHA256 :: bytes

record Grant =
  g_MediaKey :: bytes
  g_OwnerUserID :: bytes
  g_DeviceID :: bytes
  g_SessionID :: bytes
  g_ConnectionID :: bytes
  g_TokenID :: bytes
  g_ConversationID :: bytes
  g_Kind :: bytes
  g_ContentType :: bytes
  g_DeclaredSize :: int
  g_ActualSize :: "int option"
  g_SHA256 :: bytes
  g_GrantID :: bytes
  g_GrantDigest :: bytes
  g_ExpiresAt :: instant
  g_CompletedAt :: "instant option"
  g_State :: mediaState

record ObjectInfo =
  oi_Size :: int
  oi_SHA256 :: bytes

section \<open>Validation\<close>

definition validKind :: "bytes \<Rightarrow> bool" where
  "validKind value \<longleftrightarrow> value = ''image'' \<or> value = ''video'' \<or> value = ''audio'' \<or> value = ''file''"

text \<open>\<^verbatim>\<open>strings.IndexByte\<close>: the first position of a byte, or -1.\<close>

fun IndexByte :: "bytes \<Rightarrow> char \<Rightarrow> int" where
  "IndexByte [] c = -1"
| "IndexByte (x # xs) c = (if x = c then 0 else let r = IndexByte xs c in if r < 0 then -1 else r + 1)"

definition validContentType :: "bytes \<Rightarrow> bool" where
  "validContentType value =
     (if length value = 0 \<or> 128 < length value then False
      else
        let slash = IndexByte value (CHR ''/'') in
        if slash < 1 \<or> 63 < slash \<or> 0 \<le> IndexByte (drop (nat (slash + 1)) value) (CHR ''/'') then False
        else if int (length value) - slash - 1 < 1 \<or> 64 < int (length value) - slash - 1 then False
        else mime_loop 0 slash value)"

definition validSHA256 :: "bytes \<Rightarrow> bool" where
  "validSHA256 value = (if length value \<noteq> 64 then False else list_all is_lower_hex value)"

definition validGrantID :: "bytes \<Rightarrow> bool" where
  "validGrantID value = (if length value \<noteq> 32 then False else validTokenID value)"

definition validCompleteIdentity :: "bytes \<Rightarrow> bytes \<Rightarrow> bytes \<Rightarrow> bytes \<Rightarrow> bytes \<Rightarrow> bool" where
  "validCompleteIdentity userID deviceID sessionID connectionID tokenID \<longleftrightarrow>
     validIdentifier userID \<and> validIdentifier deviceID \<and> validIdentifier sessionID \<and>
     validIdentifier connectionID \<and> validTokenID tokenID"

definition ValidateIdentity :: "ConnectionIdentity \<Rightarrow> bool" where
  "ValidateIdentity identity =
     validCompleteIdentity (ci_userID identity) (ci_deviceID identity) (ci_sessionID identity)
       (ci_connectionID identity) (ci_tokenID identity)"

definition ValidIntent :: "UploadIntent \<Rightarrow> bool" where
  "ValidIntent intent \<longleftrightarrow>
     validKind (ui_Kind intent) \<and> validContentType (ui_ContentType intent) \<and> 1 \<le> ui_Size intent \<and> ui_Size intent \<le> MaxMediaSize"

definition ValidMetadata :: "Metadata \<Rightarrow> bool" where
  "ValidMetadata metadata \<longleftrightarrow>
     validIdentifier (md_MediaKey metadata) \<and> validKind (md_Kind metadata) \<and> validContentType (md_ContentType metadata) \<and>
     1 \<le> md_Size metadata \<and> md_Size metadata \<le> MaxMediaSize"

definition ValidGrant :: "Grant \<Rightarrow> bool" where
  "ValidGrant grant =
     (if \<not> validIdentifier (g_MediaKey grant) \<or>
         \<not> validCompleteIdentity (g_OwnerUserID grant) (g_DeviceID grant) (g_SessionID grant) (g_ConnectionID grant)
           (g_TokenID grant) \<or>
         \<not> validIdentifier (g_ConversationID grant) \<or> \<not> validKind (g_Kind grant) \<or> \<not> validContentType (g_ContentType grant) \<or>
         g_DeclaredSize grant < 1 \<or> MaxMediaSize < g_DeclaredSize grant \<or> \<not> validGrantID (g_GrantID grant) \<or>
         g_ExpiresAt grant = zeroTime then False
      else if g_State grant = StatePending then g_ActualSize grant = None \<and> g_CompletedAt grant = None
      else g_State grant = StateReady \<and> g_ActualSize grant = Some (g_DeclaredSize grant) \<and> g_CompletedAt grant \<noteq> None)"

definition hexNibble :: "char \<Rightarrow> nat" where
  "hexNibble value = (if CHR ''0'' \<le> value \<and> value \<le> CHR ''9'' then code value - 48 else code value - 97 + 10)"

fun hex_bytes :: "bytes \<Rightarrow> bytes" where
  "hex_bytes (high # low # rest) = char_of (hexNibble high * 16 + hexNibble low) # hex_bytes rest"
| "hex_bytes _ = []"

definition ParseSHA256 :: "bytes \<Rightarrow> bytes option" where
  "ParseSHA256 value = (if \<not> validSHA256 value then None else Some (hex_bytes value))"

section \<open>The server's grammar is the protocol's\<close>

lemma IndexByte_none: "c \<notin> set s \<Longrightarrow> IndexByte s c = -1"
  by (induction s) (auto simp: Let_def)

lemma IndexByte_first: "c \<notin> set t \<Longrightarrow> IndexByte (t @ c # u) c = int (length t)"
  by (induction t) (auto simp: Let_def)

lemma IndexByte_found: "0 \<le> IndexByte s c \<longleftrightarrow> c \<in> set s"
  by (induction s) (auto simp: Let_def)

lemma validContentType_iff [simp]: "validContentType s \<longleftrightarrow> ValidMediaContentType s"
proof (cases "CHR ''/'' \<in> set s")
  case True
  then obtain t u where s: "s = t @ CHR ''/'' # u" and t: "CHR ''/'' \<notin> set t" by (meson split_list_first)
  have d: "drop (nat (int (length t) + 1)) s = u" by (simp add: s nat_add_distrib)
  have "IndexByte s (CHR ''/'') = int (length t)" using IndexByte_first [OF t] s by simp
  moreover have "find_slash 0 (-1) s = (if CHR ''/'' \<in> set u then None else Some (int (length t)))"
    using find_slash_first [OF t, of 0 u] s by simp
  ultimately show ?thesis
    by (auto simp: validContentType_def ValidMediaContentType_def Let_def d IndexByte_found)
next
  case False
  then show ?thesis
    using find_slash_none [of s 0] by (simp add: validContentType_def ValidMediaContentType_def IndexByte_none)
qed

lemma is_lower_hex_cases: "is_lower_hex c \<Longrightarrow> is_digit c \<or> 97 \<le> code c \<and> code c \<le> 102"
  by (auto simp: is_lower_hex_def less_eq_char_def)

lemma hexNibble_digit: "is_lower_hex c \<Longrightarrow> hexNibble c < 16 \<and> hex_digit (hexNibble c) = c"
  by (drule is_lower_hex_cases) (auto simp: hexNibble_def hex_digit_def is_digit_code less_eq_char_def)

lemma hexNibble_hex_digit: "d < 16 \<Longrightarrow> hexNibble (hex_digit d) = d"
  by (auto simp: hexNibble_def hex_digit_def less_eq_char_def)

lemma hex_bytes_encode [simp]: "hex_bytes (hex_encode s) = s"
proof (induction s)
  case (Cons c s)
  have "code c div 16 < 16" using code_less [of c] by (simp add: less_mult_imp_div_less)
  then show ?case using Cons by (simp add: hexNibble_hex_digit)
qed simp

lemma hex_encode_bytes: "list_all is_lower_hex s \<Longrightarrow> even (length s) \<Longrightarrow> hex_encode (hex_bytes s) = s"
proof (induction s rule: hex_bytes.induct)
  case (1 a b r)
  then have ab: "hexNibble a < 16" "hexNibble b < 16" "hex_digit (hexNibble a) = a" "hex_digit (hexNibble b) = b"
    using hexNibble_digit by auto
  have c: "code (char_of (hexNibble a * 16 + hexNibble b)) = hexNibble a * 16 + hexNibble b" using ab by simp
  show ?case using 1 ab c by simp
qed auto

lemma hex_bytes_length: "length (hex_bytes s) = length s div 2"
  by (induction s rule: hex_bytes.induct) auto


section \<open>The object store port\<close>

text \<open>
  What the media service relies on: a put that succeeds leaves an object of exactly the expected size and digest under
  its key, and no put ever takes an object away or changes it.
\<close>

locale object_store =
  fixes put :: "'e \<Rightarrow> bytes \<Rightarrow> 'c \<Rightarrow> ObjectInfo \<Rightarrow> 'fs \<Rightarrow> (mediaCode, ObjectInfo) result \<times> 'fs"
    and has_object :: "'fs \<Rightarrow> bytes \<Rightarrow> ObjectInfo \<Rightarrow> bool"
  assumes put_stores: "put env key content expected fs = (Inr actual, fs') \<Longrightarrow> actual = expected \<and> has_object fs' key expected"
    and put_keeps: "put env key content expected fs = (r, fs') \<Longrightarrow> has_object fs k info \<Longrightarrow> ident128 k \<Longrightarrow> has_object fs' k info"

end
