(* ===== verification/LocalFS.thy ===== *)
theory LocalFS
  imports MediaTypes Database
begin

text \<open>
  The object store of \<^verbatim>\<open>server/media/localfs/store.go\<close>: bounded copying, temporary files, publication by a hard link that
  never overwrites, and verification of what is already there. \<^verbatim>\<open>Open\<close> and the directory's ownership checks are the
  operating system's business and not modelled.
\<close>

section \<open>Copying\<close>

text \<open>A reader delivers chunks and then ends or fails; a context that is done fails the loop at its next turn.\<close>

datatype readEnd = ReadEOF | ReadError

record reader =
  rd_chunks :: "bytes list"
  rd_end :: readEnd

datatype copyError = ObjectTooLarge | CopyFailed

definition maxObjectBytes :: int where "maxObjectBytes = MaxMediaSize"

fun copyBounded :: "int \<Rightarrow> bytes \<Rightarrow> bytes list \<Rightarrow> readEnd \<Rightarrow> (copyError, int \<times> bytes) result" where
  "copyBounded sofar written [] ending = (case ending of ReadEOF \<Rightarrow> Inr (sofar, written) | ReadError \<Rightarrow> Inl CopyFailed)"
| "copyBounded sofar written (chunk # rest) ending =
     (if maxObjectBytes - int (length chunk) < sofar then Inl ObjectTooLarge
      else
        let sofar' = sofar + int (length chunk) in
        if maxObjectBytes + 1 - sofar' \<le> 0 then Inl ObjectTooLarge
        else copyBounded sofar' (written @ chunk) rest ending)"

definition mapReadError :: "copyError \<Rightarrow> mediaCode" where
  "mapReadError err = (case err of ObjectTooLarge \<Rightarrow> MediaInvalidInput | CopyFailed \<Rightarrow> MediaStorageUnavailable)"

definition inspectBounded :: "reader \<Rightarrow> (copyError, ObjectInfo) result" where
  "inspectBounded content =
     bindR (copyBounded 0 [] (rd_chunks content) (rd_end content)) (\<lambda>(count, data). Inr \<lparr>oi_Size = count, oi_SHA256 = sha256 data\<rparr>)"

section \<open>The directory\<close>

text \<open>
  Below the root are regular files with a content, and whatever else may carry a name (a symbolic link, a directory). The
  environment says which system calls fail and what had reached the temporary file when the copy did; a link reports
  \<^verbatim>\<open>ErrExist\<close> when the name is taken.
\<close>

datatype fsEntry = Regular bytes | Special

type_synonym fsDir = "fsEntry table"

record fsEnv =
  fe_ctxDone :: bool
  fe_lstat :: bool
  fe_temp :: "bytes option"
  fe_write :: bool
  fe_partial :: bytes
  fe_sync :: bool
  fe_close :: bool
  fe_link :: bool
  fe_remove :: bool
  fe_open :: bool
  fe_readback :: bool
  fe_syncRoot :: bool

definition validObjectKey :: "bytes \<Rightarrow> bool" where
  "validObjectKey key =
     (if length key = 0 \<or> 128 < length key then False
      else list_all (\<lambda>ch. is_upper ch \<or> is_lower ch \<or> is_digit ch \<or> ch = CHR ''_'' \<or> ch = CHR ''-'') key)"

definition ValidObjectInfo :: "ObjectInfo \<Rightarrow> bool" where
  "ValidObjectInfo info \<longleftrightarrow> 1 \<le> oi_Size info \<and> oi_Size info \<le> MaxMediaSize"

definition verifyExisting :: "fsEnv \<Rightarrow> bytes \<Rightarrow> ObjectInfo \<Rightarrow> fsDir \<Rightarrow> (mediaCode, ObjectInfo) result" where
  "verifyExisting env key expected dir =
     (case map_of dir key of
        None \<Rightarrow> Inl MediaConflict
      | Some Special \<Rightarrow> Inl MediaConflict
      | Some (Regular data) \<Rightarrow>
          if int (length data) \<noteq> oi_Size expected then Inl MediaConflict
          else if fe_open env then Inl MediaStorageUnavailable
          else (case copyBounded 0 [] [data] (if fe_readback env then ReadError else ReadEOF) of
              Inl _ \<Rightarrow> Inl MediaConflict
            | Inr (count, content) \<Rightarrow>
                if count \<noteq> oi_Size expected \<or> sha256 content \<noteq> oi_SHA256 expected then Inl MediaConflict else Inr expected))"

definition verifyExistingDurable :: "fsEnv \<Rightarrow> bytes \<Rightarrow> ObjectInfo \<Rightarrow> fsDir \<Rightarrow> (mediaCode, ObjectInfo) result" where
  "verifyExistingDurable env key expected dir =
     bindR (verifyExisting env key expected dir) (\<lambda>actual.
       if fe_syncRoot env then Inl MediaStorageUnavailable else Inr actual)"

text \<open>
  \<^verbatim>\<open>PutImmutable\<close>: the directory is \<open>dir\<close> when the key is looked up and \<open>dir1\<close> when the temporary file is linked, since
  another writer may publish in between. Temporary files are removed or, when the removal fails, stay under their own
  name, which no object key can be.
\<close>

definition tempName :: "bytes \<Rightarrow> bytes" where
  "tempName raw = ''.tmp-'' @ hex_encode raw"

definition leftTemp :: "fsEnv \<Rightarrow> bytes \<Rightarrow> bytes \<Rightarrow> fsDir \<Rightarrow> fsDir" where
  "leftTemp env raw data dir = (if fe_remove env then (tempName raw, Regular data) # dir else dir)"

definition PutImmutable ::
  "goContext \<Rightarrow> fsEnv \<Rightarrow> bytes \<Rightarrow> reader \<Rightarrow> ObjectInfo \<Rightarrow> fsDir \<Rightarrow> fsDir \<Rightarrow> (mediaCode, ObjectInfo) result \<times> fsDir" where
  "PutImmutable ctx env key content expected dir dir1 =
     (if ctx = None \<or> \<not> validObjectKey key \<or> \<not> ValidObjectInfo expected then (Inl MediaInvalidInput, dir1)
      else if fe_ctxDone env then (Inl MediaStorageUnavailable, dir1)
      else if fe_lstat env then (Inl MediaStorageUnavailable, dir1)
      else if map_of dir key \<noteq> None then
        (case inspectBounded content of
           Inl e \<Rightarrow> (Inl (mapReadError e), dir1)
         | Inr incoming \<Rightarrow>
             if incoming \<noteq> expected then (Inl MediaConflict, dir1)
             else (verifyExistingDurable env key expected dir1, dir1))
      else (case fe_temp env of
          None \<Rightarrow> (Inl MediaStorageUnavailable, dir1)
        | Some raw \<Rightarrow>
            if fe_write env then (Inl MediaStorageUnavailable, leftTemp env raw (fe_partial env) dir1)
            else (case copyBounded 0 [] (rd_chunks content) (rd_end content) of
                Inl e \<Rightarrow> (Inl (mapReadError e), leftTemp env raw (fe_partial env) dir1)
              | Inr (count, data) \<Rightarrow>
                  let actual = \<lparr>oi_Size = count, oi_SHA256 = sha256 data\<rparr> in
                  if actual \<noteq> expected then (Inl MediaInvalidInput, leftTemp env raw data dir1)
                  else if fe_sync env \<or> fe_close env then (Inl MediaStorageUnavailable, leftTemp env raw data dir1)
                  else if map_of dir1 key \<noteq> None then
                    (if fe_remove env then (Inl MediaStorageUnavailable, leftTemp env raw data dir1)
                     else (verifyExistingDurable env key expected dir1, dir1))
                  else if fe_link env then (Inl MediaStorageUnavailable, leftTemp env raw data dir1)
                  else
                    let dir2 = (key, Regular data) # dir1 in
                    if fe_remove env then (Inl MediaStorageUnavailable, leftTemp env raw data dir2)
                    else if fe_syncRoot env then (Inl MediaStorageUnavailable, dir2)
                    else (Inr expected, dir2))))"

section \<open>Objects are immutable\<close>

definition holds :: "fsDir \<Rightarrow> bytes \<Rightarrow> ObjectInfo \<Rightarrow> bool" where
  "holds dir key info \<longleftrightarrow> (case map_of dir key of
       Some (Regular data) \<Rightarrow> oi_Size info = int (length data) \<and> oi_SHA256 info = sha256 data
     | _ \<Rightarrow> False)"

lemma copyBounded_copies:
  "copyBounded n written pieces ending = Inr (count, data) \<Longrightarrow>
     ending = ReadEOF \<and> data = written @ concat pieces \<and> count = n + int (length (concat pieces)) \<and>
     (pieces \<noteq> [] \<longrightarrow> count \<le> maxObjectBytes)"
proof (induction n written pieces ending rule: copyBounded.induct)
  case (1 n written ending)
  then show ?case by (simp split: readEnd.splits)
next
  case (2 n written chunk rest ending)
  then show ?case by (cases rest) (auto simp: Let_def split: if_splits readEnd.splits)
qed

lemma validObjectKey_ident [simp]: "validObjectKey key \<longleftrightarrow> ident128 key"
  by (auto simp: validObjectKey_def ident128_def ident_byte_def list_all_iff)

lemma tempName_no_key: "ident128 key \<Longrightarrow> tempName raw \<noteq> key"
  by (auto simp: tempName_def ident128_def ident_byte_def is_upper_code is_lower_code is_digit_code)

lemma leftTemp_lookup: "ident128 key \<Longrightarrow> map_of (leftTemp env raw data dir) key = map_of dir key"
  using tempName_no_key [of key raw] by (auto simp: leftTemp_def)

lemma verifyExisting_holds:
  assumes "verifyExistingDurable env key expected dir = Inr a"
  shows "a = expected \<and> holds dir key expected"
proof -
  have "verifyExisting env key expected dir = Inr a"
    using assms by (auto simp: verifyExistingDurable_def bindR_eq_Inr split: if_splits)
  then show ?thesis
    by (auto simp: verifyExisting_def holds_def dest!: copyBounded_copies
        split: option.splits fsEntry.splits if_splits sum.splits)
qed


text \<open>What \<^verbatim>\<open>PutImmutable\<close> may do to the directory: nothing, leave a temporary file, publish the copied content.\<close>

lemma PutImmutable_cases:
  assumes "PutImmutable ctx env key content expected dir dir1 = (r, d)"
  obtains (same) data raw where "d = dir1 \<or> d = leftTemp env raw data dir1" "\<And>a. r \<noteq> Inr a"
  | (existing) "d = dir1" "r = verifyExistingDurable env key expected dir1"
  | (published) data raw where "d = leftTemp env raw data ((key, Regular data) # dir1)" "map_of dir1 key = None" "ident128 key"
      "expected = \<lparr>oi_Size = int (length data), oi_SHA256 = sha256 data\<rparr>" "\<And>a. r = Inr a \<Longrightarrow> a = expected"
proof -
  have "(d = dir1 \<or> (\<exists>data raw. d = leftTemp env raw data dir1)) \<and> (\<forall>a. r \<noteq> Inr a) \<or>
    d = dir1 \<and> r = verifyExistingDurable env key expected dir1 \<or>
    (\<exists>data raw. d = leftTemp env raw data ((key, Regular data) # dir1) \<and> map_of dir1 key = None \<and> ident128 key \<and>
      expected = \<lparr>oi_Size = int (length data), oi_SHA256 = sha256 data\<rparr> \<and> (\<forall>a. r = Inr a \<longrightarrow> a = expected))"
  proof (cases "copyBounded 0 [] (rd_chunks content) (rd_end content)")
    case (Inl e)
    then show ?thesis using assms by (auto simp: PutImmutable_def inspectBounded_def split: if_splits option.splits)
  next
    case (Inr cd)
    obtain count data where cd: "cd = (count, data)" by (cases cd)
    have n: "count = int (length data)" using copyBounded_copies [OF Inr [unfolded cd]] by simp
    have l: "dir2 = leftTemp env raw data dir2" if "\<not> fe_remove env" for dir2 raw using that by (simp add: leftTemp_def)
    show ?thesis
      using assms l unfolding PutImmutable_def inspectBounded_def Inr cd n Let_def
      by (auto split: if_splits option.splits)
  qed
  then show thesis using same existing published by blast
qed


section \<open>The directory is a write-once map\<close>

definition objectInfo :: "bytes \<Rightarrow> ObjectInfo" where
  "objectInfo data = \<lparr>oi_Size = int (length data), oi_SHA256 = sha256 data\<rparr>"

definition objects :: "fsDir \<Rightarrow> bytes \<rightharpoonup> bytes" where
  "objects dir key = (if \<not> ident128 key then None
     else case map_of dir key of Some (Regular data) \<Rightarrow> Some data | _ \<Rightarrow> None)"

text \<open>The abstract operation: add a content under a free key or do nothing; success means the key has such a content.\<close>

definition writeOnce :: "(bytes \<rightharpoonup> bytes) \<Rightarrow> bytes \<Rightarrow> ObjectInfo \<Rightarrow> bool \<Rightarrow> (bytes \<rightharpoonup> bytes) \<Rightarrow> bool" where
  "writeOnce m key expected success m' \<longleftrightarrow>
     (m' = m \<or> m key = None \<and> (\<exists>data. objectInfo data = expected \<and> m' = m(key \<mapsto> data))) \<and>
     (success \<longrightarrow> (\<exists>data. m' key = Some data \<and> objectInfo data = expected))"

lemma objects_leftTemp [simp]: "objects (leftTemp env raw data dir) = objects dir"
  by (rule ext) (simp add: objects_def leftTemp_lookup)

lemma objects_Cons: "ident128 key \<Longrightarrow> objects ((key, Regular data) # dir) = (objects dir)(key \<mapsto> data)"
  by (rule ext) (simp add: objects_def)

lemma holds_objects: "ident128 key \<Longrightarrow> holds dir key info \<longleftrightarrow> (\<exists>data. objects dir key = Some data \<and> objectInfo data = info)"
  by (cases info) (auto simp: holds_def objects_def objectInfo_def split: option.splits fsEntry.splits)

lemma PutImmutable_key: "PutImmutable ctx env key content expected dir dir1 = (Inr a, d) \<Longrightarrow> ident128 key"
  by (auto simp: PutImmutable_def split: if_splits)

lemma PutImmutable_writeOnce:
  assumes "PutImmutable ctx env key content expected dir dir1 = (r, d)"
  shows "writeOnce (objects dir1) key expected (is_ok r) (objects d)"
  using assms
proof (cases rule: PutImmutable_cases)
  case (same data raw)
  then show ?thesis by (auto simp: writeOnce_def is_ok_iff)
next
  case existing
  have "\<exists>data. objects d key = Some data \<and> objectInfo data = expected" if "is_ok r"
    using that existing verifyExisting_holds PutImmutable_key assms holds_objects by (metis is_ok_iff)
  then show ?thesis using existing by (simp add: writeOnce_def)
next
  case (published data raw)
  then show ?thesis by (auto simp: writeOnce_def objects_Cons objectInfo_def objects_def)
qed

abbreviation localPut :: "goContext \<times> fsEnv \<times> fsDir \<Rightarrow> bytes \<Rightarrow> reader \<Rightarrow> ObjectInfo \<Rightarrow> fsDir \<Rightarrow> (mediaCode, ObjectInfo) result \<times> fsDir" where
  "localPut \<equiv> \<lambda>(ctx, env, dir) key content expected. PutImmutable ctx env key content expected dir"

interpretation localfs: object_store localPut holds
proof (unfold_locales, goal_cases)
  case (1 e key content expected fs actual fs')
  obtain ctx env dir where e: "e = (ctx, env, dir)" by (cases e)
  note p = 1 [unfolded e, simplified]
  have "actual = expected" using p by (cases rule: PutImmutable_cases) (auto dest: verifyExisting_holds [OF sym])
  then show ?case using PutImmutable_writeOnce [OF p] PutImmutable_key [OF p] by (auto simp: writeOnce_def holds_objects)
next
  case (2 e key content expected fs r fs' k info)
  obtain ctx env dir where e: "e = (ctx, env, dir)" by (cases e)
  note w = PutImmutable_writeOnce [OF 2(1) [unfolded e, simplified]]
  show ?case using w 2(2,3) unfolding writeOnce_def holds_objects [OF 2(3)] by fastforce
qed

text \<open>
  C32. The object store refines a write-once map. Whatever fails and whoever else writes, \<^verbatim>\<open>PutImmutable\<close> leaves every
  stored object as it is, adds at most the one under its own key, if that key was free, with content of exactly the
  expected size and SHA-256 digest, and reports success only when such an object is there.
\<close>

theorem put_refines_write_once:
  assumes "PutImmutable ctx env key content expected dir dir1 = (r, d)"
  shows "writeOnce (objects dir1) key expected (is_ok r) (objects d)"
  using assms by (rule PutImmutable_writeOnce)

definition goodFs :: fsEnv where
  "goodFs = \<lparr>fe_ctxDone = False, fe_lstat = False, fe_temp = Some (replicate 16 (CHR ''t'')), fe_write = False, fe_partial = [], fe_sync = False,
     fe_close = False, fe_link = False, fe_remove = False, fe_open = False, fe_readback = False, fe_syncRoot = False\<rparr>"

definition sampleReader :: reader where
  "sampleReader = \<lparr>rd_chunks = [''hel'', ''lo''], rd_end = ReadEOF\<rparr>"

lemma copyBounded_total:
  assumes "n + int (length (concat pieces)) \<le> maxObjectBytes"
  shows "copyBounded n written pieces ReadEOF = Inr (n + int (length (concat pieces)), written @ concat pieces)"
  using assms by (induction n written pieces ReadEOF rule: copyBounded.induct) (auto simp: Let_def)

lemma put_fresh:
  assumes "ident128 key" "map_of dir key = None" "rd_end content = ReadEOF"
    "1 \<le> length (concat (rd_chunks content))" "int (length (concat (rd_chunks content))) \<le> MaxMediaSize"
  shows "PutImmutable (Some c) goodFs key content (objectInfo (concat (rd_chunks content))) dir dir =
    (Inr (objectInfo (concat (rd_chunks content))), (key, Regular (concat (rd_chunks content))) # dir)"
  using assms copyBounded_total [of 0 "rd_chunks content" "[]"]
  by (simp add: PutImmutable_def goodFs_def objectInfo_def ValidObjectInfo_def maxObjectBytes_def)

lemma sample_put:
  "PutImmutable (Some False) goodFs ''k1'' sampleReader (objectInfo ''hello'') [] [] =
     (Inr (objectInfo ''hello''), [(''k1'', Regular ''hello'')])"
proof -
  have "ident128 ''k1''" by code_simp
  then show ?thesis
    by (simp add: PutImmutable_def goodFs_def sampleReader_def objectInfo_def ValidObjectInfo_def MaxMediaSize_def
        maxObjectBytes_def)
qed

theorem put_refines_write_once_witness:
  "writeOnce (objects []) ''k1'' (objectInfo ''hello'') True (objects [(''k1'', Regular ''hello'')])"
  using put_refines_write_once [OF sample_put] by simp

end
