(* ===== verification/MediaStore.thy ===== *)
theory MediaStore
  imports MediaTypes AuthStore
begin

text \<open>
  The media repository of \<^verbatim>\<open>server/storage/media/repository.go\<close> over the table of
  \<^verbatim>\<open>infra/db/migrations/005_media_assets.sql\<close>: upload grants, their completion, and the authorization queries that join
  the media table with memberships, sessions and tokens.
\<close>

section \<open>Tables and errors\<close>

text \<open>A row of \<^verbatim>\<open>im_media_assets\<close> has the columns of a \<^verbatim>\<open>Grant\<close>; the other tables are the ones the queries join.\<close>

record mediadb =
  mb_auth :: authdb
  mb_members :: "(bytes \<times> bytes) list"
  mb_assets :: "Grant list"

definition mapMediaError :: "driverError \<Rightarrow> mediaCode" where
  "mapMediaError err = (case err of
       PgError c \<Rightarrow>
         if c = ''23505'' then MediaGrantCollision
         else if c = ''23503'' \<or> c = ''23514'' then MediaUnauthorized
         else MediaStorageUnavailable
     | _ \<Rightarrow> MediaStorageUnavailable)"

text \<open>
  The query of \<^verbatim>\<open>authorizeTx\<close> and \<^verbatim>\<open>Authorize\<close>: a membership, and a live session with a live token, all of the caller.
\<close>

definition liveIdentity :: "mediadb \<Rightarrow> instant \<Rightarrow> ConnectionIdentity \<Rightarrow> bytes \<Rightarrow> bool" where
  "liveIdentity db now identity conv \<longleftrightarrow>
     (conv, ci_userID identity) \<in> set (mb_members db) \<and>
     (case map_of (db_sessions (mb_auth db)) (ci_sessionID identity) of
        None \<Rightarrow> False
      | Some s \<Rightarrow> ss_user s = ci_userID identity \<and> ss_device s = ci_deviceID identity \<and> ss_revoked s = None) \<and>
     (case map_of (db_tokens (mb_auth db)) (ci_tokenID identity) of
        None \<Rightarrow> False
      | Some t \<Rightarrow> tk_session t = ci_sessionID identity \<and> tk_revoked t = None \<and> truncMicro now < tk_expires t)"

definition authorizeTx :: "txEnv \<Rightarrow> mediadb \<Rightarrow> instant \<Rightarrow> ConnectionIdentity \<Rightarrow> bytes \<Rightarrow> (mediaCode, unit) result" where
  "authorizeTx env db now identity conv =
     (case tx_stmt env 0 of
        Some e \<Rightarrow> Inl (mapMediaError e)
      | None \<Rightarrow> if liveIdentity db now identity conv then Inr () else Inl MediaUnauthorized)"

section \<open>Operations\<close>

definition scanGrant :: "Grant \<Rightarrow> (mediaCode, Grant) result" where
  "scanGrant g = (if length (g_SHA256 g) \<noteq> 32 \<or> length (g_GrantDigest g) \<noteq> 32 then Inl MediaStorageUnavailable else Inr g)"

definition grantOfIdentity :: "Grant \<Rightarrow> ConnectionIdentity \<Rightarrow> bool" where
  "grantOfIdentity g identity \<longleftrightarrow> g_OwnerUserID g = ci_userID identity \<and> g_DeviceID g = ci_deviceID identity \<and>
     g_SessionID g = ci_sessionID identity \<and> g_ConnectionID g = ci_connectionID identity \<and> g_TokenID g = ci_tokenID identity"

text \<open>
  The insert does nothing on a conflict with one of the unique keys; its check constraints on lengths fail with
  \<^verbatim>\<open>23514\<close>. \<^verbatim>\<open>timestamptz\<close> keeps microseconds.
\<close>

definition insertGrant :: "Grant list \<Rightarrow> Grant \<Rightarrow> (driverError, Grant list option) result" where
  "insertGrant assets g =
     (if length (g_SHA256 g) \<noteq> 32 \<or> length (g_GrantDigest g) \<noteq> 32 then Inl (PgError ''23514'')
      else if g_MediaKey g \<in> set (map g_MediaKey assets) \<or> g_GrantID g \<in> set (map g_GrantID assets) \<or>
         g_GrantDigest g \<in> set (map g_GrantDigest assets) then Inr None
      else Inr (Some (g\<lparr>g_ActualSize := None, g_ExpiresAt := truncMicro (g_ExpiresAt g), g_CompletedAt := None,
             g_State := StatePending\<rparr> # assets)))"

definition Repo_BeginUpload ::
  "goContext \<Rightarrow> txEnv \<Rightarrow> instant \<Rightarrow> ConnectionIdentity \<Rightarrow> bytes \<Rightarrow> ('s \<Rightarrow> (mediaCode, Grant) result \<times> 's) \<Rightarrow> 's \<Rightarrow> mediadb \<Rightarrow>
   (mediaCode, unit) result \<times> 's \<times> mediadb" where
  "Repo_BeginUpload ctx env now identity conv create s db =
     (if ctx = None \<or> now = zeroTime \<or> \<not> ValidateIdentity identity \<or> \<not> validIdentifier conv then (Inl MediaInvalidInput, s, db)
      else case tx_begin env of
        Some e \<Rightarrow> (Inl (mapMediaError e), s, db)
      | None \<Rightarrow> (case authorizeTx env db now identity conv of
          Inl e \<Rightarrow> (Inl e, s, db)
        | Inr _ \<Rightarrow> (case create s of
            (Inl e, s') \<Rightarrow> (Inl e, s', db)
          | (Inr g, s') \<Rightarrow>
              if \<not> ValidGrant g \<or> g_State g \<noteq> StatePending \<or> \<not> grantOfIdentity g identity \<or> g_ConversationID g \<noteq> conv
              then (Inl MediaStorageUnavailable, s', db)
              else (case tx_stmt env 1 of
                  Some e \<Rightarrow> (Inl (mapMediaError e), s', db)
                | None \<Rightarrow> (case insertGrant (mb_assets db) g of
                    Inl e \<Rightarrow> (Inl (mapMediaError e), s', db)
                  | Inr None \<Rightarrow> (Inl MediaGrantCollision, s', db)
                  | Inr (Some assets) \<Rightarrow>
                      (case finish (goodEnv\<lparr>env_commit := tx_commit env\<rparr>) MediaStorageUnavailable db (db\<lparr>mb_assets := assets\<rparr>) () of
                         (r, db') \<Rightarrow> (r, s', db')))))))"

definition identifierText :: "bytes \<Rightarrow> bool" where
  "identifierText value \<longleftrightarrow> length value = 32 \<and> validIdentifier value"

definition LoadGrant :: "goContext \<Rightarrow> txEnv \<Rightarrow> bytes \<Rightarrow> mediadb \<Rightarrow> (mediaCode, Grant) result" where
  "LoadGrant ctx env grantID db =
     (if ctx = None \<or> \<not> identifierText grantID then Inl MediaNotFound
      else case tx_begin env of
        Some e \<Rightarrow> Inl (mapMediaError e)
      | None \<Rightarrow> (case tx_stmt env 0 of
          Some e \<Rightarrow> Inl (mapMediaError e)
        | None \<Rightarrow> (case find (\<lambda>g. g_GrantID g = grantID) (mb_assets db) of
            None \<Rightarrow> Inl MediaNotFound
          | Some row \<Rightarrow> bindR (scanGrant row) (\<lambda>g.
              if tx_commit env \<noteq> Committed then Inl MediaStorageUnavailable else Inr g))))"

definition sameGrantIntent :: "Grant \<Rightarrow> Grant \<Rightarrow> bool" where
  "sameGrantIntent left right \<longleftrightarrow>
     g_MediaKey left = g_MediaKey right \<and> g_OwnerUserID left = g_OwnerUserID right \<and> g_DeviceID left = g_DeviceID right \<and>
     g_SessionID left = g_SessionID right \<and> g_ConnectionID left = g_ConnectionID right \<and> g_TokenID left = g_TokenID right \<and>
     g_ConversationID left = g_ConversationID right \<and> g_Kind left = g_Kind right \<and> g_ContentType left = g_ContentType right \<and>
     g_DeclaredSize left = g_DeclaredSize right \<and> g_SHA256 left = g_SHA256 right \<and> g_GrantID left = g_GrantID right \<and>
     g_GrantDigest left = g_GrantDigest right"

text \<open>The rows the completing update matches, and what it makes of one.\<close>

definition completes :: "Grant \<Rightarrow> Grant \<Rightarrow> bool" where
  "completes g row \<longleftrightarrow> g_MediaKey row = g_MediaKey g \<and> g_GrantID row = g_GrantID g \<and> g_GrantDigest row = g_GrantDigest g \<and>
     g_State row = StatePending \<and> g_OwnerUserID row = g_OwnerUserID g \<and> g_DeviceID row = g_DeviceID g \<and>
     g_SessionID row = g_SessionID g \<and> g_ConnectionID row = g_ConnectionID g \<and> g_TokenID row = g_TokenID g"

definition readyRow :: "instant \<Rightarrow> Grant \<Rightarrow> Grant" where
  "readyRow now row = row\<lparr>g_ActualSize := Some (g_DeclaredSize row), g_CompletedAt := Some (truncMicro now), g_State := StateReady\<rparr>"

definition CompleteReady ::
  "goContext \<Rightarrow> txEnv \<Rightarrow> instant \<Rightarrow> ConnectionIdentity \<Rightarrow> Grant \<Rightarrow> mediadb \<Rightarrow> (mediaCode, Grant) result \<times> mediadb" where
  "CompleteReady ctx env now identity g db =
     (if ctx = None \<or> now = zeroTime \<or> \<not> ValidateIdentity identity \<or> \<not> ValidGrant g then (Inl MediaInvalidInput, db)
      else case tx_begin env of
        Some e \<Rightarrow> (Inl (mapMediaError e), db)
      | None \<Rightarrow> (case authorizeTx env db now identity (g_ConversationID g) of
          Inl e \<Rightarrow> (Inl e, db)
        | Inr _ \<Rightarrow> (case tx_stmt env 1 of
            Some e \<Rightarrow> (Inl (mapMediaError e), db)
          | None \<Rightarrow> (case find (completes g) (mb_assets db) of
              None \<Rightarrow> (case tx_stmt env 2 of
                  Some e \<Rightarrow> (Inl (mapMediaError e), db)
                | None \<Rightarrow> (case find (\<lambda>row. g_MediaKey row = g_MediaKey g) (mb_assets db) of
                    None \<Rightarrow> (Inl MediaStorageUnavailable, db)
                  | Some row \<Rightarrow> (case scanGrant row of
                      Inl e \<Rightarrow> (Inl e, db)
                    | Inr existing \<Rightarrow>
                        if g_State existing = StateReady \<and> sameGrantIntent existing g then (Inr existing, db)
                        else (Inl MediaConflict, db))))
            | Some row \<Rightarrow>
                let db' = db\<lparr>mb_assets := map (\<lambda>r. if completes g r then readyRow now r else r) (mb_assets db)\<rparr> in
                (case scanGrant (readyRow now row) of
                   Inl e \<Rightarrow> (Inl e, db)
                 | Inr ready \<Rightarrow>
                     if \<not> ValidGrant ready \<or> g_State ready \<noteq> StateReady then (Inl MediaStorageUnavailable, db)
                     else finish (goodEnv\<lparr>env_commit := tx_commit env\<rparr>) MediaStorageUnavailable db db' ready)))))"

definition LoadReadyAsset :: "goContext \<Rightarrow> txEnv \<Rightarrow> bytes \<Rightarrow> mediadb \<Rightarrow> (mediaCode, Grant) result" where
  "LoadReadyAsset ctx env mediaKey db =
     (if ctx = None \<or> \<not> validIdentifier mediaKey then Inl MediaNotFound
      else case tx_stmt env 0 of
        Some e \<Rightarrow> Inl (mapMediaError e)
      | None \<Rightarrow> (case find (\<lambda>g. g_MediaKey g = mediaKey \<and> g_State g = StateReady) (mb_assets db) of
          None \<Rightarrow> Inl MediaNotFound
        | Some row \<Rightarrow> scanGrant row))"

definition Authorize :: "goContext \<Rightarrow> txEnv \<Rightarrow> instant \<Rightarrow> ConnectionIdentity \<Rightarrow> bytes \<Rightarrow> mediadb \<Rightarrow> (mediaCode, unit) result" where
  "Authorize ctx env now identity conv db =
     (if ctx = None \<or> now = zeroTime \<or> \<not> ValidateIdentity identity \<or> \<not> validIdentifier conv then Inl MediaUnauthorized
      else authorizeTx env db now identity conv)"

text \<open>The join of \<^verbatim>\<open>ValidateReadyForSend\<close>: the session and the token are the asset's own, and so the caller's.\<close>

definition sendableAsset :: "mediadb \<Rightarrow> instant \<Rightarrow> ConnectionIdentity \<Rightarrow> bytes \<Rightarrow> Metadata \<Rightarrow> Grant \<Rightarrow> bool" where
  "sendableAsset db now identity conv m a \<longleftrightarrow>
     g_MediaKey a = md_MediaKey m \<and> g_State a = StateReady \<and> grantOfIdentity a identity \<and> g_ConversationID a = conv \<and>
     g_Kind a = md_Kind m \<and> g_ContentType a = md_ContentType m \<and> g_DeclaredSize a = md_Size m \<and>
     g_ActualSize a = Some (md_Size m) \<and> g_SHA256 a = md_SHA256 m \<and>
     (g_ConversationID a, g_OwnerUserID a) \<in> set (mb_members db) \<and>
     (case map_of (db_sessions (mb_auth db)) (g_SessionID a) of
        None \<Rightarrow> False
      | Some s \<Rightarrow> ss_user s = g_OwnerUserID a \<and> ss_device s = g_DeviceID a \<and> ss_revoked s = None) \<and>
     (case map_of (db_tokens (mb_auth db)) (g_TokenID a) of
        None \<Rightarrow> False
      | Some t \<Rightarrow> tk_session t = g_SessionID a \<and> tk_revoked t = None \<and> truncMicro now < tk_expires t)"

definition ValidateReadyForSend ::
  "goContext \<Rightarrow> txEnv \<Rightarrow> instant \<Rightarrow> ConnectionIdentity \<Rightarrow> bytes \<Rightarrow> Metadata \<Rightarrow> mediadb \<Rightarrow> (mediaCode, unit) result" where
  "ValidateReadyForSend ctx env now identity conv m db =
     (if ctx = None \<or> now = zeroTime \<or> \<not> ValidateIdentity identity \<or> \<not> validIdentifier conv \<or> \<not> ValidMetadata m
      then Inl MediaInvalidInput
      else case tx_stmt env 0 of
        Some e \<Rightarrow> Inl (mapMediaError e)
      | None \<Rightarrow> if list_ex (sendableAsset db now identity conv m) (mb_assets db) then Inr () else Inl MediaUnauthorized)"

end
