(* ===== verification/MediaService.thy ===== *)
theory MediaService
  imports MediaStore
begin

text \<open>
  The media service of \<^verbatim>\<open>server/media/service.go\<close> over the repository. The object store and the URL signer are
  parameters, as the interfaces \<^verbatim>\<open>ObjectStore\<close> and \<^verbatim>\<open>Signer\<close> are; every store call has its own luck and may see other
  tables than the call before it. The observer is left out.
\<close>

section \<open>Construction and tokens\<close>

definition Media_NewService :: "bool \<Rightarrow> bool \<Rightarrow> int \<Rightarrow> (mediaCode, int) result" where
  "Media_NewService hasStore hasClock requestTimeout =
     (if \<not> hasStore \<or> \<not> hasClock then Inl MediaInvalidInput
      else
        let timeout = (if requestTimeout = 0 then 5 * second else requestTimeout) in
        if timeout < millisecond \<or> 5 * second < timeout then Inl MediaInvalidInput else Inr timeout)"

definition rawGrant :: "bytes \<Rightarrow> bytes \<Rightarrow> bytes" where
  "rawGrant grantIDBytes secretBytes = hex_encode grantIDBytes @ ''.'' @ b64_encode secretBytes"

definition pendingGrant :: "ConnectionIdentity \<Rightarrow> bytes \<Rightarrow> UploadIntent \<Rightarrow> instant \<Rightarrow> bytes \<Rightarrow> bytes \<Rightarrow> bytes \<Rightarrow> Grant" where
  "pendingGrant identity conv i expiresAt mediaKey grantID digest =
     \<lparr>g_MediaKey = mediaKey, g_OwnerUserID = ci_userID identity, g_DeviceID = ci_deviceID identity,
      g_SessionID = ci_sessionID identity, g_ConnectionID = ci_connectionID identity, g_TokenID = ci_tokenID identity,
      g_ConversationID = conv, g_Kind = ui_Kind i, g_ContentType = ui_ContentType i, g_DeclaredSize = ui_Size i,
      g_ActualSize = None, g_SHA256 = ui_SHA256 i, g_GrantID = grantID, g_GrantDigest = digest, g_ExpiresAt = expiresAt,
      g_CompletedAt = None, g_State = StatePending\<rparr>"

definition generateGrant ::
  "ConnectionIdentity \<Rightarrow> bytes \<Rightarrow> UploadIntent \<Rightarrow> instant \<Rightarrow> bytes \<Rightarrow> (mediaCode, Grant \<times> bytes) result \<times> bytes" where
  "generateGrant identity conv i expiresAt entropy = (case readFull 16 entropy of
       (None, e1) \<Rightarrow> (Inl MediaStorageUnavailable, e1)
     | (Some grantIDBytes, e1) \<Rightarrow> (case readFull 32 e1 of
         (None, e2) \<Rightarrow> (Inl MediaStorageUnavailable, e2)
       | (Some secretBytes, e2) \<Rightarrow> (case readFull 16 e2 of
           (None, e3) \<Rightarrow> (Inl MediaStorageUnavailable, e3)
         | (Some mediaKeyBytes, e3) \<Rightarrow>
             let grantID = hex_encode grantIDBytes;
                 raw = rawGrant grantIDBytes secretBytes;
                 g = pendingGrant identity conv i expiresAt (hex_encode mediaKeyBytes) grantID (sha256 raw)
             in if \<not> validGrantID grantID \<or> length (b64_encode secretBytes) \<noteq> 43 then (Inl MediaStorageUnavailable, e3)
                else if \<not> ValidGrant g then (Inl MediaStorageUnavailable, e3)
                else (Inr (g, raw), e3))))"

text \<open>The scan for the one dot: \<open>None\<close> is the early return.\<close>

fun find_dot :: "int \<Rightarrow> int \<Rightarrow> bytes \<Rightarrow> int option" where
  "find_dot i dot [] = Some dot"
| "find_dot i dot (c # cs) =
     (if c = CHR ''.'' then (if 0 \<le> dot then None else find_dot (i + 1) i cs) else find_dot (i + 1) dot cs)"

definition parseRawGrant :: "bytes \<Rightarrow> (bytes \<times> bytes) option" where
  "parseRawGrant raw =
     (if raw = [] then None
      else case find_dot 0 (-1) raw of
        None \<Rightarrow> None
      | Some dot \<Rightarrow>
          if dot \<noteq> 32 \<or> length raw \<noteq> 76 then None
          else
            let grantID = take (nat dot) raw; secret = drop (nat dot + 1) raw in
            if \<not> validGrantID grantID \<or> length secret \<noteq> 43 then None
            else (case b64_decode False secret of
                None \<Rightarrow> None
              | Some decoded \<Rightarrow>
                  if length decoded \<noteq> 32 then None
                  else if \<not> list_all (\<lambda>ch. is_upper ch \<or> is_lower ch \<or> is_digit ch \<or> ch = CHR ''_'' \<or> ch = CHR ''-'') secret
                  then None
                  else Some (grantID, sha256 raw)))"

section \<open>Begin\<close>

record BeginUploadRequest =
  bu_ConversationID :: bytes
  bu_Kind :: bytes
  bu_ContentType :: bytes
  bu_Size :: int
  bu_SHA256 :: bytes
  bu_Expiry :: int

record UploadGrant =
  ug_RawToken :: bytes
  ug_MediaKey :: bytes
  ug_ExpiresAt :: instant

text \<open>The closure \<^verbatim>\<open>create\<close> with what it captures: the entropy left, the raw token and the media key of the last grant.\<close>

definition createGrant ::
  "ConnectionIdentity \<Rightarrow> bytes \<Rightarrow> UploadIntent \<Rightarrow> instant \<Rightarrow> bytes \<times> bytes \<times> bytes \<Rightarrow> (mediaCode, Grant) result \<times> bytes \<times> bytes \<times> bytes" where
  "createGrant identity conv i expiresAt = (\<lambda>(entropy, raw, mediaKey).
     case generateGrant identity conv i expiresAt entropy of
       (Inl e, entropy') \<Rightarrow> (Inl e, entropy', raw, mediaKey)
     | (Inr (g, raw'), entropy') \<Rightarrow> (Inr g, entropy', raw', g_MediaKey g))"

definition maxGrantAttempts :: nat where "maxGrantAttempts = 8"

fun begin_loop ::
  "nat \<Rightarrow> goContext \<Rightarrow> (nat \<Rightarrow> txEnv) \<Rightarrow> instant \<Rightarrow> ConnectionIdentity \<Rightarrow> bytes \<Rightarrow> UploadIntent \<Rightarrow> instant \<Rightarrow>
   bytes \<times> bytes \<times> bytes \<Rightarrow> mediadb \<Rightarrow> (mediaCode, UploadGrant) result \<times> bytes \<times> mediadb" where
  "begin_loop 0 ctx envs now identity conv i expiresAt s db = (Inl MediaGrantCollision, fst s, db)"
| "begin_loop (Suc left) ctx envs now identity conv i expiresAt s db =
     (case Repo_BeginUpload ctx (envs left) now identity conv (createGrant identity conv i expiresAt) s db of
        (Inr _, (entropy, raw, mediaKey), db') \<Rightarrow>
          if raw = [] then (Inl MediaStorageUnavailable, entropy, db')
          else if mediaKey = [] then (Inl MediaStorageUnavailable, entropy, db')
          else (Inr \<lparr>ug_RawToken = raw, ug_MediaKey = mediaKey, ug_ExpiresAt = expiresAt\<rparr>, entropy, db')
      | (Inl e, (entropy, raw, mediaKey), db') \<Rightarrow>
          if e = MediaGrantCollision then begin_loop left ctx envs now identity conv i expiresAt (entropy, [], mediaKey) db'
          else (Inl e, entropy, db'))"

definition BeginUpload ::
  "goContext \<Rightarrow> (nat \<Rightarrow> txEnv) \<Rightarrow> instant \<Rightarrow> ConnectionIdentity \<Rightarrow> BeginUploadRequest \<Rightarrow> bytes \<Rightarrow> mediadb \<Rightarrow>
   (mediaCode, UploadGrant) result \<times> bytes \<times> mediadb" where
  "BeginUpload ctx envs now identity request entropy db =
     (if ctx = None \<or> \<not> ValidateIdentity identity \<or> \<not> validIdentifier (bu_ConversationID request)
      then (Inl MediaInvalidInput, entropy, db)
      else case ParseSHA256 (bu_SHA256 request) of
        None \<Rightarrow> (Inl MediaInvalidInput, entropy, db)
      | Some digest \<Rightarrow>
          let ttl = (if bu_Expiry request = 0 then 120 * second else bu_Expiry request);
              i = \<lparr>ui_Kind = bu_Kind request, ui_ContentType = bu_ContentType request, ui_Size = bu_Size request, ui_SHA256 = digest\<rparr>
          in if ttl \<le> 0 \<or> 300 * second < ttl then (Inl MediaInvalidInput, entropy, db)
             else if \<not> ValidIntent i then (Inl MediaInvalidInput, entropy, db)
             else if now = zeroTime then (Inl MediaStorageUnavailable, entropy, db)
             else begin_loop maxGrantAttempts ctx envs now identity (bu_ConversationID request) i (now + ttl) (entropy, [], []) db)"

section \<open>Complete\<close>

definition sameIntent :: "Grant \<Rightarrow> UploadIntent \<Rightarrow> bool" where
  "sameIntent g i \<longleftrightarrow> g_Kind g = ui_Kind i \<and> g_ContentType g = ui_ContentType i \<and> g_DeclaredSize g = ui_Size i \<and>
     g_SHA256 g = ui_SHA256 i"

definition sameIdentity :: "Grant \<Rightarrow> ConnectionIdentity \<Rightarrow> bool" where
  "sameIdentity g identity \<longleftrightarrow> g_OwnerUserID g = ci_userID identity \<and> g_DeviceID g = ci_deviceID identity \<and>
     g_SessionID g = ci_sessionID identity \<and> g_ConnectionID g = ci_connectionID identity \<and> g_TokenID g = ci_tokenID identity"

text \<open>What comes before the object is put: the checks on the loaded grant, in order.\<close>

definition admitGrant ::
  "goContext \<Rightarrow> (nat \<Rightarrow> txEnv) \<Rightarrow> instant \<Rightarrow> ConnectionIdentity \<Rightarrow> bytes \<Rightarrow> UploadIntent option \<Rightarrow> (nat \<Rightarrow> mediadb) \<Rightarrow>
   (mediaCode, Grant) result" where
  "admitGrant ctx envs now identity raw expectedIntent dbs = (case parseRawGrant raw of
       None \<Rightarrow> Inl MediaInvalidToken
     | Some (grantID, suppliedDigest) \<Rightarrow> bindR (LoadGrant ctx (envs 0) grantID (dbs 0)) (\<lambda>g.
         if g_GrantDigest g \<noteq> suppliedDigest then Inl MediaNotFound
         else if \<not> sameIdentity g identity then Inl MediaUnauthorized
         else if (case expectedIntent of None \<Rightarrow> False | Some i \<Rightarrow> \<not> sameIntent g i) then Inl MediaUnauthorized
         else if \<not> ValidGrant g then Inl MediaStorageUnavailable
         else if now = zeroTime then Inl MediaStorageUnavailable
         else bindR (Authorize ctx (envs 1) now identity (g_ConversationID g) (dbs 1)) (\<lambda>_.
           if g_State g \<noteq> StatePending \<and> g_State g \<noteq> StateReady then Inl MediaStorageUnavailable
           else if g_State g = StatePending \<and> \<not> now < g_ExpiresAt g then Inl MediaExpired
           else Inr g)))"

definition completeUpload ::
  "('e \<Rightarrow> bytes \<Rightarrow> 'c \<Rightarrow> ObjectInfo \<Rightarrow> 'fs \<Rightarrow> (mediaCode, ObjectInfo) result \<times> 'fs) \<Rightarrow> 'e \<Rightarrow>
   goContext \<Rightarrow> (nat \<Rightarrow> txEnv) \<Rightarrow> instant \<Rightarrow> ConnectionIdentity \<Rightarrow> bytes \<Rightarrow> UploadIntent option \<Rightarrow> 'c \<Rightarrow> (nat \<Rightarrow> mediadb) \<Rightarrow>
   'fs \<Rightarrow> mediadb \<Rightarrow> (mediaCode, Grant) result \<times> 'fs \<times> mediadb" where
  "completeUpload put putEnv ctx envs now identity raw expectedIntent content dbs fs db =
     (if ctx = None \<or> \<not> ValidateIdentity identity then (Inl MediaInvalidInput, fs, db)
      else case admitGrant ctx envs now identity raw expectedIntent dbs of
        Inl e \<Rightarrow> (Inl e, fs, db)
      | Inr g \<Rightarrow>
          let expected = \<lparr>oi_Size = g_DeclaredSize g, oi_SHA256 = g_SHA256 g\<rparr> in
          (case put putEnv (g_MediaKey g) content expected fs of
             (Inl e, fs') \<Rightarrow> (Inl e, fs', db)
           | (Inr actual, fs') \<Rightarrow>
               if actual \<noteq> expected then (Inl MediaInvalidInput, fs', db)
               else if g_State g = StateReady then (Inr g, fs', db)
               else (case CompleteReady ctx (envs 2) now identity g db of
                   (Inl e, db') \<Rightarrow> (Inl e, fs', db')
                 | (Inr ready, db') \<Rightarrow>
                     if \<not> ValidGrant ready \<or> g_State ready \<noteq> StateReady then (Inl MediaStorageUnavailable, fs', db')
                     else (Inr ready, fs', db'))))"

definition CompleteUpload where
  "CompleteUpload put putEnv ctx envs now identity raw content dbs fs db =
     completeUpload put putEnv ctx envs now identity raw None content dbs fs db"

definition CompleteUploadIntent where
  "CompleteUploadIntent put putEnv ctx envs now identity raw i content dbs fs db =
     (if \<not> ValidIntent i then (Inl MediaInvalidInput, fs, db)
      else completeUpload put putEnv ctx envs now identity raw (Some i) content dbs fs db)"

section \<open>Download and send\<close>

definition ResolvePrivateDownload ::
  "(bytes \<Rightarrow> instant \<Rightarrow> bytes option) \<Rightarrow> goContext \<Rightarrow> (nat \<Rightarrow> txEnv) \<Rightarrow> instant \<Rightarrow> ConnectionIdentity \<Rightarrow> bytes \<Rightarrow> int \<Rightarrow>
   (nat \<Rightarrow> mediadb) \<Rightarrow> (mediaCode, bytes) result" where
  "ResolvePrivateDownload sign ctx envs now identity mediaKey ttl0 dbs =
     (if ctx = None \<or> \<not> ValidateIdentity identity \<or> \<not> validIdentifier mediaKey then Inl MediaInvalidInput
      else
        let ttl = (if ttl0 = 0 then 60 * second else ttl0) in
        if ttl \<le> 0 \<or> 300 * second < ttl then Inl MediaInvalidInput
        else bindR (LoadReadyAsset ctx (envs 0) mediaKey (dbs 0)) (\<lambda>asset.
          if \<not> ValidateIdentity identity \<or> \<not> ValidGrant asset \<or> g_State asset \<noteq> StateReady then Inl MediaNotFound
          else if now = zeroTime then Inl MediaStorageUnavailable
          else bindR (Authorize ctx (envs 1) now identity (g_ConversationID asset) (dbs 1)) (\<lambda>_.
            case sign (g_MediaKey asset) (now + ttl) of
              None \<Rightarrow> Inl MediaStorageUnavailable
            | Some url \<Rightarrow> if url = [] \<or> 8192 < length url then Inl MediaStorageUnavailable else Inr url)))"

definition ValidateForSend ::
  "goContext \<Rightarrow> txEnv \<Rightarrow> instant \<Rightarrow> mediadb \<Rightarrow> ConnectionIdentity \<Rightarrow> bytes \<Rightarrow> Metadata \<Rightarrow> (mediaCode, unit) result" where
  "ValidateForSend ctx env now db identity conv m =
     (if ctx = None \<or> \<not> ValidateIdentity identity \<or> \<not> validIdentifier conv \<or> \<not> ValidMetadata m then Inl MediaInvalidInput
      else if now = zeroTime then Inl MediaStorageUnavailable
      else ValidateReadyForSend ctx env now identity conv m db)"

end
