(* ===== verification/Numbers.thy ===== *)
theory Numbers
  imports Grammar Complex_Main
begin

text \<open>
  Exact decimal arithmetic on number tokens from \<^verbatim>\<open>core/protocol/go/intent.go\<close>: magnitude
  addition and subtraction on digit strings, exponent addition, and the canonical form that the
  intent comparison uses. The lemmas give the integer meaning of each routine; the property says
  that two JSON number tokens have the same canonical form exactly when they denote the same
  rational number.
\<close>

section \<open>Operations\<close>

definition trimLeft :: "char set \<Rightarrow> bytes \<Rightarrow> bytes" where
  "trimLeft cutset s = dropWhile (\<lambda>c. c \<in> cutset) s"

definition trimRight :: "char set \<Rightarrow> bytes \<Rightarrow> bytes" where
  "trimRight cutset s = rev (dropWhile (\<lambda>c. c \<in> cutset) (rev s))"

definition hasMinus :: "bytes \<Rightarrow> bool" where
  "hasMinus s \<longleftrightarrow> s \<noteq> [] \<and> hd s = CHR ''-''"

definition signed :: "bytes \<Rightarrow> bool \<times> bytes" where
  "signed s =
     (let neg = hasMinus s;
          s1 = trimLeft {CHR ''+'', CHR ''-''} s;
          s2 = trimLeft {CHR ''0''} s1
      in if s2 = [] then (False, ''0'') else (neg, s2))"

text \<open>
  The loop of \<^verbatim>\<open>addMagnitude\<close>: iteration \<open>i\<close> writes \<^verbatim>\<open>out[n-i]\<close>, so the written part of \<^verbatim>\<open>out\<close>
  grows to the left.
\<close>

function addMagnitude_loop :: "bytes \<Rightarrow> bytes \<Rightarrow> nat \<Rightarrow> nat \<Rightarrow> nat \<Rightarrow> bytes \<Rightarrow> nat \<times> bytes" where
  "addMagnitude_loop a b n i carry out =
     (if i < n then
        let v = carry + (if i < length a then digit_val (a ! (length a - 1 - i)) else 0)
                      + (if i < length b then digit_val (b ! (length b - 1 - i)) else 0)
        in addMagnitude_loop a b n (Suc i) (v div 10) (digit_char (v mod 10) # out)
      else (carry, out))"
  by pat_completeness auto
termination
  by (relation "measure (\<lambda>(a, b, n, i, carry, out). n - i)") auto

definition addMagnitude :: "bytes \<Rightarrow> bytes \<Rightarrow> bytes" where
  "addMagnitude a b =
     (let n = (if length a < length b then length b else length a);
          (carry, out) = addMagnitude_loop a b n 0 0 []
      in if carry = 0 then out else digit_char carry # out)"

function subtractMagnitude_loop :: "bytes \<Rightarrow> bytes \<Rightarrow> nat \<Rightarrow> int \<Rightarrow> bytes \<Rightarrow> bytes" where
  "subtractMagnitude_loop a b i borrow out =
     (if i < length a then
        let v = int (digit_val (a ! (length a - 1 - i))) - borrow
                - (if i < length b then int (digit_val (b ! (length b - 1 - i))) else 0)
        in if v < 0 then subtractMagnitude_loop a b (Suc i) 1 (digit_char (nat (v + 10)) # out)
           else subtractMagnitude_loop a b (Suc i) 0 (digit_char (nat v) # out)
      else out)"
  by pat_completeness auto
termination
  by (relation "measure (\<lambda>(a, b, i, borrow, out). length a - i)") auto

definition subtractMagnitude :: "bytes \<Rightarrow> bytes \<Rightarrow> bytes" where
  "subtractMagnitude a b =
     (let r = trimLeft {CHR ''0''} (subtractMagnitude_loop a b 0 0 [])
      in if r = [] then ''0'' else r)"

definition addExponent :: "bytes \<Rightarrow> int \<Rightarrow> bytes" where
  "addExponent a delta =
     (let (an, av) = signed a;
          (bn, bv) = signed (fmt_int delta);
          (negative, v) =
            (if an = bn then (an, addMagnitude av bv)
             else if length bv < length av \<or> length av = length bv \<and> bv \<le> av
             then (an, subtractMagnitude av bv)
             else (bn, subtractMagnitude bv av))
      in if negative \<and> v \<noteq> ''0'' then CHR ''-'' # v else v)"

definition canonicalNumber :: "bytes \<Rightarrow> bytes" where
  "canonicalNumber token0 =
     (let negative = hasMinus token0;
          token1 = (if negative then tl token0 else token0);
          isE = (\<lambda>c. c = CHR ''e'' \<or> c = CHR ''E'');
          (exponent, token2) =
            (if list_ex isE token1
             then (tl (dropWhile (\<lambda>c. \<not> isE c) token1), takeWhile (\<lambda>c. \<not> isE c) token1)
             else (''0'', token1));
          (fraction, token3) =
            (if CHR ''.'' \<in> set token2
             then (length token2 - length (takeWhile (\<lambda>c. c \<noteq> CHR ''.'') token2) - 1,
                   takeWhile (\<lambda>c. c \<noteq> CHR ''.'') token2 @ tl (dropWhile (\<lambda>c. c \<noteq> CHR ''.'') token2))
             else (0, token2));
          token4 = trimLeft {CHR ''0''} token3
      in if token4 = [] then ''0''
         else let coefficient = trimRight {CHR ''0''} token4;
                  exponent' = addExponent exponent
                    (int (length token4) - int (length coefficient) - int fraction)
              in (if negative then ''-'' else '''') @ coefficient @ ''e'' @ exponent')"

section \<open>Digit strings read from the right\<close>

text \<open>\<open>lo_val i s\<close> is the value of the \<open>i\<close> least significant digits of \<open>s\<close>.\<close>

definition dig :: "bytes \<Rightarrow> nat \<Rightarrow> nat" where
  "dig s i = (if i < length s then digit_val (s ! (length s - 1 - i)) else 0)"

fun lo_val :: "nat \<Rightarrow> bytes \<Rightarrow> nat" where
  "lo_val 0 s = 0"
| "lo_val (Suc i) s = lo_val i s + dig s i * 10 ^ i"

lemma dig_less: "all_digits s \<Longrightarrow> dig s i < 10"
  by (auto simp: dig_def all_digits_def list_all_length intro!: digit_val_less)

lemma lo_val_Cons: "i \<le> length s \<Longrightarrow> lo_val i (c # s) = lo_val i s"
  by (induction i) (auto simp: dig_def nth_Cons' Suc_diff_Suc)

lemma lo_val_length: "lo_val (length s) s = dec_val s"
proof (induction s)
  case (Cons c s)
  have "lo_val (length s) (c # s) = dec_val s" using Cons lo_val_Cons [of "length s" s c] by simp
  then show ?case by (simp add: dec_val_Cons dig_def)
qed simp

lemma lo_val_beyond: "length s \<le> n \<Longrightarrow> lo_val n s = dec_val s"
proof (induction n)
  case (Suc n)
  show ?case
  proof (cases "length s = Suc n")
    case True
    then show ?thesis using lo_val_length [of s] by simp
  next
    case False
    then show ?thesis using Suc by (simp add: dig_def)
  qed
qed (simp add: lo_val_length [symmetric])

lemma lo_val_less: "all_digits s \<Longrightarrow> lo_val i s < 10 ^ i"
proof (induction i)
  case (Suc i)
  then have "dig s i \<le> 9" using dig_less [of s i] by simp
  then have "dig s i * 10 ^ i \<le> 9 * 10 ^ i" by (rule mult_right_mono) simp
  moreover have "lo_val i s < 10 ^ i" using Suc by simp
  ultimately show ?case unfolding lo_val.simps power_Suc by linarith
qed simp

section \<open>Magnitude arithmetic\<close>

lemma fmt_nat_0: "fmt_nat 0 = ''0''"
  by (simp add: fmt_nat.simps [of 0])

lemma fmt_nat_eq_0: "fmt_nat n = ''0'' \<longleftrightarrow> n = 0"
  using fmt_nat_inj [of n 0] by (simp only: fmt_nat_0)

declare addMagnitude_loop.simps [simp del] subtractMagnitude_loop.simps [simp del]

lemma addMagnitude_loop_done: "\<not> i < n \<Longrightarrow> addMagnitude_loop a b n i carry out = (carry, out)"
  by (subst addMagnitude_loop.simps) simp

lemma subtractMagnitude_loop_done: "\<not> i < length a \<Longrightarrow> subtractMagnitude_loop a b i borrow out = out"
  by (subst subtractMagnitude_loop.simps) simp

lemma addMagnitude_loop_val:
  assumes "all_digits a" "all_digits b" "i \<le> n" "length out = i" "all_digits out"
    "carry \<le> 1" "carry * 10 ^ i + dec_val out = lo_val i a + lo_val i b"
    "addMagnitude_loop a b n i carry out = (c, r)"
  shows "c \<le> 1 \<and> all_digits r \<and> length r = n \<and> c * 10 ^ n + dec_val r = lo_val n a + lo_val n b"
  using assms
proof (induction a b n i carry out rule: addMagnitude_loop.induct)
  case (1 a b n i carry out)
  show ?case
  proof (cases "i < n")
    case True
    define v where "v = carry + dig a i + dig b i"
    have step: "addMagnitude_loop a b n (Suc i) (v div 10) (digit_char (v mod 10) # out) = (c, r)"
      using "1.prems"(8) True
      by (simp add: addMagnitude_loop.simps [of a b n i carry out] Let_def v_def dig_def)
    have "v < 20" using "1.prems"(1,2,6) dig_less [of a i] dig_less [of b i] by (simp add: v_def)
    have "v div 10 * 10 + v mod 10 = v" by simp
    then have "v div 10 * 10 ^ Suc i + v mod 10 * 10 ^ i = v * 10 ^ i"
      by (metis add_mult_distrib mult.assoc power_Suc)
    then have val: "v div 10 * 10 ^ Suc i + dec_val (digit_char (v mod 10) # out) =
        lo_val (Suc i) a + lo_val (Suc i) b"
      using "1.prems"(4,7) by (simp add: dec_val_Cons v_def algebra_simps)
    have v': "v = carry + (if i < length a then digit_val (a ! (length a - 1 - i)) else 0) +
        (if i < length b then digit_val (b ! (length b - 1 - i)) else 0)"
      by (simp add: v_def dig_def)
    show ?thesis
      by (rule "1.IH" [OF True v' "1.prems"(1,2) _ _ _ _ val step])
        (use True "1.prems"(4,5) \<open>v < 20\<close> in auto)
  next
    case False
    then show ?thesis
      using "1.prems" addMagnitude_loop_done [OF False, of a b carry out] by simp
  qed
qed

lemma addMagnitude_parts:
  assumes "all_digits a" "all_digits b"
  defines "n \<equiv> max (length a) (length b)"
  shows "\<exists>c r. c \<le> 1 \<and> all_digits r \<and> length r = n \<and> c * 10 ^ n + dec_val r = dec_val a + dec_val b \<and>
    addMagnitude a b = (if c = 0 then r else digit_char c # r)"
proof -
  obtain c r where cr: "addMagnitude_loop a b n 0 0 [] = (c, r)" by fastforce
  have n: "(if length a < length b then length b else length a) = n" by (simp add: n_def)
  have "c \<le> 1 \<and> all_digits r \<and> length r = n \<and> c * 10 ^ n + dec_val r = lo_val n a + lo_val n b"
    by (rule addMagnitude_loop_val [OF assms(1,2) _ _ _ _ _ cr]) simp_all
  moreover have "lo_val n a = dec_val a" "lo_val n b = dec_val b"
    by (simp_all add: lo_val_beyond n_def)
  ultimately show ?thesis using cr unfolding addMagnitude_def n by auto
qed

lemma addMagnitude_canonical:
  assumes "canonical_dec a" "canonical_dec b"
  shows "addMagnitude a b = fmt_nat (dec_val a + dec_val b)"
proof -
  define n where "n = max (length a) (length b)"
  obtain c r where cr: "c \<le> 1" "all_digits r" "length r = n"
    "c * 10 ^ n + dec_val r = dec_val a + dec_val b"
    "addMagnitude a b = (if c = 0 then r else digit_char c # r)"
    using addMagnitude_parts [of a b] assms by (auto simp: canonical_dec_def n_def)
  have dv: "dec_val (addMagnitude a b) = dec_val a + dec_val b"
    using cr by (auto simp: dec_val_Cons)
  have "canonical_dec (addMagnitude a b)"
  proof (cases "c = 0")
    case True
    then have sum: "dec_val r = dec_val a + dec_val b" using cr by simp
    obtain d u where r: "r = d # u" using cr(3) assms by (cases r) (auto simp: n_def canonical_dec_def)
    have "d \<noteq> CHR ''0''" if "1 < n"
    proof
      assume "d = CHR ''0''"
      then have "dec_val r < 10 ^ (n - 1)"
        using cr(2,3) r dec_val_less [of u] by (auto simp: dec_val_Cons digit_val_def)
      moreover obtain s e w where "s = a \<or> s = b" "s = e # w" "length s = n"
        using assms n_def by (cases "length a \<le> length b"; cases a; cases b)
          (auto simp: canonical_dec_def max_def)
      moreover from this have "10 ^ (n - 1) \<le> dec_val s"
        using assms that dec_val_ge [of e w] by (auto simp: canonical_dec_def)
      ultimately show False using sum by auto
    qed
    then show ?thesis using True cr r by (auto simp: canonical_dec_def)
  next
    case False
    then have "c = 1" using cr(1) by simp
    then show ?thesis using cr by (auto simp: canonical_dec_def is_digit_code)
  qed
  then show ?thesis using fmt_nat_dec_val dv by metis
qed

lemma subtractMagnitude_loop_val:
  assumes "all_digits a" "all_digits b" "i \<le> length a" "length out = i" "all_digits out"
    "borrow = 0 \<or> borrow = 1"
    "int (dec_val out) - borrow * 10 ^ i = int (lo_val i a) - int (lo_val i b)"
  shows "\<exists>k. (k = 0 \<or> k = 1) \<and> all_digits (subtractMagnitude_loop a b i borrow out) \<and>
    length (subtractMagnitude_loop a b i borrow out) = length a \<and>
    int (dec_val (subtractMagnitude_loop a b i borrow out)) - k * 10 ^ length a =
      int (dec_val a) - int (lo_val (length a) b)"
  using assms
proof (induction a b i borrow out rule: subtractMagnitude_loop.induct)
  case (1 a b i borrow out)
  show ?case
  proof (cases "i < length a")
    case True
    define v where "v = int (dig a i) - borrow - int (dig b i)"
    define w where "w = (if v < 0 then v + 10 else v)"
    define k where "k = (if v < 0 then 1 else 0 :: int)"
    have v': "v = int (digit_val (a ! (length a - 1 - i))) - borrow -
        (if i < length b then int (digit_val (b ! (length b - 1 - i))) else 0)"
      using True by (simp add: v_def dig_def)
    have step: "subtractMagnitude_loop a b i borrow out =
        subtractMagnitude_loop a b (Suc i) k (digit_char (nat w) # out)"
      unfolding subtractMagnitude_loop.simps [of a b i borrow out] Let_def v' [symmetric] w_def k_def
      using True by simp
    have w: "0 \<le> w" "w < 10" "w - k * 10 = v"
      using "1.prems"(1,2,6) dig_less [of a i] dig_less [of b i] by (auto simp: v_def w_def k_def)
    have "w * 10 ^ i - k * 10 ^ Suc i = v * 10 ^ i"
      using w(3) by (metis left_diff_distrib mult.assoc power_Suc)
    then have val: "int (dec_val (digit_char (nat w) # out)) - k * 10 ^ Suc i =
        int (lo_val (Suc i) a) - int (lo_val (Suc i) b)"
      using "1.prems"(4,7) w by (simp add: dec_val_Cons v_def algebra_simps nat_less_iff)
    have ok: "Suc i \<le> length a" "length (digit_char (nat w) # out) = Suc i"
      "all_digits (digit_char (nat w) # out)"
      using True "1.prems"(4,5) w by (auto simp: nat_less_iff)
    show ?thesis
    proof (cases "v < 0")
      case neg: True
      show ?thesis unfolding step
        using "1.IH"(1) [OF True v' neg "1.prems"(1,2) ok(1)] ok val neg
        by (simp add: k_def w_def)
    next
      case nneg: False
      show ?thesis unfolding step
        using "1.IH"(2) [OF True v' nneg "1.prems"(1,2) ok(1)] ok val nneg
        by (simp add: k_def w_def)
    qed
  next
    case False
    then have "subtractMagnitude_loop a b i borrow out = out" "i = length a"
      using "1.prems"(3) subtractMagnitude_loop_done [OF False] by simp_all
    then show ?thesis using "1.prems" by (auto simp: lo_val_length)
  qed
qed

lemma trim_zeros_val: "dec_val (trimLeft {CHR ''0''} s) = dec_val s"
  by (induction s) (auto simp: trimLeft_def dec_val_Cons digit_val_def)

lemma all_digits_trimLeft: "all_digits s \<Longrightarrow> all_digits (trimLeft X s)"
  by (auto simp: all_digits_def trimLeft_def list_all_iff dest: set_dropWhileD)

lemma trim_zeros_canonical:
  assumes "all_digits s" "trimLeft {CHR ''0''} s \<noteq> []"
  shows "canonical_dec (trimLeft {CHR ''0''} s)"
  using assms(2) hd_dropWhile [of "\<lambda>c. c \<in> {CHR ''0''}" s]
    all_digits_trimLeft [OF assms(1), of "{CHR ''0''}"]
  by (simp add: canonical_dec_def trimLeft_def)

lemma trim_zeros_empty:
  assumes "all_digits s" "dec_val s = 0"
  shows "trimLeft {CHR ''0''} s = []"
proof (rule ccontr)
  assume ne: "trimLeft {CHR ''0''} s \<noteq> []"
  then have "trimLeft {CHR ''0''} s = ''0''"
    using fmt_nat_dec_val [OF trim_zeros_canonical [OF assms(1) ne]] assms(2)
    by (simp add: trim_zeros_val fmt_nat_0)
  then show False
    using ne hd_dropWhile [of "\<lambda>c. c \<in> {CHR ''0''}" s] by (simp add: trimLeft_def)
qed

lemma trim_zeros_fmt:
  assumes "all_digits s"
  shows "(if trimLeft {CHR ''0''} s = [] then ''0'' else trimLeft {CHR ''0''} s) = fmt_nat (dec_val s)"
proof (cases "trimLeft {CHR ''0''} s = []")
  case True
  then have "dec_val s = 0" using trim_zeros_val [of s] by simp
  then show ?thesis using True by (simp add: fmt_nat_0)
next
  case False
  then show ?thesis
    using fmt_nat_dec_val [OF trim_zeros_canonical [OF assms False]] trim_zeros_val [of s] by simp
qed

lemma subtractMagnitude_canonical:
  assumes "canonical_dec a" "canonical_dec b" "dec_val b \<le> dec_val a"
  shows "subtractMagnitude a b = fmt_nat (dec_val a - dec_val b)"
proof -
  have len: "length b \<le> length a"
    using canonical_length_less [OF assms(1,2)] assms(3) by (meson not_le)
  let ?r = "subtractMagnitude_loop a b 0 0 []"
  obtain k where k: "k = 0 \<or> k = 1" "all_digits ?r" "length ?r = length a"
    "int (dec_val ?r) - k * 10 ^ length a = int (dec_val a) - int (lo_val (length a) b)"
    using subtractMagnitude_loop_val [of a b 0 "[]" 0] assms by (auto simp: canonical_dec_def)
  have "dec_val ?r < 10 ^ length a" using dec_val_less [OF k(2)] k(3) by simp
  then have "int (dec_val ?r) < 10 ^ length a" by (metis of_nat_less_iff of_nat_numeral of_nat_power)
  moreover have "int (dec_val b) \<le> int (dec_val a)" using assms(3) by simp
  moreover have "int (dec_val ?r) = 10 ^ length a + int (dec_val a) - int (dec_val b)" if "k = 1"
    using k(4) that by (simp add: lo_val_beyond [OF len])
  ultimately have "k = 0" using k(1) by linarith
  then have "dec_val ?r = dec_val a - dec_val b"
    using k(4) lo_val_beyond [OF len] by simp
  then show ?thesis
    using trim_zeros_fmt [OF k(2)] by (simp add: subtractMagnitude_def Let_def)
qed

section \<open>Exponents\<close>

text \<open>Exponent tokens: an optional sign and at least one digit.\<close>

definition exp_token :: "bytes \<Rightarrow> bool" where
  "exp_token s \<longleftrightarrow> (\<exists>ds. ds \<noteq> [] \<and> all_digits ds \<and> (s = ds \<or> s = CHR ''+'' # ds \<or> s = CHR ''-'' # ds))"

definition exp_val :: "bytes \<Rightarrow> int" where
  "exp_val s =
     (if hasMinus s then - int (dec_val (tl s))
      else if s \<noteq> [] \<and> hd s = CHR ''+'' then int (dec_val (tl s)) else int (dec_val s))"

lemma trim_signs_digits: "all_digits ds \<Longrightarrow> trimLeft {CHR ''+'', CHR ''-''} ds = ds"
  by (cases ds) (auto simp: trimLeft_def is_digit_code)

lemma signed_val:
  assumes "exp_token s"
  shows "signed s = (exp_val s < 0, fmt_nat (nat \<bar>exp_val s\<bar>))"
proof -
  obtain ds where ds: "ds \<noteq> []" "all_digits ds" "s = ds \<or> s = CHR ''+'' # ds \<or> s = CHR ''-'' # ds"
    using assms by (auto simp: exp_token_def)
  have hd: "is_digit (hd ds)" using ds(1,2) by (cases ds) auto
  have t: "trimLeft {CHR ''+'', CHR ''-''} s = ds"
    using ds(3) trim_signs_digits [OF ds(2)] by (auto simp: trimLeft_def)
  have v: "nat \<bar>exp_val s\<bar> = dec_val ds" "hasMinus s \<Longrightarrow> exp_val s \<le> 0" "\<not> hasMinus s \<Longrightarrow> 0 \<le> exp_val s"
    using ds hd by (auto simp: exp_val_def hasMinus_def is_digit_code)
  have z: "trimLeft {CHR ''0''} ds = [] \<longleftrightarrow> dec_val ds = 0"
  proof
    show "trimLeft {CHR ''0''} ds = [] \<Longrightarrow> dec_val ds = 0" using trim_zeros_val [of ds] by simp
    assume "dec_val ds = 0"
    then show "trimLeft {CHR ''0''} ds = []" by (rule trim_zeros_empty [OF ds(2)])
  qed
  show ?thesis
  proof (cases "dec_val ds = 0")
    case True
    then show ?thesis using t z v(1) by (simp add: signed_def Let_def fmt_nat_0)
  next
    case False
    then have "hasMinus s \<longleftrightarrow> exp_val s < 0" using v by fastforce
    then show ?thesis
      using False t z trim_zeros_fmt [OF ds(2)] v(1) by (simp add: signed_def Let_def)
  qed
qed

lemma exp_token_fmt_int: "exp_token (fmt_int d)"
  unfolding exp_token_def fmt_int_def by (metis all_digits_fmt_nat fmt_nat_nonempty)

lemma exp_val_fmt_int: "exp_val (fmt_int d) = d"
proof (cases "d < 0")
  case False
  have "is_digit (hd (fmt_nat (nat d)))"
    using fmt_nat_digits [of "hd (fmt_nat (nat d))" "nat d"] by simp
  then show ?thesis using False by (auto simp: exp_val_def fmt_int_def hasMinus_def is_digit_code)
qed (simp add: exp_val_def fmt_int_def hasMinus_def)

lemma addExponent_val:
  assumes "exp_token a"
  shows "addExponent a delta = fmt_int (exp_val a + delta)"
proof -
  let ?x = "exp_val a" and ?y = delta
  have sa: "signed a = (?x < 0, fmt_nat (nat \<bar>?x\<bar>))" by (rule signed_val [OF assms])
  have sb: "signed (fmt_int ?y) = (?y < 0, fmt_nat (nat \<bar>?y\<bar>))"
    using signed_val [OF exp_token_fmt_int, of ?y] by (simp add: exp_val_fmt_int)
  have cmp: "(length (fmt_nat n) < length (fmt_nat m) \<or>
      length (fmt_nat m) = length (fmt_nat n) \<and> fmt_nat n \<le> fmt_nat m) \<longleftrightarrow> n \<le> m" for m n
    using canonical_le_iff [of "fmt_nat n" "fmt_nat m"] by auto
  have add: "addMagnitude (fmt_nat m) (fmt_nat n) = fmt_nat (m + n)" for m n
    using addMagnitude_canonical [of "fmt_nat m" "fmt_nat n"] by simp
  have sub: "n \<le> m \<Longrightarrow> subtractMagnitude (fmt_nat m) (fmt_nat n) = fmt_nat (m - n)" for m n
    using subtractMagnitude_canonical [of "fmt_nat m" "fmt_nat n"] by simp
  have unfold: "addExponent a ?y =
      (let (negative, v) =
         (if (?x < 0) = (?y < 0) then (?x < 0, fmt_nat (nat \<bar>?x\<bar> + nat \<bar>?y\<bar>))
          else if nat \<bar>?y\<bar> \<le> nat \<bar>?x\<bar>
          then (?x < 0, subtractMagnitude (fmt_nat (nat \<bar>?x\<bar>)) (fmt_nat (nat \<bar>?y\<bar>)))
          else (?y < 0, subtractMagnitude (fmt_nat (nat \<bar>?y\<bar>)) (fmt_nat (nat \<bar>?x\<bar>))))
       in if negative \<and> v \<noteq> ''0'' then CHR ''-'' # v else v)"
    unfolding addExponent_def sa sb by (simp only: Let_def prod.case add cmp)
  show ?thesis
  proof (cases "(?x < 0) = (?y < 0)")
    case True
    then have "nat \<bar>?x\<bar> + nat \<bar>?y\<bar> = nat \<bar>?x + ?y\<bar>" by auto
    then show ?thesis using True unfolding unfold
      by (auto simp: Let_def fmt_nat_eq_0 fmt_int_def)
  next
    case False
    show ?thesis
    proof (cases "nat \<bar>?y\<bar> \<le> nat \<bar>?x\<bar>")
      case le: True
      then have "nat \<bar>?x\<bar> - nat \<bar>?y\<bar> = nat \<bar>?x + ?y\<bar>" using False by auto
      then show ?thesis using False le unfolding unfold
        by (auto simp: Let_def sub fmt_nat_eq_0 fmt_int_def)
    next
      case gt: False
      then have "nat \<bar>?y\<bar> - nat \<bar>?x\<bar> = nat \<bar>?x + ?y\<bar>" using False by auto
      then show ?thesis using False gt unfolding unfold
        by (auto simp: Let_def sub fmt_nat_eq_0 fmt_int_def)
    qed
  qed
qed

section \<open>Number tokens and their values\<close>

text \<open>
  The parts of a JSON number token: sign, integer digits, optional fraction, optional exponent.
  \<open>render\<close> is the token, \<open>num_val\<close> the rational number it denotes.
\<close>

record number_parts =
  np_neg :: bool
  np_int :: bytes
  np_frac :: "bytes option"
  np_exp :: "(char \<times> bytes) option"

definition wf_number :: "number_parts \<Rightarrow> bool" where
  "wf_number p \<longleftrightarrow> np_int p \<noteq> [] \<and> all_digits (np_int p) \<and>
     (case np_frac p of None \<Rightarrow> True | Some f \<Rightarrow> f \<noteq> [] \<and> all_digits f) \<and>
     (case np_exp p of None \<Rightarrow> True | Some (e, x) \<Rightarrow> (e = CHR ''e'' \<or> e = CHR ''E'') \<and> exp_token x)"

definition render_mantissa :: "number_parts \<Rightarrow> bytes" where
  "render_mantissa p = np_int p @ (case np_frac p of None \<Rightarrow> [] | Some f \<Rightarrow> CHR ''.'' # f)"

definition render_number :: "number_parts \<Rightarrow> bytes" where
  "render_number p = (if np_neg p then ''-'' else []) @ render_mantissa p @
     (case np_exp p of None \<Rightarrow> [] | Some (e, x) \<Rightarrow> e # x)"

definition frac_digits :: "number_parts \<Rightarrow> bytes" where
  "frac_digits p = (case np_frac p of None \<Rightarrow> [] | Some f \<Rightarrow> f)"

definition exp_part :: "number_parts \<Rightarrow> bytes" where
  "exp_part p = (case np_exp p of None \<Rightarrow> ''0'' | Some (e, x) \<Rightarrow> x)"

definition num_val :: "number_parts \<Rightarrow> rat" where
  "num_val p = (if np_neg p then -1 else 1) * of_nat (dec_val (np_int p @ frac_digits p)) *
     10 powi (exp_val (exp_part p) - int (length (frac_digits p)))"

lemma digits_mem: "all_digits s \<Longrightarrow> c \<in> set s \<Longrightarrow> is_digit c"
  by (auto simp: all_digits_def list_all_iff)

lemma digits_no: "all_digits s \<Longrightarrow> \<not> is_digit c \<Longrightarrow> c \<notin> set s"
  by (auto simp: all_digits_def list_all_iff)

lemma not_digit_marks [simp]:
  "\<not> is_digit (CHR ''.'')" "\<not> is_digit (CHR ''e'')" "\<not> is_digit (CHR ''E'')" "\<not> is_digit (CHR ''+'')"
  by (simp_all add: is_digit_code)

lemma mantissa_no_exp:
  "wf_number p \<Longrightarrow> c \<in> set (render_mantissa p) \<Longrightarrow> c \<noteq> CHR ''e'' \<and> c \<noteq> CHR ''E''"
  by (auto simp: wf_number_def render_mantissa_def split: option.splits dest: digits_mem)

lemma takeWhile_marker: "\<forall>c \<in> set s. P c \<Longrightarrow> \<not> P d \<Longrightarrow> takeWhile P (s @ d # t) = s"
  by (induction s) auto

lemma dropWhile_marker: "\<forall>c \<in> set s. P c \<Longrightarrow> \<not> P d \<Longrightarrow> dropWhile P (s @ d # t) = d # t"
  by (induction s) auto

lemma canonicalNumber_parts:
  assumes wf: "wf_number p"
  defines "ds \<equiv> trimLeft {CHR ''0''} (np_int p @ frac_digits p)"
  defines "co \<equiv> trimRight {CHR ''0''} ds"
  shows "canonicalNumber (render_number p) =
    (if ds = [] then ''0''
     else (if np_neg p then ''-'' else []) @ co @ ''e'' @
       fmt_int (exp_val (exp_part p) + (int (length ds) - int (length co) - int (length (frac_digits p)))))"
proof -
  let ?isE = "\<lambda>c. c = CHR ''e'' \<or> c = CHR ''E''"
  let ?body = "render_mantissa p @ (case np_exp p of None \<Rightarrow> [] | Some (e, x) \<Rightarrow> e # x)"
  obtain c cs where ci: "np_int p = c # cs" and cd: "is_digit c"
    using wf by (cases "np_int p") (auto simp: wf_number_def)
  have neg: "hasMinus (render_number p) = np_neg p"
    using cd by (auto simp: hasMinus_def render_number_def render_mantissa_def ci)
  have body: "(if np_neg p then tl (render_number p) else render_number p) = ?body"
    by (simp add: render_number_def)
  have mant: "\<forall>c \<in> set (render_mantissa p). \<not> ?isE c" using mantissa_no_exp [OF wf] by blast
  have ex: "(if list_ex ?isE ?body
      then (tl (dropWhile (\<lambda>c. \<not> ?isE c) ?body), takeWhile (\<lambda>c. \<not> ?isE c) ?body)
      else (''0'', ?body)) = (exp_part p, render_mantissa p)"
  proof (cases "np_exp p")
    case None
    then show ?thesis using mant by (auto simp: list_ex_iff exp_part_def)
  next
    case (Some ex)
    then obtain e x where ex: "np_exp p = Some (e, x)" by (cases ex) auto
    then have "?isE e" using wf by (simp add: wf_number_def)
    then show ?thesis
      using mant ex takeWhile_marker [of "render_mantissa p" "\<lambda>c. \<not> ?isE c" e x]
        dropWhile_marker [of "render_mantissa p" "\<lambda>c. \<not> ?isE c" e x]
      by (simp add: list_ex_iff exp_part_def)
  qed
  have idig: "\<forall>c \<in> set (np_int p). c \<noteq> CHR ''.''" and fdig: "CHR ''.'' \<notin> set (np_int p)"
    using wf digits_no [of "np_int p" "CHR ''.''"] by (auto simp: wf_number_def)
  have fr: "(if CHR ''.'' \<in> set (render_mantissa p)
      then (length (render_mantissa p) - length (takeWhile (\<lambda>c. c \<noteq> CHR ''.'') (render_mantissa p)) - 1,
        takeWhile (\<lambda>c. c \<noteq> CHR ''.'') (render_mantissa p) @
        tl (dropWhile (\<lambda>c. c \<noteq> CHR ''.'') (render_mantissa p)))
      else (0, render_mantissa p)) = (length (frac_digits p), np_int p @ frac_digits p)"
    using idig fdig takeWhile_marker [OF idig] dropWhile_marker [OF idig]
    by (cases "np_frac p") (simp_all add: render_mantissa_def frac_digits_def)
  have et: "exp_token (exp_part p)"
    using wf by (auto simp: wf_number_def exp_part_def exp_token_def is_digit_code split: option.splits)
  show ?thesis
    unfolding canonicalNumber_def neg body ex fr Let_def prod.case ds_def co_def addExponent_val [OF et]
    by simp
qed

text \<open>The coefficient of a nonzero token: canonical, with no trailing zero.\<close>

lemma trimRight_split: "s = trimRight {c} s @ replicate (length s - length (trimRight {c} s)) c"
proof (induction s rule: rev_induct)
  case (snoc d s)
  show ?case
  proof (cases "d = c")
    case True
    have le: "length (trimRight {c} s) \<le> length s"
      using length_dropWhile_le [of "\<lambda>x. x \<in> {c}" "rev s"] by (simp add: trimRight_def)
    have "trimRight {c} (s @ [d]) = trimRight {c} s" using True by (simp add: trimRight_def)
    then show ?thesis
      using snoc le True by (simp add: Suc_diff_le replicate_append_same [symmetric])
  qed (simp add: trimRight_def)
qed (simp add: trimRight_def)

lemma trimRight_last: "trimRight {c} s \<noteq> [] \<Longrightarrow> last (trimRight {c} s) \<noteq> c"
  using hd_dropWhile [of "\<lambda>x. x \<in> {c}" "rev s"] by (simp add: trimRight_def last_rev)

lemma dec_val_zeros: "dec_val (s @ replicate k (CHR ''0'')) = dec_val s * 10 ^ k"
proof -
  have "dec_val (replicate k (CHR ''0'')) = 0"
    by (induction k) (auto simp: dec_val_Cons digit_val_def)
  then show ?thesis by (simp add: dec_val_append)
qed

lemma not_10_dvd:
  assumes "all_digits s" "s \<noteq> []" "last s \<noteq> CHR ''0''"
  shows "\<not> 10 dvd dec_val s"
proof -
  obtain t c where s: "s = t @ [c]" using assms(2) by (metis append_butlast_last_id)
  then have "is_digit c" "c \<noteq> CHR ''0''" using assms by auto
  then have "digit_val c \<noteq> 0" "digit_val c < 10" using digit_val_zero_iff digit_val_less by auto
  then show ?thesis using s by (auto simp: dec_val_snoc dvd_eq_mod_eq_0)
qed

lemma coefficient:
  assumes "all_digits w"
  defines "ds \<equiv> trimLeft {CHR ''0''} w"
  defines "co \<equiv> trimRight {CHR ''0''} ds"
  shows "ds = [] \<longleftrightarrow> dec_val w = 0"
    and "ds \<noteq> [] \<Longrightarrow> canonical_dec co \<and> \<not> 10 dvd dec_val co"
    and "dec_val w = dec_val co * 10 ^ (length ds - length co)" and "length co \<le> length ds"
proof -
  have dv: "dec_val ds = dec_val w" by (simp add: ds_def trim_zeros_val)
  show "ds = [] \<longleftrightarrow> dec_val w = 0"
    using trim_zeros_empty [OF assms(1)] dv by (auto simp: ds_def)
  have split: "ds = co @ replicate (length ds - length co) (CHR ''0'')"
    unfolding co_def by (rule trimRight_split)
  then show "dec_val w = dec_val co * 10 ^ (length ds - length co)"
    using dv dec_val_zeros by metis
  show "length co \<le> length ds" using split by (metis le_add1 length_append)
  assume ne: "ds \<noteq> []"
  then have can: "canonical_dec ds" using trim_zeros_canonical assms(1) by (simp add: ds_def)
  have hd0: "hd ds \<noteq> CHR ''0''"
    using ne hd_dropWhile [of "\<lambda>c. c \<in> {CHR ''0''}" w] by (simp add: ds_def trimLeft_def)
  have co: "co \<noteq> []"
  proof
    assume "co = []"
    then have "ds = replicate (length ds) (CHR ''0'')" using split by simp
    then show False using hd0 ne by (metis hd_replicate length_0_conv)
  qed
  have ad: "all_digits co" using can split by (metis all_digits_append canonical_dec_def)
  have "hd co = hd ds" using split co by (metis hd_append2)
  then show "canonical_dec co \<and> \<not> 10 dvd dec_val co"
    using hd0 co ad trimRight_last [of "CHR ''0''" ds] not_10_dvd [OF ad co]
    by (simp add: canonical_dec_def co_def)
qed

lemma scaled_le:
  fixes c d :: nat and x y :: int
  assumes "(of_nat c :: rat) * 10 powi x = of_nat d * 10 powi y" "x \<le> y"
  shows "c = d * 10 ^ nat (y - x)"
proof -
  have "(10::rat) powi y = 10 powi x * 10 ^ nat (y - x)"
    using assms(2) by (metis diff_add_cancel add.commute nat_0_le le_diff_eq add_0 power_int_add
        power_int_of_nat zero_neq_numeral)
  then have "(of_nat c :: rat) * 10 powi x = of_nat (d * 10 ^ nat (y - x)) * 10 powi x"
    using assms(1) by (simp add: mult.commute mult.left_commute)
  then have "(of_nat c :: rat) = of_nat (d * 10 ^ nat (y - x))" by simp
  then show ?thesis by (metis of_nat_eq_iff)
qed

lemma scaled_unique:
  fixes c d :: nat and x y :: int
  assumes "(of_nat c :: rat) * 10 powi x = of_nat d * 10 powi y" "\<not> 10 dvd c" "\<not> 10 dvd d"
  shows "c = d \<and> x = y"
proof (cases x y rule: linorder_cases)
  case less
  then have "c = d * 10 ^ nat (y - x)" "0 < nat (y - x)" using scaled_le [OF assms(1)] by auto
  then have "10 dvd c" by (metis dvd_power dvd_mult)
  then show ?thesis using assms(2) by simp
next
  case equal
  then show ?thesis using scaled_le [OF assms(1)] by simp
next
  case greater
  then have "d = c * 10 ^ nat (x - y)" "0 < nat (x - y)" using scaled_le [OF assms(1) [symmetric]] by auto
  then have "10 dvd d" by (metis dvd_power dvd_mult)
  then show ?thesis using assms(3) by simp
qed

text \<open>
  The normal form of a token: nothing for zero, otherwise sign, coefficient not divisible by ten
  and exponent. The canonical string prints it and the rational value is determined by it.
\<close>

definition normal_form :: "number_parts \<Rightarrow> (bool \<times> nat \<times> int) option" where
  "normal_form p =
     (let w = np_int p @ frac_digits p; ds = trimLeft {CHR ''0''} w; co = trimRight {CHR ''0''} ds
      in if dec_val w = 0 then None
         else Some (np_neg p, dec_val co,
           exp_val (exp_part p) + (int (length ds) - int (length co) - int (length (frac_digits p)))))"

fun print_normal :: "(bool \<times> nat \<times> int) option \<Rightarrow> bytes" where
  "print_normal None = ''0''"
| "print_normal (Some (neg, c, x)) = (if neg then ''-'' else []) @ fmt_nat c @ ''e'' @ fmt_int x"

fun normal_val :: "(bool \<times> nat \<times> int) option \<Rightarrow> rat" where
  "normal_val None = 0"
| "normal_val (Some (neg, c, x)) = (if neg then -1 else 1) * of_nat c * 10 powi x"

lemma wf_all_digits: "wf_number p \<Longrightarrow> all_digits (np_int p @ frac_digits p)"
  by (auto simp: wf_number_def frac_digits_def split: option.splits)

lemma canonicalNumber_normal: "wf_number p \<Longrightarrow> canonicalNumber (render_number p) = print_normal (normal_form p)"
  using canonicalNumber_parts [of p] coefficient [OF wf_all_digits, of p]
  by (auto simp: normal_form_def Let_def fmt_nat_dec_val)

lemma num_val_normal:
  assumes "wf_number p"
  shows "num_val p = normal_val (normal_form p)"
proof -
  let ?w = "np_int p @ frac_digits p"
  define ds where "ds = trimLeft {CHR ''0''} ?w"
  define co where "co = trimRight {CHR ''0''} ds"
  define e where "e = exp_val (exp_part p) - int (length (frac_digits p))"
  note c = coefficient [OF wf_all_digits [OF assms], folded ds_def, folded co_def]
  have "(10::rat) powi (e + (int (length ds) - int (length co))) = 10 powi e * 10 ^ (length ds - length co)"
    using power_int_add [of "10::rat" e "int (length ds - length co)"]
    unfolding of_nat_diff [OF c(4), symmetric] power_int_of_nat by simp
  then have "of_nat (dec_val ?w) * 10 powi e = of_nat (dec_val co) *
      (10::rat) powi (e + (int (length ds) - int (length co)))"
    using c(3) by simp
  moreover have "e + (int (length ds) - int (length co)) =
      exp_val (exp_part p) + (int (length ds) - int (length co) - int (length (frac_digits p)))"
    by (simp add: e_def)
  ultimately show ?thesis
    by (auto simp: num_val_def normal_form_def Let_def ds_def [symmetric] co_def [symmetric]
        e_def [symmetric])
qed

definition wf_normal :: "(bool \<times> nat \<times> int) option \<Rightarrow> bool" where
  "wf_normal n \<longleftrightarrow> (case n of None \<Rightarrow> True | Some (neg, c, x) \<Rightarrow> \<not> 10 dvd c)"

lemma wf_normal_form: "wf_number p \<Longrightarrow> wf_normal (normal_form p)"
  using coefficient(1,2) [OF wf_all_digits, of p] by (auto simp: wf_normal_def normal_form_def Let_def)

lemma print_normal_inj:
  assumes "print_normal m = print_normal n"
  shows "m = n"
proof -
  have e: "CHR ''e'' \<notin> set (fmt_nat c)" and m: "hd (fmt_nat c) \<noteq> CHR ''-''" for c
    using fmt_nat_digits [of "CHR ''e''" c] fmt_nat_digits [of "hd (fmt_nat c)" c]
    by (auto simp: is_digit_code)
  have sp: "c = d \<and> s = t" if eq: "fmt_nat c @ CHR ''e'' # s = fmt_nat d @ CHR ''e'' # t" for c d s t
  proof -
    have "takeWhile (\<lambda>a. a \<noteq> CHR ''e'') (fmt_nat k @ CHR ''e'' # u) = fmt_nat k" for k u
      using e [of k] by (intro takeWhile_marker) auto
    then have "fmt_nat c = fmt_nat d" using eq by metis
    then show ?thesis using eq by simp
  qed
  have zero: "(if neg then ''-'' else []) @ fmt_nat c @ CHR ''e'' # s \<noteq> ''0''" for neg c s
    by (cases neg; cases "fmt_nat c"; auto)
  have neq: "CHR ''-'' # s \<noteq> fmt_nat c @ t" for s c t
    using m [of c] fmt_nat_nonempty [of c] by (metis hd_append2 list.sel(1))
  show ?thesis
  proof (cases m)
    case None
    then show ?thesis using assms zero by (cases n) (auto, metis)
  next
    case (Some a)
    obtain neg c x where m: "m = Some (neg, c, x)" using Some by (cases a) auto
    then obtain neg' d y where n: "n = Some (neg', d, y)" using assms zero by (cases n) auto
    show ?thesis
      using assms neq neq [symmetric] sp [of c "fmt_int x" d "fmt_int y"] fmt_int_inj [of x y]
      by (auto simp: m n split: if_splits)
  qed
qed

lemma normal_val_inj:
  assumes "wf_normal m" "wf_normal n" "normal_val m = normal_val n"
  shows "m = n"
proof -
  have pos: "0 < of_nat c * (10::rat) powi x" if "\<not> 10 dvd c" for c x
    using that by (cases c) (auto intro!: mult_pos_pos)
  show ?thesis
  proof (cases "m = None \<or> n = None")
    case True
    then show ?thesis
      using assms pos by (cases m; cases n) (force simp: wf_normal_def split: if_splits)+
  next
    case False
    then obtain s c x t d y where mn: "m = Some (s, c, x)" "n = Some (t, d, y)" by auto
    have nd: "\<not> 10 dvd c" "\<not> 10 dvd d" using assms(1,2) mn by (auto simp: wf_normal_def)
    then have "s = t" "of_nat c * (10::rat) powi x = of_nat d * 10 powi y"
      using assms(3) mn pos [of c x] pos [of d y] by (auto split: if_splits)
    then show ?thesis using scaled_unique [of c x d y] nd mn by simp
  qed
qed

section \<open>Properties\<close>

text \<open>
  C40. \<^verbatim>\<open>canonicalNumber\<close> is a complete invariant of the numeric value: two JSON number tokens
  (any sign, fraction and exponent, however large) get the same canonical string exactly when they
  denote the same rational number.
\<close>

theorem canonicalNumber_complete:
  assumes "wf_number p" "wf_number q"
  shows "canonicalNumber (render_number p) = canonicalNumber (render_number q) \<longleftrightarrow> num_val p = num_val q"
  using assms print_normal_inj normal_val_inj [OF wf_normal_form wf_normal_form]
  by (metis canonicalNumber_normal num_val_normal)

theorem canonicalNumber_complete_witness:
  "wf_number \<lparr>np_neg = False, np_int = ''10'', np_frac = Some ''50'', np_exp = None\<rparr> \<and>
   wf_number \<lparr>np_neg = False, np_int = ''1'', np_frac = Some ''05'', np_exp = Some (CHR ''e'', ''+1'')\<rparr> \<and>
   (canonicalNumber (render_number \<lparr>np_neg = False, np_int = ''10'', np_frac = Some ''50'', np_exp = None\<rparr>) =
    canonicalNumber (render_number
      \<lparr>np_neg = False, np_int = ''1'', np_frac = Some ''05'', np_exp = Some (CHR ''e'', ''+1'')\<rparr>) \<longleftrightarrow>
    num_val \<lparr>np_neg = False, np_int = ''10'', np_frac = Some ''50'', np_exp = None\<rparr> =
    num_val \<lparr>np_neg = False, np_int = ''1'', np_frac = Some ''05'', np_exp = Some (CHR ''e'', ''+1'')\<rparr>)"
proof -
  have 1: "wf_number \<lparr>np_neg = False, np_int = ''10'', np_frac = Some ''50'', np_exp = None\<rparr>"
    by (simp add: wf_number_def is_digit_code)
  have "exp_token ''+1''" unfolding exp_token_def by (intro exI [of _ "''1''"]) (simp add: is_digit_code)
  then have 2: "wf_number
      \<lparr>np_neg = False, np_int = ''1'', np_frac = Some ''05'', np_exp = Some (CHR ''e'', ''+1'')\<rparr>"
    by (simp add: wf_number_def is_digit_code)
  show ?thesis using 1 2 canonicalNumber_complete [OF 1 2] by simp
qed

text \<open>
  \<^verbatim>\<open>addExponent\<close>, built from the carry loop of \<^verbatim>\<open>addMagnitude\<close> and the borrow loop of
  \<^verbatim>\<open>subtractMagnitude\<close>, prints the exact integer sum of an exponent token and an offset,
  whatever the token's length.
\<close>

theorem addExponent_exact:
  assumes "exp_token a"
  shows "addExponent a delta = fmt_int (exp_val a + delta)"
  using assms by (rule addExponent_val)

theorem addExponent_exact_witness:
  "exp_token ''-007'' \<and> addExponent ''-007'' 12 = fmt_int (exp_val ''-007'' + 12)"
proof -
  have "exp_token ''-007''" unfolding exp_token_def by (intro exI [of _ "''007''"]) (simp add: is_digit_code)
  then show ?thesis using addExponent_exact [of "''-007''" 12] by simp
qed

end
