(* ===== verification/Send.thy ===== *)
theory Send
  imports Message
begin

text \<open>
  The frames of \<^verbatim>\<open>core/protocol/go/send.go\<close>: the client's send request, the server's acknowledgement, error and
  message frames, their decoders and encoders, and the retry disposition of an error code.
\<close>

section \<open>Frames\<close>

definition MaxFrameBytes :: nat where "MaxFrameBytes = 66048"
definition MaxSendBytes :: nat where "MaxSendBytes = 61440"
definition MaxResultBytes :: nat where "MaxResultBytes = 4096"
definition MaxMetadataBytes :: nat where "MaxMetadataBytes = 512"

datatype SendCode = UnsupportedFrame | CorrelationMismatch | ResultConflict

text \<open>An \<^verbatim>\<open>error\<close> of this package is a persisted-message code or a frame code.\<close>

datatype wireError = Persisted ErrorCode | Framed SendCode

definition liftE :: "(ErrorCode, 'a) result \<Rightarrow> (wireError, 'a) result" where
  "liftE r = (case r of Inl e \<Rightarrow> Inl (Persisted e) | Inr x \<Rightarrow> Inr x)"

record Send =
  s_ProtocolVersion :: u32
  s_ClientMsgID :: bytes
  s_ConversationID :: bytes
  s_Version :: u32
  s_Type :: bytes
  s_Payload :: "bytes option"

record Ack =
  a_ClientMsgID :: bytes
  a_ConversationID :: bytes
  a_SenderID :: bytes
  a_ServerMsgID :: bytes
  a_ConversationSeq :: bytes
  a_ServerTime :: bytes

record SendError =
  e_ClientMsgID :: bytes
  e_ConversationID :: bytes
  e_Code :: bytes

record ServerFrame =
  f_Ack :: "Ack option"
  f_Error :: "SendError option"
  f_Message :: "Message option"

definition Send_Supported :: "Send \<Rightarrow> bool" where
  "Send_Supported s \<longleftrightarrow> s_ProtocolVersion s = 1 \<and> s_Version s = 1 \<and> (s_Type s = ''text'' \<or> s_Type s = ''media'')"

record frameParts =
  p_version :: u32
  p_kind :: bytes
  p_raw :: bytes
  p_fields :: fields

definition forbidden :: "fields \<Rightarrow> bool" where
  "forbidden f \<longleftrightarrow> (\<exists>k \<in> set [''senderId'', ''serverMsgId'', ''conversationSeq'', ''serverTime'', ''status'']. field f k \<noteq> None)"

section \<open>Decoding\<close>

definition bodyLimit :: "bytes \<Rightarrow> nat" where
  "bodyLimit kind =
     (if kind = ''send_ack'' \<or> kind = ''send_error'' then MaxResultBytes
      else if kind = ''send'' then MaxSendBytes else MaxBytes)"

definition parseFrame :: "bytes \<Rightarrow> (ErrorCode, frameParts) result" where
  "parseFrame wire =
     bindR (strictJSONLimits wire MaxFrameBytes (MaxDepth + 1)) (\<lambda>_.
     bindR (objectFields wire) (\<lambda>f.
     bindR (versionField f ''protocolVersion'') (\<lambda>version.
     bindR (stringField f ''kind'') (\<lambda>kind.
     let raw = rawField f ''body'' in
     bindR (objectFields raw) (\<lambda>fs.
       if kind = ''send'' \<and> (forbidden f \<or> forbidden fs) then Inl InvalidMessage
       else
         let limit = bodyLimit kind in
         if int MaxMetadataBytes < int (length wire) - int (length raw) \<or> limit < length raw then Inl TooLarge
         else bindR (strictJSONLimits raw limit MaxDepth) (\<lambda>_.
           Inr \<lparr>p_version = version, p_kind = kind, p_raw = raw, p_fields = fs\<rparr>))))))"

definition sendShape :: "frameParts \<Rightarrow> (ErrorCode, Send) result" where
  "sendShape p =
     bindR (stringField (p_fields p) ''clientMsgId'') (\<lambda>clientMsgId.
     bindR (stringField (p_fields p) ''conversationId'') (\<lambda>conversationId.
     bindR (versionField (p_fields p) ''version'') (\<lambda>version.
     bindR (stringField (p_fields p) ''type'') (\<lambda>type.
       if \<not> is_identifier clientMsgId 128 False \<or> \<not> is_identifier conversationId 128 False \<or>
          \<not> is_identifier type 64 True then Inl InvalidMessage
       else
         let raw = rawField (p_fields p) ''payload'' in
         bindR (objectFields raw) (\<lambda>_.
           Inr \<lparr>s_ProtocolVersion = p_version p, s_ClientMsgID = clientMsgId, s_ConversationID = conversationId,
                s_Version = version, s_Type = type, s_Payload = Some raw\<rparr>)))))"

definition ackShape :: "fields \<Rightarrow> (ErrorCode, Ack) result" where
  "ackShape f =
     bindR (stringField f ''clientMsgId'') (\<lambda>clientMsgId.
     bindR (stringField f ''conversationId'') (\<lambda>conversationId.
     bindR (stringField f ''senderId'') (\<lambda>senderId.
     bindR (stringField f ''serverMsgId'') (\<lambda>serverMsgId.
     bindR (stringField f ''conversationSeq'') (\<lambda>conversationSeq.
     bindR (stringField f ''serverTime'') (\<lambda>serverTime.
       case stringField f ''status'' of
         Inl _ \<Rightarrow> Inl InvalidMessage
       | Inr status \<Rightarrow>
           if status \<noteq> ''SERVER_PERSISTED'' then Inl InvalidMessage
           else if \<not> is_identifier clientMsgId 128 False \<or> \<not> is_identifier conversationId 128 False \<or>
             \<not> is_identifier senderId 128 False \<or> \<not> is_identifier serverMsgId 128 False \<or>
             \<not> decimal conversationSeq maxInt64 \<or> \<not> decimal serverTime maxInt64 then Inl InvalidMessage
           else Inr \<lparr>a_ClientMsgID = clientMsgId, a_ConversationID = conversationId, a_SenderID = senderId,
                     a_ServerMsgID = serverMsgId, a_ConversationSeq = conversationSeq,
                     a_ServerTime = serverTime\<rparr>))))))"

definition errorShape :: "fields \<Rightarrow> (ErrorCode, SendError) result" where
  "errorShape f =
     bindR (stringField f ''clientMsgId'') (\<lambda>clientMsgId.
     bindR (stringField f ''conversationId'') (\<lambda>conversationId.
     bindR (stringField f ''code'') (\<lambda>c.
       if \<not> is_identifier clientMsgId 128 False \<or> \<not> is_identifier conversationId 128 False \<or> \<not> validCode c
       then Inl InvalidMessage
       else Inr \<lparr>e_ClientMsgID = clientMsgId, e_ConversationID = conversationId, e_Code = c\<rparr>)))"

definition dropR :: "('e, 'a) result \<Rightarrow> ('e, unit) result" where
  "dropR r = bindR r (\<lambda>_. Inr ())"

definition bodyShape :: "frameParts \<Rightarrow> (ErrorCode, unit) result" where
  "bodyShape p =
     (if p_kind p = ''send'' then dropR (sendShape p)
      else if p_kind p = ''send_ack'' then dropR (ackShape (p_fields p))
      else if p_kind p = ''send_error'' then dropR (errorShape (p_fields p))
      else if p_kind p = ''message'' then dropR (decodeMessage (p_raw p) False)
      else Inr ())"

definition sendSemantics :: "Send \<Rightarrow> (ErrorCode, unit) result" where
  "sendSemantics s = validateKnownPayload (s_Type s) (s_Version s) (case s_Payload s of None \<Rightarrow> [] | Some raw \<Rightarrow> raw)"

definition DecodeSend :: "bytes \<Rightarrow> (wireError, Send) result" where
  "DecodeSend wire =
     bindR (liftE (parseFrame wire)) (\<lambda>p.
     bindR (liftE (bodyShape p)) (\<lambda>_.
       if p_version p \<noteq> 1 then Inl (Persisted UnsupportedVersion)
       else if p_kind p \<noteq> ''send'' then Inl (Framed UnsupportedFrame)
       else bindR (liftE (sendShape p)) (\<lambda>s.
            bindR (liftE (sendSemantics s)) (\<lambda>_. Inr s))))"

definition noFrame :: ServerFrame where
  "noFrame = \<lparr>f_Ack = None, f_Error = None, f_Message = None\<rparr>"

definition DecodeServerFrame :: "bytes \<Rightarrow> (wireError, ServerFrame) result" where
  "DecodeServerFrame wire =
     bindR (liftE (parseFrame wire)) (\<lambda>p.
     bindR (liftE (bodyShape p)) (\<lambda>_.
       if p_version p \<noteq> 1 then Inl (Persisted UnsupportedVersion)
       else if p_kind p = ''send_ack'' then
         bindR (liftE (ackShape (p_fields p))) (\<lambda>a. Inr (noFrame\<lparr>f_Ack := Some a\<rparr>))
       else if p_kind p = ''send_error'' then
         bindR (liftE (errorShape (p_fields p))) (\<lambda>v. Inr (noFrame\<lparr>f_Error := Some v\<rparr>))
       else if p_kind p = ''message'' then
         bindR (liftE (Decode (p_raw p))) (\<lambda>m. Inr (noFrame\<lparr>f_Message := Some m\<rparr>))
       else Inl (Framed UnsupportedFrame)))"

section \<open>Encoding\<close>

definition wrap :: "u32 \<Rightarrow> bytes \<Rightarrow> bytes \<Rightarrow> bytes" where
  "wrap version kind body = object_text
     [(''protocolVersion'', fmt_nat (unat version)), (''kind'', dquote # kind @ [dquote]), (''body'', body)]"

definition wireEscape :: "char \<Rightarrow> bytes" where
  "wireEscape ch =
     (if ch = dquote \<or> ch = bslash then [bslash, ch]
      else if ch = CHR 0x08 then [bslash, CHR ''b'']
      else if ch = CHR 0x0C then [bslash, CHR ''f'']
      else if ch = CHR 0x0A then [bslash, CHR ''n'']
      else if ch = CHR 0x0D then [bslash, CHR ''r'']
      else if ch = CHR 0x09 then [bslash, CHR ''t'']
      else if code ch < 32 then bslash # ''u00'' @ [hex_digit (code ch div 16), hex_digit (code ch mod 16)]
      else [ch])"

definition quotedWireString :: "bytes \<Rightarrow> bytes" where
  "quotedWireString value = dquote # concat (map wireEscape value) @ [dquote]"

fun stringPairs :: "bool \<Rightarrow> (bytes \<times> bytes) list \<Rightarrow> bytes" where
  "stringPairs first [] = []"
| "stringPairs first ((k, v) # pairs) =
     (if first then [] else '','') @ quotedWireString k @ '':'' @ quotedWireString v @ stringPairs False pairs"

definition stringObject :: "(bytes \<times> bytes) list \<Rightarrow> bytes" where
  "stringObject pairs = ''{'' @ stringPairs True pairs @ ''}''"

definition sendBody :: "Send \<Rightarrow> bytes" where
  "sendBody s =
     butlast (stringObject [(''clientMsgId'', s_ClientMsgID s), (''conversationId'', s_ConversationID s), (''type'', s_Type s)])
     @ '','' @ [dquote] @ ''version'' @ [dquote] @ '':'' @ fmt_nat (unat (s_Version s))
     @ '','' @ [dquote] @ ''payload'' @ [dquote] @ '':'' @ payloadText (s_Payload s) @ ''}''"

definition EncodeSend :: "Send \<Rightarrow> (wireError, bytes) result" where
  "EncodeSend s =
     bindR (liftE (lowerBound (int MaxSendBytes) 0
         [length (s_ClientMsgID s), length (s_ConversationID s), length (s_Type s), payloadLen (s_Payload s)])) (\<lambda>_.
     if s_Payload s \<noteq> None \<and> \<not> json_valid (payloadText (s_Payload s)) then Inl (Persisted InvalidJSON)
     else
       let wire = wrap (s_ProtocolVersion s) ''send'' (sendBody s) in
       bindR (DecodeSend wire) (\<lambda>_. Inr wire))"

definition ackPairs :: "Ack \<Rightarrow> (bytes \<times> bytes) list" where
  "ackPairs a =
     [(''status'', ''SERVER_PERSISTED''), (''clientMsgId'', a_ClientMsgID a), (''conversationId'', a_ConversationID a),
      (''senderId'', a_SenderID a), (''serverMsgId'', a_ServerMsgID a), (''conversationSeq'', a_ConversationSeq a),
      (''serverTime'', a_ServerTime a)]"

definition errorPairs :: "SendError \<Rightarrow> (bytes \<times> bytes) list" where
  "errorPairs v = [(''clientMsgId'', e_ClientMsgID v), (''conversationId'', e_ConversationID v), (''code'', e_Code v)]"

definition variants :: "ServerFrame \<Rightarrow> nat" where
  "variants f = (if f_Ack f \<noteq> None then 1 else 0) + (if f_Error f \<noteq> None then 1 else 0) + (if f_Message f \<noteq> None then 1 else 0)"

definition frameBody :: "ServerFrame \<Rightarrow> (ErrorCode, bytes \<times> bytes) result" where
  "frameBody f = (case (f_Ack f, f_Error f, f_Message f) of
       (Some a, _, _) \<Rightarrow>
         bindR (lowerBound (int MaxResultBytes) 0
           [length (a_ClientMsgID a), length (a_ConversationID a), length (a_SenderID a), length (a_ServerMsgID a),
            length (a_ConversationSeq a), length (a_ServerTime a)])
           (\<lambda>_. Inr (''send_ack'', stringObject (ackPairs a)))
     | (None, Some v, _) \<Rightarrow>
         bindR (lowerBound (int MaxResultBytes) 0
           [length (e_ClientMsgID v), length (e_ConversationID v), length (e_Code v)])
           (\<lambda>_. Inr (''send_error'', stringObject (errorPairs v)))
     | (None, None, Some m) \<Rightarrow> bindR (Encode m) (\<lambda>body. Inr (''message'', body))
     | (None, None, None) \<Rightarrow> Inl InvalidMessage)"

definition EncodeServerFrame :: "ServerFrame \<Rightarrow> (wireError, bytes) result" where
  "EncodeServerFrame f =
     (if variants f \<noteq> 1 then Inl (Persisted InvalidMessage)
      else bindR (liftE (frameBody f)) (\<lambda>(kind, body).
        let wire = wrap 1 kind body in
        bindR (DecodeServerFrame wire) (\<lambda>_. Inr wire)))"

section \<open>Retry disposition\<close>

datatype RetryDisposition = RetrySameIntent | AuthRecovery | StopAutomaticRetry

definition Disposition :: "bytes \<Rightarrow> RetryDisposition" where
  "Disposition c =
     (if c = ''SERVER_TEMPORARY_UNAVAILABLE'' then RetrySameIntent
      else if c = ''AUTH_REQUIRED'' \<or> c = ''AUTH_TOKEN_EXPIRED'' then AuthRecovery
      else StopAutomaticRetry)"

end
