(* ===== verification/SendFacts.thy ===== *)
theory SendFacts
  imports Send
begin

text \<open>
  Round trips of the frame codec: what \<^verbatim>\<open>EncodeSend\<close> and \<^verbatim>\<open>EncodeServerFrame\<close> emit decodes to the request or the
  single result they were given.
\<close>

section \<open>Strings on the wire\<close>

lemma u_escape_control:
  "code c < 32 \<Longrightarrow> u_escape (code c) = bslash # ''u00'' @ [hex_digit (code c div 16), hex_digit (code c mod 16)]"
proof -
  have "char_of (48::nat) = CHR ''0''" by code_simp
  then show "code c < 32 \<Longrightarrow> ?thesis" by (simp add: u_escape_def hex_digit_def)
qed

lemma wireEscape_ascii: "wireEscape c = escape_ascii False c"
  unfolding wireEscape_def escape_ascii_def using u_escape_control by simp

lemma high_not_control:
  "128 \<le> code c \<Longrightarrow> c \<noteq> CHR 0x08 \<and> c \<noteq> CHR 0x0C \<and> c \<noteq> CHR 0x0A \<and> c \<noteq> CHR 0x0D \<and> c \<noteq> CHR 0x09"
  by auto

lemma wireEscape_high: "128 \<le> code c \<Longrightarrow> wireEscape c = [c]"
  using high_not_control high_not_special by (simp add: wireEscape_def)

lemma scan_wire: "scan_string (concat (map wireEscape s) @ dquote # r) = Some r"
proof (induction s)
  case (Cons c s)
  show ?case
  proof (cases "code c < 128")
    case True
    then show ?thesis using Cons scan_escape [OF True, of False] by (simp add: wireEscape_ascii [of c])
  next
    case False
    then show ?thesis using Cons high_not_special [of c] by (simp add: wireEscape_high)
  qed
qed simp

definition wireText :: "bytes \<Rightarrow> bytes" where
  "wireText s = unquote (concat (map wireEscape s))"

lemma wireText_ident: "list_all ident_byte (wireText s) \<Longrightarrow> wireText s = s"
proof (induction s)
  case (Cons c s)
  show ?case
  proof (cases "code c < 128")
    case True
    then have "wireText (c # s) = c # wireText s" by (simp add: wireText_def wireEscape_ascii [of c] unquote_escape)
    then show ?thesis using Cons by simp
  next
    case False
    then have nb: "c \<noteq> bslash" using high_not_special [of c] by simp
    have "\<exists>x xs. wireText (c # s) = x # xs \<and> \<not> ident_byte x"
    proof (cases "utf8_len (c # concat (map wireEscape s)) = 0")
      case True
      then show ?thesis
        using False nb by (simp add: wireText_def wireEscape_high unquote.simps(2) rune_error_high)
          (simp add: ident_byte_def is_lower_code is_upper_code is_digit_code)
    next
      case len: False
      then have "\<exists>xs. wireText (c # s) = c # xs"
        using False nb by (cases "utf8_len (c # concat (map wireEscape s))")
          (simp_all add: wireText_def wireEscape_high unquote.simps(2))
      then show ?thesis using False ident_plain [of c] by (auto simp: plain_byte_def)
    qed
    then show ?thesis using Cons.prems by auto
  qed
qed (simp add: wireText_def)

lemmas wire_text [simp] =
  string_text [OF scan_wire, folded quotedWireString_def wireText_def]

lemma unmarshal_wire [simp]: "unmarshal_string (quotedWireString s) = Some (wireText s)"
  by (simp add: unmarshal_string_def)

lemma wire_not_null [simp]: "quotedWireString s \<noteq> ''null''"
  by (simp add: quotedWireString_def dquote_def)

lemma stringField_wire: "field fs k = Some (quotedWireString s) \<Longrightarrow> stringField fs k = Inr (wireText s)"
  by (simp add: stringField_def)

lemma quotedWire_plain: "list_all plain_byte k \<Longrightarrow> quotedWireString k = dquote # k @ [dquote]"
proof -
  assume k: "list_all plain_byte k"
  have "wireEscape c = [c]" if "plain_byte c" for c
    using that quote_plain [of "[c]" False] by (simp add: wireEscape_ascii plain_byte_def quote_body.simps)
  then have "concat (map wireEscape k) = k"
    using k by (induction k) simp_all
  then show ?thesis by (simp add: quotedWireString_def)
qed

lemma wireText_plain: "list_all plain_byte k \<Longrightarrow> wireText k = k"
  using quotedWire_plain [of k] unquote_plain [of k] by (simp add: quotedWireString_def wireText_def)

definition wirePairs :: "(bytes \<times> bytes) list \<Rightarrow> (bytes \<times> bytes) list" where
  "wirePairs = map (\<lambda>(k, v). (k, quotedWireString v))"

lemma stringPairs_members:
  "list_all (\<lambda>(k, v). list_all plain_byte k) pairs \<Longrightarrow>
   stringPairs first pairs = (if first \<or> pairs = [] then [] else '','') @ members_text (wirePairs pairs)"
proof (induction first pairs rule: stringPairs.induct)
  case (2 first k v pairs)
  then show ?case
    by (cases pairs) (auto simp: wirePairs_def quotedWire_plain split: prod.splits)
qed (simp add: wirePairs_def)

lemma stringObject_text:
  "list_all (\<lambda>(k, v). list_all plain_byte k) pairs \<Longrightarrow> stringObject pairs = object_text (wirePairs pairs)"
  by (simp add: stringObject_def object_text_def stringPairs_members)

section \<open>Frames read back\<close>

lemma reads_wire: "reads (quotedWireString s) (quotedWireString s) (JString (wireText s))"
  using reads_parsed [of "quotedWireString s"] by simp

lemma parse_wrap:
  assumes "parseFrame (wrap v kind body) = Inr p" "list_all plain_byte kind" "reads body T V"
  shows "p_version p = v \<and> p_kind p = kind \<and> p_raw p = T \<and> unmarshal_fields T = Some (p_fields p)"
proof -
  let ?kvs = "[(''protocolVersion'', fmt_nat (unat v)), (''kind'', quotedWireString kind), (''body'', body)]"
  let ?ms = "[(''protocolVersion'', fmt_nat (unat v), JNumber (fmt_nat (unat v))),
    (''kind'', quotedWireString kind, JString kind), (''body'', T, V)]"
  have w: "wrap v kind body = object_text ?kvs"
    using quotedWire_plain [OF assms(2)] by (simp add: wrap_def)
  have kvs: "list_all2 reads_member ?kvs ?ms"
    using assms(3) reads_parsed [of "fmt_nat (unat v)"] reads_wire [of kind] wireText_plain [OF assms(2)]
    by (simp add: reads_member_def plain_byte_def dquote_def bslash_def)
  obtain f where f: "unmarshal_fields (wrap v kind body) = Some f"
    "versionField f ''protocolVersion'' = Inr (p_version p)" "stringField f ''kind'' = Inr (p_kind p)"
    "p_raw p = rawField f ''body''" "unmarshal_fields (p_raw p) = Some (p_fields p)"
    using assms(1) by (auto simp: parseFrame_def objectFields_def Let_def bindR_eq_Inr split: if_splits option.splits)
  have fs: "f = map (\<lambda>(k, raw, v). (k, raw)) ?ms"
    using object_text_reads [OF f(1) [unfolded w] kvs] by simp
  have look: "field f ''protocolVersion'' = Some (fmt_nat (unat v))" "field f ''kind'' = Some (quotedWireString kind)"
    "field f ''body'' = Some T"
    by (simp_all add: fs)
  show ?thesis
    using f(3-5) versionField_number [OF look(1) f(2)] look wireText_plain [OF assms(2)]
    by (simp add: stringField_wire rawField_def)
qed

section \<open>The send request\<close>

definition sendMembers :: "Send \<Rightarrow> (bytes \<times> bytes) list" where
  "sendMembers s =
     [(''clientMsgId'', quotedWireString (s_ClientMsgID s)), (''conversationId'', quotedWireString (s_ConversationID s)),
      (''type'', quotedWireString (s_Type s)), (''version'', fmt_nat (unat (s_Version s))),
      (''payload'', payloadText (s_Payload s))]"

lemma sendBody_text: "sendBody s = object_text (sendMembers s)"
proof -
  have "stringObject [(''clientMsgId'', s_ClientMsgID s), (''conversationId'', s_ConversationID s), (''type'', s_Type s)] =
    object_text (wirePairs [(''clientMsgId'', s_ClientMsgID s), (''conversationId'', s_ConversationID s), (''type'', s_Type s)])"
    by (rule stringObject_text) (simp add: key_simps)
  then show ?thesis by (simp add: sendBody_def sendMembers_def object_text_def wirePairs_def butlast_append)
qed

lemma sendMembers_ok:
  "s_Payload s = None \<or> json_valid (payloadText (s_Payload s)) \<Longrightarrow> list_all text_ok (sendMembers s)"
  by (cases "s_Payload s") (simp_all add: sendMembers_def payloadText_def json_valid_null key_simps)

lemma liftE_Inr [simp]: "liftE r = Inr x \<longleftrightarrow> r = Inr x"
  by (cases r) (simp_all add: liftE_def)

lemma sendShape_fields:
  assumes "sendShape p = Inr s"
  shows "stringField (p_fields p) ''clientMsgId'' = Inr (s_ClientMsgID s)"
    "stringField (p_fields p) ''conversationId'' = Inr (s_ConversationID s)"
    "stringField (p_fields p) ''type'' = Inr (s_Type s)"
    "versionField (p_fields p) ''version'' = Inr (s_Version s)"
    "s_Payload s = Some (rawField (p_fields p) ''payload'')"
    "unmarshal_fields (rawField (p_fields p) ''payload'') \<noteq> None"
    "s_ProtocolVersion s = p_version p"
    "list_all ident_byte (s_ClientMsgID s)" "list_all ident_byte (s_ConversationID s)" "list_all ident_byte (s_Type s)"
  using assms identifier_ident [of "s_Type s" 64 True]
  by (auto simp: sendShape_def objectFields_def Let_def bindR_eq_Inr ident128_def split: if_splits option.splits)

lemma EncodeSend_Decode:
  assumes "EncodeSend s = Inr w"
  shows "\<exists>p. s_Payload s = Some p \<and> json_valid p \<and> DecodeSend w = Inr (s\<lparr>s_Payload := Some (value_text p)\<rparr>)"
proof -
  obtain s' where w: "w = wrap (s_ProtocolVersion s) ''send'' (sendBody s)" "DecodeSend w = Inr s'"
    "s_Payload s = None \<or> json_valid (payloadText (s_Payload s))"
    using assms by (auto simp: EncodeSend_def Let_def bindR_eq_Inr split: if_splits)
  obtain p where p: "parseFrame w = Inr p" "sendShape p = Inr s'" "p_version p = 1"
    using w(2) by (auto simp: DecodeSend_def bindR_eq_Inr split: if_splits)
  have ne: "sendMembers s \<noteq> []" by (simp add: sendMembers_def)
  note mem = reads_members_ok [OF sendMembers_ok [OF w(3)]]
  have pw: "p_version p = s_ProtocolVersion s \<and> p_kind p = ''send'' \<and> p_raw p = sendBody s \<and>
      unmarshal_fields (sendBody s) = Some (p_fields p)"
    using p(1) reads_object [OF mem ne] unfolding w(1) sendBody_text
    by (intro parse_wrap) (auto simp: key_simps)
  then have fs: "p_fields p = map (\<lambda>(k, raw). (k, value_text raw)) (sendMembers s)"
    using object_text_fields [OF _ sendMembers_ok [OF w(3)] ne] by (simp add: sendBody_text)
  have look: "field (p_fields p) ''clientMsgId'' = Some (quotedWireString (s_ClientMsgID s))"
    "field (p_fields p) ''conversationId'' = Some (quotedWireString (s_ConversationID s))"
    "field (p_fields p) ''type'' = Some (quotedWireString (s_Type s))"
    "field (p_fields p) ''version'' = Some (fmt_nat (unat (s_Version s)))"
    "field (p_fields p) ''payload'' = Some (value_text (payloadText (s_Payload s)))"
    by (simp_all add: fs sendMembers_def)
  note f = sendShape_fields [OF p(2)]
  obtain pl where pl: "s_Payload s = Some pl"
    using f(6) look(5) unmarshal_fields_null by (cases "s_Payload s") (auto simp: rawField_def payloadText_def)
  have strs: "s_ClientMsgID s' = wireText (s_ClientMsgID s)" "s_ConversationID s' = wireText (s_ConversationID s)"
    "s_Type s' = wireText (s_Type s)"
    using f(1-3) look(1-3) by (simp_all add: stringField_wire)
  have "s' = s\<lparr>s_Payload := Some (value_text pl)\<rparr>"
    using strs f(5,7-10) wireText_ident look(5) pl pw versionField_number [OF look(4) f(4)]
    by (intro Send.Send.equality) (simp_all add: rawField_def payloadText_def)
  then show ?thesis using w(2,3) pl by (auto simp: payloadText_def)
qed

section \<open>The server's frames\<close>

lemma wirePairs_ok:
  "list_all (\<lambda>(k, v). list_all plain_byte k) pairs \<Longrightarrow> list_all text_ok (wirePairs pairs)"
  by (induction pairs) (auto simp: wirePairs_def text_ok_def)

lemma wirePairs_value_text: "map (\<lambda>(k, raw). (k, value_text raw)) (wirePairs pairs) = wirePairs pairs"
  by (induction pairs) (auto simp: wirePairs_def)

lemma parse_wrap_strings:
  assumes "parseFrame (wrap 1 kind (stringObject pairs)) = Inr p" "list_all plain_byte kind"
    "list_all (\<lambda>(k, v). list_all plain_byte k) pairs" "pairs \<noteq> []"
  shows "p_kind p = kind \<and> p_version p = 1 \<and> p_fields p = wirePairs pairs"
proof -
  have ne: "wirePairs pairs \<noteq> []" using assms(4) by (simp add: wirePairs_def)
  note ok = wirePairs_ok [OF assms(3)]
  have "p_version p = 1 \<and> p_kind p = kind \<and> p_raw p = stringObject pairs \<and>
      unmarshal_fields (stringObject pairs) = Some (p_fields p)"
    using parse_wrap [OF assms(1,2)] reads_object [OF reads_members_ok [OF ok] ne]
    by (simp add: stringObject_text [OF assms(3)])
  then show ?thesis
    using object_text_fields [OF _ ok ne] wirePairs_value_text by (simp add: stringObject_text [OF assms(3)])
qed

lemma validCode_ident: "validCode c \<Longrightarrow> list_all ident_byte c"
  by (auto simp: validCode_def code_byte_def ident_byte_def list_all_iff split: if_splits)

lemma ackShape_pairs:
  assumes "ackShape (wirePairs (ackPairs a)) = Inr a'"
  shows "a' = a"
proof -
  let ?fs = "wirePairs (ackPairs a)"
  have look: "field ?fs ''clientMsgId'' = Some (quotedWireString (a_ClientMsgID a))"
    "field ?fs ''conversationId'' = Some (quotedWireString (a_ConversationID a))"
    "field ?fs ''senderId'' = Some (quotedWireString (a_SenderID a))"
    "field ?fs ''serverMsgId'' = Some (quotedWireString (a_ServerMsgID a))"
    "field ?fs ''conversationSeq'' = Some (quotedWireString (a_ConversationSeq a))"
    "field ?fs ''serverTime'' = Some (quotedWireString (a_ServerTime a))"
    by (simp_all add: wirePairs_def ackPairs_def)
  have "list_all ident_byte (wireText (a_ClientMsgID a))" "list_all ident_byte (wireText (a_ConversationID a))"
    "list_all ident_byte (wireText (a_SenderID a))" "list_all ident_byte (wireText (a_ServerMsgID a))"
    "list_all ident_byte (wireText (a_ConversationSeq a))" "list_all ident_byte (wireText (a_ServerTime a))"
    "a' = \<lparr>a_ClientMsgID = wireText (a_ClientMsgID a), a_ConversationID = wireText (a_ConversationID a),
      a_SenderID = wireText (a_SenderID a), a_ServerMsgID = wireText (a_ServerMsgID a),
      a_ConversationSeq = wireText (a_ConversationSeq a), a_ServerTime = wireText (a_ServerTime a)\<rparr>"
    using assms decimal_ident
    by (auto simp: ackShape_def look [THEN stringField_wire] ident128_def split: sum.splits if_splits)
  then show ?thesis by (simp add: wireText_ident)
qed

lemma errorShape_pairs:
  assumes "errorShape (wirePairs (errorPairs v)) = Inr v'"
  shows "v' = v"
proof -
  let ?fs = "wirePairs (errorPairs v)"
  have look: "field ?fs ''clientMsgId'' = Some (quotedWireString (e_ClientMsgID v))"
    "field ?fs ''conversationId'' = Some (quotedWireString (e_ConversationID v))"
    "field ?fs ''code'' = Some (quotedWireString (e_Code v))"
    by (simp_all add: wirePairs_def errorPairs_def)
  have "list_all ident_byte (wireText (e_ClientMsgID v))" "list_all ident_byte (wireText (e_ConversationID v))"
    "list_all ident_byte (wireText (e_Code v))"
    "v' = \<lparr>e_ClientMsgID = wireText (e_ClientMsgID v), e_ConversationID = wireText (e_ConversationID v),
      e_Code = wireText (e_Code v)\<rparr>"
    using assms validCode_ident
    by (auto simp: errorShape_def look [THEN stringField_wire] ident128_def split: if_splits)
  then show ?thesis by (simp add: wireText_ident)
qed

text \<open>The frame with its payload text, if it has one, without surrounding white space.\<close>

definition trimFrame :: "ServerFrame \<Rightarrow> ServerFrame" where
  "trimFrame f = f\<lparr>f_Message := map_option trimPayload (f_Message f)\<rparr>"

lemma Encode_wrap:
  assumes "Encode m = Inr body" "parseFrame (wrap 1 ''message'' body) = Inr p"
  shows "p_kind p = ''message'' \<and> p_version p = 1 \<and> Decode (p_raw p) = Inr (trimPayload m)"
proof -
  have body: "body = object_text (messageMembers m)" "m_Payload m = None \<or> json_valid (payloadText (m_Payload m))"
    using assms(1) by (auto simp: Encode_def Let_def bindR_eq_Inr split: if_splits)
  have "messageMembers m \<noteq> []" by (simp add: messageMembers_def)
  from reads_object [OF reads_members_ok [OF messageMembers_ok [OF body(2)]] this]
  have "p_version p = 1 \<and> p_kind p = ''message'' \<and> p_raw p = body"
    using parse_wrap [OF assms(2)] by (simp add: body(1) key_simps)
  then show ?thesis using Encode_Decode [OF assms(1)] by (auto simp: trimPayload_def)
qed

lemma pairs_plain:
  "list_all (\<lambda>(k, v). list_all plain_byte k) (ackPairs a)" "ackPairs a \<noteq> []"
  "list_all (\<lambda>(k, v). list_all plain_byte k) (errorPairs e)" "errorPairs e \<noteq> []"
  by (simp_all add: ackPairs_def errorPairs_def key_simps)

lemma EncodeServerFrame_Decode:
  assumes "EncodeServerFrame f = Inr w"
  shows "variants f = 1 \<and> DecodeServerFrame w = Inr (trimFrame f)"
proof -
  obtain kind body g where one: "variants f = 1" and b: "frameBody f = Inr (kind, body)"
    and w: "w = wrap 1 kind body" "DecodeServerFrame w = Inr g"
    using assms by (auto simp: EncodeServerFrame_def Let_def bindR_eq_Inr split: if_splits)
  obtain p where p: "parseFrame w = Inr p" using w(2) by (auto simp: DecodeServerFrame_def bindR_eq_Inr)
  consider (a) a where "f = noFrame\<lparr>f_Ack := Some a\<rparr>" | (e) v where "f = noFrame\<lparr>f_Error := Some v\<rparr>"
    | (m) m where "f = noFrame\<lparr>f_Message := Some m\<rparr>"
    using one by (cases "f_Ack f"; cases "f_Error f"; cases "f_Message f"; cases f)
      (auto simp: variants_def noFrame_def)
  then have "g = trimFrame f"
  proof cases
    case a
    then have k: "kind = ''send_ack''" "body = stringObject (ackPairs a)"
      using b by (auto simp: frameBody_def noFrame_def bindR_eq_Inr)
    then have "p_kind p = ''send_ack'' \<and> p_fields p = wirePairs (ackPairs a)"
      using parse_wrap_strings [OF p [unfolded w(1) k] _ pairs_plain(1,2)] by (simp add: key_simps)
    then show ?thesis
      using w(2) p a ackShape_pairs by (auto simp: DecodeServerFrame_def bindR_eq_Inr trimFrame_def noFrame_def split: if_splits)
  next
    case e
    then have k: "kind = ''send_error''" "body = stringObject (errorPairs v)"
      using b by (auto simp: frameBody_def noFrame_def bindR_eq_Inr)
    then have "p_kind p = ''send_error'' \<and> p_fields p = wirePairs (errorPairs v)"
      using parse_wrap_strings [OF p [unfolded w(1) k] _ pairs_plain(3,4)] by (simp add: key_simps)
    then show ?thesis
      using w(2) p e errorShape_pairs by (auto simp: DecodeServerFrame_def bindR_eq_Inr trimFrame_def noFrame_def split: if_splits)
  next
    case m
    then have k: "kind = ''message''" "Encode m = Inr body"
      using b by (auto simp: frameBody_def noFrame_def bindR_eq_Inr)
    then show ?thesis
      using Encode_wrap [OF k(2) p [unfolded w(1) k(1)]] w(2) p m
      by (auto simp: DecodeServerFrame_def bindR_eq_Inr trimFrame_def noFrame_def split: if_splits)
  qed
  then show ?thesis using one w(2) by simp
qed

definition trimSend :: "Send \<Rightarrow> Send" where
  "trimSend s = s\<lparr>s_Payload := map_option value_text (s_Payload s)\<rparr>"

interpretation send_codec: codec EncodeSend DecodeSend trimSend
  using EncodeSend_Decode by unfold_locales (fastforce simp: trimSend_def)

interpretation frame_codec: codec EncodeServerFrame DecodeServerFrame trimFrame
  using EncodeServerFrame_Decode by unfold_locales auto

lemma DecodeSend_frame:
  assumes "DecodeSend w = Inr s"
  obtains p where "parseFrame w = Inr p" "p_kind p = ''send''" "p_version p = 1" "sendShape p = Inr s"
  using assms by (auto simp: DecodeSend_def bindR_eq_Inr split: if_splits)

lemma parseFrame_send_fields:
  assumes "parseFrame w = Inr p" "p_kind p = ''send''"
  shows "\<exists>f. unmarshal_fields w = Some f \<and> unmarshal_fields (rawField f ''body'') = Some (p_fields p) \<and>
    \<not> forbidden f \<and> \<not> forbidden (p_fields p) \<and> length (rawField f ''body'') \<le> MaxSendBytes"
  using assms by (auto simp: parseFrame_def objectFields_def Let_def bindR_eq_Inr bodyLimit_def split: if_splits option.splits)

section \<open>Properties of the frame codec\<close>

text \<open>
  C31. Send round trip: what \<^verbatim>\<open>EncodeSend\<close> emits decodes, with \<^verbatim>\<open>DecodeSend\<close>, to the request it was given, its payload
  the given JSON value without surrounding white space.
\<close>

theorem EncodeSend_roundtrip:
  assumes "EncodeSend s = Inr w"
  shows "\<exists>p. s_Payload s = Some p \<and> json_valid p \<and> DecodeSend w = Inr (s\<lparr>s_Payload := Some (value_text p)\<rparr>)"
  using assms by (rule EncodeSend_Decode)

definition sampleSend :: Send where
  "sampleSend = \<lparr>s_ProtocolVersion = 1, s_ClientMsgID = ''c1'', s_ConversationID = ''v1'', s_Version = 1,
     s_Type = ''text'', s_Payload = Some (object_text [(''text'', quote_string False ''hi'')])\<rparr>"

lemma sampleSend_ok: "is_ok (EncodeSend sampleSend)"
  by code_simp

theorem EncodeSend_roundtrip_witness:
  "\<exists>w. EncodeSend sampleSend = Inr w \<and> (\<exists>p. s_Payload sampleSend = Some p \<and> json_valid p \<and>
     DecodeSend w = Inr (sampleSend\<lparr>s_Payload := Some (value_text p)\<rparr>))"
proof -
  obtain w where w: "EncodeSend sampleSend = Inr w" using sampleSend_ok by (auto simp: is_ok_iff)
  show ?thesis using EncodeSend_roundtrip [OF w] w by blast
qed

text \<open>
  Server frame round trip: \<^verbatim>\<open>EncodeServerFrame\<close> accepts only a frame with exactly one variant, and what it emits
  decodes to that frame: acknowledgement and error unchanged, a message with its payload value unchanged.
\<close>

theorem EncodeServerFrame_roundtrip:
  assumes "EncodeServerFrame f = Inr w"
  shows "variants f = 1 \<and> DecodeServerFrame w = Inr (trimFrame f)"
  using assms by (rule EncodeServerFrame_Decode)

definition sampleAckFrame :: ServerFrame where
  "sampleAckFrame = noFrame\<lparr>f_Ack := Some \<lparr>a_ClientMsgID = ''c1'', a_ConversationID = ''v1'', a_SenderID = ''u1'',
     a_ServerMsgID = ''s1'', a_ConversationSeq = ''1'', a_ServerTime = ''7''\<rparr>\<rparr>"

lemma sampleAckFrame_ok: "is_ok (EncodeServerFrame sampleAckFrame)"
  by code_simp

theorem EncodeServerFrame_roundtrip_witness:
  "\<exists>w. EncodeServerFrame sampleAckFrame = Inr w \<and> variants sampleAckFrame = 1 \<and>
     DecodeServerFrame w = Inr (trimFrame sampleAckFrame)"
proof -
  obtain w where w: "EncodeServerFrame sampleAckFrame = Inr w" using sampleAckFrame_ok by (auto simp: is_ok_iff)
  show ?thesis using EncodeServerFrame_roundtrip [OF w] w by blast
qed

text \<open>
  A client cannot claim server authority: a request that \<^verbatim>\<open>DecodeSend\<close> accepts has none of \<^verbatim>\<open>senderId\<close>,
  \<^verbatim>\<open>serverMsgId\<close>, \<^verbatim>\<open>conversationSeq\<close>, \<^verbatim>\<open>serverTime\<close>, \<^verbatim>\<open>status\<close> in its envelope or in its body, its body has at most 61440
  bytes, and the same text is never accepted as a frame of the server.
\<close>

theorem DecodeSend_no_authority:
  assumes "DecodeSend w = Inr s"
  shows "(\<exists>f fs. unmarshal_fields w = Some f \<and> unmarshal_fields (rawField f ''body'') = Some fs \<and>
      \<not> forbidden f \<and> \<not> forbidden fs \<and> length (rawField f ''body'') \<le> MaxSendBytes) \<and>
    DecodeServerFrame w = Inl (Framed UnsupportedFrame)"
proof -
  obtain p where p: "parseFrame w = Inr p" "p_kind p = ''send''" "p_version p = 1" "sendShape p = Inr s"
    using DecodeSend_frame [OF assms] by blast
  have "DecodeServerFrame w = Inl (Framed UnsupportedFrame)"
    using p by (simp add: DecodeServerFrame_def liftE_def bodyShape_def dropR_def)
  then show ?thesis using parseFrame_send_fields [OF p(1,2)] by blast
qed

theorem DecodeSend_no_authority_witness:
  "\<exists>w. is_ok (DecodeSend w) \<and> DecodeServerFrame w = Inl (Framed UnsupportedFrame)"
proof -
  obtain w where w: "EncodeSend sampleSend = Inr w" using sampleSend_ok by (auto simp: is_ok_iff)
  obtain s where s: "DecodeSend w = Inr s" using send_codec.enc_decodable [OF w] by (auto simp: is_ok_iff)
  show ?thesis using DecodeSend_no_authority [OF s] s by (auto simp: is_ok_iff)
qed

end
