(* ===== verification/Intent.thy ===== *)
theory Intent
  imports Numbers SendFacts
begin

text \<open>
  Intent comparison and result correlation of \<^verbatim>\<open>core/protocol/go/intent.go\<close>: JSON equality up to the spelling of
  numbers and the order of keys, \<^verbatim>\<open>SameIntent\<close>, \<^verbatim>\<open>Correlate\<close> and \<^verbatim>\<open>CompareResults\<close>.
\<close>

section \<open>Equality of decoded values\<close>

text \<open>A decoded \<^verbatim>\<open>map[string]any\<close>: the last member with a key wins.\<close>

fun objectMap :: "(bytes \<times> bytes \<times> json) list \<Rightarrow> (bytes \<times> json) list" where
  "objectMap [] = []"
| "objectMap ((k, raw, v) # ms) = (if k \<in> set (map fst ms) then objectMap ms else (k, v) # objectMap ms)"

lemma objectMap_size: "(k, v) \<in> set (objectMap ms) \<Longrightarrow> size v < size_list (size_prod (\<lambda>_. 0) (size_prod (\<lambda>_. 0) size)) ms"
  by (induction ms rule: objectMap.induct) (auto split: if_splits)

function equalValue :: "json \<Rightarrow> json \<Rightarrow> bool" where
  "equalValue JNull b = (b = JNull)"
| "equalValue (JBool x) b = (case b of JBool y \<Rightarrow> x = y | _ \<Rightarrow> False)"
| "equalValue (JString x) b = (case b of JString y \<Rightarrow> x = y | _ \<Rightarrow> False)"
| "equalValue (JNumber x) b = (case b of JNumber y \<Rightarrow> canonicalNumber x = canonicalNumber y | _ \<Rightarrow> False)"
| "equalValue (JArray x) b = (case b of
       JArray y \<Rightarrow> length x = length y \<and> list_all (\<lambda>(v, w). equalValue v w) (zip x y)
     | _ \<Rightarrow> False)"
| "equalValue (JObject x) b = (case b of
       JObject y \<Rightarrow>
         length (objectMap x) = length (objectMap y) \<and>
         list_all (\<lambda>(k, v). case map_of (objectMap y) k of None \<Rightarrow> False | Some w \<Rightarrow> equalValue v w) (objectMap x)
     | _ \<Rightarrow> False)"
  by pat_completeness auto
termination
proof (relation "measure (\<lambda>(a, b). size a)", goal_cases)
  case (2 x b y z v w)
  then show ?case using size_list_estimation' [of v x "size v" size] set_zip_leftD [of v w] by fastforce
next
  case (3 x b y z k v w)
  then show ?case using objectMap_size [of k v x] by auto
qed simp

text \<open>\<^verbatim>\<open>equalPayload\<close> decodes the first value of each text and ignores decoding errors, leaving nil.\<close>

definition decodeAny :: "bytes \<Rightarrow> json" where
  "decodeAny raw = (case pv (2 * length raw + 2) 0 raw of Some (j, _) \<Rightarrow> j | None \<Rightarrow> JNull)"

definition equalPayload :: "bytes \<Rightarrow> bytes \<Rightarrow> bool" where
  "equalPayload a b = equalValue (decodeAny a) (decodeAny b)"

section \<open>Requests and results\<close>

definition rawPayload :: "bytes option \<Rightarrow> bytes" where
  "rawPayload p = (case p of None \<Rightarrow> [] | Some raw \<Rightarrow> raw)"

definition SameIntent :: "Send \<Rightarrow> Send \<Rightarrow> (wireError, bool) result" where
  "SameIntent a b =
     bindR (EncodeSend a) (\<lambda>_.
     bindR (EncodeSend b) (\<lambda>_.
       if s_ProtocolVersion a \<noteq> s_ProtocolVersion b \<or> s_ConversationID a \<noteq> s_ConversationID b \<or>
          s_Version a \<noteq> s_Version b \<or> s_Type a \<noteq> s_Type b then Inr False
       else Inr (equalPayload (rawPayload (s_Payload a)) (rawPayload (s_Payload b)))))"

text \<open>\<^verbatim>\<open>resultAck\<close> dereferences a message when there is no acknowledgement; without either the source panics, here \<open>None\<close>.\<close>

definition resultAck :: "ServerFrame \<Rightarrow> Ack option" where
  "resultAck f = (case f_Ack f of
       Some a \<Rightarrow> Some a
     | None \<Rightarrow> map_option (\<lambda>m. \<lparr>a_ClientMsgID = m_ClientMsgID m, a_ConversationID = m_ConversationID m,
         a_SenderID = m_SenderID m, a_ServerMsgID = m_ServerMsgID m, a_ConversationSeq = m_ConversationSeq m,
         a_ServerTime = m_ServerTime m\<rparr>) (f_Message f))"

datatype 'a outcome = Returned 'a | Panicked

definition Correlate :: "Send \<Rightarrow> bytes \<Rightarrow> ServerFrame \<Rightarrow> (wireError, unit) result outcome" where
  "Correlate request trustedSender result =
     (case EncodeSend request of
        Inl e \<Rightarrow> Returned (Inl e)
      | Inr _ \<Rightarrow>
          if \<not> is_identifier trustedSender 128 False then Returned (Inl (Persisted InvalidMessage))
          else (case EncodeServerFrame result of
              Inl e \<Rightarrow> Returned (Inl e)
            | Inr _ \<Rightarrow> (case f_Error result of
                Some v \<Rightarrow>
                  if e_ClientMsgID v \<noteq> s_ClientMsgID request \<or> e_ConversationID v \<noteq> s_ConversationID request
                  then Returned (Inl (Framed CorrelationMismatch)) else Returned (Inr ())
              | None \<Rightarrow> (case resultAck result of
                  None \<Rightarrow> Panicked
                | Some a \<Rightarrow>
                    if a_ClientMsgID a \<noteq> s_ClientMsgID request \<or> a_ConversationID a \<noteq> s_ConversationID request \<or>
                       a_SenderID a \<noteq> trustedSender then Returned (Inl (Framed CorrelationMismatch))
                    else (case f_Message result of
                        None \<Rightarrow> Returned (Inr ())
                      | Some m \<Rightarrow>
                          if s_ProtocolVersion request \<noteq> m_ProtocolVersion m \<or> s_Version request \<noteq> m_Version m \<or>
                             s_Type request \<noteq> m_Type m \<or>
                             \<not> equalPayload (rawPayload (s_Payload request)) (rawPayload (m_Payload m))
                          then Returned (Inl (Framed CorrelationMismatch)) else Returned (Inr ()))))))"

definition CompareResults :: "ServerFrame \<Rightarrow> ServerFrame \<Rightarrow> (wireError, unit) result outcome" where
  "CompareResults former latter =
     (case EncodeServerFrame former of
        Inl e \<Rightarrow> Returned (Inl e)
      | Inr _ \<Rightarrow> (case EncodeServerFrame latter of
          Inl e \<Rightarrow> Returned (Inl e)
        | Inr _ \<Rightarrow>
            if f_Error former \<noteq> None \<or> f_Error latter \<noteq> None then Returned (Inl (Persisted InvalidMessage))
            else (case (resultAck former, resultAck latter) of
                (Some a, Some b) \<Rightarrow>
                  if a_ClientMsgID a \<noteq> a_ClientMsgID b \<or> a_ConversationID a \<noteq> a_ConversationID b \<or>
                     a_SenderID a \<noteq> a_SenderID b then Returned (Inl (Framed CorrelationMismatch))
                  else if a_ServerMsgID a \<noteq> a_ServerMsgID b \<or> a_ConversationSeq a \<noteq> a_ConversationSeq b \<or>
                     a_ServerTime a \<noteq> a_ServerTime b then Returned (Inl (Framed ResultConflict))
                  else Returned (Inr ())
              | _ \<Rightarrow> Panicked)))"

section \<open>Equality is an equivalence\<close>

lemma objectMap_keys: "fst ` set (objectMap ms) = fst ` set ms"
  by (induction ms rule: objectMap.induct) auto

lemma objectMap_distinct: "distinct (map fst (objectMap ms))"
  using objectMap_keys by (induction ms rule: objectMap.induct) auto

lemma objectMap_card: "length (objectMap ms) = card (dom (map_of (objectMap ms)))"
  using distinct_card [OF objectMap_distinct [of ms]] by (simp add: dom_map_of_conv_image_fst)

text \<open>Object equality as equality of finite maps: the same keys, and equal values under each.\<close>

lemma equalValue_object:
  "equalValue (JObject x) (JObject y) \<longleftrightarrow>
     dom (map_of (objectMap x)) = dom (map_of (objectMap y)) \<and>
     (\<forall>k v w. map_of (objectMap x) k = Some v \<longrightarrow> map_of (objectMap y) k = Some w \<longrightarrow> equalValue v w)"
  (is "?L \<longleftrightarrow> ?R")
proof -
  let ?X = "map_of (objectMap x)" and ?Y = "map_of (objectMap y)"
  have mem: "(k, v) \<in> set (objectMap x) \<longleftrightarrow> ?X k = Some v" for k v
    using objectMap_distinct [of x] by (simp add: map_of_eq_Some_iff)
  have all: "list_all (\<lambda>(k, v). P k v) (objectMap x) \<longleftrightarrow> (\<forall>k v. ?X k = Some v \<longrightarrow> P k v)" for P
    unfolding mem [symmetric] by (auto simp: list_all_iff)
  have L: "?L \<longleftrightarrow> card (dom ?X) = card (dom ?Y) \<and>
      (\<forall>k v. ?X k = Some v \<longrightarrow> (\<exists>w. ?Y k = Some w \<and> equalValue v w))"
    unfolding objectMap_card [symmetric] by (simp add: all) (metis option.case_eq_if option.collapse option.distinct(1) option.sel)
  show ?thesis
  proof
    assume l: ?L
    then have "dom ?X \<subseteq> dom ?Y" using L by blast
    then have "dom ?X = dom ?Y" using l L by (simp add: card_subset_eq finite_dom_map_of)
    then show ?R using l L by fastforce
  next
    assume r: ?R
    then show ?L unfolding L by (metis domD domI)
  qed
qed

lemma equalValue_array:
  "equalValue (JArray x) (JArray y) \<longleftrightarrow> length x = length y \<and> (\<forall>i < length x. equalValue (x ! i) (y ! i))"
  by (auto simp: list_all_length)

lemma map_of_objectMap_size: "map_of (objectMap x) k = Some v \<Longrightarrow> size v < size (JObject x)"
  using objectMap_size [OF map_of_SomeD] by fastforce

lemma nth_size: "i < length x \<Longrightarrow> size (x ! i) < size (JArray x)"
  using size_list_estimation' [of "x ! i" x "size (x ! i)" size] by simp

declare equalValue.simps(5,6) [simp del]

lemma equalValue_refl: "equalValue a a"
proof (induction "size a" arbitrary: a rule: less_induct)
  case less
  show ?case
  proof (cases a)
    case (JArray x)
    then show ?thesis using less nth_size [of _ x] by (auto simp: equalValue_array)
  next
    case (JObject x)
    then show ?thesis using less map_of_objectMap_size [of x] by (auto simp: equalValue_object)
  qed simp_all
qed

lemma equalValue_kind:
  "equalValue a b \<Longrightarrow> (case a of JArray _ \<Rightarrow> \<exists>y. b = JArray y | JObject _ \<Rightarrow> \<exists>y. b = JObject y | _ \<Rightarrow> True)"
  by (cases a; cases b) (auto simp: equalValue.simps(5,6))

lemma equalValue_sym: "equalValue a b \<Longrightarrow> equalValue b a"
proof (induction "size a" arbitrary: a b rule: less_induct)
  case less
  show ?case
  proof (cases a)
    case (JArray x)
    then obtain y where "b = JArray y" using equalValue_kind [OF less.prems] by auto
    then show ?thesis using less JArray nth_size [of _ x] by (auto simp: equalValue_array)
  next
    case (JObject x)
    then obtain y where y: "b = JObject y" using equalValue_kind [OF less.prems] by auto
    note eq = less.prems [unfolded JObject y equalValue_object]
    have "equalValue w v" if "map_of (objectMap y) k = Some w" "map_of (objectMap x) k = Some v" for k v w
      using less.hyps eq that map_of_objectMap_size [OF that(2)] JObject by blast
    then show ?thesis using eq unfolding JObject y equalValue_object by blast
  qed (use less.prems in \<open>auto split: json.splits\<close>)
qed

lemma equalValue_trans: "equalValue a b \<Longrightarrow> equalValue b c \<Longrightarrow> equalValue a c"
proof (induction "size a" arbitrary: a b c rule: less_induct)
  case less
  show ?case
  proof (cases a)
    case (JArray x)
    then obtain y where y: "b = JArray y" using equalValue_kind [OF less.prems(1)] by auto
    then obtain z where "c = JArray z" using equalValue_kind [OF less.prems(2)] by auto
    then show ?thesis using less y JArray nth_size [of _ x] by (auto simp: equalValue_array)
  next
    case (JObject x)
    then obtain y where y: "b = JObject y" using equalValue_kind [OF less.prems(1)] by auto
    then obtain z where z: "c = JObject z" using equalValue_kind [OF less.prems(2)] by auto
    note eq1 = less.prems(1) [unfolded JObject y equalValue_object]
    note eq2 = less.prems(2) [unfolded y z equalValue_object]
    have "equalValue v w" if "map_of (objectMap x) k = Some v" "map_of (objectMap z) k = Some w" for k v w
    proof -
      have "k \<in> dom (map_of (objectMap y))" using domI [of "map_of (objectMap x)", OF that(1)] eq1 by simp
      then obtain u where u: "map_of (objectMap y) k = Some u" by blast
      then have "equalValue v u" using eq1 that(1) by blast
      moreover have "equalValue u w" using eq2 that(2) u by blast
      ultimately show ?thesis using less.hyps map_of_objectMap_size [OF that(1)] JObject by blast
    qed
    then show ?thesis using eq1 eq2 unfolding JObject z equalValue_object by blast
  qed (use less.prems in \<open>auto split: json.splits\<close>)
qed

section \<open>Requests\<close>

lemma SameIntent_Inr:
  "SameIntent a b = Inr r \<longleftrightarrow> is_ok (EncodeSend a) \<and> is_ok (EncodeSend b) \<and>
     r = (s_ProtocolVersion a = s_ProtocolVersion b \<and> s_ConversationID a = s_ConversationID b \<and>
          s_Version a = s_Version b \<and> s_Type a = s_Type b \<and>
          equalPayload (rawPayload (s_Payload a)) (rawPayload (s_Payload b)))"
  by (auto simp: SameIntent_def bindR_eq_Inr is_ok_iff)

lemma decodeAny_valid: "json_parse raw = Some j \<Longrightarrow> decodeAny raw = j"
  by (auto simp: json_parse_def decodeAny_def split: option.splits if_splits)

lemma equalPayload_sym: "equalPayload p q = equalPayload q p"
  unfolding equalPayload_def using equalValue_sym by blast

lemma equalPayload_trans: "equalPayload p q \<Longrightarrow> equalPayload q r \<Longrightarrow> equalPayload p r"
  unfolding equalPayload_def by (rule equalValue_trans)

text \<open>
  \<^verbatim>\<open>SameIntent\<close> is an equivalence on the requests that encode: a request has its own intent, the answer does not
  depend on the order of the arguments, and intents chain. Number spelling, key order and white space do not matter
  because equality of payloads is equality of the decoded values up to canonical numbers and finite maps.
\<close>

theorem SameIntent_equivalence:
  assumes "is_ok (EncodeSend a)" "is_ok (EncodeSend b)" "is_ok (EncodeSend c)"
  shows "SameIntent a a = Inr True \<and> SameIntent a b = SameIntent b a \<and>
    (SameIntent a b = Inr True \<longrightarrow> SameIntent b c = Inr True \<longrightarrow> SameIntent a c = Inr True)"
proof -
  have e: "SameIntent x y = Inr (s_ProtocolVersion x = s_ProtocolVersion y \<and> s_ConversationID x = s_ConversationID y \<and>
      s_Version x = s_Version y \<and> s_Type x = s_Type y \<and>
      equalPayload (rawPayload (s_Payload x)) (rawPayload (s_Payload y)))"
    if "is_ok (EncodeSend x)" "is_ok (EncodeSend y)" for x y
    using that SameIntent_Inr by blast
  have "SameIntent a a = Inr True" using e [OF assms(1,1)] by (simp add: equalPayload_def equalValue_refl)
  moreover have "SameIntent a b = SameIntent b a"
    using e [OF assms(1,2)] e [OF assms(2,1)] equalPayload_sym by auto
  moreover have "SameIntent a b = Inr True \<longrightarrow> SameIntent b c = Inr True \<longrightarrow> SameIntent a c = Inr True"
    unfolding e [OF assms(1,2)] e [OF assms(2,3)] e [OF assms(1,3)] using equalPayload_trans by auto
  ultimately show ?thesis by blast
qed

definition spacedSend :: Send where
  "spacedSend = sampleSend\<lparr>s_ClientMsgID := ''c2'', s_Payload := Some ('' '' @ object_text [(''text'', quote_string False ''hi'')])\<rparr>"

lemma spacedSend_ok: "is_ok (EncodeSend spacedSend)"
  by code_simp

theorem SameIntent_equivalence_witness:
  "SameIntent sampleSend sampleSend = Inr True \<and> SameIntent sampleSend spacedSend = SameIntent spacedSend sampleSend"
  using SameIntent_equivalence [OF sampleSend_ok spacedSend_ok sampleSend_ok] by blast

section \<open>Results\<close>

lemma frame_has_ack:
  assumes "EncodeServerFrame f = Inr w" "f_Error f = None"
  shows "\<exists>a. resultAck f = Some a"
  using EncodeServerFrame_Decode [OF assms(1)] assms(2)
  by (auto simp: variants_def resultAck_def split: option.splits if_splits)

lemma liftE_Inl [simp]: "liftE r = Inl e \<longleftrightarrow> (\<exists>x. r = Inl x \<and> e = Persisted x)"
  by (cases r) (auto simp: liftE_def)

lemma DecodeServerFrame_errors: "DecodeServerFrame w \<noteq> Inl (Framed ResultConflict)"
  by (auto simp: DecodeServerFrame_def bindR_eq_Inl split: if_splits)

lemma EncodeServerFrame_errors: "EncodeServerFrame f \<noteq> Inl (Framed ResultConflict)"
  using DecodeServerFrame_errors by (auto simp: EncodeServerFrame_def Let_def bindR_eq_Inl split: if_splits)

text \<open>
  \<^verbatim>\<open>CompareResults\<close> never panics and accepts two results exactly when both frames encode, neither is an error and
  they agree in all six identifying fields; two acknowledgements for one request that differ in server id, sequence or
  time are reported as a conflict.
\<close>

theorem CompareResults_agree:
  "CompareResults f g \<noteq> Panicked \<and>
   (CompareResults f g = Returned (Inr ()) \<longleftrightarrow>
      is_ok (EncodeServerFrame f) \<and> is_ok (EncodeServerFrame g) \<and> f_Error f = None \<and> f_Error g = None \<and>
      resultAck f = resultAck g) \<and>
   (CompareResults f g = Returned (Inl (Framed ResultConflict)) \<longrightarrow> resultAck f \<noteq> resultAck g)"
proof (cases "EncodeServerFrame f"; cases "EncodeServerFrame g")
  fix w v
  assume e: "EncodeServerFrame f = Inr w" "EncodeServerFrame g = Inr v"
  show ?thesis
  proof (cases "f_Error f = None \<and> f_Error g = None")
    case True
    then obtain a b where "resultAck f = Some a" "resultAck g = Some b"
      using frame_has_ack [OF e(1)] frame_has_ack [OF e(2)] by blast
    then show ?thesis using True e by (auto simp: CompareResults_def)
  next
    case False
    then show ?thesis using e by (auto simp: CompareResults_def)
  qed
qed (use EncodeServerFrame_errors [of f] EncodeServerFrame_errors [of g] in \<open>auto simp: CompareResults_def\<close>)

text \<open>
  \<^verbatim>\<open>Correlate\<close> never panics, and it accepts an acknowledgement or a message only for the request's own client id and
  conversation and for the trusted sender; an accepted message also repeats the request's versions, type and payload.
\<close>

theorem Correlate_trusted:
  "Correlate request sender f \<noteq> Panicked \<and>
   (Correlate request sender f = Returned (Inr ()) \<longrightarrow> f_Error f = None \<longrightarrow>
      (\<exists>a. resultAck f = Some a \<and> a_ClientMsgID a = s_ClientMsgID request \<and>
         a_ConversationID a = s_ConversationID request \<and> a_SenderID a = sender \<and>
         (\<forall>m. f_Message f = Some m \<longrightarrow> m_Type m = s_Type request \<and> m_Version m = s_Version request \<and>
            equalPayload (rawPayload (s_Payload request)) (rawPayload (m_Payload m)))))"
proof (cases "EncodeServerFrame f")
  case (Inr w)
  show ?thesis
  proof (cases "f_Error f")
    case None
    then obtain a where "resultAck f = Some a" using frame_has_ack [OF Inr] by blast
    then show ?thesis using Inr None by (auto simp: Correlate_def split: sum.splits if_splits option.splits)
  qed (auto simp: Correlate_def Inr split: sum.splits)
qed (auto simp: Correlate_def split: sum.splits)

definition sampleMessageFrame :: ServerFrame where
  "sampleMessageFrame = noFrame\<lparr>f_Message := Some sampleMessage\<rparr>"

lemma sampleCorrelate: "Correlate sampleSend ''u1'' sampleMessageFrame = Returned (Inr ())"
  by code_simp

theorem Correlate_trusted_witness:
  "Correlate sampleSend ''u1'' sampleMessageFrame = Returned (Inr ()) \<and>
   (\<exists>a. resultAck sampleMessageFrame = Some a \<and> a_SenderID a = ''u1'')"
  using Correlate_trusted [of sampleSend "''u1''" sampleMessageFrame] sampleCorrelate
  by (auto simp: sampleMessageFrame_def noFrame_def)

definition otherAckFrame :: ServerFrame where
  "otherAckFrame = noFrame\<lparr>f_Ack := Some \<lparr>a_ClientMsgID = ''c1'', a_ConversationID = ''v1'', a_SenderID = ''u1'',
     a_ServerMsgID = ''s2'', a_ConversationSeq = ''1'', a_ServerTime = ''7''\<rparr>\<rparr>"

lemma sampleConflict: "CompareResults sampleAckFrame otherAckFrame = Returned (Inl (Framed ResultConflict))"
  by code_simp

theorem CompareResults_agree_witness:
  "CompareResults sampleAckFrame otherAckFrame = Returned (Inl (Framed ResultConflict)) \<and>
   resultAck sampleAckFrame \<noteq> resultAck otherAckFrame"
  using CompareResults_agree [of sampleAckFrame otherAckFrame] sampleConflict by blast

end
