(* ===== verification/MessageStore.thy ===== *)
theory MessageStore
  imports Intent Database AuthToken
begin

text \<open>
  The send repository of \<^verbatim>\<open>server/storage/message/repository.go\<close> with the database function \<^verbatim>\<open>newim.persist_message\<close> of
  \<^verbatim>\<open>infra/db/migrations/002_durability.sql\<close> it calls, over the conversation, message and outbox tables.
\<close>

section \<open>Codes\<close>

datatype msgCode =
    SendInvalidInput | SendUnauthorized | SendConversationMissing | SendSequenceExhausted | SendIDConflict
  | SendLockUnavailable | SendStorageUnavailable | SendUnknown

definition dispositionFor :: "msgCode \<Rightarrow> RetryDisposition" where
  "dispositionFor c = (case c of
       SendLockUnavailable \<Rightarrow> RetrySameIntent
     | SendStorageUnavailable \<Rightarrow> RetrySameIntent
     | _ \<Rightarrow> StopAutomaticRetry)"

definition mapStorageError :: "driverError \<Rightarrow> msgCode" where
  "mapStorageError err = (case err of
       PgError c \<Rightarrow>
         if c = ''NI001'' then SendConversationMissing
         else if c = ''NI002'' then SendSequenceExhausted
         else if c = ''NI003'' then SendInvalidInput
         else if c \<in> set [''40001'', ''40P01'', ''55P03'', ''57014''] then SendLockUnavailable
         else if c \<in> set [''08000'', ''08001'', ''08003'', ''08004'', ''08006'', ''08007'', ''57P01'', ''57P02'', ''57P03'']
         then SendStorageUnavailable
         else SendUnknown
     | OtherError \<Rightarrow> SendUnknown
     | _ \<Rightarrow> SendStorageUnavailable)"

section \<open>Tables\<close>

record conv_row =
  cv_last :: int
  cv_latest :: "bytes option"

record storedRow =
  sr_ServerMsgID :: bytes
  sr_ClientMsgID :: bytes
  sr_SenderID :: bytes
  sr_ConversationID :: bytes
  sr_ConversationSeq :: int
  sr_ProtocolVersion :: int
  sr_SchemaVersion :: int
  sr_MessageType :: bytes
  sr_ServerTime :: int
  sr_Payload :: bytes

record msgdb =
  db_users :: "bytes list"
  db_convs :: "conv_row table"
  db_members :: "(bytes \<times> bytes) list"
  db_messages :: "storedRow list"
  db_outbox :: "(bytes \<times> bytes) list"

record Generated =
  gn_ServerMsgID :: bytes
  gn_EventID :: bytes
  gn_ServerTime :: int

record PersistedMessage =
  pm_ClientMsgID :: bytes
  pm_ConversationID :: bytes
  pm_SenderID :: bytes
  pm_ServerMsgID :: bytes
  pm_ConversationSeq :: int
  pm_ServerTime :: int

definition intent :: "storedRow \<Rightarrow> Send" where
  "intent s = \<lparr>s_ProtocolVersion = word_of_int (sr_ProtocolVersion s), s_ClientMsgID = sr_ClientMsgID s,
     s_ConversationID = sr_ConversationID s, s_Version = word_of_int (sr_SchemaVersion s), s_Type = sr_MessageType s,
     s_Payload = Some (sr_Payload s)\<rparr>"

definition persisted :: "storedRow \<Rightarrow> PersistedMessage" where
  "persisted s = \<lparr>pm_ClientMsgID = sr_ClientMsgID s, pm_ConversationID = sr_ConversationID s, pm_SenderID = sr_SenderID s,
     pm_ServerMsgID = sr_ServerMsgID s, pm_ConversationSeq = sr_ConversationSeq s, pm_ServerTime = sr_ServerTime s\<rparr>"

section \<open>The database function\<close>

definition findMessage :: "msgdb \<Rightarrow> bytes \<Rightarrow> bytes \<Rightarrow> storedRow option" where
  "findMessage db sender client = find (\<lambda>m. sr_SenderID m = sender \<and> sr_ClientMsgID m = client) (db_messages db)"

definition messageTypeDomain :: "bytes \<Rightarrow> bool" where
  "messageTypeDomain t \<longleftrightarrow> t \<noteq> [] \<and> length t \<le> 64 \<and> is_lower (hd t) \<and>
     list_all (\<lambda>c. is_lower c \<or> is_digit c \<or> c = CHR ''_'') (tl t)"

text \<open>The check constraints of \<^verbatim>\<open>im_messages\<close> and the domains of its columns.\<close>

definition messageRowChecks :: "storedRow \<Rightarrow> bool" where
  "messageRowChecks m \<longleftrightarrow> ident128 (sr_ServerMsgID m) \<and> ident128 (sr_SenderID m) \<and> ident128 (sr_ClientMsgID m) \<and>
     ident128 (sr_ConversationID m) \<and> 0 \<le> sr_ConversationSeq m \<and> sr_ProtocolVersion m = 1 \<and> 0 < sr_SchemaVersion m \<and>
     sr_SchemaVersion m \<le> 2147483647 \<and> messageTypeDomain (sr_MessageType m) \<and> 0 \<le> sr_ServerTime m \<and>
     2 \<le> length (sr_Payload m) \<and> length (sr_Payload m) \<le> 65536"

text \<open>
  \<^verbatim>\<open>newim.persist_message\<close> as one atomic call: the idempotency lookup, the sequence allocation, the message row, the
  latest message of the conversation and the outbox event. A unique violation rolls the inner block back and looks the
  identity up once more; in an atomic call that finds nothing and the violation is raised.
\<close>

definition persist_message ::
  "msgdb \<Rightarrow> bytes \<Rightarrow> bytes \<Rightarrow> bytes \<Rightarrow> bytes \<Rightarrow> bytes \<Rightarrow> int \<Rightarrow> int \<Rightarrow> bytes \<Rightarrow> bytes \<Rightarrow> (driverError, storedRow \<times> msgdb) result" where
  "persist_message db sender client conv server type schema time payload event =
     (case findMessage db sender client of
        Some stored \<Rightarrow> Inr (stored, db)
      | None \<Rightarrow> (case map_of (db_convs db) conv of
          None \<Rightarrow> Inl (PgError ''NI001'')
        | Some row \<Rightarrow>
            if \<not> cv_last row < 9223372036854775807 then Inl (PgError ''NI002'')
            else
              let allocated = cv_last row + 1;
                  stored = \<lparr>sr_ServerMsgID = server, sr_ClientMsgID = client, sr_SenderID = sender, sr_ConversationID = conv,
                    sr_ConversationSeq = allocated, sr_ProtocolVersion = 1, sr_SchemaVersion = schema,
                    sr_MessageType = type, sr_ServerTime = time, sr_Payload = payload\<rparr>
              in if \<not> messageRowChecks stored \<or> \<not> ident128 event then Inl (PgError ''23514'')
                 else if sender \<notin> set (db_users db) then Inl (PgError ''23503'')
                 else if server \<in> set (map sr_ServerMsgID (db_messages db)) \<or>
                    (conv, allocated) \<in> set (map (\<lambda>m. (sr_ConversationID m, sr_ConversationSeq m)) (db_messages db)) \<or>
                    event \<in> set (map fst (db_outbox db)) \<or> server \<in> set (map snd (db_outbox db)) then Inl (PgError ''23505'')
                 else Inr (stored, db\<lparr>
                   db_convs := mapRows (\<lambda>k r. if k = conv then \<lparr>cv_last = allocated, cv_latest = Some server\<rparr> else r) (db_convs db),
                   db_messages := stored # db_messages db,
                   db_outbox := (event, server) # db_outbox db\<rparr>)))"

section \<open>The repository\<close>

definition validGenerated :: "Generated \<Rightarrow> bool" where
  "validGenerated g \<longleftrightarrow> validIdentifier (gn_ServerMsgID g) \<and> validIdentifier (gn_EventID g) \<and> 0 \<le> gn_ServerTime g"

definition conversationAuthorize :: "txEnv \<Rightarrow> msgdb \<Rightarrow> bytes \<Rightarrow> bytes \<Rightarrow> (msgCode, unit) result" where
  "conversationAuthorize env db senderID conversationID =
     (case tx_stmt env 0 of
        Some e \<Rightarrow> Inl (mapStorageError e)
      | None \<Rightarrow>
          if map_of (db_convs db) conversationID = None then Inl SendConversationMissing
          else (case tx_stmt env 1 of
              Some e \<Rightarrow> Inl (mapStorageError e)
            | None \<Rightarrow> if (conversationID, senderID) \<in> set (db_members db) then Inr () else Inl SendUnauthorized))"

definition loadMessage :: "txEnv \<Rightarrow> msgdb \<Rightarrow> bytes \<Rightarrow> bytes \<Rightarrow> (driverError, storedRow option) result" where
  "loadMessage env db senderID clientMsgID =
     (case tx_stmt env 2 of Some e \<Rightarrow> Inl e | None \<Rightarrow> Inr (findMessage db senderID clientMsgID))"

definition persistMessage ::
  "txEnv \<Rightarrow> msgdb \<Rightarrow> bytes \<Rightarrow> Send \<Rightarrow> Generated \<Rightarrow> (driverError, storedRow \<times> msgdb) result" where
  "persistMessage env db senderID request g =
     (case tx_stmt env 3 of
        Some e \<Rightarrow> Inl e
      | None \<Rightarrow> persist_message db senderID (s_ClientMsgID request) (s_ConversationID request) (gn_ServerMsgID g)
          (s_Type request) (uint (s_Version request)) (gn_ServerTime g) (rawPayload (s_Payload request)) (gn_EventID g))"

text \<open>\<^verbatim>\<open>SameIntent\<close> of a stored row with the request, and the result a repository draws from it.\<close>

definition compareIntent :: "storedRow \<Rightarrow> Send \<Rightarrow> (msgCode, unit) result" where
  "compareIntent stored request = (case SameIntent (intent stored) request of
       Inl _ \<Rightarrow> Inl SendStorageUnavailable
     | Inr same \<Rightarrow> if \<not> same then Inl SendIDConflict else Inr ())"

text \<open>
  \<^verbatim>\<open>Persist\<close>: the transaction reads \<open>db\<close> when it looks the message up and \<open>db1\<close> when it persists, since at
  \<^verbatim>\<open>READ COMMITTED\<close> other conversations may move in between. It ends in \<open>db1\<close> when it fails or only reads.
\<close>

definition Persist ::
  "goContext \<Rightarrow> txEnv \<Rightarrow> bytes \<Rightarrow> Send \<Rightarrow> (msgCode, unit) result \<Rightarrow> ('s \<Rightarrow> (msgCode, Generated) result \<times> 's) \<Rightarrow>
   's \<Rightarrow> msgdb \<Rightarrow> msgdb \<Rightarrow> (msgCode, PersistedMessage) result \<times> 's \<times> msgdb" where
  "Persist ctx env userID request validate generate s db db1 =
     (if ctx = None \<or> \<not> validIdentifier userID \<or> \<not> validIdentifier (s_ConversationID request) then (Inl SendInvalidInput, s, db1)
      else if \<not> is_ok (EncodeSend request) then (Inl SendInvalidInput, s, db1)
      else case tx_begin env of
        Some e \<Rightarrow> (Inl (mapStorageError e), s, db1)
      | None \<Rightarrow> (case conversationAuthorize env db userID (s_ConversationID request) of
          Inl e \<Rightarrow> (Inl e, s, db1)
        | Inr _ \<Rightarrow> (case loadMessage env db userID (s_ClientMsgID request) of
            Inl e \<Rightarrow> (Inl (mapStorageError e), s, db1)
          | Inr (Some existing) \<Rightarrow> (case compareIntent existing request of
              Inl e \<Rightarrow> (Inl e, s, db1)
            | Inr _ \<Rightarrow>
                if tx_commit env \<noteq> Committed then (Inl SendStorageUnavailable, s, db1)
                else (Inr (persisted existing), s, db1))
          | Inr None \<Rightarrow> (case validate of
              Inl e \<Rightarrow> (Inl e, s, db1)
            | Inr _ \<Rightarrow> (case generate s of
                (Inl e, s') \<Rightarrow> (Inl e, s', db1)
              | (Inr g, s') \<Rightarrow>
                  if \<not> validGenerated g then (Inl SendInvalidInput, s', db1)
                  else (case persistMessage env db1 userID request g of
                      Inl e \<Rightarrow> (Inl (mapStorageError e), s', db1)
                    | Inr (stored, db2) \<Rightarrow> (case compareIntent stored request of
                        Inl e \<Rightarrow> (Inl e, s', db1)
                      | Inr _ \<Rightarrow> (case tx_commit env of
                          Committed \<Rightarrow> (Inr (persisted stored), s', db2)
                        | CommitLost \<Rightarrow> (Inl SendStorageUnavailable, s', db2)
                        | CommitFailed \<Rightarrow> (Inl SendStorageUnavailable, s', db1)))))))))"

end
