(* ===== verification/SendService.thy ===== *)
theory SendService
  imports MessageStore MediaTypes
begin

text \<open>
  The send service of \<^verbatim>\<open>server/message\<close>: identity checks, the media seam (\<^verbatim>\<open>media_validation.go\<close>), generation of server
  identities (\<^verbatim>\<open>id_generator.go\<close>) and \<^verbatim>\<open>Service.Send\<close> on top of the repository. The media validator is a parameter, as
  the interface \<^verbatim>\<open>MediaValidator\<close> is; the observer, which sees the outcome only, is left out.
\<close>

section \<open>Public codes\<close>

definition codeText :: "msgCode \<Rightarrow> bytes" where
  "codeText c = (case c of
       SendInvalidInput \<Rightarrow> ''SEND_INVALID_INPUT''
     | SendUnauthorized \<Rightarrow> ''SEND_UNAUTHORIZED''
     | SendConversationMissing \<Rightarrow> ''SEND_CONVERSATION_NOT_FOUND''
     | SendSequenceExhausted \<Rightarrow> ''SEND_SEQUENCE_EXHAUSTED''
     | SendIDConflict \<Rightarrow> ''SEND_ID_CONFLICT''
     | SendLockUnavailable \<Rightarrow> ''SEND_LOCK_UNAVAILABLE''
     | SendStorageUnavailable \<Rightarrow> ''SEND_STORAGE_UNAVAILABLE''
     | SendUnknown \<Rightarrow> ''SEND_UNKNOWN'')"

definition ProtocolCode :: "msgCode \<Rightarrow> bytes" where
  "ProtocolCode c = (if dispositionFor c = RetrySameIntent then ''SERVER_TEMPORARY_UNAVAILABLE'' else codeText c)"

section \<open>Generation and construction\<close>

record sendConfig =
  sc_hasIDs :: bool
  sc_hasClock :: bool
  sc_RequestTimeout :: int

definition Send_NewService :: "bool \<Rightarrow> sendConfig \<Rightarrow> (msgCode, int) result" where
  "Send_NewService hasStore config =
     (if \<not> hasStore \<or> \<not> sc_hasIDs config \<or> \<not> sc_hasClock config then Inl SendInvalidInput
      else
        let timeout = (if sc_RequestTimeout config = 0 then 5 * second else sc_RequestTimeout config) in
        if timeout < millisecond \<or> 5 * second < timeout then Inl SendInvalidInput else Inr timeout)"

definition NewID :: "bytes \<Rightarrow> (msgCode, bytes) result \<times> bytes" where
  "NewID entropy = (case readFull 16 entropy of
       (None, e) \<Rightarrow> (Inl SendStorageUnavailable, e)
     | (Some raw, e) \<Rightarrow> (Inr (hex_encode raw), e))"

definition generateIDs :: "('s \<Rightarrow> (msgCode, bytes) result \<times> 's) \<Rightarrow> instant \<Rightarrow> 's \<Rightarrow> (msgCode, Generated) result \<times> 's" where
  "generateIDs newID now s =
     (if now = zeroTime then (Inl SendInvalidInput, s)
      else
        let serverTime = UnixMilli now in
        if serverTime < 0 then (Inl SendInvalidInput, s)
        else case newID s of
          (Inl _, s1) \<Rightarrow> (Inl SendStorageUnavailable, s1)
        | (Inr serverMsgID, s1) \<Rightarrow> (case newID s1 of
            (Inl _, s2) \<Rightarrow> (Inl SendStorageUnavailable, s2)
          | (Inr eventID, s2) \<Rightarrow>
              if \<not> validIdentifier serverMsgID \<or> \<not> validIdentifier eventID then (Inl SendInvalidInput, s2)
              else (Inr \<lparr>gn_ServerMsgID = serverMsgID, gn_EventID = eventID, gn_ServerTime = serverTime\<rparr>, s2)))"

section \<open>The media seam\<close>

type_synonym mediaValidator = "ConnectionIdentity \<Rightarrow> bytes \<Rightarrow> Metadata \<Rightarrow> (mediaCode, unit) result"

fun size_loop :: "int \<Rightarrow> bytes \<Rightarrow> int" where
  "size_loop acc [] = acc"
| "size_loop acc (c # cs) = size_loop (wrap64 (acc * 10 + int (code c - 48))) cs"

definition parseMediaSize :: "bytes \<Rightarrow> int" where
  "parseMediaSize value = (if \<not> ValidMediaSize value then 0 else size_loop 0 value)"

definition mediaFailure :: "mediaCode \<Rightarrow> msgCode" where
  "mediaFailure c = (case c of
       MediaStorageUnavailable \<Rightarrow> SendStorageUnavailable
     | MediaUnauthorized \<Rightarrow> SendUnauthorized
     | MediaNotFound \<Rightarrow> SendUnauthorized
     | MediaExpired \<Rightarrow> SendUnauthorized
     | MediaConflict \<Rightarrow> SendUnauthorized
     | MediaInvalidToken \<Rightarrow> SendUnauthorized
     | _ \<Rightarrow> SendInvalidInput)"

definition validateMedia :: "mediaValidator option \<Rightarrow> ConnectionIdentity \<Rightarrow> Send \<Rightarrow> (msgCode, unit) result" where
  "validateMedia validator identity request =
     (if s_Type request \<noteq> ''media'' \<or> s_Version request \<noteq> 1 then Inr ()
      else case validator of
        None \<Rightarrow> Inl SendInvalidInput
      | Some v \<Rightarrow> (case DecodeMediaPayload (rawPayload (s_Payload request)) of
          Inl _ \<Rightarrow> Inl SendInvalidInput
        | Inr w \<Rightarrow> (case ParseSHA256 (mm_SHA256 w) of
            None \<Rightarrow> Inl SendInvalidInput
          | Some digest \<Rightarrow>
              let metadata = \<lparr>md_MediaKey = mm_MediaKey w, md_Kind = mm_Kind w, md_ContentType = mm_ContentType w,
                    md_Size = parseMediaSize (mm_Size w), md_SHA256 = digest\<rparr>
              in if \<not> ValidMetadata metadata then Inl SendInvalidInput
                 else (case v identity (s_ConversationID request) metadata of
                     Inl c \<Rightarrow> Inl (mediaFailure c)
                   | Inr _ \<Rightarrow> Inr ()))))"

section \<open>Send\<close>

definition validIdentity :: "ConnectionIdentity \<Rightarrow> bool" where
  "validIdentity identity =
     (if \<not> validIdentifier (ci_userID identity) \<or> \<not> validIdentifier (ci_deviceID identity) \<or>
         \<not> validIdentifier (ci_sessionID identity) \<or> \<not> validIdentifier (ci_connectionID identity) then False
      else if length (ci_tokenID identity) \<noteq> 32 then False
      else list_all is_lower_hex (ci_tokenID identity))"

definition ackFor :: "PersistedMessage \<Rightarrow> Ack" where
  "ackFor p = \<lparr>a_ClientMsgID = pm_ClientMsgID p, a_ConversationID = pm_ConversationID p, a_SenderID = pm_SenderID p,
     a_ServerMsgID = pm_ServerMsgID p, a_ConversationSeq = fmt_int (pm_ConversationSeq p), a_ServerTime = fmt_int (pm_ServerTime p)\<rparr>"

definition Service_Send ::
  "goContext \<Rightarrow> txEnv \<Rightarrow> instant \<Rightarrow> mediaValidator option \<Rightarrow> ('s \<Rightarrow> (msgCode, bytes) result \<times> 's) \<Rightarrow>
   ConnectionIdentity \<Rightarrow> Send \<Rightarrow> 's \<Rightarrow> msgdb \<Rightarrow> msgdb \<Rightarrow> (msgCode, ServerFrame) result \<times> 's \<times> msgdb" where
  "Service_Send ctx env now validator newID identity request s db db1 =
     (if ctx = None then (Inl SendInvalidInput, s, db1)
      else if \<not> validIdentity identity then (Inl SendInvalidInput, s, db1)
      else if \<not> is_ok (EncodeSend request) then (Inl SendInvalidInput, s, db1)
      else case Persist ctx env (ci_userID identity) request (validateMedia validator identity request)
             (generateIDs newID now) s db db1 of
        (Inl e, s', db') \<Rightarrow> (Inl e, s', db')
      | (Inr p, s', db') \<Rightarrow>
          if pm_ClientMsgID p \<noteq> s_ClientMsgID request \<or> pm_ConversationID p \<noteq> s_ConversationID request \<or>
             pm_SenderID p \<noteq> ci_userID identity \<or> pm_ConversationSeq p < 0 \<or> pm_ServerTime p < 0
          then (Inl SendStorageUnavailable, s', db')
          else
            let frame = noFrame\<lparr>f_Ack := Some (ackFor p)\<rparr> in
            if \<not> is_ok (EncodeServerFrame frame) then (Inl SendStorageUnavailable, s', db')
            else (Inr frame, s', db'))"

end
