(* ===== verification/SendServiceFacts.thy ===== *)
theory SendServiceFacts
  imports SendService
begin

text \<open>
  What a send guarantees: the message tables stay well formed with gap-free sequences, an acknowledgement names a row
  that is stored for ever, retries of an intent give the same acknowledgement, and a valid request by a member is stored
  exactly once.
\<close>

section \<open>The shape of an encodable request\<close>

lemma jval_object_length: "jval d s (JObject ms) r \<Longrightarrow> 2 \<le> length s"
  by (erule jval.cases) (auto simp: scalar_def dest!: skip_ws_length split: if_splits option.splits)

lemma unmarshal_fields_length: "unmarshal_fields raw = Some f \<Longrightarrow> 2 \<le> length raw"
  by (auto simp: unmarshal_fields_def json_parse_iff dest: jval_object_length split: option.splits json.splits)

lemma value_text_length: "json_valid p \<Longrightarrow> length (value_text p) \<le> length p"
proof -
  assume "json_valid p"
  then obtain v r where "jval 0 p v r" by (auto simp: json_valid_iff)
  then show ?thesis using suffix_length_le [OF skip_ws_suffix [of p]] by (simp add: value_text_jval consumed_def)
qed

lemma versionField_bounds: "versionField f k = Inr v \<Longrightarrow> 0 < uint v \<and> uint v \<le> 2147483647"
proof -
  assume a: "versionField f k = Inr v"
  let ?r = "rawField f k"
  have c: "canonical_dec maxVersion" by code_simp
  have m: "dec_val maxVersion = 2147483647" by (simp add: maxVersion_def dec_val_def digit_val_def)
  have d: "canonical_dec ?r" "dec_val ?r \<le> 2147483647" "?r \<noteq> ''0''" "v = word_of_int (int (dec_val ?r))"
    using a decimal_iff_le [OF c, of ?r] m by (auto simp: versionField_def Let_def split: if_splits)
  have "fmt_nat 0 = ''0''" by code_simp
  then have "dec_val ?r \<noteq> 0" using d(1,3) fmt_nat_dec_val [of ?r] by metis
  moreover have "uint v = int (dec_val ?r)" unfolding d(4) uint_word_of_int using d(2) by simp
  ultimately show ?thesis using d(2) by simp
qed

lemma sendShape_checks:
  assumes "sendShape q = Inr r"
  shows "ident128 (s_ClientMsgID r)" "ident128 (s_ConversationID r)" "messageTypeDomain (s_Type r)"
    "0 < uint (s_Version r)" "uint (s_Version r) \<le> 2147483647" "2 \<le> length (rawPayload (s_Payload r))"
proof -
  have "is_identifier (s_Type r) 64 True" "ident128 (s_ClientMsgID r)" "ident128 (s_ConversationID r)"
    using assms by (auto simp: sendShape_def Let_def bindR_eq_Inr split: if_splits)
  then show "ident128 (s_ClientMsgID r)" "ident128 (s_ConversationID r)" "messageTypeDomain (s_Type r)"
    by (auto simp: identifier_type messageTypeDomain_def type_byte_def list_all_iff)
  show "0 < uint (s_Version r)" "uint (s_Version r) \<le> 2147483647" "2 \<le> length (rawPayload (s_Payload r))"
    using sendShape_fields(4-6) [OF assms] versionField_bounds unmarshal_fields_length by (auto simp: rawPayload_def)
qed

lemma EncodeSend_shape:
  assumes "EncodeSend r = Inr w"
  obtains p where "s_Payload r = Some p" "2 \<le> length p" "length p \<le> 61440" "s_ProtocolVersion r = 1"
    "0 < uint (s_Version r)" "uint (s_Version r) \<le> 2147483647" "ident128 (s_ClientMsgID r)" "ident128 (s_ConversationID r)"
    "messageTypeDomain (s_Type r)"
proof -
  obtain p where p: "s_Payload r = Some p" "json_valid p" "DecodeSend w = Inr (r\<lparr>s_Payload := Some (value_text p)\<rparr>)"
    using EncodeSend_Decode [OF assms] by blast
  obtain q where q: "p_version q = 1" "sendShape q = Inr (r\<lparr>s_Payload := Some (value_text p)\<rparr>)"
    using DecodeSend_frame [OF p(3)] by metis
  note f = sendShape_checks [OF q(2), simplified]
  have v: "s_ProtocolVersion r = 1" using sendShape_fields(7) [OF q(2)] q(1) by simp
  have "2 \<le> length (value_text p)" using f by (simp add: rawPayload_def)
  moreover have "length p \<le> 61440"
    using assms p(1) by (auto simp: EncodeSend_def payloadLen_def MaxSendBytes_def bindR_eq_Inr split: if_splits)
  ultimately show thesis
    using that [OF p(1)] value_text_length [OF p(2)] f v by simp
qed


section \<open>The tables stay well formed\<close>

definition inConv :: "bytes \<Rightarrow> storedRow list \<Rightarrow> storedRow list" where
  "inConv conv ms = filter (\<lambda>m. sr_ConversationID m = conv) ms"

text \<open>
  Newest first, the messages of a conversation carry the sequences \<open>last, \<dots>, 1\<close>, and the conversation points at the newest.
\<close>

definition convOK :: "storedRow list \<Rightarrow> bytes \<Rightarrow> conv_row \<Rightarrow> bool" where
  "convOK ms conv row \<longleftrightarrow> 0 \<le> cv_last row \<and> cv_last row \<le> 9223372036854775807 \<and>
     map sr_ConversationSeq (inConv conv ms) = rev [1..cv_last row] \<and>
     cv_latest row = (case inConv conv ms of [] \<Rightarrow> None | m # _ \<Rightarrow> Some (sr_ServerMsgID m))"

definition messageOK :: "conv_row table \<Rightarrow> storedRow \<Rightarrow> bool" where
  "messageOK convs m \<longleftrightarrow> messageRowChecks m \<and> is_ok (EncodeSend (intent m)) \<and> map_of convs (sr_ConversationID m) \<noteq> None"

definition msgInv :: "msgdb \<Rightarrow> bool" where
  "msgInv db \<longleftrightarrow> distinct (map fst (db_convs db)) \<and> distinct (map sr_ServerMsgID (db_messages db)) \<and>
     distinct (map (\<lambda>m. (sr_SenderID m, sr_ClientMsgID m)) (db_messages db)) \<and>
     distinct (map fst (db_outbox db)) \<and> map snd (db_outbox db) = map sr_ServerMsgID (db_messages db) \<and>
     list_all (\<lambda>(k, r). convOK (db_messages db) k r) (db_convs db) \<and> list_all (messageOK (db_convs db)) (db_messages db)"

lemma convOK_other: "sr_ConversationID m \<noteq> conv \<Longrightarrow> convOK (m # ms) conv row \<longleftrightarrow> convOK ms conv row"
  by (simp add: convOK_def inConv_def)

lemma convOK_same:
  assumes "convOK ms conv row" "sr_ConversationID m = conv" "sr_ConversationSeq m = cv_last row + 1"
    "cv_last row < 9223372036854775807"
  shows "convOK (m # ms) conv \<lparr>cv_last = cv_last row + 1, cv_latest = Some (sr_ServerMsgID m)\<rparr>"
  using assms by (simp add: convOK_def inConv_def upto_rec2)

lemma findMessage_None:
  "findMessage db u c = None \<longleftrightarrow> (u, c) \<notin> set (map (\<lambda>m. (sr_SenderID m, sr_ClientMsgID m)) (db_messages db))"
  by (auto simp: findMessage_def find_None_iff)

text \<open>Either the message was there, or one new row was added that carries the request.\<close>

lemma persist_message_cases:
  assumes "persist_message db u c conv server ty schema time payload event = Inr (stored, db')"
  obtains "findMessage db u c = Some stored" "db' = db"
  | row where "findMessage db u c = None" "map_of (db_convs db) conv = Some row" "cv_last row < 9223372036854775807"
    "stored = \<lparr>sr_ServerMsgID = server, sr_ClientMsgID = c, sr_SenderID = u, sr_ConversationID = conv,
        sr_ConversationSeq = cv_last row + 1, sr_ProtocolVersion = 1, sr_SchemaVersion = schema,
        sr_MessageType = ty, sr_ServerTime = time, sr_Payload = payload\<rparr>"
    "messageRowChecks stored" "server \<notin> set (map sr_ServerMsgID (db_messages db))"
    "event \<notin> set (map fst (db_outbox db))" "u \<in> set (db_users db)"
    "db' = db\<lparr>db_convs := mapRows (\<lambda>k r. if k = conv then \<lparr>cv_last = cv_last row + 1, cv_latest = Some server\<rparr> else r) (db_convs db),
       db_messages := stored # db_messages db, db_outbox := (event, server) # db_outbox db\<rparr>"
proof (cases "findMessage db u c")
  case None
  obtain row where row: "map_of (db_convs db) conv = Some row"
    using assms None by (cases "map_of (db_convs db) conv") (simp_all add: persist_message_def)
  note p = assms [unfolded persist_message_def None row option.case Let_def]
  show thesis
  proof (rule that(2) [OF None row])
    show "cv_last row < 9223372036854775807" using p by (simp split: if_splits)
  qed (use p in \<open>simp split: if_splits; blast?\<close>)+
next
  case (Some m)
  then have "m = stored \<and> db' = db" using assms unfolding persist_message_def Some option.case by simp
  then show thesis using Some that(1) by blast
qed

lemma persist_message_inv:
  assumes "persist_message db u c conv server ty schema time payload event = Inr (stored, db')" "msgInv db"
    "is_ok (EncodeSend (intent stored))"
  shows "msgInv db'"
  using assms(1)
proof (cases rule: persist_message_cases)
  case (2 row)
  have keys: "map_of (db_convs db') k = None \<longleftrightarrow> map_of (db_convs db) k = None" for k by (simp add: 2)
  have "messageOK (db_convs db') stored" using 2 assms(3) keys by (simp add: messageOK_def)
  moreover have "messageOK (db_convs db') m" if "messageOK (db_convs db) m" for m
    using that keys by (simp add: messageOK_def)
  moreover have "convOK (stored # db_messages db) k
      (if k = conv then \<lparr>cv_last = cv_last row + 1, cv_latest = Some server\<rparr> else r)"
    if "(k, r) \<in> set (db_convs db)" for k r
  proof -
    have ok: "convOK (db_messages db) k r" using that assms(2) by (auto simp: msgInv_def list_all_iff)
    have "map_of (db_convs db) k = Some r" using that assms(2) by (simp add: msgInv_def)
    then show ?thesis using ok 2(2,3) convOK_same [OF ok, of stored] convOK_other [of stored k] by (auto simp: 2(4))
  qed
  ultimately show ?thesis
    using assms(2) 2(1,6-9) findMessage_None [of db u c]
    by (auto simp: msgInv_def list_all_iff mapRows_def 2(4) comp_def case_prod_beta)
qed (use assms in simp)


section \<open>What one send does\<close>

abbreviation persistRequest :: "msgdb \<Rightarrow> bytes \<Rightarrow> Send \<Rightarrow> Generated \<Rightarrow> (driverError, storedRow \<times> msgdb) result" where
  "persistRequest db userID request g \<equiv> persist_message db userID (s_ClientMsgID request) (s_ConversationID request)
     (gn_ServerMsgID g) (s_Type request) (uint (s_Version request)) (gn_ServerTime g) (rawPayload (s_Payload request)) (gn_EventID g)"

lemma compareIntent_ok [simp]: "compareIntent stored request = Inr u \<longleftrightarrow> SameIntent (intent stored) request = Inr True"
  by (auto simp: compareIntent_def split: sum.splits)

lemma conversationAuthorize_ok:
  "conversationAuthorize env db u conv = Inr x \<Longrightarrow> map_of (db_convs db) conv \<noteq> None \<and> (conv, u) \<in> set (db_members db)"
  by (simp add: conversationAuthorize_def split: option.splits if_splits)

lemma persistMessage_ok:
  "persistMessage env db u request g = Inr x \<longleftrightarrow> tx_stmt env 3 = None \<and> persistRequest db u request g = Inr x"
  by (simp add: persistMessage_def split: option.splits)

lemma Persist_state:
  assumes "Persist ctx env u request validate generate s db db1 = (r, s', d)"
  shows "d = db1 \<or> (\<exists>g stored. persistRequest db1 u request g = Inr (stored, d) \<and> SameIntent (intent stored) request = Inr True \<and>
    tx_commit env \<noteq> CommitFailed \<and> is_ok (EncodeSend request))"
  using assms unfolding Persist_def
  by (auto simp: persistMessage_ok split: if_splits option.splits sum.splits prod.splits commitOutcome.splits)

lemma Persist_success:
  assumes "Persist ctx env u request validate generate s db db1 = (Inr p, s', d)"
  obtains row where "p = persisted row" "SameIntent (intent row) request = Inr True"
    "map_of (db_convs db) (s_ConversationID request) \<noteq> None" "(s_ConversationID request, u) \<in> set (db_members db)"
    "findMessage db u (s_ClientMsgID request) = Some row \<and> d = db1 \<or> (\<exists>g. persistRequest db1 u request g = Inr (row, d))"
proof -
  obtain x where a: "conversationAuthorize env db u (s_ConversationID request) = Inr x"
    using assms unfolding Persist_def by (auto split: if_splits option.splits sum.splits)
  have "\<exists>row. p = persisted row \<and> SameIntent (intent row) request = Inr True \<and>
    (findMessage db u (s_ClientMsgID request) = Some row \<and> d = db1 \<or> (\<exists>g. persistRequest db1 u request g = Inr (row, d)))"
    using assms unfolding Persist_def
    by (auto simp: persistMessage_ok loadMessage_def split: if_splits option.splits sum.splits prod.splits commitOutcome.splits)
  then show thesis using conversationAuthorize_ok [OF a] that by blast
qed

inductive send_step :: "msgdb \<Rightarrow> msgdb \<Rightarrow> bool" where
  "Service_Send ctx env now validator newID identity request (s :: bytes) db db1 = (r, s', db2) \<Longrightarrow> send_step db1 db2"

lemma Service_Send_state:
  assumes "Service_Send ctx env now validator newID identity request s db db1 = (r, s', d)"
  shows "d = db1 \<or> (\<exists>g stored. persistRequest db1 (ci_userID identity) request g = Inr (stored, d) \<and>
    SameIntent (intent stored) request = Inr True \<and> tx_commit env \<noteq> CommitFailed \<and> is_ok (EncodeSend request))"
proof (cases "Persist ctx env (ci_userID identity) request (validateMedia validator identity request) (generateIDs newID now) s db db1")
  case (fields r1 s1 d1)
  then have "d = db1 \<or> d = d1" using assms by (auto simp: Service_Send_def Let_def split: if_splits sum.splits)
  then show ?thesis using Persist_state [OF fields] by blast
qed

lemma Service_Send_inv:
  assumes "Service_Send ctx env now validator newID identity request s db db1 = (r, s', d)" "msgInv db1"
  shows "msgInv d"
  using Service_Send_state [OF assms(1)] assms(2) persist_message_inv SameIntent_Inr by blast

lemma send_step_inv: "send_step db db' \<Longrightarrow> msgInv db \<Longrightarrow> msgInv db'"
proof (induction rule: send_step.induct)
  case (1 ctx env now validator newID identity request s db db1 r s' db2)
  show ?case by (rule Service_Send_inv [OF 1])
qed

lemma persist_message_keeps:
  "persist_message db u c conv server ty schema time payload event = Inr (stored, db') \<Longrightarrow> set (db_messages db) \<subseteq> set (db_messages db')"
  by (erule persist_message_cases) auto

lemma send_step_keeps: "send_step db db' \<Longrightarrow> m \<in> set (db_messages db) \<Longrightarrow> m \<in> set (db_messages db')"
proof (induction rule: send_step.induct)
  case (1 ctx env now validator newID identity request s db db1 r s' db2)
  then show ?case using Service_Send_state [OF 1(1)] persist_message_keeps by blast
qed

interpretation send_runs: store_runs send_step msgInv
  by unfold_locales (rule send_step_inv)

interpretation send_latch: store_latch send_step msgInv "\<lambda>db m. m \<in> set (db_messages db)"
  by unfold_locales (rule send_step_keeps)


lemma find_distinct: "distinct (map f xs) \<Longrightarrow> x \<in> set xs \<Longrightarrow> (\<And>y. P y \<longleftrightarrow> f y = f x) \<Longrightarrow> find P xs = Some x"
  by (induction xs) (auto simp: image_iff)

lemma filter_distinct: "distinct (map f xs) \<Longrightarrow> x \<in> set xs \<Longrightarrow> (\<And>y. P y \<longleftrightarrow> f y = f x) \<Longrightarrow> filter P xs = [x]"
  by (induction xs) (auto simp: image_iff filter_empty_conv)

lemma findMessage_stored:
  assumes "msgInv db" "m \<in> set (db_messages db)"
  shows "findMessage db (sr_SenderID m) (sr_ClientMsgID m) = Some m"
  unfolding findMessage_def
  by (rule find_distinct [where f = "\<lambda>m. (sr_SenderID m, sr_ClientMsgID m)"]) (use assms in \<open>auto simp: msgInv_def\<close>)

lemma findMessage_Some: "findMessage db u c = Some m \<Longrightarrow> m \<in> set (db_messages db) \<and> sr_SenderID m = u \<and> sr_ClientMsgID m = c"
  by (auto simp: findMessage_def find_Some_iff)

lemma persist_message_stored:
  assumes "persist_message db u c conv server ty schema time payload event = Inr (stored, db')"
  shows "stored \<in> set (db_messages db')" "sr_SenderID stored = u" "sr_ClientMsgID stored = c"
  using assms by (cases rule: persist_message_cases; auto dest: findMessage_Some)+

lemma Service_Send_success:
  assumes "Service_Send ctx env now validator newID identity request s db db1 = (Inr frame, s', d)"
    "set (db_messages db) \<subseteq> set (db_messages db1)"
  obtains row where "row \<in> set (db_messages d)" "frame = noFrame\<lparr>f_Ack := Some (ackFor (persisted row))\<rparr>"
    "SameIntent (intent row) request = Inr True" "sr_SenderID row = ci_userID identity"
    "sr_ClientMsgID row = s_ClientMsgID request" "sr_ConversationID row = s_ConversationID request"
    "(s_ConversationID request, ci_userID identity) \<in> set (db_members db)" "is_ok (EncodeServerFrame frame)"
    "is_ok (EncodeSend request)" "validIdentity identity" "ctx \<noteq> None"
proof -
  obtain p where p: "Persist ctx env (ci_userID identity) request (validateMedia validator identity request)
      (generateIDs newID now) s db db1 = (Inr p, s', d)" "frame = noFrame\<lparr>f_Ack := Some (ackFor p)\<rparr>"
    "pm_ConversationID p = s_ConversationID request" "is_ok (EncodeServerFrame frame)" "is_ok (EncodeSend request)"
    "validIdentity identity" "ctx \<noteq> None"
    using assms(1) by (auto simp: Service_Send_def Let_def split: if_splits sum.splits prod.splits)
  obtain row where r: "p = persisted row" "SameIntent (intent row) request = Inr True"
    "(s_ConversationID request, ci_userID identity) \<in> set (db_members db)"
    "findMessage db (ci_userID identity) (s_ClientMsgID request) = Some row \<and> d = db1 \<or>
      (\<exists>g. persistRequest db1 (ci_userID identity) request g = Inr (row, d))"
    using Persist_success [OF p(1)] by metis
  have "row \<in> set (db_messages d) \<and> sr_SenderID row = ci_userID identity \<and> sr_ClientMsgID row = s_ClientMsgID request"
    using r(4) assms(2) by (auto dest: findMessage_Some persist_message_stored)
  then show thesis using that [of row] p r by (simp add: persisted_def)
qed

section \<open>A sample conversation\<close>

definition sampleIdentity :: ConnectionIdentity where
  "sampleIdentity = \<lparr>ci_userID = ''u1'', ci_deviceID = ''phone'', ci_sessionID = ''s1'', ci_connectionID = ''n1'',
     ci_tokenID = replicate 32 (CHR ''a'')\<rparr>"

definition sampleMsgDb :: msgdb where
  "sampleMsgDb = \<lparr>db_users = [''u1'', ''u2''], db_convs = [(''v1'', \<lparr>cv_last = 0, cv_latest = None\<rparr>)],
     db_members = [(''v1'', ''u1''), (''v1'', ''u2'')], db_messages = [], db_outbox = []\<rparr>"

definition sampleEntropy :: bytes where
  "sampleEntropy = replicate 16 (CHR ''a'') @ replicate 16 (CHR ''b'')"

lemma goodTx_commit: "goodTx\<lparr>tx_commit := Committed\<rparr> = goodTx"
  by (simp add: goodTx_def)

definition spacedSend' :: Send where
  "spacedSend' = spacedSend\<lparr>s_ClientMsgID := ''c1''\<rparr>"

lemma sampleMsgDb_inv: "msgInv sampleMsgDb"
  by (simp add: msgInv_def sampleMsgDb_def convOK_def inConv_def)

definition sampleRow :: storedRow where
  "sampleRow = \<lparr>sr_ServerMsgID = hex_encode (replicate 16 (CHR ''a'')), sr_ClientMsgID = ''c1'', sr_SenderID = ''u1'',
     sr_ConversationID = ''v1'', sr_ConversationSeq = 1, sr_ProtocolVersion = 1, sr_SchemaVersion = 1, sr_MessageType = ''text'',
     sr_ServerTime = 5, sr_Payload = rawPayload (s_Payload sampleSend)\<rparr>"

definition sampleAfter :: msgdb where
  "sampleAfter = sampleMsgDb\<lparr>db_convs := [(''v1'', \<lparr>cv_last = 1, cv_latest = Some (sr_ServerMsgID sampleRow)\<rparr>)],
     db_messages := [sampleRow], db_outbox := [(hex_encode (replicate 16 (CHR ''b'')), sr_ServerMsgID sampleRow)]\<rparr>"

definition sampleFrame :: ServerFrame where
  "sampleFrame = noFrame\<lparr>f_Ack := Some (ackFor (persisted sampleRow))\<rparr>"

definition sampleGenerated :: Generated where
  "sampleGenerated = \<lparr>gn_ServerMsgID = hex_encode (replicate 16 (CHR ''a'')), gn_EventID = hex_encode (replicate 16 (CHR ''b'')),
    gn_ServerTime = 5\<rparr>"

lemma sample_generates: "generateIDs NewID 5000000 sampleEntropy = (Inr sampleGenerated, [])" "validGenerated sampleGenerated"
  by code_simp+

lemma sample_identity: "validIdentity sampleIdentity" "ident128 ''u1''" "ident128 ''v1''"
  by code_simp+

lemma sample_request: "s_ConversationID sampleSend = ''v1''" "s_ClientMsgID sampleSend = ''c1''" "s_Type sampleSend \<noteq> ''media''"
  by (simp_all add: sampleSend_def)

lemma sample_persists: "persistRequest sampleMsgDb ''u1'' sampleSend sampleGenerated = Inr (sampleRow, sampleAfter)"
  by code_simp

lemma sample_intent: "intent sampleRow = sampleSend"
  by code_simp

lemma sample_frame_ok: "is_ok (EncodeServerFrame sampleFrame)"
  by code_simp

lemma sample_sent:
  "Service_Send (Some False) (goodTx\<lparr>tx_commit := x\<rparr>) 5000000 None NewID sampleIdentity sampleSend sampleEntropy sampleMsgDb sampleMsgDb =
     (if x = Committed then Inr sampleFrame else Inl SendStorageUnavailable, [], if x = CommitFailed then sampleMsgDb else sampleAfter)"
proof -
  have u: "ci_userID sampleIdentity = ''u1''" by (simp add: sampleIdentity_def)
  have t: "map_of (db_convs sampleMsgDb) ''v1'' \<noteq> None" "(''v1'', ''u1'') \<in> set (db_members sampleMsgDb)"
    "findMessage sampleMsgDb ''u1'' ''c1'' = None" by (simp_all add: sampleMsgDb_def findMessage_def)
  have c: "compareIntent sampleRow sampleSend = Inr ()"
    using sampleSend_ok by (simp add: sample_intent SameIntent_Inr equalPayload_def equalValue_refl)
  have m: "validateMedia None sampleIdentity sampleSend = Inr ()" by (simp add: validateMedia_def sample_request)
  let ?env = "goodTx\<lparr>tx_commit := x\<rparr>"
  have a: "conversationAuthorize ?env sampleMsgDb ''u1'' ''v1'' = Inr ()" using t by (simp add: conversationAuthorize_def goodTx_def)
  have l: "loadMessage ?env sampleMsgDb ''u1'' ''c1'' = Inr None" using t by (simp add: loadMessage_def goodTx_def)
  have s: "persistMessage ?env sampleMsgDb ''u1'' sampleSend sampleGenerated = Inr (sampleRow, sampleAfter)"
    unfolding persistMessage_ok sample_persists by (simp add: goodTx_def)
  have "Persist (Some False) ?env ''u1'' sampleSend (Inr ()) (generateIDs NewID 5000000) sampleEntropy sampleMsgDb sampleMsgDb =
    (if x = Committed then Inr (persisted sampleRow) else Inl SendStorageUnavailable, [], if x = CommitFailed then sampleMsgDb else sampleAfter)"
    using sampleSend_ok sample_identity
    by (simp add: Persist_def sample_generates sample_request a l s c split: commitOutcome.split)
  note p = this
  have "pm_ClientMsgID (persisted sampleRow) = ''c1''" "pm_ConversationID (persisted sampleRow) = ''v1''"
    "pm_SenderID (persisted sampleRow) = ''u1''" "\<not> pm_ConversationSeq (persisted sampleRow) < 0"
    "\<not> pm_ServerTime (persisted sampleRow) < 0"
    by (simp_all add: persisted_def sampleRow_def)
  then show ?thesis
    using sampleSend_ok sample_identity sample_frame_ok
    by (simp add: Service_Send_def u m p sample_request sampleFrame_def)
qed

lemma sample_acked:
  "Service_Send (Some False) goodTx 5000000 None NewID sampleIdentity sampleSend sampleEntropy sampleMsgDb sampleMsgDb =
     (Inr sampleFrame, [], sampleAfter)"
  using sample_sent [of Committed] unfolding goodTx_commit by simp

lemma sample_lost:
  "Service_Send (Some False) (goodTx\<lparr>tx_commit := CommitLost\<rparr>) 5000000 None NewID sampleIdentity sampleSend sampleEntropy
     sampleMsgDb sampleMsgDb = (Inl SendStorageUnavailable, [], sampleAfter)"
  using sample_sent [of CommitLost] by simp

section \<open>Guarantees of a send\<close>

text \<open>
  C3. An acknowledgement is a promise kept: when \<^verbatim>\<open>Send\<close> returns a frame, the sender is a member of the conversation, the
  frame encodes and correlates with the request for that sender, and it names a stored row with the request's intent that
  is still there after any further sends.
\<close>

theorem ack_durable:
  assumes "Service_Send ctx env now validator newID identity request s db db1 = (Inr frame, s', db2)"
    "set (db_messages db) \<subseteq> set (db_messages db1)" "msgInv db1" "send_step\<^sup>*\<^sup>* db2 db3"
  shows "(s_ConversationID request, ci_userID identity) \<in> set (db_members db) \<and>
    Correlate request (ci_userID identity) frame = Returned (Inr ()) \<and>
    (\<exists>row \<in> set (db_messages db3). f_Ack frame = Some (ackFor (persisted row)) \<and> sr_SenderID row = ci_userID identity \<and>
       sr_ConversationID row = s_ConversationID request \<and> SameIntent (intent row) request = Inr True)"
proof -
  obtain row where r: "row \<in> set (db_messages db2)" "frame = noFrame\<lparr>f_Ack := Some (ackFor (persisted row))\<rparr>"
    "SameIntent (intent row) request = Inr True" "sr_SenderID row = ci_userID identity"
    "sr_ClientMsgID row = s_ClientMsgID request" "sr_ConversationID row = s_ConversationID request"
    "(s_ConversationID request, ci_userID identity) \<in> set (db_members db)" "is_ok (EncodeServerFrame frame)"
    "is_ok (EncodeSend request)" "validIdentity identity"
    using Service_Send_success [OF assms(1,2)] by metis
  have i: "ident128 (ci_userID identity)" using r(10) by (auto simp: validIdentity_def split: if_splits)
  have "Correlate request (ci_userID identity) frame = Returned (Inr ())"
    using r(2,4-6,8,9) i by (auto simp: Correlate_def is_ok_iff resultAck_def noFrame_def ackFor_def persisted_def)
  moreover have "msgInv db2" by (rule Service_Send_inv [OF assms(1,3)])
  then have "row \<in> set (db_messages db3)" using send_latch.latch_runs [OF assms(4)] r(1) by blast
  ultimately show ?thesis using r by (auto simp: noFrame_def)
qed


theorem ack_durable_witness:
  "Correlate sampleSend ''u1'' sampleFrame = Returned (Inr ()) \<and> (\<exists>row \<in> set (db_messages sampleAfter). f_Ack sampleFrame = Some (ackFor (persisted row)))"
  using ack_durable [OF sample_acked subset_refl sampleMsgDb_inv rtranclp.rtrancl_refl] by (auto simp: sampleIdentity_def)

lemma SameIntent_chain:
  assumes "SameIntent a b = Inr True" "is_ok (EncodeSend c)"
  shows "SameIntent a c = SameIntent b c" "SameIntent b c = Inr True \<or> SameIntent b c = Inr False"
proof -
  note ab = assms(1) [unfolded SameIntent_Inr]
  have p: "equalPayload (rawPayload (s_Payload a)) q = equalPayload (rawPayload (s_Payload b)) q" for q
    using ab equalPayload_trans equalPayload_sym by blast
  have e: "SameIntent x c = Inr (s_ProtocolVersion x = s_ProtocolVersion c \<and> s_ConversationID x = s_ConversationID c \<and>
      s_Version x = s_Version c \<and> s_Type x = s_Type c \<and> equalPayload (rawPayload (s_Payload x)) (rawPayload (s_Payload c)))"
    if "is_ok (EncodeSend x)" for x using that assms(2) SameIntent_Inr by blast
  show "SameIntent a c = SameIntent b c" using ab p by (simp add: e)
  show "SameIntent b c = Inr True \<or> SameIntent b c = Inr False" using ab by (simp add: e)
qed

lemma Persist_replay:
  assumes "findMessage db u (s_ClientMsgID request) = Some row" "ident128 u" "is_ok (EncodeSend request)"
    "map_of (db_convs db) (s_ConversationID request) \<noteq> None" "(s_ConversationID request, u) \<in> set (db_members db)"
    "SameIntent (intent row) request = Inr b"
  shows "Persist (Some c) goodTx u request validate generate s db db1 =
    (if b then Inr (persisted row) else Inl SendIDConflict, s, db1)"
proof -
  have "ident128 (s_ConversationID request)" using assms(3) EncodeSend_shape by (metis is_ok_iff)
  then show ?thesis
    using assms by (auto simp: Persist_def conversationAuthorize_def loadMessage_def compareIntent_def)
qed

lemma Persist_refused:
  assumes "ident128 u" "is_ok (EncodeSend request)"
    "map_of (db_convs db) (s_ConversationID request) = None \<or> (s_ConversationID request, u) \<notin> set (db_members db)"
  shows "Persist (Some c) goodTx u request validate generate s db db1 =
    (Inl (if map_of (db_convs db) (s_ConversationID request) = None then SendConversationMissing else SendUnauthorized), s, db1)"
proof -
  have "ident128 (s_ConversationID request)" using assms(2) EncodeSend_shape by (metis is_ok_iff)
  then show ?thesis using assms by (auto simp: Persist_def conversationAuthorize_def)
qed

text \<open>
  C2. Retries are idempotent. After an acknowledged send and any further sends, and with memberships changed in any way since, a
  valid request of the same user with the same client identifier, on a database that answers, changes nothing, and its result is
  fixed: a conversation that does not exist is reported missing, a user who is no member of the conversation now is refused, also
  when the identifier was stored before; a member gets the very same acknowledgement for the same intent, and
  \<^verbatim>\<open>SEND_ID_CONFLICT\<close> for any other.
\<close>

theorem resend_idempotent:
  assumes "Service_Send ctx env now validator newID identity request s db db1 = (Inr frame, s', db2)"
    "set (db_messages db) \<subseteq> set (db_messages db1)" "msgInv db1" "send_step\<^sup>*\<^sup>* db2 db3"
    "ci_userID identity' = ci_userID identity" "validIdentity identity'" "is_ok (EncodeSend request')"
    "s_ClientMsgID request' = s_ClientMsgID request" "db4 = db3\<lparr>db_members := members\<rparr>"
  shows "Service_Send (Some c) goodTx now' validator' newID' identity' request' t db4 db4 =
    (if map_of (db_convs db4) (s_ConversationID request') = None then Inl SendConversationMissing
     else if (s_ConversationID request', ci_userID identity) \<notin> set members then Inl SendUnauthorized
     else if SameIntent request request' = Inr True then Inr frame else Inl SendIDConflict, t, db4)"
proof -
  obtain row where r: "row \<in> set (db_messages db2)" "frame = noFrame\<lparr>f_Ack := Some (ackFor (persisted row))\<rparr>"
    "SameIntent (intent row) request = Inr True" "sr_SenderID row = ci_userID identity"
    "sr_ClientMsgID row = s_ClientMsgID request" "sr_ConversationID row = s_ConversationID request"
    "is_ok (EncodeServerFrame frame)"
    using Service_Send_success [OF assms(1,2)] by metis
  have i2: "msgInv db2" by (rule Service_Send_inv [OF assms(1,3)])
  have i3: "msgInv db3" using send_runs.inv_runs [OF assms(4) i2] .
  have row: "row \<in> set (db_messages db3)" using send_latch.latch_runs [OF assms(4) i2 r(1)] .
  have "findMessage db3 (ci_userID identity') (s_ClientMsgID request') = Some row"
    using findMessage_stored [OF i3 row] r(4,5) assms(5,8) by simp
  then have f: "findMessage db4 (ci_userID identity') (s_ClientMsgID request') = Some row" by (simp add: assms(9) findMessage_def)
  have u: "ident128 (ci_userID identity')" using assms(6) by (auto simp: validIdentity_def split: if_splits)
  show ?thesis
  proof (cases "map_of (db_convs db4) (s_ConversationID request') = None \<or> (s_ConversationID request', ci_userID identity') \<notin> set (db_members db4)")
    case True
    show ?thesis unfolding Service_Send_def Persist_refused [OF u assms(7) True] using True assms(5,6,7,9) by auto
  next
    case False
    obtain b where b: "SameIntent request request' = Inr b" "SameIntent (intent row) request' = Inr b"
      using SameIntent_chain [OF r(3) assms(7)] by metis
    have m: "map_of (db_convs db4) (s_ConversationID request') \<noteq> None" "(s_ConversationID request', ci_userID identity') \<in> set (db_members db4)" using False by simp_all
    note p = Persist_replay [OF f u assms(7) m b(2)]
    have k: "messageRowChecks row" using i3 row by (auto simp: msgInv_def list_all_iff messageOK_def)
    have q: "b \<Longrightarrow> pm_ClientMsgID (persisted row) = s_ClientMsgID request' \<and> pm_ConversationID (persisted row) = s_ConversationID request' \<and>
        pm_SenderID (persisted row) = ci_userID identity' \<and> \<not> pm_ConversationSeq (persisted row) < 0 \<and> \<not> pm_ServerTime (persisted row) < 0"
      using b(1) k r(4,5,6) assms(5,8) by (simp add: persisted_def messageRowChecks_def SameIntent_Inr)
    show ?thesis unfolding Service_Send_def p using q b(1) r(2,7) m assms(5,6,7,9) by (cases b) simp_all
  qed
qed

lemma spaced_ok: "is_ok (EncodeSend spacedSend')"
  by code_simp

lemma spaced_same: "SameIntent sampleSend spacedSend' = Inr True"
proof -
  have "equalPayload (rawPayload (s_Payload sampleSend)) (rawPayload (s_Payload spacedSend'))" by code_simp
  then show ?thesis
    using sampleSend_ok spaced_ok unfolding SameIntent_Inr by (simp add: spacedSend'_def spacedSend_def)
qed

theorem resend_idempotent_witness:
  "Service_Send (Some False) goodTx 9000000 None NewID sampleIdentity spacedSend' [] sampleAfter sampleAfter = (Inr sampleFrame, [], sampleAfter) \<and>
   fst (Service_Send (Some False) goodTx 9000000 None NewID sampleIdentity spacedSend' [] (sampleAfter\<lparr>db_members := []\<rparr>) (sampleAfter\<lparr>db_members := []\<rparr>)) = Inl SendUnauthorized"
proof -
  have d: "s_ClientMsgID spacedSend' = s_ClientMsgID sampleSend" "s_ConversationID spacedSend' = ''v1''"
    by (simp_all add: spacedSend'_def spacedSend_def sampleSend_def)
  have m: "map_of (db_convs sampleAfter) (s_ConversationID spacedSend') \<noteq> None"
    "(s_ConversationID spacedSend', ci_userID sampleIdentity) \<in> set (db_members sampleAfter)" "sampleAfter = sampleAfter\<lparr>db_members := db_members sampleAfter\<rparr>"
    by (simp_all add: d(2) sampleAfter_def sampleMsgDb_def sampleIdentity_def)
  note r = resend_idempotent [OF sample_acked subset_refl sampleMsgDb_inv rtranclp.rtrancl_refl refl sample_identity(1) spaced_ok d(1)]
  show ?thesis using m(1,2) spaced_same by (simp add: r [OF m(3)] r [OF refl, where members = "[]"])
qed

text \<open>
  C5. The message tables stay well formed in every run of sends, whatever the database does: server and client
  identities are unique, every message has exactly one outbox event, each conversation's messages carry the sequences
  1 to its last without gap or repetition, and every stored row is a valid request.
\<close>

theorem send_tables_wellformed:
  assumes "msgInv db" "send_step\<^sup>*\<^sup>* db db'"
  shows "msgInv db'"
  using send_runs.inv_runs [OF assms(2,1)] .

theorem send_tables_wellformed_witness: "msgInv sampleAfter"
  by (rule send_tables_wellformed [OF sampleMsgDb_inv r_into_rtranclp, OF send_step.intros, OF sample_acked])

text \<open>
  C38. A final error means that nothing was stored. When a send that reports an error has changed the tables, the
  commit was not rejected, the row stored has the request's intent, and the public code of the error is one that the
  client's disposition table retries with the same intent.
\<close>

theorem send_error_final:
  assumes "Service_Send ctx env now validator newID identity request s db db1 = (Inl e, s', d)" "d \<noteq> db1"
  shows "e = SendStorageUnavailable \<and> Disposition (ProtocolCode e) = RetrySameIntent \<and> tx_commit env \<noteq> CommitFailed \<and>
    (\<exists>row \<in> set (db_messages d). sr_SenderID row = ci_userID identity \<and> sr_ClientMsgID row = s_ClientMsgID request \<and>
       SameIntent (intent row) request = Inr True)"
proof -
  have e: "e = SendStorageUnavailable"
  proof (cases "Persist ctx env (ci_userID identity) request (validateMedia validator identity request) (generateIDs newID now) s db db1")
    case (fields r1 s1 d1)
    show ?thesis
    proof (cases r1)
      case (Inl e1)
      then have "e = e1" "d = d1" using assms fields by (auto simp: Service_Send_def split: if_splits)
      then show ?thesis
        using fields assms(2) Inl unfolding Persist_def
        by (auto split: if_splits option.splits sum.splits prod.splits commitOutcome.splits)
    next
      case (Inr p)
      then show ?thesis using assms fields by (auto simp: Service_Send_def Let_def split: if_splits)
    qed
  qed
  obtain g row where r: "persistRequest db1 (ci_userID identity) request g = Inr (row, d)"
    "SameIntent (intent row) request = Inr True" "tx_commit env \<noteq> CommitFailed"
    using Service_Send_state [OF assms(1)] assms(2) by blast
  then show ?thesis using e persist_message_stored [OF r(1)] by (auto simp: dispositionFor_def ProtocolCode_def Disposition_def)
qed

theorem send_error_final_witness:
  "Disposition (ProtocolCode SendStorageUnavailable) = RetrySameIntent \<and>
   (\<exists>row \<in> set (db_messages sampleAfter). sr_ClientMsgID row = ''c1'' \<and> SameIntent (intent row) sampleSend = Inr True)"
proof -
  have "sampleAfter \<noteq> sampleMsgDb" by (auto simp: sampleAfter_def sampleMsgDb_def)
  then show ?thesis using send_error_final [OF sample_lost] by (auto simp: sample_request)
qed

section \<open>A valid send is stored once\<close>

lemma persist_message_fresh:
  assumes "findMessage db u (s_ClientMsgID request) = None" "EncodeSend request = Inr w" "validGenerated g" "ident128 u"
    "map_of (db_convs db) (s_ConversationID request) = Some row" "cv_last row < 9223372036854775807" "msgInv db"
    "u \<in> set (db_users db)" "gn_ServerMsgID g \<notin> set (map sr_ServerMsgID (db_messages db))"
    "gn_EventID g \<notin> set (map fst (db_outbox db))"
  obtains stored d where "persistRequest db u request g = Inr (stored, d)" "intent stored = request"
proof -
  obtain p where p: "s_Payload request = Some p" "2 \<le> length p" "length p \<le> 61440" "s_ProtocolVersion request = 1"
    "0 < uint (s_Version request)" "uint (s_Version request) \<le> 2147483647" "ident128 (s_ClientMsgID request)"
    "ident128 (s_ConversationID request)" "messageTypeDomain (s_Type request)"
    using EncodeSend_shape [OF assms(2)] .
  have c: "convOK (db_messages db) (s_ConversationID request) row"
    using assms(5,7) map_of_SomeD by (fastforce simp: msgInv_def list_all_iff)
  define stored where "stored = \<lparr>sr_ServerMsgID = gn_ServerMsgID g, sr_ClientMsgID = s_ClientMsgID request, sr_SenderID = u,
      sr_ConversationID = s_ConversationID request, sr_ConversationSeq = cv_last row + 1, sr_ProtocolVersion = 1,
      sr_SchemaVersion = uint (s_Version request), sr_MessageType = s_Type request, sr_ServerTime = gn_ServerTime g, sr_Payload = p\<rparr>"
  have "messageRowChecks stored"
    using assms(3,4) p c by (simp add: stored_def messageRowChecks_def validGenerated_def convOK_def)
  moreover have "(s_ConversationID request, cv_last row + 1) \<notin>
      set (map (\<lambda>m. (sr_ConversationID m, sr_ConversationSeq m)) (db_messages db))"
  proof -
    have "set (map sr_ConversationSeq (inConv (s_ConversationID request) (db_messages db))) = {1..cv_last row}"
      using c by (simp add: convOK_def)
    then have "cv_last row + 1 \<notin> sr_ConversationSeq ` set (inConv (s_ConversationID request) (db_messages db))" by simp
    then show ?thesis by (auto simp: inConv_def)
  qed
  moreover have "gn_ServerMsgID g \<notin> set (map snd (db_outbox db))" using assms(7,9) by (simp add: msgInv_def)
  ultimately have "\<exists>d. persistRequest db u request g = Inr (stored, d)"
    using assms(1,3-6,8-10) p(1)
    by (simp add: persist_message_def Let_def stored_def rawPayload_def validGenerated_def)
  moreover have "intent stored = request"
    using p(1,4) by (intro Send.Send.equality) (simp_all add: intent_def stored_def)
  ultimately show thesis using that by blast
qed


text \<open>
  C29. A valid send is stored exactly once. With a working database, a member whose request encodes gets its message
  persisted, whether earlier attempts with unknown outcome stored it or not, and then exactly one row carries that
  sender and client identifier.
\<close>

theorem send_stored_once:
  assumes "msgInv db" "is_ok (EncodeSend request)" "ident128 u" "u \<in> set (db_users db)"
    "(s_ConversationID request, u) \<in> set (db_members db)" "map_of (db_convs db) (s_ConversationID request) = Some row"
    "cv_last row < 9223372036854775807" "validate = Inr ()" "generate s = (Inr g, s')" "validGenerated g"
    "gn_ServerMsgID g \<notin> set (map sr_ServerMsgID (db_messages db))" "gn_EventID g \<notin> set (map fst (db_outbox db))"
    "\<And>m. m \<in> set (db_messages db) \<Longrightarrow> sr_SenderID m = u \<Longrightarrow> sr_ClientMsgID m = s_ClientMsgID request \<Longrightarrow>
       SameIntent (intent m) request = Inr True"
  shows "\<exists>m t d. Persist (Some c) goodTx u request validate generate s db db = (Inr (persisted m), t, d) \<and> msgInv d \<and>
    filter (\<lambda>m. sr_SenderID m = u \<and> sr_ClientMsgID m = s_ClientMsgID request) (db_messages d) = [m]"
proof -
  obtain m t d where p: "Persist (Some c) goodTx u request validate generate s db db = (Inr (persisted m), t, d)"
    "msgInv d" "m \<in> set (db_messages d)" "sr_SenderID m = u" "sr_ClientMsgID m = s_ClientMsgID request"
  proof (cases "findMessage db u (s_ClientMsgID request)")
    case (Some m)
    note f = findMessage_Some [OF Some]
    then have "SameIntent (intent m) request = Inr True" using assms(13) by blast
    then have "Persist (Some c) goodTx u request validate generate s db db = (Inr (persisted m), s, db)"
      using Persist_replay [OF Some assms(3,2) _ assms(5), of True c validate generate s db] assms(6) by simp
    then show thesis using that [of m s db] assms(1) f by simp
  next
    case None
    obtain w where w: "EncodeSend request = Inr w" using assms(2) by (auto simp: is_ok_iff)
    obtain m d where m: "persistRequest db u request g = Inr (m, d)" "intent m = request"
      using persist_message_fresh [OF None w assms(10,3,6,7,1,4,11,12)] .
    have same: "SameIntent (intent m) request = Inr True"
      using assms(2) m(2) by (simp add: SameIntent_Inr equalPayload_def equalValue_refl)
    have "ident128 (s_ConversationID request)" using EncodeSend_shape [OF w] .
    then have "Persist (Some c) goodTx u request validate generate s db db = (Inr (persisted m), s', d)"
      using assms(2,3,5,6,8-10) None m(1) same
      by (simp add: Persist_def conversationAuthorize_def loadMessage_def compareIntent_def persistMessage_def)
    then show thesis
      using that persist_message_inv [OF m(1) assms(1)] persist_message_stored [OF m(1)] assms(2) m(2) by blast
  qed
  have "distinct (map (\<lambda>m. (sr_SenderID m, sr_ClientMsgID m)) (db_messages d))" using p(2) by (simp add: msgInv_def)
  then have "filter (\<lambda>m'. sr_SenderID m' = u \<and> sr_ClientMsgID m' = s_ClientMsgID request) (db_messages d) = [m]"
    using filter_distinct [where f = "\<lambda>m. (sr_SenderID m, sr_ClientMsgID m)", OF _ p(3)] p(4,5) by auto
  then show ?thesis using p(1,2) by blast
qed

theorem send_stored_once_witness:
  "\<exists>m t d. Persist (Some False) goodTx ''u1'' sampleSend (Inr ()) (generateIDs NewID 5000000) sampleEntropy sampleMsgDb sampleMsgDb =
     (Inr (persisted m), t, d) \<and> msgInv d \<and>
    filter (\<lambda>m. sr_SenderID m = ''u1'' \<and> sr_ClientMsgID m = s_ClientMsgID sampleSend) (db_messages d) = [m]"
  by (rule send_stored_once [OF sampleMsgDb_inv sampleSend_ok sample_identity(2) _ _ _ _ refl _ sample_generates(2),
        where row = "\<lparr>cv_last = 0, cv_latest = None\<rparr>" and generate = "generateIDs NewID 5000000" and s = sampleEntropy])
    (simp_all add: sample_generates(1) sample_request sampleMsgDb_def)


section \<open>The media seam\<close>

lemma size_loop_value:
  assumes "all_digits s" "0 \<le> acc" "acc * 10 ^ length s + int (dec_val s) < 2 ^ 63"
  shows "size_loop acc s = acc * 10 ^ length s + int (dec_val s)"
  using assms
proof (induction s arbitrary: acc)
  case (Cons c s)
  have d: "int (code c - 48) = int (digit_val c)" "all_digits s" using Cons.prems(1) by (simp_all add: digit_val_digit)
  let ?a = "acc * 10 + int (digit_val c)"
  have e: "acc * 10 ^ length (c # s) + int (dec_val (c # s)) = ?a * 10 ^ length s + int (dec_val s)"
    by (simp add: dec_val_Cons algebra_simps)
  have p: "(1::int) \<le> 10 ^ length s" by simp
  have a: "0 \<le> ?a" using Cons.prems(2) by simp
  then have "?a \<le> ?a * 10 ^ length s" using mult_left_mono [OF p a] by simp
  moreover have "?a * 10 ^ length s + int (dec_val s) < 2 ^ 63" using Cons.prems(3) unfolding e .
  ultimately have "?a < 2 ^ 63" by linarith
  then have w: "wrap64 ?a = ?a" using a by (intro wrap64_id) (simp add: int64_def)
  show ?case
    using Cons.IH [OF d(2) a] Cons.prems(3) unfolding e by (simp add: d(1) w)
qed simp

lemma parseMediaSize_value:
  assumes "ValidMediaSize s"
  shows "parseMediaSize s = int (dec_val s)" "1 \<le> parseMediaSize s" "parseMediaSize s \<le> MaxMediaSize"
proof -
  note v = assms [unfolded ValidMediaSize_parts]
  have d: "all_digits s" using v by (simp add: canonical_dec_def)
  have "int (dec_val s) < 2 ^ 63" using v by (simp add: MaxMediaSize_def)
  then show p: "parseMediaSize s = int (dec_val s)" using size_loop_value [OF d, of 0] assms by (simp add: parseMediaSize_def)
  obtain c t where "s = c # t" "c \<noteq> CHR ''0''" using v by (cases s) auto
  then have "10 ^ length t \<le> dec_val s" using d dec_val_ge [of c t] by simp
  then have "1 \<le> dec_val s" using one_le_power [of "10::nat" "length t"] by linarith
  then show "1 \<le> parseMediaSize s" "parseMediaSize s \<le> MaxMediaSize" using v p by simp_all
qed

text \<open>The server's metadata of a wire metadata, and back.\<close>

definition serverMetadata :: "MediaMetadata \<Rightarrow> Metadata" where
  "serverMetadata w = \<lparr>md_MediaKey = mm_MediaKey w, md_Kind = mm_Kind w, md_ContentType = mm_ContentType w,
     md_Size = parseMediaSize (mm_Size w), md_SHA256 = hex_bytes (mm_SHA256 w)\<rparr>"

lemma serverMetadata_valid:
  assumes "ValidMediaMetadata w"
  shows "ParseSHA256 (mm_SHA256 w) = Some (hex_bytes (mm_SHA256 w))" "ValidMetadata (serverMetadata w)"
    "length (hex_bytes (mm_SHA256 w)) = 32" "hex_encode (md_SHA256 (serverMetadata w)) = mm_SHA256 w"
    "fmt_nat (nat (md_Size (serverMetadata w))) = mm_Size w"
proof -
  have v: "ident128 (mm_MediaKey w)" "SupportedMediaKind (mm_Kind w)" "ValidMediaContentType (mm_ContentType w)"
    "ValidMediaSize (mm_Size w)" "length (mm_SHA256 w) = 64" "list_all is_lower_hex (mm_SHA256 w)"
    using assms by (auto simp: ValidMediaMetadata_def ValidMediaSHA256_def ValidMediaKey_def split: if_splits)
  then show "ParseSHA256 (mm_SHA256 w) = Some (hex_bytes (mm_SHA256 w))" by (simp add: ParseSHA256_def validSHA256_def)
  show "ValidMetadata (serverMetadata w)"
    using v parseMediaSize_value [OF v(4)]
    by (simp add: ValidMetadata_def serverMetadata_def validKind_def SupportedMediaKind_def)
  show "length (hex_bytes (mm_SHA256 w)) = 32" "hex_encode (md_SHA256 (serverMetadata w)) = mm_SHA256 w"
    using v(5,6) by (simp_all add: hex_bytes_length hex_encode_bytes serverMetadata_def)
  have "canonical_dec (mm_Size w)" using v(4) by (simp add: ValidMediaSize_parts)
  then show "fmt_nat (nat (md_Size (serverMetadata w))) = mm_Size w"
    using parseMediaSize_value(1) [OF v(4)] by (simp add: serverMetadata_def fmt_nat_dec_val)
qed

text \<open>
  The media seam loses nothing and lets nothing through: for a media request whose payload the protocol decodes, the
  server's own checks never fail, the validator is asked about exactly that object (its metadata converts back to the
  decoded one), and the send proceeds only when the validator says so.
\<close>

theorem validateMedia_consults:
  assumes "s_Type request = ''media''" "s_Version request = 1" "DecodeMediaPayload (rawPayload (s_Payload request)) = Inr w"
  shows "validateMedia (Some v) identity request =
      (case v identity (s_ConversationID request) (serverMetadata w) of Inl c \<Rightarrow> Inl (mediaFailure c) | Inr _ \<Rightarrow> Inr ()) \<and>
    ValidMetadata (serverMetadata w) \<and> md_MediaKey (serverMetadata w) = mm_MediaKey w \<and>
    fmt_nat (nat (md_Size (serverMetadata w))) = mm_Size w \<and> hex_encode (md_SHA256 (serverMetadata w)) = mm_SHA256 w"
proof -
  have w: "ValidMediaMetadata w" using Decode_media_valid [OF assms(3)] by blast
  note m = serverMetadata_valid [OF w]
  show ?thesis using assms m by (simp add: validateMedia_def serverMetadata_def Let_def)
qed

definition sampleMediaSend :: Send where
  "sampleMediaSend = sampleSend\<lparr>s_Type := ''media'', s_Payload := Some (marshal_metadata sampleMetadata)\<rparr>"

theorem validateMedia_consults_witness:
  "validateMedia (Some (\<lambda>_ _ _. Inl MediaExpired)) sampleIdentity sampleMediaSend = Inl SendUnauthorized"
  using validateMedia_consults [of sampleMediaSend sampleMetadata "\<lambda>_ _ _. Inl MediaExpired" sampleIdentity] sampleMetadata_decodes
  by (simp add: sampleMediaSend_def sampleSend_def rawPayload_def mediaFailure_def)

end
