(* ===== verification/MediaFacts.thy ===== *)
theory MediaFacts
  imports LocalFS MediaService SendServiceFacts
begin

text \<open>
  Runs of the media service over its repository and an object store, with calls of several clients interleaved: what a
  ready asset guarantees, that a granted upload can be completed and sent, and who may download.
\<close>

section \<open>Transactions on the media table\<close>

definition objectOf :: "Grant \<Rightarrow> ObjectInfo" where
  "objectOf g = \<lparr>oi_Size = g_DeclaredSize g, oi_SHA256 = g_SHA256 g\<rparr>"

text \<open>A stored row is a valid grant but for its expiry, which the database has truncated to microseconds.\<close>

definition assetRowOK :: "Grant \<Rightarrow> bool" where
  "assetRowOK g \<longleftrightarrow> (\<exists>e. ValidGrant (g\<lparr>g_ExpiresAt := e\<rparr>)) \<and> length (g_SHA256 g) = 32 \<and> length (g_GrantDigest g) = 32"

definition assetsInv :: "Grant list \<Rightarrow> bool" where
  "assetsInv assets \<longleftrightarrow> distinct (map g_MediaKey assets) \<and> distinct (map g_GrantID assets) \<and>
     distinct (map g_GrantDigest assets) \<and> list_all assetRowOK assets"

text \<open>What later tables keep of a row: its intent, and everything once it is ready.\<close>

definition keepsRow :: "Grant \<Rightarrow> Grant \<Rightarrow> bool" where
  "keepsRow g g' \<longleftrightarrow> sameGrantIntent g g' \<and> (g_State g = StateReady \<longrightarrow> g' = g)"

definition evolved :: "Grant list \<Rightarrow> Grant list \<Rightarrow> bool" where
  "evolved before after \<longleftrightarrow> (\<forall>g \<in> set before. \<exists>g' \<in> set after. keepsRow g g')"

lemma sameGrantIntent_refl [simp]: "sameGrantIntent g g"
  by (simp add: sameGrantIntent_def)

lemma keepsRow_refl [simp]: "keepsRow g g"
  by (simp add: keepsRow_def)

lemma keepsRow_trans: "keepsRow a b \<Longrightarrow> keepsRow b c \<Longrightarrow> keepsRow a c"
  by (auto simp: keepsRow_def sameGrantIntent_def)

lemma evolved_refl [simp]: "evolved t t"
  unfolding evolved_def by (blast intro: keepsRow_refl)

lemma evolved_map: "(\<And>x. x \<in> set t \<Longrightarrow> keepsRow x (f x)) \<Longrightarrow> evolved t (map f t)"
  by (auto simp: evolved_def)

lemma evolved_trans: "evolved a b \<Longrightarrow> evolved b c \<Longrightarrow> evolved a c"
  by (meson evolved_def keepsRow_trans)

lemma evolved_ready: "evolved a b \<Longrightarrow> g \<in> set a \<Longrightarrow> g_State g = StateReady \<Longrightarrow> g \<in> set b"
  by (auto simp: evolved_def keepsRow_def)

lemma keepsRow_readyRow: "g_State g = StatePending \<Longrightarrow> keepsRow g (readyRow now g)"
  by (simp add: keepsRow_def readyRow_def sameGrantIntent_def)

lemma Repo_BeginUpload_state:
  assumes "Repo_BeginUpload ctx env now identity conv create s db = (r, s', db')"
  shows "db' = db \<or> (\<exists>g assets. insertGrant (mb_assets db) g = Inr (Some assets) \<and> ValidGrant g \<and> g_State g = StatePending \<and>
    db' = db\<lparr>mb_assets := assets\<rparr>)"
  using assms finish_state
  by (fastforce simp: Repo_BeginUpload_def finish_def split: if_splits option.splits sum.splits prod.splits commitOutcome.splits)

lemma insertGrant_inv:
  assumes "insertGrant t g = Inr (Some t')" "ValidGrant g" "g_State g = StatePending"
  shows "evolved t t'" "assetsInv t \<Longrightarrow> assetsInv t'" "g' \<in> set t' \<Longrightarrow> g_State g' = StateReady \<Longrightarrow> g' \<in> set t"
proof -
  obtain row where r: "row = g\<lparr>g_ActualSize := None, g_ExpiresAt := truncMicro (g_ExpiresAt g), g_CompletedAt := None, g_State := StatePending\<rparr>"
    "t' = row # t" using assms(1) by (auto simp: insertGrant_def split: if_splits)
  have "ValidGrant (row\<lparr>g_ExpiresAt := g_ExpiresAt g\<rparr>)" using assms(2,3) by (simp add: r ValidGrant_def split: if_splits)
  moreover have "length (g_SHA256 row) = 32" "length (g_GrantDigest row) = 32"
    using assms(1) by (auto simp: r insertGrant_def split: if_splits)
  ultimately have "assetRowOK row" unfolding assetRowOK_def by blast
  then show "assetsInv t \<Longrightarrow> assetsInv t'"
    using assms(1) by (simp add: assetsInv_def r insertGrant_def split: if_splits)
  show "evolved t t'" by (auto simp: evolved_def r(2) intro: keepsRow_refl)
  show "g' \<in> set t' \<Longrightarrow> g_State g' = StateReady \<Longrightarrow> g' \<in> set t" by (auto simp: r)
qed

text \<open>The completing update replaces exactly one pending row.\<close>

lemma CompleteReady_cases:
  assumes "CompleteReady ctx env now identity g db = (r, db')"
  obtains (same) "db' = db" "\<And>x. r = Inr x \<Longrightarrow> x \<in> set (mb_assets db) \<and> g_State x = StateReady \<and> sameGrantIntent x g"
  | (updated) row where "row \<in> set (mb_assets db)" "completes g row" "ValidGrant (readyRow now row)"
      "db' = db\<lparr>mb_assets := map (\<lambda>r. if completes g r then readyRow now r else r) (mb_assets db)\<rparr>"
      "\<And>x. r = Inr x \<Longrightarrow> x = readyRow now row"
proof (cases "find (completes g) (mb_assets db)")
  case None
  show thesis
    by (rule same) (use assms None in \<open>auto simp: CompleteReady_def scanGrant_def find_Some_iff
        split: if_splits option.splits sum.splits\<close>)
next
  case (Some row)
  then have row: "row \<in> set (mb_assets db)" "completes g row" by (auto simp: find_Some_iff)
  show thesis
  proof (cases "db' = db \<and> (\<forall>x. r \<noteq> Inr x)")
    case True
    then show ?thesis using same by blast
  next
    case False
    then show ?thesis using updated [OF row] assms Some
      by (auto simp: CompleteReady_def Let_def finish_def scanGrant_def split: if_splits option.splits sum.splits commitOutcome.splits)
  qed
qed

lemma assetsInv_key: "assetsInv t \<Longrightarrow> a \<in> set t \<Longrightarrow> b \<in> set t \<Longrightarrow> g_MediaKey a = g_MediaKey b \<Longrightarrow> a = b"
  by (auto simp: assetsInv_def distinct_map inj_on_def)

lemma assetRowOK_key: "assetRowOK g \<Longrightarrow> ident128 (g_MediaKey g)"
  by (auto simp: assetRowOK_def ValidGrant_def split: if_splits)

lemma readyRow_OK: "ValidGrant (readyRow now row) \<Longrightarrow> assetRowOK row \<Longrightarrow> assetRowOK (readyRow now row)"
proof -
  assume v: "ValidGrant (readyRow now row)" and ok: "assetRowOK row"
  have "(readyRow now row)\<lparr>g_ExpiresAt := g_ExpiresAt (readyRow now row)\<rparr> = readyRow now row" by simp
  then show ?thesis using v ok unfolding assetRowOK_def by (metis readyRow_def Grant.surjective Grant.update_convs Grant.select_convs)
qed

lemma CompleteReady_inv:
  assumes "CompleteReady ctx env now identity g db = (r, db')" "assetsInv (mb_assets db)"
  shows "assetsInv (mb_assets db') \<and> evolved (mb_assets db) (mb_assets db') \<and>
    (\<forall>x \<in> set (mb_assets db'). g_State x = StateReady \<longrightarrow> x \<in> set (mb_assets db) \<or>
       (\<exists>row \<in> set (mb_assets db). completes g row \<and> x = readyRow now row \<and> ValidGrant x)) \<and>
    (\<forall>x. r = Inr x \<longrightarrow> x \<in> set (mb_assets db') \<and> g_State x = StateReady)"
  using assms(1)
proof (cases rule: CompleteReady_cases)
  case (updated row)
  let ?f = "\<lambda>r. if completes g r then readyRow now r else r"
  have m: "mb_assets db' = map ?f (mb_assets db)" by (simp add: updated(4))
  have one: "y = row" if "y \<in> set (mb_assets db)" "completes g y" for y
    using assetsInv_key [OF assms(2) that(1) updated(1)] that(2) updated(2) by (simp add: completes_def)
  have f: "g_MediaKey \<circ> ?f = g_MediaKey" "g_GrantID \<circ> ?f = g_GrantID" "g_GrantDigest \<circ> ?f = g_GrantDigest"
    by (auto simp: readyRow_def)
  have ok: "assetRowOK row" using assms(2) updated(1) by (simp add: assetsInv_def list_all_iff)
  have "assetsInv (mb_assets db')"
    using assms(2) one readyRow_OK [OF updated(3) ok] by (auto simp: m assetsInv_def f list_all_iff)
  moreover have "evolved (mb_assets db) (mb_assets db')"
    unfolding m by (rule evolved_map) (simp add: completes_def keepsRow_readyRow)
  moreover have "x \<in> set (mb_assets db) \<or> (\<exists>row \<in> set (mb_assets db). completes g row \<and> x = readyRow now row \<and> ValidGrant x)"
    if "x \<in> set (mb_assets db')" for x
    using that one updated(3) by (auto simp: m split: if_splits)
  moreover have "x \<in> set (mb_assets db') \<and> g_State x = StateReady" if "r = Inr x" for x
    using that updated(1,2,5) by (auto simp: m readyRow_def)
  ultimately show ?thesis by blast
qed (use assms(2) in auto)

section \<open>Interleaved runs\<close>

text \<open>
  A run keeps the tables and the object stores it went through, the latest first. A step is a transaction of another
  component, the insertion of a grant by \<^verbatim>\<open>BeginUpload\<close> with whatever its closure made, a put by any client, or the end of
  a \<^verbatim>\<open>completeUpload\<close>: its reads saw any of the earlier tables, its put happened at some earlier point of the run, and its
  update is applied now.
\<close>

inductive media_run ::
  "('e \<Rightarrow> bytes \<Rightarrow> 'c \<Rightarrow> ObjectInfo \<Rightarrow> 'fs \<Rightarrow> (mediaCode, ObjectInfo) result \<times> 'fs) \<Rightarrow> mediadb list \<Rightarrow> 'fs list \<Rightarrow> bool"
  for put where
  run_start: "mb_assets db = [] \<Longrightarrow> media_run put [db] [fs]"
| run_others: "media_run put (db # dbs) fss \<Longrightarrow> mb_assets db' = mb_assets db \<Longrightarrow> media_run put (db' # db # dbs) fss"
| run_begin: "media_run put (db # dbs) fss \<Longrightarrow>
    Repo_BeginUpload ctx env now identity conv create (s :: bytes) db = (r, s', db') \<Longrightarrow> media_run put (db' # db # dbs) fss"
| run_put: "media_run put dbs (fs # fss) \<Longrightarrow> put penv key content expected fs = (p, fs') \<Longrightarrow> media_run put dbs (fs' # fs # fss)"
| run_complete: "media_run put (db # dbs) fss \<Longrightarrow>
    completeUpload put penv ctx envs now identity raw e content snap fs0 db = (c, fs1, db') \<Longrightarrow>
    \<forall>n. snap n \<in> set (db # dbs) \<Longrightarrow> fs1 \<in> set fss \<Longrightarrow> media_run put (db' # db # dbs) fss"

definition readyStored :: "('fs \<Rightarrow> bytes \<Rightarrow> ObjectInfo \<Rightarrow> bool) \<Rightarrow> mediadb \<Rightarrow> 'fs \<Rightarrow> bool" where
  "readyStored stored db fs \<longleftrightarrow>
     (\<forall>g \<in> set (mb_assets db). g_State g = StateReady \<longrightarrow> ValidGrant g \<and> stored fs (g_MediaKey g) (objectOf g))"

definition mediaInv :: "('fs \<Rightarrow> bytes \<Rightarrow> ObjectInfo \<Rightarrow> bool) \<Rightarrow> mediadb list \<Rightarrow> 'fs list \<Rightarrow> bool" where
  "mediaInv stored dbs fss \<longleftrightarrow> dbs \<noteq> [] \<and> fss \<noteq> [] \<and> assetsInv (mb_assets (hd dbs)) \<and>
     (\<forall>d \<in> set dbs. evolved (mb_assets d) (mb_assets (hd dbs))) \<and>
     (\<forall>fs \<in> set fss. \<forall>k info. ident128 k \<longrightarrow> stored fs k info \<longrightarrow> stored (hd fss) k info) \<and>
     readyStored stored (hd dbs) (hd fss)"

text \<open>A new table in front: what a step has to show.\<close>

lemma mediaInv_table:
  assumes "mediaInv stored (db # dbs) fss" "assetsInv (mb_assets db')" "evolved (mb_assets db) (mb_assets db')"
    "readyStored stored db' (hd fss)"
  shows "mediaInv stored (db' # db # dbs) fss"
  using assms evolved_trans by (auto simp: mediaInv_def)

lemma LoadGrant_row:
  assumes "LoadGrant ctx env grantID db = Inr g"
  shows "g \<in> set (mb_assets db) \<and> g_GrantID g = grantID"
proof -
  obtain row where "find (\<lambda>g. g_GrantID g = grantID) (mb_assets db) = Some row" "scanGrant row = Inr g"
    using assms by (auto simp: LoadGrant_def bindR_eq_Inr split: option.splits if_splits)
  then show ?thesis by (auto simp: scanGrant_def find_Some_iff split: if_splits)
qed

lemma Authorize_live:
  "Authorize ctx env now identity conv db = Inr u \<Longrightarrow> liveIdentity db now identity conv \<and> now \<noteq> zeroTime"
  by (auto simp: Authorize_def authorizeTx_def split: option.splits if_splits)

lemma admitGrant_loaded:
  assumes "admitGrant ctx envs now identity raw e snap = Inr g"
  shows "g \<in> set (mb_assets (snap 0))" "ValidGrant g" "sameIdentity g identity"
    "liveIdentity (snap 1) now identity (g_ConversationID g)"
proof -
  obtain grantID where "LoadGrant ctx (envs 0) grantID (snap 0) = Inr g" "ValidGrant g" "sameIdentity g identity"
    "Authorize ctx (envs 1) now identity (g_ConversationID g) (snap 1) = Inr ()"
    using assms by (cases e) (auto simp: admitGrant_def bindR_eq_Inr split: option.splits if_splits)
  then show "g \<in> set (mb_assets (snap 0))" "ValidGrant g" "sameIdentity g identity"
    "liveIdentity (snap 1) now identity (g_ConversationID g)"
    using LoadGrant_row Authorize_live by blast+
qed

lemma ident_of_ValidGrant: "ValidGrant g \<Longrightarrow> ident128 (g_MediaKey g)"
  by (auto simp: ValidGrant_def split: if_splits)

context object_store
begin

lemma completeUpload_cases:
  assumes "completeUpload put penv ctx envs now identity raw e content snap fs db = (r, fs', db')"
  obtains (failed) "db' = db" "\<And>x. r \<noteq> Inr x"
  | (again) g where "admitGrant ctx envs now identity raw e snap = Inr g" "has_object fs' (g_MediaKey g) (objectOf g)"
      "g_State g = StateReady" "db' = db" "r = Inr g"
  | (finished) g r' where "admitGrant ctx envs now identity raw e snap = Inr g" "has_object fs' (g_MediaKey g) (objectOf g)"
      "CompleteReady ctx (envs 2) now identity g db = (r', db')" "\<And>x. r = Inr x \<Longrightarrow> r' = Inr x"
proof (cases "admitGrant ctx envs now identity raw e snap")
  case (Inl err)
  show thesis by (rule failed) (use assms Inl in \<open>auto simp: completeUpload_def split: if_splits\<close>)
next
  case (Inr g)
  obtain r1 fs1 where p: "put penv (g_MediaKey g) content (objectOf g) fs = (r1, fs1)" by (cases "put penv (g_MediaKey g) content (objectOf g) fs")
  obtain r2 db2 where c: "CompleteReady ctx (envs 2) now identity g db = (r2, db2)" by (cases "CompleteReady ctx (envs 2) now identity g db")
  show thesis
  proof (cases r1)
    case Inl
    show thesis
      by (rule failed) (use assms Inr Inl p in \<open>auto simp: completeUpload_def objectOf_def split: if_splits\<close>)
  next
    case r1: (Inr actual)
    have h: "actual = objectOf g" "has_object fs1 (g_MediaKey g) (objectOf g)" using put_stores p r1 by auto
    show thesis
      using assms Inr p r1 h c that(1) that(2) [OF Inr] that(3) [OF Inr]
      by (auto simp: completeUpload_def objectOf_def split: if_splits sum.splits)
  qed
qed

lemma readyStored_complete:
  assumes inv: "mediaInv has_object (db # dbs) fss" and snap: "\<forall>n. snap n \<in> set (db # dbs)" and fs1: "fs1 \<in> set fss"
    and g: "admitGrant ctx envs now identity raw e snap = Inr g" "has_object fs1 (g_MediaKey g) (objectOf g)"
    and c: "CompleteReady ctx env now identity g db = (r, db')"
  shows "readyStored has_object db' (hd fss)"
proof -
  have ai: "assetsInv (mb_assets db)" and rs: "readyStored has_object db (hd fss)"
    using inv by (auto simp: mediaInv_def)
  have h: "has_object (hd fss) (g_MediaKey g) (objectOf g)"
    using inv fs1 g(2) ident_of_ValidGrant [OF admitGrant_loaded(2) [OF g(1)]] by (auto simp: mediaInv_def)
  have "snap 0 \<in> set (db # dbs)" using snap by blast
  then have "evolved (mb_assets (snap 0)) (mb_assets db)" using inv unfolding mediaInv_def list.sel(1) by blast
  then obtain g' where g': "g' \<in> set (mb_assets db)" "sameGrantIntent g g'"
    using admitGrant_loaded(1) [OF g(1)] by (auto simp: evolved_def keepsRow_def)
  have "has_object (hd fss) (g_MediaKey (readyRow now row)) (objectOf (readyRow now row))"
    if "row \<in> set (mb_assets db)" "completes g row" for row
  proof -
    have "row = g'" using assetsInv_key [OF ai that(1) g'(1)] that(2) g'(2) by (simp add: completes_def sameGrantIntent_def)
    then show ?thesis using h g'(2) by (simp add: readyRow_def objectOf_def sameGrantIntent_def)
  qed
  then show ?thesis using CompleteReady_inv [OF c ai] rs unfolding readyStored_def by blast
qed

lemma media_run_inv: "media_run put dbs fss \<Longrightarrow> mediaInv has_object dbs fss"
proof (induction rule: media_run.induct)
  case (run_start db fs)
  then show ?case by (simp add: mediaInv_def assetsInv_def readyStored_def)
next
  case (run_others db dbs fss db')
  then show ?case by (intro mediaInv_table) (auto simp: mediaInv_def readyStored_def)
next
  case (run_begin db dbs fss ctx env now identity conv create s r s' db')
  note i = insertGrant_inv
  from run_begin show ?case
    by (intro mediaInv_table; use Repo_BeginUpload_state [OF run_begin(2)] in
        \<open>auto simp: mediaInv_def readyStored_def dest: i(1,2) i(3)\<close>)
next
  case (run_put dbs fs fss penv key content expected p fs')
  then show ?case using put_keeps [OF run_put(2)] ident_of_ValidGrant by (auto simp: mediaInv_def readyStored_def)
next
  case (run_complete db dbs fss penv ctx envs now identity raw e content snap fs0 c fs1 db')
  have ai: "assetsInv (mb_assets db)" using run_complete(5) by (simp add: mediaInv_def)
  from run_complete(2) show ?case
  proof (cases rule: completeUpload_cases)
    case (finished g r')
    show ?thesis
      using CompleteReady_inv [OF finished(3) ai] readyStored_complete [OF run_complete(5,3,4) finished(1-3)]
      by (intro mediaInv_table [OF run_complete(5)]) auto
  qed (use run_complete(5) in \<open>auto intro!: mediaInv_table simp: mediaInv_def\<close>)
qed

end

section \<open>A granted upload can be completed\<close>

lemma find_dot_none: "CHR ''.'' \<notin> set s \<Longrightarrow> find_dot i dot s = Some dot"
  by (induction s arbitrary: i) auto

lemma find_dot_first: "CHR ''.'' \<notin> set t \<Longrightarrow> CHR ''.'' \<notin> set u \<Longrightarrow> 0 \<le> i \<Longrightarrow> find_dot i (-1) (t @ CHR ''.'' # u) = Some (i + int (length t))"
  by (induction t arbitrary: i) (auto simp: find_dot_none)

lemma no_dot: "list_all ident_byte s \<Longrightarrow> CHR ''.'' \<notin> set s"
  by (auto simp: list_all_iff ident_byte_def is_upper_code is_lower_code is_digit_code)

lemma lower_hex_ident: "list_all is_lower_hex s \<Longrightarrow> list_all ident_byte s"
  by (auto simp: list_all_iff ident_byte_def is_lower_hex_def is_lower_def is_digit_def less_eq_char_def)

lemma rawGrant_parses:
  assumes "length i = 16" "length s = 32"
  shows "parseRawGrant (rawGrant i s) = Some (hex_encode i, sha256 (rawGrant i s))"
proof -
  have l: "length (hex_encode i) = 32" "length (b64_encode s) = 43"
    using assms by (simp_all add: hex_encode_length b64_encode_length)
  have r: "rawGrant i s = hex_encode i @ CHR ''.'' # b64_encode s" by (simp add: rawGrant_def)
  have p: "take 32 (rawGrant i s) = hex_encode i" "drop 33 (rawGrant i s) = b64_encode s" "length (rawGrant i s) = 76"
    "rawGrant i s \<noteq> []"
    using l by (simp_all add: r)
  have d: "find_dot 0 (-1) (rawGrant i s) = Some 32"
    using find_dot_first [OF no_dot [OF lower_hex_ident [OF hex_encode_lower]] no_dot [OF b64_encode_ident], of 0 i s] l
    by (simp add: r)
  have "list_all (\<lambda>ch. is_upper ch \<or> is_lower ch \<or> is_digit ch \<or> ch = CHR ''_'' \<or> ch = CHR ''-'') (b64_encode s)"
    using b64_encode_ident [of s] by (auto simp: list_all_iff ident_byte_def)
  then show ?thesis
    using assms p d l validTokenID_hex [OF assms(1)]
    by (simp add: parseRawGrant_def Let_def validGrantID_def)
qed

lemma readFull_Some: "readFull n e = (Some b, e') \<Longrightarrow> length b = n"
  by (auto simp: readFull_def split: if_splits)

lemma generateGrant_cases:
  assumes "generateGrant identity conv i expiresAt entropy = (Inr (g, raw), e')"
  obtains a s k where "length a = 16" "length s = 32" "raw = rawGrant a s" "ValidGrant g"
    "g = pendingGrant identity conv i expiresAt (hex_encode k) (hex_encode a) (sha256 raw)"
proof -
  obtain a s k e1 e2 where r: "readFull 16 entropy = (Some a, e1)" "readFull 32 e1 = (Some s, e2)" "readFull 16 e2 = (Some k, e')"
    "raw = rawGrant a s" "ValidGrant g" "g = pendingGrant identity conv i expiresAt (hex_encode k) (hex_encode a) (sha256 raw)"
    using assms by (auto simp: generateGrant_def Let_def split: prod.splits option.splits if_splits)
  show thesis using that [OF readFull_Some [OF r(1)] readFull_Some [OF r(2)] r(4-6)] .
qed

lemma Repo_BeginUpload_Inr:
  assumes "Repo_BeginUpload ctx env now identity conv create s db = (Inr u, s', db')"
  obtains g assets where "create s = (Inr g, s')" "insertGrant (mb_assets db) g = Inr (Some assets)" "db' = db\<lparr>mb_assets := assets\<rparr>"
  using assms by (auto simp: Repo_BeginUpload_def split: if_splits option.splits sum.splits prod.splits)

text \<open>The row a successful \<^verbatim>\<open>BeginUpload\<close> has added, and the token that names it.\<close>

definition grantRow :: "ConnectionIdentity \<Rightarrow> bytes \<Rightarrow> UploadIntent \<Rightarrow> UploadGrant \<Rightarrow> bytes \<Rightarrow> Grant" where
  "grantRow identity conv i ug grantID =
     pendingGrant identity conv i (truncMicro (ug_ExpiresAt ug)) (ug_MediaKey ug) grantID (sha256 (ug_RawToken ug))"

lemma Repo_BeginUpload_collision:
  "Repo_BeginUpload ctx env now identity conv create s db = (Inl MediaGrantCollision, s', db') \<Longrightarrow> db' = db"
  by (auto simp: Repo_BeginUpload_def finish_def split: if_splits option.splits sum.splits prod.splits commitOutcome.splits)

lemma create_grants:
  assumes "createGrant identity conv i expiresAt s = (Inr g, e', raw, key)" "insertGrant t g = Inr (Some t')"
  obtains grantID where "parseRawGrant raw = Some (grantID, sha256 raw)" "identifierText grantID"
    "t' = grantRow identity conv i \<lparr>ug_RawToken = raw, ug_MediaKey = key, ug_ExpiresAt = expiresAt\<rparr> grantID # t" "ValidGrant g"
    "g = pendingGrant identity conv i expiresAt key grantID (sha256 raw)"
proof -
  obtain entropy where "generateGrant identity conv i expiresAt entropy = (Inr (g, raw), e')" "key = g_MediaKey g"
    using assms(1) by (auto simp: createGrant_def split: prod.splits sum.splits)
  from this(1) show thesis
  proof (cases rule: generateGrant_cases)
    case (1 a s k)
    have "identifierText (hex_encode a)"
      using lower_hex_ident [OF hex_encode_lower, of a] 1(1)
      by (simp add: identifierText_def hex_encode_length ident128_def flip: length_0_conv)
    then show ?thesis
      using that [of "hex_encode a"] rawGrant_parses [OF 1(1,2)] 1(3-5) assms(2) \<open>key = g_MediaKey g\<close>
      by (auto simp: insertGrant_def grantRow_def pendingGrant_def split: if_splits)
  qed
qed

lemma begin_loop_grants:
  assumes "begin_loop n ctx envs now identity conv i expiresAt s db = (Inr ug, e', db')"
  obtains grantID g where "parseRawGrant (ug_RawToken ug) = Some (grantID, sha256 (ug_RawToken ug))" "identifierText grantID"
    "insertGrant (mb_assets db) g = Inr (Some (grantRow identity conv i ug grantID # mb_assets db))" "ValidGrant g"
    "g = pendingGrant identity conv i expiresAt (ug_MediaKey ug) grantID (sha256 (ug_RawToken ug))"
    "db' = db\<lparr>mb_assets := grantRow identity conv i ug grantID # mb_assets db\<rparr>" "ug_ExpiresAt ug = expiresAt"
  using assms
proof (induction n arbitrary: s db thesis)
  case (Suc n)
  obtain r e1 raw key db1 where b: "Repo_BeginUpload ctx (envs n) now identity conv (createGrant identity conv i expiresAt) s db =
    (r, (e1, raw, key), db1)" by (metis surj_pair)
  show ?case
  proof (cases r)
    case (Inl e)
    then have "db1 = db" "begin_loop n ctx envs now identity conv i expiresAt (e1, [], key) db1 = (Inr ug, e', db')"
      using Suc(3) b Repo_BeginUpload_collision by (auto split: if_splits)
    then show ?thesis using Suc(1,2) by blast
  next
    case (Inr u)
    then have ug: "ug = \<lparr>ug_RawToken = raw, ug_MediaKey = key, ug_ExpiresAt = expiresAt\<rparr>" "db' = db1"
      using Suc(3) b by (auto split: if_splits)
    from b [unfolded Inr] show ?thesis
    proof (cases rule: Repo_BeginUpload_Inr)
      case (1 g assets)
      then show ?thesis using create_grants [OF 1(1,2)] Suc(2) ug by (metis UploadGrant.select_convs)
    qed
  qed
qed simp

lemma pendingGrant_expiry:
  "ValidGrant (pendingGrant identity conv i e k a d) \<Longrightarrow> e' \<noteq> zeroTime \<Longrightarrow> ValidGrant (pendingGrant identity conv i e' k a d)"
  by (simp add: ValidGrant_def pendingGrant_def split: if_splits)

lemma ValidGrant_readyRow: "ValidGrant g \<Longrightarrow> g_State g = StatePending \<Longrightarrow> ValidGrant (readyRow now g)"
  by (auto simp: ValidGrant_def readyRow_def split: if_splits)

lemma admit_granted:
  assumes "parseRawGrant raw = Some (grantID, sha256 raw)" "identifierText grantID" "mb_assets db = g # rest"
    "g = pendingGrant identity conv i expires key grantID (sha256 raw)" "ValidGrant g" "length (ui_SHA256 i) = 32"
    "length (sha256 raw) = 32" "ValidateIdentity identity" "liveIdentity db now identity conv" "now \<noteq> zeroTime" "now < expires"
  shows "admitGrant (Some c) (\<lambda>_. goodTx) now identity raw None (\<lambda>_. db) = Inr g"
proof -
  have "LoadGrant (Some c) goodTx grantID db = Inr g"
    using assms(2,3,6,7) by (simp add: LoadGrant_def scanGrant_def assms(4) pendingGrant_def)
  moreover have "Authorize (Some c) goodTx now identity conv db = Inr ()"
    using assms(5,8-10) by (auto simp: Authorize_def authorizeTx_def assms(4) ValidGrant_def pendingGrant_def split: if_splits)
  ultimately show ?thesis
    using assms(1,5,10,11) by (simp add: admitGrant_def sameIdentity_def assms(4) pendingGrant_def)
qed

lemma complete_granted:
  assumes "mb_assets db = g # rest" "g_MediaKey g \<notin> set (map g_MediaKey rest)" "ValidGrant g" "g_State g = StatePending"
    "length (g_SHA256 g) = 32" "length (g_GrantDigest g) = 32" "ValidateIdentity identity" "now \<noteq> zeroTime"
    "liveIdentity db now identity (g_ConversationID g)"
  shows "CompleteReady (Some c) goodTx now identity g db =
    (Inr (readyRow now g), db\<lparr>mb_assets := readyRow now g # rest\<rparr>)"
proof -
  have "completes g g" using assms(4) by (simp add: completes_def)
  moreover have "map (\<lambda>r. if completes g r then readyRow now r else r) rest = rest"
  proof (rule map_idI)
    fix x assume "x \<in> set rest"
    then have "g_MediaKey x \<noteq> g_MediaKey g" using assms(2) by (metis imageI set_map)
    then show "(if completes g x then readyRow now x else x) = x" by (simp add: completes_def)
  qed
  moreover have "scanGrant (readyRow now g) = Inr (readyRow now g)" "g_State (readyRow now g) = StateReady"
    using assms(5,6) by (simp_all add: scanGrant_def readyRow_def)
  ultimately show ?thesis
    using assms ValidGrant_readyRow [OF assms(3,4)]
    by (simp add: CompleteReady_def authorizeTx_def Let_def finish_def goodEnv_def)
qed

definition metadataOf :: "bytes \<Rightarrow> BeginUploadRequest \<Rightarrow> bytes \<Rightarrow> Metadata" where
  "metadataOf key request digest = \<lparr>md_MediaKey = key, md_Kind = bu_Kind request, md_ContentType = bu_ContentType request,
     md_Size = bu_Size request, md_SHA256 = digest\<rparr>"

lemma sendable_granted:
  assumes "g = readyRow now (pendingGrant identity (bu_ConversationID request) \<lparr>ui_Kind = bu_Kind request, ui_ContentType = bu_ContentType request,
      ui_Size = bu_Size request, ui_SHA256 = digest\<rparr> expires key grantID d)"
    "liveIdentity db now identity (bu_ConversationID request)" "ValidGrant g" "now \<noteq> zeroTime" "ValidateIdentity identity"
  shows "ValidateForSend (Some c) goodTx now (db\<lparr>mb_assets := g # rest\<rparr>) identity (bu_ConversationID request)
    (metadataOf key request digest) = Inr ()"
proof -
  have "sendableAsset (db\<lparr>mb_assets := g # rest\<rparr>) now identity (bu_ConversationID request) (metadataOf key request digest) g"
    using assms(2) by (simp add: assms(1) sendableAsset_def liveIdentity_def readyRow_def pendingGrant_def metadataOf_def
        grantOfIdentity_def split: option.splits)
  moreover have "ValidMetadata (metadataOf key request digest)" "ident128 (bu_ConversationID request)"
    using assms(3) by (auto simp: assms(1) ValidMetadata_def metadataOf_def ValidGrant_def readyRow_def pendingGrant_def split: if_splits)
  ultimately show ?thesis using assms(4,5) by (simp add: ValidateForSend_def ValidateReadyForSend_def)
qed

text \<open>
  C30. A granted upload can be completed and sent. When \<^verbatim>\<open>BeginUpload\<close> returns a grant and the caller, still authorized,
  presents its token before the expiry with a content of the declared size and digest, \<^verbatim>\<open>CompleteUpload\<close> stores the
  content under the granted key, returns a ready asset, and \<^verbatim>\<open>ValidateForSend\<close> accepts its metadata.
\<close>

theorem upload_then_send:
  assumes "BeginUpload (Some c) envs t0 identity request entropy db = (Inr ug, entropy', db1)"
    and "liveIdentity db1 now identity (bu_ConversationID request)" "now \<noteq> zeroTime" "now < truncMicro (ug_ExpiresAt ug)"
      "truncMicro (ug_ExpiresAt ug) \<noteq> zeroTime"
    and "rd_end content = ReadEOF" "int (length (concat (rd_chunks content))) = bu_Size request"
      "hex_encode (sha256 (concat (rd_chunks content))) = bu_SHA256 request"
    and "map_of dir (ug_MediaKey ug) = None"
  shows "\<exists>ready db2. CompleteUpload localPut (Some c, goodFs, dir) (Some c) (\<lambda>_. goodTx) now identity (ug_RawToken ug) content
      (\<lambda>_. db1) dir db1 = (Inr ready, (ug_MediaKey ug, Regular (concat (rd_chunks content))) # dir, db2) \<and>
    g_State ready = StateReady \<and>
    ValidateForSend (Some c) goodTx now db2 identity (bu_ConversationID request)
      (metadataOf (ug_MediaKey ug) request (sha256 (concat (rd_chunks content)))) = Inr ()"
proof -
  let ?data = "concat (rd_chunks content)" and ?conv = "bu_ConversationID request"
  define i where "i = \<lparr>ui_Kind = bu_Kind request, ui_ContentType = bu_ContentType request, ui_Size = bu_Size request,
    ui_SHA256 = sha256 ?data\<rparr>"
  have p: "ParseSHA256 (bu_SHA256 request) = Some (sha256 ?data) \<or> ParseSHA256 (bu_SHA256 request) = None"
    by (simp add: ParseSHA256_def flip: assms(8))
  have id: "ValidateIdentity identity" using assms(1) by (simp add: BeginUpload_def split: if_splits)
  obtain e where loop: "begin_loop maxGrantAttempts (Some c) envs t0 identity ?conv i e (entropy, [], []) db = (Inr ug, entropy', db1)"
    using assms(1) p id by (auto simp: BeginUpload_def i_def Let_def split: if_splits option.splits)
  from loop show ?thesis
  proof (cases rule: begin_loop_grants)
    case (1 grantID g)
    let ?row = "grantRow identity ?conv i ug grantID"
    have row: "ValidGrant ?row" "g_State ?row = StatePending" "g_ConversationID ?row = ?conv" "g_MediaKey ?row = ug_MediaKey ug"
      using pendingGrant_expiry 1(4,5) assms(5) by (auto simp: grantRow_def pendingGrant_def)
    have l: "length (g_SHA256 ?row) = 32" "length (g_GrantDigest ?row) = 32" "g_MediaKey ?row \<notin> set (map g_MediaKey (mb_assets db))"
      using 1(3) by (auto simp: 1(5) insertGrant_def grantRow_def pendingGrant_def split: if_splits)
    have a: "admitGrant (Some c) (\<lambda>_. goodTx) now identity (ug_RawToken ug) None (\<lambda>_. db1) = Inr ?row"
      using l row(1) 1(6) id assms(2-4) by (intro admit_granted [OF 1(1,2)]) (auto simp: grantRow_def pendingGrant_def)
    have s: "1 \<le> bu_Size request" "bu_Size request \<le> MaxMediaSize" "ident128 (ug_MediaKey ug)"
      using row(1) by (auto simp: ValidGrant_def grantRow_def pendingGrant_def i_def split: if_splits)
    have o: "\<lparr>oi_Size = g_DeclaredSize ?row, oi_SHA256 = g_SHA256 ?row\<rparr> = objectInfo ?data"
      by (simp add: grantRow_def pendingGrant_def i_def objectInfo_def assms(7))
    have f: "PutImmutable (Some c) goodFs (ug_MediaKey ug) content (objectInfo ?data) dir dir =
      (Inr (objectInfo ?data), (ug_MediaKey ug, Regular ?data) # dir)"
      using s assms(6,7,9) by (intro put_fresh) auto
    have "CompleteReady (Some c) goodTx now identity ?row db1 = (Inr (readyRow now ?row), db1\<lparr>mb_assets := readyRow now ?row # mb_assets db\<rparr>)"
      using row l id assms(2,3) by (intro complete_granted) (simp_all add: 1(6))
    then show ?thesis
      using a f o row ValidGrant_readyRow [OF row(1,2), of now] id
        sendable_granted [where request = request and digest = "sha256 ?data", OF _ assms(2) ValidGrant_readyRow [OF row(1,2)] assms(3) id]
      by (simp add: CompleteUpload_def completeUpload_def i_def grantRow_def) (simp add: readyRow_def)
  qed
qed

section \<open>A sample run\<close>

definition sampleMediaDb :: mediadb where
  "sampleMediaDb = \<lparr>mb_auth = \<lparr>
       db_sessions = [(''s1'', \<lparr>ss_user = ''u1'', ss_device = ''phone'', ss_revoked = None\<rparr>)],
       db_tokens = [(ci_tokenID sampleIdentity, \<lparr>tk_digest = [], tk_session = ''s1'', tk_created = 0, tk_expires = 60 * minute, tk_revoked = None\<rparr>)]\<rparr>,
     mb_members = [(''v1'', ''u1'')], mb_assets = []\<rparr>"

definition sampleGrantToken :: bytes where
  "sampleGrantToken = rawGrant (replicate 16 (CHR ''a'')) (replicate 32 (CHR ''b''))"

definition sampleGrant :: "int \<Rightarrow> bytes \<Rightarrow> Grant" where
  "sampleGrant n digest = pendingGrant sampleIdentity ''v1''
     \<lparr>ui_Kind = ''image'', ui_ContentType = ''image/png'', ui_Size = n, ui_SHA256 = digest\<rparr>
     (120 * second) ''k-1'' (hex_encode (replicate 16 (CHR ''a''))) (sha256 sampleGrantToken)"

definition sampleReady :: "int \<Rightarrow> bytes \<Rightarrow> Grant" where
  "sampleReady n digest = readyRow second (sampleGrant n digest)"

lemma sample_media_idents:
  "ValidateIdentity sampleIdentity" "ident128 ''v1''" "ident128 ''k-1''" "validKind ''image''" "ValidMediaContentType ''image/png''"
  "identifierText (hex_encode (replicate 16 (CHR ''a'')))" "validGrantID (hex_encode (replicate 16 (CHR ''a'')))"
  by code_simp+

lemma sampleGrant_valid: "1 \<le> n \<Longrightarrow> n \<le> MaxMediaSize \<Longrightarrow> ValidGrant (sampleGrant n digest)"
  using sample_media_idents by (simp add: ValidGrant_def sampleGrant_def pendingGrant_def ValidateIdentity_def zeroTime_def second_def)

lemma sample_live: "0 \<le> now \<Longrightarrow> now < 60 * minute \<Longrightarrow> liveIdentity (sampleMediaDb\<lparr>mb_assets := t\<rparr>) now sampleIdentity ''v1''"
  by (simp add: liveIdentity_def sampleMediaDb_def sampleIdentity_def minute_def truncMicro_def)

lemma sample_run:
  assumes n: "1 \<le> n" "n \<le> MaxMediaSize" "length digest = 32"
    and p: "put penv ''k-1'' content \<lparr>oi_Size = n, oi_SHA256 = digest\<rparr> fs = (Inr \<lparr>oi_Size = n, oi_SHA256 = digest\<rparr>, fs')"
  shows "media_run put [sampleMediaDb\<lparr>mb_assets := [sampleReady n digest]\<rparr>, sampleMediaDb\<lparr>mb_assets := [sampleGrant n digest]\<rparr>, sampleMediaDb]
    [fs', fs]"
proof -
  let ?g = "sampleGrant n digest"
  let ?db1 = "sampleMediaDb\<lparr>mb_assets := [?g]\<rparr>"
  note v = sampleGrant_valid [OF n(1,2), of digest] and d = sampleGrant_def pendingGrant_def
  have l: "liveIdentity sampleMediaDb second sampleIdentity ''v1''" "liveIdentity ?db1 second sampleIdentity ''v1''"
    using sample_live [of second "[]"] sample_live [of second "[?g]"] by (simp_all add: sampleMediaDb_def second_def minute_def)
  have i: "insertGrant [] ?g = Inr (Some [?g])"
    using n(3) by (simp add: insertGrant_def d truncMicro_def second_def)
  have b: "Repo_BeginUpload (Some False) goodTx second sampleIdentity ''v1'' (\<lambda>s. (Inr ?g, s)) [] sampleMediaDb = (Inr (), [], ?db1)"
    using v i l(1) sample_media_idents by (simp add: Repo_BeginUpload_def authorizeTx_def grantOfIdentity_def finish_def goodEnv_def
        zeroTime_def second_def sampleMediaDb_def) (simp add: d)
  have a: "admitGrant (Some False) (\<lambda>_. goodTx) second sampleIdentity sampleGrantToken None (\<lambda>_. ?db1) = Inr ?g"
    using v l(2) n(3) sample_media_idents rawGrant_parses [of "replicate 16 (CHR ''a'')" "replicate 32 (CHR ''b'')"]
    by (intro admit_granted [where i = "\<lparr>ui_Kind = ''image'', ui_ContentType = ''image/png'', ui_Size = n, ui_SHA256 = digest\<rparr>"
          and expires = "120 * second" and key = "''k-1''" and grantID = "hex_encode (replicate 16 (CHR ''a''))"])
      (simp_all add: sampleGrantToken_def sampleGrant_def second_def zeroTime_def)
  have c: "CompleteReady (Some False) goodTx second sampleIdentity ?g ?db1 = (Inr (sampleReady n digest), sampleMediaDb\<lparr>mb_assets := [sampleReady n digest]\<rparr>)"
    using v l(2) n(3) sample_media_idents complete_granted [of ?db1 ?g "[]" sampleIdentity second False]
    by (simp add: d sampleReady_def zeroTime_def second_def)
  have "ValidGrant (sampleReady n digest)" unfolding sampleReady_def by (rule ValidGrant_readyRow [OF v]) (simp add: d)
  then have u: "completeUpload put penv (Some False) (\<lambda>_. goodTx) second sampleIdentity sampleGrantToken None content (\<lambda>_. ?db1) fs ?db1 =
    (Inr (sampleReady n digest), fs', sampleMediaDb\<lparr>mb_assets := [sampleReady n digest]\<rparr>)"
    using a c p sample_media_idents by (simp add: completeUpload_def d sampleReady_def readyRow_def)
  show ?thesis
    by (rule run_complete [OF run_put [where put = put and fs = fs, OF run_begin [OF run_start b] p] u])
      (simp_all add: sampleMediaDb_def)
qed

section \<open>Guarantees of the media service\<close>

text \<open>
  C21. Ready means durable. In every interleaved run over the file store, an asset that was ready in some table of the
  past is still there unchanged, is a valid grant whose actual size is the declared one, is the only row under its key,
  and the directory holds under that key a content of exactly its size and SHA-256 digest.
\<close>

theorem ready_media_durable:
  assumes "media_run localPut (db # dbs) (fs # fss)" "d \<in> set (db # dbs)" "g \<in> set (mb_assets d)" "g_State g = StateReady"
  shows "g \<in> set (mb_assets db) \<and> ValidGrant g \<and> g_ActualSize g = Some (g_DeclaredSize g) \<and> holds fs (g_MediaKey g) (objectOf g) \<and>
    filter (\<lambda>g'. g_MediaKey g' = g_MediaKey g) (mb_assets db) = [g]"
proof -
  have i: "mediaInv holds (db # dbs) (fs # fss)" by (rule localfs.media_run_inv [OF assms(1)])
  then have e: "evolved (mb_assets d) (mb_assets db)" using assms(2) unfolding mediaInv_def list.sel(1) by blast
  have g: "g \<in> set (mb_assets db)" by (rule evolved_ready [OF e assms(3,4)])
  have "ValidGrant g" "holds fs (g_MediaKey g) (objectOf g)"
    using i g assms(4) by (auto simp: mediaInv_def readyStored_def)
  moreover have "g_ActualSize g = Some (g_DeclaredSize g)"
    using calculation(1) assms(4) by (simp add: ValidGrant_def split: if_splits)
  moreover have "filter (\<lambda>g'. g_MediaKey g' = g_MediaKey g) (mb_assets db) = [g]"
    by (rule filter_distinct [OF _ g]) (use i in \<open>auto simp: mediaInv_def assetsInv_def\<close>)
  ultimately show ?thesis using g by blast
qed

theorem ready_media_durable_witness:
  "\<exists>db dbs fs fss g. media_run localPut (db # dbs) (fs # fss) \<and> g_State g = StateReady \<and> g \<in> set (mb_assets db) \<and>
     holds fs (g_MediaKey g) (objectOf g)"
proof -
  have p: "localPut (Some False, goodFs, []) ''k-1'' sampleReader \<lparr>oi_Size = 5, oi_SHA256 = sha256 ''hello''\<rparr> [] =
    (Inr \<lparr>oi_Size = 5, oi_SHA256 = sha256 ''hello''\<rparr>, [(''k-1'', Regular ''hello'')])"
    using put_fresh [of "''k-1''" "[]" sampleReader False] sample_media_idents
    by (simp add: sampleReader_def objectInfo_def MaxMediaSize_def)
  note r = sample_run [of 5 "sha256 ''hello''" localPut, OF _ _ _ p]
  have m: "media_run localPut [sampleMediaDb\<lparr>mb_assets := [sampleReady 5 (sha256 ''hello'')]\<rparr>,
      sampleMediaDb\<lparr>mb_assets := [sampleGrant 5 (sha256 ''hello'')]\<rparr>, sampleMediaDb] [[(''k-1'', Regular ''hello'')], []]"
    by (rule r) (simp_all add: MaxMediaSize_def)
  have s: "g_State (sampleReady 5 (sha256 ''hello'')) = StateReady" by (simp add: sampleReady_def readyRow_def)
  show ?thesis using ready_media_durable [OF m, of _ "sampleReady 5 (sha256 ''hello'')"] m s by fastforce
qed

text \<open>
  C33. A private download is for members only. \<^verbatim>\<open>ResolvePrivateDownload\<close> returns a URL only for a ready asset, to a caller
  who is a member of the asset's conversation with a live session and token, and only the one the signer made for that
  asset's own key, to expire at most five minutes from now.
\<close>

theorem download_authorized:
  assumes "ResolvePrivateDownload sign ctx envs now identity mediaKey ttl dbs = Inr url"
  shows "\<exists>asset expiresAt. asset \<in> set (mb_assets (dbs 0)) \<and> g_State asset = StateReady \<and> g_MediaKey asset = mediaKey \<and>
    liveIdentity (dbs 1) now identity (g_ConversationID asset) \<and> sign mediaKey expiresAt = Some url \<and>
    now < expiresAt \<and> expiresAt \<le> now + 300 * second \<and> url \<noteq> [] \<and> length url \<le> 8192"
proof -
  let ?ttl = "if ttl = 0 then 60 * second else ttl"
  obtain asset where a: "LoadReadyAsset ctx (envs 0) mediaKey (dbs 0) = Inr asset" "0 < ?ttl" "?ttl \<le> 300 * second"
    "Authorize ctx (envs 1) now identity (g_ConversationID asset) (dbs 1) = Inr ()" "sign (g_MediaKey asset) (now + ?ttl) = Some url"
    "url \<noteq> []" "length url \<le> 8192"
    using assms unfolding ResolvePrivateDownload_def
    by (auto simp: Let_def bindR_eq_Inr not_le split: if_splits option.splits)
  obtain row where "find (\<lambda>g. g_MediaKey g = mediaKey \<and> g_State g = StateReady) (mb_assets (dbs 0)) = Some row" "scanGrant row = Inr asset"
    using a(1) by (auto simp: LoadReadyAsset_def split: if_splits option.splits)
  then have "asset \<in> set (mb_assets (dbs 0))" "g_MediaKey asset = mediaKey" "g_State asset = StateReady"
    by (auto simp: scanGrant_def find_Some_iff split: if_splits)
  moreover have "now < now + ?ttl" "now + ?ttl \<le> now + 300 * second" using a(2,3) by linarith+
  ultimately show ?thesis using a(5-7) Authorize_live [OF a(4)] by blast
qed

theorem download_authorized_witness:
  "\<exists>asset. asset \<in> set [sampleReady 5 (sha256 ''hello'')] \<and> liveIdentity (sampleMediaDb\<lparr>mb_assets := [sampleReady 5 (sha256 ''hello'')]\<rparr>)
     second sampleIdentity (g_ConversationID asset)"
proof -
  let ?r = "sampleReady 5 (sha256 ''hello'')" and ?db = "sampleMediaDb\<lparr>mb_assets := [sampleReady 5 (sha256 ''hello'')]\<rparr>"
  have v: "ValidGrant ?r"
    unfolding sampleReady_def by (rule ValidGrant_readyRow) (simp_all add: sampleGrant_valid MaxMediaSize_def, simp add: sampleGrant_def pendingGrant_def)
  have "ResolvePrivateDownload (\<lambda>k e. Some ''https://host/k-1'') (Some False) (\<lambda>_. goodTx) second sampleIdentity ''k-1'' 0 (\<lambda>_. ?db) =
    Inr ''https://host/k-1''"
    using v sample_media_idents sample_live [of second "[?r]"]
    by (simp add: ResolvePrivateDownload_def LoadReadyAsset_def scanGrant_def Authorize_def authorizeTx_def zeroTime_def second_def minute_def
        Let_def sampleReady_def readyRow_def sampleGrant_def pendingGrant_def)
  from download_authorized [OF this] show ?thesis by auto
qed

section \<open>Samples of an upload and of a media message\<close>

definition sampleUpload :: BeginUploadRequest where
  "sampleUpload = \<lparr>bu_ConversationID = ''v1'', bu_Kind = ''image'', bu_ContentType = ''image/png'', bu_Size = 5,
     bu_SHA256 = hex_encode (sha256 ''hello''), bu_Expiry = 0\<rparr>"

definition sampleUploadGrant :: UploadGrant where
  "sampleUploadGrant = \<lparr>ug_RawToken = sampleGrantToken, ug_MediaKey = hex_encode (replicate 16 (CHR ''c'')),
     ug_ExpiresAt = 120 * second\<rparr>"

lemma ParseSHA256_digest: "ParseSHA256 (hex_encode (sha256 s)) = Some (sha256 s)"
  by (simp add: ParseSHA256_def validSHA256_def hex_encode_length hex_encode_lower)

lemma sample_generateGrant:
  "generateGrant sampleIdentity ''v1'' \<lparr>ui_Kind = ''image'', ui_ContentType = ''image/png'', ui_Size = 5, ui_SHA256 = sha256 ''hello''\<rparr>
     (120 * second) (replicate 16 (CHR ''a'') @ replicate 32 (CHR ''b'') @ replicate 16 (CHR ''c'')) =
   (Inr ((sampleGrant 5 (sha256 ''hello''))\<lparr>g_MediaKey := hex_encode (replicate 16 (CHR ''c''))\<rparr>, sampleGrantToken), [])"
proof -
  have k: "ident128 (hex_encode (replicate 16 (CHR ''c'')))" "length (b64_encode (replicate 32 (CHR ''b''))) = 43"
    by (code_simp, simp add: b64_encode_length)
  have "ValidGrant ((sampleGrant 5 (sha256 ''hello''))\<lparr>g_MediaKey := hex_encode (replicate 16 (CHR ''c''))\<rparr>)"
    using sampleGrant_valid [of 5 "sha256 ''hello''"] k(1) by (simp add: ValidGrant_def MaxMediaSize_def sampleGrant_def pendingGrant_def split: if_splits)
  then show ?thesis
    using k sample_media_idents by (simp add: generateGrant_def readFull_def Let_def sampleGrant_def sampleGrantToken_def pendingGrant_def)
qed

lemma sample_begins:
  "BeginUpload (Some False) (\<lambda>_. goodTx) 0 sampleIdentity sampleUpload
     (replicate 16 (CHR ''a'') @ replicate 32 (CHR ''b'') @ replicate 16 (CHR ''c'')) sampleMediaDb =
   (Inr sampleUploadGrant, [], sampleMediaDb\<lparr>mb_assets := [(sampleGrant 5 (sha256 ''hello''))\<lparr>g_MediaKey := hex_encode (replicate 16 (CHR ''c''))\<rparr>]\<rparr>)"
proof -
  let ?g = "(sampleGrant 5 (sha256 ''hello''))\<lparr>g_MediaKey := hex_encode (replicate 16 (CHR ''c''))\<rparr>"
  let ?i = "\<lparr>ui_Kind = ''image'', ui_ContentType = ''image/png'', ui_Size = 5, ui_SHA256 = sha256 ''hello''\<rparr>"
  let ?e = "replicate 16 (CHR ''a'') @ replicate 32 (CHR ''b'') @ replicate 16 (CHR ''c'')"
  note d = sampleGrant_def pendingGrant_def
  have c: "createGrant sampleIdentity ''v1'' ?i (120 * second) (?e, [], []) = (Inr ?g, [], sampleGrantToken, hex_encode (replicate 16 (CHR ''c'')))"
    unfolding createGrant_def prod.case sample_generateGrant by simp
  have v: "ValidGrant ?g" using sample_generateGrant by (rule generateGrant_cases)
  have l: "liveIdentity sampleMediaDb 0 sampleIdentity ''v1''" using sample_live [of 0 "[]"] by (simp add: sampleMediaDb_def minute_def)
  have gf: "g_State ?g = StatePending" "grantOfIdentity ?g sampleIdentity" "g_ConversationID ?g = ''v1''"
    by (simp_all add: d grantOfIdentity_def)
  have i: "insertGrant (mb_assets sampleMediaDb) ?g = Inr (Some [?g])"
    by (simp add: insertGrant_def d truncMicro_def second_def sampleMediaDb_def)
  have b: "Repo_BeginUpload (Some False) goodTx 0 sampleIdentity ''v1'' (createGrant sampleIdentity ''v1'' ?i (120 * second)) (?e, [], []) sampleMediaDb =
    (Inr (), ([], sampleGrantToken, hex_encode (replicate 16 (CHR ''c''))), sampleMediaDb\<lparr>mb_assets := [?g]\<rparr>)"
    using v l gf sample_media_idents by (simp add: Repo_BeginUpload_def c i authorizeTx_def finish_def goodEnv_def zeroTime_def)
  have k: "maxGrantAttempts = Suc 7" "sampleGrantToken \<noteq> []" "hex_encode (replicate 16 (CHR ''c'')) \<noteq> []"
    by (simp_all add: maxGrantAttempts_def sampleGrantToken_def rawGrant_def hex_encode_length flip: length_0_conv)
  have "ValidIntent ?i" using sample_media_idents by (simp add: ValidIntent_def MaxMediaSize_def)
  moreover have "begin_loop maxGrantAttempts (Some False) (\<lambda>_. goodTx) 0 sampleIdentity ''v1'' ?i (120 * second) (?e, [], []) sampleMediaDb =
    (Inr sampleUploadGrant, [], sampleMediaDb\<lparr>mb_assets := [?g]\<rparr>)"
    unfolding k(1) begin_loop.simps using b k(2,3) by (simp add: sampleUploadGrant_def)
  ultimately show ?thesis
    using sample_media_idents
    by (simp add: BeginUpload_def sampleUpload_def ParseSHA256_digest zeroTime_def second_def sampleUploadGrant_def)
qed

theorem upload_then_send_witness:
  "\<exists>ready db2. CompleteUpload localPut (Some False, goodFs, []) (Some False) (\<lambda>_. goodTx) second sampleIdentity sampleGrantToken sampleReader
      (\<lambda>_. sampleMediaDb\<lparr>mb_assets := [(sampleGrant 5 (sha256 ''hello''))\<lparr>g_MediaKey := hex_encode (replicate 16 (CHR ''c''))\<rparr>]\<rparr>) []
      (sampleMediaDb\<lparr>mb_assets := [(sampleGrant 5 (sha256 ''hello''))\<lparr>g_MediaKey := hex_encode (replicate 16 (CHR ''c''))\<rparr>]\<rparr>) =
    (Inr ready, [(hex_encode (replicate 16 (CHR ''c'')), Regular ''hello'')], db2) \<and> g_State ready = StateReady"
  using upload_then_send [OF sample_begins, of second sampleReader "[]"] sample_live [of second]
  by (simp add: sampleUpload_def sampleUploadGrant_def sampleReader_def truncMicro_def zeroTime_def second_def minute_def)
    blast

end
