(* ===== verification/MediaMessages.thy ===== *)
theory MediaMessages
  imports MediaFacts
begin

text \<open>
  The message service with the media service as its validator: a media message is stored only if its object is.
\<close>

section \<open>Media messages\<close>

text \<open>What a validator that said yes has seen.\<close>

lemma ValidateForSend_asset:
  assumes "ValidateForSend ctx env now db identity conv m = Inr u"
  obtains g where "g \<in> set (mb_assets db)" "sendableAsset db now identity conv m g"
  using assms by (auto simp: ValidateForSend_def ValidateReadyForSend_def list_ex_iff split: if_splits option.splits)

lemma sendable_live: "sendableAsset db now identity conv m g \<Longrightarrow> liveIdentity db now identity conv"
  by (auto simp: sendableAsset_def liveIdentity_def grantOfIdentity_def split: option.splits)

lemma Persist_validated:
  "Persist ctx env u request validate generate s db db1 = (r, s', d) \<Longrightarrow> d \<noteq> db1 \<Longrightarrow> validate = Inr ()"
  by (auto simp: Persist_def split: if_splits option.splits sum.splits prod.splits commitOutcome.splits)

lemma Service_Send_validated:
  assumes "Service_Send ctx env now validator newID identity request s db db1 = (r, s', d)" "d \<noteq> db1"
  shows "validateMedia validator identity request = Inr ()"
proof (cases "Persist ctx env (ci_userID identity) request (validateMedia validator identity request) (generateIDs newID now) s db db1")
  case (fields r1 s1 d1)
  then have "d1 = d" using assms by (auto simp: Service_Send_def Let_def split: if_splits sum.splits)
  then show ?thesis using Persist_validated [OF fields] assms(2) by blast
qed

lemma validateMedia_asks:
  assumes "validateMedia (Some v) identity request = Inr ()" "s_Type request = ''media''" "s_Version request = 1"
  obtains w where "DecodeMediaPayload (rawPayload (s_Payload request)) = Inr w"
    "v identity (s_ConversationID request) (serverMetadata w) = Inr ()"
proof -
  obtain w where w: "DecodeMediaPayload (rawPayload (s_Payload request)) = Inr w"
    using assms by (auto simp: validateMedia_def split: sum.splits)
  have "ValidMediaMetadata w" using Decode_media_valid [OF w] by blast
  note m = serverMetadata_valid [OF this]
  show thesis using that [OF w] assms w m by (auto simp: validateMedia_def serverMetadata_def Let_def split: sum.splits)
qed

text \<open>
  C4. No media message without its object. When the message service, given the media service as its validator, stores a
  media message, its payload decodes, and the sender holds a ready upload grant of that conversation with exactly the
  announced kind, content type, size and digest, with a live session and token; and the object store, whichever keeps the
  contract of the port, has that object from then on. The tables and stores may be of any point of an interleaved run.
\<close>

theorem media_message_backed:
  assumes "object_store put has_object" "media_run put dbs (fs # fss)" "mdb \<in> set dbs"
    and "Service_Send ctx env now (Some (ValidateForSend mctx menv t mdb)) newID identity request s db db1 = (r, s', d)" "d \<noteq> db1"
    and "s_Type request = ''media''" "s_Version request = 1"
  shows "\<exists>w g. DecodeMediaPayload (rawPayload (s_Payload request)) = Inr w \<and> g \<in> set (mb_assets mdb) \<and>
    sendableAsset mdb t identity (s_ConversationID request) (serverMetadata w) g \<and>
    liveIdentity mdb t identity (s_ConversationID request) \<and>
    has_object fs (mm_MediaKey w) \<lparr>oi_Size = parseMediaSize (mm_Size w), oi_SHA256 = hex_bytes (mm_SHA256 w)\<rparr>"
proof -
  obtain w where w: "DecodeMediaPayload (rawPayload (s_Payload request)) = Inr w"
    "ValidateForSend mctx menv t mdb identity (s_ConversationID request) (serverMetadata w) = Inr ()"
    using validateMedia_asks [OF Service_Send_validated [OF assms(4,5)] assms(6,7)] by blast
  obtain g where g: "g \<in> set (mb_assets mdb)" "sendableAsset mdb t identity (s_ConversationID request) (serverMetadata w) g"
    using ValidateForSend_asset [OF w(2)] .
  have i: "mediaInv has_object dbs (fs # fss)" by (rule object_store.media_run_inv [OF assms(1,2)])
  have s: "g_State g = StateReady" "g_MediaKey g = mm_MediaKey w"
    "objectOf g = \<lparr>oi_Size = parseMediaSize (mm_Size w), oi_SHA256 = hex_bytes (mm_SHA256 w)\<rparr>"
    using g(2) by (auto simp: sendableAsset_def serverMetadata_def objectOf_def)
  have "evolved (mb_assets mdb) (mb_assets (hd dbs))" using i assms(3) by (simp add: mediaInv_def)
  then have "g \<in> set (mb_assets (hd dbs))" using evolved_ready g(1) s(1) by blast
  then have "has_object fs (g_MediaKey g) (objectOf g)" using i s(1) by (auto simp: mediaInv_def readyStored_def)
  then show ?thesis using w(1) g sendable_live [OF g(2)] s by auto
qed

text \<open>A store in memory that remembers sizes and digests, for a sample.\<close>

definition memPut :: "unit \<Rightarrow> bytes \<Rightarrow> unit \<Rightarrow> ObjectInfo \<Rightarrow> ObjectInfo table \<Rightarrow> (mediaCode, ObjectInfo) result \<times> ObjectInfo table" where
  "memPut e key content expected t = (case map_of t key of
       None \<Rightarrow> (Inr expected, (key, expected) # t)
     | Some i \<Rightarrow> if i = expected then (Inr expected, t) else (Inl MediaConflict, t))"

interpretation memory: object_store memPut "\<lambda>t k i. map_of t k = Some i"
  by unfold_locales (auto simp: memPut_def split: option.splits if_splits)

definition sampleMediaRow :: storedRow where
  "sampleMediaRow = sampleRow\<lparr>sr_MessageType := ''media'', sr_Payload := marshal_metadata sampleMetadata\<rparr>"

definition sampleMediaAfter :: msgdb where
  "sampleMediaAfter = sampleAfter\<lparr>db_messages := [sampleMediaRow]\<rparr>"

text \<open>The request encodes; the passes of the decoder are evaluated one by one.\<close>

definition sampleMediaParts :: frameParts where
  "sampleMediaParts = \<lparr>p_version = 1, p_kind = ''send'', p_raw = sendBody sampleMediaSend, p_fields =
    [(''clientMsgId'', dquote # ''c1'' @ [dquote]), (''conversationId'', dquote # ''v1'' @ [dquote]), (''type'', dquote # ''media'' @ [dquote]),
     (''version'', ''1''), (''payload'', marshal_metadata sampleMetadata)]\<rparr>"

definition sampleMediaWire :: bytes where
  "sampleMediaWire = wrap 1 ''send'' (sendBody sampleMediaSend)"

definition sampleMediaFrame :: fields where
  "sampleMediaFrame = [(''protocolVersion'', ''1''), (''kind'', dquote # ''send'' @ [dquote]), (''body'', sendBody sampleMediaSend)]"

lemma sampleMedia_strict: "strictJSONLimits sampleMediaWire MaxFrameBytes (MaxDepth + 1) = Inr ()"
  by code_simp

lemma sampleMedia_strict_body: "strictJSONLimits (sendBody sampleMediaSend) (bodyLimit ''send'') MaxDepth = Inr ()"
  by code_simp

lemma sampleMedia_fields: "objectFields sampleMediaWire = Inr sampleMediaFrame"
  by code_simp

lemma sampleMedia_body: "objectFields (sendBody sampleMediaSend) = Inr (p_fields sampleMediaParts)"
  by code_simp

lemma sampleMedia_header: "versionField sampleMediaFrame ''protocolVersion'' = Inr 1" "stringField sampleMediaFrame ''kind'' = Inr ''send''"
  "rawField sampleMediaFrame ''body'' = sendBody sampleMediaSend" "\<not> forbidden sampleMediaFrame" "\<not> forbidden (p_fields sampleMediaParts)"
  "\<not> int MaxMetadataBytes < int (length sampleMediaWire) - int (length (sendBody sampleMediaSend))"
  "\<not> bodyLimit ''send'' < length (sendBody sampleMediaSend)"
  by code_simp+

lemma sampleMedia_shape: "sendShape sampleMediaParts = Inr sampleMediaSend" "sendSemantics sampleMediaSend = Inr ()"
  "json_valid (payloadText (s_Payload sampleMediaSend))"
  by code_simp+

lemma sampleMedia_encodes: "is_ok (EncodeSend sampleMediaSend)"
proof -
  have p: "parseFrame sampleMediaWire = Inr sampleMediaParts"
    using sampleMedia_header
    by (simp add: parseFrame_def sampleMedia_strict [simplified] sampleMedia_fields sampleMedia_body sampleMedia_strict_body Let_def)
      (simp add: sampleMediaParts_def)
  have "p_version sampleMediaParts = 1" "p_kind sampleMediaParts = ''send''" by (simp_all add: sampleMediaParts_def)
  then have d: "DecodeSend sampleMediaWire = Inr sampleMediaSend"
    by (simp add: DecodeSend_def p bodyShape_def dropR_def sampleMedia_shape liftE_def)
  have "lowerBound (int MaxSendBytes) 0 [length (s_ClientMsgID sampleMediaSend), length (s_ConversationID sampleMediaSend),
      length (s_Type sampleMediaSend), payloadLen (s_Payload sampleMediaSend)] = Inr ()" by code_simp
  moreover have "s_ProtocolVersion sampleMediaSend = 1" by (simp add: sampleMediaSend_def sampleSend_def)
  ultimately show ?thesis
    using d sampleMedia_shape(3) by (simp add: EncodeSend_def Let_def liftE_def flip: sampleMediaWire_def)
qed

lemma sampleMedia_persists: "persistRequest sampleMsgDb ''u1'' sampleMediaSend sampleGenerated = Inr (sampleMediaRow, sampleMediaAfter)"
  by code_simp

lemma sampleMedia_intent: "intent sampleMediaRow = sampleMediaSend"
  by code_simp

lemma sampleMetadata_server: "serverMetadata sampleMetadata = metadataOf ''k-1'' \<lparr>bu_ConversationID = ''v1'', bu_Kind = ''image'',
    bu_ContentType = ''image/png'', bu_Size = 10, bu_SHA256 = [], bu_Expiry = 0\<rparr> (hex_bytes (replicate 64 (CHR ''a'')))"
  by code_simp

abbreviation sampleDigest :: bytes where "sampleDigest \<equiv> hex_bytes (replicate 64 (CHR ''a''))"

lemma sampleMedia_validated:
  "validateMedia (Some (ValidateForSend (Some False) goodTx second (sampleMediaDb\<lparr>mb_assets := [sampleReady 10 sampleDigest]\<rparr>)))
     sampleIdentity sampleMediaSend = Inr ()"
proof -
  let ?db = "sampleMediaDb\<lparr>mb_assets := [sampleReady 10 sampleDigest]\<rparr>"
  have v: "ValidGrant (sampleReady 10 sampleDigest)"
    unfolding sampleReady_def
    by (rule ValidGrant_readyRow) (simp_all add: sampleGrant_valid MaxMediaSize_def, simp add: sampleGrant_def pendingGrant_def)
  have "ValidateForSend (Some False) goodTx second ?db sampleIdentity ''v1'' (serverMetadata sampleMetadata) = Inr ()"
    using sendable_granted [where now = second and g = "sampleReady 10 sampleDigest" and db = sampleMediaDb and rest = "[]"
        and identity = sampleIdentity and digest = sampleDigest and c = False
        and request = "\<lparr>bu_ConversationID = ''v1'', bu_Kind = ''image'', bu_ContentType = ''image/png'', bu_Size = 10, bu_SHA256 = [], bu_Expiry = 0\<rparr>"
        and expires = "120 * second" and key = "''k-1''" and grantID = "hex_encode (replicate 16 (CHR ''a''))" and d = "sha256 sampleGrantToken"]
      v sample_live [of second "[]"] sample_media_idents
    by (simp add: sampleMetadata_server sampleReady_def sampleGrant_def second_def minute_def zeroTime_def sampleMediaDb_def)
  moreover have "ParseSHA256 (mm_SHA256 sampleMetadata) = Some (hex_bytes (mm_SHA256 sampleMetadata))" "ValidMetadata (serverMetadata sampleMetadata)"
    using serverMetadata_valid(1,2) [OF sampleMetadata_valid] .
  ultimately show ?thesis
    using sampleMetadata_decodes
    by (simp add: validateMedia_def sampleMediaSend_def sampleSend_def rawPayload_def Let_def serverMetadata_def)
qed

lemma sampleMedia_sent:
  assumes "validateMedia validator sampleIdentity sampleMediaSend = Inr ()"
  shows "\<exists>r. Service_Send (Some False) goodTx 5000000 validator NewID sampleIdentity sampleMediaSend sampleEntropy sampleMsgDb sampleMsgDb =
    (r, [], sampleMediaAfter)"
proof -
  have f: "s_ConversationID sampleMediaSend = ''v1''" "s_ClientMsgID sampleMediaSend = ''c1''" "ci_userID sampleIdentity = ''u1''"
    by (simp_all add: sampleMediaSend_def sampleSend_def sampleIdentity_def)
  have c: "compareIntent sampleMediaRow sampleMediaSend = Inr ()"
    using sampleMedia_encodes by (simp add: sampleMedia_intent SameIntent_Inr equalPayload_def equalValue_refl)
  have a: "conversationAuthorize goodTx sampleMsgDb ''u1'' ''v1'' = Inr ()" "loadMessage goodTx sampleMsgDb ''u1'' ''c1'' = Inr None"
    by (simp_all add: conversationAuthorize_def loadMessage_def sampleMsgDb_def findMessage_def)
  have s: "persistMessage goodTx sampleMsgDb ''u1'' sampleMediaSend sampleGenerated = Inr (sampleMediaRow, sampleMediaAfter)"
    unfolding persistMessage_ok sampleMedia_persists by simp
  have "Persist (Some False) goodTx ''u1'' sampleMediaSend (Inr ()) (generateIDs NewID 5000000) sampleEntropy sampleMsgDb sampleMsgDb =
    (Inr (persisted sampleMediaRow), [], sampleMediaAfter)"
    using sampleMedia_encodes sample_identity by (simp add: Persist_def sample_generates f a s c)
  then show ?thesis
    using assms sampleMedia_encodes sample_identity by (auto simp: Service_Send_def f Let_def)
qed

theorem media_message_backed_witness:
  "\<exists>w. DecodeMediaPayload (rawPayload (s_Payload sampleMediaSend)) = Inr w \<and>
     map_of [(''k-1'', \<lparr>oi_Size = 10, oi_SHA256 = sampleDigest\<rparr>)] (mm_MediaKey w) =
       Some \<lparr>oi_Size = parseMediaSize (mm_Size w), oi_SHA256 = hex_bytes (mm_SHA256 w)\<rparr>"
proof -
  let ?db = "sampleMediaDb\<lparr>mb_assets := [sampleReady 10 sampleDigest]\<rparr>"
  have r: "media_run memPut [?db, sampleMediaDb\<lparr>mb_assets := [sampleGrant 10 sampleDigest]\<rparr>, sampleMediaDb]
      [[(''k-1'', \<lparr>oi_Size = 10, oi_SHA256 = sampleDigest\<rparr>)], []]"
    by (rule sample_run [where penv = "()" and content = "()"]) (simp_all add: MaxMediaSize_def memPut_def hex_bytes_length)
  obtain e where e: "Service_Send (Some False) goodTx 5000000 (Some (ValidateForSend (Some False) goodTx second ?db)) NewID sampleIdentity
      sampleMediaSend sampleEntropy sampleMsgDb sampleMsgDb = (e, [], sampleMediaAfter)"
    using sampleMedia_sent [OF sampleMedia_validated] by blast
  have d: "sampleMediaAfter \<noteq> sampleMsgDb" by (simp add: sampleMediaAfter_def sampleAfter_def sampleMsgDb_def)
  have t: "s_Type sampleMediaSend = ''media''" "s_Version sampleMediaSend = 1" by (simp_all add: sampleMediaSend_def sampleSend_def)
  show ?thesis
    using media_message_backed [OF memory.object_store_axioms r _ e d t] unfolding set_simps by blast
qed

end
