(* ===== verification/SyncCursor.thy ===== *)
theory SyncCursor
  imports AuthToken Database "HOL-Library.List_Lexorder"
begin

text \<open>
  The continuation cursors of \<^verbatim>\<open>server/sync/conversation/cursor.go\<close>: a binary record, authenticated by an HMAC under a
  named key, in unpadded URL-safe base64. Unsigned 64-bit fields are naturals; the decoder reads them from eight bytes
  and the encoder rejects what is above \<open>MaxSequence\<close>.
\<close>

section \<open>Cursors\<close>

datatype convCode =
    ConvCursorExpired | ConvInvalidCursor | ConvForbidden | ConvNotReady | ConvLimitExceeded | ConvStorageUnavailable
  | ConvSequenceExhausted

definition MaxSeq :: nat where "MaxSeq = 9223372036854775807"
definition MaxCursorBytes :: nat where "MaxCursorBytes = 2048"
definition MaxConvPageItems :: int where "MaxConvPageItems = 100"

definition cursorFormatVersion :: nat where "cursorFormatVersion = 1"
definition cursorKindBootstrapPage :: nat where "cursorKindBootstrapPage = 1"
definition cursorKindDeltaPage :: nat where "cursorKindDeltaPage = 2"
definition cursorKindCheckpoint :: nat where "cursorKindCheckpoint = 3"
definition cursorTagSize :: nat where "cursorTagSize = 32"
definition bootstrapRoundLifetime :: nat where "bootstrapRoundLifetime = 15 * 60"
definition checkpointLifetime :: nat where "checkpointLifetime = 24 * 60 * 60"

record syncCursor =
  cu_kind :: nat
  cu_keyID :: bytes
  cu_account :: bytes
  cu_epoch :: nat
  cu_issued :: nat
  cu_expires :: nat
  cu_limit :: int
  cu_fence :: nat
  cu_afterSeq :: nat
  cu_afterKey :: bytes
  cu_terminalKey :: bytes

definition validKeyID :: "bytes \<Rightarrow> bool" where
  "validKeyID value =
     (if length value = 0 \<or> 32 < length value then False
      else list_all (\<lambda>ch. is_upper ch \<or> is_lower ch \<or> is_digit ch \<or> ch = CHR ''_'' \<or> ch = CHR ''-'') value)"

definition validSequence :: "nat \<Rightarrow> bool" where
  "validSequence value \<longleftrightarrow> value \<le> MaxSeq"

definition isPage :: "syncCursor \<Rightarrow> bool" where
  "isPage c \<longleftrightarrow> cu_kind c = cursorKindBootstrapPage \<or> cu_kind c = cursorKindDeltaPage"

text \<open>Big-endian numbers of a given width.\<close>

fun be_bytes :: "nat \<Rightarrow> nat \<Rightarrow> bytes" where
  "be_bytes 0 v = []"
| "be_bytes (Suc n) v = be_bytes n (v div 256) @ [char_of (v mod 256)]"

definition be_val :: "bytes \<Rightarrow> nat" where
  "be_val s = foldl (\<lambda>v c. v * 256 + code c) 0 s"

section \<open>Validation\<close>

text \<open>The checks both validators share, in the order of the encoder: time and limits, position, lifetime.\<close>

definition cursorTimes :: "syncCursor \<Rightarrow> bool" where
  "cursorTimes c \<longleftrightarrow> \<not> (cu_epoch c = 0 \<or> \<not> validSequence (cu_epoch c) \<or> \<not> validSequence (cu_issued c) \<or>
     \<not> validSequence (cu_expires c) \<or> cu_expires c \<le> cu_issued c)"

definition cursorLimits :: "syncCursor \<Rightarrow> bool" where
  "cursorLimits c \<longleftrightarrow> \<not> (cu_limit c < 1 \<or> MaxConvPageItems < cu_limit c \<or> \<not> validSequence (cu_fence c))"

definition cursorLifetime :: "syncCursor \<Rightarrow> bool" where
  "cursorLifetime c \<longleftrightarrow> \<not> ((if cu_kind c \<noteq> cursorKindCheckpoint then bootstrapRoundLifetime else checkpointLifetime)
     < cu_expires c - cu_issued c)"

definition bootstrapPosition :: "syncCursor \<Rightarrow> bool" where
  "bootstrapPosition c \<longleftrightarrow>
     (if cu_terminalKey c = [] then cu_afterKey c = []
      else \<not> (cu_afterKey c = [] \<or> cu_terminalKey c < cu_afterKey c))"

definition deltaPosition :: "syncCursor \<Rightarrow> bool" where
  "deltaPosition c \<longleftrightarrow> \<not> (cu_afterKey c \<noteq> [] \<or> cu_terminalKey c \<noteq> []) \<and> \<not> (\<not> validSequence (cu_afterSeq c) \<or> cu_fence c < cu_afterSeq c)"

definition checkpointPosition :: "syncCursor \<Rightarrow> bool" where
  "checkpointPosition c \<longleftrightarrow> \<not> (cu_afterSeq c \<noteq> 0 \<or> cu_afterKey c \<noteq> [] \<or> cu_terminalKey c \<noteq> [])"

definition validateCursorForEncoding :: "syncCursor \<Rightarrow> (convCode, unit) result" where
  "validateCursorForEncoding c =
     (if cu_kind c \<noteq> cursorKindBootstrapPage \<and> cu_kind c \<noteq> cursorKindDeltaPage \<and> cu_kind c \<noteq> cursorKindCheckpoint
      then Inl ConvInvalidCursor
      else if \<not> validKeyID (cu_keyID c) \<or> \<not> validIdentifier (cu_account c) then Inl ConvInvalidCursor
      else if \<not> cursorTimes c then Inl ConvInvalidCursor
      else if \<not> cursorLimits c then Inl ConvInvalidCursor
      else if cu_kind c = cursorKindBootstrapPage \<and> \<not> (cu_afterSeq c = 0 \<and>
          (cu_afterKey c \<noteq> [] \<longrightarrow> validIdentifier (cu_afterKey c)) \<and> (cu_terminalKey c \<noteq> [] \<longrightarrow> validIdentifier (cu_terminalKey c)) \<and>
          bootstrapPosition c) then Inl ConvInvalidCursor
      else if cu_kind c = cursorKindDeltaPage \<and> \<not> deltaPosition c then Inl ConvInvalidCursor
      else if cu_kind c = cursorKindCheckpoint \<and> \<not> checkpointPosition c then Inl ConvInvalidCursor
      else if \<not> cursorLifetime c then Inl ConvInvalidCursor
      else Inr ())"

definition validateDecodedCursor :: "syncCursor \<Rightarrow> bytes \<Rightarrow> nat \<Rightarrow> (convCode, unit) result" where
  "validateDecodedCursor c account now =
     (if cu_account c \<noteq> account then Inl ConvInvalidCursor
      else if \<not> cursorTimes c then Inl ConvInvalidCursor
      else if \<not> cursorLimits c then Inl ConvInvalidCursor
      else if \<not> cursorLifetime c then Inl ConvInvalidCursor
      else if (if cu_kind c = cursorKindBootstrapPage then \<not> (cu_afterSeq c = 0 \<and> bootstrapPosition c)
               else if cu_kind c = cursorKindDeltaPage then \<not> deltaPosition c
               else if cu_kind c = cursorKindCheckpoint then \<not> checkpointPosition c
               else True) then Inl ConvInvalidCursor
      else if MaxSeq < now then Inl ConvStorageUnavailable
      else if now < cu_issued c then Inl ConvInvalidCursor
      else if cu_expires c \<le> now then Inl ConvCursorExpired
      else Inr ())"

section \<open>Encoding\<close>

definition positionBytes :: "syncCursor \<Rightarrow> bytes" where
  "positionBytes c =
     (if cu_kind c = cursorKindBootstrapPage then
        be_bytes 2 (length (cu_afterKey c)) @ cu_afterKey c @ be_bytes 2 (length (cu_terminalKey c)) @ cu_terminalKey c
      else if cu_kind c = cursorKindDeltaPage then be_bytes 8 (cu_afterSeq c)
      else [])"

definition cursorPayload :: "syncCursor \<Rightarrow> bytes" where
  "cursorPayload c =
     [char_of cursorFormatVersion, char_of (cu_kind c), char_of (length (cu_keyID c))] @ cu_keyID c @
     be_bytes 2 (length (cu_account c)) @ cu_account c @ be_bytes 8 (cu_epoch c) @ be_bytes 8 (cu_issued c) @
     be_bytes 8 (cu_expires c) @ be_bytes 2 (nat (cu_limit c)) @ be_bytes 8 (cu_fence c) @ positionBytes c"

definition encodeCursor :: "bytes table \<Rightarrow> syncCursor \<Rightarrow> (convCode, bytes) result" where
  "encodeCursor keys c =
     bindR (validateCursorForEncoding c) (\<lambda>_.
       case map_of keys (cu_keyID c) of
         None \<Rightarrow> Inl ConvStorageUnavailable
       | Some key \<Rightarrow>
           if length key < 32 then Inl ConvStorageUnavailable
           else
             let payload = cursorPayload c; encoded = b64_encode (payload @ hmac_sha256 key payload) in
             if length encoded = 0 \<or> MaxCursorBytes < length encoded then Inl ConvStorageUnavailable else Inr encoded)"

section \<open>Decoding\<close>

text \<open>The reader is what is left of the payload.\<close>

definition read_uint16 :: "bytes \<Rightarrow> (convCode, nat \<times> bytes) result" where
  "read_uint16 r = (if length r < 2 then Inl ConvInvalidCursor else Inr (be_val (take 2 r), drop 2 r))"

definition read_sequence :: "bytes \<Rightarrow> (convCode, nat \<times> bytes) result" where
  "read_sequence r =
     (if length r < 8 then Inl ConvInvalidCursor
      else let value = be_val (take 8 r) in
        if \<not> validSequence value then Inl ConvInvalidCursor else Inr (value, drop 8 r))"

definition read_identifier :: "bytes \<Rightarrow> (convCode, bytes \<times> bytes) result" where
  "read_identifier r = bindR (read_uint16 r) (\<lambda>(n, r1).
     if n = 0 \<or> 128 < n \<or> length r1 < n then Inl ConvInvalidCursor
     else let value = take n r1 in
       if \<not> validIdentifier value then Inl ConvInvalidCursor else Inr (value, drop n r1))"

definition read_identifierOrEmpty :: "bytes \<Rightarrow> (convCode, bytes \<times> bytes) result" where
  "read_identifierOrEmpty r = bindR (read_uint16 r) (\<lambda>(n, r1).
     if 128 < n \<or> length r1 < n then Inl ConvInvalidCursor
     else let value = take n r1 in
       if value \<noteq> [] \<and> \<not> validIdentifier value then Inl ConvInvalidCursor else Inr (value, drop n r1))"

definition read_position :: "syncCursor \<Rightarrow> bytes \<Rightarrow> (convCode, syncCursor \<times> bytes) result" where
  "read_position c r =
     (if cu_kind c = cursorKindBootstrapPage then
        bindR (read_identifierOrEmpty r) (\<lambda>(afterKey, r1).
        bindR (read_identifierOrEmpty r1) (\<lambda>(terminalKey, r2).
          Inr (c\<lparr>cu_afterKey := afterKey, cu_terminalKey := terminalKey\<rparr>, r2)))
      else if cu_kind c = cursorKindDeltaPage then
        bindR (read_sequence r) (\<lambda>(afterSeq, r1). Inr (c\<lparr>cu_afterSeq := afterSeq\<rparr>, r1))
      else if cu_kind c = cursorKindCheckpoint then Inr (c, r)
      else Inl ConvInvalidCursor)"

definition read_fields :: "nat \<Rightarrow> bytes \<Rightarrow> bytes \<Rightarrow> (convCode, syncCursor) result" where
  "read_fields kind keyID r =
     bindR (read_identifier r) (\<lambda>(account, r1).
     bindR (read_sequence r1) (\<lambda>(epoch, r2).
     bindR (read_sequence r2) (\<lambda>(issued, r3).
     bindR (read_sequence r3) (\<lambda>(expires, r4).
     bindR (read_uint16 r4) (\<lambda>(limit, r5).
     bindR (read_sequence r5) (\<lambda>(fence, r6).
     bindR (read_position \<lparr>cu_kind = kind, cu_keyID = keyID, cu_account = account, cu_epoch = epoch, cu_issued = issued,
         cu_expires = expires, cu_limit = int limit, cu_fence = fence, cu_afterSeq = 0, cu_afterKey = [], cu_terminalKey = []\<rparr> r6)
       (\<lambda>(c, r7). if r7 \<noteq> [] then Inl ConvInvalidCursor else Inr c)))))))"

definition decodeCursor :: "bytes table \<Rightarrow> bytes \<Rightarrow> nat \<Rightarrow> bytes \<Rightarrow> nat \<Rightarrow> (convCode, syncCursor) result" where
  "decodeCursor keys encoded expectedKind account now =
     (if length encoded = 0 \<or> MaxCursorBytes < length encoded then Inl ConvInvalidCursor
      else case b64_decode False encoded of
        None \<Rightarrow> Inl ConvInvalidCursor
      | Some raw \<Rightarrow>
          if b64_encode raw \<noteq> encoded then Inl ConvInvalidCursor
          else if length raw \<le> cursorTagSize + 3 then Inl ConvInvalidCursor
          else
            let payload = take (length raw - cursorTagSize) raw; tag = drop (length raw - cursorTagSize) raw;
                keyIDLength = code (payload ! 2); keyID = take keyIDLength (drop 3 payload)
            in if code (payload ! 0) \<noteq> cursorFormatVersion \<or> code (payload ! 1) \<noteq> expectedKind then Inl ConvInvalidCursor
               else if keyIDLength < 1 \<or> 32 < keyIDLength \<or> length payload < 3 + keyIDLength then Inl ConvInvalidCursor
               else if \<not> validKeyID keyID then Inl ConvInvalidCursor
               else (case map_of keys keyID of
                   None \<Rightarrow> Inl ConvInvalidCursor
                 | Some key \<Rightarrow>
                     if length key < 32 then Inl ConvInvalidCursor
                     else if hmac_sha256 key payload \<noteq> tag then Inl ConvInvalidCursor
                     else
                       bindR (read_fields expectedKind keyID (drop (3 + keyIDLength) payload)) (\<lambda>c.
                       bindR (validateDecodedCursor c account now) (\<lambda>_. Inr c))))"

section \<open>Numbers\<close>

lemma length_be_bytes [simp]: "length (be_bytes n v) = n"
  by (induction n arbitrary: v) simp_all

lemma be_val_snoc [simp]: "be_val (s @ [c]) = be_val s * 256 + code c"
  by (simp add: be_val_def)

lemma be_val_bytes: "v < 256 ^ n \<Longrightarrow> be_val (be_bytes n v) = v"
proof (induction n arbitrary: v)
  case (Suc n)
  have "v div 256 < 256 ^ n" using Suc(2) by (simp add: less_mult_imp_div_less mult.commute)
  then show ?case using Suc(1) by simp
qed (simp add: be_val_def)

lemma be_val_less: "be_val s < 256 ^ length s"
proof (induction s rule: rev_induct)
  case (snoc c s)
  have "be_val s * 256 + code c < 256 * 256 ^ length s" using snoc code_less [of c] by linarith
  then show ?case by simp
qed (simp add: be_val_def)

lemma be_bytes_val: "be_bytes (length s) (be_val s) = s"
proof (induction s rule: rev_induct)
  case (snoc c s)
  have "(be_val s * 256 + code c) div 256 = be_val s" "(be_val s * 256 + code c) mod 256 = code c" using code_less [of c] by simp_all
  then show ?case using snoc by simp
qed simp

lemma be_bytes_take: "n \<le> length r \<Longrightarrow> be_bytes n (be_val (take n r)) = take n r"
  using be_bytes_val [of "take n r"] by (simp add: min_absorb2)

lemma be_val_take_less: "n \<le> length r \<Longrightarrow> be_val (take n r) < 256 ^ n"
  using be_val_less [of "take n r"] by (simp add: min_absorb2)

section \<open>What the readers accept\<close>

named_theorems reader_iff

lemma read_uint16_iff [reader_iff]: "read_uint16 r = Inr (v, r') \<longleftrightarrow> v < 65536 \<and> r = be_bytes 2 v @ r'"
proof
  assume a: "read_uint16 r = Inr (v, r')"
  then have l: "2 \<le> length r" and v: "v = be_val (take 2 r)" "r' = drop 2 r" by (auto simp: read_uint16_def split: if_splits)
  show "v < 65536 \<and> r = be_bytes 2 v @ r'" using be_val_take_less [OF l] be_bytes_take [OF l] v by simp
qed (simp add: read_uint16_def be_val_bytes)

lemma read_sequence_iff [reader_iff]: "read_sequence r = Inr (v, r') \<longleftrightarrow> v \<le> MaxSeq \<and> r = be_bytes 8 v @ r'"
proof
  assume a: "read_sequence r = Inr (v, r')"
  then have l: "8 \<le> length r" and v: "v = be_val (take 8 r)" "r' = drop 8 r" "v \<le> MaxSeq"
    by (auto simp: read_sequence_def validSequence_def Let_def split: if_splits)
  show "v \<le> MaxSeq \<and> r = be_bytes 8 v @ r'" using be_bytes_take [OF l] v by simp
next
  assume "v \<le> MaxSeq \<and> r = be_bytes 8 v @ r'"
  moreover have "v < 256 ^ 8" if "v \<le> MaxSeq" using that by (simp add: MaxSeq_def)
  ultimately show "read_sequence r = Inr (v, r')" by (simp add: read_sequence_def validSequence_def Let_def be_val_bytes)
qed

lemma ident128_length: "ident128 v \<Longrightarrow> 0 < length v \<and> length v \<le> 128"
  by (auto simp: ident128_def)

lemma read_identifier_iff [reader_iff]:
  "read_identifier r = Inr (v, r') \<longleftrightarrow> ident128 v \<and> r = be_bytes 2 (length v) @ v @ r'"
proof
  assume "read_identifier r = Inr (v, r')"
  then obtain n r1 where "read_uint16 r = Inr (n, r1)" "n \<le> length r1" "v = take n r1" "r' = drop n r1" "ident128 v"
    by (auto simp: read_identifier_def bindR_eq_Inr Let_def split: if_splits)
  then show "ident128 v \<and> r = be_bytes 2 (length v) @ v @ r'" by (auto simp: read_uint16_iff)
next
  assume a: "ident128 v \<and> r = be_bytes 2 (length v) @ v @ r'"
  then have "read_uint16 r = Inr (length v, v @ r')" using ident128_length [of v] by (simp add: read_uint16_iff)
  then show "read_identifier r = Inr (v, r')" using a ident128_length [of v] by (simp add: read_identifier_def Let_def)
qed

lemma read_identifierOrEmpty_iff [reader_iff]:
  "read_identifierOrEmpty r = Inr (v, r') \<longleftrightarrow> (v = [] \<or> ident128 v) \<and> r = be_bytes 2 (length v) @ v @ r'"
proof
  assume "read_identifierOrEmpty r = Inr (v, r')"
  then obtain n r1 where "read_uint16 r = Inr (n, r1)" "n \<le> length r1" "v = take n r1" "r' = drop n r1" "v = [] \<or> ident128 v"
    by (auto simp: read_identifierOrEmpty_def bindR_eq_Inr Let_def split: if_splits)
  then show "(v = [] \<or> ident128 v) \<and> r = be_bytes 2 (length v) @ v @ r'" by (auto simp: read_uint16_iff)
next
  assume a: "(v = [] \<or> ident128 v) \<and> r = be_bytes 2 (length v) @ v @ r'"
  then have l: "length v \<le> 128" using ident128_length by auto
  then have "read_uint16 r = Inr (length v, v @ r')" using a by (simp add: read_uint16_iff)
  then show "read_identifierOrEmpty r = Inr (v, r')" using a l by (auto simp: read_identifierOrEmpty_def Let_def)
qed

text \<open>A position as the reader leaves it: the fields another kind would use are empty.\<close>

definition positionShape :: "syncCursor \<Rightarrow> bool" where
  "positionShape c \<longleftrightarrow>
     (if cu_kind c = cursorKindBootstrapPage then cu_afterSeq c = 0 \<and> (cu_afterKey c = [] \<or> ident128 (cu_afterKey c)) \<and>
        (cu_terminalKey c = [] \<or> ident128 (cu_terminalKey c))
      else if cu_kind c = cursorKindDeltaPage then cu_afterSeq c \<le> MaxSeq \<and> cu_afterKey c = [] \<and> cu_terminalKey c = []
      else cu_kind c = cursorKindCheckpoint \<and> cu_afterSeq c = 0 \<and> cu_afterKey c = [] \<and> cu_terminalKey c = [])"

lemmas cursor_kinds = cursorKindBootstrapPage_def cursorKindDeltaPage_def cursorKindCheckpoint_def

lemma read_position_iff:
  assumes "cu_afterSeq c0 = 0" "cu_afterKey c0 = []" "cu_terminalKey c0 = []"
  shows "read_position c0 r = Inr (c, r') \<longleftrightarrow> positionShape c \<and> r = positionBytes c @ r' \<and>
    cu_kind c0 = cu_kind c \<and> cu_keyID c0 = cu_keyID c \<and> cu_account c0 = cu_account c \<and> cu_epoch c0 = cu_epoch c \<and>
    cu_issued c0 = cu_issued c \<and> cu_expires c0 = cu_expires c \<and> cu_limit c0 = cu_limit c \<and> cu_fence c0 = cu_fence c"
  using assms
  by (cases c0; cases c)
    (auto simp: read_position_def positionShape_def positionBytes_def bindR_eq_Inr reader_iff cursor_kinds)

lemma read_fields_iff:
  "read_fields kind keyID r = Inr c \<longleftrightarrow> cu_kind c = kind \<and> cu_keyID c = keyID \<and> ident128 (cu_account c) \<and> validSequence (cu_epoch c) \<and>
     validSequence (cu_issued c) \<and> validSequence (cu_expires c) \<and> 0 \<le> cu_limit c \<and> cu_limit c < 65536 \<and> validSequence (cu_fence c) \<and>
     positionShape c \<and>
     r = be_bytes 2 (length (cu_account c)) @ cu_account c @ be_bytes 8 (cu_epoch c) @ be_bytes 8 (cu_issued c) @
       be_bytes 8 (cu_expires c) @ be_bytes 2 (nat (cu_limit c)) @ be_bytes 8 (cu_fence c) @ positionBytes c"
    (is "?L \<longleftrightarrow> ?R")
proof
  assume ?L
  then show ?R
    by (auto simp: read_fields_def bindR_eq_Inr reader_iff read_position_iff validSequence_def split: if_splits) (metis nat_int)
next
  assume R: ?R
  let ?c0 = "\<lparr>cu_kind = kind, cu_keyID = keyID, cu_account = cu_account c, cu_epoch = cu_epoch c, cu_issued = cu_issued c,
    cu_expires = cu_expires c, cu_limit = cu_limit c, cu_fence = cu_fence c, cu_afterSeq = 0, cu_afterKey = [], cu_terminalKey = []\<rparr>"
  have p: "read_position ?c0 (positionBytes c) = Inr (c, [])" using R by (simp add: read_position_iff)
  have u: "read_uint16 (be_bytes 2 (nat (cu_limit c)) @ x) = Inr (nat (cu_limit c), x)" "int (nat (cu_limit c)) = cu_limit c" for x
    using R by (auto simp: read_uint16_iff nat_less_iff)
  have i: "read_identifier (be_bytes 2 (length (cu_account c)) @ cu_account c @ x) = Inr (cu_account c, x)" for x
    using R by (simp add: read_identifier_iff)
  have q: "read_sequence (be_bytes 8 v @ x) = Inr (v, x)" if "validSequence v" for v x
    using that by (simp add: read_sequence_iff validSequence_def)
  show ?L using R p u i q by (simp add: read_fields_def)
qed

section \<open>Decoding is the inverse of encoding\<close>

definition timely :: "syncCursor \<Rightarrow> nat \<Rightarrow> bool" where
  "timely c now \<longleftrightarrow> now \<le> MaxSeq \<and> cu_issued c \<le> now \<and> now < cu_expires c"

text \<open>What both validators come to, for a cursor whose fields the reader or the encoder's first check has seen.\<close>

lemma validators_agree:
  "validateCursorForEncoding c = Inr () \<and> timely c now \<longleftrightarrow>
     validKeyID (cu_keyID c) \<and> ident128 (cu_account c) \<and> positionShape c \<and> validateDecodedCursor c (cu_account c) now = Inr ()"
  by (auto simp: validateCursorForEncoding_def validateDecodedCursor_def timely_def positionShape_def deltaPosition_def
      checkpointPosition_def validSequence_def cursor_kinds split: if_splits)

lemma validated_fields:
  assumes "validateDecodedCursor c account now = Inr ()"
  shows "validSequence (cu_epoch c)" "validSequence (cu_issued c)" "validSequence (cu_expires c)" "0 \<le> cu_limit c" "cu_limit c < 65536"
    "validSequence (cu_fence c)" "cu_account c = account" "timely c now"
  using assms by (auto simp: validateDecodedCursor_def cursorTimes_def cursorLimits_def timely_def MaxConvPageItems_def split: if_splits)

lemma payload_header:
  assumes "length (cu_keyID c) \<le> 32" "cu_kind c < 256"
  shows "code (cursorPayload c ! 0) = cursorFormatVersion" "code (cursorPayload c ! 1) = cu_kind c"
    "code (cursorPayload c ! 2) = length (cu_keyID c)" "take (length (cu_keyID c)) (drop 3 (cursorPayload c)) = cu_keyID c"
    "3 + length (cu_keyID c) \<le> length (cursorPayload c)"
    "drop (3 + length (cu_keyID c)) (cursorPayload c) = be_bytes 2 (length (cu_account c)) @ cu_account c @ be_bytes 8 (cu_epoch c) @
      be_bytes 8 (cu_issued c) @ be_bytes 8 (cu_expires c) @ be_bytes 2 (nat (cu_limit c)) @ be_bytes 8 (cu_fence c) @ positionBytes c"
proof -
  have d: "drop 3 (cursorPayload c) = cu_keyID c @ be_bytes 2 (length (cu_account c)) @ cu_account c @ be_bytes 8 (cu_epoch c) @
      be_bytes 8 (cu_issued c) @ be_bytes 8 (cu_expires c) @ be_bytes 2 (nat (cu_limit c)) @ be_bytes 8 (cu_fence c) @ positionBytes c"
    by (simp add: cursorPayload_def)
  show "take (length (cu_keyID c)) (drop 3 (cursorPayload c)) = cu_keyID c" by (simp add: d)
  have "drop (3 + length (cu_keyID c)) (cursorPayload c) = drop (length (cu_keyID c)) (drop 3 (cursorPayload c))" by (simp add: add.commute)
  then show "drop (3 + length (cu_keyID c)) (cursorPayload c) = be_bytes 2 (length (cu_account c)) @ cu_account c @ be_bytes 8 (cu_epoch c) @
      be_bytes 8 (cu_issued c) @ be_bytes 8 (cu_expires c) @ be_bytes 2 (nat (cu_limit c)) @ be_bytes 8 (cu_fence c) @ positionBytes c"
    by (simp add: d)
qed (use assms in \<open>simp_all add: cursorPayload_def cursorFormatVersion_def\<close>)

lemma encodeCursor_Inr:
  "encodeCursor keys c = Inr w \<longleftrightarrow> validateCursorForEncoding c = Inr () \<and>
     (\<exists>key. map_of keys (cu_keyID c) = Some key \<and> 32 \<le> length key \<and>
       w = b64_encode (cursorPayload c @ hmac_sha256 key (cursorPayload c)) \<and> length w \<le> MaxCursorBytes)"
proof -
  have "b64_encode (cursorPayload c @ t) \<noteq> []" for t
    using b64_encode_length [of "cursorPayload c @ t"] by (auto simp: cursorPayload_def simp flip: length_0_conv)
  then show ?thesis by (auto simp: encodeCursor_def bindR_eq_Inr Let_def split: option.splits if_splits)
qed

lemma validKeyID_length: "validKeyID k \<Longrightarrow> 1 \<le> length k \<and> length k \<le> 32"
  by (auto simp: validKeyID_def Suc_le_eq split: if_splits)

lemma decode_encoded:
  assumes e: "encodeCursor keys c = Inr w" and t: "timely c now"
  shows "decodeCursor keys w (cu_kind c) (cu_account c) now = Inr c"
proof -
  obtain key where k: "validateCursorForEncoding c = Inr ()" "map_of keys (cu_keyID c) = Some key" "32 \<le> length key"
    "w = b64_encode (cursorPayload c @ hmac_sha256 key (cursorPayload c))" "length w \<le> MaxCursorBytes"
    using e encodeCursor_Inr by blast
  have v: "validKeyID (cu_keyID c)" "ident128 (cu_account c)" "positionShape c" "validateDecodedCursor c (cu_account c) now = Inr ()"
    using validators_agree [of c now] k(1) t by auto
  have l: "1 \<le> length (cu_keyID c)" "length (cu_keyID c) \<le> 32" "cu_kind c < 256"
    using validKeyID_length [OF v(1)] v(3) by (auto simp: positionShape_def cursor_kinds split: if_splits)
  note h = payload_header [OF l(2,3)]
  define raw where "raw = cursorPayload c @ hmac_sha256 key (cursorPayload c)"
  have p: "take (length raw - cursorTagSize) raw = cursorPayload c" "drop (length raw - cursorTagSize) raw = hmac_sha256 key (cursorPayload c)"
    "\<not> length raw \<le> cursorTagSize + 3"
    using h(5) l(1) by (simp_all add: cursorTagSize_def raw_def)
  have r: "read_fields (cu_kind c) (cu_keyID c) (drop (3 + length (cu_keyID c)) (cursorPayload c)) = Inr c"
    using v(2,3) validated_fields [OF v(4)] h(6) by (simp add: read_fields_iff)
  have k4: "w = b64_encode raw" using k(4) raw_def by simp
  then have "0 < length w" using p(3) by (simp add: b64_encode_length cursorTagSize_def)
  moreover have "cu_keyID c \<noteq> []" using l(1) by auto
  ultimately show ?thesis
    using k4 k(2,3,5) h(1-5) l v(1) r v(4) p(3) by (simp add: decodeCursor_def Let_def p(1,2))
qed

lemma encoded_decode:
  assumes "decodeCursor keys w kind account now = Inr c"
  shows "encodeCursor keys c = Inr w \<and> cu_kind c = kind \<and> cu_account c = account \<and> timely c now"
proof -
  obtain raw where raw: "b64_decode False w = Some raw" "b64_encode raw = w" "cursorTagSize + 3 < length raw" "length w \<le> MaxCursorBytes"
    using assms by (auto simp: decodeCursor_def Let_def split: if_splits option.splits)
  define payload where "payload = take (length raw - cursorTagSize) raw"
  define n where "n = code (payload ! 2)"
  define k where "k = take n (drop 3 payload)"
  obtain key where d: "code (payload ! 0) = cursorFormatVersion" "code (payload ! 1) = kind" "3 + n \<le> length payload"
    "validKeyID k" "map_of keys k = Some key" "32 \<le> length key" "hmac_sha256 key payload = drop (length raw - cursorTagSize) raw"
    "read_fields kind k (drop (3 + n) payload) = Inr c" "validateDecodedCursor c account now = Inr ()"
    using assms raw unfolding decodeCursor_def raw(1) option.case Let_def payload_def n_def k_def
    by (auto simp: bindR_eq_Inr not_less not_le split: if_splits option.splits)
  note f = d(8) [unfolded read_fields_iff] and v = validated_fields [OF d(9)]
  have e: "validateCursorForEncoding c = Inr ()"
    using validators_agree [of c now] f d(4,9) v(7) by simp
  have p0: "payload = char_of (code (payload ! 0)) # char_of (code (payload ! 1)) # char_of (code (payload ! 2)) # drop 3 payload"
    using d(3) by (auto simp: numeral_3_eq_3 numeral_2_eq_2 Suc_le_length_iff)
  have "drop 3 payload = k @ drop (3 + n) payload" by (simp add: k_def add.commute flip: drop_drop)
  with p0 have "payload = char_of cursorFormatVersion # char_of kind # char_of n # k @ drop (3 + n) payload"
    by (simp only: d(1,2) n_def [symmetric])
  moreover have "length k = n" using d(3) by (simp add: k_def)
  ultimately have "payload = cursorPayload c" using f by (simp add: cursorPayload_def)
  moreover have "raw = payload @ hmac_sha256 key payload" using d(7) by (simp add: payload_def)
  ultimately show ?thesis using e f d(5,6) raw v(7,8) by (auto simp: encodeCursor_Inr)
qed

text \<open>
  C34. Cursors are exact. \<^verbatim>\<open>decodeCursor\<close> accepts a text, for an account, a kind and a time, exactly when \<^verbatim>\<open>encodeCursor\<close>
  emits that very text under one of the configured keys for a cursor of that account and kind that is live at that time,
  and returns this cursor: nothing else is accepted, and nothing is lost.
\<close>

theorem cursor_codec_exact:
  "decodeCursor keys w kind account now = Inr c \<longleftrightarrow>
     encodeCursor keys c = Inr w \<and> cu_kind c = kind \<and> cu_account c = account \<and> timely c now"
  using encoded_decode decode_encoded by blast

end
