(* ===== verification/ConversationStore.thy ===== *)
theory ConversationStore
  imports SyncCursor MessageStore
begin

text \<open>
  The conversation projection of \<^verbatim>\<open>server/storage/conversationsync\<close> (\<^verbatim>\<open>repository.go\<close>, \<^verbatim>\<open>batch.go\<close>, \<^verbatim>\<open>read.go\<close>,
  \<^verbatim>\<open>maintenance.go\<close>) over the tables of \<^verbatim>\<open>003_conversation_sync.sql\<close>: one numbered change log per account, a directory of
  the conversations in it, and reads from one snapshot. Transactions begin with a context that is not nil.
\<close>

section \<open>Tables\<close>

record syncAccount =
  ac_epoch :: int
  ac_head :: int
  ac_floor :: int

record changeRow =
  ch_user :: bytes
  ch_seq :: int
  ch_conv :: bytes
  ch_kind :: bytes
  ch_latestSeq :: "int option"
  ch_latestMsg :: "bytes option"

record keyRow =
  ky_user :: bytes
  ky_conv :: bytes
  ky_first :: int

record convdb =
  cd_msgs :: msgdb
  cd_accounts :: "syncAccount table"
  cd_keys :: "keyRow list"
  cd_changes :: "changeRow list"

text \<open>An item of the application: one revision of one conversation in an account.\<close>

record syncItem =
  ti_ConversationID :: bytes
  ti_Revision :: nat
  ti_Kind :: bytes
  ti_LatestSeq :: "nat option"
  ti_LatestMsg :: "bytes option"

section \<open>Shared queries\<close>

definition isMember :: "convdb \<Rightarrow> bytes \<Rightarrow> bytes \<Rightarrow> bool" where
  "isMember db user conv \<longleftrightarrow> (conv, user) \<in> set (db_members (cd_msgs db))"

definition userExists :: "bool \<Rightarrow> convdb \<Rightarrow> bytes \<Rightarrow> (convCode, unit) result" where
  "userExists fails db user =
     (if fails then Inl ConvStorageUnavailable
      else if user \<notin> set (db_users (cd_msgs db)) then Inl ConvForbidden
      else Inr ())"

definition scanItem :: "changeRow \<Rightarrow> (convCode, syncItem) result" where
  "scanItem row =
     (if ch_seq row \<le> 0 \<or> \<not> validIdentifier (ch_conv row) then Inl ConvStorageUnavailable
      else if ch_kind row = ''upsert'' then
        (case ch_latestSeq row of
           None \<Rightarrow> Inl ConvStorageUnavailable
         | Some s \<Rightarrow>
             if s < 0 then Inl ConvStorageUnavailable
             else Inr \<lparr>ti_ConversationID = ch_conv row, ti_Revision = nat (ch_seq row), ti_Kind = ch_kind row,
                       ti_LatestSeq = Some (nat s), ti_LatestMsg = ch_latestMsg row\<rparr>)
      else if ch_kind row \<noteq> ''remove'' \<or> ch_latestSeq row \<noteq> None \<or> ch_latestMsg row \<noteq> None then Inl ConvStorageUnavailable
      else Inr \<lparr>ti_ConversationID = ch_conv row, ti_Revision = nat (ch_seq row), ti_Kind = ch_kind row,
                ti_LatestSeq = None, ti_LatestMsg = None\<rparr>)"

text \<open>The changes of an account in the order of their numbers.\<close>

definition changesOf :: "convdb \<Rightarrow> bytes \<Rightarrow> changeRow list" where
  "changesOf db user = sort_key ch_seq (filter (\<lambda>r. ch_user r = user) (cd_changes db))"

definition latestRow :: "convdb \<Rightarrow> bytes \<Rightarrow> bytes \<Rightarrow> nat \<Rightarrow> changeRow option" where
  "latestRow db user conv fence =
     (case rev (filter (\<lambda>r. ch_conv r = conv \<and> ch_seq r \<le> int fence) (changesOf db user)) of
        [] \<Rightarrow> None
      | r # _ \<Rightarrow> Some r)"

definition latest :: "bool \<Rightarrow> convdb \<Rightarrow> bytes \<Rightarrow> bytes \<Rightarrow> nat \<Rightarrow> (convCode, syncItem option) result" where
  "latest fails db user conv fence =
     (if fails then Inl ConvStorageUnavailable
      else case latestRow db user conv fence of
        None \<Rightarrow> Inr None
      | Some row \<Rightarrow> bindR (scanItem row) (\<lambda>item. Inr (Some item)))"

section \<open>Onboarding and the floor\<close>

definition InitializeEmptyAccount :: "dbEnv \<Rightarrow> bytes \<Rightarrow> convdb \<Rightarrow> (convCode, unit) result \<times> convdb" where
  "InitializeEmptyAccount env user db =
     (if \<not> validIdentifier user then (Inl ConvForbidden, db)
      else if env_begin env \<or> env_stmt env 0 \<or> env_stmt env 1 then (Inl ConvStorageUnavailable, db)
      else if user \<notin> set (db_users (cd_msgs db)) then (Inl ConvForbidden, db)
      else if env_stmt env 2 then (Inl ConvStorageUnavailable, db)
      else if list_ex (\<lambda>(c, u). u = user) (db_members (cd_msgs db)) \<or> list_ex (\<lambda>k. ky_user k = user) (cd_keys db) \<or>
        list_ex (\<lambda>r. ch_user r = user) (cd_changes db) then (Inl ConvNotReady, db)
      else if env_stmt env 3 then (Inl ConvStorageUnavailable, db)
      else case map_of (cd_accounts db) user of
        None \<Rightarrow>
          if env_stmt env 4 then (Inl ConvStorageUnavailable, db)
          else finish env ConvStorageUnavailable db
            (db\<lparr>cd_accounts := (user, \<lparr>ac_epoch = 1, ac_head = 0, ac_floor = 0\<rparr>) # cd_accounts db\<rparr>) ()
      | Some a \<Rightarrow>
          if ac_epoch a \<noteq> 1 \<or> ac_head a \<noteq> 0 \<or> ac_floor a \<noteq> 0 then (Inl ConvNotReady, db)
          else finish env ConvStorageUnavailable db db ())"

definition AdvanceFloor :: "dbEnv \<Rightarrow> bytes \<Rightarrow> nat \<Rightarrow> convdb \<Rightarrow> (convCode, unit) result \<times> convdb" where
  "AdvanceFloor env user floorSeq db =
     (if \<not> validIdentifier user then (Inl ConvForbidden, db)
      else if MaxSeq < floorSeq then (Inl ConvLimitExceeded, db)
      else if env_begin env then (Inl ConvStorageUnavailable, db)
      else case userExists (env_stmt env 0) db user of
        Inl e \<Rightarrow> (Inl e, db)
      | Inr _ \<Rightarrow>
          if env_stmt env 1 then (Inl ConvStorageUnavailable, db)
          else (case map_of (cd_accounts db) user of
              None \<Rightarrow> (Inl ConvNotReady, db)
            | Some a \<Rightarrow>
                if int floorSeq < ac_floor a \<or> ac_head a < int floorSeq then (Inl ConvLimitExceeded, db)
                else if ac_floor a < int floorSeq then
                  if ac_epoch a = int MaxSeq then (Inl ConvSequenceExhausted, db)
                  else if env_stmt env 2 then (Inl ConvStorageUnavailable, db)
                  else finish env ConvStorageUnavailable db (db\<lparr>cd_accounts := mapRows (\<lambda>u r. if u = user
                    then r\<lparr>ac_floor := int floorSeq, ac_epoch := ac_epoch r + 1\<rparr> else r) (cd_accounts db)\<rparr>) ()
                else finish env ConvStorageUnavailable db db ()))"

section \<open>Recording changes\<close>

record Batch =
  ba_conversations :: "bytes list"
  ba_users :: "bytes list"

definition declaredIDs :: "bytes list \<Rightarrow> (convCode, bytes list) result" where
  "declaredIDs input =
     (if length input = 0 \<or> 100 < length input then Inl ConvLimitExceeded
      else if \<not> list_all validIdentifier input then Inl ConvLimitExceeded
      else Inr (remdups_adj (sort input)))"

fun prepare_conversations :: "(nat \<Rightarrow> bool) \<Rightarrow> nat \<Rightarrow> convdb \<Rightarrow> bytes list \<Rightarrow> (convCode, nat) result" where
  "prepare_conversations fails n db [] = Inr n"
| "prepare_conversations fails n db (conv # rest) =
     (if fails n then Inl ConvStorageUnavailable
      else if map_of (db_convs (cd_msgs db)) conv = None then Inl ConvForbidden
      else prepare_conversations fails (n + 1) db rest)"

fun prepare_users :: "(nat \<Rightarrow> bool) \<Rightarrow> nat \<Rightarrow> convdb \<Rightarrow> bytes list \<Rightarrow> (convCode, unit) result" where
  "prepare_users fails n db [] = Inr ()"
| "prepare_users fails n db (user # rest) =
     bindR (userExists (fails n) db user) (\<lambda>_.
       if fails (n + 1) then Inl ConvStorageUnavailable
       else if map_of (cd_accounts db) user = None then Inl ConvNotReady
       else prepare_users fails (n + 2) db rest)"

text \<open>
  \<^verbatim>\<open>PrepareBatch\<close> locks the declared rows; the settings of a transaction of another kind count as a failure of
  statement 1. Until the caller ends the transaction, nobody else changes the locked rows.
\<close>

definition PrepareBatch :: "dbEnv \<Rightarrow> bytes list \<Rightarrow> bytes list \<Rightarrow> convdb \<Rightarrow> (convCode, Batch) result" where
  "PrepareBatch env conversationIDs userIDs db =
     bindR (declaredIDs conversationIDs) (\<lambda>conversations.
     bindR (declaredIDs userIDs) (\<lambda>users.
       if env_stmt env 0 \<or> env_stmt env 1 \<or> env_stmt env 2 then Inl ConvStorageUnavailable
       else
         bindR (prepare_conversations (env_stmt env) 3 db conversations) (\<lambda>n.
         bindR (prepare_users (env_stmt env) n db users) (\<lambda>_.
           Inr \<lparr>ba_conversations = conversations, ba_users = users\<rparr>))))"

text \<open>The three writes of \<^verbatim>\<open>record\<close>: the key on first use, the change, the head.\<close>

definition appendChange :: "convdb \<Rightarrow> bytes \<Rightarrow> bytes \<Rightarrow> int \<Rightarrow> bytes \<Rightarrow> int option \<Rightarrow> bytes option \<Rightarrow> convdb" where
  "appendChange db user conv revision kind sequence message = db\<lparr>
     cd_keys := (if list_ex (\<lambda>k. ky_user k = user \<and> ky_conv k = conv) (cd_keys db) then cd_keys db
       else \<lparr>ky_user = user, ky_conv = conv, ky_first = revision\<rparr> # cd_keys db),
     cd_changes := \<lparr>ch_user = user, ch_seq = revision, ch_conv = conv, ch_kind = kind, ch_latestSeq = sequence,
       ch_latestMsg = message\<rparr> # cd_changes db,
     cd_accounts := mapRows (\<lambda>u r. if u = user then r\<lparr>ac_head := revision\<rparr> else r) (cd_accounts db)\<rparr>"

definition sourceSummary :: "bool \<Rightarrow> convdb \<Rightarrow> bytes \<Rightarrow> (convCode, int \<times> bytes option) result" where
  "sourceSummary fails db conv =
     (if fails then Inl ConvStorageUnavailable
      else case map_of (db_convs (cd_msgs db)) conv of
        None \<Rightarrow> Inl ConvStorageUnavailable
      | Some c \<Rightarrow> if cv_last c < 0 then Inl ConvStorageUnavailable else Inr (cv_last c, cv_latest c))"

definition batch_record :: "dbEnv \<Rightarrow> Batch \<Rightarrow> bytes \<Rightarrow> bytes \<Rightarrow> bool \<Rightarrow> convdb \<Rightarrow> (convCode, nat) result \<times> convdb" where
  "batch_record env b conv user remove db =
     (if conv \<notin> set (ba_conversations b) then (Inl ConvForbidden, db)
      else if user \<notin> set (ba_users b) then (Inl ConvForbidden, db)
      else if env_stmt env 0 then (Inl ConvStorageUnavailable, db)
      else if isMember db user conv = remove then (Inl ConvForbidden, db)
      else case latest (env_stmt env 1) db user conv MaxSeq of
        Inl e \<Rightarrow> (Inl e, db)
      | Inr previous \<Rightarrow>
          if remove \<and> previous = None then (Inl ConvForbidden, db)
          else (case (if remove then Inr (None, None)
                      else bindR (sourceSummary (env_stmt env 2) db conv) (\<lambda>(s, m). Inr (Some s, m))) of
              Inl e \<Rightarrow> (Inl e, db)
            | Inr (sequence, message) \<Rightarrow>
                let kind = (if remove then ''remove'' else ''upsert'') in
                if (case previous of None \<Rightarrow> False | Some p \<Rightarrow> ti_Kind p = kind \<and>
                     (remove \<or> ti_LatestSeq p = map_option nat sequence \<and> ti_LatestMsg p = message))
                then (Inr (case previous of None \<Rightarrow> 0 | Some p \<Rightarrow> ti_Revision p), db)
                else if env_stmt env 3 then (Inl ConvStorageUnavailable, db)
                else (case map_of (cd_accounts db) user of
                    None \<Rightarrow> (Inl ConvStorageUnavailable, db)
                  | Some a \<Rightarrow>
                      if ac_head a = int MaxSeq then (Inl ConvSequenceExhausted, db)
                      else if env_stmt env 4 \<or> env_stmt env 5 \<or> env_stmt env 6 then (Inl ConvStorageUnavailable, db)
                      else (Inr (nat (ac_head a + 1)),
                            appendChange db user conv (ac_head a + 1) kind sequence message))))"

definition RecordUpsert :: "dbEnv \<Rightarrow> Batch \<Rightarrow> bytes \<Rightarrow> bytes \<Rightarrow> convdb \<Rightarrow> (convCode, nat) result \<times> convdb" where
  "RecordUpsert env b conv user db = batch_record env b conv user False db"

definition RecordRemoval :: "dbEnv \<Rightarrow> Batch \<Rightarrow> bytes \<Rightarrow> bytes \<Rightarrow> convdb \<Rightarrow> (convCode, nat) result \<times> convdb" where
  "RecordRemoval env b conv user db = batch_record env b conv user True db"

section \<open>Reading\<close>

datatype readKind = BootstrapRead | DeltaRead

record convRequest =
  cr_Kind :: readKind
  cr_Start :: bool
  cr_Epoch :: nat
  cr_Fence :: nat
  cr_AfterSeq :: nat
  cr_AfterKey :: bytes
  cr_TerminalKey :: bytes
  cr_Limit :: int

record Candidate =
  ca_Key :: bytes
  ca_State :: "syncItem option"
  ca_Member :: bool
  ca_Latest :: "syncItem option"

record convResult =
  cs_Epoch :: nat
  cs_Head :: nat
  cs_Floor :: nat
  cs_Fence :: nat
  cs_TerminalKey :: bytes
  cs_Candidates :: "Candidate list"
  cs_Exhausted :: bool

definition MaxDirectoryCandidates :: nat where "MaxDirectoryCandidates = 200"

text \<open>
  \<^verbatim>\<open>authorize\<close>: membership for an upsert, and the latest projection where there is none. Each candidate has three
  statements of its own, counted from \<open>n\<close>.
\<close>

definition authorizeCandidate :: "(nat \<Rightarrow> bool) \<Rightarrow> nat \<Rightarrow> convdb \<Rightarrow> bytes \<Rightarrow> bytes \<Rightarrow> syncItem \<Rightarrow> (convCode, Candidate) result" where
  "authorizeCandidate fails n db user key state =
     (if ti_Kind state \<noteq> ''upsert'' then Inr \<lparr>ca_Key = key, ca_State = Some state, ca_Member = False, ca_Latest = None\<rparr>
      else if fails n then Inl ConvStorageUnavailable
      else if isMember db user key then Inr \<lparr>ca_Key = key, ca_State = Some state, ca_Member = True, ca_Latest = None\<rparr>
      else bindR (latest (fails (n + 1)) db user key MaxSeq) (\<lambda>l.
        Inr \<lparr>ca_Key = key, ca_State = Some state, ca_Member = False, ca_Latest = l\<rparr>))"

fun directory_candidates :: "(nat \<Rightarrow> bool) \<Rightarrow> nat \<Rightarrow> convdb \<Rightarrow> bytes \<Rightarrow> nat \<Rightarrow> keyRow list \<Rightarrow> (convCode, Candidate list) result" where
  "directory_candidates fails n db user fence [] = Inr []"
| "directory_candidates fails n db user fence (e # es) =
     bindR (if int fence < ky_first e then Inr \<lparr>ca_Key = ky_conv e, ca_State = None, ca_Member = False, ca_Latest = None\<rparr>
            else bindR (latest (fails n) db user (ky_conv e) fence) (\<lambda>state. case state of
                None \<Rightarrow> Inl ConvStorageUnavailable
              | Some st \<Rightarrow> authorizeCandidate fails (n + 1) db user (ky_conv e) st)) (\<lambda>candidate.
     bindR (directory_candidates fails (n + 3) db user fence es) (\<lambda>rest. Inr (candidate # rest)))"

definition directoryRows :: "convdb \<Rightarrow> bytes \<Rightarrow> keyRow list" where
  "directoryRows db user = sort_key ky_conv (filter (\<lambda>k. ky_user k = user) (cd_keys db))"

definition readDirectory :: "dbEnv \<Rightarrow> convdb \<Rightarrow> bytes \<Rightarrow> bytes \<Rightarrow> nat \<Rightarrow> bytes \<Rightarrow> (convCode, Candidate list \<times> bool) result" where
  "readDirectory env db user after fence terminalKey =
     (if env_stmt env 3 then Inl ConvStorageUnavailable
      else
        let entries = take MaxDirectoryCandidates (filter (\<lambda>k. after < ky_conv k \<and> ky_conv k \<le> terminalKey) (directoryRows db user));
            exhausted = (length entries < MaxDirectoryCandidates \<or> entries \<noteq> [] \<and> terminalKey \<le> ky_conv (last entries))
        in bindR (directory_candidates (env_stmt env) 4 db user fence entries) (\<lambda>candidates. Inr (candidates, exhausted)))"

fun scan_changes :: "changeRow list \<Rightarrow> (convCode, syncItem list) result" where
  "scan_changes [] = Inr []"
| "scan_changes (row # rows) = bindR (scanItem row) (\<lambda>item. bindR (scan_changes rows) (\<lambda>items. Inr (item # items)))"

fun delta_candidates :: "(nat \<Rightarrow> bool) \<Rightarrow> nat \<Rightarrow> convdb \<Rightarrow> bytes \<Rightarrow> syncItem list \<Rightarrow> (convCode, Candidate list) result" where
  "delta_candidates fails n db user [] = Inr []"
| "delta_candidates fails n db user (item # items) =
     bindR (authorizeCandidate fails n db user (ti_ConversationID item) item) (\<lambda>candidate.
     bindR (delta_candidates fails (n + 3) db user items) (\<lambda>rest. Inr (candidate # rest)))"

definition readDelta :: "dbEnv \<Rightarrow> convdb \<Rightarrow> bytes \<Rightarrow> nat \<Rightarrow> nat \<Rightarrow> int \<Rightarrow> (convCode, Candidate list) result" where
  "readDelta env db user afterSeq fence limit =
     (if env_stmt env 3 then Inl ConvStorageUnavailable
      else
        bindR (scan_changes (take (nat (limit + 1))
          (filter (\<lambda>r. int afterSeq < ch_seq r \<and> ch_seq r \<le> int fence) (changesOf db user)))) (\<lambda>items.
        delta_candidates (env_stmt env) 4 db user items))"

definition terminalKeyOf :: "convdb \<Rightarrow> bytes \<Rightarrow> bytes" where
  "terminalKeyOf db user = (case rev (directoryRows db user) of [] \<Rightarrow> [] | k # _ \<Rightarrow> ky_conv k)"

definition readPositionCheck :: "convRequest \<Rightarrow> syncAccount \<Rightarrow> (convCode, unit) result" where
  "readPositionCheck request a =
     (if cr_Kind request = BootstrapRead \<and> cr_Start request then Inr ()
      else
        let position = (if cr_Kind request = DeltaRead then cr_AfterSeq request else cr_Fence request) in
        if int (cr_Epoch request) \<noteq> ac_epoch a then Inl ConvCursorExpired
        else if int position < ac_floor a then Inl ConvCursorExpired
        else if ac_head a < int position \<or> ac_head a < int (cr_Fence request) \<or>
          \<not> cr_Start request \<and> cr_Fence request < cr_AfterSeq request then Inl ConvInvalidCursor
        else Inr ())"

definition Conv_Read :: "dbEnv \<Rightarrow> convdb \<Rightarrow> bytes \<Rightarrow> convRequest \<Rightarrow> (convCode, convResult) result" where
  "Conv_Read env db user request =
     (if \<not> validIdentifier user then Inl ConvForbidden
      else if cr_Limit request < 1 \<or> MaxConvPageItems < cr_Limit request then Inl ConvLimitExceeded
      else if MaxSeq < cr_Epoch request \<or> MaxSeq < cr_Fence request \<or> MaxSeq < cr_AfterSeq request \<or>
        cr_AfterKey request \<noteq> [] \<and> \<not> validIdentifier (cr_AfterKey request) \<or>
        cr_TerminalKey request \<noteq> [] \<and> \<not> validIdentifier (cr_TerminalKey request) then Inl ConvInvalidCursor
      else if env_begin env then Inl ConvStorageUnavailable
      else
        bindR (userExists (env_stmt env 0) db user) (\<lambda>_.
          if env_stmt env 1 then Inl ConvStorageUnavailable
          else (case map_of (cd_accounts db) user of
              None \<Rightarrow> Inl ConvNotReady
            | Some a \<Rightarrow>
                bindR (readPositionCheck request a) (\<lambda>_.
                  let fence = (if cr_Start request then nat (ac_head a) else cr_Fence request);
                      result = \<lparr>cs_Epoch = nat (ac_epoch a), cs_Head = nat (ac_head a), cs_Floor = nat (ac_floor a), cs_Fence = fence,
                        cs_TerminalKey = [], cs_Candidates = [], cs_Exhausted = False\<rparr>
                  in case cr_Kind request of
                    BootstrapRead \<Rightarrow>
                      if cr_Start request \<and> env_stmt env 2 then Inl ConvStorageUnavailable
                      else
                        let terminalKey = (if cr_Start request then (case terminalKeyOf db user of
                              [] \<Rightarrow> cr_TerminalKey request | c # cs \<Rightarrow> c # cs) else cr_TerminalKey request) in
                        if terminalKey < cr_AfterKey request then Inl ConvInvalidCursor
                        else bindR (readDirectory env db user (cr_AfterKey request) fence terminalKey) (\<lambda>(candidates, exhausted).
                          if env_commit env \<noteq> Committed then Inl ConvStorageUnavailable
                          else Inr (result\<lparr>cs_TerminalKey := terminalKey, cs_Candidates := candidates, cs_Exhausted := exhausted\<rparr>))
                  | DeltaRead \<Rightarrow>
                      bindR (readDelta env db user (cr_AfterSeq request) fence (cr_Limit request)) (\<lambda>candidates.
                        if env_commit env \<noteq> Committed then Inl ConvStorageUnavailable
                        else Inr (result\<lparr>cs_Candidates := candidates\<rparr>))))))"

end
