(* ===== verification/ConversationSync.thy ===== *)
theory ConversationSync
  imports ConversationStore MediaPayload
begin

text \<open>
  The conversation sync service of \<^verbatim>\<open>server/sync/conversation/service.go\<close>: bootstrap and delta rounds over the projection,
  with authenticated cursors between the pages. The store is the repository; the observer is left out.
\<close>

section \<open>Configuration and time\<close>

record convConfig =
  cf_Keys :: "bytes table"
  cf_ActiveKeyID :: bytes

definition Conv_NewService :: "bool \<Rightarrow> convConfig \<Rightarrow> int \<Rightarrow> (convCode, int) result" where
  "Conv_NewService hasStore config requestTimeout =
     (if \<not> hasStore \<or> cf_Keys config = [] \<or> \<not> validKeyID (cf_ActiveKeyID config) then Inl ConvStorageUnavailable
      else if \<not> list_all (\<lambda>(keyID, key). validKeyID keyID \<and> 32 \<le> length key) (cf_Keys config) then Inl ConvStorageUnavailable
      else if map_of (cf_Keys config) (cf_ActiveKeyID config) = None then Inl ConvStorageUnavailable
      else
        let timeout = (if requestTimeout = 0 then 5 * second else requestTimeout) in
        if timeout < 0 \<or> 5 * second < timeout then Inl ConvStorageUnavailable else Inr timeout)"

definition normalizePageLimit :: "int \<Rightarrow> (convCode, int) result" where
  "normalizePageLimit limit =
     (if limit = 0 then Inr MaxConvPageItems
      else if limit < 1 \<or> MaxConvPageItems < limit then Inl ConvLimitExceeded
      else Inr limit)"

definition currentUnix :: "instant \<Rightarrow> (convCode, nat) result" where
  "currentUnix now =
     (if now = zeroTime then Inl ConvStorageUnavailable
      else
        let unix = now div second in
        if unix < 0 \<or> int MaxSeq < unix then Inl ConvStorageUnavailable else Inr (nat unix))"

definition addSeconds :: "nat \<Rightarrow> nat \<Rightarrow> (convCode, nat) result" where
  "addSeconds now seconds =
     (if MaxSeq < now \<or> MaxSeq < seconds \<or> MaxSeq - seconds < now then Inl ConvStorageUnavailable else Inr (now + seconds))"

section \<open>Checks on what the store returned\<close>

definition validateCommonReadResult :: "convResult \<Rightarrow> (convCode, unit) result" where
  "validateCommonReadResult result =
     (if cs_Epoch result = 0 \<or> \<not> validSequence (cs_Epoch result) \<or> \<not> validSequence (cs_Head result) \<or>
        \<not> validSequence (cs_Floor result) \<or> \<not> validSequence (cs_Fence result) then Inl ConvStorageUnavailable
      else if cs_Head result < cs_Floor result then Inl ConvStorageUnavailable
      else if cs_TerminalKey result \<noteq> [] \<and> \<not> validIdentifier (cs_TerminalKey result) then Inl ConvStorageUnavailable
      else Inr ())"

definition validateItem :: "syncItem \<Rightarrow> (convCode, unit) result" where
  "validateItem item =
     (if \<not> validIdentifier (ti_ConversationID item) \<or> ti_Revision item = 0 \<or> \<not> validSequence (ti_Revision item)
      then Inl ConvStorageUnavailable
      else if ti_Kind item = ''upsert'' then
        (if (case ti_LatestSeq item of None \<Rightarrow> True | Some s \<Rightarrow> \<not> validSequence s) \<or>
           (case ti_LatestMsg item of None \<Rightarrow> False | Some m \<Rightarrow> \<not> validIdentifier m) then Inl ConvStorageUnavailable
         else Inr ())
      else if ti_Kind item = ''remove'' then
        (if ti_LatestSeq item \<noteq> None \<or> ti_LatestMsg item \<noteq> None then Inl ConvStorageUnavailable else Inr ())
      else Inl ConvStorageUnavailable)"

definition latestOK :: "Candidate \<Rightarrow> (convCode, unit) result" where
  "latestOK candidate = (case ca_Latest candidate of
       None \<Rightarrow> Inr ()
     | Some l \<Rightarrow> bindR (validateItem l) (\<lambda>_. if ti_ConversationID l \<noteq> ca_Key candidate then Inl ConvStorageUnavailable else Inr ()))"

fun bootstrap_checks :: "nat \<Rightarrow> bytes \<Rightarrow> bytes \<Rightarrow> Candidate list \<Rightarrow> (convCode, bytes) result" where
  "bootstrap_checks fence terminalKey previous [] = Inr previous"
| "bootstrap_checks fence terminalKey previous (c # cs) =
     (if \<not> validIdentifier (ca_Key c) \<or> ca_Key c \<le> previous then Inl ConvStorageUnavailable
      else if terminalKey < ca_Key c then Inl ConvStorageUnavailable
      else
        bindR (case ca_State c of
            None \<Rightarrow> if ca_Member c \<or> ca_Latest c \<noteq> None then Inl ConvStorageUnavailable else Inr ()
          | Some st \<Rightarrow> bindR (validateItem st) (\<lambda>_.
              if ti_ConversationID st \<noteq> ca_Key c \<or> fence < ti_Revision st then Inl ConvStorageUnavailable else Inr ())) (\<lambda>_.
        bindR (latestOK c) (\<lambda>_.
          bootstrap_checks fence terminalKey (ca_Key c) cs)))"

definition validateBootstrapCandidates :: "convResult \<Rightarrow> bytes \<Rightarrow> bytes \<Rightarrow> (convCode, unit) result" where
  "validateBootstrapCandidates result afterKey terminalKey =
     (if MaxDirectoryCandidates < length (cs_Candidates result) then Inl ConvStorageUnavailable
      else if afterKey \<noteq> [] \<and> \<not> validIdentifier afterKey then Inl ConvInvalidCursor
      else if terminalKey \<noteq> [] \<and> \<not> validIdentifier terminalKey then Inl ConvInvalidCursor
      else if terminalKey = [] then
        (if cs_Candidates result \<noteq> [] \<or> \<not> cs_Exhausted result \<or> cs_Fence result \<noteq> 0 then Inl ConvStorageUnavailable else Inr ())
      else
        bindR (bootstrap_checks (cs_Fence result) terminalKey afterKey (cs_Candidates result)) (\<lambda>previous.
          if cs_Exhausted result then (if previous \<noteq> terminalKey then Inl ConvStorageUnavailable else Inr ())
          else if cs_Candidates result = [] then Inl ConvStorageUnavailable
          else Inr ()))"

fun delta_checks :: "nat \<Rightarrow> nat \<Rightarrow> Candidate list \<Rightarrow> (convCode, nat) result" where
  "delta_checks fence previous [] = Inr previous"
| "delta_checks fence previous (c # cs) =
     (case ca_State c of
        None \<Rightarrow> Inl ConvStorageUnavailable
      | Some st \<Rightarrow>
          if \<not> validIdentifier (ca_Key c) then Inl ConvStorageUnavailable
          else
            bindR (validateItem st) (\<lambda>_.
              if ti_ConversationID st \<noteq> ca_Key c \<or> fence < ti_Revision st then Inl ConvStorageUnavailable
              else if previous = MaxSeq \<or> ti_Revision st \<noteq> previous + 1 then Inl ConvStorageUnavailable
              else bindR (latestOK c) (\<lambda>_. delta_checks fence (ti_Revision st) cs)))"

definition validateDeltaCandidates :: "convResult \<Rightarrow> nat \<Rightarrow> nat \<Rightarrow> int \<Rightarrow> (convCode, unit) result" where
  "validateDeltaCandidates result afterSeq fence limit =
     (if limit + 1 < int (length (cs_Candidates result)) \<or> cs_TerminalKey result \<noteq> [] \<or> fence < afterSeq then Inl ConvStorageUnavailable
      else
        bindR (delta_checks fence afterSeq (cs_Candidates result)) (\<lambda>previous.
          if int (length (cs_Candidates result)) \<le> limit \<and> previous \<noteq> fence then Inl ConvStorageUnavailable else Inr ()))"

section \<open>Selecting items\<close>

definition selectBootstrapCandidate :: "Candidate \<Rightarrow> nat \<Rightarrow> (convCode, syncItem option) result" where
  "selectBootstrapCandidate candidate fence =
     (case ca_State candidate of
        None \<Rightarrow> Inr None
      | Some st \<Rightarrow>
          if ti_Kind st = ''remove'' then (if ca_Latest candidate \<noteq> None then Inl ConvStorageUnavailable else Inr None)
          else if ti_Kind st = ''upsert'' then
            if ca_Member candidate then (if ca_Latest candidate \<noteq> None then Inl ConvStorageUnavailable else Inr (Some st))
            else (case ca_Latest candidate of
                None \<Rightarrow> Inl ConvNotReady
              | Some l \<Rightarrow>
                  if ti_Kind l = ''remove'' then (if fence < ti_Revision l then Inl ConvCursorExpired else Inl ConvStorageUnavailable)
                  else if ti_Kind l = ''upsert'' then Inl ConvNotReady
                  else Inl ConvStorageUnavailable)
          else Inl ConvStorageUnavailable)"

definition selectDeltaCandidate :: "Candidate \<Rightarrow> (convCode, syncItem) result" where
  "selectDeltaCandidate candidate =
     (case ca_State candidate of
        None \<Rightarrow> Inl ConvStorageUnavailable
      | Some st \<Rightarrow>
          if ti_Kind st = ''remove'' then (if ca_Latest candidate \<noteq> None then Inl ConvStorageUnavailable else Inr st)
          else if ti_Kind st = ''upsert'' then
            if ca_Member candidate then (if ca_Latest candidate \<noteq> None then Inl ConvStorageUnavailable else Inr st)
            else (case ca_Latest candidate of
                None \<Rightarrow> Inl ConvNotReady
              | Some l \<Rightarrow>
                  if ti_Kind l = ''remove'' then (if ti_Revision st < ti_Revision l then Inl ConvCursorExpired else Inl ConvStorageUnavailable)
                  else if ti_Kind l = ''upsert'' then Inl ConvNotReady
                  else Inl ConvStorageUnavailable)
          else Inl ConvStorageUnavailable)"

record cursorPosition =
  po_key :: bytes
  po_seq :: nat

record itemEnvelope =
  en_item :: syncItem
  en_before :: cursorPosition
  en_after :: cursorPosition

definition keyPosition :: "bytes \<Rightarrow> cursorPosition" where "keyPosition k = \<lparr>po_key = k, po_seq = 0\<rparr>"
definition seqPosition :: "nat \<Rightarrow> cursorPosition" where "seqPosition n = \<lparr>po_key = [], po_seq = n\<rparr>"

fun bootstrap_loop ::
  "int \<Rightarrow> nat \<Rightarrow> bool \<Rightarrow> itemEnvelope list \<Rightarrow> cursorPosition \<Rightarrow> bool \<Rightarrow> Candidate list \<Rightarrow>
   (convCode, itemEnvelope list \<times> cursorPosition \<times> bool) result" where
  "bootstrap_loop limit fence exhausted entries position hasMore [] = Inr (entries, position, hasMore)"
| "bootstrap_loop limit fence exhausted entries position hasMore (c # cs) =
     bindR (selectBootstrapCandidate c fence) (\<lambda>selected. case selected of
         None \<Rightarrow> bootstrap_loop limit fence exhausted entries (keyPosition (ca_Key c)) hasMore cs
       | Some item \<Rightarrow>
           if limit \<le> int (length entries) then Inr (entries, position, True)
           else
             let entries' = entries @ [\<lparr>en_item = item, en_before = position, en_after = keyPosition (ca_Key c)\<rparr>] in
             if limit \<le> int (length entries') then Inr (entries', keyPosition (ca_Key c), cs \<noteq> [] \<or> \<not> exhausted)
             else bootstrap_loop limit fence exhausted entries' (keyPosition (ca_Key c)) hasMore cs)"

definition assembleBootstrap :: "convResult \<Rightarrow> syncCursor \<Rightarrow> (convCode, itemEnvelope list \<times> cursorPosition \<times> bool) result" where
  "assembleBootstrap result base =
     bindR (bootstrap_loop (cu_limit base) (cs_Fence result) (cs_Exhausted result) [] (keyPosition (cu_afterKey base))
       (\<not> cs_Exhausted result) (cs_Candidates result)) (\<lambda>(entries, position, hasMore).
       Inr (entries, position, hasMore \<or> \<not> cs_Exhausted result))"

fun delta_loop ::
  "int \<Rightarrow> itemEnvelope list \<Rightarrow> cursorPosition \<Rightarrow> bool \<Rightarrow> Candidate list \<Rightarrow>
   (convCode, itemEnvelope list \<times> cursorPosition \<times> bool) result" where
  "delta_loop limit entries position hasMore [] = Inr (entries, position, hasMore)"
| "delta_loop limit entries position hasMore (c # cs) =
     bindR (selectDeltaCandidate c) (\<lambda>item.
       if limit \<le> int (length entries) then Inr (entries, position, True)
       else
         let entries' = entries @ [\<lparr>en_item = item, en_before = position, en_after = seqPosition (ti_Revision item)\<rparr>] in
         if limit \<le> int (length entries') then Inr (entries', seqPosition (ti_Revision item), cs \<noteq> [])
         else delta_loop limit entries' (seqPosition (ti_Revision item)) hasMore cs)"

definition assembleDelta :: "convResult \<Rightarrow> syncCursor \<Rightarrow> (convCode, itemEnvelope list \<times> cursorPosition \<times> bool) result" where
  "assembleDelta result base =
     delta_loop (cu_limit base) [] (seqPosition (cu_afterSeq base)) (cu_limit base < int (length (cs_Candidates result))) (cs_Candidates result)"

section \<open>Rendering\<close>

record convPage =
  cp_Items :: "syncItem list"
  cp_NextCursor :: bytes
  cp_HasMore :: bool

definition MaxConvResponseBytes :: nat where "MaxConvResponseBytes = 65536"

text \<open>\<^verbatim>\<open>json.Marshal\<close> of a page: numbers as strings, the optional fields of an item left out when they are nil.\<close>

definition itemText :: "syncItem \<Rightarrow> bytes" where
  "itemText item = object_text (
     [(''conversationId'', quote_string True (ti_ConversationID item)),
      (''revision'', quote_string True (fmt_nat (ti_Revision item))),
      (''kind'', quote_string True (ti_Kind item))] @
     (case ti_LatestSeq item of None \<Rightarrow> [] | Some s \<Rightarrow> [(''latestConversationSeq'', quote_string True (fmt_nat s))]) @
     (case ti_LatestMsg item of None \<Rightarrow> [] | Some m \<Rightarrow> [(''latestServerMsgId'', quote_string True m)]))"

fun join_comma :: "bytes list \<Rightarrow> bytes" where
  "join_comma [] = []"
| "join_comma [x] = x"
| "join_comma (x # y # zs) = x @ '','' @ join_comma (y # zs)"

definition pageText :: "convPage \<Rightarrow> bytes" where
  "pageText page = object_text
     [(''items'', ''['' @ join_comma (map itemText (cp_Items page)) @ '']''),
      (''nextCursor'', quote_string True (cp_NextCursor page)),
      (''hasMore'', if cp_HasMore page then ''true'' else ''false'')]"

definition cursorAdvanced :: "syncCursor \<Rightarrow> cursorPosition \<Rightarrow> bool" where
  "cursorAdvanced base position =
     (if cu_kind base = cursorKindBootstrapPage then po_key position \<noteq> [] \<and> cu_afterKey base < po_key position
      else if cu_kind base = cursorKindDeltaPage then cu_afterSeq base < po_seq position
      else False)"

definition nextToken :: "convConfig \<Rightarrow> syncCursor \<Rightarrow> cursorPosition \<Rightarrow> bool \<Rightarrow> nat \<Rightarrow> (convCode, syncCursor) result" where
  "nextToken config base position moreToCome now =
     (if moreToCome then
        if \<not> isPage base then Inl ConvStorageUnavailable
        else Inr (base\<lparr>cu_keyID := cf_ActiveKeyID config, cu_afterKey := po_key position, cu_afterSeq := po_seq position\<rparr>)
      else
        bindR (addSeconds now checkpointLifetime) (\<lambda>expires.
          Inr \<lparr>cu_kind = cursorKindCheckpoint, cu_keyID = cf_ActiveKeyID config, cu_account = cu_account base, cu_epoch = cu_epoch base,
               cu_issued = now, cu_expires = expires, cu_limit = cu_limit base, cu_fence = cu_fence base, cu_afterSeq = 0,
               cu_afterKey = [], cu_terminalKey = []\<rparr>))"

definition renderPage :: "convConfig \<Rightarrow> syncCursor \<Rightarrow> itemEnvelope list \<Rightarrow> cursorPosition \<Rightarrow> bool \<Rightarrow> nat \<Rightarrow> (convCode, convPage) result" where
  "renderPage config base entries position moreToCome now =
     bindR (nextToken config base position moreToCome now) (\<lambda>token.
     bindR (encodeCursor (cf_Keys config) token) (\<lambda>next_cursor.
       let page = \<lparr>cp_Items = map en_item entries, cp_NextCursor = next_cursor, cp_HasMore = moreToCome\<rparr> in
       if MaxConvResponseBytes < length (pageText page) then Inl ConvLimitExceeded else Inr page))"

fun render_loop ::
  "convConfig \<Rightarrow> syncCursor \<Rightarrow> itemEnvelope list \<Rightarrow> cursorPosition \<Rightarrow> bool \<Rightarrow> nat \<Rightarrow> nat \<Rightarrow> (convCode, convPage) result" where
  "render_loop config base entries final hasMore now keep =
     (let position = (if keep < length entries then en_before (entries ! keep) else final);
          moreToCome = (hasMore \<or> keep < length entries);
          shorter = (if keep = 0 \<or> keep = 1 \<and> entries \<noteq> [] then Inl ConvLimitExceeded
                     else render_loop config base entries final hasMore now (keep - 1))
      in if moreToCome \<and> \<not> cursorAdvanced base position then shorter
         else (case renderPage config base (take keep entries) position moreToCome now of
             Inr page \<Rightarrow> Inr page
           | Inl e \<Rightarrow> if e \<noteq> ConvLimitExceeded then Inl e else shorter))"

declare render_loop.simps [simp del]

definition renderAssembledPage ::
  "convConfig \<Rightarrow> syncCursor \<Rightarrow> itemEnvelope list \<Rightarrow> cursorPosition \<Rightarrow> bool \<Rightarrow> nat \<Rightarrow> (convCode, convPage) result" where
  "renderAssembledPage config base entries final hasMore now = render_loop config base entries final hasMore now (length entries)"

section \<open>The four operations\<close>

definition readStore :: "goContext \<Rightarrow> dbEnv \<Rightarrow> convdb \<Rightarrow> bytes \<Rightarrow> convRequest \<Rightarrow> (convCode, convResult) result" where
  "readStore ctx env db user request = (if ctx = None then Inl ConvStorageUnavailable else Conv_Read env db user request)"

definition BeginBootstrap :: "convConfig \<Rightarrow> goContext \<Rightarrow> dbEnv \<Rightarrow> instant \<Rightarrow> convdb \<Rightarrow> bytes \<Rightarrow> int \<Rightarrow> (convCode, convPage) result" where
  "BeginBootstrap config ctx env clock db user limit =
     (if \<not> validIdentifier user then Inl ConvForbidden
      else
        bindR (normalizePageLimit limit) (\<lambda>pageLimit.
        bindR (currentUnix clock) (\<lambda>now.
        bindR (addSeconds now bootstrapRoundLifetime) (\<lambda>roundExpires.
        bindR (readStore ctx env db user \<lparr>cr_Kind = BootstrapRead, cr_Start = True, cr_Epoch = 0, cr_Fence = 0, cr_AfterSeq = 0,
            cr_AfterKey = [], cr_TerminalKey = [], cr_Limit = pageLimit\<rparr>) (\<lambda>result.
        bindR (validateCommonReadResult result) (\<lambda>_.
          if cs_Fence result \<noteq> cs_Head result then Inl ConvStorageUnavailable
          else
            bindR (validateBootstrapCandidates result [] (cs_TerminalKey result)) (\<lambda>_.
              let base = \<lparr>cu_kind = cursorKindBootstrapPage, cu_keyID = cf_ActiveKeyID config, cu_account = user,
                    cu_epoch = cs_Epoch result, cu_issued = now, cu_expires = roundExpires, cu_limit = pageLimit,
                    cu_fence = cs_Fence result, cu_afterSeq = 0, cu_afterKey = [], cu_terminalKey = cs_TerminalKey result\<rparr>
              in bindR (assembleBootstrap result base) (\<lambda>(entries, position, hasMore).
                renderAssembledPage config base entries position hasMore now))))))))"

definition ContinueBootstrap :: "convConfig \<Rightarrow> goContext \<Rightarrow> dbEnv \<Rightarrow> instant \<Rightarrow> convdb \<Rightarrow> bytes \<Rightarrow> bytes \<Rightarrow> (convCode, convPage) result" where
  "ContinueBootstrap config ctx env clock db user cursor =
     (if \<not> validIdentifier user then Inl ConvForbidden
      else
        bindR (currentUnix clock) (\<lambda>now.
        bindR (decodeCursor (cf_Keys config) cursor cursorKindBootstrapPage user now) (\<lambda>token.
        bindR (readStore ctx env db user \<lparr>cr_Kind = BootstrapRead, cr_Start = False, cr_Epoch = cu_epoch token, cr_Fence = cu_fence token,
            cr_AfterSeq = 0, cr_AfterKey = cu_afterKey token, cr_TerminalKey = cu_terminalKey token, cr_Limit = cu_limit token\<rparr>) (\<lambda>result.
        bindR (validateCommonReadResult result) (\<lambda>_.
          if cs_Epoch result \<noteq> cu_epoch token \<or> cu_fence token < cs_Floor result then Inl ConvCursorExpired
          else if cs_Fence result \<noteq> cu_fence token \<or> cs_Head result < cu_fence token \<or> cs_TerminalKey result \<noteq> cu_terminalKey token
          then Inl ConvStorageUnavailable
          else
            bindR (validateBootstrapCandidates result (cu_afterKey token) (cu_terminalKey token)) (\<lambda>_.
            bindR (assembleBootstrap result token) (\<lambda>(entries, position, hasMore).
              renderAssembledPage config token entries position hasMore now)))))))"

definition BeginDelta :: "convConfig \<Rightarrow> goContext \<Rightarrow> dbEnv \<Rightarrow> instant \<Rightarrow> convdb \<Rightarrow> bytes \<Rightarrow> bytes \<Rightarrow> int \<Rightarrow> (convCode, convPage) result" where
  "BeginDelta config ctx env clock db user checkpoint limit =
     (if \<not> validIdentifier user then Inl ConvForbidden
      else
        bindR (normalizePageLimit limit) (\<lambda>pageLimit.
        bindR (currentUnix clock) (\<lambda>now.
        bindR (decodeCursor (cf_Keys config) checkpoint cursorKindCheckpoint user now) (\<lambda>token.
        bindR (addSeconds now bootstrapRoundLifetime) (\<lambda>roundExpires.
        bindR (readStore ctx env db user \<lparr>cr_Kind = DeltaRead, cr_Start = True, cr_Epoch = cu_epoch token, cr_Fence = cu_fence token,
            cr_AfterSeq = cu_fence token, cr_AfterKey = [], cr_TerminalKey = [], cr_Limit = pageLimit\<rparr>) (\<lambda>result.
        bindR (validateCommonReadResult result) (\<lambda>_.
          if cs_Epoch result \<noteq> cu_epoch token \<or> cu_fence token < cs_Floor result \<or> cs_Head result < cu_fence token then Inl ConvCursorExpired
          else if cs_Fence result \<noteq> cs_Head result \<or> cs_Fence result < cu_fence token then Inl ConvStorageUnavailable
          else
            bindR (validateDeltaCandidates result (cu_fence token) (cs_Fence result) pageLimit) (\<lambda>_.
              let base = \<lparr>cu_kind = cursorKindDeltaPage, cu_keyID = cf_ActiveKeyID config, cu_account = user,
                    cu_epoch = cs_Epoch result, cu_issued = now, cu_expires = roundExpires, cu_limit = pageLimit,
                    cu_fence = cs_Fence result, cu_afterSeq = cu_fence token, cu_afterKey = [], cu_terminalKey = []\<rparr>
              in bindR (assembleDelta result base) (\<lambda>(entries, position, hasMore).
                renderAssembledPage config base entries position hasMore now)))))))))"

definition ContinueDelta :: "convConfig \<Rightarrow> goContext \<Rightarrow> dbEnv \<Rightarrow> instant \<Rightarrow> convdb \<Rightarrow> bytes \<Rightarrow> bytes \<Rightarrow> (convCode, convPage) result" where
  "ContinueDelta config ctx env clock db user cursor =
     (if \<not> validIdentifier user then Inl ConvForbidden
      else
        bindR (currentUnix clock) (\<lambda>now.
        bindR (decodeCursor (cf_Keys config) cursor cursorKindDeltaPage user now) (\<lambda>token.
        bindR (readStore ctx env db user \<lparr>cr_Kind = DeltaRead, cr_Start = False, cr_Epoch = cu_epoch token, cr_Fence = cu_fence token,
            cr_AfterSeq = cu_afterSeq token, cr_AfterKey = [], cr_TerminalKey = [], cr_Limit = cu_limit token\<rparr>) (\<lambda>result.
        bindR (validateCommonReadResult result) (\<lambda>_.
          if cs_Epoch result \<noteq> cu_epoch token \<or> cu_afterSeq token < cs_Floor result then Inl ConvCursorExpired
          else if cs_Fence result \<noteq> cu_fence token \<or> cs_Head result < cu_fence token then Inl ConvStorageUnavailable
          else
            bindR (validateDeltaCandidates result (cu_afterSeq token) (cu_fence token) (cu_limit token)) (\<lambda>_.
            bindR (assembleDelta result token) (\<lambda>(entries, position, hasMore).
              renderAssembledPage config token entries position hasMore now)))))))"

end
