(* ===== verification/MessageSync.thy ===== *)
theory MessageSync
  imports SendServiceFacts
begin

text \<open>
  Reading messages back: \<^verbatim>\<open>server/sync/message\<close> (\<^verbatim>\<open>types.go\<close>, \<^verbatim>\<open>service.go\<close>) over the repository of
  \<^verbatim>\<open>server/storage/messagesync/repository.go\<close>, on the tables the send path writes.
\<close>

section \<open>Types\<close>

datatype syncCode = SyncForbidden | SyncInvalidCursor | SyncLimitExceeded | SyncStorageUnavailable

definition DefaultPageItems :: int where "DefaultPageItems = 100"
definition MaxPageItems :: int where "MaxPageItems = 100"
definition MaxResponseBytes :: nat where "MaxResponseBytes = 262144"
definition pageOverhead :: nat where "pageOverhead = 64"
definition itemOverhead :: nat where "itemOverhead = 128"
definition MaxSequence :: int where "MaxSequence = 9223372036854775807"

record ReadRequest =
  rq_ConversationID :: bytes
  rq_HasAfterSeq :: bool
  rq_AfterSeq :: int
  rq_Limit :: int

record Item =
  it_ServerMsgID :: bytes
  it_ClientMsgID :: bytes
  it_SenderID :: bytes
  it_ConversationID :: bytes
  it_ConversationSeq :: int
  it_ProtocolVersion :: u32
  it_SchemaVersion :: u32
  it_MessageType :: bytes
  it_ServerTime :: int
  it_Payload :: bytes

record Page =
  pg_Items :: "Item list"
  pg_LatestSeq :: int
  pg_HasNext :: bool
  pg_NextAfterSeq :: "int option"

record ReadResult =
  rr_LatestSeq :: int
  rr_Limit :: int
  rr_Rows :: "Item list"

section \<open>The repository\<close>

text \<open>
  One read-only snapshot. Statements are counted in the order of the source: 0 the check of the transaction's settings,
  1 the head, 2 and 3 its edges, 4 the anchor, 5 the rows.
\<close>

definition readHead :: "dbEnv \<Rightarrow> msgdb \<Rightarrow> bytes \<Rightarrow> bytes \<Rightarrow> (syncCode, int \<times> bytes option \<times> int option) result" where
  "readHead env db user conv =
     (if env_stmt env 1 then Inl SyncStorageUnavailable
      else case map_of (db_convs db) conv of
        None \<Rightarrow> Inl SyncForbidden
      | Some c \<Rightarrow>
          if (conv, user) \<notin> set (db_members db) then Inl SyncForbidden
          else if cv_last c < 0 then Inl SyncStorageUnavailable
          else Inr (cv_last c, cv_latest c, (case cv_latest c of
              None \<Rightarrow> None
            | Some server \<Rightarrow> map_option sr_ConversationSeq
                (find (\<lambda>m. sr_ConversationID m = conv \<and> sr_ServerMsgID m = server) (db_messages db)))))"

text \<open>\<^verbatim>\<open>ORDER BY conversation_seq\<close> over the rows of a conversation.\<close>

definition orderedRows :: "msgdb \<Rightarrow> bytes \<Rightarrow> storedRow list" where
  "orderedRows db conv = sort_key sr_ConversationSeq (inConv conv (db_messages db))"

definition edgeSequence :: "dbEnv \<Rightarrow> nat \<Rightarrow> msgdb \<Rightarrow> bytes \<Rightarrow> bool \<Rightarrow> (syncCode, int option) result" where
  "edgeSequence env n db conv descending =
     (if env_stmt env n then Inl SyncStorageUnavailable
      else case (if descending then rev (orderedRows db conv) else orderedRows db conv) of
        [] \<Rightarrow> Inr None
      | row # _ \<Rightarrow> if sr_ConversationSeq row < 0 then Inl SyncStorageUnavailable else Inr (Some (sr_ConversationSeq row)))"

definition validateHead :: "dbEnv \<Rightarrow> msgdb \<Rightarrow> bytes \<Rightarrow> int \<Rightarrow> bytes option \<Rightarrow> int option \<Rightarrow> (syncCode, unit) result" where
  "validateHead env db conv latestSeq latestID pointerSeq =
     (if latestSeq = 0 \<and> (latestID \<noteq> None \<or> pointerSeq \<noteq> None) then Inl SyncStorageUnavailable
      else if latestSeq \<noteq> 0 \<and> (latestID = None \<or> pointerSeq \<noteq> Some latestSeq) then Inl SyncStorageUnavailable
      else
        bindR (edgeSequence env 2 db conv False) (\<lambda>minSeq.
        bindR (edgeSequence env 3 db conv True) (\<lambda>maxSeq.
          if latestSeq = 0 then
            if minSeq \<noteq> None \<or> maxSeq \<noteq> None then Inl SyncStorageUnavailable else Inr ()
          else if minSeq \<noteq> Some 1 \<or> maxSeq \<noteq> Some latestSeq then Inl SyncStorageUnavailable
          else Inr ())))"

definition anchorPresent :: "dbEnv \<Rightarrow> msgdb \<Rightarrow> bytes \<Rightarrow> int \<Rightarrow> (syncCode, bool) result" where
  "anchorPresent env db conv seq =
     (if env_stmt env 4 then Inl SyncStorageUnavailable
      else Inr (list_ex (\<lambda>m. sr_ConversationID m = conv \<and> sr_ConversationSeq m = seq) (db_messages db)))"

definition normalizeLimit :: "int \<Rightarrow> (syncCode, int) result" where
  "normalizeLimit limit =
     (if limit = 0 then Inr DefaultPageItems
      else if limit < 1 \<or> MaxPageItems < limit then Inl SyncLimitExceeded
      else Inr limit)"

definition itemOf :: "storedRow \<Rightarrow> Item" where
  "itemOf m = \<lparr>it_ServerMsgID = sr_ServerMsgID m, it_ClientMsgID = sr_ClientMsgID m, it_SenderID = sr_SenderID m,
     it_ConversationID = sr_ConversationID m, it_ConversationSeq = sr_ConversationSeq m,
     it_ProtocolVersion = word_of_int (sr_ProtocolVersion m), it_SchemaVersion = word_of_int (sr_SchemaVersion m),
     it_MessageType = sr_MessageType m, it_ServerTime = sr_ServerTime m, it_Payload = sr_Payload m\<rparr>"

fun scanRows :: "storedRow list \<Rightarrow> (syncCode, Item list) result" where
  "scanRows [] = Inr []"
| "scanRows (row # rows) =
     (if sr_ProtocolVersion row \<le> 0 \<or> sr_SchemaVersion row \<le> 0 \<or> sr_ConversationSeq row < 0 then Inl SyncStorageUnavailable
      else bindR (scanRows rows) (\<lambda>items. Inr (itemOf row # items)))"

definition readRows :: "dbEnv \<Rightarrow> msgdb \<Rightarrow> bytes \<Rightarrow> int \<Rightarrow> int \<Rightarrow> int \<Rightarrow> (syncCode, Item list) result" where
  "readRows env db conv lower upper limit =
     (if env_stmt env 5 then Inl SyncStorageUnavailable
      else scanRows (take (nat limit)
        (filter (\<lambda>m. lower < sr_ConversationSeq m \<and> sr_ConversationSeq m \<le> upper) (orderedRows db conv))))"

definition Sync_Read :: "goContext \<Rightarrow> dbEnv \<Rightarrow> msgdb \<Rightarrow> bytes \<Rightarrow> ReadRequest \<Rightarrow> (syncCode, ReadResult) result" where
  "Sync_Read ctx env db user request =
     (if \<not> validIdentifier user \<or> \<not> validIdentifier (rq_ConversationID request) then Inl SyncForbidden
      else if ctx = None then Inl SyncStorageUnavailable
      else if env_begin env then Inl SyncStorageUnavailable
      else if env_stmt env 0 then Inl SyncStorageUnavailable
      else
        bindR (readHead env db user (rq_ConversationID request)) (\<lambda>(latestSeq, latestID, pointerSeq).
        bindR (validateHead env db (rq_ConversationID request) latestSeq latestID pointerSeq) (\<lambda>_.
        bindR (if rq_HasAfterSeq request \<and> 0 < rq_AfterSeq request
               then anchorPresent env db (rq_ConversationID request) (rq_AfterSeq request) else Inr True) (\<lambda>present.
          if \<not> present then Inl SyncInvalidCursor
          else if \<not> rq_HasAfterSeq request \<and> rq_AfterSeq request \<noteq> 0 \<or> rq_AfterSeq request < 0 \<or> latestSeq < rq_AfterSeq request
          then Inl SyncInvalidCursor
          else
            bindR (normalizeLimit (rq_Limit request)) (\<lambda>limit.
            bindR (readRows env db (rq_ConversationID request) (if rq_HasAfterSeq request then rq_AfterSeq request else -1)
                latestSeq (limit + 1)) (\<lambda>rows.
              if env_commit env \<noteq> Committed then Inl SyncStorageUnavailable
              else Inr \<lparr>rr_LatestSeq = latestSeq, rr_Limit = limit, rr_Rows = rows\<rparr>))))))"

section \<open>The service\<close>

definition Sync_NewService :: "bool \<Rightarrow> int \<Rightarrow> (syncCode, int) result" where
  "Sync_NewService hasStore requestTimeout =
     (if \<not> hasStore then Inl SyncStorageUnavailable
      else
        let timeout = (if requestTimeout = 0 then 5 * second else requestTimeout) in
        if timeout < millisecond \<or> 5 * second < timeout then Inl SyncStorageUnavailable else Inr timeout)"

definition itemCost :: "Item \<Rightarrow> nat" where
  "itemCost item = length (it_Payload item) + length (it_ServerMsgID item) + length (it_ClientMsgID item) +
     length (it_SenderID item) + length (it_ConversationID item) + length (it_MessageType item) + itemOverhead"

definition messageType :: "bytes \<Rightarrow> bool" where
  "messageType value =
     (if length value = 0 \<or> 64 < length value \<or> hd value < CHR ''a'' \<or> CHR ''z'' < hd value then False
      else list_all (\<lambda>c. is_lower c \<or> is_digit c \<or> c = CHR ''_'') (drop 1 value))"

definition rowInvalid :: "ReadRequest \<Rightarrow> int \<Rightarrow> Item \<Rightarrow> bool" where
  "rowInvalid request latest row \<longleftrightarrow>
     it_ConversationID row \<noteq> rq_ConversationID request \<or> \<not> validIdentifier (it_ServerMsgID row) \<or>
     \<not> validIdentifier (it_ClientMsgID row) \<or> \<not> validIdentifier (it_SenderID row) \<or> \<not> validIdentifier (it_ConversationID row) \<or>
     it_ConversationSeq row \<le> rq_AfterSeq request \<or> latest < it_ConversationSeq row \<or>
     it_ProtocolVersion row = 0 \<or> 2147483647 < it_ProtocolVersion row \<or> it_SchemaVersion row = 0 \<or> 2147483647 < it_SchemaVersion row \<or>
     \<not> messageType (it_MessageType row) \<or> it_ServerTime row < 0 \<or> length (it_Payload row) < 2 \<or> 65536 < length (it_Payload row)"

text \<open>The loop of \<^verbatim>\<open>validateRows\<close> with the sequence of the row before.\<close>

fun validate_loop :: "ReadRequest \<Rightarrow> int \<Rightarrow> int option \<Rightarrow> Item list \<Rightarrow> bool" where
  "validate_loop request latest previous [] = True"
| "validate_loop request latest previous (row # rows) =
     (if rowInvalid request latest row then False
      else if (case previous of None \<Rightarrow> False | Some p \<Rightarrow> it_ConversationSeq row \<noteq> wrap64 (p + 1)) then False
      else validate_loop request latest (Some (it_ConversationSeq row)) rows)"

definition validateRows :: "ReadRequest \<Rightarrow> ReadResult \<Rightarrow> (syncCode, unit) result" where
  "validateRows request result =
     (case rr_Rows result of
        [] \<Rightarrow>
          if \<not> rq_HasAfterSeq request then (if rr_LatestSeq result \<noteq> 0 then Inl SyncStorageUnavailable else Inr ())
          else if rq_AfterSeq request = rr_LatestSeq result then Inr ()
          else Inl SyncStorageUnavailable
      | row # rows \<Rightarrow>
          if \<not> validate_loop request (rr_LatestSeq result) None (row # rows) then Inl SyncStorageUnavailable
          else if rq_HasAfterSeq request \<and> 0 < rq_AfterSeq request then
            if rq_AfterSeq request = MaxSequence then Inl SyncStorageUnavailable
            else if it_ConversationSeq row \<noteq> rq_AfterSeq request + 1 then Inl SyncStorageUnavailable
            else Inr ()
          else if it_ConversationSeq row \<noteq> 1 then Inl SyncStorageUnavailable
          else Inr ())"

text \<open>The packing loop: how many rows fit; the flag says that it stopped early.\<close>

fun pack_loop :: "nat \<Rightarrow> Item list \<Rightarrow> Item list \<Rightarrow> (syncCode, Item list \<times> bool) result" where
  "pack_loop used items [] = Inr (items, False)"
| "pack_loop used items (row # rows) =
     (if MaxResponseBytes < used + itemCost row then
        if items = [] then Inl SyncLimitExceeded else Inr (items, True)
      else pack_loop (used + itemCost row) (items @ [row]) rows)"

definition assemble :: "ReadRequest \<Rightarrow> ReadResult \<Rightarrow> (syncCode, Page) result" where
  "assemble request result =
     (if rr_LatestSeq result < 0 \<or> MaxSequence < rr_LatestSeq result \<or> rr_Limit result < 1 \<or> MaxPageItems < rr_Limit result \<or>
        rr_Limit result + 1 < int (length (rr_Rows result)) then Inl SyncStorageUnavailable
      else if \<not> rq_HasAfterSeq request \<and> rq_AfterSeq request \<noteq> 0 then Inl SyncInvalidCursor
      else if rq_HasAfterSeq request \<and> (rq_AfterSeq request < 0 \<or> rr_LatestSeq result < rq_AfterSeq request) then Inl SyncInvalidCursor
      else
        bindR (validateRows request result) (\<lambda>_.
          let more = rr_Limit result < int (length (rr_Rows result));
              rows = (if more then take (nat (rr_Limit result)) (rr_Rows result) else rr_Rows result)
          in bindR (pack_loop pageOverhead [] rows) (\<lambda>(items, stopped).
            let hasNext = (more \<or> stopped \<or> length items < length rows \<and> items \<noteq> []) in
            Inr \<lparr>pg_Items = items, pg_LatestSeq = rr_LatestSeq result, pg_HasNext = hasNext,
                 pg_NextAfterSeq = (if items \<noteq> [] then Some (it_ConversationSeq (last items)) else None)\<rparr>)))"

definition ReadAfterSeq :: "goContext \<Rightarrow> dbEnv \<Rightarrow> msgdb \<Rightarrow> ConnectionIdentity \<Rightarrow> ReadRequest \<Rightarrow> (syncCode, Page) result" where
  "ReadAfterSeq ctx env db identity request =
     (if \<not> validIdentity identity \<or> \<not> validIdentifier (rq_ConversationID request) then Inl SyncForbidden
      else if ctx = None then Inl SyncStorageUnavailable
      else bindR (Sync_Read ctx env db (ci_userID identity) request) (assemble request))"

end
