(* ===== verification/MessageSyncFacts.thy ===== *)
theory MessageSyncFacts
  imports MessageSync "HOL-Library.Multiset"
begin

text \<open>
  What paging returns: on tables the send path has written, every page is the next piece of the conversation's history,
  and paging to the end yields all of it, also while messages arrive.
\<close>

section \<open>The history of a conversation\<close>

definition history :: "msgdb \<Rightarrow> bytes \<Rightarrow> storedRow list" where
  "history db conv = rev (inConv conv (db_messages db))"

lemma msgInv_conv: "msgInv db \<Longrightarrow> map_of (db_convs db) conv = Some c \<Longrightarrow> convOK (db_messages db) conv c"
  by (auto simp: msgInv_def list_all_iff dest: map_of_SomeD)

lemma msgInv_row: "msgInv db \<Longrightarrow> m \<in> set (history db conv) \<Longrightarrow> messageRowChecks m \<and> sr_ConversationID m = conv"
  by (auto simp: msgInv_def list_all_iff history_def inConv_def messageOK_def)

lemma history_seqs:
  assumes "convOK (db_messages db) conv c"
  shows "map sr_ConversationSeq (history db conv) = [1..cv_last c]" "int (length (history db conv)) = cv_last c" "0 \<le> cv_last c"
    "cv_last c \<le> MaxSequence"
proof -
  show m: "map sr_ConversationSeq (history db conv) = [1..cv_last c]"
    using assms by (simp add: convOK_def history_def rev_map [symmetric])
  show "0 \<le> cv_last c" "cv_last c \<le> MaxSequence" using assms by (simp_all add: convOK_def MaxSequence_def)
  then show "int (length (history db conv)) = cv_last c" using arg_cong [OF m, of length] by simp
qed

lemma history_nth:
  assumes "convOK (db_messages db) conv c" "i < length (history db conv)"
  shows "sr_ConversationSeq (history db conv ! i) = int i + 1"
proof -
  have "map sr_ConversationSeq (history db conv) ! i = [1..cv_last c] ! i" by (simp only: history_seqs(1) [OF assms(1)])
  then show ?thesis using assms(2) history_seqs(2) [OF assms(1)] by (simp add: nth_upto)
qed

lemma orderedRows_history:
  assumes "convOK (db_messages db) conv c"
  shows "orderedRows db conv = history db conv"
  unfolding orderedRows_def
proof (rule sort_key_inj_key_eq)
  have "distinct (map sr_ConversationSeq (history db conv))" by (simp add: history_seqs(1) [OF assms])
  then show "inj_on sr_ConversationSeq (set (inConv conv (db_messages db)))" by (simp add: distinct_map history_def)
  show "sorted (map sr_ConversationSeq (history db conv))" by (simp add: history_seqs(1) [OF assms])
qed (simp add: history_def)

lemma history_after:
  assumes "convOK (db_messages db) conv c" "0 \<le> a" "lower = a \<or> a = 0 \<and> lower = -1"
  shows "filter (\<lambda>m. lower < sr_ConversationSeq m \<and> sr_ConversationSeq m \<le> cv_last c) (history db conv) = drop (nat a) (history db conv)"
proof -
  let ?h = "history db conv" and ?P = "\<lambda>m. lower < sr_ConversationSeq m \<and> sr_ConversationSeq m \<le> cv_last c"
  have nth: "sr_ConversationSeq (?h ! i) = int i + 1" if "i < length ?h" for i using history_nth [OF assms(1) that] .
  have no: "filter ?P (take (nat a) ?h) = []"
  proof (rule filter_False, rule ballI)
    fix m assume "m \<in> set (take (nat a) ?h)"
    then obtain i where "i < nat a" "i < length ?h" "m = ?h ! i" by (auto simp: in_set_conv_nth)
    then show "\<not> ?P m" using nth [of i] assms(3) by auto
  qed
  have yes: "filter ?P (drop (nat a) ?h) = drop (nat a) ?h"
  proof (rule filter_True, rule ballI)
    fix m assume "m \<in> set (drop (nat a) ?h)"
    then obtain j where "j < length ?h - nat a" "m = ?h ! (nat a + j)" by (auto simp: in_set_conv_nth)
    then have i: "nat a + j < length ?h" "m = ?h ! (nat a + j)" by linarith+
    then show "?P m" using nth [OF i(1)] history_seqs(2) [OF assms(1)] assms(2,3) by auto
  qed
  have "filter ?P ?h = filter ?P (take (nat a) ?h) @ filter ?P (drop (nat a) ?h)" by (metis append_take_drop_id filter_append)
  then show ?thesis using no yes by simp
qed

section \<open>One page\<close>

lemma scanRows_ok: "(\<And>m. m \<in> set rows \<Longrightarrow> messageRowChecks m) \<Longrightarrow> scanRows rows = Inr (map itemOf rows)"
proof (induction rows)
  case (Cons m rows)
  have "messageRowChecks m" using Cons(2) by simp
  then have "\<not> (sr_ProtocolVersion m \<le> 0 \<or> sr_SchemaVersion m \<le> 0 \<or> sr_ConversationSeq m < 0)" by (auto simp: messageRowChecks_def)
  then show ?case using Cons by simp
qed simp

lemma messageType_domain: "messageTypeDomain t \<Longrightarrow> messageType t"
  by (cases t) (auto simp: messageTypeDomain_def messageType_def is_lower_def)

lemma word_small: "0 \<le> n \<Longrightarrow> n \<le> 2147483647 \<Longrightarrow> uint (word_of_int n :: u32) = n"
  by (simp add: uint_word_of_int)

lemma row_valid:
  assumes "messageRowChecks m" "sr_ConversationID m = rq_ConversationID request" "rq_AfterSeq request < sr_ConversationSeq m"
    "sr_ConversationSeq m \<le> latest"
  shows "\<not> rowInvalid request latest (itemOf m)"
proof -
  have s: "uint (word_of_int (sr_SchemaVersion m) :: u32) = sr_SchemaVersion m" "0 < sr_SchemaVersion m" "sr_SchemaVersion m \<le> 2147483647"
    using assms(1) by (simp_all add: messageRowChecks_def word_small)
  have "(word_of_int (sr_SchemaVersion m) :: u32) \<noteq> 0" "\<not> 2147483647 < (word_of_int (sr_SchemaVersion m) :: u32)"
    using s by (simp_all add: word_less_def word_uint_eq_iff)
  then show ?thesis
    using assms by (auto simp: rowInvalid_def itemOf_def messageRowChecks_def messageType_domain word_less_def)
qed

lemma validate_loop_history:
  assumes "\<And>m. m \<in> set rows \<Longrightarrow> \<not> rowInvalid request latest (itemOf m)" "map sr_ConversationSeq rows = [b..e]" "e \<le> MaxSequence"
    "previous = None \<or> previous = Some (b - 1)" "0 < b"
  shows "validate_loop request latest previous (map itemOf rows)"
  using assms
proof (induction rows arbitrary: b previous)
  case (Cons m rows)
  have be: "b \<le> e" using Cons(3) by (auto simp: upto_rec1 split: if_splits) (metis list.distinct(1) not_le upto_empty)
  have s: "sr_ConversationSeq m = b" "map sr_ConversationSeq rows = [b + 1..e]" using Cons(3) be by (simp_all add: upto_rec1)
  have q: "it_ConversationSeq (itemOf m) = b" "\<not> rowInvalid request latest (itemOf m)" using s(1) Cons(2) [of m] by (simp add: itemOf_def, simp)
  have "wrap64 b = b" using Cons(4,6) be by (intro wrap64_id) (simp add: int64_def MaxSequence_def)
  then have "\<not> (case previous of None \<Rightarrow> False | Some p \<Rightarrow> it_ConversationSeq (itemOf m) \<noteq> wrap64 (p + 1))"
    using Cons(5) q by auto
  moreover have "validate_loop request latest (Some b) (map itemOf rows)"
    using Cons.IH [of "b + 1" "Some b"] Cons.prems s(2) by simp
  ultimately show ?case using q by simp
qed simp

text \<open>The packing loop takes the longest prefix within the budget; one row always fits.\<close>

definition pageCost :: "Item list \<Rightarrow> nat" where
  "pageCost items = pageOverhead + sum_list (map itemCost items)"

lemma itemCost_bound: "messageRowChecks m \<Longrightarrow> itemCost (itemOf m) \<le> 66304"
  by (auto simp: itemCost_def itemOf_def itemOverhead_def messageRowChecks_def messageTypeDomain_def ident128_def)

lemma pack_loop_packs:
  assumes "\<And>r. r \<in> set rows \<Longrightarrow> itemCost r \<le> 66304" "used = pageCost items" "items = [] \<or> used \<le> MaxResponseBytes"
  shows "\<exists>k \<le> length rows. pack_loop used items rows = Inr (items @ take k rows, k < length rows) \<and>
    (rows \<noteq> [] \<and> items = [] \<longrightarrow> 0 < k) \<and> (0 < k \<longrightarrow> pageCost (items @ take k rows) \<le> MaxResponseBytes) \<and>
    (k < length rows \<longrightarrow> MaxResponseBytes < pageCost (items @ take (Suc k) rows))"
  using assms
proof (induction rows arbitrary: used items)
  case (Cons r rows)
  have c: "used + itemCost r = pageCost (items @ [r])" by (simp add: Cons(3) pageCost_def)
  show ?case
  proof (cases "MaxResponseBytes < used + itemCost r")
    case True
    have "itemCost r \<le> 66304" using Cons(2) by simp
    then have "items \<noteq> []" using True Cons(3) by (auto simp: MaxResponseBytes_def pageCost_def pageOverhead_def)
    then show ?thesis using True c by (intro exI [of _ 0]) simp
  next
    case False
    obtain k where "k \<le> length rows \<and> pack_loop (used + itemCost r) (items @ [r]) rows = Inr ((items @ [r]) @ take k rows, k < length rows) \<and>
      (0 < k \<longrightarrow> pageCost ((items @ [r]) @ take k rows) \<le> MaxResponseBytes) \<and>
      (k < length rows \<longrightarrow> MaxResponseBytes < pageCost ((items @ [r]) @ take (Suc k) rows))"
      using Cons.IH [of "used + itemCost r" "items @ [r]"] Cons(2) False c by auto
    then show ?thesis using False c by (intro exI [of _ "Suc k"]) (cases "k = 0"; auto)
  qed
qed simp

definition effectiveLimit :: "int \<Rightarrow> nat" where
  "effectiveLimit limit = (if limit = 0 then 100 else nat limit)"

definition requestAfter :: "bytes \<Rightarrow> bool \<Rightarrow> int \<Rightarrow> int \<Rightarrow> ReadRequest" where
  "requestAfter conv has a limit = \<lparr>rq_ConversationID = conv, rq_HasAfterSeq = has, rq_AfterSeq = a, rq_Limit = limit\<rparr>"

lemma find_unique: "x \<in> set xs \<Longrightarrow> (\<And>y. y \<in> set xs \<Longrightarrow> P y \<longleftrightarrow> y = x) \<Longrightarrow> find P xs = Some x"
  by (induction xs) auto

lemma head_valid:
  assumes "msgInv db" "map_of (db_convs db) conv = Some c" "(conv, user) \<in> set (db_members db)"
  shows "\<exists>p. readHead goodEnv db user conv = Inr (cv_last c, cv_latest c, p) \<and>
    validateHead goodEnv db conv (cv_last c) (cv_latest c) p = Inr ()"
proof -
  note ok = msgInv_conv [OF assms(1,2)]
  note h = history_seqs [OF ok] and o = orderedRows_history [OF ok]
  show ?thesis
  proof (cases "inConv conv (db_messages db)")
    case Nil
    then have "cv_last c = 0" "cv_latest c = None" "history db conv = []"
      using h(2) ok by (simp_all add: history_def convOK_def)
    then show ?thesis using assms(2,3) by (simp add: readHead_def validateHead_def edgeSequence_def o)
  next
    case (Cons m ms)
    have l: "cv_latest c = Some (sr_ServerMsgID m)" using ok Cons by (simp add: convOK_def)
    have hl: "history db conv = rev ms @ [m]" by (simp add: history_def Cons)
    have n: "0 < length (history db conv)" "last (history db conv) = m" "cv_last c \<noteq> 0" using h(2) by (simp_all add: hl)
    have q: "sr_ConversationSeq m = cv_last c" "sr_ConversationSeq (hd (history db conv)) = 1"
      using history_nth [OF ok, of "length ms"] history_nth [OF ok n(1)] h(2) n(1)
      by (simp_all add: hl nth_append hd_conv_nth)
    have "find (\<lambda>x. sr_ConversationID x = conv \<and> sr_ServerMsgID x = sr_ServerMsgID m) (db_messages db) = Some m"
    proof (rule find_unique)
      show m: "m \<in> set (db_messages db)" using Cons by (auto simp: inConv_def filter_eq_Cons_iff)
      have "sr_ConversationID m = conv" using Cons by (auto simp: inConv_def filter_eq_Cons_iff)
      then show "(sr_ConversationID x = conv \<and> sr_ServerMsgID x = sr_ServerMsgID m) \<longleftrightarrow> x = m" if "x \<in> set (db_messages db)" for x
        using m that assms(1) by (auto simp: msgInv_def distinct_map inj_on_def)
    qed
    moreover obtain x xs where hx: "history db conv = x # xs" using n(1) by (cases "history db conv") auto
    moreover have "edgeSequence goodEnv 2 db conv False = Inr (Some 1)" using q(2) by (simp add: edgeSequence_def o hx)
    moreover have "edgeSequence goodEnv 3 db conv True = Inr (Some (cv_last c))"
      using q(1) h(3) by (simp add: edgeSequence_def o hl)
    ultimately show ?thesis using assms(2,3) h(3) n(3) l q by (simp add: readHead_def validateHead_def)
  qed
qed

lemma drop_seqs:
  assumes "convOK (db_messages db) conv c" "0 \<le> a" "a \<le> cv_last c"
  shows "map sr_ConversationSeq (take n (drop (nat a) (history db conv))) = [a + 1..min (a + int n) (cv_last c)]"
proof (rule nth_equalityI)
  note h = history_seqs [OF assms(1)]
  show l: "length (map sr_ConversationSeq (take n (drop (nat a) (history db conv)))) = length [a + 1..min (a + int n) (cv_last c)]"
    using h(2) assms(2,3) by auto
  fix i assume "i < length (map sr_ConversationSeq (take n (drop (nat a) (history db conv))))"
  then show "map sr_ConversationSeq (take n (drop (nat a) (history db conv))) ! i = [a + 1..min (a + int n) (cv_last c)] ! i"
  proof -
    assume i: "i < length (map sr_ConversationSeq (take n (drop (nat a) (history db conv))))"
    then have j: "nat a + i < length (history db conv)" "i < n" "a + 1 + int i \<le> min (a + int n) (cv_last c)"
      using l assms(2) by auto
    have "map sr_ConversationSeq (take n (drop (nat a) (history db conv))) ! i = sr_ConversationSeq (history db conv ! (nat a + i))"
      using i j by simp
    then show ?thesis using history_nth [OF assms(1) j(1)] j(3) assms(2) by (simp add: nth_upto)
  qed
qed

lemma Sync_Read_page:
  assumes "msgInv db" "map_of (db_convs db) conv = Some c" "(conv, user) \<in> set (db_members db)" "ident128 user" "ident128 conv"
    "0 \<le> a" "a \<le> cv_last c" "0 \<le> limit" "limit \<le> 100" "has \<or> a = 0"
  shows "Sync_Read (Some x) goodEnv db user (requestAfter conv has a limit) = Inr \<lparr>rr_LatestSeq = cv_last c,
    rr_Limit = int (effectiveLimit limit), rr_Rows = map itemOf (take (Suc (effectiveLimit limit)) (drop (nat a) (history db conv)))\<rparr>"
proof -
  note ok = msgInv_conv [OF assms(1,2)]
  obtain p where p: "readHead goodEnv db user conv = Inr (cv_last c, cv_latest c, p)"
    "validateHead goodEnv db conv (cv_last c) (cv_latest c) p = Inr ()" using head_valid [OF assms(1-3)] by blast
  have an: "anchorPresent goodEnv db conv a = Inr True" if "0 < a"
  proof -
    have i: "nat a - 1 < length (history db conv)" using that assms(7) history_seqs(2) [OF ok] by simp
    have "history db conv ! (nat a - 1) \<in> set (db_messages db)" "sr_ConversationID (history db conv ! (nat a - 1)) = conv"
      using nth_mem [OF i] by (auto simp: history_def inConv_def)
    moreover have "sr_ConversationSeq (history db conv ! (nat a - 1)) = a" using history_nth [OF ok i] that by simp
    ultimately show ?thesis by (auto simp: anchorPresent_def list_ex_iff)
  qed
  have n: "normalizeLimit limit = Inr (int (effectiveLimit limit))"
    using assms(8,9) by (simp add: normalizeLimit_def effectiveLimit_def DefaultPageItems_def MaxPageItems_def)
  have "nat (int (effectiveLimit limit) + 1) = Suc (effectiveLimit limit)" by simp
  moreover have "scanRows (take k (drop (nat a) (history db conv))) = Inr (map itemOf (take k (drop (nat a) (history db conv))))" for k
    by (rule scanRows_ok) (meson msgInv_row [OF assms(1)] in_set_dropD in_set_takeD)
  ultimately have r: "readRows goodEnv db conv (if has then a else -1) (cv_last c) (int (effectiveLimit limit) + 1) =
      Inr (map itemOf (take (Suc (effectiveLimit limit)) (drop (nat a) (history db conv))))"
    using history_after [OF ok assms(6), of "if has then a else -1"] assms(10)
    by (auto simp: readRows_def orderedRows_history [OF ok])
  have "env_commit goodEnv = Committed" by (simp add: goodEnv_def)
  then show ?thesis
    using assms(4-7,10) p an n r by (cases has; cases "0 < a") (simp_all add: Sync_Read_def requestAfter_def)
qed

text \<open>What a correct page is: the longest piece of the history within the limit and the budget.\<close>

definition pageOf :: "msgdb \<Rightarrow> bytes \<Rightarrow> int \<Rightarrow> nat \<Rightarrow> Page" where
  "pageOf db conv a k = \<lparr>pg_Items = map itemOf (take k (drop (nat a) (history db conv))), pg_LatestSeq = int (length (history db conv)),
     pg_HasNext = (nat a + k < length (history db conv)), pg_NextAfterSeq = (if k = 0 then None else Some (a + int k))\<rparr>"

lemma validateRows_history:
  assumes "msgInv db" "map_of (db_convs db) conv = Some c" "0 \<le> a" "a \<le> cv_last c" "ident128 conv" "0 < n" "has \<or> a = 0"
  shows "validateRows (requestAfter conv has a limit) \<lparr>rr_LatestSeq = cv_last c, rr_Limit = l,
    rr_Rows = map itemOf (take n (drop (nat a) (history db conv)))\<rparr> = Inr ()"
proof (cases "take n (drop (nat a) (history db conv))")
  case Nil
  then have "a = cv_last c" using assms(3,4,6) history_seqs(2) [OF msgInv_conv [OF assms(1,2)]] by auto
  then show ?thesis using Nil assms(7) by (auto simp: validateRows_def requestAfter_def)
next
  case (Cons m ms)
  note ok = msgInv_conv [OF assms(1,2)]
  have s: "map sr_ConversationSeq (m # ms) = [a + 1..min (a + int n) (cv_last c)]" using drop_seqs [OF ok assms(3,4), of n] Cons by simp
  have ne: "a < min (a + int n) (cv_last c)"
    using arg_cong [OF s, of length] by simp linarith
  have rows: "\<not> rowInvalid (requestAfter conv has a limit) (cv_last c) (itemOf r)" if "r \<in> set (m # ms)" for r
  proof (rule row_valid)
    have "r \<in> set (history db conv)" using that Cons by (metis in_set_dropD in_set_takeD)
    then show "messageRowChecks r" "sr_ConversationID r = rq_ConversationID (requestAfter conv has a limit)"
      using msgInv_row [OF assms(1)] by (auto simp: requestAfter_def)
    have "sr_ConversationSeq r \<in> set [a + 1..min (a + int n) (cv_last c)]" using that s by (metis image_eqI set_map)
    then show "rq_AfterSeq (requestAfter conv has a limit) < sr_ConversationSeq r" "sr_ConversationSeq r \<le> cv_last c"
      by (simp_all add: requestAfter_def)
  qed
  have "validate_loop (requestAfter conv has a limit) (cv_last c) None (map itemOf (m # ms))"
    by (rule validate_loop_history [OF rows s]) (use assms(3) history_seqs(4) [OF ok] in auto)
  moreover have "sr_ConversationSeq m = a + 1" using s ne by (simp add: upto_rec1)
  ultimately show ?thesis
    using assms(3,7) ne history_seqs(4) [OF ok] by (auto simp: validateRows_def Cons requestAfter_def itemOf_def)
qed

lemma pack_history:
  assumes "msgInv db" "d = drop (nat a) (history db conv)"
  obtains k where "k \<le> length (take l d)" "pack_loop pageOverhead [] (map itemOf (take l d)) = Inr (map itemOf (take k d), k < length (take l d))"
    "take l d \<noteq> [] \<Longrightarrow> 0 < k" "0 < k \<Longrightarrow> pageCost (map itemOf (take k d)) \<le> MaxResponseBytes"
    "k < length (take l d) \<Longrightarrow> MaxResponseBytes < pageCost (map itemOf (take (Suc k) d))"
proof -
  have cost: "itemCost r \<le> 66304" if "r \<in> set (map itemOf (take l d))" for r
    using that itemCost_bound msgInv_row [OF assms(1)] by (auto simp: assms(2) dest!: in_set_takeD in_set_dropD)
  have p: "pageOverhead = pageCost []" by (simp add: pageCost_def)
  obtain k where k: "k \<le> length (take l d)" "pack_loop pageOverhead [] (map itemOf (take l d)) =
      Inr (take k (map itemOf (take l d)), k < length (take l d))" "take l d \<noteq> [] \<longrightarrow> 0 < k"
      "0 < k \<longrightarrow> pageCost (take k (map itemOf (take l d))) \<le> MaxResponseBytes"
      "k < length (take l d) \<longrightarrow> MaxResponseBytes < pageCost (take (Suc k) (map itemOf (take l d)))"
    using pack_loop_packs [of "map itemOf (take l d)", OF cost p] by fastforce
  have t: "take k (map itemOf (take l d)) = map itemOf (take k d)"
    "k < length (take l d) \<Longrightarrow> take (Suc k) (map itemOf (take l d)) = map itemOf (take (Suc k) d)"
    using k(1) by (auto simp: take_map min_def split: if_splits)
  show thesis using that [of k] k t by simp
qed

lemma last_seq:
  assumes "convOK (db_messages db) conv c" "0 \<le> a" "0 < k" "nat a + k \<le> length (history db conv)"
  shows "it_ConversationSeq (last (map itemOf (take k (drop (nat a) (history db conv))))) = a + int k"
proof -
  let ?d = "drop (nat a) (history db conv)"
  have l: "nat a + (k - 1) < length (history db conv)" "length (take k ?d) = k" "take k ?d \<noteq> []" using assms(3,4) by auto
  have "last (take k ?d) = history db conv ! (nat a + (k - 1))" using l assms(3) by (simp add: last_conv_nth)
  then show ?thesis using history_nth [OF assms(1) l(1)] l(3) assms(2,3) by (simp add: last_map itemOf_def)
qed

lemma assemble_history:
  assumes "msgInv db" "map_of (db_convs db) conv = Some c" "ident128 conv" "0 \<le> a" "a \<le> cv_last c" "0 < l" "l \<le> 100" "has \<or> a = 0"
    and k: "k \<le> length (take l (drop (nat a) (history db conv)))" "pack_loop pageOverhead [] (map itemOf (take l (drop (nat a) (history db conv)))) =
      Inr (map itemOf (take k (drop (nat a) (history db conv))), k < length (take l (drop (nat a) (history db conv))))"
  shows "assemble (requestAfter conv has a limit) \<lparr>rr_LatestSeq = cv_last c, rr_Limit = int l,
    rr_Rows = map itemOf (take (Suc l) (drop (nat a) (history db conv)))\<rparr> = Inr (pageOf db conv a k)"
proof -
  note ok = msgInv_conv [OF assms(1,2)]
  note h = history_seqs [OF ok]
  let ?d = "drop (nat a) (history db conv)"
  let ?r = "\<lparr>rr_LatestSeq = cv_last c, rr_Limit = int l, rr_Rows = map itemOf (take (Suc l) ?d)\<rparr>"
  have v: "validateRows (requestAfter conv has a limit) ?r = Inr ()"
    by (rule validateRows_history [OF assms(1,2,4,5,3) _ assms(8)]) simp
  have rows: "(if int l < int (length (map itemOf (take (Suc l) ?d))) then take (nat (int l)) (map itemOf (take (Suc l) ?d))
      else map itemOf (take (Suc l) ?d)) = map itemOf (take l ?d)" by (auto simp: take_map)
  have next_ok: "(if map itemOf (take k ?d) \<noteq> [] then Some (it_ConversationSeq (last (map itemOf (take k ?d)))) else None) =
      (if k = 0 then None else Some (a + int k))"
    using last_seq [OF ok assms(4), of k] k(1) by auto
  have has_next: "(int l < int (length (map itemOf (take (Suc l) ?d))) \<or> k < length (take l ?d) \<or>
      length (map itemOf (take k ?d)) < length (map itemOf (take l ?d)) \<and> map itemOf (take k ?d) \<noteq> []) \<longleftrightarrow> nat a + k < length (history db conv)"
    using k(1) by auto
  have guards: "(cv_last c < 0 \<or> MaxSequence < cv_last c \<or> int l < 1 \<or> MaxPageItems < int l \<or>
      int l + 1 < int (length (map itemOf (take (Suc l) ?d)))) = False"
    "(\<not> rq_HasAfterSeq (requestAfter conv has a limit) \<and> rq_AfterSeq (requestAfter conv has a limit) \<noteq> 0) = False"
    "(rq_HasAfterSeq (requestAfter conv has a limit) \<and>
      (rq_AfterSeq (requestAfter conv has a limit) < 0 \<or> cv_last c < rq_AfterSeq (requestAfter conv has a limit))) = False"
    using h(3,4) assms(4-8) by (auto simp: MaxPageItems_def requestAfter_def)
  show ?thesis
    unfolding assemble_def ReadResult.select_convs guards if_False v bindR_Inr Let_def rows k(2) prod.case next_ok has_next
    by (simp add: pageOf_def h(2))
qed

lemma read_page:
  assumes "msgInv db" "map_of (db_convs db) conv = Some c" "(conv, ci_userID identity) \<in> set (db_members db)" "validIdentity identity"
    "ident128 conv" "0 \<le> a" "a \<le> cv_last c" "0 \<le> limit" "limit \<le> 100" "has \<or> a = 0"
  shows "\<exists>k \<le> effectiveLimit limit. nat a + k \<le> length (history db conv) \<and>
    ReadAfterSeq (Some x) goodEnv db identity (requestAfter conv has a limit) = Inr (pageOf db conv a k) \<and>
    (nat a < length (history db conv) \<longrightarrow> 0 < k \<and> pageCost (pg_Items (pageOf db conv a k)) \<le> MaxResponseBytes) \<and>
    (k < effectiveLimit limit \<and> nat a + k < length (history db conv) \<longrightarrow> MaxResponseBytes < pageCost (pg_Items (pageOf db conv a (Suc k))))"
proof -
  let ?l = "effectiveLimit limit" and ?d = "drop (nat a) (history db conv)"
  have l: "0 < ?l" "?l \<le> 100" using assms(8,9) by (auto simp: effectiveLimit_def)
  have u: "ident128 (ci_userID identity)" using assms(4) by (auto simp: validIdentity_def split: if_splits)
  obtain k where k: "k \<le> length (take ?l ?d)" "pack_loop pageOverhead [] (map itemOf (take ?l ?d)) =
      Inr (map itemOf (take k ?d), k < length (take ?l ?d))" "take ?l ?d \<noteq> [] \<Longrightarrow> 0 < k"
    "0 < k \<Longrightarrow> pageCost (map itemOf (take k ?d)) \<le> MaxResponseBytes"
    "k < length (take ?l ?d) \<Longrightarrow> MaxResponseBytes < pageCost (map itemOf (take (Suc k) ?d))"
    using pack_history [OF assms(1) refl, of ?l a conv] by blast
  have "ReadAfterSeq (Some x) goodEnv db identity (requestAfter conv has a limit) = Inr (pageOf db conv a k)"
    using Sync_Read_page [OF assms(1-3) u assms(5-10), of x] assemble_history [OF assms(1,2,5-7) l assms(10) k(1,2)] assms(4,5)
    by (simp add: ReadAfterSeq_def) (simp add: requestAfter_def)
  moreover have "nat a \<le> length (history db conv)" using assms(7) history_seqs(2) [OF msgInv_conv [OF assms(1,2)]] by simp
  ultimately show ?thesis using k l by (intro exI [of _ k]) (auto simp: pageOf_def)
qed

section \<open>Catching up while messages arrive\<close>

text \<open>What a send leaves to the readers of a conversation: a longer history, the same members.\<close>

definition grows :: "bytes \<Rightarrow> bytes \<Rightarrow> msgdb \<Rightarrow> msgdb \<Rightarrow> bool" where
  "grows conv user db db' \<longleftrightarrow> (\<exists>new. history db' conv = history db conv @ new) \<and>
     (map_of (db_convs db) conv \<noteq> None \<longrightarrow> map_of (db_convs db') conv \<noteq> None) \<and> db_members db' = db_members db"

lemma grows_refl: "grows conv user db db"
  by (simp add: grows_def)

lemma grows_trans: "grows conv user a b \<Longrightarrow> grows conv user b c \<Longrightarrow> grows conv user a c"
  by (auto simp: grows_def)

lemma persist_message_grows:
  assumes "persist_message db u c conv' server ty schema time payload event = Inr (stored, db')"
  shows "grows conv user db db'"
  using assms by (cases rule: persist_message_cases) (auto simp: grows_def history_def inConv_def)

lemma send_step_grows: "send_step db db' \<Longrightarrow> grows conv user db db'"
proof (induction rule: send_step.induct)
  case (1 ctx env now validator newID identity request s db db1 r s' db2)
  then show ?case using Service_Send_state [OF 1] persist_message_grows grows_refl by blast
qed

lemma sends_grow: "send_step\<^sup>*\<^sup>* db db' \<Longrightarrow> grows conv user db db'"
  by (induction rule: rtranclp_induct) (auto intro: grows_refl grows_trans send_step_grows)

lemma runs_chain: "(\<And>i. R\<^sup>*\<^sup>* (f i) (f (Suc i))) \<Longrightarrow> i \<le> j \<Longrightarrow> R\<^sup>*\<^sup>* (f i) (f j)"
  by (induction j) (auto simp: le_Suc_eq intro: rtranclp_trans)

text \<open>A client pages from a sequence on, each page from the tables of its moment, until there is no next page.\<close>

fun catchUp :: "(nat \<Rightarrow> msgdb) \<Rightarrow> ConnectionIdentity \<Rightarrow> bytes \<Rightarrow> int \<Rightarrow> nat \<Rightarrow> nat \<Rightarrow> int \<Rightarrow> Item list option" where
  "catchUp dbs identity conv limit 0 i a = None"
| "catchUp dbs identity conv limit (Suc fuel) i a =
     (case ReadAfterSeq (Some False) goodEnv (dbs i) identity (requestAfter conv (0 < a) a limit) of
        Inl _ \<Rightarrow> None
      | Inr page \<Rightarrow>
          if \<not> pg_HasNext page then Some (pg_Items page)
          else (case pg_NextAfterSeq page of
              None \<Rightarrow> None
            | Some a' \<Rightarrow> map_option ((@) (pg_Items page)) (catchUp dbs identity conv limit fuel (Suc i) a')))"

definition readable :: "msgdb \<Rightarrow> ConnectionIdentity \<Rightarrow> bytes \<Rightarrow> bool" where
  "readable db identity conv \<longleftrightarrow> msgInv db \<and> map_of (db_convs db) conv \<noteq> None \<and> (conv, ci_userID identity) \<in> set (db_members db) \<and>
     validIdentity identity \<and> ident128 conv"

lemma readable_sends: "send_step\<^sup>*\<^sup>* db db' \<Longrightarrow> readable db identity conv \<Longrightarrow> readable db' identity conv"
  using send_runs.inv_runs sends_grow [of db db' conv "[]"] by (auto simp: readable_def grows_def)

lemma readable_page:
  assumes "readable db identity conv" "0 \<le> a" "nat a \<le> length (history db conv)" "0 \<le> limit" "limit \<le> 100"
  obtains k where "nat a + k \<le> length (history db conv)" "nat a < length (history db conv) \<Longrightarrow> 0 < k"
    "ReadAfterSeq (Some False) goodEnv db identity (requestAfter conv (0 < a) a limit) = Inr (pageOf db conv a k)"
proof -
  obtain c where c: "map_of (db_convs db) conv = Some c" using assms(1) by (auto simp: readable_def)
  have l: "a \<le> cv_last c" using assms(1,2,3) history_seqs(2) [OF msgInv_conv [OF _ c]] by (auto simp: readable_def)
  have "0 < a \<or> a = 0" using assms(2) by linarith
  then show thesis
    using read_page [OF _ c _ _ _ assms(2) l assms(4,5), of identity "0 < a" False] assms(1) that unfolding readable_def by blast
qed

lemma catchUp_from:
  assumes "\<And>i. send_step\<^sup>*\<^sup>* (dbs i) (dbs (Suc i))" "\<And>i. readable (dbs i) identity conv" "\<And>i. length (history (dbs i) conv) \<le> n"
    "0 \<le> limit" "limit \<le> 100" "0 \<le> a" "nat a \<le> length (history (dbs i) conv)" "n - nat a < fuel"
  shows "\<exists>j \<ge> i. catchUp dbs identity conv limit fuel i a = Some (map itemOf (drop (nat a) (history (dbs j) conv)))"
  using assms(6-8)
proof (induction fuel arbitrary: i a)
  case (Suc fuel)
  obtain k where k: "nat a + k \<le> length (history (dbs i) conv)" "nat a < length (history (dbs i) conv) \<Longrightarrow> 0 < k"
    "ReadAfterSeq (Some False) goodEnv (dbs i) identity (requestAfter conv (0 < a) a limit) = Inr (pageOf (dbs i) conv a k)"
    using readable_page [OF assms(2) Suc(2,3) assms(4,5)] by blast
  show ?case
  proof (cases "nat a + k < length (history (dbs i) conv)")
    case False
    then show ?thesis using k by (intro exI [of _ i]) (simp add: pageOf_def)
  next
    case True
    have g: "grows conv [] (dbs i) (dbs (Suc i))" by (rule sends_grow [OF assms(1)])
    have na: "nat (a + int k) = nat a + k" "0 < k" using Suc(2) True k(2) by (auto simp: nat_add_distrib)
    have "nat (a + int k) \<le> length (history (dbs (Suc i)) conv)" using g k(1) na by (auto simp: grows_def)
    moreover have "n - nat (a + int k) < fuel" using Suc(4) True assms(3) [of i] na by simp
    ultimately obtain j where j: "Suc i \<le> j" "catchUp dbs identity conv limit fuel (Suc i) (a + int k) =
        Some (map itemOf (drop (nat a + k) (history (dbs j) conv)))"
      using Suc(1) [of "a + int k" "Suc i"] Suc(2) na(1) by auto
    have "send_step\<^sup>*\<^sup>* (dbs i) (dbs j)" by (rule runs_chain [of send_step dbs, OF assms(1)]) (use j(1) in simp)
    then obtain new where "history (dbs j) conv = history (dbs i) conv @ new"
      using sends_grow [of "dbs i" "dbs j" conv "[]"] by (auto simp: grows_def)
    then have "take k (drop (nat a) (history (dbs i) conv)) @ drop (nat a + k) (history (dbs j) conv) = drop (nat a) (history (dbs j) conv)"
      using k(1) append_take_drop_id [of k "drop (nat a) (history (dbs j) conv)"] by (simp add: add.commute)
    then have "map itemOf (take k (drop (nat a) (history (dbs i) conv))) @ map itemOf (drop (nat a + k) (history (dbs j) conv)) =
        map itemOf (drop (nat a) (history (dbs j) conv))" by (metis map_append)
    then show ?thesis using k(3) True na(2) j by (intro exI [of _ j]) (simp add: pageOf_def)
  qed
qed simp

text \<open>
  C8. A page is the next piece of the history. For a member of a stored conversation, a position within it and a limit the
  service admits, \<^verbatim>\<open>ReadAfterSeq\<close> returns the messages right after the position, in order and without gaps: as many as the
  limit and the byte budget allow, at least one while there are any, with the flag and the position of the next page
  right. Any other caller gets an error.
\<close>

theorem page_is_next_piece:
  assumes "msgInv db" "map_of (db_convs db) conv = Some c" "validIdentity identity" "ident128 conv"
    and "0 \<le> a" "a \<le> cv_last c" "0 \<le> limit" "limit \<le> 100" "has \<or> a = 0"
  shows "((conv, ci_userID identity) \<notin> set (db_members db) \<longrightarrow>
      ReadAfterSeq (Some x) goodEnv db identity (requestAfter conv has a limit) = Inl SyncForbidden) \<and>
    ((conv, ci_userID identity) \<in> set (db_members db) \<longrightarrow>
      (\<exists>k \<le> effectiveLimit limit. nat a + k \<le> length (history db conv) \<and>
        ReadAfterSeq (Some x) goodEnv db identity (requestAfter conv has a limit) = Inr (pageOf db conv a k) \<and>
        (nat a < length (history db conv) \<longrightarrow> 0 < k \<and> pageCost (pg_Items (pageOf db conv a k)) \<le> MaxResponseBytes) \<and>
        (k < effectiveLimit limit \<and> nat a + k < length (history db conv) \<longrightarrow>
          MaxResponseBytes < pageCost (pg_Items (pageOf db conv a (Suc k))))))"
proof (intro conjI impI)
  assume "(conv, ci_userID identity) \<notin> set (db_members db)"
  then show "ReadAfterSeq (Some x) goodEnv db identity (requestAfter conv has a limit) = Inl SyncForbidden"
    using assms(2-4) by (auto simp: ReadAfterSeq_def Sync_Read_def readHead_def requestAfter_def validIdentity_def split: if_splits)
qed (rule read_page [OF assms(1,2) _ assms(3-9)])

text \<open>
  C11. Paging ends and misses nothing. A client that starts from nothing and follows \<^verbatim>\<open>NextAfterSeq\<close> while \<^verbatim>\<open>HasNext\<close> is set,
  each page read later than the one before and messages arriving in between, stops after at most one page more than the
  conversation has messages in the end, and has then read the whole history of one moment, each message once, in order.
\<close>

theorem paging_catches_up:
  assumes "readable (dbs 0) identity conv" "\<And>i. send_step\<^sup>*\<^sup>* (dbs i) (dbs (Suc i))" "\<And>i. length (history (dbs i) conv) \<le> n"
    and "0 \<le> limit" "limit \<le> 100"
  shows "\<exists>j. catchUp dbs identity conv limit (Suc n) 0 0 = Some (map itemOf (history (dbs j) conv)) \<and>
    map it_ConversationSeq (map itemOf (history (dbs j) conv)) = [1..int (length (history (dbs j) conv))]"
proof -
  have r: "readable (dbs i) identity conv" for i
    by (rule readable_sends [OF runs_chain [of send_step dbs 0 i, OF assms(2)] assms(1)]) simp
  obtain j where j: "catchUp dbs identity conv limit (Suc n) 0 0 = Some (map itemOf (drop (nat 0) (history (dbs j) conv)))"
    using catchUp_from [of dbs identity conv n limit 0 0 "Suc n"] assms(2-5) r by fastforce
  obtain c where c: "map_of (db_convs (dbs j)) conv = Some c" using r [of j] by (auto simp: readable_def)
  have "convOK (db_messages (dbs j)) conv c" using r [of j] msgInv_conv [OF _ c] by (simp add: readable_def)
  note h = history_seqs(1,2) [OF this]
  have "it_ConversationSeq \<circ> itemOf = sr_ConversationSeq" by (auto simp: itemOf_def)
  then show ?thesis using j h by auto
qed

lemma sample_readable: "readable sampleMsgDb sampleIdentity ''v1''" "readable sampleAfter sampleIdentity ''v1''"
proof -
  show r: "readable sampleMsgDb sampleIdentity ''v1''"
    using sampleMsgDb_inv sample_identity by (simp add: readable_def sampleMsgDb_def sampleIdentity_def)
  have "send_step sampleMsgDb sampleAfter" by (rule send_step.intros [OF sample_acked])
  then show "readable sampleAfter sampleIdentity ''v1''" using readable_sends [OF _ r] by blast
qed

theorem page_is_next_piece_witness:
  "\<exists>k \<le> 100. ReadAfterSeq (Some False) goodEnv sampleAfter sampleIdentity (requestAfter ''v1'' False 0 0) = Inr (pageOf sampleAfter ''v1'' 0 k) \<and> 0 < k"
proof -
  have c: "map_of (db_convs sampleAfter) ''v1'' = Some \<lparr>cv_last = 1, cv_latest = Some (sr_ServerMsgID sampleRow)\<rparr>"
    by (simp add: sampleAfter_def)
  have h: "history sampleAfter ''v1'' = [sampleRow]" by (simp add: history_def inConv_def sampleAfter_def sampleRow_def)
  show ?thesis
    using page_is_next_piece [OF _ c, of sampleIdentity 0 0 False False] sample_readable(2)
    by (auto simp: readable_def h effectiveLimit_def)
qed

theorem paging_catches_up_witness:
  "\<exists>j. catchUp (\<lambda>i. if i = 0 then sampleMsgDb else sampleAfter) sampleIdentity ''v1'' 1 (Suc 1) 0 0 =
     Some (map itemOf (history (if j = (0 :: nat) then sampleMsgDb else sampleAfter) ''v1''))"
proof -
  let ?dbs = "\<lambda>i. if i = (0 :: nat) then sampleMsgDb else sampleAfter"
  have s: "send_step\<^sup>*\<^sup>* (?dbs i) (?dbs (Suc i))" for i
    using send_step.intros [OF sample_acked] by (auto intro: r_into_rtranclp)
  have l: "length (history (?dbs i) ''v1'') \<le> 1" for i
    by (simp add: history_def inConv_def sampleAfter_def sampleMsgDb_def)
  have "readable (?dbs 0) sampleIdentity ''v1''" using sample_readable(1) by simp
  from paging_catches_up [OF this s l, of 1] show ?thesis by (meson one_le_numeral zero_le_one)
qed

end
