(* ===== verification/ProjectionFacts.thy ===== *)
theory ProjectionFacts
  imports ConversationSync MessageSyncFacts
begin

text \<open>
  The projection stays well formed: every account's changes are numbered without gaps up to its head, the floor is
  below the head, and the directory names each conversation from its first change on.
\<close>

section \<open>The invariant\<close>

definition accountLog :: "convdb \<Rightarrow> bytes \<Rightarrow> changeRow list" where
  "accountLog db user = rev (filter (\<lambda>r. ch_user r = user) (cd_changes db))"

definition accountOK :: "convdb \<Rightarrow> bytes \<times> syncAccount \<Rightarrow> bool" where
  "accountOK db = (\<lambda>(user, a). 1 \<le> ac_epoch a \<and> ac_epoch a \<le> int MaxSeq \<and> 0 \<le> ac_floor a \<and> ac_floor a \<le> ac_head a \<and> ac_head a \<le> int MaxSeq \<and>
     map ch_seq (accountLog db user) = [1..ac_head a])"

definition changeOK :: "changeRow \<Rightarrow> bool" where
  "changeOK r \<longleftrightarrow> (\<exists>item. scanItem r = Inr item \<and> (ti_Revision item \<le> MaxSeq \<longrightarrow> validateItem item = Inr ()))"

definition keyOK :: "convdb \<Rightarrow> keyRow \<Rightarrow> bool" where
  "keyOK db k \<longleftrightarrow> (\<exists>r. find (\<lambda>r. ch_conv r = ky_conv k) (accountLog db (ky_user k)) = Some r \<and> ch_seq r = ky_first k)"

definition projInv :: "convdb \<Rightarrow> bool" where
  "projInv db \<longleftrightarrow> msgInv (cd_msgs db) \<and> distinct (map fst (cd_accounts db)) \<and> list_all (accountOK db) (cd_accounts db) \<and>
     list_all changeOK (cd_changes db) \<and> list_all (\<lambda>r. ch_user r \<in> set (map fst (cd_accounts db))) (cd_changes db) \<and>
     distinct (map (\<lambda>k. (ky_user k, ky_conv k)) (cd_keys db)) \<and> list_all (keyOK db) (cd_keys db) \<and>
     list_all (\<lambda>r. list_ex (\<lambda>k. ky_user k = ch_user r \<and> ky_conv k = ch_conv r) (cd_keys db)) (cd_changes db)"

lemma projInv_account:
  assumes "projInv db" "map_of (cd_accounts db) user = Some a"
  shows "1 \<le> ac_epoch a" "ac_epoch a \<le> int MaxSeq" "0 \<le> ac_floor a" "ac_floor a \<le> ac_head a" "ac_head a \<le> int MaxSeq"
    "map ch_seq (accountLog db user) = [1..ac_head a]" "int (length (accountLog db user)) = ac_head a"
proof -
  have "accountOK db (user, a)" using assms by (auto simp: projInv_def list_all_iff dest: map_of_SomeD)
  then show i: "1 \<le> ac_epoch a" "ac_epoch a \<le> int MaxSeq" "0 \<le> ac_floor a" "ac_floor a \<le> ac_head a" "ac_head a \<le> int MaxSeq"
    "map ch_seq (accountLog db user) = [1..ac_head a]" by (simp_all add: accountOK_def)
  show "int (length (accountLog db user)) = ac_head a" using arg_cong [OF i(6), of length] i(3,4) by simp
qed

text \<open>A new change in front.\<close>

lemma accountLog_append:
  "accountLog (appendChange db u conv n kind s m) user =
     (if user = u then accountLog db user @ [\<lparr>ch_user = u, ch_seq = n, ch_conv = conv, ch_kind = kind, ch_latestSeq = s, ch_latestMsg = m\<rparr>]
      else accountLog db user)"
  by (simp add: accountLog_def appendChange_def)

lemma find_append: "find P (xs @ ys) = (case find P xs of None \<Rightarrow> find P ys | Some x \<Rightarrow> Some x)"
  by (induction xs) auto

lemma keyOK_append:
  assumes "keyOK db k"
  shows "keyOK (appendChange db u conv n kind s m) k"
  using assms by (auto simp: keyOK_def accountLog_append find_append)

lemma appendChange_inv:
  assumes inv: "projInv db" and a: "map_of (cd_accounts db) user = Some a" "ac_head a \<noteq> int MaxSeq"
    and c: "changeOK \<lparr>ch_user = user, ch_seq = ac_head a + 1, ch_conv = conv, ch_kind = kind, ch_latestSeq = s, ch_latestMsg = m\<rparr>"
  shows "projInv (appendChange db user conv (ac_head a + 1) kind s m)"
proof -
  let ?db = "appendChange db user conv (ac_head a + 1) kind s m"
  let ?known = "list_ex (\<lambda>k. ky_user k = user \<and> ky_conv k = conv) (cd_keys db)"
  note acc = projInv_account [OF inv a(1)]
  have accounts: "accountOK ?db x" if mem: "x \<in> set (cd_accounts ?db)" for x
  proof -
    obtain u r where x: "x = (u, if u = user then r\<lparr>ac_head := ac_head a + 1\<rparr> else r)" "(u, r) \<in> set (cd_accounts db)"
      using mem by (auto simp: appendChange_def mapRows_def)
    have r: "accountOK db (u, r)" using inv x(2) by (auto simp: projInv_def list_all_iff)
    have "u = user \<Longrightarrow> r = a" using inv x(2) a(1) by (auto simp: projInv_def)
    then show ?thesis using r acc(3-5) a(2) x(1) by (auto simp: accountOK_def accountLog_append upto_rec2)
  qed
  have new: "find (\<lambda>r. ch_conv r = conv) (accountLog db user) = None" if "\<not> ?known"
    using that inv by (fastforce simp: find_None_iff accountLog_def projInv_def list_all_iff list_ex_iff)
  have old: "keyOK ?db k" if "k \<in> set (cd_keys db)" for k
    using keyOK_append that inv by (simp add: projInv_def list_all_iff)
  have "keyOK ?db \<lparr>ky_user = user, ky_conv = conv, ky_first = ac_head a + 1\<rparr>" if "\<not> ?known"
    using new [OF that] by (simp add: keyOK_def accountLog_append find_append)
  moreover have "set (cd_keys ?db) \<subseteq> set (cd_keys db) \<union> (if ?known then {} else {\<lparr>ky_user = user, ky_conv = conv, ky_first = ac_head a + 1\<rparr>})"
    by (auto simp: appendChange_def)
  ultimately have keys: "list_all (keyOK ?db) (cd_keys ?db)" using old unfolding list_all_iff by (auto split: if_splits)
  have user: "user \<in> set (map fst (cd_accounts db))" using a(1) by (metis domI dom_map_of_conv_image_fst set_map)
  have "list_all (\<lambda>r. list_ex (\<lambda>k. ky_user k = ch_user r \<and> ky_conv k = ch_conv r) (cd_keys ?db)) (cd_changes ?db)"
    using inv by (auto simp: projInv_def list_all_iff list_ex_iff appendChange_def)
  moreover have "distinct (map (\<lambda>k. (ky_user k, ky_conv k)) (cd_keys ?db))"
    using inv by (auto simp: projInv_def appendChange_def list_ex_iff)
  moreover have "list_all changeOK (cd_changes ?db)" "list_all (\<lambda>r. ch_user r \<in> set (map fst (cd_accounts ?db))) (cd_changes ?db)"
    using inv c user by (simp_all add: projInv_def appendChange_def list_all_iff del: set_map)
  moreover have "msgInv (cd_msgs ?db)" "distinct (map fst (cd_accounts ?db))" using inv by (simp_all add: projInv_def appendChange_def)
  ultimately show ?thesis using accounts keys unfolding projInv_def list_all_iff by blast
qed

section \<open>Steps\<close>

text \<open>
  What moves the projection: onboarding, the floor, recording in a prepared batch, and the rest of the system changing
  the message tables within their own invariant.
\<close>

inductive conv_step :: "convdb \<Rightarrow> convdb \<Rightarrow> bool" where
  step_init: "InitializeEmptyAccount env user db = (r, db') \<Longrightarrow> conv_step db db'"
| step_floor: "AdvanceFloor env user n db = (r, db') \<Longrightarrow> conv_step db db'"
| step_upsert: "PrepareBatch env0 cs us db0 = Inr b \<Longrightarrow> RecordUpsert env b conv user db = (q, db') \<Longrightarrow> conv_step db db'"
| step_removal: "PrepareBatch env0 cs us db0 = Inr b \<Longrightarrow> RecordRemoval env b conv user db = (q, db') \<Longrightarrow> conv_step db db'"
| step_others: "msgInv msgs \<Longrightarrow> conv_step db (db\<lparr>cd_msgs := msgs\<rparr>)"

lemma PrepareBatch_valid: "PrepareBatch env cs us db = Inr b \<Longrightarrow> conv \<in> set (ba_conversations b) \<Longrightarrow> ident128 conv"
  by (auto simp: PrepareBatch_def declaredIDs_def bindR_eq_Inr list_all_iff split: if_splits)

lemma summary_valid:
  assumes "msgInv msgs" "map_of (db_convs msgs) conv = Some c"
  shows "0 \<le> cv_last c" "cv_last c \<le> int MaxSeq" "cv_latest c = Some m \<Longrightarrow> ident128 m"
proof -
  have ok: "convOK (db_messages msgs) conv c" by (rule msgInv_conv [OF assms])
  show "0 \<le> cv_last c" "cv_last c \<le> int MaxSeq" using ok by (simp_all add: convOK_def MaxSeq_def)
  show "ident128 m" if m: "cv_latest c = Some m"
  proof -
    obtain x where "x \<in> set (inConv conv (db_messages msgs))" "sr_ServerMsgID x = m"
      using ok m by (auto simp: convOK_def split: list.splits)
    then show ?thesis using assms(1) by (auto simp: msgInv_def list_all_iff messageOK_def messageRowChecks_def inConv_def)
  qed
qed

lemma batch_record_state:
  assumes "batch_record env b conv user remove db = (q, db')"
  shows "db' = db \<or> (\<exists>a. conv \<in> set (ba_conversations b) \<and> map_of (cd_accounts db) user = Some a \<and> ac_head a \<noteq> int MaxSeq \<and>
    (db' = appendChange db user conv (ac_head a + 1) ''remove'' None None \<or>
     (\<exists>c. map_of (db_convs (cd_msgs db)) conv = Some c \<and>
        db' = appendChange db user conv (ac_head a + 1) ''upsert'' (Some (cv_last c)) (cv_latest c))))"
  using assms
  by (auto simp: batch_record_def sourceSummary_def bindR_eq_Inr Let_def split: if_splits sum.splits option.splits)

lemma batch_record_inv:
  assumes "batch_record env b conv user remove db = (q, db')" "projInv db" "\<And>c. c \<in> set (ba_conversations b) \<Longrightarrow> ident128 c"
  shows "projInv db'"
proof (cases "db' = db")
  case False
  then obtain a where r: "conv \<in> set (ba_conversations b)" "map_of (cd_accounts db) user = Some a" "ac_head a \<noteq> int MaxSeq"
    "db' = appendChange db user conv (ac_head a + 1) ''remove'' None None \<or>
     (\<exists>c. map_of (db_convs (cd_msgs db)) conv = Some c \<and>
        db' = appendChange db user conv (ac_head a + 1) ''upsert'' (Some (cv_last c)) (cv_latest c))"
    using batch_record_state [OF assms(1)] by blast
  have m: "msgInv (cd_msgs db)" using assms(2) by (simp add: projInv_def)
  note acc = projInv_account [OF assms(2) r(2)] and new = appendChange_inv [OF assms(2) r(2,3)]
  have conv: "ident128 conv" by (rule assms(3) [OF r(1)])
  have "changeOK \<lparr>ch_user = user, ch_seq = ac_head a + 1, ch_conv = conv, ch_kind = ''remove'', ch_latestSeq = None, ch_latestMsg = None\<rparr>"
    using acc(3,4) conv by (auto simp: changeOK_def scanItem_def validateItem_def validSequence_def)
  moreover have "changeOK \<lparr>ch_user = user, ch_seq = ac_head a + 1, ch_conv = conv, ch_kind = ''upsert'', ch_latestSeq = Some (cv_last c),
      ch_latestMsg = cv_latest c\<rparr>" if "map_of (db_convs (cd_msgs db)) conv = Some c" for c
    using acc(3,4) conv summary_valid [OF m that]
    by (auto simp: changeOK_def scanItem_def validateItem_def validSequence_def split: option.splits)
  ultimately show ?thesis using r(4) new by blast
qed (use assms(2) in simp)

lemma accounts_inv:
  assumes "projInv db" "\<And>u r. (u, r) \<in> set t \<Longrightarrow> accountOK db (u, r)" "distinct (map fst t)" "set (map fst (cd_accounts db)) \<subseteq> set (map fst t)"
  shows "projInv (db\<lparr>cd_accounts := t\<rparr>)"
proof -
  have l: "accountLog (db\<lparr>cd_accounts := t\<rparr>) = accountLog db" by (auto simp: accountLog_def)
  have "accountOK (db\<lparr>cd_accounts := t\<rparr>) = accountOK db" "keyOK (db\<lparr>cd_accounts := t\<rparr>) = keyOK db"
    by (auto simp: accountOK_def keyOK_def l)
  then show ?thesis using assms unfolding projInv_def list_all_iff by auto
qed

lemma InitializeEmptyAccount_state:
  assumes "InitializeEmptyAccount env user db = (r, db')"
  shows "db' = db \<or> map_of (cd_accounts db) user = None \<and> accountLog db user = [] \<and>
    db' = db\<lparr>cd_accounts := (user, \<lparr>ac_epoch = 1, ac_head = 0, ac_floor = 0\<rparr>) # cd_accounts db\<rparr>"
proof -
  have "accountLog db user = []" if "\<not> list_ex (\<lambda>r. ch_user r = user) (cd_changes db)"
    using that by (auto simp: accountLog_def filter_empty_conv list_ex_iff)
  then show ?thesis
    using assms by (auto simp: InitializeEmptyAccount_def finish_def split: if_splits option.splits commitOutcome.splits)
qed

lemma InitializeEmptyAccount_inv:
  assumes "InitializeEmptyAccount env user db = (r, db')" "projInv db"
  shows "projInv db'"
  using InitializeEmptyAccount_state [OF assms(1)]
proof
  assume n: "map_of (cd_accounts db) user = None \<and> accountLog db user = [] \<and>
    db' = db\<lparr>cd_accounts := (user, \<lparr>ac_epoch = 1, ac_head = 0, ac_floor = 0\<rparr>) # cd_accounts db\<rparr>"
  have "accountOK db (user, \<lparr>ac_epoch = 1, ac_head = 0, ac_floor = 0\<rparr>)" using n by (simp add: accountOK_def MaxSeq_def)
  then have "projInv (db\<lparr>cd_accounts := (user, \<lparr>ac_epoch = 1, ac_head = 0, ac_floor = 0\<rparr>) # cd_accounts db\<rparr>)"
    using n assms(2) by (intro accounts_inv [OF assms(2)]) (auto simp: projInv_def list_all_iff map_of_eq_None_iff)
  then show ?thesis using n by simp
qed (use assms(2) in simp)

definition raiseFloor :: "nat \<Rightarrow> syncAccount \<Rightarrow> syncAccount" where
  "raiseFloor n a = a\<lparr>ac_floor := int n, ac_epoch := ac_epoch a + 1\<rparr>"

lemma AdvanceFloor_state:
  assumes "AdvanceFloor env user n db = (r, db')"
  shows "db' = db \<or> (\<exists>a. map_of (cd_accounts db) user = Some a \<and> ac_floor a < int n \<and> int n \<le> ac_head a \<and> ac_epoch a \<noteq> int MaxSeq \<and>
    db' = db\<lparr>cd_accounts := mapRows (\<lambda>u r. if u = user then raiseFloor n r else r) (cd_accounts db)\<rparr>)"
  using assms
  by (auto simp: AdvanceFloor_def finish_def raiseFloor_def userExists_def cong: if_cong split: if_splits option.splits commitOutcome.splits)

lemma AdvanceFloor_inv:
  assumes "AdvanceFloor env user n db = (r, db')" "projInv db"
  shows "projInv db'"
  using AdvanceFloor_state [OF assms(1)]
proof
  assume "\<exists>a. map_of (cd_accounts db) user = Some a \<and> ac_floor a < int n \<and> int n \<le> ac_head a \<and> ac_epoch a \<noteq> int MaxSeq \<and>
    db' = db\<lparr>cd_accounts := mapRows (\<lambda>u r. if u = user then raiseFloor n r else r) (cd_accounts db)\<rparr>"
  then obtain a where a: "map_of (cd_accounts db) user = Some a" "ac_floor a < int n" "int n \<le> ac_head a" "ac_epoch a \<noteq> int MaxSeq"
    "db' = db\<lparr>cd_accounts := mapRows (\<lambda>u r. if u = user then raiseFloor n r else r) (cd_accounts db)\<rparr>" by blast
  have ok: "accountOK db (u, if u = user then raiseFloor n r else r)" if "(u, r) \<in> set (cd_accounts db)" for u r
  proof -
    have "accountOK db (u, r)" "u = user \<Longrightarrow> r = a" using that assms(2) a(1) by (auto simp: projInv_def list_all_iff)
    then show ?thesis using a(2-4) by (auto simp: accountOK_def raiseFloor_def)
  qed
  show ?thesis unfolding a(5)
    by (rule accounts_inv [OF assms(2)]) (use ok assms(2) in \<open>auto simp: mapRows_def projInv_def comp_def case_prod_beta image_iff\<close>)
qed (use assms(2) in simp)

lemma conv_step_inv: "conv_step db db' \<Longrightarrow> projInv db \<Longrightarrow> projInv db'"
proof (induction rule: conv_step.induct)
  case (step_others msgs db)
  have "accountLog (db\<lparr>cd_msgs := msgs\<rparr>) = accountLog db" by (auto simp: accountLog_def)
  then have "accountOK (db\<lparr>cd_msgs := msgs\<rparr>) = accountOK db" "keyOK (db\<lparr>cd_msgs := msgs\<rparr>) = keyOK db"
    by (auto simp: accountOK_def keyOK_def)
  then show ?case using step_others by (simp add: projInv_def)
qed (auto simp: RecordUpsert_def RecordRemoval_def
    intro: InitializeEmptyAccount_inv AdvanceFloor_inv batch_record_inv PrepareBatch_valid)

interpretation conv_runs: store_runs conv_step projInv
  by unfold_locales (rule conv_step_inv)

end
