(* ===== verification/ConversationFacts.thy ===== *)
theory ConversationFacts
  imports ProjectionFacts
begin

text \<open>
  Delta rounds of the conversation sync service: what one page holds, that its cursor continues exactly there, and that
  a whole round delivers every change between two checkpoints once and in order, while the projection moves on.
\<close>

section \<open>Cursors determine their fields\<close>

lemma encodeCursor_inj:
  assumes "encodeCursor keys c = Inr w" "encodeCursor keys c' = Inr w"
  shows "c = c'"
proof -
  obtain key where k1: "w = b64_encode (cursorPayload c @ hmac_sha256 key (cursorPayload c))" using assms(1) encodeCursor_Inr by blast
  obtain key' where k2: "w = b64_encode (cursorPayload c' @ hmac_sha256 key' (cursorPayload c'))" using assms(2) encodeCursor_Inr by blast
  have k: "validateCursorForEncoding c = Inr ()" "validateCursorForEncoding c' = Inr ()" using assms encodeCursor_Inr by blast+
  have f: "ident128 (cu_account x) \<and> positionShape x \<and> length (cu_keyID x) \<le> 32 \<and> cu_kind x < 256 \<and>
      read_fields (cu_kind x) (cu_keyID x) (drop (3 + length (cu_keyID x)) (cursorPayload x)) = Inr x"
    if v: "validateCursorForEncoding x = Inr ()" for x
  proof -
    have "timely x (cu_issued x)"
      using v by (auto simp: validateCursorForEncoding_def timely_def cursorTimes_def validSequence_def split: if_splits)
    then have d: "validKeyID (cu_keyID x)" "ident128 (cu_account x)" "positionShape x" "validateDecodedCursor x (cu_account x) (cu_issued x) = Inr ()"
      using validators_agree v by blast+
    have l: "length (cu_keyID x) \<le> 32" "cu_kind x < 256"
      using validKeyID_length [OF d(1)] d(3) by (auto simp: positionShape_def cursor_kinds split: if_splits)
    show ?thesis using d l validated_fields [OF d(4)] payload_header(6) [OF l] by (simp add: read_fields_iff)
  qed
  have "b64_encode (cursorPayload c @ hmac_sha256 key (cursorPayload c)) = b64_encode (cursorPayload c' @ hmac_sha256 key' (cursorPayload c'))"
    using k1 k2 by simp
  then have "cursorPayload c @ hmac_sha256 key (cursorPayload c) = cursorPayload c' @ hmac_sha256 key' (cursorPayload c')"
    by (rule b64_encode_inj)
  then have e: "cursorPayload c = cursorPayload c'" by simp
  have l: "length (cu_keyID c) \<le> 32" "cu_kind c < 256" "length (cu_keyID c') \<le> 32" "cu_kind c' < 256"
    using f [OF k(1)] f [OF k(2)] by blast+
  note h = payload_header(2-4) [OF l(1,2), unfolded e] payload_header(2-4) [OF l(3,4)]
  have n: "length (cu_keyID c) = length (cu_keyID c')" by (rule trans [OF sym [OF h(2)] h(5)])
  have p: "cu_kind c = cu_kind c'" by (rule trans [OF sym [OF h(1)] h(4)])
  have q: "cu_keyID c = cu_keyID c'" by (rule trans [OF sym [OF h(3)] h(6) [folded n]])
  have "Inr c = (Inr c' :: (convCode, syncCursor) result)"
    using f [OF k(1), unfolded e p q] f [OF k(2)] by (metis (no_types))
  then show ?thesis by simp
qed

section \<open>The change log as the readers see it\<close>

definition itemOfChange :: "changeRow \<Rightarrow> syncItem" where
  "itemOfChange r = \<lparr>ti_ConversationID = ch_conv r, ti_Revision = nat (ch_seq r), ti_Kind = ch_kind r,
     ti_LatestSeq = map_option nat (ch_latestSeq r), ti_LatestMsg = ch_latestMsg r\<rparr>"

definition logItems :: "convdb \<Rightarrow> bytes \<Rightarrow> syncItem list" where
  "logItems db user = map itemOfChange (accountLog db user)"

lemma scanItem_change: "scanItem r = Inr item \<Longrightarrow> item = itemOfChange r"
  by (auto simp: scanItem_def itemOfChange_def split: if_splits option.splits)

lemma scan_changes_items: "scan_changes rows = Inr items \<Longrightarrow> items = map itemOfChange rows"
  by (induction rows arbitrary: items) (auto simp: bindR_eq_Inr dest: scanItem_change)

text \<open>A list numbered from 1: the elements within a window.\<close>

lemma filter_window:
  assumes "map f xs = [1..int (length xs)]"
  shows "filter (\<lambda>x. int a < f x \<and> f x \<le> int h) xs = drop a (take h xs)"
proof -
  have f: "f (xs ! i) = int i + 1" if "i < length xs" for i
    using arg_cong [OF assms, of "\<lambda>l. l ! i"] that by (simp add: nth_upto)
  have "filter (\<lambda>x. int a < f x \<and> f x \<le> int h) xs = filter (\<lambda>x. int a < f x \<and> f x \<le> int h) (take a (take h xs) @ drop a (take h xs) @ drop h xs)"
    by (metis append.assoc append_take_drop_id)
  moreover have "filter (\<lambda>x. int a < f x \<and> f x \<le> int h) (take a (take h xs)) = []" "filter (\<lambda>x. int a < f x \<and> f x \<le> int h) (drop h xs) = []"
    using f by (auto simp: filter_empty_conv in_set_conv_nth)
  moreover have "int a < f x \<and> f x \<le> int h" if m: "x \<in> set (drop a (take h xs))" for x
  proof -
    obtain i where "i < length (drop a (take h xs))" "x = drop a (take h xs) ! i" using m unfolding in_set_conv_nth by blast
    then have "x = xs ! (a + i)" "a + i < h" "a + i < length xs" by (auto simp: nth_drop min_def split: if_splits)
    then show ?thesis using f [of "a + i"] by simp
  qed
  then have "filter (\<lambda>x. int a < f x \<and> f x \<le> int h) (drop a (take h xs)) = drop a (take h xs)" by (simp add: filter_id_conv)
  ultimately show ?thesis by (simp only: filter_append append_Nil append_Nil2)
qed

lemma changesOf_log:
  assumes "projInv db" "map_of (cd_accounts db) user = Some a"
  shows "changesOf db user = accountLog db user"
  unfolding changesOf_def
proof (rule sort_key_inj_key_eq)
  note s = projInv_account(6) [OF assms]
  have "distinct (map ch_seq (accountLog db user))" by (simp add: s)
  then show "inj_on ch_seq (set (filter (\<lambda>r. ch_user r = user) (cd_changes db)))" by (simp add: distinct_map accountLog_def)
  show "sorted (map ch_seq (accountLog db user))" by (simp add: s)
qed (simp add: accountLog_def)

lemma length_logItems: "length (logItems db user) = length (accountLog db user)"
  by (simp add: logItems_def)

lemma logItems_revision:
  assumes "projInv db" "map_of (cd_accounts db) user = Some a" "i < length (logItems db user)"
  shows "ti_Revision (logItems db user ! i) = i + 1"
proof -
  have "map ch_seq (accountLog db user) ! i = [1..ac_head a] ! i" by (simp only: projInv_account(6) [OF assms(1,2)])
  then have "ch_seq (accountLog db user ! i) = int i + 1"
    using assms(3) projInv_account(7) [OF assms(1,2)] by (simp add: nth_upto length_logItems)
  then show ?thesis using assms(3) by (simp add: logItems_def itemOfChange_def)
qed

section \<open>What the store returns for a delta\<close>

definition memberOK :: "convdb \<Rightarrow> bytes \<Rightarrow> syncItem \<Rightarrow> bool" where
  "memberOK db user item \<longleftrightarrow> (ti_Kind item = ''upsert'' \<longrightarrow> isMember db user (ti_ConversationID item))"

lemma authorizeCandidate_Inr:
  "authorizeCandidate fails n db user key st = Inr c \<Longrightarrow>
     ca_Key c = key \<and> ca_State c = Some st \<and> (ca_Member c \<longrightarrow> isMember db user key)"
  by (auto simp: authorizeCandidate_def bindR_eq_Inr split: if_splits)

definition deltaCandidates :: "(syncItem \<Rightarrow> bool) \<Rightarrow> Candidate list \<Rightarrow> syncItem list \<Rightarrow> bool" where
  "deltaCandidates member cs items \<longleftrightarrow> list_all2 (\<lambda>c item. ca_Key c = ti_ConversationID item \<and> ca_State c = Some item \<and> (ca_Member c \<longrightarrow> member item)) cs items"

lemma delta_candidates_Inr:
  "delta_candidates fails n db user items = Inr cs \<Longrightarrow>
     deltaCandidates (\<lambda>item. isMember db user (ti_ConversationID item)) cs items"
  by (induction items arbitrary: n cs) (auto simp: deltaCandidates_def bindR_eq_Inr dest: authorizeCandidate_Inr)

lemma Conv_Read_delta:
  assumes "Conv_Read env db user request = Inr result" "cr_Kind request = DeltaRead" "projInv db"
  obtains a where "map_of (cd_accounts db) user = Some a" "int (cs_Epoch result) = ac_epoch a" "cs_Head result = length (logItems db user)"
    "cs_Fence result = (if cr_Start request then length (logItems db user) else cr_Fence request)"
    "cr_Epoch request = cs_Epoch result" "cs_Fence result \<le> length (logItems db user)" "ac_floor a \<le> int (cr_AfterSeq request)"
    "deltaCandidates (\<lambda>item. isMember db user (ti_ConversationID item))
      (cs_Candidates result) (take (nat (cr_Limit request + 1)) (drop (cr_AfterSeq request) (take (cs_Fence result) (logItems db user))))"
proof -
  obtain a where a: "map_of (cd_accounts db) user = Some a" "readPositionCheck request a = Inr ()"
    "cs_Epoch result = nat (ac_epoch a)" "cs_Head result = nat (ac_head a)"
    "cs_Fence result = (if cr_Start request then nat (ac_head a) else cr_Fence request)"
    "readDelta env db user (cr_AfterSeq request) (cs_Fence result) (cr_Limit request) = Inr (cs_Candidates result)"
    using assms(1,2) by (auto simp: Conv_Read_def bindR_eq_Inr Let_def split: if_splits option.splits)
  note inv = projInv_account [OF assms(3) a(1)]
  have len: "ac_head a = int (length (logItems db user))" using inv(7) by (simp add: length_logItems)
  then have p: "int (cr_Epoch request) = ac_epoch a" "\<not> cr_Start request \<Longrightarrow> cr_Fence request \<le> length (logItems db user)"
    "ac_floor a \<le> int (cr_AfterSeq request)"
    using a(2) assms(2) by (auto simp: readPositionCheck_def Let_def split: if_splits)
  obtain items where "scan_changes (take (nat (cr_Limit request + 1)) (filter (\<lambda>r. int (cr_AfterSeq request) < ch_seq r \<and>
      ch_seq r \<le> int (cs_Fence result)) (accountLog db user))) = Inr items" "delta_candidates (env_stmt env) 4 db user items = Inr (cs_Candidates result)"
    using a(6) changesOf_log [OF assms(3) a(1)] by (auto simp: readDelta_def bindR_eq_Inr split: if_splits)
  moreover have "map ch_seq (accountLog db user) = [1..int (length (accountLog db user))]" using inv(6,7) by simp
  note w = filter_window [OF this, of "cr_AfterSeq request" "cs_Fence result"]
  ultimately have "items = take (nat (cr_Limit request + 1)) (drop (cr_AfterSeq request) (take (cs_Fence result) (logItems db user)))"
    using scan_changes_items by (simp add: logItems_def take_map drop_map)
  then have "deltaCandidates (\<lambda>item. isMember db user (ti_ConversationID item)) (cs_Candidates result)
      (take (nat (cr_Limit request + 1)) (drop (cr_AfterSeq request) (take (cs_Fence result) (logItems db user))))"
    using delta_candidates_Inr [OF \<open>delta_candidates _ _ _ _ items = _\<close>] by simp
  then show thesis using a(3-5) p inv(1) len by (intro that [OF a(1)]) auto
qed

section \<open>Assembling and rendering\<close>

lemma selectDelta_Inr:
  "selectDeltaCandidate c = Inr item \<Longrightarrow> ca_State c = Some item \<and> (ti_Kind item = ''upsert'' \<longrightarrow> ca_Member c)"
  by (auto simp: selectDeltaCandidate_def split: option.splits if_splits)

lemma delta_loop_ok:
  assumes "delta_loop limit es (seqPosition (a + length es)) mo cs = Inr (es', pos, mo')" "deltaCandidates member cs items"
    "\<And>i. i < length items \<Longrightarrow> ti_Revision (items ! i) = a + length es + i + 1" "int (length es) < limit"
    "\<And>i. i < length es \<Longrightarrow> en_before (es ! i) = seqPosition (a + i)" "mo \<longleftrightarrow> limit < int (length es + length cs)"
    "\<forall>e \<in> set es. ti_Kind (en_item e) = ''upsert'' \<longrightarrow> member (en_item e)"
  shows "map en_item es' = map en_item es @ take (nat limit - length es) items \<and> pos = seqPosition (a + length es') \<and>
    (mo' \<longleftrightarrow> limit < int (length es + length cs)) \<and> (\<forall>i < length es'. en_before (es' ! i) = seqPosition (a + i)) \<and>
    (\<forall>e \<in> set es'. ti_Kind (en_item e) = ''upsert'' \<longrightarrow> member (en_item e))"
  using assms
proof (induction cs arbitrary: es items)
  case Nil
  then show ?case by (auto simp: deltaCandidates_def)
next
  case (Cons c cs)
  obtain item rest where items: "items = item # rest" "ca_State c = Some item" "ca_Member c \<longrightarrow> member item" "deltaCandidates member cs rest"
    using Cons.prems(2) by (auto simp: deltaCandidates_def list_all2_Cons1)
  have sel: "selectDeltaCandidate c = Inr item" and up: "ti_Kind item = ''upsert'' \<Longrightarrow> member item"
    using Cons.prems(1) items(2,3) selectDelta_Inr by (auto simp: bindR_eq_Inr)
  have rev: "ti_Revision item = a + length es + 1" using Cons.prems(3) [of 0] items(1) by simp
  let ?es = "es @ [\<lparr>en_item = item, en_before = seqPosition (a + length es), en_after = seqPosition (ti_Revision item)\<rparr>]"
  have new: "en_before (?es ! i) = seqPosition (a + i)" if "i < length ?es" for i
    using that Cons.prems(5) by (auto simp: nth_append less_Suc_eq)
  have mem: "\<forall>e \<in> set ?es. ti_Kind (en_item e) = ''upsert'' \<longrightarrow> member (en_item e)" using Cons.prems(7) up by auto
  show ?case
  proof (cases "limit \<le> int (length ?es)")
    case True
    then have l: "nat limit - length es = 1" "limit = int (length es) + 1" using Cons.prems(4) by auto
    have "es' = ?es" "pos = seqPosition (ti_Revision item)" "mo' \<longleftrightarrow> cs \<noteq> []"
      using Cons.prems(1,4) sel True by (auto simp: Let_def)
    then show ?thesis using l rev new mem items(1) by auto
  next
    case False
    have "delta_loop limit ?es (seqPosition (a + length ?es)) mo cs = Inr (es', pos, mo')"
      using Cons.prems(1,4) sel False rev by (simp add: Let_def)
    from Cons.IH [OF this items(4) _ _ new _ mem] False Cons.prems(3) [of "Suc _"] Cons.prems(6) items(1)
    have "map en_item es' = map en_item ?es @ take (nat limit - length ?es) rest \<and> pos = seqPosition (a + length es') \<and>
      (mo' \<longleftrightarrow> limit < int (length ?es + length cs)) \<and> (\<forall>i < length es'. en_before (es' ! i) = seqPosition (a + i)) \<and>
      (\<forall>e \<in> set es'. ti_Kind (en_item e) = ''upsert'' \<longrightarrow> member (en_item e))" by simp
    moreover have "take (nat limit - length es) items = item # take (nat limit - length ?es) rest"
      using False items(1) by (simp add: take_Cons')
    ultimately show ?thesis by simp
  qed
qed

text \<open>A page that holds the first \<open>k\<close> of the assembled entries and continues behind them.\<close>

definition positionAt :: "itemEnvelope list \<Rightarrow> cursorPosition \<Rightarrow> nat \<Rightarrow> cursorPosition" where
  "positionAt es final k = (if k < length es then en_before (es ! k) else final)"

definition pageAt :: "convConfig \<Rightarrow> syncCursor \<Rightarrow> itemEnvelope list \<Rightarrow> cursorPosition \<Rightarrow> bool \<Rightarrow> nat \<Rightarrow> nat \<Rightarrow> convPage \<Rightarrow> bool" where
  "pageAt config base es final mo now k page \<longleftrightarrow>
     cp_Items page = map en_item (take k es) \<and> (cp_HasMore page \<longleftrightarrow> mo \<or> k < length es) \<and>
     (cp_HasMore page \<longrightarrow> cursorAdvanced base (positionAt es final k)) \<and>
     (\<exists>token. nextToken config base (positionAt es final k) (cp_HasMore page) now = Inr token \<and>
       encodeCursor (cf_Keys config) token = Inr (cp_NextCursor page))"

lemma renderPage_pageAt:
  assumes "renderPage config base (take k es) (positionAt es final k) m now = Inr page" "m \<longleftrightarrow> mo \<or> k < length es"
    "m \<Longrightarrow> cursorAdvanced base (positionAt es final k)"
  shows "pageAt config base es final mo now k page"
  using assms by (auto simp: renderPage_def pageAt_def bindR_eq_Inr Let_def split: if_splits)

lemma render_loop_cases:
  assumes "render_loop config base es final mo now k = Inr page"
  shows "pageAt config base es final mo now k page \<or> 0 < k \<and> render_loop config base es final mo now (k - 1) = Inr page"
proof (cases "(mo \<or> k < length es) \<and> \<not> cursorAdvanced base (positionAt es final k)")
  case True
  then show ?thesis
    using assms by (subst (asm) render_loop.simps) (auto simp: Let_def simp flip: positionAt_def split: if_splits)
next
  case False
  show ?thesis
  proof (cases "renderPage config base (take k es) (positionAt es final k) (mo \<or> k < length es) now")
    case (Inl e)
    then show ?thesis
      using assms False by (subst (asm) render_loop.simps) (auto simp: Let_def simp flip: positionAt_def split: if_splits)
  next
    case (Inr p)
    then have "p = page"
      using assms False by (subst (asm) render_loop.simps) (auto simp: Let_def simp flip: positionAt_def split: if_splits)
    then show ?thesis using renderPage_pageAt [of config base k es final "mo \<or> k < length es" now page mo] Inr False by blast
  qed
qed

lemma render_loop_page:
  assumes "render_loop config base es final mo now keep = Inr page"
  obtains k where "k \<le> keep" "pageAt config base es final mo now k page"
proof -
  have "\<exists>k \<le> keep. pageAt config base es final mo now k page"
    using assms
  proof (induction keep)
    case (Suc keep)
    then show ?case using render_loop_cases [OF Suc.prems] by (metis diff_Suc_1 le_SucI le_refl)
  next
    case 0
    then show ?case using render_loop_cases [OF 0] by auto
  qed
  then show thesis using that by blast
qed

text \<open>A page of a delta round: a piece of the changes up to the fence, and the cursor behind it.\<close>

definition behind :: "convConfig \<Rightarrow> syncCursor \<Rightarrow> nat \<Rightarrow> nat \<Rightarrow> syncCursor \<Rightarrow> bool" where
  "behind config base k now token \<longleftrightarrow> nextToken config base (seqPosition (cu_afterSeq base + k)) (cu_afterSeq base + k < cu_fence base) now = Inr token"

definition deltaPiece :: "convConfig \<Rightarrow> convdb \<Rightarrow> bytes \<Rightarrow> syncCursor \<Rightarrow> nat \<Rightarrow> convPage \<Rightarrow> nat \<Rightarrow> bool" where
  "deltaPiece config db user base now page k \<longleftrightarrow>
     cp_Items page = take k (drop (cu_afterSeq base) (take (cu_fence base) (logItems db user))) \<and>
     cu_afterSeq base + k \<le> cu_fence base \<and> (cp_HasMore page \<longleftrightarrow> cu_afterSeq base + k < cu_fence base) \<and> (cp_HasMore page \<longrightarrow> 0 < k) \<and>
     list_all (memberOK db user) (cp_Items page) \<and>
     (\<exists>token. behind config base k now token \<and> encodeCursor (cf_Keys config) token = Inr (cp_NextCursor page))"

lemma delta_page:
  assumes "assembleDelta result base = Inr (es, pos, mo)" "renderAssembledPage config base es pos mo now = Inr page"
    "cu_kind base = cursorKindDeltaPage" "1 \<le> cu_limit base" "projInv db" "map_of (cd_accounts db) user = Some a"
    "cu_afterSeq base \<le> cu_fence base" "cu_fence base \<le> length (logItems db user)"
    "deltaCandidates (\<lambda>item. isMember db user (ti_ConversationID item)) (cs_Candidates result)
      (take (nat (cu_limit base + 1)) (drop (cu_afterSeq base) (take (cu_fence base) (logItems db user))))"
  obtains k where "deltaPiece config db user base now page k"
proof -
  define window where "window = drop (cu_afterSeq base) (take (cu_fence base) (logItems db user))"
  have len: "length window = cu_fence base - cu_afterSeq base" using assms(8) by (simp add: window_def)
  have "length (cs_Candidates result) = length (take (nat (cu_limit base + 1)) window)"
    using list_all2_lengthD assms(9) unfolding deltaCandidates_def window_def by blast
  then have cs: "cu_limit base < int (length (cs_Candidates result)) \<longleftrightarrow> cu_limit base < int (length window)" using assms(4) by auto
  have "ti_Revision (take (nat (cu_limit base + 1)) window ! i) = cu_afterSeq base + i + 1" if "i < length (take (nat (cu_limit base + 1)) window)" for i
    using that logItems_revision [OF assms(5,6), of "cu_afterSeq base + i"] assms(7,8) by (auto simp: window_def nth_drop)
  then have d: "map en_item es = take (nat (cu_limit base)) (take (nat (cu_limit base + 1)) window) \<and>
      pos = seqPosition (cu_afterSeq base + length es) \<and> (mo \<longleftrightarrow> cu_limit base < int (length (cs_Candidates result))) \<and>
      (\<forall>i < length es. en_before (es ! i) = seqPosition (cu_afterSeq base + i)) \<and>
      (\<forall>e \<in> set es. ti_Kind (en_item e) = ''upsert'' \<longrightarrow> isMember db user (ti_ConversationID (en_item e)))"
    using delta_loop_ok [of "cu_limit base" "[]" "cu_afterSeq base" _ "cs_Candidates result" es pos mo "\<lambda>item. isMember db user (ti_ConversationID item)"
        "take (nat (cu_limit base + 1)) window"] assms(1,4,9) by (simp add: assembleDelta_def window_def)
  then have es: "map en_item es = take (nat (cu_limit base)) window" "mo \<longleftrightarrow> cu_limit base < int (length window)"
    using assms(4) cs by (simp_all add: min_def)
  then have n: "length es = min (nat (cu_limit base)) (length window)" by (metis length_map length_take min.commute)
  obtain k where k: "k \<le> length es" "pageAt config base es pos mo now k page"
    using assms(2) render_loop_page unfolding renderAssembledPage_def by blast
  have p: "positionAt es pos k = seqPosition (cu_afterSeq base + k)" using d k(1) by (auto simp: positionAt_def)
  have m: "cp_HasMore page \<longleftrightarrow> cu_afterSeq base + k < cu_fence base" using k es(2) n len assms(4) by (auto simp: pageAt_def)
  have "cp_Items page = take k window" using k n es(1) by (simp add: pageAt_def take_map [symmetric])
  moreover have "list_all (memberOK db user) (cp_Items page)"
    using d k(2) by (auto simp: pageAt_def list_all_iff memberOK_def dest: in_set_takeD)
  moreover have "0 < k" if "cp_HasMore page" using that k(2) p assms(3) by (auto simp: pageAt_def cursorAdvanced_def cursor_kinds seqPosition_def)
  moreover have "\<exists>token. behind config base k now token \<and> encodeCursor (cf_Keys config) token = Inr (cp_NextCursor page)"
    using k(2) unfolding pageAt_def behind_def p m by blast
  moreover have "cu_afterSeq base + k \<le> cu_fence base" using k(1) n len assms(7) by auto
  ultimately show thesis using that m unfolding deltaPiece_def window_def by blast
qed

lemma BeginDelta_Inr:
  assumes "BeginDelta config ctx env clock db user checkpoint limit = Inr page" "projInv db"
  obtains now token base k where "decodeCursor (cf_Keys config) checkpoint cursorKindCheckpoint user now = Inr token"
    "cu_kind base = cursorKindDeltaPage" "cu_account base = user" "cu_epoch base = cu_epoch token" "cu_afterSeq base = cu_fence token"
    "cu_fence base = length (logItems db user)" "deltaPiece config db user base now page k"
proof -
  obtain n now token expires result es pos mo where r: "normalizePageLimit limit = Inr n" "decodeCursor (cf_Keys config) checkpoint cursorKindCheckpoint user now = Inr token"
    "Conv_Read env db user \<lparr>cr_Kind = DeltaRead, cr_Start = True, cr_Epoch = cu_epoch token, cr_Fence = cu_fence token,
      cr_AfterSeq = cu_fence token, cr_AfterKey = [], cr_TerminalKey = [], cr_Limit = n\<rparr> = Inr result" "cu_fence token \<le> cs_Head result"
    and base: "assembleDelta result \<lparr>cu_kind = cursorKindDeltaPage, cu_keyID = cf_ActiveKeyID config, cu_account = user,
      cu_epoch = cs_Epoch result, cu_issued = now, cu_expires = expires, cu_limit = n, cu_fence = cs_Fence result,
      cu_afterSeq = cu_fence token, cu_afterKey = [], cu_terminalKey = []\<rparr> = Inr (es, pos, mo)"
    "renderAssembledPage config \<lparr>cu_kind = cursorKindDeltaPage, cu_keyID = cf_ActiveKeyID config, cu_account = user,
      cu_epoch = cs_Epoch result, cu_issued = now, cu_expires = expires, cu_limit = n, cu_fence = cs_Fence result,
      cu_afterSeq = cu_fence token, cu_afterKey = [], cu_terminalKey = []\<rparr> es pos mo now = Inr page"
    using assms(1) by (auto simp: BeginDelta_def readStore_def bindR_eq_Inr Let_def not_less split: if_splits)
  have "1 \<le> n" using r(1) by (auto simp: normalizePageLimit_def MaxConvPageItems_def split: if_splits)
  obtain a where a: "map_of (cd_accounts db) user = Some a" "cs_Head result = length (logItems db user)" "cs_Fence result = length (logItems db user)"
    "cs_Epoch result = cu_epoch token"
    "deltaCandidates (\<lambda>item. isMember db user (ti_ConversationID item)) (cs_Candidates result)
      (take (nat (n + 1)) (drop (cu_fence token) (take (cs_Fence result) (logItems db user))))"
    using Conv_Read_delta [OF r(3) _ assms(2)] by force
  obtain k where "deltaPiece config db user \<lparr>cu_kind = cursorKindDeltaPage, cu_keyID = cf_ActiveKeyID config, cu_account = user,
      cu_epoch = cs_Epoch result, cu_issued = now, cu_expires = expires, cu_limit = n, cu_fence = cs_Fence result,
      cu_afterSeq = cu_fence token, cu_afterKey = [], cu_terminalKey = []\<rparr> now page k"
    using delta_page [OF base _ _ assms(2) a(1)] a \<open>1 \<le> n\<close> r(4) by auto
  then show thesis using a by (intro that [OF r(2)]) auto
qed

lemma ContinueDelta_Inr:
  assumes "ContinueDelta config ctx env clock db user cursor = Inr page" "projInv db"
  obtains now token k where "decodeCursor (cf_Keys config) cursor cursorKindDeltaPage user now = Inr token"
    "cu_fence token \<le> length (logItems db user)" "deltaPiece config db user token now page k"
proof -
  obtain now token result es pos mo where r: "decodeCursor (cf_Keys config) cursor cursorKindDeltaPage user now = Inr token"
    "Conv_Read env db user \<lparr>cr_Kind = DeltaRead, cr_Start = False, cr_Epoch = cu_epoch token, cr_Fence = cu_fence token,
      cr_AfterSeq = cu_afterSeq token, cr_AfterKey = [], cr_TerminalKey = [], cr_Limit = cu_limit token\<rparr> = Inr result"
    and base: "assembleDelta result token = Inr (es, pos, mo)" "renderAssembledPage config token es pos mo now = Inr page"
    using assms(1) by (auto simp: ContinueDelta_def readStore_def bindR_eq_Inr split: if_splits)
  have e: "encodeCursor (cf_Keys config) token = Inr cursor \<and> cu_kind token = cursorKindDeltaPage" using encoded_decode [OF r(1)] by blast
  then have l: "1 \<le> cu_limit token" "cu_afterSeq token \<le> cu_fence token"
    by (auto simp: encodeCursor_Inr validateCursorForEncoding_def cursorLimits_def deltaPosition_def cursor_kinds split: if_splits)
  obtain a where a: "map_of (cd_accounts db) user = Some a" "cs_Fence result = cu_fence token" "cu_fence token \<le> length (logItems db user)"
    "deltaCandidates (\<lambda>item. isMember db user (ti_ConversationID item)) (cs_Candidates result)
      (take (nat (cu_limit token + 1)) (drop (cu_afterSeq token) (take (cs_Fence result) (logItems db user))))"
    using Conv_Read_delta [OF r(2) _ assms(2)] by force
  obtain k where "deltaPiece config db user token now page k"
    using delta_page [OF base _ _ assms(2) a(1)] a l e by auto
  then show thesis using that [OF r(1) a(3)] by blast
qed

end
