(* ===== verification/ConversationRounds.thy ===== *)
theory ConversationRounds
  imports ConversationFacts
begin

text \<open>
  Whole rounds of the conversation sync service, each page read from the projection of its own moment while the
  projection moves on: a delta round delivers every change between two checkpoints once and in order.
\<close>

section \<open>Moments\<close>

text \<open>A call meets a context, database failures, a clock and the tables; moments follow each other by steps of the projection.\<close>

record convWorld =
  wo_ctx :: goContext
  wo_env :: dbEnv
  wo_clock :: instant
  wo_db :: convdb

definition convHistory :: "(nat \<Rightarrow> convWorld) \<Rightarrow> bool" where
  "convHistory w \<longleftrightarrow> projInv (wo_db (w 0)) \<and> (\<forall>i. conv_step\<^sup>*\<^sup>* (wo_db (w i)) (wo_db (w (Suc i))))"

lemma conv_step_log: "conv_step db db' \<Longrightarrow> \<exists>new. accountLog db' user = accountLog db user @ new"
proof (induction rule: conv_step.induct)
  case (step_init env u db r db')
  then show ?case using InitializeEmptyAccount_state by (fastforce simp: accountLog_def)
next
  case (step_floor env u n db r db')
  then show ?case using AdvanceFloor_state by (fastforce simp: accountLog_def)
next
  case (step_upsert env0 cs us db0 b env conv u db q db')
  then show ?case using batch_record_state [of env b conv u False db q db'] by (auto simp: RecordUpsert_def accountLog_append)
next
  case (step_removal env0 cs us db0 b env conv u db q db')
  then show ?case using batch_record_state [of env b conv u True db q db'] by (auto simp: RecordRemoval_def accountLog_append)
next
  case (step_others msgs db)
  then show ?case by (simp add: accountLog_def)
qed

lemma conv_steps_log: "conv_step\<^sup>*\<^sup>* db db' \<Longrightarrow> \<exists>new. logItems db' user = logItems db user @ new"
proof (induction rule: rtranclp_induct)
  case (step y z)
  then show ?case using conv_step_log [OF step(2), of user] by (auto simp: logItems_def)
qed simp

lemma history_inv: "convHistory w \<Longrightarrow> projInv (wo_db (w i))"
  using conv_runs.inv_runs [OF runs_chain [of conv_step "\<lambda>i. wo_db (w i)" 0 i]] by (simp add: convHistory_def)

lemma history_prefix:
  assumes "convHistory w" "i \<le> j" "h \<le> length (logItems (wo_db (w i)) user)"
  shows "take h (logItems (wo_db (w j)) user) = take h (logItems (wo_db (w i)) user)"
proof -
  have "conv_step\<^sup>*\<^sup>* (wo_db (w i)) (wo_db (w j))"
    using runs_chain [of conv_step "\<lambda>i. wo_db (w i)" i j] assms by (simp add: convHistory_def)
  then show ?thesis using conv_steps_log [of "wo_db (w i)" "wo_db (w j)" user] assms(3) by auto
qed

section \<open>Following the cursors of a round\<close>

text \<open>
  The client asks for the next page, one moment later, until a page is the last; the round yields the items, the last
  cursor and the last moment, or the first error.
\<close>

fun followPages ::
  "(nat \<Rightarrow> bytes \<Rightarrow> (convCode, convPage) result) \<Rightarrow> nat \<Rightarrow> nat \<Rightarrow> convPage \<Rightarrow> (convCode, syncItem list \<times> bytes \<times> nat) result option" where
  "followPages ask fuel i page =
     (if \<not> cp_HasMore page then Some (Inr (cp_Items page, cp_NextCursor page, i))
      else case fuel of
        0 \<Rightarrow> None
      | Suc n \<Rightarrow>
          (case ask (Suc i) (cp_NextCursor page) of
             Inl e \<Rightarrow> Some (Inl e)
           | Inr page' \<Rightarrow>
               map_option (\<lambda>r. bindR r (\<lambda>(items, cursor, j). Inr (cp_Items page @ items, cursor, j))) (followPages ask n (Suc i) page')))"

declare followPages.simps [simp del]

text \<open>More fuel does not change what a round comes to.\<close>

lemma followPages_fuel: "followPages ask fuel i page = Some r \<Longrightarrow> fuel \<le> fuel' \<Longrightarrow> followPages ask fuel' i page = Some r"
proof (induction fuel arbitrary: i page r fuel')
  case 0
  then have "\<not> cp_HasMore page" by (subst (asm) followPages.simps) (auto split: if_splits)
  then show ?case using 0(1) by (subst (asm) followPages.simps, subst followPages.simps) simp
next
  case (Suc fuel)
  obtain n where n: "fuel' = Suc n" "fuel \<le> n" using Suc.prems(2) by (cases fuel') auto
  show ?case using Suc.prems(1) n(1) Suc.IH [OF _ n(2)]
    by (subst (asm) followPages.simps, subst followPages.simps) (auto split: if_splits sum.splits)
qed

text \<open>
  The contract between the pages of one round: what is still to come from a cursor, that a page is the front of it and
  hands over to a cursor for the rest, and what the last cursor is. A bounded round also runs out of pages, because every
  page brings items; a measured round runs out of pages because every cursor leaves less room before it.
\<close>

locale paged_round =
  fixes ask :: "nat \<Rightarrow> bytes \<Rightarrow> (convCode, convPage) result"
    and piece :: "nat \<Rightarrow> syncCursor \<Rightarrow> convPage \<Rightarrow> bool"
    and pending :: "syncCursor \<Rightarrow> syncItem list"
    and finished :: "bytes \<Rightarrow> bool"
  assumes last_piece: "piece i c page \<Longrightarrow> \<not> cp_HasMore page \<Longrightarrow> cp_Items page = pending c \<and> finished (cp_NextCursor page)"
    and next_piece: "piece i c page \<Longrightarrow> cp_HasMore page \<Longrightarrow> ask (Suc i) (cp_NextCursor page) = Inr page' \<Longrightarrow>
      \<exists>c'. piece (Suc i) c' page' \<and> pending c = cp_Items page @ pending c'"
begin

lemma round_exact:
  "piece i c page \<Longrightarrow> followPages ask fuel i page = Some (Inr (items, text, j)) \<Longrightarrow> items = pending c \<and> finished text \<and> i \<le> j"
proof (induction fuel arbitrary: i c page items)
  case 0
  then have "\<not> cp_HasMore page" by (subst (asm) followPages.simps) (auto split: if_splits)
  then show ?case using 0 last_piece [OF 0(1)] by (subst (asm) followPages.simps) auto
next
  case (Suc fuel)
  show ?case
  proof (cases "cp_HasMore page")
    case True
    obtain page' rest where n: "ask (Suc i) (cp_NextCursor page) = Inr page'" "followPages ask fuel (Suc i) page' = Some (Inr (rest, text, j))"
      "items = cp_Items page @ rest"
      using Suc.prems(2) True by (subst (asm) followPages.simps) (auto simp: bindR_eq_Inr split: sum.splits)
    obtain c' where c': "piece (Suc i) c' page'" "pending c = cp_Items page @ pending c'" using next_piece [OF Suc.prems(1) True n(1)] by blast
    show ?thesis using Suc.IH [OF c'(1) n(2)] c'(2) n(3) by simp
  next
    case False
    then show ?thesis using Suc.prems last_piece [OF Suc.prems(1)] by (subst (asm) followPages.simps) auto
  qed
qed

end

locale bounded_round = paged_round +
  assumes progress: "piece i c page \<Longrightarrow> cp_HasMore page \<Longrightarrow> cp_Items page \<noteq> []"
    and stop: "piece i c page \<Longrightarrow> length (pending c) \<le> length (cp_Items page) \<Longrightarrow> \<not> cp_HasMore page"
begin

lemma round_total: "piece i c page \<Longrightarrow> length (pending c) \<le> fuel + length (cp_Items page) \<Longrightarrow> followPages ask fuel i page \<noteq> None"
proof (induction fuel arbitrary: i c page)
  case 0
  then have "\<not> cp_HasMore page" using stop by simp
  then show ?case by (subst followPages.simps) simp
next
  case (Suc fuel)
  show ?case
  proof (cases "ask (Suc i) (cp_NextCursor page)")
    case (Inr page')
    have "followPages ask fuel (Suc i) page' \<noteq> None" if more: "cp_HasMore page"
    proof -
      obtain c' where c': "piece (Suc i) c' page'" "pending c = cp_Items page @ pending c'" using next_piece [OF Suc.prems(1) more Inr] by blast
      have "length (pending c') \<le> fuel + length (cp_Items page')"
        using Suc.prems(2) c'(2) progress [OF c'(1)] last_piece [OF c'(1)] by (cases "cp_HasMore page'") (auto simp: Suc_le_eq length_greater_0_conv [symmetric] simp del: length_greater_0_conv)
      then show ?thesis by (rule Suc.IH [OF c'(1)])
    qed
    then show ?thesis using Inr by (subst followPages.simps) auto
  qed (subst followPages.simps, auto)
qed

end

locale measured_round = paged_round +
  fixes room :: "syncCursor \<Rightarrow> nat"
  assumes closer: "piece i c page \<Longrightarrow> cp_HasMore page \<Longrightarrow> ask (Suc i) (cp_NextCursor page) = Inr page' \<Longrightarrow>
      \<exists>c'. piece (Suc i) c' page' \<and> room c' < room c"
begin

lemma round_ends: "piece i c page \<Longrightarrow> room c < fuel \<Longrightarrow> followPages ask fuel i page \<noteq> None"
proof (induction fuel arbitrary: i c page)
  case (Suc fuel)
  show ?case
  proof (cases "ask (Suc i) (cp_NextCursor page)")
    case (Inr page')
    have "followPages ask fuel (Suc i) page' \<noteq> None" if more: "cp_HasMore page"
    proof -
      obtain c' where "piece (Suc i) c' page'" "room c' < room c" using closer [OF Suc.prems(1) more Inr] by blast
      then show ?thesis using Suc.prems(2) by (intro Suc.IH) auto
    qed
    then show ?thesis using Inr by (subst followPages.simps) auto
  qed (subst followPages.simps, auto)
qed simp

end

section \<open>Delta rounds\<close>

definition deltaAt :: "convConfig \<Rightarrow> bytes \<Rightarrow> (nat \<Rightarrow> convWorld) \<Rightarrow> nat \<Rightarrow> bytes \<Rightarrow> (convCode, convPage) result" where
  "deltaAt config user w i cursor = ContinueDelta config (wo_ctx (w i)) (wo_env (w i)) (wo_clock (w i)) (wo_db (w i)) user cursor"

definition deltaRound :: "convConfig \<Rightarrow> bytes \<Rightarrow> (nat \<Rightarrow> convWorld) \<Rightarrow> nat \<Rightarrow> nat \<Rightarrow> bytes \<Rightarrow> int \<Rightarrow> (convCode, syncItem list \<times> bytes \<times> nat) result option" where
  "deltaRound config user w fuel i checkpoint limit =
     (case BeginDelta config (wo_ctx (w i)) (wo_env (w i)) (wo_clock (w i)) (wo_db (w i)) user checkpoint limit of
        Inl e \<Rightarrow> Some (Inl e)
      | Inr page \<Rightarrow> followPages (deltaAt config user w) fuel i page)"

text \<open>A checkpoint text stands for a place in the change log of an account.\<close>

definition checkpointAt :: "convConfig \<Rightarrow> bytes \<Rightarrow> nat \<Rightarrow> bytes \<Rightarrow> bool" where
  "checkpointAt config user n text \<longleftrightarrow> (\<exists>c. encodeCursor (cf_Keys config) c = Inr text \<and> cu_kind c = cursorKindCheckpoint \<and>
     cu_account c = user \<and> cu_fence c = n)"

lemma checkpointAt_unique: "checkpointAt config user n text \<Longrightarrow> encodeCursor (cf_Keys config) c = Inr text \<Longrightarrow> cu_fence c = n"
  unfolding checkpointAt_def using encodeCursor_inj by blast

text \<open>A page of a round whose changes up to the fence are \<open>L\<close>.\<close>

definition deltaPieceAt :: "convConfig \<Rightarrow> bytes \<Rightarrow> (nat \<Rightarrow> convWorld) \<Rightarrow> syncItem list \<Rightarrow> nat \<Rightarrow> syncCursor \<Rightarrow> convPage \<Rightarrow> bool" where
  "deltaPieceAt config user w L i base page \<longleftrightarrow> convHistory w \<and> cu_account base = user \<and> cu_fence base = length L \<and>
     cu_fence base \<le> length (logItems (wo_db (w i)) user) \<and> take (cu_fence base) (logItems (wo_db (w i)) user) = L \<and>
     (\<exists>now k. deltaPiece config (wo_db (w i)) user base now page k)"

lemma behind_last:
  "behind config base k now token \<Longrightarrow> \<not> cu_afterSeq base + k < cu_fence base \<Longrightarrow>
     cu_kind token = cursorKindCheckpoint \<and> cu_account token = cu_account base \<and> cu_fence token = cu_fence base"
  by (auto simp: behind_def nextToken_def bindR_eq_Inr)

lemma behind_next:
  "behind config base k now token \<Longrightarrow> cu_afterSeq base + k < cu_fence base \<Longrightarrow>
     cu_account token = cu_account base \<and> cu_fence token = cu_fence base \<and> cu_afterSeq token = cu_afterSeq base + k"
  by (auto simp: behind_def nextToken_def seqPosition_def split: if_splits)

lemma take_drop_glue: "take k (drop a xs) @ drop (a + k) xs = drop a xs"
  by (metis add.commute append_take_drop_id drop_drop)

lemma deltaPieceAt_next:
  assumes "deltaPieceAt config user w L i base page" "cp_HasMore page" "deltaAt config user w (Suc i) (cp_NextCursor page) = Inr page'"
  shows "\<exists>c'. deltaPieceAt config user w L (Suc i) c' page' \<and> drop (cu_afterSeq base) L = cp_Items page @ drop (cu_afterSeq c') L"
proof -
  obtain now k where h: "convHistory w" "cu_account base = user" "cu_fence base = length L" "cu_fence base \<le> length (logItems (wo_db (w i)) user)"
    "take (cu_fence base) (logItems (wo_db (w i)) user) = L" and d: "deltaPiece config (wo_db (w i)) user base now page k"
    using assms(1) by (auto simp: deltaPieceAt_def)
  obtain token where t: "behind config base k now token" "encodeCursor (cf_Keys config) token = Inr (cp_NextCursor page)"
    using d by (auto simp: deltaPiece_def)
  obtain now' token' k' where n: "decodeCursor (cf_Keys config) (cp_NextCursor page) cursorKindDeltaPage user now' = Inr token'"
      "cu_fence token' \<le> length (logItems (wo_db (w (Suc i))) user)" "deltaPiece config (wo_db (w (Suc i))) user token' now' page' k'"
    by (rule ContinueDelta_Inr [OF assms(3) [unfolded deltaAt_def] history_inv [OF h(1)]])
  have same: "token' = token" using encodeCursor_inj encoded_decode [OF n(1)] t(2) by blast
  have b: "cu_account token = user" "cu_fence token = cu_fence base" "cu_afterSeq token = cu_afterSeq base + k"
    using behind_next [OF t(1)] d h(2) assms(2) by (auto simp: deltaPiece_def)
  have "take (cu_fence base) (logItems (wo_db (w (Suc i))) user) = L" using history_prefix [OF h(1) _ h(4), of "Suc i"] h(5) by simp
  then have "deltaPieceAt config user w L (Suc i) token page'" using n(2,3) same b h by (auto simp: deltaPieceAt_def)
  moreover have "drop (cu_afterSeq base) L = cp_Items page @ drop (cu_afterSeq token) L"
    using d h(5) b(3) by (simp add: deltaPiece_def take_drop_glue)
  ultimately show ?thesis by blast
qed

interpretation delta: bounded_round "deltaAt config user w" "deltaPieceAt config user w L" "\<lambda>c. drop (cu_afterSeq c) L" "checkpointAt config user (length L)"
  for config user w L
proof
  show "cp_Items page = drop (cu_afterSeq c) L \<and> checkpointAt config user (length L) (cp_NextCursor page)"
    if "deltaPieceAt config user w L i c page" "\<not> cp_HasMore page" for i c page
    using that behind_last by (fastforce simp: deltaPieceAt_def deltaPiece_def checkpointAt_def)
  show "\<exists>c'. deltaPieceAt config user w L (Suc i) c' page' \<and> drop (cu_afterSeq c) L = cp_Items page @ drop (cu_afterSeq c') L"
    if "deltaPieceAt config user w L i c page" "cp_HasMore page" "deltaAt config user w (Suc i) (cp_NextCursor page) = Inr page'" for i c page page'
    using that by (rule deltaPieceAt_next)
  show "cp_Items page \<noteq> []" if "deltaPieceAt config user w L i c page" "cp_HasMore page" for i c page
    using that by (auto simp: deltaPieceAt_def deltaPiece_def)
  show "\<not> cp_HasMore page" if "deltaPieceAt config user w L i c page" "length (drop (cu_afterSeq c) L) \<le> length (cp_Items page)" for i c page
    using that by (auto simp: deltaPieceAt_def deltaPiece_def)
qed

lemma BeginDelta_piece:
  assumes "BeginDelta config ctx env clock (wo_db (w i)) user checkpoint limit = Inr page" "convHistory w" "checkpointAt config user n checkpoint"
  obtains base where "deltaPieceAt config user w (logItems (wo_db (w i)) user) i base page" "cu_afterSeq base = n"
proof -
  obtain now token base k where b: "decodeCursor (cf_Keys config) checkpoint cursorKindCheckpoint user now = Inr token" "cu_account base = user"
    "cu_afterSeq base = cu_fence token" "cu_fence base = length (logItems (wo_db (w i)) user)" "deltaPiece config (wo_db (w i)) user base now page k"
    by (rule BeginDelta_Inr [OF assms(1) history_inv [OF assms(2)]])
  have "cu_fence token = n" using checkpointAt_unique [OF assms(3)] encoded_decode [OF b(1)] by blast
  then show thesis using b assms(2) by (intro that [of base]) (auto simp: deltaPieceAt_def)
qed

lemma deltaRound_exact:
  assumes "deltaRound config user w fuel i checkpoint limit = Some (Inr (items, text, j))" "convHistory w" "checkpointAt config user n checkpoint"
  shows "items = drop n (logItems (wo_db (w i)) user) \<and> checkpointAt config user (length (logItems (wo_db (w i)) user)) text \<and> i \<le> j"
proof -
  obtain page where p: "BeginDelta config (wo_ctx (w i)) (wo_env (w i)) (wo_clock (w i)) (wo_db (w i)) user checkpoint limit = Inr page"
    "followPages (deltaAt config user w) fuel i page = Some (Inr (items, text, j))"
    using assms(1) by (auto simp: deltaRound_def split: sum.splits)
  obtain base where "deltaPieceAt config user w (logItems (wo_db (w i)) user) i base page" "cu_afterSeq base = n"
    by (rule BeginDelta_piece [OF p(1) assms(2,3)])
  then show ?thesis using delta.round_exact [OF _ p(2)] by blast
qed

lemma deltaRound_total:
  assumes "convHistory w" "checkpointAt config user n checkpoint" "length (logItems (wo_db (w i)) user) \<le> n + fuel"
  shows "deltaRound config user w fuel i checkpoint limit \<noteq> None"
proof (cases "BeginDelta config (wo_ctx (w i)) (wo_env (w i)) (wo_clock (w i)) (wo_db (w i)) user checkpoint limit")
  case (Inr page)
  obtain base where "deltaPieceAt config user w (logItems (wo_db (w i)) user) i base page" "cu_afterSeq base = n"
    by (rule BeginDelta_piece [OF Inr assms(1,2)])
  then have "followPages (deltaAt config user w) fuel i page \<noteq> None" using delta.round_total assms(3) by fastforce
  then show ?thesis using Inr by (simp add: deltaRound_def)
qed (simp add: deltaRound_def)

lemma deltaRound_fuel: "deltaRound config user w fuel i checkpoint limit = Some r \<Longrightarrow> fuel \<le> fuel' \<Longrightarrow> deltaRound config user w fuel' i checkpoint limit = Some r"
  unfolding deltaRound_def by (auto split: sum.splits elim: followPages_fuel)

end
