(* ===== verification/BootstrapFacts.thy ===== *)
theory BootstrapFacts
  imports ConversationRounds
begin

text \<open>
  Bootstrap rounds of the conversation sync service: the pages follow the directory of the account in key order and
  select from it the state of every conversation at the fence, whatever keys and changes arrive in the meantime.
\<close>

section \<open>The state of an account at a fence\<close>

text \<open>The last item of a conversation among the changes, and the items a snapshot of them shows within a range of keys.\<close>

definition lastOf :: "syncItem list \<Rightarrow> bytes \<Rightarrow> syncItem option" where
  "lastOf L conv = (case rev (filter (\<lambda>it. ti_ConversationID it = conv) L) of [] \<Rightarrow> None | it # _ \<Rightarrow> Some it)"

definition pick :: "syncItem list \<Rightarrow> bytes \<Rightarrow> syncItem list" where
  "pick L conv = (case lastOf L conv of None \<Rightarrow> [] | Some it \<Rightarrow> if ti_Kind it = ''upsert'' then [it] else [])"

definition logKeys :: "syncItem list \<Rightarrow> bytes list" where
  "logKeys L = sort (remdups (map ti_ConversationID L))"

definition between :: "bytes \<Rightarrow> bytes \<Rightarrow> bytes list \<Rightarrow> bytes list" where
  "between a p K = filter (\<lambda>k. a < k \<and> k \<le> p) K"

definition snapshot :: "syncItem list \<Rightarrow> bytes \<Rightarrow> bytes \<Rightarrow> syncItem list" where
  "snapshot L a p = concat (map (pick L) (between a p (logKeys L)))"

lemma lastOf_None: "lastOf L conv = None \<longleftrightarrow> conv \<notin> ti_ConversationID ` set L"
proof (cases "rev (filter (\<lambda>it. ti_ConversationID it = conv) L)")
  case (Cons it its)
  then have "it \<in> set (filter (\<lambda>it. ti_ConversationID it = conv) L)" by (metis list.set_intros(1) set_rev)
  then show ?thesis using Cons by (auto simp: lastOf_def)
next
  case Nil
  then show ?thesis by (auto simp: lastOf_def filter_empty_conv)
qed

lemma lastOf_key:
  assumes "lastOf L k = Some x"
  shows "ti_ConversationID x = k"
proof -
  obtain xs where "rev (filter (\<lambda>it. ti_ConversationID it = k) L) = x # xs"
    using assms by (auto simp: lastOf_def simp del: rev_eq_Cons_iff split: list.splits)
  then have "x \<in> set (filter (\<lambda>it. ti_ConversationID it = k) L)" by (metis list.set_intros(1) set_rev)
  then show ?thesis by simp
qed

lemma pick_known: "pick L conv \<noteq> [] \<Longrightarrow> conv \<in> ti_ConversationID ` set L"
  using lastOf_None [of L conv] by (auto simp: pick_def split: option.splits)

lemma set_logKeys [simp]: "set (logKeys L) = ti_ConversationID ` set L"
  by (simp add: logKeys_def)

lemma strict_logKeys [simp]: "sorted_wrt (<) (logKeys L)"
  by (simp add: logKeys_def strict_sorted_iff)

lemma set_between [simp]: "set (between a p K) = {k \<in> set K. a < k \<and> k \<le> p}"
  by (auto simp: between_def)

lemma strict_between [simp]: "sorted_wrt (<) K \<Longrightarrow> sorted_wrt (<) (between a p K)"
  by (simp add: between_def sorted_wrt_filter)

lemma concat_nonempty: "concat (map f xs) = concat (map f (filter (\<lambda>x. f x \<noteq> []) xs))"
  by (induction xs) auto

text \<open>A snapshot read off any directory that has the keys of the changes.\<close>

lemma snapshot_directory:
  assumes "sorted_wrt (<) K" "ti_ConversationID ` set L \<subseteq> set K"
  shows "concat (map (pick L) (between a p K)) = snapshot L a p"
proof -
  have "filter (\<lambda>k. pick L k \<noteq> []) (between a p K) = filter (\<lambda>k. pick L k \<noteq> []) (between a p (logKeys L))"
    by (rule strict_sorted_equal) (use assms pick_known [of L] in \<open>auto simp: sorted_wrt_filter\<close>)
  then show ?thesis unfolding snapshot_def by (metis concat_nonempty)
qed

lemma between_next:
  assumes "sorted_wrt (<) K" "between p t K = x # ys" "a \<le> p"
  shows "between x t K = ys" "between a x K = between a p K @ [x]" "p < x" "x \<le> t"
proof -
  have s: "sorted_wrt (<) (x # ys)" using assms(1,2) strict_between by metis
  have m: "set (x # ys) = {k \<in> set K. p < k \<and> k \<le> t}" using assms(2) set_between by metis
  then show x: "p < x" "x \<le> t" by auto
  have "{k \<in> set K. x < k \<and> k \<le> t} = set ys" using m s x by force
  then show "between x t K = ys" by (intro strict_sorted_equal) (use assms(1) s in auto)
  have "y \<le> p" if "y \<in> set K" "y < x" for y
  proof (rule ccontr)
    assume "\<not> y \<le> p"
    then have "y \<in> {k \<in> set K. p < k \<and> k \<le> t}" using that x(2) by (simp add: not_le)
    then have "y \<in> set (x # ys)" by (simp only: m)
    then show False using s that(2) by auto
  qed
  moreover have "x \<in> set K" using m by auto
  ultimately have "{k \<in> set K. a < k \<and> k \<le> x} = {k \<in> set K. a < k \<and> k \<le> p} \<union> {x}" using x assms(3) by (auto simp: le_less)
  then have e: "set (between a x K) = set (between a p K @ [x])" unfolding set_append set_between by simp
  have "k < x" if "k \<in> set (between a p K)" for k using that x(1) by (auto dest: le_less_trans)
  then have "sorted_wrt (<) (between a p K @ [x])" using strict_between [OF assms(1)] by (simp add: sorted_wrt_append del: set_between)
  then show "between a x K = between a p K @ [x]" by (rule strict_sorted_equal [OF _ strict_between [OF assms(1)] e])
qed

section \<open>The directory\<close>

lemma directory_keys:
  assumes "projInv db"
  shows "sorted_wrt (<) (map ky_conv (directoryRows db user))" "ti_ConversationID ` set (logItems db user) \<subseteq> set (map ky_conv (directoryRows db user))"
proof -
  have "inj_on ky_conv (set (filter (\<lambda>k. ky_user k = user) (cd_keys db)))" "distinct (cd_keys db)"
    using assms by (auto simp: projInv_def distinct_map inj_on_def)
  then have "distinct (map ky_conv (directoryRows db user))" by (simp add: directoryRows_def distinct_map)
  then show "sorted_wrt (<) (map ky_conv (directoryRows db user))" by (simp add: strict_sorted_iff directoryRows_def)
  have "ch_conv r \<in> ky_conv ` {k \<in> set (cd_keys db). ky_user k = user}" if "r \<in> set (cd_changes db)" "ch_user r = user" for r
  proof -
    have "list_ex (\<lambda>k. ky_user k = ch_user r \<and> ky_conv k = ch_conv r) (cd_keys db)"
      using assms that(1) unfolding projInv_def list_all_iff by blast
    then show ?thesis using that(2) by (auto simp: list_ex_iff image_iff)
  qed
  then show "ti_ConversationID ` set (logItems db user) \<subseteq> set (map ky_conv (directoryRows db user))"
    by (auto simp: logItems_def accountLog_def itemOfChange_def directoryRows_def)
qed

lemma log_seqs:
  assumes "projInv db" "map_of (cd_accounts db) user = Some a"
  shows "map ch_seq (accountLog db user) = [1..int (length (accountLog db user))]"
  using projInv_account(6,7) [OF assms] by simp

lemma log_upto:
  assumes "projInv db" "map_of (cd_accounts db) user = Some a"
  shows "filter (\<lambda>r. ch_seq r \<le> int fence) (accountLog db user) = take fence (accountLog db user)"
proof -
  have "0 < ch_seq r" if r: "r \<in> set (accountLog db user)" for r
    using r log_seqs [OF assms] by (metis atLeastAtMost_iff image_eqI set_map set_upto zero_less_one_class.zero_less_one order_less_le_trans)
  then have "filter (\<lambda>r. ch_seq r \<le> int fence) (accountLog db user) = filter (\<lambda>r. int 0 < ch_seq r \<and> ch_seq r \<le> int fence) (accountLog db user)"
    by (intro filter_cong) auto
  then show ?thesis using filter_window [OF log_seqs [OF assms], of 0 fence] by simp
qed

lemma latest_state:
  assumes "projInv db" "map_of (cd_accounts db) user = Some a" "latest fails db user conv fence = Inr st"
  shows "st = lastOf (take fence (logItems db user)) conv"
proof -
  have "filter (\<lambda>r. ch_conv r = conv \<and> ch_seq r \<le> int fence) (changesOf db user) = filter (\<lambda>r. ch_conv r = conv) (take fence (accountLog db user))"
    unfolding changesOf_log [OF assms(1,2)] log_upto [OF assms(1,2), symmetric] filter_filter by (intro filter_cong) auto
  moreover have "lastOf (take fence (logItems db user)) conv =
      map_option itemOfChange (case rev (filter (\<lambda>r. ch_conv r = conv) (take fence (accountLog db user))) of [] \<Rightarrow> None | r # _ \<Rightarrow> Some r)"
    by (auto simp: lastOf_def logItems_def take_map filter_map comp_def itemOfChange_def rev_map split: list.splits)
  ultimately show ?thesis
    using assms(3) by (auto simp: latest_def latestRow_def bindR_eq_Inr dest: scanItem_change split: if_splits option.splits)
qed

lemma young_key:
  assumes "projInv db" "map_of (cd_accounts db) user = Some a" "k \<in> set (directoryRows db user)" "int fence < ky_first k"
  shows "lastOf (take fence (logItems db user)) (ky_conv k) = None"
proof -
  obtain r where r: "find (\<lambda>r. ch_conv r = ky_conv k) (accountLog db user) = Some r" "ch_seq r = ky_first k"
    using assms(1,3) by (auto simp: projInv_def list_all_iff keyOK_def directoryRows_def)
  have "\<not> (\<exists>x \<in> set (take fence (accountLog db user)). ch_conv x = ky_conv k)"
  proof
    assume "\<exists>x \<in> set (take fence (accountLog db user)). ch_conv x = ky_conv k"
    then obtain y where y: "find (\<lambda>r. ch_conv r = ky_conv k) (take fence (accountLog db user)) = Some y"
      by (metis (mono_tags, lifting) find_None_iff option.exhaust)
    then have "y \<in> set (take fence (accountLog db user))" by (metis (no_types, lifting) find_Some_iff nth_mem)
    then have "ch_seq y \<le> int fence" unfolding log_upto [OF assms(1,2), symmetric] by simp
    moreover have "find (\<lambda>r. ch_conv r = ky_conv k) (take fence (accountLog db user) @ drop fence (accountLog db user)) = Some y"
      unfolding find_append y by simp
    ultimately show False using r assms(4) by simp
  qed
  then show ?thesis by (auto simp: lastOf_None logItems_def take_map itemOfChange_def)
qed

definition bootCandidates :: "(bytes \<Rightarrow> bool) \<Rightarrow> syncItem list \<Rightarrow> Candidate list \<Rightarrow> bytes list \<Rightarrow> bool" where
  "bootCandidates member L cs keys \<longleftrightarrow> list_all2 (\<lambda>c k. ca_Key c = k \<and> ca_State c = lastOf L k \<and> (ca_Member c \<longrightarrow> member k)) cs keys"

lemma directory_candidates_Inr:
  assumes "projInv db" "map_of (cd_accounts db) user = Some a"
  shows "directory_candidates fails n db user fence es = Inr cs \<Longrightarrow> set es \<subseteq> set (directoryRows db user) \<Longrightarrow>
    bootCandidates (isMember db user) (take fence (logItems db user)) cs (map ky_conv es)"
proof (induction es arbitrary: n cs)
  case (Cons e es)
  have "ca_Key c = ky_conv e \<and> ca_State c = lastOf (take fence (logItems db user)) (ky_conv e) \<and> (ca_Member c \<longrightarrow> isMember db user (ky_conv e))"
    if "(if int fence < ky_first e then Inr \<lparr>ca_Key = ky_conv e, ca_State = None, ca_Member = False, ca_Latest = None\<rparr>
            else bindR (latest (fails n) db user (ky_conv e) fence) (\<lambda>state. case state of
                None \<Rightarrow> Inl ConvStorageUnavailable
              | Some st \<Rightarrow> authorizeCandidate fails (n + 1) db user (ky_conv e) st)) = Inr c" for c
    using that young_key [OF assms, of e fence] latest_state [OF assms, of "fails n" "ky_conv e" fence] Cons.prems(2)
    by (auto simp: bindR_eq_Inr dest!: authorizeCandidate_Inr split: if_splits option.splits)
  then show ?case using Cons by (auto simp: bindR_eq_Inr bootCandidates_def)
qed (simp add: bootCandidates_def)

section \<open>What the store returns for a bootstrap\<close>

lemma directory_page:
  fixes D :: "keyRow list" and a t :: bytes and n :: nat
  assumes K: "sorted_wrt (<) (map ky_conv D)"
  defines "entries \<equiv> take n (filter (\<lambda>k. a < ky_conv k \<and> ky_conv k \<le> t) D)"
  shows "\<exists>rest. between a t (map ky_conv D) = map ky_conv entries @ rest \<and>
    (length entries < n \<or> entries \<noteq> [] \<and> t \<le> ky_conv (last entries) \<longrightarrow> rest = [])"
proof -
  let ?F = "filter (\<lambda>k. a < ky_conv k \<and> ky_conv k \<le> t) D"
  have b: "between a t (map ky_conv D) = map ky_conv entries @ map ky_conv (drop n ?F)"
    unfolding between_def entries_def filter_map map_append [symmetric] append_take_drop_id by (simp add: comp_def)
  have "drop n ?F = []" if "length entries < n" using that by (simp add: entries_def)
  moreover have "map ky_conv (drop n ?F) = []" if e: "entries \<noteq> []" "t \<le> ky_conv (last entries)"
  proof (rule ccontr)
    assume "map ky_conv (drop n ?F) \<noteq> []"
    then obtain x where x: "x \<in> set (map ky_conv (drop n ?F))" by (meson last_in_set)
    have "sorted_wrt (<) (map ky_conv entries @ map ky_conv (drop n ?F))" using strict_between [OF K] b by metis
    moreover have "ky_conv (last entries) \<in> set (map ky_conv entries)" using e(1) by simp
    ultimately have "ky_conv (last entries) < x" using x unfolding sorted_wrt_append by blast
    moreover have "x \<in> set (between a t (map ky_conv D))" using x b by simp
    ultimately show False using e(2) by auto
  qed
  ultimately show ?thesis using b by auto
qed

lemma Conv_Read_bootstrap:
  assumes "Conv_Read env db user request = Inr result" "cr_Kind request = BootstrapRead" "projInv db"
  obtains a keys rest where "map_of (cd_accounts db) user = Some a"
    "cs_Fence result = (if cr_Start request then length (logItems db user) else cr_Fence request)" "cs_Fence result \<le> length (logItems db user)"
    "cr_TerminalKey request = [] \<longrightarrow> cr_Start request \<longrightarrow> cs_TerminalKey result = terminalKeyOf db user"
    "\<not> cr_Start request \<longrightarrow> cs_TerminalKey result = cr_TerminalKey request"
    "bootCandidates (isMember db user) (take (cs_Fence result) (logItems db user)) (cs_Candidates result) keys"
    "between (cr_AfterKey request) (cs_TerminalKey result) (map ky_conv (directoryRows db user)) = keys @ rest" "cs_Exhausted result \<longrightarrow> rest = []"
proof -
  obtain a where a: "map_of (cd_accounts db) user = Some a" "readPositionCheck request a = Inr ()"
    "cs_Fence result = (if cr_Start request then nat (ac_head a) else cr_Fence request)"
    "cs_TerminalKey result = (if cr_Start request \<and> terminalKeyOf db user \<noteq> [] then terminalKeyOf db user else cr_TerminalKey request)"
    "readDirectory env db user (cr_AfterKey request) (cs_Fence result) (cs_TerminalKey result) = Inr (cs_Candidates result, cs_Exhausted result)"
    using assms(1,2) by (auto simp: Conv_Read_def bindR_eq_Inr Let_def split: if_splits option.splits list.splits)
  have len: "ac_head a = int (length (logItems db user))" using projInv_account(7) [OF assms(3) a(1)] by (simp add: length_logItems)
  then have f: "cs_Fence result = (if cr_Start request then length (logItems db user) else cr_Fence request)" "cs_Fence result \<le> length (logItems db user)"
    using a(2,3) assms(2) by (auto simp: readPositionCheck_def Let_def split: if_splits)
  define entries where "entries = take MaxDirectoryCandidates (filter (\<lambda>k. cr_AfterKey request < ky_conv k \<and> ky_conv k \<le> cs_TerminalKey result) (directoryRows db user))"
  have r: "directory_candidates (env_stmt env) 4 db user (cs_Fence result) entries = Inr (cs_Candidates result)"
    "cs_Exhausted result = (length entries < MaxDirectoryCandidates \<or> entries \<noteq> [] \<and> cs_TerminalKey result \<le> ky_conv (last entries))"
    using a(5) by (auto simp: readDirectory_def entries_def bindR_eq_Inr Let_def split: if_splits)
  have "set entries \<subseteq> set (directoryRows db user)" by (auto simp: entries_def dest: in_set_takeD)
  note c = directory_candidates_Inr [OF assms(3) a(1) r(1) this]
  obtain rest where "between (cr_AfterKey request) (cs_TerminalKey result) (map ky_conv (directoryRows db user)) = map ky_conv entries @ rest"
    "cs_Exhausted result \<longrightarrow> rest = []"
    using directory_page [OF directory_keys(1) [OF assms(3), of user], of "cr_AfterKey request" "cs_TerminalKey result" MaxDirectoryCandidates]
    unfolding r(2) entries_def by blast
  then show thesis using a(4) by (intro that [OF a(1) f _ _ c]) auto
qed

section \<open>Assembling a bootstrap page\<close>

definition shown :: "syncItem list \<Rightarrow> bytes list \<Rightarrow> bytes \<Rightarrow> bytes \<Rightarrow> syncItem list" where
  "shown L K a p = concat (map (pick L) (between a p K))"

text \<open>Every prefix of the entries is what the keys up to its position show.\<close>

definition covers :: "syncItem list \<Rightarrow> bytes list \<Rightarrow> bytes \<Rightarrow> itemEnvelope list \<Rightarrow> cursorPosition \<Rightarrow> bool" where
  "covers L K a es pos \<longleftrightarrow> (\<forall>j \<le> length es. map en_item (take j es) = shown L K a (po_key (positionAt es pos j)) \<and>
     positionAt es pos j = keyPosition (po_key (positionAt es pos j)) \<and> a \<le> po_key (positionAt es pos j))"

definition memberItems :: "(bytes \<Rightarrow> bool) \<Rightarrow> syncItem list \<Rightarrow> bool" where
  "memberItems member items \<longleftrightarrow> list_all (\<lambda>it. ti_Kind it = ''upsert'' \<longrightarrow> member (ti_ConversationID it)) items"

lemma coversD: "covers L K a es pos \<Longrightarrow> map en_item es = shown L K a (po_key pos) \<and> pos = keyPosition (po_key pos) \<and> a \<le> po_key pos"
  unfolding covers_def by (drule spec [of _ "length es"]) (simp add: positionAt_def)

lemma covers_skip:
  assumes "covers L K a es pos" "map en_item es = shown L K a key" "a \<le> key"
  shows "covers L K a es (keyPosition key)"
  using assms unfolding covers_def by (auto simp: positionAt_def le_less keyPosition_def)

lemma covers_add:
  assumes "covers L K a es pos" "map en_item es @ [item] = shown L K a key" "a \<le> key"
  shows "covers L K a (es @ [\<lparr>en_item = item, en_before = pos, en_after = after\<rparr>]) (keyPosition key)"
  unfolding covers_def
proof (intro allI impI)
  fix j
  assume j: "j \<le> length (es @ [\<lparr>en_item = item, en_before = pos, en_after = after\<rparr>])"
  have "positionAt (es @ [\<lparr>en_item = item, en_before = pos, en_after = after\<rparr>]) (keyPosition key) j = positionAt es pos j" if "j \<le> length es"
    using that by (auto simp: positionAt_def nth_append le_less)
  then show "map en_item (take j (es @ [\<lparr>en_item = item, en_before = pos, en_after = after\<rparr>])) =
      shown L K a (po_key (positionAt (es @ [\<lparr>en_item = item, en_before = pos, en_after = after\<rparr>]) (keyPosition key) j)) \<and>
      positionAt (es @ [\<lparr>en_item = item, en_before = pos, en_after = after\<rparr>]) (keyPosition key) j =
      keyPosition (po_key (positionAt (es @ [\<lparr>en_item = item, en_before = pos, en_after = after\<rparr>]) (keyPosition key) j)) \<and>
      a \<le> po_key (positionAt (es @ [\<lparr>en_item = item, en_before = pos, en_after = after\<rparr>]) (keyPosition key) j)"
    using assms j by (cases "j \<le> length es") (auto simp: covers_def positionAt_def keyPosition_def not_le)
qed

lemma selectBootstrap_Inr:
  assumes "selectBootstrapCandidate c fence = Inr sel" "ca_State c = lastOf L k" "ca_Member c \<longrightarrow> member k"
  shows "pick L k = (case sel of None \<Rightarrow> [] | Some it \<Rightarrow> [it])" "sel = Some it \<Longrightarrow> member k \<and> ti_ConversationID it = k"
proof -
  note k = lastOf_key [of L k]
  show "pick L k = (case sel of None \<Rightarrow> [] | Some it \<Rightarrow> [it])"
    using assms by (cases "lastOf L k") (auto simp: selectBootstrapCandidate_def pick_def split: option.splits if_splits, metis)
  show "member k \<and> ti_ConversationID it = k" if "sel = Some it"
    using that assms k by (auto simp: selectBootstrapCandidate_def split: option.splits if_splits)
qed

lemma bootstrap_loop_ok:
  assumes "bootstrap_loop limit fence ex es pos mo cs = Inr (es', pos', mo')" "sorted_wrt (<) K" "bootCandidates member L cs keys"
    "between (po_key pos) t K = keys @ rest" "covers L K a es pos" "memberItems member (map en_item es)"
    "po_key pos = a \<or> po_key pos \<le> t"
  shows "covers L K a es' pos' \<and> memberItems member (map en_item es') \<and> (\<not> mo' \<longrightarrow> between (po_key pos') t K = rest) \<and>
    (po_key pos' = a \<or> po_key pos' \<le> t)"
  using assms
proof (induction cs arbitrary: es pos keys)
  case Nil
  then show ?case by (auto simp: bootCandidates_def)
next
  case (Cons c cs)
  obtain k ks where k: "keys = k # ks" "ca_Key c = k" "ca_State c = lastOf L k" "ca_Member c \<longrightarrow> member k" "bootCandidates member L cs ks"
    using Cons.prems(3) by (auto simp: bootCandidates_def list_all2_Cons1)
  obtain sel where sel: "selectBootstrapCandidate c fence = Inr sel" using Cons.prems(1) by (auto simp: bindR_eq_Inr)
  note pick = selectBootstrap_Inr [of c fence sel L k member, OF sel k(3,4)] and cov = coversD [OF Cons.prems(5)]
  note nxt = between_next [OF Cons.prems(2), of "po_key pos" t k "ks @ rest" a]
  have b: "between k t K = ks @ rest" "shown L K a k = shown L K a (po_key pos) @ pick L k" "a \<le> k" "k \<le> t"
    using nxt Cons.prems(4) k(1) cov by (auto simp: shown_def)
  show ?case
  proof (cases sel)
    case None
    have "covers L K a es (keyPosition k)" using covers_skip [OF Cons.prems(5)] b cov pick(1) None by simp
    then show ?thesis using Cons.IH [OF _ Cons.prems(2) k(5), of es "keyPosition k"] Cons.prems(1,6) sel None b(1,4) k(2)
      by (simp add: keyPosition_def)
  next
    case (Some item)
    let ?es = "es @ [\<lparr>en_item = item, en_before = pos, en_after = keyPosition k\<rparr>]"
    have c: "covers L K a ?es (keyPosition k)" using covers_add [OF Cons.prems(5)] b cov pick(1) Some by simp
    have m: "memberItems member (map en_item ?es)" using Cons.prems(6) pick(2) [OF Some] by (simp add: memberItems_def)
    have "po_key (keyPosition k) = k" by (simp add: keyPosition_def)
    consider (full) "limit \<le> int (length es)" | (last) "\<not> limit \<le> int (length es)" "limit \<le> int (length ?es)" | (go) "\<not> limit \<le> int (length ?es)"
      by fastforce
    then show ?thesis
    proof cases
      case full
      then show ?thesis using Cons.prems(1,5-7) sel Some by auto
    next
      case last
      have "cs = [] \<Longrightarrow> ks = []" using k(5) by (simp add: bootCandidates_def)
      moreover have "es' = ?es" "pos' = keyPosition k" "mo' \<longleftrightarrow> cs \<noteq> [] \<or> \<not> ex"
        using Cons.prems(1) sel Some last k(2) by (auto simp: Let_def)
      ultimately show ?thesis using c m b(1,4) \<open>po_key (keyPosition k) = k\<close> by simp
    next
      case go
      then have "bootstrap_loop limit fence ex ?es (keyPosition k) mo cs = Inr (es', pos', mo')"
        using Cons.prems(1) sel Some k(2) by (auto simp: Let_def)
      then show ?thesis using Cons.IH [OF _ Cons.prems(2) k(5) _ c m] b(1,4) \<open>po_key (keyPosition k) = k\<close> by simp
    qed
  qed
qed

text \<open>A page of a bootstrap round: what the changes up to the fence show for a range of keys, and the cursor behind it.\<close>

definition bootPiece :: "convConfig \<Rightarrow> convdb \<Rightarrow> bytes \<Rightarrow> syncCursor \<Rightarrow> nat \<Rightarrow> convPage \<Rightarrow> bytes \<Rightarrow> bool" where
  "bootPiece config db user base now page p \<longleftrightarrow>
     memberItems (isMember db user) (cp_Items page) \<and>
     cp_Items page = snapshot (take (cu_fence base) (logItems db user)) (cu_afterKey base) (if cp_HasMore page then p else cu_terminalKey base) \<and>
     (cp_HasMore page \<longrightarrow> cu_afterKey base < p) \<and>
     (\<exists>token. nextToken config base (keyPosition p) (cp_HasMore page) now = Inr token \<and> encodeCursor (cf_Keys config) token = Inr (cp_NextCursor page))"

lemma between_done:
  assumes "between p t K = []" "a \<le> p" "p = a \<or> p \<le> t"
  shows "between a p K = between a t K"
  unfolding between_def
proof (rule filter_cong)
  fix k
  assume "k \<in> set K"
  then have "\<not> (p < k \<and> k \<le> t)" using assms(1) unfolding between_def filter_empty_conv by blast
  then show "(a < k \<and> k \<le> p) = (a < k \<and> k \<le> t)" using assms(2,3) by (auto simp: not_le)
qed simp

lemma boot_page:
  assumes "assembleBootstrap result base = Inr (es, pos, mo)" "renderAssembledPage config base es pos mo now = Inr page"
    "cu_kind base = cursorKindBootstrapPage" "projInv db"
    "bootCandidates (isMember db user) (take (cu_fence base) (logItems db user)) (cs_Candidates result) keys"
    "between (cu_afterKey base) (cu_terminalKey base) (map ky_conv (directoryRows db user)) = keys @ rest" "cs_Exhausted result \<longrightarrow> rest = []"
  obtains p where "bootPiece config db user base now page p"
proof -
  let ?L = "take (cu_fence base) (logItems db user)" and ?K = "map ky_conv (directoryRows db user)" and ?a = "cu_afterKey base"
  have K: "sorted_wrt (<) ?K" "ti_ConversationID ` set ?L \<subseteq> set ?K"
    using directory_keys [OF assms(4), of user] set_take_subset [of "cu_fence base" "logItems db user"] by auto
  have snap: "shown ?L ?K ?a q = snapshot ?L ?a q" for q unfolding shown_def by (rule snapshot_directory [OF K])
  have "between ?a ?a ?K = []" by (auto simp: between_def filter_empty_conv)
  then have "covers ?L ?K ?a [] (keyPosition ?a)" by (simp add: covers_def positionAt_def shown_def keyPosition_def)
  moreover obtain mo' where mo: "bootstrap_loop (cu_limit base) (cs_Fence result) (cs_Exhausted result) [] (keyPosition ?a)
      (\<not> cs_Exhausted result) (cs_Candidates result) = Inr (es, pos, mo')" "mo \<longleftrightarrow> mo' \<or> \<not> cs_Exhausted result"
    using assms(1) by (auto simp: assembleBootstrap_def bindR_eq_Inr)
  ultimately have l: "covers ?L ?K ?a es pos" "memberItems (isMember db user) (map en_item es)"
    "\<not> mo' \<Longrightarrow> between (po_key pos) (cu_terminalKey base) ?K = rest" "po_key pos = ?a \<or> po_key pos \<le> cu_terminalKey base"
    using bootstrap_loop_ok [OF mo(1) K(1) assms(5), of "cu_terminalKey base" rest ?a] assms(6) by (auto simp: keyPosition_def memberItems_def)
  obtain k where k: "k \<le> length es" "pageAt config base es pos mo now k page"
    using assms(2) render_loop_page unfolding renderAssembledPage_def by blast
  define p where "p = po_key (positionAt es pos k)"
  have c: "map en_item (take k es) = snapshot ?L ?a p" "positionAt es pos k = keyPosition p"
    using l(1) k(1) by (auto simp: covers_def p_def snap)
  have "snapshot ?L ?a p = snapshot ?L ?a (cu_terminalKey base)" if "\<not> cp_HasMore page"
  proof -
    have e: "k = length es" "\<not> mo'" "rest = []" using that k mo(2) assms(7) by (auto simp: pageAt_def)
    then have "p = po_key pos" by (simp add: p_def positionAt_def)
    then show ?thesis using between_done [OF _ _ l(4)] l(3) e coversD [OF l(1)] by (simp add: shown_def flip: snap)
  qed
  moreover have "?a < p" if "cp_HasMore page"
    using that k(2) c(2) assms(3) by (auto simp: pageAt_def cursorAdvanced_def cursor_kinds keyPosition_def)
  moreover have "memberItems (isMember db user) (cp_Items page)"
    using l(2) k(2) by (auto simp: pageAt_def memberItems_def list_all_iff dest: in_set_takeD)
  ultimately show thesis using k(2) c by (intro that [of p]) (auto simp: bootPiece_def pageAt_def)
qed

end
