(* ===== verification/SyncConvergence.thy ===== *)
theory SyncConvergence
  imports BootstrapFacts
begin

text \<open>
  A client of the conversation sync service that bootstraps and then follows the changes ends with the projection of its
  account: bootstrap rounds as \<^verbatim>\<open>measured_round\<close>, what the items of all rounds together come to, and that all rounds end.
\<close>

section \<open>Bootstrap rounds\<close>

lemma BeginBootstrap_Inr:
  assumes "BeginBootstrap config ctx env clock db user limit = Inr page" "projInv db"
  obtains now base p where "cu_account base = user" "cu_fence base = length (logItems db user)" "cu_afterKey base = []"
    "cu_terminalKey base = terminalKeyOf db user" "bootPiece config db user base now page p"
proof -
  obtain n now expires result es pos mo base request where r: "Conv_Read env db user request = Inr result" "cr_Kind request = BootstrapRead"
    "request = \<lparr>cr_Kind = BootstrapRead, cr_Start = True, cr_Epoch = 0, cr_Fence = 0, cr_AfterSeq = 0,
      cr_AfterKey = [], cr_TerminalKey = [], cr_Limit = n\<rparr>"
    and base: "assembleBootstrap result base = Inr (es, pos, mo)" "renderAssembledPage config base es pos mo now = Inr page"
    "base = \<lparr>cu_kind = cursorKindBootstrapPage, cu_keyID = cf_ActiveKeyID config, cu_account = user,
      cu_epoch = cs_Epoch result, cu_issued = now, cu_expires = expires, cu_limit = n, cu_fence = cs_Fence result,
      cu_afterSeq = 0, cu_afterKey = [], cu_terminalKey = cs_TerminalKey result\<rparr>"
    using assms(1) by (auto simp: BeginBootstrap_def readStore_def bindR_eq_Inr Let_def split: if_splits)
  obtain a keys rest where a: "map_of (cd_accounts db) user = Some a"
    "cs_Fence result = (if cr_Start request then length (logItems db user) else cr_Fence request)"
    "cr_TerminalKey request = [] \<longrightarrow> cr_Start request \<longrightarrow> cs_TerminalKey result = terminalKeyOf db user"
    "bootCandidates (isMember db user) (take (cs_Fence result) (logItems db user)) (cs_Candidates result) keys"
    "between (cr_AfterKey request) (cs_TerminalKey result) (map ky_conv (directoryRows db user)) = keys @ rest" "cs_Exhausted result \<longrightarrow> rest = []"
    by (rule Conv_Read_bootstrap [OF r(1,2) assms(2)])
  have b: "cu_kind base = cursorKindBootstrapPage" "cu_account base = user" "cu_fence base = length (logItems db user)" "cu_afterKey base = []"
    "cu_terminalKey base = terminalKeyOf db user" "cs_Fence result = cu_fence base" "cs_TerminalKey result = cu_terminalKey base" "cr_AfterKey request = cu_afterKey base"
    using a(2,3) base(3) r(3) by simp_all
  obtain p where "bootPiece config db user base now page p"
    by (rule boot_page [OF base(1,2) b(1) assms(2) a(4) [unfolded b(6)] a(5) [unfolded b(7,8)] a(6)])
  then show thesis by (rule that [OF b(2-5)])
qed

lemma ContinueBootstrap_Inr:
  assumes "ContinueBootstrap config ctx env clock db user cursor = Inr page" "projInv db"
  obtains now token p where "decodeCursor (cf_Keys config) cursor cursorKindBootstrapPage user now = Inr token"
    "cu_fence token \<le> length (logItems db user)" "bootPiece config db user token now page p"
proof -
  obtain now token result es pos mo request where t: "decodeCursor (cf_Keys config) cursor cursorKindBootstrapPage user now = Inr token"
    and r: "Conv_Read env db user request = Inr result" "cr_Kind request = BootstrapRead"
    "request = \<lparr>cr_Kind = BootstrapRead, cr_Start = False, cr_Epoch = cu_epoch token, cr_Fence = cu_fence token,
      cr_AfterSeq = 0, cr_AfterKey = cu_afterKey token, cr_TerminalKey = cu_terminalKey token, cr_Limit = cu_limit token\<rparr>"
    and base: "assembleBootstrap result token = Inr (es, pos, mo)" "renderAssembledPage config token es pos mo now = Inr page"
    using assms(1) by (auto simp: ContinueBootstrap_def readStore_def bindR_eq_Inr split: if_splits)
  obtain a keys rest where a: "cs_Fence result = (if cr_Start request then length (logItems db user) else cr_Fence request)"
    "cs_Fence result \<le> length (logItems db user)" "\<not> cr_Start request \<longrightarrow> cs_TerminalKey result = cr_TerminalKey request"
    "bootCandidates (isMember db user) (take (cs_Fence result) (logItems db user)) (cs_Candidates result) keys"
    "between (cr_AfterKey request) (cs_TerminalKey result) (map ky_conv (directoryRows db user)) = keys @ rest" "cs_Exhausted result \<longrightarrow> rest = []"
    by (rule Conv_Read_bootstrap [OF r(1,2) assms(2)])
  have b: "cs_Fence result = cu_fence token" "cs_TerminalKey result = cu_terminalKey token" "cr_AfterKey request = cu_afterKey token"
    using a(1,3) r(3) by simp_all
  have "cu_kind token = cursorKindBootstrapPage" using encoded_decode [OF t] by blast
  then obtain p where "bootPiece config db user token now page p"
    by (rule boot_page [OF base _ assms(2) a(4) [unfolded b(1)] a(5) [unfolded b(2,3)] a(6)])
  then show thesis by (rule that [OF t a(2) [unfolded b(1)]])
qed

definition bootAt :: "convConfig \<Rightarrow> bytes \<Rightarrow> (nat \<Rightarrow> convWorld) \<Rightarrow> nat \<Rightarrow> bytes \<Rightarrow> (convCode, convPage) result" where
  "bootAt config user w i cursor = ContinueBootstrap config (wo_ctx (w i)) (wo_env (w i)) (wo_clock (w i)) (wo_db (w i)) user cursor"

definition bootRound :: "convConfig \<Rightarrow> bytes \<Rightarrow> (nat \<Rightarrow> convWorld) \<Rightarrow> nat \<Rightarrow> nat \<Rightarrow> int \<Rightarrow> (convCode, syncItem list \<times> bytes \<times> nat) result option" where
  "bootRound config user w fuel i limit =
     (case BeginBootstrap config (wo_ctx (w i)) (wo_env (w i)) (wo_clock (w i)) (wo_db (w i)) user limit of
        Inl e \<Rightarrow> Some (Inl e)
      | Inr page \<Rightarrow> followPages (bootAt config user w) fuel i page)"

definition bootPieceAt :: "convConfig \<Rightarrow> bytes \<Rightarrow> (nat \<Rightarrow> convWorld) \<Rightarrow> syncItem list \<Rightarrow> nat \<Rightarrow> syncCursor \<Rightarrow> convPage \<Rightarrow> bool" where
  "bootPieceAt config user w L i base page \<longleftrightarrow> convHistory w \<and> cu_account base = user \<and> cu_fence base = length L \<and>
     cu_fence base \<le> length (logItems (wo_db (w i)) user) \<and> take (cu_fence base) (logItems (wo_db (w i)) user) = L \<and>
     (\<exists>now p. bootPiece config (wo_db (w i)) user base now page p)"

lemma snapshot_glue:
  assumes "a \<le> p" "p \<le> t"
  shows "snapshot L a t = snapshot L a p @ snapshot L p t"
proof -
  have "between a t (logKeys L) = between a p (logKeys L) @ between p t (logKeys L)"
  proof (rule strict_sorted_equal)
    show "sorted_wrt (<) (between a p (logKeys L) @ between p t (logKeys L))"
      by (auto simp: sorted_wrt_append dest: le_less_trans)
    show "set (between a t (logKeys L)) = set (between a p (logKeys L) @ between p t (logKeys L))"
      using assms by (auto simp: not_le dest: le_less_trans order_trans)
  qed simp
  then show ?thesis by (simp add: snapshot_def)
qed

text \<open>
  Every cursor of a round stands at an identifier, behind the one before; there are only so many identifiers, so that a
  round cannot go on forever, even when keys keep arriving before its terminal key.
\<close>

definition keysLeft :: "syncCursor \<Rightarrow> nat" where
  "keysLeft c = card {k. validIdentifier k \<and> cu_afterKey c < k}"

lemma finite_identifiers: "finite {k. validIdentifier k}"
proof (rule finite_subset)
  show "{k. validIdentifier k} \<subseteq> {k. set k \<subseteq> UNIV \<and> length k \<le> 128}" using ident128_length by auto
qed (rule finite_lists_length_le, rule finite)

lemma keysLeft_less: "validIdentifier (cu_afterKey c') \<Longrightarrow> cu_afterKey c < cu_afterKey c' \<Longrightarrow> keysLeft c' < keysLeft c"
  unfolding keysLeft_def by (rule psubset_card_mono) (auto intro: finite_subset [OF _ finite_identifiers] less_trans)

lemma bootPieceAt_next:
  assumes "bootPieceAt config user w L i base page" "cp_HasMore page" "bootAt config user w (Suc i) (cp_NextCursor page) = Inr page'"
  shows "\<exists>c'. bootPieceAt config user w L (Suc i) c' page' \<and>
    snapshot L (cu_afterKey base) (cu_terminalKey base) = cp_Items page @ snapshot L (cu_afterKey c') (cu_terminalKey c') \<and>
    keysLeft c' < keysLeft base"
proof -
  obtain now p where h: "convHistory w" "cu_account base = user" "cu_fence base = length L" "cu_fence base \<le> length (logItems (wo_db (w i)) user)"
    "take (cu_fence base) (logItems (wo_db (w i)) user) = L" and d: "bootPiece config (wo_db (w i)) user base now page p"
    using assms(1) by (auto simp: bootPieceAt_def)
  obtain token where t: "nextToken config base (keyPosition p) True now = Inr token" "encodeCursor (cf_Keys config) token = Inr (cp_NextCursor page)"
    using d assms(2) by (auto simp: bootPiece_def)
  obtain now' token' p' where n: "decodeCursor (cf_Keys config) (cp_NextCursor page) cursorKindBootstrapPage user now' = Inr token'"
      "cu_fence token' \<le> length (logItems (wo_db (w (Suc i))) user)" "bootPiece config (wo_db (w (Suc i))) user token' now' page' p'"
    by (rule ContinueBootstrap_Inr [OF assms(3) [unfolded bootAt_def] history_inv [OF h(1)]])
  have same: "token' = token" using encodeCursor_inj encoded_decode [OF n(1)] t(2) by blast
  have b: "cu_account token = user" "cu_fence token = cu_fence base" "cu_afterKey token = p" "cu_terminalKey token = cu_terminalKey base"
    using t(1) h(2) by (auto simp: nextToken_def keyPosition_def split: if_splits)
  have "cu_kind token = cursorKindBootstrapPage" using encoded_decode [OF n(1)] same by blast
  moreover have "validateCursorForEncoding token = Inr ()" using t(2) encodeCursor_Inr by blast
  ultimately have pos: "bootstrapPosition token" "cu_afterKey token \<noteq> [] \<longrightarrow> validIdentifier (cu_afterKey token)"
    by (auto simp: validateCursorForEncoding_def split: if_splits)
  have p: "cu_afterKey base < p" using d assms(2) by (simp add: bootPiece_def)
  then have pt: "p \<le> cu_terminalKey base" using pos(1) b(3,4) by (auto simp: bootstrapPosition_def not_less split: if_splits)
  have "validIdentifier p" using p pos(2) b(3) by auto
  then have less: "keysLeft token < keysLeft base" using p b(3) by (intro keysLeft_less) simp_all
  have it: "cp_Items page = snapshot L (cu_afterKey base) p" using d h(5) assms(2) by (simp add: bootPiece_def)
  have "snapshot L (cu_afterKey base) (cu_terminalKey base) = cp_Items page @ snapshot L (cu_afterKey token) (cu_terminalKey token)"
    unfolding b(3,4) it by (rule snapshot_glue [OF less_imp_le [OF p] pt])
  moreover have "take (cu_fence base) (logItems (wo_db (w (Suc i))) user) = L" using history_prefix [OF h(1) _ h(4), of "Suc i"] h(5) by simp
  then have "bootPieceAt config user w L (Suc i) token page'" using n(2,3) same b h by (auto simp: bootPieceAt_def)
  ultimately show ?thesis using less by blast
qed

interpretation boot: measured_round "bootAt config user w" "bootPieceAt config user w L" "\<lambda>c. snapshot L (cu_afterKey c) (cu_terminalKey c)"
    "checkpointAt config user (length L)" keysLeft
  for config user w L
proof
  show "cp_Items page = snapshot L (cu_afterKey c) (cu_terminalKey c) \<and> checkpointAt config user (length L) (cp_NextCursor page)"
    if "bootPieceAt config user w L i c page" "\<not> cp_HasMore page" for i c page
    using that by (fastforce simp: bootPieceAt_def bootPiece_def checkpointAt_def nextToken_def bindR_eq_Inr)
  fix i c page page'
  assume "bootPieceAt config user w L i c page" "cp_HasMore page" "bootAt config user w (Suc i) (cp_NextCursor page) = Inr page'"
  note next_page = bootPieceAt_next [OF this]
  show "\<exists>c'. bootPieceAt config user w L (Suc i) c' page' \<and>
      snapshot L (cu_afterKey c) (cu_terminalKey c) = cp_Items page @ snapshot L (cu_afterKey c') (cu_terminalKey c')"
    using next_page by blast
  show "\<exists>c'. bootPieceAt config user w L (Suc i) c' page' \<and> keysLeft c' < keysLeft c" using next_page by blast
qed

lemma terminal_covers:
  assumes "projInv db" "k \<in> ti_ConversationID ` set (logItems db user)"
  shows "k \<le> terminalKeyOf db user"
proof -
  have k: "k \<in> set (map ky_conv (directoryRows db user))" using directory_keys(2) [OF assms(1)] assms(2) by blast
  then obtain xs x where x: "directoryRows db user = xs @ [x]" by (cases "directoryRows db user" rule: rev_cases) auto
  have "sorted (map ky_conv (directoryRows db user))" by (simp add: directoryRows_def)
  then show ?thesis using k unfolding terminalKeyOf_def x by (auto simp: sorted_append)
qed

lemma log_keys_nonempty:
  assumes "projInv db" "k \<in> ti_ConversationID ` set (logItems db user)"
  shows "[] < k"
proof -
  obtain r where r: "r \<in> set (cd_changes db)" "ch_conv r = k" using assms(2) by (auto simp: logItems_def accountLog_def itemOfChange_def)
  then have "changeOK r" using assms(1) by (simp add: projInv_def list_all_iff)
  then have "ident128 k" using r(2) by (auto simp: changeOK_def scanItem_def split: if_splits option.splits)
  then show ?thesis using ident128_length by (cases k) auto
qed

lemma bootRound_exact:
  assumes "bootRound config user w fuel i limit = Some (Inr (items, text, j))" "convHistory w"
  defines "L \<equiv> logItems (wo_db (w i)) user"
  shows "items = concat (map (pick L) (logKeys L)) \<and> checkpointAt config user (length L) text \<and> i \<le> j"
proof -
  obtain page where p: "BeginBootstrap config (wo_ctx (w i)) (wo_env (w i)) (wo_clock (w i)) (wo_db (w i)) user limit = Inr page"
    "followPages (bootAt config user w) fuel i page = Some (Inr (items, text, j))"
    using assms(1) by (auto simp: bootRound_def split: sum.splits)
  note inv = history_inv [OF assms(2), of i]
  obtain now base q where b: "cu_account base = user" "cu_fence base = length (logItems (wo_db (w i)) user)" "cu_afterKey base = []"
    "cu_terminalKey base = terminalKeyOf (wo_db (w i)) user" "bootPiece config (wo_db (w i)) user base now page q"
    by (rule BeginBootstrap_Inr [OF p(1) inv])
  then have "bootPieceAt config user w L i base page" using assms(2) unfolding L_def by (auto simp: bootPieceAt_def)
  from boot.round_exact [OF this p(2)] have "items = snapshot L [] (terminalKeyOf (wo_db (w i)) user)" "checkpointAt config user (length L) text" "i \<le> j"
    using b(3,4) by auto
  moreover have "between [] (terminalKeyOf (wo_db (w i)) user) (logKeys L) = logKeys L"
    unfolding between_def filter_id_conv L_def using terminal_covers [OF inv] log_keys_nonempty [OF inv] by simp
  ultimately show ?thesis by (simp add: snapshot_def)
qed

lemma bootRound_ends: "convHistory w \<Longrightarrow> \<exists>enough. bootRound config user w enough i limit \<noteq> None"
proof (cases "BeginBootstrap config (wo_ctx (w i)) (wo_env (w i)) (wo_clock (w i)) (wo_db (w i)) user limit")
  case (Inr page)
  assume w: "convHistory w"
  obtain now base q where b: "cu_account base = user" "cu_fence base = length (logItems (wo_db (w i)) user)" "cu_afterKey base = []"
    "cu_terminalKey base = terminalKeyOf (wo_db (w i)) user" "bootPiece config (wo_db (w i)) user base now page q"
    by (rule BeginBootstrap_Inr [OF Inr history_inv [OF w]])
  then have "bootPieceAt config user w (logItems (wo_db (w i)) user) i base page" using w by (auto simp: bootPieceAt_def)
  then have "followPages (bootAt config user w) (Suc (keysLeft base)) i page \<noteq> None" by (rule boot.round_ends) simp
  then show ?thesis using Inr by (auto simp: bootRound_def)
qed (simp add: bootRound_def)

lemma bootRound_fuel: "bootRound config user w fuel i limit = Some r \<Longrightarrow> fuel \<le> fuel' \<Longrightarrow> bootRound config user w fuel' i limit = Some r"
  unfolding bootRound_def by (auto split: sum.splits elim: followPages_fuel)

section \<open>The client\<close>

text \<open>
  What a client makes of the items: an upsert sets the conversation, a removal forgets it. The projection of an account is
  what all its changes come to.
\<close>

definition applyItem :: "(bytes \<rightharpoonup> syncItem) \<Rightarrow> syncItem \<Rightarrow> (bytes \<rightharpoonup> syncItem)" where
  "applyItem m it = (if ti_Kind it = ''upsert'' then m(ti_ConversationID it \<mapsto> it) else m(ti_ConversationID it := None))"

definition clientView :: "syncItem list \<Rightarrow> (bytes \<rightharpoonup> syncItem)" where
  "clientView items = foldl applyItem Map.empty items"

text \<open>One bootstrap round and then one delta round for each limit, each a moment after the one before.\<close>

fun followChanges :: "convConfig \<Rightarrow> bytes \<Rightarrow> (nat \<Rightarrow> convWorld) \<Rightarrow> nat \<Rightarrow> nat \<Rightarrow> bytes \<Rightarrow> int list \<Rightarrow> (convCode, syncItem list \<times> bytes \<times> nat) result option" where
  "followChanges config user w fuel i text [] = Some (Inr ([], text, i))"
| "followChanges config user w fuel i text (limit # limits) =
     (case deltaRound config user w fuel (Suc i) text limit of
        None \<Rightarrow> None
      | Some (Inl e) \<Rightarrow> Some (Inl e)
      | Some (Inr (items, text', j)) \<Rightarrow>
          map_option (\<lambda>r. bindR r (\<lambda>(rest, text'', k). Inr (items @ rest, text'', k))) (followChanges config user w fuel j text' limits))"

definition syncClient :: "convConfig \<Rightarrow> bytes \<Rightarrow> (nat \<Rightarrow> convWorld) \<Rightarrow> nat \<Rightarrow> int \<Rightarrow> int list \<Rightarrow> (convCode, syncItem list \<times> bytes \<times> nat) result option" where
  "syncClient config user w fuel limit limits =
     (case bootRound config user w fuel 0 limit of
        None \<Rightarrow> None
      | Some (Inl e) \<Rightarrow> Some (Inl e)
      | Some (Inr (items, text, j)) \<Rightarrow>
          map_option (\<lambda>r. bindR r (\<lambda>(rest, text', k). Inr (items @ rest, text', k))) (followChanges config user w fuel j text limits))"

lemma foldl_applyItem: "foldl applyItem m items conv = (case lastOf items conv of None \<Rightarrow> m conv | Some it \<Rightarrow> if ti_Kind it = ''upsert'' then Some it else None)"
proof (induction items rule: rev_induct)
  case (snoc it items)
  have "lastOf (items @ [it]) conv = (if ti_ConversationID it = conv then Some it else lastOf items conv)" by (simp add: lastOf_def)
  then show ?case using snoc by (simp add: applyItem_def)
qed (simp add: lastOf_def)

lemma lastOf_append: "lastOf (xs @ ys) conv = (case lastOf ys conv of None \<Rightarrow> lastOf xs conv | Some it \<Rightarrow> Some it)"
  by (auto simp: lastOf_def split: list.splits)

lemma lastOf_pick: "lastOf (pick L k) conv = (if k = conv then (case pick L conv of [] \<Rightarrow> None | it # _ \<Rightarrow> Some it) else None)"
proof (cases "pick L k")
  case Nil
  then show ?thesis by (auto simp: lastOf_def)
next
  case (Cons it its)
  then have "its = []" "ti_ConversationID it = k" using lastOf_key [of L k] by (auto simp: pick_def split: option.splits if_splits)
  then show ?thesis using Cons by (auto simp: lastOf_def)
qed

lemma lastOf_picks: "distinct ks \<Longrightarrow> lastOf (concat (map (pick L) ks)) conv = (if conv \<in> set ks then (case pick L conv of [] \<Rightarrow> None | it # _ \<Rightarrow> Some it) else None)"
proof (induction ks)
  case (Cons k ks)
  then show ?case by (auto simp: lastOf_append lastOf_pick split: option.splits)
qed (simp add: lastOf_def)

lemma clientView_snapshot: "clientView (concat (map (pick L) (logKeys L)) @ rest) = clientView (L @ rest)"
proof -
  have "distinct (logKeys L)" by (simp add: logKeys_def)
  then have "foldl applyItem Map.empty (concat (map (pick L) (logKeys L))) conv = foldl applyItem Map.empty L conv" for conv
    using lastOf_None [of L conv] by (simp only: foldl_applyItem lastOf_picks) (auto simp: pick_def split: option.splits)
  then have "foldl applyItem Map.empty (concat (map (pick L) (logKeys L))) = foldl applyItem Map.empty L" by blast
  then show ?thesis by (simp add: clientView_def)
qed

lemma followChanges_exact:
  assumes "convHistory w" "followChanges config user w fuel i cp limits = Some (Inr (items, cp', j))"
    "checkpointAt config user (length L) cp" "m \<le> i" "L = logItems (wo_db (w m)) user"
  shows "\<exists>n. m + length limits \<le> n \<and> n \<le> j \<and> L @ items = logItems (wo_db (w n)) user \<and> checkpointAt config user (length (logItems (wo_db (w n)) user)) cp'"
  using assms(2-5)
proof (induction limits arbitrary: i cp items L m)
  case (Cons limit limits)
  obtain new t k rest where r: "deltaRound config user w fuel (Suc i) cp limit = Some (Inr (new, t, k))"
    "followChanges config user w fuel k t limits = Some (Inr (rest, cp', j))" "items = new @ rest"
    using Cons.prems(1) by (auto simp: bindR_eq_Inr split: option.splits sum.splits)
  have d: "new = drop (length L) (logItems (wo_db (w (Suc i))) user)"
    "checkpointAt config user (length (logItems (wo_db (w (Suc i))) user)) t" "Suc i \<le> k"
    using deltaRound_exact [OF r(1) assms(1) Cons.prems(2)] by auto
  have "take (length L) (logItems (wo_db (w (Suc i))) user) = L"
    using history_prefix [OF assms(1), of m "Suc i" "length L" user] Cons.prems(3,4) by simp
  then have "L @ new = logItems (wo_db (w (Suc i))) user" unfolding d(1) by (metis append_take_drop_id)
  moreover obtain n where n: "Suc i + length limits \<le> n" "n \<le> j" "logItems (wo_db (w (Suc i))) user @ rest = logItems (wo_db (w n)) user"
    "checkpointAt config user (length (logItems (wo_db (w n)) user)) cp'"
    using Cons.IH [OF r(2) d(2,3) refl] by blast
  ultimately have "L @ items = logItems (wo_db (w n)) user" using r(3) by (metis append.assoc)
  then show ?case using n Cons.prems(3) by (intro exI [of _ n]) simp
qed (use assms in auto)

lemma followChanges_ends:
  assumes "convHistory w"
  shows "checkpointAt config user n cp \<Longrightarrow> \<exists>enough. \<forall>fuel \<ge> enough. followChanges config user w fuel i cp limits \<noteq> None"
proof (induction limits arbitrary: i cp n)
  case (Cons limit limits)
  define enough where "enough = length (logItems (wo_db (w (Suc i))) user)"
  have "deltaRound config user w enough (Suc i) cp limit \<noteq> None"
    by (rule deltaRound_total [OF assms Cons.prems]) (simp add: enough_def)
  then obtain r where r: "deltaRound config user w enough (Suc i) cp limit = Some r" by blast
  show ?case
  proof (cases r)
    case (Inl e)
    then show ?thesis using deltaRound_fuel [OF r] by (intro exI [of _ enough]) simp
  next
    case (Inr out)
    obtain items cp' j where out: "out = (items, cp', j)" by (cases out)
    then have "checkpointAt config user (length (logItems (wo_db (w (Suc i))) user)) cp'"
      using deltaRound_exact [OF _ assms Cons.prems] r Inr by blast
    then obtain rest where "\<forall>fuel \<ge> rest. followChanges config user w fuel j cp' limits \<noteq> None" using Cons.IH by blast
    then show ?thesis using deltaRound_fuel [OF r] Inr out by (intro exI [of _ "max enough rest"]) simp
  qed
qed simp

lemma syncClient_ends:
  assumes "convHistory w"
  shows "\<exists>enough. \<forall>fuel \<ge> enough. syncClient config user w fuel limit limits \<noteq> None"
proof -
  obtain enough r where r: "bootRound config user w enough 0 limit = Some r" using bootRound_ends [OF assms] by blast
  show ?thesis
  proof (cases r)
    case (Inl e)
    then show ?thesis using bootRound_fuel [OF r] by (intro exI [of _ enough]) (simp add: syncClient_def)
  next
    case (Inr out)
    obtain items cp j where out: "out = (items, cp, j)" by (cases out)
    then have "checkpointAt config user (length (logItems (wo_db (w 0)) user)) cp" using bootRound_exact [OF _ assms] r Inr by blast
    then obtain rest where "\<forall>fuel \<ge> rest. followChanges config user w fuel j cp limits \<noteq> None" using followChanges_ends [OF assms] by blast
    then show ?thesis using bootRound_fuel [OF r] Inr out by (intro exI [of _ "max enough rest"]) (simp add: syncClient_def)
  qed
qed

lemma syncClient_exact:
  assumes "convHistory w" "syncClient config user w fuel limit limits = Some (Inr (items, cp, j))"
  shows "\<exists>n. length limits \<le> n \<and> n \<le> j \<and> clientView items = clientView (logItems (wo_db (w n)) user) \<and>
    checkpointAt config user (length (logItems (wo_db (w n)) user)) cp"
proof -
  obtain first mark i rest where r: "bootRound config user w fuel 0 limit = Some (Inr (first, mark, i))"
    "followChanges config user w fuel i mark limits = Some (Inr (rest, cp, j))" "items = first @ rest"
    using assms(2) by (auto simp: syncClient_def bindR_eq_Inr split: option.splits sum.splits)
  define L where "L = logItems (wo_db (w 0)) user"
  have b: "first = concat (map (pick L) (logKeys L))" "checkpointAt config user (length L) mark"
    using bootRound_exact [OF r(1) assms(1)] unfolding L_def by auto
  obtain n where n: "length limits \<le> n" "n \<le> j" "L @ rest = logItems (wo_db (w n)) user" "checkpointAt config user (length (logItems (wo_db (w n)) user)) cp"
    using followChanges_exact [OF assms(1) r(2) b(2) _ L_def] by auto
  have "clientView items = clientView (L @ rest)" unfolding r(3) b(1) by (rule clientView_snapshot)
  then show ?thesis using n by auto
qed

end
