(* ===== verification/ConversationPages.thy ===== *)
theory ConversationPages
  imports SyncConvergence
begin

text \<open>
  The size of a page of the conversation sync service, and the properties of its rounds: what a client ends with, that a
  round ends, and that only members see a conversation.
\<close>

section \<open>The size of a page\<close>

lemma length_quote_ident: "list_all ident_byte s \<Longrightarrow> length (quote_string html s) = length s + 2"
  using quote_plain [of s html] ident_plain by (simp add: quote_string_def list_all_iff)

lemma length_fmt_nat: "n < 10 ^ k \<Longrightarrow> 0 < k \<Longrightarrow> length (fmt_nat n) \<le> k"
proof (induction k arbitrary: n)
  case (Suc k)
  show ?case
  proof (cases "n < 10")
    case False
    then have "n div 10 < 10 ^ k" "0 < k" using Suc.prems(1) by (auto simp: less_mult_imp_div_less mult.commute intro: gr0I)
    then have "length (fmt_nat (n div 10)) \<le> k" by (rule Suc.IH)
    then show ?thesis using False by (simp add: fmt_nat.simps [of n])
  qed (simp add: fmt_nat.simps [of n])
qed simp

lemma length_sequence: "validSequence n \<Longrightarrow> length (quote_string True (fmt_nat n)) \<le> 21"
proof -
  assume "validSequence n"
  then have "n < 10 ^ 19" by (simp add: validSequence_def MaxSeq_def)
  then have "length (fmt_nat n) \<le> 19" using length_fmt_nat [of n 19] by simp
  moreover have "list_all ident_byte (fmt_nat n)" using all_digits_fmt_nat [of n] digit_ident by (simp add: all_digits_def list_all_iff)
  ultimately show ?thesis by (simp add: length_quote_ident)
qed

lemma length_join_comma: "(\<And>x. x \<in> set xs \<Longrightarrow> length x \<le> n) \<Longrightarrow> length (join_comma xs) \<le> length xs * (n + 1)"
  by (induction xs rule: join_comma.induct) (fastforce)+

lemma length_identifier: "ident128 s \<Longrightarrow> length (quote_string True s) \<le> 130"
  by (simp add: length_quote_ident ident128_def)

lemma length_itemText:
  assumes "validateItem item = Inr ()"
  shows "length (itemText item) \<le> 420"
proof -
  have v: "ident128 (ti_ConversationID item)" "validSequence (ti_Revision item)" "ti_Kind item = ''upsert'' \<or> ti_Kind item = ''remove''"
    "\<And>s. ti_LatestSeq item = Some s \<Longrightarrow> validSequence s" "\<And>m. ti_LatestMsg item = Some m \<Longrightarrow> ident128 m"
    using assms by (auto simp: validateItem_def split: if_splits option.splits)
  have "list_all ident_byte (ti_Kind item)" "length (ti_Kind item) = 6" using v(3) by (elim disjE; simp; code_simp)+
  then have k: "length (quote_string True (ti_Kind item)) = 8" by (simp add: length_quote_ident)
  note b = length_identifier [OF v(1)] length_sequence [OF v(2)] k length_sequence [OF v(4)] length_identifier [OF v(5)]
  show ?thesis using b by (auto simp: itemText_def object_text_def split: option.splits)
qed

lemma page_fits:
  assumes "length items \<le> 100" "\<forall>it \<in> set items. validateItem it = Inr ()" "encodeCursor keys c = Inr text"
  shows "length (pageText \<lparr>cp_Items = items, cp_NextCursor = text, cp_HasMore = b\<rparr>) \<le> MaxConvResponseBytes"
proof -
  obtain raw where "text = b64_encode raw" "length text \<le> MaxCursorBytes" using assms(3) encodeCursor_Inr by blast
  then have t: "length (quote_string True text) \<le> 2050" using b64_encode_ident by (simp add: length_quote_ident MaxCursorBytes_def)
  have "length (join_comma (map itemText items)) \<le> length (map itemText items) * (420 + 1)"
    by (rule length_join_comma) (use assms(2) length_itemText in auto)
  also have "\<dots> \<le> 42100" using assms(1) by simp
  finally show ?thesis using t by (simp add: pageText_def object_text_def MaxConvResponseBytes_def)
qed

lemma whole_page:
  assumes "length es \<le> 100" "\<forall>e \<in> set es. validateItem (en_item e) = Inr ()" "nextToken config base pos b now = Inr c"
    "encodeCursor (cf_Keys config) c = Inr text" "b \<longrightarrow> cursorAdvanced base pos"
  shows "renderAssembledPage config base es pos b now = Inr \<lparr>cp_Items = map en_item es, cp_NextCursor = text, cp_HasMore = b\<rparr>"
proof -
  have "\<not> MaxConvResponseBytes < length (pageText \<lparr>cp_Items = map en_item es, cp_NextCursor = text, cp_HasMore = b\<rparr>)"
    using page_fits [of "map en_item es", OF _ _ assms(4), of b] assms(1,2) by simp
  then show ?thesis using assms(3-5) by (auto simp: renderAssembledPage_def render_loop.simps [of _ _ _ _ _ _ "length es"] renderPage_def Let_def)
qed

section \<open>A sample account\<close>

definition sampleConvConfig :: convConfig where
  "sampleConvConfig = \<lparr>cf_Keys = [(''k1'', replicate 32 (CHR ''s''))], cf_ActiveKeyID = ''k1''\<rparr>"

definition sampleBatch :: Batch where
  "sampleBatch = \<lparr>ba_conversations = [''v1'', ''v2''], ba_users = [''u1'']\<rparr>"

definition sampleMsgs2 :: msgdb where
  "sampleMsgs2 = \<lparr>db_users = [''u1'', ''u2''], db_convs = [(''v1'', \<lparr>cv_last = 0, cv_latest = None\<rparr>), (''v2'', \<lparr>cv_last = 0, cv_latest = None\<rparr>)],
     db_members = [(''v1'', ''u1''), (''v1'', ''u2''), (''v2'', ''u1'')], db_messages = [], db_outbox = []\<rparr>"

definition sampleProj0 :: convdb where
  "sampleProj0 = \<lparr>cd_msgs = sampleMsgs2, cd_accounts = [(''u1'', \<lparr>ac_epoch = 1, ac_head = 0, ac_floor = 0\<rparr>)], cd_keys = [], cd_changes = []\<rparr>"

definition sampleProj1 :: convdb where
  "sampleProj1 = appendChange sampleProj0 ''u1'' ''v1'' 1 ''upsert'' (Some 0) None"

definition sampleProj2 :: convdb where
  "sampleProj2 = appendChange sampleProj1 ''u1'' ''v2'' 2 ''upsert'' (Some 0) None"

definition sampleItem :: "bytes \<Rightarrow> nat \<Rightarrow> syncItem" where
  "sampleItem conv n = \<lparr>ti_ConversationID = conv, ti_Revision = n, ti_Kind = ''upsert'', ti_LatestSeq = Some 0, ti_LatestMsg = None\<rparr>"

definition sampleWorlds :: "nat \<Rightarrow> convWorld" where
  "sampleWorlds i = \<lparr>wo_ctx = Some False, wo_env = goodEnv, wo_clock = 1000 * second, wo_db = (if i = 0 then sampleProj1 else sampleProj2)\<rparr>"

definition sampleMark :: "nat \<Rightarrow> syncCursor" where
  "sampleMark n = \<lparr>cu_kind = cursorKindCheckpoint, cu_keyID = ''k1'', cu_account = ''u1'', cu_epoch = 1, cu_issued = 1000, cu_expires = 87400,
     cu_limit = 100, cu_fence = n, cu_afterSeq = 0, cu_afterKey = [], cu_terminalKey = []\<rparr>"

definition sampleSealed :: "syncCursor \<Rightarrow> bytes" where
  "sampleSealed c = b64_encode (cursorPayload c @ hmac_sha256 (replicate 32 (CHR ''s'')) (cursorPayload c))"

definition sampleText :: "nat \<Rightarrow> bytes" where
  "sampleText n = sampleSealed (sampleMark n)"

lemma sampleSealed_text:
  "validateCursorForEncoding c = Inr () \<Longrightarrow> cu_keyID c = ''k1'' \<Longrightarrow> length (cursorPayload c) \<le> 200 \<Longrightarrow>
    encodeCursor (cf_Keys sampleConvConfig) c = Inr (sampleSealed c)"
  by (auto simp: encodeCursor_Inr sampleConvConfig_def sampleSealed_def b64_encode_length MaxCursorBytes_def)

lemma sampleMark_text: "n \<le> 3 \<Longrightarrow> encodeCursor (cf_Keys sampleConvConfig) (sampleMark n) = Inr (sampleText n)"
proof -
  assume "n \<le> 3"
  then have "n = 0 \<or> n = 1 \<or> n = 2 \<or> n = 3" by auto
  then have "validateCursorForEncoding (sampleMark n) = Inr ()" by (elim disjE) (hypsubst, code_simp)+
  moreover have "length (cursorPayload (sampleMark n)) \<le> 200" by (simp add: cursorPayload_def sampleMark_def positionBytes_def cursor_kinds)
  ultimately show ?thesis unfolding sampleText_def by (intro sampleSealed_text) (simp_all add: sampleMark_def)
qed

lemma sample_steps: "conv_step sampleProj0 sampleProj1" "conv_step sampleProj1 sampleProj2"
proof -
  have b: "PrepareBatch goodEnv [''v1'', ''v2''] [''u1''] sampleProj0 = Inr sampleBatch" by code_simp
  have "RecordUpsert goodEnv sampleBatch ''v1'' ''u1'' sampleProj0 = (Inr 1, sampleProj1)" by code_simp
  then show "conv_step sampleProj0 sampleProj1" by (rule conv_step.step_upsert [OF b])
  have "RecordUpsert goodEnv sampleBatch ''v2'' ''u1'' sampleProj1 = (Inr 2, sampleProj2)" by code_simp
  then show "conv_step sampleProj1 sampleProj2" by (rule conv_step.step_upsert [OF b])
qed

lemma sampleProj0_inv: "projInv sampleProj0"
proof -
  have "msgInv sampleMsgs2" by (simp add: msgInv_def sampleMsgs2_def convOK_def inConv_def)
  then show ?thesis by (simp add: projInv_def sampleProj0_def accountOK_def accountLog_def MaxSeq_def)
qed

lemma sample_history: "convHistory sampleWorlds"
  using sample_steps conv_runs.inv_step [OF sample_steps(1) sampleProj0_inv] by (auto simp: convHistory_def sampleWorlds_def intro: r_into_rtranclp)

lemma sample_bootstrap:
  "BeginBootstrap sampleConvConfig (Some False) goodEnv (1000 * second) sampleProj1 ''u1'' 0 =
     Inr \<lparr>cp_Items = [sampleItem ''v1'' 1], cp_NextCursor = sampleText 1, cp_HasMore = False\<rparr>"
proof -
  define result where "result = \<lparr>cs_Epoch = 1, cs_Head = 1, cs_Floor = 0, cs_Fence = 1, cs_TerminalKey = ''v1'',
    cs_Candidates = [\<lparr>ca_Key = ''v1'', ca_State = Some (sampleItem ''v1'' 1), ca_Member = True, ca_Latest = None\<rparr>], cs_Exhausted = True\<rparr>"
  define base where "base = \<lparr>cu_kind = cursorKindBootstrapPage, cu_keyID = cf_ActiveKeyID sampleConvConfig, cu_account = ''u1'',
    cu_epoch = cs_Epoch result, cu_issued = 1000, cu_expires = 1900, cu_limit = 100,
    cu_fence = cs_Fence result, cu_afterSeq = 0, cu_afterKey = [], cu_terminalKey = cs_TerminalKey result\<rparr>"
  have r: "readStore (Some False) goodEnv sampleProj1 ''u1'' \<lparr>cr_Kind = BootstrapRead, cr_Start = True, cr_Epoch = 0, cr_Fence = 0, cr_AfterSeq = 0,
      cr_AfterKey = [], cr_TerminalKey = [], cr_Limit = 100\<rparr> = Inr result" unfolding result_def by code_simp
  have v: "validateCommonReadResult result = Inr ()" "cs_Head result = cs_Fence result" "validateBootstrapCandidates result [] (cs_TerminalKey result) = Inr ()"
    unfolding result_def by code_simp+
  have a: "assembleBootstrap result base =
      Inr ([\<lparr>en_item = sampleItem ''v1'' 1, en_before = keyPosition [], en_after = keyPosition ''v1''\<rparr>], keyPosition ''v1'', False)"
    unfolding result_def base_def by code_simp
  have t: "normalizePageLimit 0 = Inr 100" "currentUnix (1000 * second) = Inr 1000" "addSeconds 1000 bootstrapRoundLifetime = Inr 1900" "validIdentifier ''u1''"
    by code_simp+
  have "nextToken sampleConvConfig base (keyPosition ''v1'') False 1000 = Inr (sampleMark 1)"
    unfolding base_def result_def sampleMark_def by code_simp
  moreover have "validateItem (sampleItem ''v1'' 1) = Inr ()" by code_simp
  ultimately have "renderAssembledPage sampleConvConfig base [\<lparr>en_item = sampleItem ''v1'' 1, en_before = keyPosition [], en_after = keyPosition ''v1''\<rparr>]
      (keyPosition ''v1'') False 1000 = Inr \<lparr>cp_Items = [sampleItem ''v1'' 1], cp_NextCursor = sampleText 1, cp_HasMore = False\<rparr>"
    using whole_page [of "[\<lparr>en_item = sampleItem ''v1'' 1, en_before = keyPosition [], en_after = keyPosition ''v1''\<rparr>]"] sampleMark_text [of 1] by simp
  then show ?thesis using r v t a by (simp add: BeginBootstrap_def Let_def flip: base_def)
qed

lemma sample_delta:
  "BeginDelta sampleConvConfig (Some False) goodEnv (1000 * second) sampleProj2 ''u1'' (sampleText 1) 0 =
     Inr \<lparr>cp_Items = [sampleItem ''v2'' 2], cp_NextCursor = sampleText 2, cp_HasMore = False\<rparr>"
proof -
  define result where "result = \<lparr>cs_Epoch = 1, cs_Head = 2, cs_Floor = 0, cs_Fence = 2, cs_TerminalKey = [],
    cs_Candidates = [\<lparr>ca_Key = ''v2'', ca_State = Some (sampleItem ''v2'' 2), ca_Member = True, ca_Latest = None\<rparr>], cs_Exhausted = False\<rparr>"
  define base where "base = \<lparr>cu_kind = cursorKindDeltaPage, cu_keyID = cf_ActiveKeyID sampleConvConfig, cu_account = ''u1'',
    cu_epoch = cu_epoch (sampleMark (Suc 0)), cu_issued = 1000, cu_expires = 1900, cu_limit = 100,
    cu_fence = cs_Head result, cu_afterSeq = cu_fence (sampleMark (Suc 0)), cu_afterKey = [], cu_terminalKey = []\<rparr>"
  have d: "decodeCursor (cf_Keys sampleConvConfig) (sampleText 1) cursorKindCheckpoint ''u1'' 1000 = Inr (sampleMark 1)"
    using decode_encoded [OF sampleMark_text [of 1], of 1000] by (simp add: timely_def sampleMark_def MaxSeq_def)
  have r: "readStore (Some False) goodEnv sampleProj2 ''u1'' \<lparr>cr_Kind = DeltaRead, cr_Start = True, cr_Epoch = cu_epoch (sampleMark 1),
      cr_Fence = cu_fence (sampleMark 1), cr_AfterSeq = cu_fence (sampleMark 1), cr_AfterKey = [], cr_TerminalKey = [], cr_Limit = 100\<rparr> = Inr result"
    unfolding result_def by code_simp
  have v: "validateCommonReadResult result = Inr ()" "validateDeltaCandidates result (cu_fence (sampleMark 1)) (cs_Fence result) 100 = Inr ()"
    "\<not> (cs_Epoch result \<noteq> cu_epoch (sampleMark 1) \<or> cu_fence (sampleMark 1) < cs_Floor result \<or> cs_Head result < cu_fence (sampleMark 1))"
    "\<not> (cs_Fence result \<noteq> cs_Head result \<or> cs_Fence result < cu_fence (sampleMark 1))"
    unfolding result_def by code_simp+
  have a: "assembleDelta result base =
      Inr ([\<lparr>en_item = sampleItem ''v2'' 2, en_before = seqPosition 1, en_after = seqPosition 2\<rparr>], seqPosition 2, False)"
    unfolding result_def base_def by code_simp
  have t: "normalizePageLimit 0 = Inr 100" "currentUnix (1000 * second) = Inr 1000" "addSeconds 1000 bootstrapRoundLifetime = Inr 1900" "validIdentifier ''u1''"
    by code_simp+
  have "nextToken sampleConvConfig base (seqPosition 2) False 1000 = Inr (sampleMark 2)"
    unfolding base_def result_def sampleMark_def by code_simp
  moreover have "validateItem (sampleItem ''v2'' 2) = Inr ()" by code_simp
  ultimately have "renderAssembledPage sampleConvConfig base [\<lparr>en_item = sampleItem ''v2'' 2, en_before = seqPosition 1, en_after = seqPosition 2\<rparr>]
      (seqPosition 2) False 1000 = Inr \<lparr>cp_Items = [sampleItem ''v2'' 2], cp_NextCursor = sampleText 2, cp_HasMore = False\<rparr>"
    using whole_page [of "[\<lparr>en_item = sampleItem ''v2'' 2, en_before = seqPosition 1, en_after = seqPosition 2\<rparr>]"] sampleMark_text [of 2] by simp
  then show ?thesis using d r v t a by (simp add: BeginDelta_def Let_def flip: base_def)
qed

text \<open>The same account in pages of one conversation: two bootstrap pages, and then the account leaves one.\<close>

definition sampleLeft :: convdb where
  "sampleLeft = sampleProj2\<lparr>cd_msgs := sampleMsgs2\<lparr>db_members := [(''v1'', ''u2''), (''v2'', ''u1'')]\<rparr>\<rparr>"

definition sampleProj3 :: convdb where
  "sampleProj3 = appendChange sampleLeft ''u1'' ''v1'' 3 ''remove'' None None"

definition sampleRemoval :: syncItem where
  "sampleRemoval = \<lparr>ti_ConversationID = ''v1'', ti_Revision = 3, ti_Kind = ''remove'', ti_LatestSeq = None, ti_LatestMsg = None\<rparr>"

definition pagedWorlds :: "nat \<Rightarrow> convWorld" where
  "pagedWorlds i = \<lparr>wo_ctx = Some False, wo_env = goodEnv, wo_clock = 1000 * second, wo_db = (if i \<le> 1 then sampleProj2 else sampleProj3)\<rparr>"

definition pagedBase :: "bytes \<Rightarrow> syncCursor" where
  "pagedBase key = \<lparr>cu_kind = cursorKindBootstrapPage, cu_keyID = ''k1'', cu_account = ''u1'', cu_epoch = 1, cu_issued = 1000, cu_expires = 1900,
     cu_limit = 1, cu_fence = 2, cu_afterSeq = 0, cu_afterKey = key, cu_terminalKey = ''v2''\<rparr>"

definition pagedMark :: syncCursor where
  "pagedMark = (sampleMark 2)\<lparr>cu_limit := 1\<rparr>"

lemma paged_text:
  "encodeCursor (cf_Keys sampleConvConfig) (pagedBase ''v1'') = Inr (sampleSealed (pagedBase ''v1''))"
  "encodeCursor (cf_Keys sampleConvConfig) pagedMark = Inr (sampleSealed pagedMark)"
proof -
  have "validateCursorForEncoding (pagedBase ''v1'') = Inr ()" "validateCursorForEncoding pagedMark = Inr ()" by code_simp+
  then show "encodeCursor (cf_Keys sampleConvConfig) (pagedBase ''v1'') = Inr (sampleSealed (pagedBase ''v1''))"
    "encodeCursor (cf_Keys sampleConvConfig) pagedMark = Inr (sampleSealed pagedMark)"
    by (auto intro!: sampleSealed_text simp: pagedBase_def pagedMark_def sampleMark_def cursorPayload_def positionBytes_def cursor_kinds)
qed

lemma paged_history: "convHistory pagedWorlds"
proof -
  have b: "PrepareBatch goodEnv [''v1'', ''v2''] [''u1''] sampleProj0 = Inr sampleBatch" by code_simp
  have "RecordRemoval goodEnv sampleBatch ''v1'' ''u1'' sampleLeft = (Inr 3, sampleProj3)" by code_simp
  then have r: "conv_step sampleLeft sampleProj3" by (rule conv_step.step_removal [OF b])
  have "msgInv (sampleMsgs2\<lparr>db_members := [(''v1'', ''u2''), (''v2'', ''u1'')]\<rparr>)" by (simp add: msgInv_def sampleMsgs2_def convOK_def inConv_def)
  then have "conv_step sampleProj2 sampleLeft" unfolding sampleLeft_def by (rule conv_step.step_others)
  then have "conv_step\<^sup>*\<^sup>* sampleProj2 sampleProj3" using r by simp
  moreover have "projInv sampleProj2"
    using conv_runs.inv_step [OF sample_steps(2) conv_runs.inv_step [OF sample_steps(1) sampleProj0_inv]] .
  ultimately show ?thesis by (auto simp: convHistory_def pagedWorlds_def)
qed

definition pagedResult :: "bytes list \<Rightarrow> convResult" where
  "pagedResult keys = \<lparr>cs_Epoch = 1, cs_Head = 2, cs_Floor = 0, cs_Fence = 2, cs_TerminalKey = ''v2'',
     cs_Candidates = map (\<lambda>k. \<lparr>ca_Key = k, ca_State = Some (sampleItem k (if k = ''v1'' then 1 else 2)), ca_Member = True, ca_Latest = None\<rparr>) keys,
     cs_Exhausted = True\<rparr>"

lemma paged_begin:
  "BeginBootstrap sampleConvConfig (Some False) goodEnv (1000 * second) sampleProj2 ''u1'' 1 =
     Inr \<lparr>cp_Items = [sampleItem ''v1'' 1], cp_NextCursor = sampleSealed (pagedBase ''v1''), cp_HasMore = True\<rparr>"
proof -
  define result where "result = pagedResult [''v1'', ''v2'']"
  have r: "readStore (Some False) goodEnv sampleProj2 ''u1'' \<lparr>cr_Kind = BootstrapRead, cr_Start = True, cr_Epoch = 0, cr_Fence = 0, cr_AfterSeq = 0,
      cr_AfterKey = [], cr_TerminalKey = [], cr_Limit = 1\<rparr> = Inr result" unfolding result_def by code_simp
  have v: "validateCommonReadResult result = Inr ()" "cs_Head result = cs_Fence result" "validateBootstrapCandidates result [] (cs_TerminalKey result) = Inr ()"
    unfolding result_def by code_simp+
  have base: "pagedBase [] = \<lparr>cu_kind = cursorKindBootstrapPage, cu_keyID = cf_ActiveKeyID sampleConvConfig, cu_account = ''u1'',
    cu_epoch = cs_Epoch result, cu_issued = 1000, cu_expires = 1900, cu_limit = 1,
    cu_fence = cs_Fence result, cu_afterSeq = 0, cu_afterKey = [], cu_terminalKey = cs_TerminalKey result\<rparr>"
    by (simp add: pagedBase_def sampleConvConfig_def result_def pagedResult_def)
  have a: "assembleBootstrap result (pagedBase []) =
      Inr ([\<lparr>en_item = sampleItem ''v1'' 1, en_before = keyPosition [], en_after = keyPosition ''v1''\<rparr>], keyPosition ''v1'', True)"
    unfolding result_def by code_simp
  have t: "normalizePageLimit 1 = Inr 1" "currentUnix (1000 * second) = Inr 1000" "addSeconds 1000 bootstrapRoundLifetime = Inr 1900" "validIdentifier ''u1''"
    by code_simp+
  have "nextToken sampleConvConfig (pagedBase []) (keyPosition ''v1'') True 1000 = Inr (pagedBase ''v1'')"
    "validateItem (sampleItem ''v1'' 1) = Inr ()" "cursorAdvanced (pagedBase []) (keyPosition ''v1'')" by code_simp+
  then have "renderAssembledPage sampleConvConfig (pagedBase []) [\<lparr>en_item = sampleItem ''v1'' 1, en_before = keyPosition [], en_after = keyPosition ''v1''\<rparr>]
      (keyPosition ''v1'') True 1000 = Inr \<lparr>cp_Items = [sampleItem ''v1'' 1], cp_NextCursor = sampleSealed (pagedBase ''v1''), cp_HasMore = True\<rparr>"
    using whole_page [OF _ _ _ paged_text(1), of "[\<lparr>en_item = sampleItem ''v1'' 1, en_before = keyPosition [], en_after = keyPosition ''v1''\<rparr>]"] by simp
  then show ?thesis using r v t a by (simp add: BeginBootstrap_def Let_def flip: base)
qed

lemma paged_continue:
  "ContinueBootstrap sampleConvConfig (Some False) goodEnv (1000 * second) sampleProj2 ''u1'' (sampleSealed (pagedBase ''v1'')) =
     Inr \<lparr>cp_Items = [sampleItem ''v2'' 2], cp_NextCursor = sampleSealed pagedMark, cp_HasMore = False\<rparr>"
proof -
  let ?c = "pagedBase ''v1''" and ?es = "[\<lparr>en_item = sampleItem ''v2'' 2, en_before = keyPosition ''v1'', en_after = keyPosition ''v2''\<rparr>]"
  define result where "result = pagedResult [''v2'']"
  have d: "decodeCursor (cf_Keys sampleConvConfig) (sampleSealed ?c) cursorKindBootstrapPage ''u1'' 1000 = Inr ?c"
    using decode_encoded [OF paged_text(1), of 1000] by (simp add: timely_def pagedBase_def MaxSeq_def)
  have r: "readStore (Some False) goodEnv sampleProj2 ''u1'' \<lparr>cr_Kind = BootstrapRead, cr_Start = False, cr_Epoch = cu_epoch ?c, cr_Fence = cu_fence ?c,
      cr_AfterSeq = 0, cr_AfterKey = cu_afterKey ?c, cr_TerminalKey = cu_terminalKey ?c, cr_Limit = cu_limit ?c\<rparr> = Inr result"
    unfolding result_def by code_simp
  have v: "validateCommonReadResult result = Inr ()" "validateBootstrapCandidates result (cu_afterKey ?c) (cu_terminalKey ?c) = Inr ()"
    "\<not> (cs_Epoch result \<noteq> cu_epoch ?c \<or> cu_fence ?c < cs_Floor result)"
    "\<not> (cs_Fence result \<noteq> cu_fence ?c \<or> cs_Head result < cu_fence ?c \<or> cs_TerminalKey result \<noteq> cu_terminalKey ?c)"
    unfolding result_def by code_simp+
  have a: "assembleBootstrap result ?c = Inr (?es, keyPosition ''v2'', False)" unfolding result_def by code_simp
  have t: "currentUnix (1000 * second) = Inr 1000" "validIdentifier ''u1''" by code_simp+
  have "nextToken sampleConvConfig ?c (keyPosition ''v2'') False 1000 = Inr pagedMark" "validateItem (sampleItem ''v2'' 2) = Inr ()" by code_simp+
  then have "renderAssembledPage sampleConvConfig ?c ?es (keyPosition ''v2'') False 1000 =
      Inr \<lparr>cp_Items = [sampleItem ''v2'' 2], cp_NextCursor = sampleSealed pagedMark, cp_HasMore = False\<rparr>"
    using whole_page [OF _ _ _ paged_text(2), of ?es] by simp
  then show ?thesis using d r v t a by (simp add: ContinueBootstrap_def)
qed

lemma paged_delta:
  "BeginDelta sampleConvConfig (Some False) goodEnv (1000 * second) sampleProj3 ''u1'' (sampleSealed pagedMark) 0 =
     Inr \<lparr>cp_Items = [sampleRemoval], cp_NextCursor = sampleText 3, cp_HasMore = False\<rparr>"
proof -
  let ?es = "[\<lparr>en_item = sampleRemoval, en_before = seqPosition 2, en_after = seqPosition 3\<rparr>]"
  define result where "result = \<lparr>cs_Epoch = 1, cs_Head = 3, cs_Floor = 0, cs_Fence = 3, cs_TerminalKey = [],
    cs_Candidates = [\<lparr>ca_Key = ''v1'', ca_State = Some sampleRemoval, ca_Member = False, ca_Latest = None\<rparr>], cs_Exhausted = False\<rparr>"
  define base where "base = \<lparr>cu_kind = cursorKindDeltaPage, cu_keyID = cf_ActiveKeyID sampleConvConfig, cu_account = ''u1'',
    cu_epoch = cu_epoch pagedMark, cu_issued = 1000, cu_expires = 1900, cu_limit = 100,
    cu_fence = cs_Head result, cu_afterSeq = cu_fence pagedMark, cu_afterKey = [], cu_terminalKey = []\<rparr>"
  have d: "decodeCursor (cf_Keys sampleConvConfig) (sampleSealed pagedMark) cursorKindCheckpoint ''u1'' 1000 = Inr pagedMark"
    using decode_encoded [OF paged_text(2), of 1000] by (simp add: timely_def pagedMark_def sampleMark_def MaxSeq_def)
  have r: "readStore (Some False) goodEnv sampleProj3 ''u1'' \<lparr>cr_Kind = DeltaRead, cr_Start = True, cr_Epoch = cu_epoch pagedMark,
      cr_Fence = cu_fence pagedMark, cr_AfterSeq = cu_fence pagedMark, cr_AfterKey = [], cr_TerminalKey = [], cr_Limit = 100\<rparr> = Inr result"
    unfolding result_def by code_simp
  have v: "validateCommonReadResult result = Inr ()" "validateDeltaCandidates result (cu_fence pagedMark) (cs_Fence result) 100 = Inr ()"
    "\<not> (cs_Epoch result \<noteq> cu_epoch pagedMark \<or> cu_fence pagedMark < cs_Floor result \<or> cs_Head result < cu_fence pagedMark)"
    "\<not> (cs_Fence result \<noteq> cs_Head result \<or> cs_Fence result < cu_fence pagedMark)"
    unfolding result_def by code_simp+
  have a: "assembleDelta result base = Inr (?es, seqPosition 3, False)" unfolding result_def base_def by code_simp
  have t: "normalizePageLimit 0 = Inr 100" "currentUnix (1000 * second) = Inr 1000" "addSeconds 1000 bootstrapRoundLifetime = Inr 1900" "validIdentifier ''u1''"
    by code_simp+
  have "nextToken sampleConvConfig base (seqPosition 3) False 1000 = Inr (sampleMark 3)" unfolding base_def result_def sampleMark_def by code_simp
  moreover have "validateItem sampleRemoval = Inr ()" by code_simp
  ultimately have "renderAssembledPage sampleConvConfig base ?es (seqPosition 3) False 1000 =
      Inr \<lparr>cp_Items = [sampleRemoval], cp_NextCursor = sampleText 3, cp_HasMore = False\<rparr>"
    using whole_page [of ?es] sampleMark_text [of 3] by simp
  then show ?thesis using d r v t a by (simp add: BeginDelta_def Let_def flip: base_def)
qed

section \<open>What the rounds achieve\<close>

text \<open>
  C6. A client that bootstraps and then follows the changes converges. Whatever happens to the projection between the
  calls, even when conversations keep arriving before the end of the bootstrap, and however the pages fall: one bootstrap
  round and a delta round for each further limit come to an end, that is, with enough pages allowed the client gets a
  result, the error of one of its calls or the items of all rounds. When it gets the items, its view of them is what all
  changes of the account come to at one moment, at least as many moments after the start as there were delta rounds, and
  the checkpoint it holds stands exactly there: the next round skips nothing.
\<close>

theorem sync_client_converges:
  assumes "convHistory w"
  shows "(\<exists>enough. \<forall>fuel \<ge> enough. syncClient config user w fuel limit limits \<noteq> None) \<and>
    (\<forall>fuel items cp j. syncClient config user w fuel limit limits = Some (Inr (items, cp, j)) \<longrightarrow>
       (\<exists>n. length limits \<le> n \<and> n \<le> j \<and> clientView items = clientView (logItems (wo_db (w n)) user) \<and>
          checkpointAt config user (length (logItems (wo_db (w n)) user)) cp))"
  using syncClient_ends [OF assms] syncClient_exact [OF assms] by blast

lemma sample_round:
  "deltaRound sampleConvConfig ''u1'' sampleWorlds 5 1 (sampleText 1) 0 = Some (Inr ([sampleItem ''v2'' 2], sampleText 2, 1))"
  using sample_delta by (simp add: deltaRound_def sampleWorlds_def followPages.simps)

lemma paged_rounds:
  "0 < fuel \<Longrightarrow> bootRound sampleConvConfig ''u1'' pagedWorlds fuel 0 1 = Some (Inr ([sampleItem ''v1'' 1, sampleItem ''v2'' 2], sampleSealed pagedMark, 1))"
  "deltaRound sampleConvConfig ''u1'' pagedWorlds fuel 2 (sampleSealed pagedMark) 0 = Some (Inr ([sampleRemoval], sampleText 3, 2))"
  using paged_begin paged_continue paged_delta by (auto simp: bootRound_def bootAt_def deltaRound_def pagedWorlds_def followPages.simps gr0_conv_Suc)

theorem sync_client_converges_witness:
  "syncClient sampleConvConfig ''u1'' pagedWorlds 0 1 [0] = None \<and>
   (\<exists>enough. \<forall>fuel \<ge> enough. syncClient sampleConvConfig ''u1'' pagedWorlds fuel 1 [0] =
      Some (Inr ([sampleItem ''v1'' 1, sampleItem ''v2'' 2, sampleRemoval], sampleText 3, 2))) \<and>
   (\<exists>n. length [0 :: int] \<le> n \<and> n \<le> 2 \<and>
      clientView [sampleItem ''v1'' 1, sampleItem ''v2'' 2, sampleRemoval] = clientView (logItems (wo_db (pagedWorlds n)) ''u1'') \<and>
      checkpointAt sampleConvConfig ''u1'' (length (logItems (wo_db (pagedWorlds n)) ''u1'')) (sampleText 3))"
proof -
  have zero: "syncClient sampleConvConfig ''u1'' pagedWorlds 0 1 [0] = None"
    using paged_begin by (simp add: syncClient_def bootRound_def pagedWorlds_def followPages.simps)
  have run: "syncClient sampleConvConfig ''u1'' pagedWorlds fuel 1 [0] =
      Some (Inr ([sampleItem ''v1'' 1, sampleItem ''v2'' 2, sampleRemoval], sampleText 3, 2))" if "0 < fuel" for fuel
    using paged_rounds(1) [OF that] paged_rounds(2) [of fuel] by (simp add: syncClient_def numeral_2_eq_2)
  note c = sync_client_converges [OF paged_history, of sampleConvConfig "''u1''" 1 "[0]"]
  obtain enough where "\<forall>fuel \<ge> enough. syncClient sampleConvConfig ''u1'' pagedWorlds fuel 1 [0] \<noteq> None" using c by blast
  then have "0 < enough" using zero by (metis gr0I le_refl)
  then have "\<forall>fuel \<ge> enough. syncClient sampleConvConfig ''u1'' pagedWorlds fuel 1 [0] =
      Some (Inr ([sampleItem ''v1'' 1, sampleItem ''v2'' 2, sampleRemoval], sampleText 3, 2))" using run by auto
  then show ?thesis using zero c run [of 1] by blast
qed



text \<open>
  C13. Only members see a conversation. Whatever of the four operations a caller uses, with whatever cursor, every upsert on
  the page it gets is of a conversation the account is a member of at that moment.
\<close>

theorem sync_members_only:
  assumes "projInv db" "BeginBootstrap config ctx env clock db user limit = Inr page \<or> ContinueBootstrap config ctx env clock db user cursor = Inr page \<or>
      BeginDelta config ctx env clock db user cursor limit = Inr page \<or> ContinueDelta config ctx env clock db user cursor = Inr page"
    "item \<in> set (cp_Items page)" "ti_Kind item = ''upsert''"
  shows "(ti_ConversationID item, user) \<in> set (db_members (cd_msgs db))"
proof -
  have "(\<exists>base now p. bootPiece config db user base now page p) \<or> (\<exists>base now k. deltaPiece config db user base now page k)"
    using assms(2) BeginBootstrap_Inr [OF _ assms(1)] ContinueBootstrap_Inr [OF _ assms(1)] BeginDelta_Inr [OF _ assms(1)] ContinueDelta_Inr [OF _ assms(1)]
    by metis
  then have "isMember db user (ti_ConversationID item)"
    using assms(3,4) by (auto simp: bootPiece_def deltaPiece_def memberItems_def memberOK_def list_all_iff)
  then show ?thesis by (simp add: isMember_def)
qed

theorem sync_members_only_witness: "(''v1'', ''u1'') \<in> set (db_members (cd_msgs sampleProj1))"
  using sync_members_only [OF conv_runs.inv_step [OF sample_steps(1) sampleProj0_inv] disjI1 [OF sample_bootstrap], of "sampleItem ''v1'' 1"]
  by (simp add: sampleItem_def)

text \<open>
  C19. The projection stays well formed, and only grows. Whatever the operations do, in any order and with any failures, the
  changes of every account are numbered from 1 to its head without a gap, its floor is within them, its directory names
  exactly the conversations in them, each with the number of its first change, and no change recorded before is altered.
\<close>

theorem projection_wellformed:
  assumes "conv_step\<^sup>*\<^sup>* db0 db" "projInv db0" "map_of (cd_accounts db) user = Some a"
  shows "map ch_seq (accountLog db user) = [1..ac_head a] \<and> 0 \<le> ac_floor a \<and> ac_floor a \<le> ac_head a \<and> ac_head a \<le> int MaxSeq \<and>
    set (map ky_conv (directoryRows db user)) = set (map ch_conv (accountLog db user)) \<and>
    list_all (keyOK db) (directoryRows db user) \<and> (\<exists>new. logItems db user = logItems db0 user @ new)"
proof -
  have inv: "projInv db" by (rule conv_runs.inv_runs [OF assms(1,2)])
  have k: "list_all (keyOK db) (directoryRows db user)" using inv by (auto simp: projInv_def list_all_iff directoryRows_def)
  have "ky_conv e \<in> set (map ch_conv (accountLog db user))" if e: "e \<in> set (directoryRows db user)" for e
  proof -
    have "ky_user e = user" using e by (simp add: directoryRows_def)
    then obtain r where "find (\<lambda>r. ch_conv r = ky_conv e) (accountLog db user) = Some r" using e k by (auto simp: list_all_iff keyOK_def)
    then show ?thesis unfolding find_Some_iff set_map by (metis imageI nth_mem)
  qed
  moreover have "ti_ConversationID \<circ> itemOfChange = ch_conv" by (auto simp: itemOfChange_def)
  then have "set (map ch_conv (accountLog db user)) \<subseteq> set (map ky_conv (directoryRows db user))"
    using directory_keys(2) [OF inv, of user] by (simp add: logItems_def image_comp)
  ultimately have "set (map ky_conv (directoryRows db user)) = set (map ch_conv (accountLog db user))" by auto
  then show ?thesis using projInv_account(3-6) [OF inv assms(3)] k conv_steps_log [OF assms(1)] by simp
qed

theorem projection_wellformed_witness: "map ch_seq (accountLog sampleProj2 ''u1'') = [1..2]"
proof -
  have "conv_step\<^sup>*\<^sup>* sampleProj0 sampleProj2" using sample_steps by simp
  moreover have "map_of (cd_accounts sampleProj2) ''u1'' = Some \<lparr>ac_epoch = 1, ac_head = 2, ac_floor = 0\<rparr>" by code_simp
  ultimately show ?thesis using projection_wellformed [OF _ sampleProj0_inv] by fastforce
qed

end
