(* ===== verification/WebhookStore.thy ===== *)
theory WebhookStore
  imports MessageStore AuthToken "HOL-Library.List_Lexorder" "HOL-Library.Product_Lexorder"
begin

text \<open>
  The webhook tables and the repository of \<^verbatim>\<open>server/storage/webhook/repository.go\<close>: fan-out of outbox events into deliveries,
  and the leases under which workers attempt them. Every operation is one transaction; \<open>tick n\<close> is the database time that
  its statement \<open>n\<close> reads from \<^verbatim>\<open>clock_timestamp()\<close>. The repository, its pool and the contexts are not nil.
\<close>

section \<open>Tables\<close>

datatype whCode =
    WhInvalidConfig | WhStorageUnavailable | WhLeaseLost | WhSecretUnavailable | WhSecretInvalid | WhHTTPTemporary | WhHTTPPermanent
  | WhResponseTooLarge | WhBacklogPaused | WhEndpointRevoked | WhDeliveryDeadLetter | WhProtocolInvalid | WhDeliveryCancelled
  | WhDeliveryDelivered | WhDeliveryRetry | WhFanoutLimit

definition MaxEndpointsPerEvent :: nat where "MaxEndpointsPerEvent = 64"

datatype deliveryStatus = Pending | Retry | Leased | Delivered | DeadLetter | Cancelled

record outboxRow =
  ox_event :: bytes
  ox_server :: bytes
  ox_created :: instant
  ox_fanoutAt :: "instant option"
  ox_fanoutError :: "whCode option"

record endpointRow =
  ep_active :: bool
  ep_revision :: "int option"
  ep_revokedAt :: "instant option"

record revisionRow =
  rv_url :: bytes
  rv_keyID :: bytes
  rv_nonce :: bytes
  rv_ciphertext :: bytes

record deliveryRow =
  dl_event :: bytes
  dl_dest :: bytes
  dl_revision :: "int option"
  dl_status :: deliveryStatus
  dl_attempts :: nat
  dl_next :: instant
  dl_owner :: "bytes option"
  dl_token :: "bytes option"
  dl_expires :: "instant option"
  dl_completed :: "instant option"
  dl_http :: "int option"
  dl_error :: "whCode option"

record webhookdb =
  wd_messages :: "storedRow list"
  wd_outbox :: "outboxRow list"
  wd_endpoints :: "endpointRow table"
  wd_revisions :: "((bytes \<times> int) \<times> revisionRow) list"
  wd_deliveries :: "deliveryRow table"

definition queued :: "deliveryRow \<Rightarrow> bool" where
  "queued d \<longleftrightarrow> dl_status d = Pending \<or> dl_status d = Retry \<or> dl_status d = Leased"

definition terminal :: "deliveryRow \<Rightarrow> bool" where
  "terminal d \<longleftrightarrow> dl_status d = Delivered \<or> dl_status d = DeadLetter \<or> dl_status d = Cancelled"

text \<open>The constraint \<^verbatim>\<open>im_webhook_deliveries_state_check\<close>.\<close>

definition stateCheck :: "deliveryRow \<Rightarrow> bool" where
  "stateCheck d \<longleftrightarrow>
     (dl_status d = Pending \<or> dl_status d = Retry) \<and> dl_owner d = None \<and> dl_token d = None \<and> dl_expires d = None \<and> dl_completed d = None \<or>
     dl_status d = Leased \<and> dl_owner d \<noteq> None \<and> dl_token d \<noteq> None \<and> dl_expires d \<noteq> None \<and> dl_completed d = None \<or>
     terminal d \<and> dl_owner d = None \<and> dl_token d = None \<and> dl_expires d = None"

definition mapDeliveries :: "(bytes \<Rightarrow> deliveryRow \<Rightarrow> deliveryRow) \<Rightarrow> webhookdb \<Rightarrow> webhookdb" where
  "mapDeliveries f db = db\<lparr>wd_deliveries := mapRows f (wd_deliveries db)\<rparr>"

definition unleased :: "deliveryRow \<Rightarrow> deliveryRow" where
  "unleased d = d\<lparr>dl_owner := None, dl_token := None, dl_expires := None\<rparr>"

text \<open>An endpoint that takes deliveries.\<close>

definition endpointLive :: "webhookdb \<Rightarrow> bytes \<Rightarrow> bool" where
  "endpointLive db dest = (case map_of (wd_endpoints db) dest of None \<Rightarrow> False | Some e \<Rightarrow> ep_active e \<and> ep_revokedAt e = None)"

definition endpointRevoked :: "webhookdb \<Rightarrow> bytes \<Rightarrow> bool" where
  "endpointRevoked db dest = (case map_of (wd_endpoints db) dest of None \<Rightarrow> False | Some e \<Rightarrow> ep_revokedAt e \<noteq> None)"

text \<open>\<^verbatim>\<open>make_interval(secs => d.Seconds())\<close>: whole microseconds, rounded to the nearest, a half to the even one.\<close>

definition pgInterval :: "int \<Rightarrow> int" where
  "pgInterval d =
     (let q = d div 1000; r = d mod 1000
      in (if 500 < r \<or> r = 500 \<and> odd q then q + 1 else q) * 1000)"

section \<open>Housekeeping\<close>

definition requeueExpired :: "instant \<Rightarrow> webhookdb \<Rightarrow> webhookdb" where
  "requeueExpired t db = mapDeliveries (\<lambda>_ d.
     if dl_status d = Leased \<and> (case dl_expires d of None \<Rightarrow> False | Some x \<Rightarrow> x \<le> t)
     then (unleased d)\<lparr>dl_status := Retry, dl_next := t\<rparr> else d) db"

definition cancels :: "webhookdb \<Rightarrow> deliveryRow \<Rightarrow> bool" where
  "cancels db d \<longleftrightarrow> endpointRevoked db (dl_dest d) \<and> queued d"

definition cancelRevokedRows :: "instant \<Rightarrow> webhookdb \<Rightarrow> webhookdb" where
  "cancelRevokedRows t db = mapDeliveries (\<lambda>_ d.
     if cancels db d then (unleased d)\<lparr>dl_status := Cancelled, dl_completed := Some t, dl_error := Some WhDeliveryCancelled\<rparr> else d) db"

definition CancelRevoked :: "dbEnv \<Rightarrow> (nat \<Rightarrow> instant) \<Rightarrow> instant \<Rightarrow> webhookdb \<Rightarrow> (whCode, nat) result \<times> webhookdb" where
  "CancelRevoked env tick now db =
     (if now = zeroTime then (Inl WhStorageUnavailable, db)
      else if env_begin env \<or> env_stmt env 0 \<or> env_stmt env 1 then (Inl WhStorageUnavailable, db)
      else
        let db1 = requeueExpired (tick 0) db in
        finish env WhStorageUnavailable db (cancelRevokedRows (tick 1) db1) (length (filter (\<lambda>(k, d). cancels db1 d) (wd_deliveries db1))))"

record Counts =
  co_Total :: nat
  co_MaxDestination :: nat
  co_Pending :: nat
  co_Retry :: nat
  co_Leased :: nat
  co_DeadLetter :: nat

definition countStatus :: "deliveryStatus \<Rightarrow> webhookdb \<Rightarrow> nat" where
  "countStatus s db = length (filter (\<lambda>(k, d). dl_status d = s) (wd_deliveries db))"

definition pendingOf :: "webhookdb \<Rightarrow> bytes \<Rightarrow> nat" where
  "pendingOf db dest = length (filter (\<lambda>(k, d). dl_dest d = dest \<and> queued d) (wd_deliveries db))"

definition globalPendingOf :: "webhookdb \<Rightarrow> nat" where
  "globalPendingOf db = length (filter (\<lambda>(k, d). queued d) (wd_deliveries db))"

definition CountsOf :: "(nat \<Rightarrow> bool) \<Rightarrow> webhookdb \<Rightarrow> (whCode, Counts) result" where
  "CountsOf fails db =
     (if fails 0 \<or> fails 1 then Inl WhStorageUnavailable
      else Inr \<lparr>co_Total = globalPendingOf db,
        co_MaxDestination = foldr max (map (\<lambda>(k, d). pendingOf db (dl_dest d)) (filter (\<lambda>(k, d). queued d) (wd_deliveries db))) 0,
        co_Pending = countStatus Pending db, co_Retry = countStatus Retry db, co_Leased = countStatus Leased db,
        co_DeadLetter = countStatus DeadLetter db\<rparr>)"

section \<open>Fan-out\<close>

definition webhookID :: "bytes \<Rightarrow> (bytes \<times> bytes) option" where
  "webhookID entropy = (case readFull 16 entropy of (None, e) \<Rightarrow> None | (Some raw, e) \<Rightarrow> Some (hex_encode raw, e))"

definition unmarked :: "outboxRow \<Rightarrow> bool" where
  "unmarked ob \<longleftrightarrow> ox_fanoutAt ob = None \<and> ox_fanoutError ob = None"

text \<open>The page of events; \<open>skip\<close> are rows another transaction has locked.\<close>

definition fanoutEvents :: "(bytes \<Rightarrow> bool) \<Rightarrow> nat \<Rightarrow> webhookdb \<Rightarrow> bytes list" where
  "fanoutEvents skip limit db =
     map ox_event (take limit (filter (\<lambda>ob. \<not> skip (ox_event ob)) (sort_key (\<lambda>ob. (ox_created ob, ox_event ob)) (filter unmarked (wd_outbox db)))))"

definition endpointRefs :: "webhookdb \<Rightarrow> (bytes \<times> int) list" where
  "endpointRefs db = map (\<lambda>(dest, e). (dest, case ep_revision e of None \<Rightarrow> 0 | Some r \<Rightarrow> r))
     (take 65 (sort_key fst (filter (\<lambda>(dest, e). ep_active e \<and> ep_revokedAt e = None) (wd_endpoints db))))"

datatype fanoutVerdict = FanoutBad | FanoutFull | FanoutGo

fun checkRefs :: "(nat \<Rightarrow> bool) \<Rightarrow> nat \<Rightarrow> webhookdb \<Rightarrow> int \<Rightarrow> (bytes \<times> int) list \<Rightarrow> (whCode, fanoutVerdict \<times> nat) result" where
  "checkRefs fails n db queue [] = Inr (FanoutGo, n)"
| "checkRefs fails n db queue ((dest, revision) # refs) =
     (if revision \<le> 0 then Inr (FanoutBad, n)
      else if fails n then Inl WhStorageUnavailable
      else if queue \<le> int (pendingOf db dest) then Inr (FanoutFull, n + 1)
      else checkRefs fails (n + 1) db queue refs)"

definition hasPair :: "webhookdb \<Rightarrow> bytes \<Rightarrow> bytes \<Rightarrow> bool" where
  "hasPair db event dest \<longleftrightarrow> list_ex (\<lambda>(k, d). dl_event d = event \<and> dl_dest d = dest) (wd_deliveries db)"

fun insertDeliveries ::
  "(nat \<Rightarrow> bool) \<Rightarrow> (nat \<Rightarrow> instant) \<Rightarrow> nat \<Rightarrow> bytes \<Rightarrow> bytes \<Rightarrow> (bytes \<times> int) list \<Rightarrow> webhookdb \<Rightarrow> (whCode, nat \<times> bytes \<times> webhookdb) result" where
  "insertDeliveries fails tick n e event [] db = Inr (n, e, db)"
| "insertDeliveries fails tick n e event ((dest, revision) # refs) db =
     (case webhookID e of
        None \<Rightarrow> Inl WhStorageUnavailable
      | Some (deliveryID, e') \<Rightarrow>
          if fails n then Inl WhStorageUnavailable
          else if hasPair db event dest then insertDeliveries fails tick (n + 1) e' event refs db
          else if deliveryID \<in> set (map fst (wd_deliveries db)) \<or> (dest, revision) \<notin> set (map fst (wd_revisions db)) then Inl WhStorageUnavailable
          else insertDeliveries fails tick (n + 1) e' event refs (db\<lparr>wd_deliveries := (deliveryID,
            \<lparr>dl_event = event, dl_dest = dest, dl_revision = Some revision, dl_status = Pending, dl_attempts = 0, dl_next = tick n, dl_owner = None,
             dl_token = None, dl_expires = None, dl_completed = None, dl_http = None, dl_error = None\<rparr>) # wd_deliveries db\<rparr>))"

definition markOutbox :: "bytes \<Rightarrow> (outboxRow \<Rightarrow> outboxRow) \<Rightarrow> webhookdb \<Rightarrow> webhookdb" where
  "markOutbox event f db = db\<lparr>wd_outbox := map (\<lambda>ob. if ox_event ob = event \<and> ox_fanoutAt ob = None then f ob else ob) (wd_outbox db)\<rparr>"

definition fanoutEvent ::
  "(nat \<Rightarrow> bool) \<Rightarrow> (nat \<Rightarrow> instant) \<Rightarrow> int \<Rightarrow> int \<Rightarrow> bytes \<Rightarrow> nat \<times> bytes \<times> int \<times> whCode option \<times> webhookdb \<Rightarrow>
   (whCode, nat \<times> bytes \<times> int \<times> whCode option \<times> webhookdb) result" where
  "fanoutEvent fails tick maxDestinationQueue maxGlobalQueue event = (\<lambda>(n, e, globalPending, failed, db).
     if fails n then Inl WhStorageUnavailable
     else
       let refs = endpointRefs db in
       bindR (if MaxEndpointsPerEvent < length refs then Inr (FanoutBad, n + 1) else checkRefs fails (n + 1) db maxDestinationQueue refs)
         (\<lambda>(verdict, n1). case verdict of
            FanoutBad \<Rightarrow>
              if fails n1 then Inl WhStorageUnavailable
              else Inr (n1 + 1, e, globalPending, (case failed of None \<Rightarrow> Some WhFanoutLimit | Some f \<Rightarrow> Some f),
                markOutbox event (\<lambda>ob. ob\<lparr>ox_fanoutError := Some WhFanoutLimit\<rparr>) db)
          | FanoutFull \<Rightarrow> Inr (n1, e, globalPending, failed, db)
          | FanoutGo \<Rightarrow>
              if maxGlobalQueue \<le> globalPending then Inr (n1, e, globalPending, failed, db)
              else
                bindR (insertDeliveries fails tick n1 e event refs db) (\<lambda>(n2, e', db').
                  if fails n2 then Inl WhStorageUnavailable
                  else Inr (n2 + 1, e', globalPending + int (length refs), failed,
                    markOutbox event (\<lambda>ob. ob\<lparr>ox_fanoutAt := Some (tick n2)\<rparr>) db'))))"

fun fanoutLoop ::
  "(nat \<Rightarrow> bool) \<Rightarrow> (nat \<Rightarrow> instant) \<Rightarrow> int \<Rightarrow> int \<Rightarrow> bytes list \<Rightarrow> nat \<times> bytes \<times> int \<times> whCode option \<times> webhookdb \<Rightarrow>
   (whCode, nat \<times> bytes \<times> int \<times> whCode option \<times> webhookdb) result" where
  "fanoutLoop fails tick maxDestinationQueue maxGlobalQueue [] st = Inr st"
| "fanoutLoop fails tick maxDestinationQueue maxGlobalQueue (event # events) st =
     bindR (fanoutEvent fails tick maxDestinationQueue maxGlobalQueue event st) (fanoutLoop fails tick maxDestinationQueue maxGlobalQueue events)"

text \<open>\<^verbatim>\<open>Fanout\<close> commits what it did even where it reports that an event was over the endpoint limit.\<close>

definition Fanout ::
  "dbEnv \<Rightarrow> (nat \<Rightarrow> instant) \<Rightarrow> bytes \<Rightarrow> (bytes \<Rightarrow> bool) \<Rightarrow> instant \<Rightarrow> int \<Rightarrow> int \<Rightarrow> int \<Rightarrow> webhookdb \<Rightarrow> (whCode, nat) result \<times> webhookdb" where
  "Fanout env tick entropy skip now limit maxDestinationQueue maxGlobalQueue db =
     (if now = zeroTime \<or> limit < 1 \<or> 1000 < limit \<or> maxDestinationQueue < 1 \<or> 1000000 < maxDestinationQueue \<or> maxGlobalQueue < 1 \<or>
        1000000 < maxGlobalQueue then (Inl WhInvalidConfig, db)
      else if env_begin env \<or> env_stmt env 0 \<or> env_stmt env 1 \<or> env_stmt env 2 then (Inl WhStorageUnavailable, db)
      else
        let eventIDs = fanoutEvents skip (nat limit) db in
        case fanoutLoop (env_stmt env) tick maxDestinationQueue maxGlobalQueue eventIDs (3, entropy, int (globalPendingOf db), None, db) of
          Inl e \<Rightarrow> (Inl e, db)
        | Inr (n, e, globalPending, failed, db') \<Rightarrow>
            (case finish env WhStorageUnavailable db db' (length eventIDs) of
               (Inl e, db'') \<Rightarrow> (Inl e, db'')
             | (Inr k, db'') \<Rightarrow> ((case failed of None \<Rightarrow> Inr k | Some f \<Rightarrow> Inl f), db'')))"

section \<open>Leases\<close>

record Event =
  wv_ID :: bytes
  wv_ServerMsgID :: bytes
  wv_ClientMsgID :: bytes
  wv_SenderID :: bytes
  wv_ConversationID :: bytes
  wv_ConversationSeq :: int
  wv_ServerTime :: int
  wv_ProtocolVersion :: int
  wv_SchemaVersion :: int
  wv_MessageType :: bytes
  wv_Payload :: bytes

record SecretMaterial =
  sm_DestinationID :: bytes
  sm_Revision :: int
  sm_URL :: bytes
  sm_KeyID :: bytes
  sm_Nonce :: bytes
  sm_Ciphertext :: bytes

record Delivery =
  dv_ID :: bytes
  dv_Event :: Event
  dv_DestinationID :: bytes
  dv_EndpointRevision :: int
  dv_URL :: bytes
  dv_KeyID :: bytes
  dv_Secret :: SecretMaterial
  dv_Attempts :: nat
  dv_LeaseToken :: bytes

definition eventOf :: "outboxRow \<Rightarrow> storedRow \<Rightarrow> Event" where
  "eventOf ob m = \<lparr>wv_ID = ox_event ob, wv_ServerMsgID = sr_ServerMsgID m, wv_ClientMsgID = sr_ClientMsgID m, wv_SenderID = sr_SenderID m,
     wv_ConversationID = sr_ConversationID m, wv_ConversationSeq = sr_ConversationSeq m, wv_ServerTime = sr_ServerTime m,
     wv_ProtocolVersion = sr_ProtocolVersion m, wv_SchemaVersion = sr_SchemaVersion m, wv_MessageType = sr_MessageType m, wv_Payload = sr_Payload m\<rparr>"

text \<open>The joins of \<^verbatim>\<open>Claim\<close>: the frozen revision, the event and its message.\<close>

definition joined :: "webhookdb \<Rightarrow> bytes \<Rightarrow> deliveryRow \<Rightarrow> bytes \<Rightarrow> Delivery option" where
  "joined db key d leaseToken =
     (case dl_revision d of
        None \<Rightarrow> None
      | Some revision \<Rightarrow> (case map_of (wd_revisions db) (dl_dest d, revision) of
          None \<Rightarrow> None
        | Some r \<Rightarrow> (case find (\<lambda>ob. ox_event ob = dl_event d) (wd_outbox db) of
            None \<Rightarrow> None
          | Some ob \<Rightarrow> (case find (\<lambda>m. sr_ServerMsgID m = ox_server ob) (wd_messages db) of
              None \<Rightarrow> None
            | Some m \<Rightarrow> Some \<lparr>dv_ID = key, dv_Event = eventOf ob m, dv_DestinationID = dl_dest d, dv_EndpointRevision = revision,
                dv_URL = rv_url r, dv_KeyID = rv_keyID r, dv_Secret = \<lparr>sm_DestinationID = dl_dest d, sm_Revision = revision, sm_URL = rv_url r,
                  sm_KeyID = rv_keyID r, sm_Nonce = rv_nonce r, sm_Ciphertext = rv_ciphertext r\<rparr>,
                dv_Attempts = dl_attempts d, dv_LeaseToken = leaseToken\<rparr>))))"

definition claimable :: "instant \<Rightarrow> (bytes \<Rightarrow> bool) \<Rightarrow> webhookdb \<Rightarrow> bytes \<times> deliveryRow \<Rightarrow> bool" where
  "claimable t skip db = (\<lambda>(key, d). (dl_status d = Pending \<or> dl_status d = Retry) \<and> dl_next d \<le> t \<and> endpointLive db (dl_dest d) \<and>
     joined db key d [] \<noteq> None \<and> \<not> skip key)"

definition dueRows :: "instant \<Rightarrow> (bytes \<Rightarrow> bool) \<Rightarrow> nat \<Rightarrow> webhookdb \<Rightarrow> (bytes \<times> deliveryRow) list" where
  "dueRows t skip limit db = take limit (sort_key (\<lambda>(key, d). (dl_next d, key)) (filter (claimable t skip db) (wd_deliveries db)))"

fun claimTokens :: "webhookdb \<Rightarrow> bytes \<Rightarrow> (bytes \<times> deliveryRow) list \<Rightarrow> (whCode, Delivery list) result" where
  "claimTokens db e [] = Inr []"
| "claimTokens db e ((key, d) # rows) =
     (case webhookID e of
        None \<Rightarrow> Inl WhStorageUnavailable
      | Some (leaseToken, e') \<Rightarrow> (case joined db key d leaseToken of
          None \<Rightarrow> Inl WhStorageUnavailable
        | Some delivery \<Rightarrow> bindR (claimTokens db e' rows) (\<lambda>rest. Inr (delivery # rest))))"

definition leaseRow :: "instant \<Rightarrow> bytes \<Rightarrow> int \<Rightarrow> Delivery \<Rightarrow> webhookdb \<Rightarrow> webhookdb" where
  "leaseRow t owner leaseTTL delivery db = mapDeliveries (\<lambda>key d. if key = dv_ID delivery then d\<lparr>dl_status := Leased, dl_owner := Some owner,
     dl_token := Some (dv_LeaseToken delivery), dl_expires := Some (t + pgInterval leaseTTL), dl_next := t + pgInterval leaseTTL\<rparr> else d) db"

fun leaseLoop :: "(nat \<Rightarrow> bool) \<Rightarrow> (nat \<Rightarrow> instant) \<Rightarrow> nat \<Rightarrow> bytes \<Rightarrow> int \<Rightarrow> Delivery list \<Rightarrow> webhookdb \<Rightarrow> (whCode, webhookdb) result" where
  "leaseLoop fails tick n owner leaseTTL [] db = Inr db"
| "leaseLoop fails tick n owner leaseTTL (delivery # deliveries) db =
     (if fails n then Inl WhStorageUnavailable
      else leaseLoop fails tick (n + 1) owner leaseTTL deliveries (leaseRow (tick n) owner leaseTTL delivery db))"

definition Claim ::
  "dbEnv \<Rightarrow> (nat \<Rightarrow> instant) \<Rightarrow> bytes \<Rightarrow> (bytes \<Rightarrow> bool) \<Rightarrow> instant \<Rightarrow> bytes \<Rightarrow> int \<Rightarrow> int \<Rightarrow> webhookdb \<Rightarrow> (whCode, Delivery list) result \<times> webhookdb" where
  "Claim env tick entropy skip now owner leaseTTL limit db =
     (if now = zeroTime \<or> owner = [] \<or> leaseTTL \<le> 0 \<or> 10 * minute < leaseTTL \<or> limit < 1 \<or> 1000 < limit then (Inl WhInvalidConfig, db)
      else if env_begin env \<or> env_stmt env 0 \<or> env_stmt env 1 then (Inl WhStorageUnavailable, db)
      else
        let db1 = requeueExpired (tick 0) db in
        case claimTokens db1 entropy (dueRows (tick 1) skip (nat limit) db1) of
          Inl e \<Rightarrow> (Inl e, db)
        | Inr deliveries \<Rightarrow>
            (case leaseLoop (env_stmt env) tick 2 owner leaseTTL deliveries db1 of
               Inl e \<Rightarrow> (Inl e, db)
             | Inr db2 \<Rightarrow> finish env WhStorageUnavailable db db2 deliveries))"

section \<open>Attempts and outcomes\<close>

definition mayAttempt :: "webhookdb \<Rightarrow> instant \<Rightarrow> bytes \<Rightarrow> nat \<Rightarrow> int \<Rightarrow> deliveryRow \<Rightarrow> bool" where
  "mayAttempt db t leaseToken maxAttempts required d \<longleftrightarrow> dl_token d = Some leaseToken \<and> dl_status d = Leased \<and>
     (case dl_expires d of None \<Rightarrow> False | Some x \<Rightarrow> t + pgInterval required \<le> x) \<and> dl_attempts d < maxAttempts \<and> endpointLive db (dl_dest d)"

definition BeginAttempt ::
  "dbEnv \<Rightarrow> (nat \<Rightarrow> instant) \<Rightarrow> bytes \<Rightarrow> bytes \<Rightarrow> instant \<Rightarrow> nat \<Rightarrow> int \<Rightarrow> webhookdb \<Rightarrow> (whCode, bool) result \<times> webhookdb" where
  "BeginAttempt env tick deliveryID leaseToken now maxAttempts required db =
     (if deliveryID = [] \<or> leaseToken = [] \<or> now = zeroTime \<or> maxAttempts < 1 \<or> 8 < maxAttempts \<or> required \<le> 0 \<or> 2 * minute < required
      then (Inl WhInvalidConfig, db)
      else if env_begin env \<or> env_stmt env 0 then (Inl WhStorageUnavailable, db)
      else if (case map_of (wd_deliveries db) deliveryID of None \<Rightarrow> False | Some d \<Rightarrow> mayAttempt db (tick 0) leaseToken maxAttempts required d)
      then finish env WhStorageUnavailable db (mapDeliveries (\<lambda>key d. if key = deliveryID
          then d\<lparr>dl_attempts := dl_attempts d + 1, dl_expires := map_option (\<lambda>x. max x (tick 0 + pgInterval required)) (dl_expires d)\<rparr> else d) db) True
      else if env_stmt env 1 then (Inl WhStorageUnavailable, db)
      else (case map_of (wd_deliveries db) deliveryID of
          None \<Rightarrow> (Inl WhLeaseLost, db)
        | Some d \<Rightarrow>
            if dl_status d = Leased \<and> dl_token d = Some leaseToken \<and> maxAttempts \<le> dl_attempts d then
              if env_stmt env 2 then (Inl WhStorageUnavailable, db)
              else finish env WhStorageUnavailable db (mapDeliveries (\<lambda>key d. if key = deliveryID
                then (unleased d)\<lparr>dl_status := DeadLetter, dl_completed := Some (tick 2), dl_error := Some WhDeliveryDeadLetter\<rparr> else d) db) False
            else finish env WhStorageUnavailable db db False))"

record Outcome =
  oc_Status :: deliveryStatus
  oc_RetryDelay :: int
  oc_HTTPStatus :: int
  oc_ErrorCode :: "whCode option"

definition outcomeRow :: "instant \<Rightarrow> Outcome \<Rightarrow> deliveryRow \<Rightarrow> deliveryRow" where
  "outcomeRow t outcome d = (unleased d)\<lparr>dl_status := oc_Status outcome,
     dl_next := (if oc_Status outcome = Retry then t + pgInterval (oc_RetryDelay outcome) else t),
     dl_completed := (if oc_Status outcome = Delivered \<or> oc_Status outcome = DeadLetter \<or> oc_Status outcome = Cancelled then Some t else None),
     dl_http := (if oc_HTTPStatus outcome = 0 then None else Some (oc_HTTPStatus outcome)), dl_error := oc_ErrorCode outcome\<rparr>"

definition holdsLease :: "instant \<Rightarrow> bytes \<Rightarrow> deliveryRow \<Rightarrow> bool" where
  "holdsLease t leaseToken d \<longleftrightarrow> dl_token d = Some leaseToken \<and> dl_status d = Leased \<and> (case dl_expires d of None \<Rightarrow> False | Some x \<Rightarrow> t < x)"

text \<open>A row that would break the state constraint fails the statement.\<close>

definition Finish ::
  "dbEnv \<Rightarrow> (nat \<Rightarrow> instant) \<Rightarrow> bytes \<Rightarrow> bytes \<Rightarrow> int \<Rightarrow> instant \<Rightarrow> Outcome \<Rightarrow> webhookdb \<Rightarrow> (whCode, unit) result \<times> webhookdb" where
  "Finish env tick deliveryID leaseToken attempts now outcome0 db =
     (if deliveryID = [] \<or> leaseToken = [] \<or> attempts < 0 \<or> now = zeroTime then (Inl WhInvalidConfig, db)
      else
        let outcome1 = (if oc_Status outcome0 = Retry \<and> oc_RetryDelay outcome0 \<le> 0 then outcome0\<lparr>oc_RetryDelay := millisecond\<rparr> else outcome0);
            outcome = (if oc_HTTPStatus outcome1 < 100 \<or> 599 < oc_HTTPStatus outcome1 then outcome1\<lparr>oc_HTTPStatus := 0\<rparr> else outcome1)
        in if env_begin env \<or> env_stmt env 0 then (Inl WhStorageUnavailable, db)
           else (case map_of (wd_deliveries db) deliveryID of
               None \<Rightarrow> (Inl WhLeaseLost, db)
             | Some d \<Rightarrow>
                 if \<not> holdsLease (tick 0) leaseToken d then (Inl WhLeaseLost, db)
                 else if \<not> stateCheck (outcomeRow (tick 0) outcome d) then (Inl WhStorageUnavailable, db)
                 else finish env WhStorageUnavailable db
                   (mapDeliveries (\<lambda>key d. if key = deliveryID then outcomeRow (tick 0) outcome d else d) db) ()))"

end
