(* ===== verification/WebhookLease.thy ===== *)
theory WebhookLease
  imports WebhookStore
begin

text \<open>
  The lifecycle of a webhook delivery as a state machine on one row, and that every operation of the repository moves the
  rows only along it: leases are exclusive and fenced, attempts are bounded, and what is over is over.
\<close>

section \<open>The machine\<close>

inductive rowMoves :: "deliveryRow \<Rightarrow> deliveryRow \<Rightarrow> bool" where
  move_requeue: "dl_status d = Leased \<Longrightarrow> dl_expires d = Some x \<Longrightarrow> x \<le> t \<Longrightarrow> rowMoves d ((unleased d)\<lparr>dl_status := Retry, dl_next := t\<rparr>)"
| move_cancel: "queued d \<Longrightarrow> rowMoves d ((unleased d)\<lparr>dl_status := Cancelled, dl_completed := Some t, dl_error := Some WhDeliveryCancelled\<rparr>)"
| move_lease: "dl_status d = Pending \<or> dl_status d = Retry \<Longrightarrow>
    rowMoves d (d\<lparr>dl_status := Leased, dl_owner := Some owner, dl_token := Some token, dl_expires := Some x, dl_next := x\<rparr>)"
| move_attempt: "dl_status d = Leased \<Longrightarrow> dl_attempts d < 8 \<Longrightarrow> dl_expires d = Some x \<Longrightarrow> x \<le> y \<Longrightarrow>
    rowMoves d (d\<lparr>dl_attempts := Suc (dl_attempts d), dl_expires := Some y\<rparr>)"
| move_exhaust: "dl_status d = Leased \<Longrightarrow> 0 < dl_attempts d \<Longrightarrow>
    rowMoves d ((unleased d)\<lparr>dl_status := DeadLetter, dl_completed := Some t, dl_error := Some WhDeliveryDeadLetter\<rparr>)"
| move_outcome: "dl_status d = Leased \<Longrightarrow> stateCheck (outcomeRow t outcome d) \<Longrightarrow> rowMoves d (outcomeRow t outcome d)"

inductive_cases rowMovesE: "rowMoves d d'"

lemma outcomeRow_fields [simp]:
  "dl_attempts (outcomeRow t outcome d) = dl_attempts d" "dl_event (outcomeRow t outcome d) = dl_event d" "dl_dest (outcomeRow t outcome d) = dl_dest d"
  "dl_revision (outcomeRow t outcome d) = dl_revision d" "dl_status (outcomeRow t outcome d) = oc_Status outcome" "dl_token (outcomeRow t outcome d) = None"
  by (simp_all add: outcomeRow_def unleased_def)

lemma rowMoves_keeps:
  "rowMoves d d' \<Longrightarrow> dl_event d' = dl_event d \<and> dl_dest d' = dl_dest d \<and> dl_revision d' = dl_revision d \<and>
     (stateCheck d \<longrightarrow> stateCheck d') \<and> (dl_attempts d \<le> 8 \<longrightarrow> dl_attempts d' \<le> 8) \<and> dl_attempts d \<le> dl_attempts d' \<and> \<not> terminal d"
  by (induction rule: rowMoves.induct) (auto simp: unleased_def stateCheck_def terminal_def queued_def)

lemma rowMoves_chain:
  "rowMoves\<^sup>*\<^sup>* d d' \<Longrightarrow> dl_event d' = dl_event d \<and> dl_dest d' = dl_dest d \<and> dl_revision d' = dl_revision d \<and>
     (stateCheck d \<longrightarrow> stateCheck d') \<and> (dl_attempts d \<le> 8 \<longrightarrow> dl_attempts d' \<le> 8) \<and> dl_attempts d \<le> dl_attempts d' \<and> (terminal d \<longrightarrow> d' = d)"
proof (induction rule: rtranclp_induct)
  case (step y z)
  then show ?case using rowMoves_keeps [OF step(2)] by (cases "terminal d") auto
qed simp

section \<open>Every operation follows it\<close>

text \<open>The rows of one table as they continue in a later one.\<close>

definition rowsFollow :: "webhookdb \<Rightarrow> webhookdb \<Rightarrow> bool" where
  "rowsFollow db db' \<longleftrightarrow> (\<forall>k d. map_of (wd_deliveries db) k = Some d \<longrightarrow> (\<exists>d'. map_of (wd_deliveries db') k = Some d' \<and> rowMoves\<^sup>*\<^sup>* d d'))"

lemma rowsFollow_refl [simp]: "rowsFollow db db"
  by (auto simp: rowsFollow_def)

lemma rowsFollow_trans: "rowsFollow db db' \<Longrightarrow> rowsFollow db' db'' \<Longrightarrow> rowsFollow db db''"
  unfolding rowsFollow_def by (meson rtranclp_trans)

lemma mapDeliveries_lookup [simp]: "map_of (wd_deliveries (mapDeliveries f db)) k = map_option (f k) (map_of (wd_deliveries db) k)"
  by (simp add: mapDeliveries_def map_of_mapRows)

lemma mapDeliveries_fields [simp]:
  "wd_messages (mapDeliveries f db) = wd_messages db" "wd_outbox (mapDeliveries f db) = wd_outbox db"
  "wd_endpoints (mapDeliveries f db) = wd_endpoints db" "wd_revisions (mapDeliveries f db) = wd_revisions db"
  by (simp_all add: mapDeliveries_def)

lemma mapDeliveries_follow:
  assumes "\<And>k d. map_of (wd_deliveries db) k = Some d \<Longrightarrow> f k d = d \<or> rowMoves d (f k d)"
  shows "rowsFollow db (mapDeliveries f db)"
  using assms unfolding rowsFollow_def by (auto simp: r_into_rtranclp) (metis r_into_rtranclp rtranclp.rtrancl_refl)

lemma requeue_follows: "rowsFollow db (requeueExpired t db)"
  unfolding requeueExpired_def by (rule mapDeliveries_follow) (auto intro: move_requeue split: option.splits)

lemma cancel_follows: "rowsFollow db (cancelRevokedRows t db)"
  unfolding cancelRevokedRows_def by (rule mapDeliveries_follow) (auto simp: cancels_def intro: move_cancel)

lemma finish_db: "finish env e db db' x = (r, db'') \<Longrightarrow> db'' = db \<or> db'' = db'"
  by (auto simp: finish_def split: commitOutcome.splits)

lemma CancelRevoked_follows: "CancelRevoked env tick now db = (r, db') \<Longrightarrow> rowsFollow db db'"
  using rowsFollow_trans [OF requeue_follows cancel_follows]
  by (auto simp: CancelRevoked_def Let_def split: if_splits dest!: finish_db)

lemma BeginAttempt_follows: "BeginAttempt env tick key token now maxAttempts required db = (r, db') \<Longrightarrow> rowsFollow db db'"
  by (auto simp: BeginAttempt_def mayAttempt_def split: if_splits option.splits dest!: finish_db
      intro!: mapDeliveries_follow move_attempt move_exhaust)

lemma Finish_follows: "Finish env tick key token attempts now outcome db = (r, db') \<Longrightarrow> rowsFollow db db'"
  by (auto simp: Finish_def Let_def holdsLease_def split: if_splits option.splits dest!: finish_db intro!: mapDeliveries_follow move_outcome)

text \<open>Claiming: the due rows are distinct, so each is leased once.\<close>

lemma leaseRow_lookup:
  "map_of (wd_deliveries (leaseRow t owner ttl dv db)) k = map_option (\<lambda>d. if k = dv_ID dv then d\<lparr>dl_status := Leased, dl_owner := Some owner,
     dl_token := Some (dv_LeaseToken dv), dl_expires := Some (t + pgInterval ttl), dl_next := t + pgInterval ttl\<rparr> else d) (map_of (wd_deliveries db) k)"
  by (simp add: leaseRow_def)

definition leasedTo :: "bytes \<Rightarrow> bytes \<Rightarrow> instant \<Rightarrow> deliveryRow \<Rightarrow> deliveryRow" where
  "leasedTo owner token x d = d\<lparr>dl_status := Leased, dl_owner := Some owner, dl_token := Some token, dl_expires := Some x, dl_next := x\<rparr>"

lemma leaseLoop_other:
  "leaseLoop fails tick n owner ttl ds db = Inr db' \<Longrightarrow> k \<notin> dv_ID ` set ds \<Longrightarrow> map_of (wd_deliveries db') k = map_of (wd_deliveries db) k"
  by (induction ds arbitrary: n db) (auto simp: leaseRow_lookup option.map_ident split: if_splits)

lemma leaseLoop_leased:
  assumes "leaseLoop fails tick n owner ttl ds db = Inr db'" "distinct (map dv_ID ds)" "dv \<in> set ds" "map_of (wd_deliveries db) (dv_ID dv) = Some d"
  shows "\<exists>m \<ge> n. map_of (wd_deliveries db') (dv_ID dv) = Some (leasedTo owner (dv_LeaseToken dv) (tick m + pgInterval ttl) d)"
  using assms
proof (induction ds arbitrary: n db)
  case (Cons x ds)
  have r: "leaseLoop fails tick (n + 1) owner ttl ds (leaseRow (tick n) owner ttl x db) = Inr db'" using Cons.prems(1) by (simp split: if_splits)
  show ?case
  proof (cases "x = dv")
    case True
    then have "dv_ID dv \<notin> dv_ID ` set ds" using Cons.prems(2) by simp
    then show ?thesis using leaseLoop_other [OF r] Cons.prems(4) True by (auto simp: leaseRow_lookup leasedTo_def)
  next
    case False
    then have m: "dv \<in> set ds" "dv_ID dv \<noteq> dv_ID x" using Cons.prems(2,3) by (auto simp: image_iff)
    then have "\<exists>m \<ge> n + 1. map_of (wd_deliveries db') (dv_ID dv) = Some (leasedTo owner (dv_LeaseToken dv) (tick m + pgInterval ttl) d)"
      using Cons.IH [OF r] Cons.prems(2,4) by (simp add: leaseRow_lookup)
    then show ?thesis by (meson Suc_leD Suc_eq_plus1 le_trans add_leD1)
  qed
qed simp

lemma joined_ID: "joined db k d token = Some dv \<Longrightarrow> dv_ID dv = k \<and> dv_LeaseToken dv = token \<and> dv_Attempts dv = dl_attempts d \<and> dv_DestinationID dv = dl_dest d"
  by (auto simp: joined_def split: option.splits)

lemma claimTokens_IDs: "claimTokens db e rows = Inr ds \<Longrightarrow> map dv_ID ds = map fst rows"
  by (induction rows arbitrary: e ds) (fastforce simp: bindR_eq_Inr dest: joined_ID split: option.splits)+

lemma dueRows_rows: "(k, d) \<in> set (dueRows t skip n db) \<Longrightarrow> claimable t skip db (k, d) \<and> (k, d) \<in> set (wd_deliveries db)"
  by (auto simp: dueRows_def dest!: in_set_takeD)

lemma dueRows_distinct:
  assumes "distinct (map fst (wd_deliveries db))"
  shows "distinct (map fst (dueRows t skip n db))"
proof -
  have "distinct (filter (claimable t skip db) (wd_deliveries db))" "inj_on fst (set (filter (claimable t skip db) (wd_deliveries db)))"
    using assms by (auto simp: distinct_map inj_on_def)
  then have "distinct (map fst (sort_key (\<lambda>(key, d). (dl_next d, key)) (filter (claimable t skip db) (wd_deliveries db))))" by (simp add: distinct_map)
  then show ?thesis by (simp add: dueRows_def take_map [symmetric])
qed

lemma Claim_Inr:
  assumes "Claim env tick entropy skip now owner ttl limit db = (r, db')" "db' \<noteq> db"
  obtains ds where "claimTokens (requeueExpired (tick 0) db) entropy (dueRows (tick 1) skip (nat limit) (requeueExpired (tick 0) db)) = Inr ds"
    "leaseLoop (env_stmt env) tick 2 owner ttl ds (requeueExpired (tick 0) db) = Inr db'" "r = Inr ds \<or> (\<exists>e. r = Inl e)"
  using assms
  by (auto simp: Claim_def Let_def finish_def split: if_splits sum.splits commitOutcome.splits)

lemma Claim_follows:
  assumes "Claim env tick entropy skip now owner ttl limit db = (r, db')" "distinct (map fst (wd_deliveries db))"
  shows "rowsFollow db db'"
proof (cases "db' = db")
  case False
  let ?db1 = "requeueExpired (tick 0) db"
  obtain ds where ds: "claimTokens ?db1 entropy (dueRows (tick 1) skip (nat limit) ?db1) = Inr ds" "leaseLoop (env_stmt env) tick 2 owner ttl ds ?db1 = Inr db'"
    using Claim_Inr [OF assms(1) False] by blast
  have u: "distinct (map fst (wd_deliveries ?db1))" using assms(2) by (simp add: requeueExpired_def mapDeliveries_def)
  have ids: "map dv_ID ds = map fst (dueRows (tick 1) skip (nat limit) ?db1)" by (rule claimTokens_IDs [OF ds(1)])
  have "\<exists>d'. map_of (wd_deliveries db') k = Some d' \<and> rowMoves\<^sup>*\<^sup>* d d'" if d: "map_of (wd_deliveries ?db1) k = Some d" for k d
  proof (cases "k \<in> dv_ID ` set ds")
    case True
    then obtain dv d0 where dv: "dv \<in> set ds" "dv_ID dv = k" "(k, d0) \<in> set (dueRows (tick 1) skip (nat limit) ?db1)"
      using arg_cong [OF ids, of set] by force
    have "map_of (wd_deliveries ?db1) k = Some d0" using dueRows_rows [OF dv(3)] u by (simp only: map_of_eq_Some_iff)
    then have "d0 = d" using d by simp
    then have "dl_status d = Pending \<or> dl_status d = Retry" using dueRows_rows [OF dv(3)] by (simp add: claimable_def)
    then have "rowMoves d (leasedTo owner (dv_LeaseToken dv) x d)" for x unfolding leasedTo_def by (rule move_lease)
    moreover obtain m where "map_of (wd_deliveries db') k = Some (leasedTo owner (dv_LeaseToken dv) (tick m + pgInterval ttl) d)"
      using leaseLoop_leased [OF ds(2) _ dv(1)] dueRows_distinct [OF u] ids d dv(2) by auto
    ultimately show ?thesis by blast
  next
    case False
    then show ?thesis using leaseLoop_other [OF ds(2)] d by auto
  qed
  then have "rowsFollow ?db1 db'" by (auto simp: rowsFollow_def)
  then show ?thesis by (rule rowsFollow_trans [OF requeue_follows])
qed simp

end
