(* ===== verification/WebhookFanout.thy ===== *)
theory WebhookFanout
  imports WebhookLease
begin

text \<open>
  Fan-out of outbox events into webhook deliveries: an event is marked exactly when one delivery for each live endpoint has
  been created in the same transaction, and the rows that were there stay as they are.
\<close>

section \<open>The invariant\<close>

definition pairOf :: "bytes \<times> deliveryRow \<Rightarrow> bytes \<times> bytes" where
  "pairOf = (\<lambda>(k, d). (dl_event d, dl_dest d))"

definition markedAt :: "webhookdb \<Rightarrow> bytes \<Rightarrow> bool" where
  "markedAt db event \<longleftrightarrow> list_ex (\<lambda>ob. ox_event ob = event \<and> ox_fanoutAt ob \<noteq> None) (wd_outbox db)"

definition whInv :: "webhookdb \<Rightarrow> bool" where
  "whInv db \<longleftrightarrow> distinct (map fst (wd_deliveries db)) \<and> distinct (map pairOf (wd_deliveries db)) \<and> distinct (map ox_event (wd_outbox db)) \<and>
     distinct (map fst (wd_endpoints db)) \<and>
     list_all (\<lambda>(k, d). stateCheck d \<and> dl_attempts d \<le> 8 \<and> markedAt db (dl_event d)) (wd_deliveries db)"

definition deliveriesFor :: "webhookdb \<Rightarrow> bytes \<Rightarrow> (bytes \<times> deliveryRow) list" where
  "deliveriesFor db event = filter (\<lambda>(k, d). dl_event d = event) (wd_deliveries db)"

lemma unmarked_none:
  assumes "whInv db" "\<not> markedAt db event"
  shows "deliveriesFor db event = []"
  using assms by (auto simp: whInv_def deliveriesFor_def filter_empty_conv list_all_iff)

text \<open>Fan-out leaves the rows alone that were there.\<close>

definition rowsStay :: "webhookdb \<Rightarrow> webhookdb \<Rightarrow> bool" where
  "rowsStay db db' \<longleftrightarrow> (\<forall>k d. map_of (wd_deliveries db) k = Some d \<longrightarrow> map_of (wd_deliveries db') k = Some d)"

lemma rowsStay_refl [simp]: "rowsStay db db"
  by (simp add: rowsStay_def)

lemma rowsStay_trans: "rowsStay db db' \<Longrightarrow> rowsStay db' db'' \<Longrightarrow> rowsStay db db''"
  by (simp add: rowsStay_def)

lemma rowsStay_follow: "rowsStay db db' \<Longrightarrow> rowsFollow db db'"
  by (auto simp: rowsStay_def rowsFollow_def)

section \<open>One event\<close>

text \<open>The rows fan-out creates for an event: one for each endpoint, not attempted yet.\<close>

definition newRows :: "bytes \<Rightarrow> (bytes \<times> int) list \<Rightarrow> (bytes \<times> deliveryRow) list \<Rightarrow> bool" where
  "newRows event refs new \<longleftrightarrow> map (\<lambda>(k, d). (dl_dest d, dl_revision d)) new = rev (map (\<lambda>(dest, r). (dest, Some r)) refs) \<and>
     list_all (\<lambda>(k, d). dl_event d = event \<and> dl_status d = Pending \<and> dl_attempts d = 0 \<and> stateCheck d) new"

lemma insertDeliveries_new:
  assumes "insertDeliveries fails tick n e event refs db = Inr (n', e', db')" "distinct (map fst refs)"
    "\<And>dest. dest \<in> set (map fst refs) \<Longrightarrow> \<not> hasPair db event dest"
  shows "\<exists>new. db' = db\<lparr>wd_deliveries := new @ wd_deliveries db\<rparr> \<and> newRows event refs new \<and>
    (distinct (map fst (wd_deliveries db)) \<longrightarrow> distinct (map fst (new @ wd_deliveries db)))"
  using assms
proof (induction refs arbitrary: n e db)
  case (Cons ref refs)
  obtain dest revision where ref: "ref = (dest, revision)" by (cases ref)
  obtain key e1 where k: "webhookID e = Some (key, e1)" "key \<notin> set (map fst (wd_deliveries db))"
    using Cons.prems(1,3) ref by (auto split: option.splits if_splits)
  let ?row = "\<lparr>dl_event = event, dl_dest = dest, dl_revision = Some revision, dl_status = Pending, dl_attempts = 0, dl_next = tick n, dl_owner = None,
    dl_token = None, dl_expires = None, dl_completed = None, dl_http = None, dl_error = None\<rparr>"
  let ?db = "db\<lparr>wd_deliveries := (key, ?row) # wd_deliveries db\<rparr>"
  have r: "insertDeliveries fails tick (n + 1) e1 event refs ?db = Inr (n', e', db')"
    using Cons.prems(1,3) ref k by (auto split: if_splits)
  have "\<not> hasPair ?db event x" if "x \<in> set (map fst refs)" for x
    using that Cons.prems(2,3) ref by (auto simp: hasPair_def)
  then obtain new where new: "db' = ?db\<lparr>wd_deliveries := new @ wd_deliveries ?db\<rparr>" "newRows event refs new"
    "distinct (map fst (wd_deliveries ?db)) \<longrightarrow> distinct (map fst (new @ wd_deliveries ?db))"
    using Cons.IH [OF r] Cons.prems(2) by auto
  have "newRows event (ref # refs) (new @ [(key, ?row)])"
    using new(2) ref by (simp add: newRows_def stateCheck_def)
  then show ?case using new(1,3) k(2) by (intro exI [of _ "new @ [(key, ?row)]"]) auto
qed (simp add: newRows_def)

lemma endpointRefs_distinct:
  assumes "distinct (map fst (wd_endpoints db))"
  shows "distinct (map fst (endpointRefs db))"
proof -
  let ?L = "filter (\<lambda>(dest, e). ep_active e \<and> ep_revokedAt e = None) (wd_endpoints db)"
  have "distinct ?L" "inj_on fst (set ?L)" using assms by (auto simp: distinct_map inj_on_def)
  then have "distinct (map fst (take 65 (sort_key fst ?L)))" by (simp add: distinct_map take_map [symmetric] inj_on_subset [OF _ set_take_subset])
  moreover have "map fst (endpointRefs db) = map fst (take 65 (sort_key fst ?L))" by (auto simp: endpointRefs_def)
  ultimately show ?thesis by simp
qed

text \<open>What the loop body does to the tables, whatever fails.\<close>

definition fanStep :: "bytes \<Rightarrow> webhookdb \<Rightarrow> webhookdb \<Rightarrow> bool" where
  "fanStep event db db' \<longleftrightarrow> db' = db \<or> db' = markOutbox event (\<lambda>ob. ob\<lparr>ox_fanoutError := Some WhFanoutLimit\<rparr>) db \<or>
     (\<exists>new t. db' = markOutbox event (\<lambda>ob. ob\<lparr>ox_fanoutAt := Some t\<rparr>) (db\<lparr>wd_deliveries := new @ wd_deliveries db\<rparr>) \<and>
        newRows event (endpointRefs db) new \<and> length (endpointRefs db) \<le> MaxEndpointsPerEvent \<and>
        (distinct (map fst (wd_deliveries db)) \<longrightarrow> distinct (map fst (new @ wd_deliveries db))))"

lemma fanoutEvent_step:
  assumes "fanoutEvent fails tick dq gq event (n, e, g, f, db) = Inr (n', e', g', f', db')" "distinct (map fst (wd_endpoints db))" "deliveriesFor db event = []"
  shows "fanStep event db db'"
proof -
  have none: "\<not> hasPair db event dest" for dest using assms(3) by (auto simp: hasPair_def deliveriesFor_def filter_empty_conv list_ex_iff)
  have go: ?thesis if i: "insertDeliveries fails tick m e event (endpointRefs db) db = Inr (n2, e2, db2)" "length (endpointRefs db) \<le> MaxEndpointsPerEvent"
    "db' = markOutbox event (\<lambda>ob. ob\<lparr>ox_fanoutAt := Some (tick n2)\<rparr>) db2" for m n2 e2 db2
    using insertDeliveries_new [OF i(1) endpointRefs_distinct [OF assms(2)] none] i(2,3) unfolding fanStep_def by blast
  show ?thesis
    using assms(1) go
    by (auto simp: fanoutEvent_def Let_def bindR_eq_Inr fanStep_def not_less split: if_splits fanoutVerdict.splits)
qed

lemma newRows_pairs: "newRows event refs new \<Longrightarrow> map pairOf new = map (Pair event) (rev (map fst refs))"
proof -
  assume n: "newRows event refs new"
  have "map pairOf new = map (Pair event) (map fst (map (\<lambda>(k, d). (dl_dest d, dl_revision d)) new))"
    unfolding map_map by (rule map_cong) (use n in \<open>auto simp: newRows_def pairOf_def list_all_iff\<close>)
  also have "map (\<lambda>(k, d). (dl_dest d, dl_revision d)) new = rev (map (\<lambda>(dest, r). (dest, Some r)) refs)" using n by (simp add: newRows_def)
  finally show ?thesis by (simp add: rev_map case_prod_beta comp_def)
qed

lemma newRows_events: "newRows event refs new \<Longrightarrow> filter (\<lambda>(k, d). dl_event d = event') new = (if event' = event then new else [])"
  by (auto simp: newRows_def list_all_iff filter_empty_conv filter_id_conv)

lemma markOutbox_fields [simp]:
  "wd_deliveries (markOutbox event f db) = wd_deliveries db" "wd_endpoints (markOutbox event f db) = wd_endpoints db"
  "wd_revisions (markOutbox event f db) = wd_revisions db" "wd_messages (markOutbox event f db) = wd_messages db"
  by (simp_all add: markOutbox_def)

lemma markOutbox_events: "(\<And>ob. ox_event (f ob) = ox_event ob) \<Longrightarrow> map ox_event (wd_outbox (markOutbox event f db)) = map ox_event (wd_outbox db)"
  by (simp add: markOutbox_def)

lemma list_ex_map: "list_ex P (map f xs) \<longleftrightarrow> (\<exists>x \<in> set xs. P (f x))"
  by (induction xs) auto

lemma markedAt_error [simp]: "markedAt (markOutbox event (\<lambda>ob. ob\<lparr>ox_fanoutError := Some c\<rparr>) db) = markedAt db"
  by (auto simp: markedAt_def markOutbox_def list_ex_iff fun_eq_iff)

lemma markedAt_mark:
  "markedAt (markOutbox event (\<lambda>ob. ob\<lparr>ox_fanoutAt := Some t\<rparr>) db) event' \<longleftrightarrow> markedAt db event' \<or> event' = event \<and> event \<in> set (map ox_event (wd_outbox db))"
proof -
  have "markedAt (markOutbox event (\<lambda>ob. ob\<lparr>ox_fanoutAt := Some t\<rparr>) db) event' \<longleftrightarrow>
      (\<exists>ob \<in> set (wd_outbox db). ox_event ob = event' \<and> (ox_fanoutAt ob \<noteq> None \<or> ox_event ob = event))"
    unfolding markedAt_def markOutbox_def by (auto simp: list_ex_map)
  then show ?thesis by (auto simp: markedAt_def list_ex_iff)
qed

lemma fanStep_endpoints: "fanStep event db db' \<Longrightarrow> wd_endpoints db' = wd_endpoints db \<and> map ox_event (wd_outbox db') = map ox_event (wd_outbox db)"
  by (auto simp: fanStep_def markOutbox_events)

lemma endpointRefs_cong: "wd_endpoints db' = wd_endpoints db \<Longrightarrow> endpointRefs db' = endpointRefs db"
  by (simp add: endpointRefs_def)

lemma fanStep_inv:
  assumes "fanStep event db db'" "whInv db" "\<not> markedAt db event" "event \<in> set (map ox_event (wd_outbox db))"
  shows "whInv db' \<and> rowsStay db db'"
proof -
  consider "db' = db" | (bad) "db' = markOutbox event (\<lambda>ob. ob\<lparr>ox_fanoutError := Some WhFanoutLimit\<rparr>) db" |
    (go) new t where "db' = markOutbox event (\<lambda>ob. ob\<lparr>ox_fanoutAt := Some t\<rparr>) (db\<lparr>wd_deliveries := new @ wd_deliveries db\<rparr>)"
      "newRows event (endpointRefs db) new" "distinct (map fst (new @ wd_deliveries db))"
    using assms(1,2) unfolding fanStep_def whInv_def by blast
  then show ?thesis
  proof cases
    case bad
    have "whInv db'" using assms(2) by (auto simp: whInv_def bad markOutbox_events)
    then show ?thesis by (simp add: bad rowsStay_def)
  next
    case go
    have none: "x \<noteq> event" if "(k, d) \<in> set (wd_deliveries db)" "dl_event d = x" for k d x
      using unmarked_none [OF assms(2,3)] that by (auto simp: deliveriesFor_def filter_empty_conv)
    have "distinct (map pairOf new)"
      unfolding newRows_pairs [OF go(2)]
      using endpointRefs_distinct [of db] assms(2) by (subst distinct_map) (simp add: whInv_def inj_on_def)
    moreover have "set (map pairOf new) \<inter> set (map pairOf (wd_deliveries db)) = {}"
      unfolding newRows_pairs [OF go(2)] using none by (auto simp: pairOf_def)
    ultimately have pairs: "distinct (map pairOf (new @ wd_deliveries db))" using assms(2) by (simp add: whInv_def)
    have m: "markedAt db' x \<longleftrightarrow> markedAt db x \<or> x = event" for x
      using assms(4) by (auto simp: go(1) markedAt_mark) (auto simp: markedAt_def)
    have "list_all (\<lambda>(k, d). stateCheck d \<and> dl_attempts d \<le> 8 \<and> markedAt db' (dl_event d)) (new @ wd_deliveries db)"
      using go(2) assms(2) m by (auto simp: newRows_def whInv_def list_all_iff)
    then have "whInv db'" using pairs go(3) assms(2) by (auto simp: whInv_def go(1) markOutbox_events)
    moreover have "map_of (wd_deliveries db') k = Some d" if "map_of (wd_deliveries db) k = Some d" for k d
    proof -
      have "(k, d) \<in> set (new @ wd_deliveries db)" using map_of_SomeD [OF that] by simp
      then show ?thesis unfolding go(1) markOutbox_fields using go(3) by (simp add: map_of_eq_Some_iff del: set_append map_of_append)
    qed
    ultimately show ?thesis by (auto simp: rowsStay_def)
  qed (use assms(2) in simp)
qed

lemma fanStep_rows:
  assumes "fanStep event db db'" "whInv db" "\<not> markedAt db event" "event \<in> set (map ox_event (wd_outbox db))"
  shows "event' \<noteq> event \<Longrightarrow> deliveriesFor db' event' = deliveriesFor db event' \<and> (markedAt db' event' \<longleftrightarrow> markedAt db event')"
    "markedAt db' event \<Longrightarrow> newRows event (endpointRefs db) (deliveriesFor db' event) \<and> length (endpointRefs db) \<le> MaxEndpointsPerEvent"
proof -
  have m: "markedAt (db\<lparr>wd_deliveries := x\<rparr>) = markedAt db" for x by (auto simp: markedAt_def)
  show "deliveriesFor db' event' = deliveriesFor db event' \<and> (markedAt db' event' \<longleftrightarrow> markedAt db event')" if "event' \<noteq> event"
    using assms(1) that by (auto simp: fanStep_def deliveriesFor_def newRows_events markedAt_mark m)
  show "newRows event (endpointRefs db) (deliveriesFor db' event) \<and> length (endpointRefs db) \<le> MaxEndpointsPerEvent" if "markedAt db' event"
    using assms(1,3) that unmarked_none [OF assms(2,3)] by (auto simp: fanStep_def deliveriesFor_def newRows_events)
qed

section \<open>The whole transaction\<close>

lemma fanoutLoop_exact:
  assumes "fanoutLoop fails tick dq gq events (n, e, g, f, db) = Inr (n', e', g', f', db')" "whInv db" "distinct events"
    "\<And>x. x \<in> set events \<Longrightarrow> \<not> markedAt db x \<and> x \<in> set (map ox_event (wd_outbox db))"
  shows "whInv db' \<and> rowsStay db db' \<and> wd_endpoints db' = wd_endpoints db \<and>
    (\<forall>x. x \<notin> set events \<longrightarrow> deliveriesFor db' x = deliveriesFor db x \<and> (markedAt db' x \<longleftrightarrow> markedAt db x)) \<and>
    (\<forall>x. x \<in> set events \<longrightarrow> markedAt db' x \<longrightarrow> newRows x (endpointRefs db) (deliveriesFor db' x) \<and> length (endpointRefs db) \<le> MaxEndpointsPerEvent)"
  using assms
proof (induction events arbitrary: n e g f db)
  case (Cons event events)
  obtain n1 e1 g1 f1 db1 where r: "fanoutEvent fails tick dq gq event (n, e, g, f, db) = Inr (n1, e1, g1, f1, db1)"
    "fanoutLoop fails tick dq gq events (n1, e1, g1, f1, db1) = Inr (n', e', g', f', db')"
    using Cons.prems(1) by (auto simp: bindR_eq_Inr)
  have ev: "\<not> markedAt db event" "event \<in> set (map ox_event (wd_outbox db))" using Cons.prems(4) [of event] by auto
  have s: "fanStep event db db1"
    by (rule fanoutEvent_step [OF r(1)]) (use Cons.prems(2) unmarked_none [OF Cons.prems(2) ev(1)] in \<open>auto simp: whInv_def\<close>)
  note i = fanStep_inv [OF s Cons.prems(2) ev] and w = fanStep_rows [OF s Cons.prems(2) ev] and p = fanStep_endpoints [OF s]
  have un: "\<not> markedAt db1 x \<and> x \<in> set (map ox_event (wd_outbox db1))" if "x \<in> set events" for x
    using that Cons.prems(3) Cons.prems(4) [of x] w(1) [of x] p by (auto simp del: set_map)
  have dist: "distinct events" using Cons.prems(3) by simp
  have ih: "whInv db' \<and> rowsStay db1 db' \<and> wd_endpoints db' = wd_endpoints db1 \<and>
    (\<forall>x. x \<notin> set events \<longrightarrow> deliveriesFor db' x = deliveriesFor db1 x \<and> (markedAt db' x \<longleftrightarrow> markedAt db1 x)) \<and>
    (\<forall>x. x \<in> set events \<longrightarrow> markedAt db' x \<longrightarrow> newRows x (endpointRefs db1) (deliveriesFor db' x) \<and> length (endpointRefs db1) \<le> MaxEndpointsPerEvent)"
    by (rule Cons.IH [OF r(2) conjunct1 [OF i] dist un])
  have e: "endpointRefs db1 = endpointRefs db" by (rule endpointRefs_cong [OF conjunct1 [OF p]])
  have "event \<notin> set events" using Cons.prems(3) by simp
  then have "markedAt db' event \<longrightarrow> newRows event (endpointRefs db) (deliveriesFor db' event) \<and> length (endpointRefs db) \<le> MaxEndpointsPerEvent"
    using ih w(2) by simp
  moreover have "rowsStay db db'" using rowsStay_trans i ih by blast
  ultimately show ?case using ih w(1) p unfolding e by (simp del: fanoutLoop.simps)
qed simp

lemma fanoutEvents_ok:
  assumes "whInv db"
  shows "distinct (fanoutEvents skip limit db)" "x \<in> set (fanoutEvents skip limit db) \<Longrightarrow> \<not> markedAt db x \<and> x \<in> set (map ox_event (wd_outbox db))"
proof -
  let ?L = "filter (\<lambda>ob. \<not> skip (ox_event ob)) (sort_key (\<lambda>ob. (ox_created ob, ox_event ob)) (filter unmarked (wd_outbox db)))"
  have d: "inj_on ox_event (set (wd_outbox db))" "distinct (wd_outbox db)" using assms by (simp_all add: whInv_def distinct_map)
  have "inj_on ox_event (set ?L)" by (rule inj_on_subset [OF d(1)]) auto
  then have "distinct (map ox_event ?L)" using d(2) by (simp add: distinct_map)
  then show "distinct (fanoutEvents skip limit db)" by (simp add: fanoutEvents_def take_map [symmetric])
  show "\<not> markedAt db x \<and> x \<in> set (map ox_event (wd_outbox db))" if x: "x \<in> set (fanoutEvents skip limit db)"
  proof -
    obtain ob where "ob \<in> set (wd_outbox db)" "unmarked ob" "ox_event ob = x" using x by (auto simp: fanoutEvents_def dest!: in_set_takeD)
    then show ?thesis using d(1) by (auto simp: markedAt_def list_ex_iff unmarked_def inj_on_def)
  qed
qed

lemma Fanout_cases:
  assumes "Fanout env tick entropy skip now limit dq gq db = (r, db')"
  shows "db' = db \<or> (\<exists>n e g f. fanoutLoop (env_stmt env) tick dq gq (fanoutEvents skip (nat limit) db) (3, entropy, int (globalPendingOf db), None, db) = Inr (n, e, g, f, db'))"
  using assms by (auto simp: Fanout_def Let_def finish_def split: if_splits sum.splits commitOutcome.splits prod.splits)

lemma Fanout_exact:
  assumes "Fanout env tick entropy skip now limit dq gq db = (r, db')" "whInv db"
  shows "whInv db' \<and> rowsStay db db' \<and> wd_endpoints db' = wd_endpoints db \<and> (markedAt db x \<longrightarrow> deliveriesFor db' x = deliveriesFor db x \<and> markedAt db' x) \<and>
    (\<not> markedAt db x \<and> markedAt db' x \<longrightarrow> newRows x (endpointRefs db) (deliveriesFor db' x) \<and> length (endpointRefs db) \<le> MaxEndpointsPerEvent) \<and>
    (\<not> markedAt db' x \<longrightarrow> deliveriesFor db' x = [])"
proof (cases "db' = db")
  case False
  then obtain n e g f where l: "fanoutLoop (env_stmt env) tick dq gq (fanoutEvents skip (nat limit) db) (3, entropy, int (globalPendingOf db), None, db) = Inr (n, e, g, f, db')"
    using Fanout_cases [OF assms(1)] by blast
  note ok = fanoutEvents_ok [OF assms(2), where skip = skip and limit = "nat limit"]
  have e: "whInv db' \<and> rowsStay db db' \<and> wd_endpoints db' = wd_endpoints db \<and>
    (\<forall>x. x \<notin> set (fanoutEvents skip (nat limit) db) \<longrightarrow> deliveriesFor db' x = deliveriesFor db x \<and> (markedAt db' x \<longleftrightarrow> markedAt db x)) \<and>
    (\<forall>x. x \<in> set (fanoutEvents skip (nat limit) db) \<longrightarrow> markedAt db' x \<longrightarrow>
       newRows x (endpointRefs db) (deliveriesFor db' x) \<and> length (endpointRefs db) \<le> MaxEndpointsPerEvent)"
    by (rule fanoutLoop_exact [OF l assms(2) ok])
  then show ?thesis using ok(2) [of x] unmarked_none [of db' x] by blast
next
  case True
  then show ?thesis using assms(2) unmarked_none [OF assms(2), of x] by simp
qed

end
