(* ===== verification/WebhookRuns.thy ===== *)
theory WebhookRuns
  imports WebhookFanout
begin

text \<open>
  Runs of the whole webhook repository: any interleaving of its operations, with the invariant of the tables, the lifecycle
  of every delivery, and the exclusion that a live lease gives its holder.
\<close>

section \<open>Runs\<close>

lemma mapDeliveries_keys [simp]: "map fst (wd_deliveries (mapDeliveries f db)) = map fst (wd_deliveries db)"
  by (simp add: mapDeliveries_def)

text \<open>Operations that only move rows keep everything else.\<close>

definition onlyRows :: "webhookdb \<Rightarrow> webhookdb \<Rightarrow> bool" where
  "onlyRows db db' \<longleftrightarrow> map fst (wd_deliveries db') = map fst (wd_deliveries db) \<and> wd_outbox db' = wd_outbox db \<and> wd_endpoints db' = wd_endpoints db"

lemma onlyRows_refl [simp]: "onlyRows db db"
  by (simp add: onlyRows_def)

lemma onlyRows_trans: "onlyRows db db' \<Longrightarrow> onlyRows db' db'' \<Longrightarrow> onlyRows db db''"
  by (simp add: onlyRows_def)

lemma onlyRows_map [simp]: "onlyRows db (mapDeliveries f db)"
  by (simp add: onlyRows_def)

lemma leaseLoop_onlyRows: "leaseLoop fails tick n owner ttl ds db = Inr db' \<Longrightarrow> onlyRows db db'"
proof (induction ds arbitrary: n db)
  case (Cons dv ds)
  have "onlyRows db (leaseRow (tick n) owner ttl dv db)" by (simp add: leaseRow_def)
  moreover have "onlyRows (leaseRow (tick n) owner ttl dv db) db'" using Cons by (auto split: if_splits)
  ultimately show ?case by (rule onlyRows_trans)
qed simp

lemma operations_onlyRows:
  "CancelRevoked env tick now db = (r1, db') \<Longrightarrow> onlyRows db db'"
  "Claim env tick entropy skip now owner ttl limit db = (r2, db') \<Longrightarrow> onlyRows db db'"
  "BeginAttempt env tick key token now maxAttempts required db = (r3, db') \<Longrightarrow> onlyRows db db'"
  "Finish env tick key token attempts now outcome db = (r4, db') \<Longrightarrow> onlyRows db db'"
proof -
  have q: "onlyRows db (requeueExpired t db)" "onlyRows (requeueExpired t db) (cancelRevokedRows u (requeueExpired t db))" for t u
    by (simp_all add: requeueExpired_def cancelRevokedRows_def)
  show "onlyRows db db'" if "CancelRevoked env tick now db = (r1, db')"
    using that onlyRows_trans [OF q] by (auto simp: CancelRevoked_def Let_def split: if_splits dest!: finish_db)
  show "onlyRows db db'" if c: "Claim env tick entropy skip now owner ttl limit db = (r2, db')"
  proof (cases "db' = db")
    case False
    then show ?thesis using Claim_Inr [OF c] leaseLoop_onlyRows onlyRows_trans q(1) by metis
  qed simp
  show "onlyRows db db'" if "BeginAttempt env tick key token now maxAttempts required db = (r3, db')"
    using that by (auto simp: BeginAttempt_def split: if_splits option.splits dest!: finish_db)
  show "onlyRows db db'" if "Finish env tick key token attempts now outcome db = (r4, db')"
    using that by (auto simp: Finish_def Let_def split: if_splits option.splits dest!: finish_db)
qed

lemma rowsFollow_list:
  assumes "rowsFollow db db'" "map fst (wd_deliveries db') = map fst (wd_deliveries db)" "distinct (map fst (wd_deliveries db))"
  shows "list_all2 (\<lambda>(k, d) (k', d'). k = k' \<and> rowMoves\<^sup>*\<^sup>* d d') (wd_deliveries db) (wd_deliveries db')"
proof (rule list_all2_all_nthI)
  show len: "length (wd_deliveries db) = length (wd_deliveries db')" using arg_cong [OF assms(2), of length] by simp
  fix i
  assume i: "i < length (wd_deliveries db)"
  obtain k d k' d' where r: "wd_deliveries db ! i = (k, d)" "wd_deliveries db' ! i = (k', d')" by force
  have "k = k'" using arg_cong [OF assms(2), of "\<lambda>l. l ! i"] i len r by simp
  moreover have "map_of (wd_deliveries db) k = Some d" "map_of (wd_deliveries db') k' = Some d'"
    using assms(2,3) i len r nth_mem by (metis map_of_eq_Some_iff)+
  ultimately show "(\<lambda>(k, d) (k', d'). k = k' \<and> rowMoves\<^sup>*\<^sup>* d d') (wd_deliveries db ! i) (wd_deliveries db' ! i)"
    using assms(1) r unfolding rowsFollow_def by fastforce
qed

lemma onlyRows_inv:
  assumes "onlyRows db db'" "rowsFollow db db'" "whInv db"
  shows "whInv db'"
proof -
  have o: "map fst (wd_deliveries db') = map fst (wd_deliveries db)" "wd_outbox db' = wd_outbox db" "wd_endpoints db' = wd_endpoints db"
    using assms(1) by (simp_all add: onlyRows_def)
  have l: "list_all2 (\<lambda>(k, d) (k', d'). k = k' \<and> rowMoves\<^sup>*\<^sup>* d d') (wd_deliveries db) (wd_deliveries db')"
    using rowsFollow_list [OF assms(2) o(1)] assms(3) by (simp add: whInv_def)
  have "map pairOf (wd_deliveries db') = map pairOf (wd_deliveries db)"
    using l by (induction rule: list_all2_induct) (auto simp: pairOf_def dest!: rowMoves_chain)
  moreover have "markedAt db' = markedAt db" by (simp add: markedAt_def o(2) fun_eq_iff)
  moreover have "list_all (\<lambda>(k, d). stateCheck d \<and> dl_attempts d \<le> 8 \<and> markedAt db (dl_event d)) (wd_deliveries db')"
    using l assms(3) [unfolded whInv_def, THEN conjunct2, THEN conjunct2, THEN conjunct2, THEN conjunct2]
    by (induction rule: list_all2_induct) (auto dest!: rowMoves_chain)
  ultimately show ?thesis using assms(3) o by (simp add: whInv_def)
qed

text \<open>
  What moves the tables: the repository's operations in any order and with any failures, new messages with their events,
  and the administration of endpoints.
\<close>

inductive wh_step :: "webhookdb \<Rightarrow> webhookdb \<Rightarrow> bool" where
  step_cancel: "CancelRevoked env tick now db = (r1, db') \<Longrightarrow> wh_step db db'"
| step_fanout: "Fanout env tick entropy skip now limit dq gq db = (r2, db') \<Longrightarrow> wh_step db db'"
| step_claim: "Claim env tick entropy skip now owner ttl limit db = (r3, db') \<Longrightarrow> wh_step db db'"
| step_attempt: "BeginAttempt env tick key token now maxAttempts required db = (r4, db') \<Longrightarrow> wh_step db db'"
| step_finish: "Finish env tick key token attempts now outcome db = (r5, db') \<Longrightarrow> wh_step db db'"
| step_message: "ox_event ob \<notin> set (map ox_event (wd_outbox db)) \<Longrightarrow>
    wh_step db (db\<lparr>wd_messages := m # wd_messages db, wd_outbox := ob # wd_outbox db\<rparr>)"
| step_endpoints: "distinct (map fst es) \<Longrightarrow> wh_step db (db\<lparr>wd_endpoints := es, wd_revisions := rs @ wd_revisions db\<rparr>)"

lemma onlyRows_follow: "onlyRows db db' \<Longrightarrow> rowsFollow db db' \<Longrightarrow> whInv db \<Longrightarrow> whInv db' \<and> rowsFollow db db'"
  using onlyRows_inv by blast

lemma wh_step_follows: "wh_step db db' \<Longrightarrow> whInv db \<Longrightarrow> whInv db' \<and> rowsFollow db db'"
proof (induction rule: wh_step.induct)
  case (step_cancel env tick now db r1 db')
  show ?case by (rule onlyRows_follow [OF operations_onlyRows(1) CancelRevoked_follows]; rule step_cancel)
next
  case (step_fanout env tick entropy skip now limit dq gq db r2 db')
  then show ?case using Fanout_exact rowsStay_follow by blast
next
  case (step_claim env tick entropy skip now owner ttl limit db r3 db')
  have "distinct (map fst (wd_deliveries db))" using step_claim(2) by (simp add: whInv_def)
  then show ?case by (intro onlyRows_follow [OF operations_onlyRows(2) Claim_follows]) (rule step_claim | assumption)+
next
  case (step_attempt env tick key token now maxAttempts required db r4 db')
  show ?case by (rule onlyRows_follow [OF operations_onlyRows(3) BeginAttempt_follows]; rule step_attempt)
next
  case (step_finish env tick key token attempts now outcome db r5 db')
  show ?case by (rule onlyRows_follow [OF operations_onlyRows(4) Finish_follows]; rule step_finish)
next
  case (step_message ob db m)
  then show ?case by (auto simp: whInv_def markedAt_def rowsFollow_def list_all_iff)
next
  case (step_endpoints es db rs)
  then show ?case by (auto simp: whInv_def markedAt_def rowsFollow_def list_all_iff)
qed

interpretation webhook_runs: store_runs wh_step whInv
  by unfold_locales (use wh_step_follows in blast)

lemma wh_runs_follow: "wh_step\<^sup>*\<^sup>* db db' \<Longrightarrow> whInv db \<Longrightarrow> rowsFollow db db'"
proof (induction rule: rtranclp_induct)
  case (step y z)
  then show ?case using wh_step_follows [OF step(2) webhook_runs.inv_runs [OF step(1,4)]] rowsFollow_trans by blast
qed simp

section \<open>A live lease\<close>

text \<open>A row leased under a token at least until \<open>x\<close>, at an endpoint that is not revoked.\<close>

definition leaseLive :: "bytes \<Rightarrow> bytes \<Rightarrow> instant \<Rightarrow> webhookdb \<Rightarrow> deliveryRow \<Rightarrow> bool" where
  "leaseLive key token x db d \<longleftrightarrow> map_of (wd_deliveries db) key = Some d \<and> dl_status d = Leased \<and> dl_token d = Some token \<and>
     (case dl_expires d of None \<Rightarrow> False | Some y \<Rightarrow> x \<le> y) \<and> \<not> endpointRevoked db (dl_dest d)"

text \<open>The steps of everybody who does not hold that token, while the database time is before \<open>x\<close>.\<close>

inductive rival_step :: "bytes \<Rightarrow> bytes \<Rightarrow> instant \<Rightarrow> webhookdb \<Rightarrow> webhookdb \<Rightarrow> bool" for key token x where
  rival_cancel: "CancelRevoked env tick now db = (r1, db') \<Longrightarrow> tick 0 < x \<Longrightarrow> rival_step key token x db db'"
| rival_fanout: "Fanout env tick entropy skip now limit dq gq db = (r2, db') \<Longrightarrow> rival_step key token x db db'"
| rival_claim: "Claim env tick entropy skip now owner ttl limit db = (r3, db') \<Longrightarrow> tick 0 < x \<Longrightarrow> rival_step key token x db db'"
| rival_attempt: "BeginAttempt env tick key' token' now maxAttempts required db = (r4, db') \<Longrightarrow> key' \<noteq> key \<or> token' \<noteq> token \<Longrightarrow> rival_step key token x db db'"
| rival_finish: "Finish env tick key' token' attempts now outcome db = (r5, db') \<Longrightarrow> key' \<noteq> key \<or> token' \<noteq> token \<Longrightarrow> rival_step key token x db db'"
| rival_message: "ox_event ob \<notin> set (map ox_event (wd_outbox db)) \<Longrightarrow>
    rival_step key token x db (db\<lparr>wd_messages := m # wd_messages db, wd_outbox := ob # wd_outbox db\<rparr>)"
| rival_endpoints: "distinct (map fst es) \<Longrightarrow>
    (\<And>d. map_of (wd_deliveries db) key = Some d \<Longrightarrow> endpointRevoked (db\<lparr>wd_endpoints := es\<rparr>) (dl_dest d) \<Longrightarrow> endpointRevoked db (dl_dest d)) \<Longrightarrow>
    rival_step key token x db (db\<lparr>wd_endpoints := es, wd_revisions := rs @ wd_revisions db\<rparr>)"

lemma rival_wh_step: "rival_step key token x db db' \<Longrightarrow> wh_step db db'"
  by (induction rule: rival_step.induct) (rule wh_step.intros; assumption)+

lemma endpointRevoked_cong: "wd_endpoints db' = wd_endpoints db \<Longrightarrow> endpointRevoked db' = endpointRevoked db"
  by (simp add: endpointRevoked_def fun_eq_iff)

lemma leaseLive_requeue: "leaseLive key token x db d \<Longrightarrow> t < x \<Longrightarrow> leaseLive key token x (requeueExpired t db) d"
  by (auto simp: leaseLive_def requeueExpired_def endpointRevoked_def split: option.splits)

lemma leaseLive_cancel: "leaseLive key token x db d \<Longrightarrow> leaseLive key token x (cancelRevokedRows t db) d"
  by (auto simp: leaseLive_def cancelRevokedRows_def cancels_def endpointRevoked_def split: option.splits)

lemma leaseLive_due:
  assumes "leaseLive key token x db d" "distinct (map fst (wd_deliveries db))"
  shows "key \<notin> fst ` set (dueRows t skip n db)"
proof
  assume "key \<in> fst ` set (dueRows t skip n db)"
  then obtain d' where "(key, d') \<in> set (dueRows t skip n db)" by auto
  then have c: "claimable t skip db (key, d')" "(key, d') \<in> set (wd_deliveries db)" using dueRows_rows by blast+
  then have "map_of (wd_deliveries db) key = Some d'" using assms(2) by (simp only: map_of_eq_Some_iff)
  then show False using c(1) assms(1) by (auto simp: claimable_def leaseLive_def)
qed

lemma leaseLive_claim:
  assumes "Claim env tick entropy skip now owner ttl limit db = (r, db')" "tick 0 < x" "leaseLive key token x db d" "distinct (map fst (wd_deliveries db))"
  shows "leaseLive key token x db' d" "r = Inr ds \<Longrightarrow> key \<notin> dv_ID ` set ds"
proof -
  let ?db1 = "requeueExpired (tick 0) db"
  note live = leaseLive_requeue [OF assms(3,2)]
  have u: "distinct (map fst (wd_deliveries ?db1))" using assms(4) by (simp add: requeueExpired_def mapDeliveries_def)
  have k: "key \<notin> dv_ID ` set es" if "claimTokens ?db1 entropy (dueRows (tick 1) skip (nat limit) ?db1) = Inr es" for es
  proof -
    have "dv_ID ` set es = fst ` set (dueRows (tick 1) skip (nat limit) ?db1)" using arg_cong [OF claimTokens_IDs [OF that], of set] by simp
    then show ?thesis using leaseLive_due [OF live u] by simp
  qed
  show "leaseLive key token x db' d"
  proof (cases "db' = db")
    case False
    then obtain es where es: "claimTokens ?db1 entropy (dueRows (tick 1) skip (nat limit) ?db1) = Inr es" "leaseLoop (env_stmt env) tick 2 owner ttl es ?db1 = Inr db'"
      using Claim_Inr [OF assms(1)] by blast
    have "endpointRevoked db' = endpointRevoked ?db1"
      using leaseLoop_onlyRows [OF es(2)] by (intro endpointRevoked_cong) (simp add: onlyRows_def)
    then show ?thesis using live leaseLoop_other [OF es(2) k [OF es(1)]] by (simp add: leaseLive_def)
  qed (use assms(3) in simp)
  show "key \<notin> dv_ID ` set ds" if "r = Inr ds"
    using assms(1) that k by (auto simp: Claim_def Let_def finish_def split: if_splits sum.splits commitOutcome.splits)
qed

lemma leaseLive_fenced:
  assumes "leaseLive key token x db d" "token' \<noteq> token"
  shows "fst (BeginAttempt env tick key token' now maxAttempts required db) \<noteq> Inr True" "snd (BeginAttempt env tick key token' now maxAttempts required db) = db"
    "isl (fst (Finish env tick key token' attempts now outcome db))" "snd (Finish env tick key token' attempts now outcome db) = db"
  using assms
  by (auto simp: leaseLive_def BeginAttempt_def Finish_def Let_def mayAttempt_def holdsLease_def finish_def split: commitOutcome.splits)

lemma leaseLive_map: "leaseLive key token x db d \<Longrightarrow> f key d = d \<Longrightarrow> leaseLive key token x (mapDeliveries f db) d"
  by (simp add: leaseLive_def endpointRevoked_def)

lemma leaseLive_attempt:
  "BeginAttempt env tick key' token' now maxAttempts required db = (r, db') \<Longrightarrow> key' \<noteq> key \<or> token' \<noteq> token \<Longrightarrow> leaseLive key token x db d \<Longrightarrow>
   leaseLive key token x db' d"
proof (cases "key' = key")
  case False
  assume "BeginAttempt env tick key' token' now maxAttempts required db = (r, db')" "leaseLive key token x db d"
  then show ?thesis using False by (auto simp: BeginAttempt_def split: if_splits option.splits dest!: finish_db intro!: leaseLive_map)
next
  case True
  assume "BeginAttempt env tick key' token' now maxAttempts required db = (r, db')" "key' \<noteq> key \<or> token' \<noteq> token" "leaseLive key token x db d"
  then show ?thesis using True leaseLive_fenced(2) [of key token x db d token' env tick now maxAttempts required] by simp
qed

lemma leaseLive_finish:
  "Finish env tick key' token' attempts now outcome db = (r, db') \<Longrightarrow> key' \<noteq> key \<or> token' \<noteq> token \<Longrightarrow> leaseLive key token x db d \<Longrightarrow>
   leaseLive key token x db' d"
proof (cases "key' = key")
  case False
  assume "Finish env tick key' token' attempts now outcome db = (r, db')" "leaseLive key token x db d"
  then show ?thesis using False by (auto simp: Finish_def Let_def split: if_splits option.splits dest!: finish_db intro!: leaseLive_map)
next
  case True
  assume "Finish env tick key' token' attempts now outcome db = (r, db')" "key' \<noteq> key \<or> token' \<noteq> token" "leaseLive key token x db d"
  then show ?thesis using True leaseLive_fenced(4) [of key token x db d token' env tick attempts now outcome] by simp
qed

lemma rival_keeps: "rival_step key token x db db' \<Longrightarrow> whInv db \<Longrightarrow> leaseLive key token x db d \<Longrightarrow> leaseLive key token x db' d"
proof (induction rule: rival_step.induct)
  case (rival_cancel env tick now db r1 db')
  note k = leaseLive_cancel [OF leaseLive_requeue [OF rival_cancel(4,2)], of "tick 1"]
  show ?case using rival_cancel(1,4) k by (auto simp: CancelRevoked_def Let_def split: if_splits dest!: finish_db)
next
  case (rival_fanout env tick entropy skip now limit dq gq db r2 db')
  have f: "rowsStay db db'" "wd_endpoints db' = wd_endpoints db" using Fanout_exact [OF rival_fanout(1,2)] by blast+
  then show ?case using rival_fanout(3) endpointRevoked_cong [OF f(2)] by (simp add: leaseLive_def rowsStay_def)
next
  case (rival_claim env tick entropy skip now owner ttl limit db r3 db')
  show ?case by (rule leaseLive_claim(1) [OF rival_claim(1,2,4)]) (use rival_claim(3) in \<open>simp add: whInv_def\<close>)
next
  case (rival_attempt env tick key' token' now maxAttempts required db r4 db')
  show ?case by (rule leaseLive_attempt [OF rival_attempt(1,2,4)])
next
  case (rival_finish env tick key' token' attempts now outcome db r5 db')
  show ?case by (rule leaseLive_finish [OF rival_finish(1,2,4)])
next
  case (rival_message ob db m)
  then show ?case by (simp add: leaseLive_def endpointRevoked_def)
next
  case (rival_endpoints es db rs)
  then show ?case by (auto simp: leaseLive_def endpointRevoked_def)
qed

interpretation rivals: store_latch "rival_step key token x" whInv "leaseLive key token x" for key token x
proof unfold_locales
  show "whInv t" if "rival_step key token x s t" "whInv s" for s t using wh_step_follows [OF rival_wh_step [OF that(1)] that(2)] by simp
  show "leaseLive key token x t d" if "rival_step key token x s t" "whInv s" "leaseLive key token x s d" for s t d by (rule rival_keeps [OF that])
qed

end
