(* ===== verification/WebhookDelivery.thy ===== *)
theory WebhookDelivery
  imports WebhookRuns
begin

text \<open>
  What the webhook repository promises its workers, over all runs: the lifecycle of a delivery, the exclusion of a live
  lease, and exactly one delivery for each endpoint that is live when an event is fanned out.
\<close>

lemma endpointRefs_live:
  assumes "distinct (map fst (wd_endpoints db))" "length (endpointRefs db) \<le> MaxEndpointsPerEvent"
  shows "dest \<in> set (map fst (endpointRefs db)) \<longleftrightarrow> endpointLive db dest"
proof -
  let ?L = "filter (\<lambda>(dest, e). ep_active e \<and> ep_revokedAt e = None) (wd_endpoints db)"
  have "length (take 65 (sort_key fst ?L)) \<le> 64" using assms(2) by (simp only: endpointRefs_def MaxEndpointsPerEvent_def length_map)
  then have "length ?L \<le> 65" by simp
  then have "map fst (endpointRefs db) = map fst (sort_key fst ?L)" unfolding endpointRefs_def by (simp add: case_prod_beta)
  then have "dest \<in> set (map fst (endpointRefs db)) \<longleftrightarrow> dest \<in> fst ` set ?L" by (simp only: set_map set_sort)
  also have "\<dots> \<longleftrightarrow> (\<exists>e. (dest, e) \<in> set (wd_endpoints db) \<and> ep_active e \<and> ep_revokedAt e = None)" by force
  also have "\<dots> \<longleftrightarrow> (\<exists>e. map_of (wd_endpoints db) dest = Some e \<and> ep_active e \<and> ep_revokedAt e = None)" by (simp only: map_of_eq_Some_iff [OF assms(1)])
  also have "\<dots> \<longleftrightarrow> endpointLive db dest" by (simp add: endpointLive_def split: option.splits)
  finally show ?thesis .
qed

lemma newRows_dests: "newRows event refs new \<Longrightarrow> map (\<lambda>(k, d). dl_dest d) new = rev (map fst refs)"
proof -
  assume "newRows event refs new"
  then have "map fst (map (\<lambda>(k, d). (dl_dest d, dl_revision d)) new) = map fst (rev (map (\<lambda>(dest, r). (dest, Some r)) refs))" by (simp add: newRows_def)
  then show ?thesis by (simp add: rev_map comp_def case_prod_unfold)
qed

definition sampleDelivery :: deliveryRow where
  "sampleDelivery = \<lparr>dl_event = ''e1'', dl_dest = ''x'', dl_revision = Some 1, dl_status = Pending, dl_attempts = 0, dl_next = 5, dl_owner = None,
     dl_token = None, dl_expires = None, dl_completed = None, dl_http = None, dl_error = None\<rparr>"

text \<open>Two events of one message, of which the first is fanned out already.\<close>

definition sampleWh :: webhookdb where
  "sampleWh = \<lparr>wd_messages = [\<lparr>sr_ServerMsgID = ''s1'', sr_ClientMsgID = ''c1'', sr_SenderID = ''u1'', sr_ConversationID = ''v1'', sr_ConversationSeq = 1,
       sr_ProtocolVersion = 1, sr_SchemaVersion = 1, sr_MessageType = ''text'', sr_ServerTime = 4, sr_Payload = ''{}''\<rparr>],
     wd_outbox = [\<lparr>ox_event = ''e1'', ox_server = ''s1'', ox_created = 4, ox_fanoutAt = Some 5, ox_fanoutError = None\<rparr>,
       \<lparr>ox_event = ''e2'', ox_server = ''s1'', ox_created = 4, ox_fanoutAt = None, ox_fanoutError = None\<rparr>],
     wd_endpoints = [(''x'', \<lparr>ep_active = True, ep_revision = Some 1, ep_revokedAt = None\<rparr>), (''y'', \<lparr>ep_active = False, ep_revision = Some 1, ep_revokedAt = None\<rparr>)],
     wd_revisions = [((''x'', 1), \<lparr>rv_url = ''https://x'', rv_keyID = ''k1'', rv_nonce = [], rv_ciphertext = []\<rparr>)],
     wd_deliveries = [(''d1'', sampleDelivery)]\<rparr>"

definition sampleClaimed :: webhookdb where
  "sampleClaimed = snd (Claim goodEnv (\<lambda>_. 10) (replicate 16 CHR ''a'') (\<lambda>_. False) 10 ''w1'' 1000000 5 sampleWh)"

definition sampleLeased :: deliveryRow where
  "sampleLeased = leasedTo ''w1'' (hex_encode (replicate 16 CHR ''a'')) 1000010 sampleDelivery"

lemma sampleWh_inv: "whInv sampleWh"
  by code_simp

lemma sampleClaimed_row: "map_of (wd_deliveries sampleClaimed) ''d1'' = Some sampleLeased"
  by code_simp

lemma sampleClaimed_inv: "whInv sampleClaimed"
  by code_simp

lemma sampleClaimed_step: "wh_step sampleWh sampleClaimed"
  unfolding sampleClaimed_def by (rule step_claim [where db = sampleWh, OF prod.collapse [symmetric]])

text \<open>
  C10. In every run of the repository, in whatever order its operations come and whatever fails, each delivery keeps its event,
  endpoint and revision and moves only along the machine: it is leased from pending or retry only, an attempt is counted only
  under a lease and at most eight times, its row satisfies the state constraint, and once it is delivered, dead or cancelled
  it never changes again.
\<close>

theorem delivery_lifecycle:
  assumes "wh_step\<^sup>*\<^sup>* db db'" "whInv db" "map_of (wd_deliveries db) key = Some d"
  shows "\<exists>d'. map_of (wd_deliveries db') key = Some d' \<and> rowMoves\<^sup>*\<^sup>* d d' \<and> stateCheck d' \<and> dl_attempts d \<le> dl_attempts d' \<and> dl_attempts d' \<le> 8 \<and>
    dl_event d' = dl_event d \<and> dl_dest d' = dl_dest d \<and> dl_revision d' = dl_revision d \<and> (terminal d \<longrightarrow> d' = d)"
proof -
  obtain d' where d': "map_of (wd_deliveries db') key = Some d'" "rowMoves\<^sup>*\<^sup>* d d'"
    using wh_runs_follow [OF assms(1,2)] assms(3) unfolding rowsFollow_def by blast
  have "stateCheck d" "dl_attempts d \<le> 8" using map_of_SomeD [OF assms(3)] assms(2) by (auto simp: whInv_def list_all_iff)
  then show ?thesis using d' rowMoves_chain [OF d'(2)] by blast
qed

theorem delivery_lifecycle_witness:
  "\<exists>d'. map_of (wd_deliveries sampleClaimed) ''d1'' = Some d' \<and> rowMoves\<^sup>*\<^sup>* sampleDelivery d' \<and> stateCheck d' \<and> dl_attempts sampleDelivery \<le> dl_attempts d' \<and>
    dl_attempts d' \<le> 8 \<and> dl_event d' = dl_event sampleDelivery \<and> dl_dest d' = dl_dest sampleDelivery \<and> dl_revision d' = dl_revision sampleDelivery \<and>
    (terminal sampleDelivery \<longrightarrow> d' = sampleDelivery)"
  by (rule delivery_lifecycle [OF r_into_rtranclp [of wh_step, OF sampleClaimed_step] sampleWh_inv]) (simp add: sampleWh_def)

text \<open>
  C9. A live lease excludes everybody else: while the database time is before its expiry and its endpoint is not revoked,
  whatever the other workers, the fan-out, the cancellation and the administration do leaves the leased row as it is; no claim
  hands the delivery out again, and attempts and outcomes presented under another token are refused without effect.
\<close>

theorem lease_exclusive:
  assumes "(rival_step key token x)\<^sup>*\<^sup>* db db'" "whInv db" "leaseLive key token x db d"
  shows "map_of (wd_deliveries db') key = Some d \<and>
    (\<forall>env tick entropy skip now owner ttl limit ds. tick 0 < x \<longrightarrow> fst (Claim env tick entropy skip now owner ttl limit db') = Inr ds \<longrightarrow> key \<notin> dv_ID ` set ds) \<and>
    (\<forall>env tick token' now maxAttempts required. token' \<noteq> token \<longrightarrow>
       fst (BeginAttempt env tick key token' now maxAttempts required db') \<noteq> Inr True \<and> snd (BeginAttempt env tick key token' now maxAttempts required db') = db') \<and>
    (\<forall>env tick token' attempts now outcome. token' \<noteq> token \<longrightarrow>
       isl (fst (Finish env tick key token' attempts now outcome db')) \<and> snd (Finish env tick key token' attempts now outcome db') = db')"
proof -
  have live: "leaseLive key token x db' d" by (rule rivals.latch_runs [OF assms])
  have "distinct (map fst (wd_deliveries db'))" using rivals.inv_runs [OF assms(1,2)] by (simp add: whInv_def)
  then have c: "key \<notin> dv_ID ` set ds" if "tick 0 < x" "fst (Claim env tick entropy skip now owner ttl limit db') = Inr ds"
    for env tick entropy skip now owner ttl limit ds
    using leaseLive_claim(2) [OF prod.collapse [symmetric] that(1) live _ that(2)] by blast
  have "map_of (wd_deliveries db') key = Some d" using live by (simp add: leaseLive_def)
  then show ?thesis using c leaseLive_fenced [OF live] by (intro conjI allI impI) simp_all
qed

theorem lease_exclusive_witness:
  "map_of (wd_deliveries (snd (Claim goodEnv (\<lambda>_. 20) (replicate 16 CHR ''b'') (\<lambda>_. False) 20 ''w2'' 1000000 5 sampleClaimed))) ''d1'' = Some sampleLeased"
proof -
  let ?db = "snd (Claim goodEnv (\<lambda>_. 20) (replicate 16 CHR ''b'') (\<lambda>_. False) 20 ''w2'' 1000000 5 sampleClaimed)"
  have "rival_step ''d1'' (hex_encode (replicate 16 CHR ''a'')) 1000010 sampleClaimed ?db"
    by (rule rival_claim [OF prod.collapse [symmetric]]) simp
  moreover have "leaseLive ''d1'' (hex_encode (replicate 16 CHR ''a'')) 1000010 sampleClaimed sampleLeased" by code_simp
  ultimately show ?thesis using lease_exclusive [OF r_into_rtranclp sampleClaimed_inv] by blast
qed

text \<open>
  C12. Fan-out is exactly once: when an event becomes marked, it has one new delivery, pending and not attempted, for each
  endpoint live at that moment and for no other, at most 64 of them; an event that was marked before gets no further delivery,
  and one that stays unmarked has none, whatever failed.
\<close>

theorem fanout_exactly_once:
  assumes "Fanout env tick entropy skip now limit maxDestinationQueue maxGlobalQueue db = (r, db')" "whInv db"
  shows "(markedAt db event \<longrightarrow> markedAt db' event \<and> deliveriesFor db' event = deliveriesFor db event) \<and>
    (\<not> markedAt db event \<and> markedAt db' event \<longrightarrow>
       distinct (map (\<lambda>(k, d). dl_dest d) (deliveriesFor db' event)) \<and>
       (\<forall>dest. dest \<in> set (map (\<lambda>(k, d). dl_dest d) (deliveriesFor db' event)) \<longleftrightarrow> endpointLive db dest) \<and>
       length (deliveriesFor db' event) \<le> MaxEndpointsPerEvent \<and>
       list_all (\<lambda>(k, d). dl_status d = Pending \<and> dl_attempts d = 0) (deliveriesFor db' event)) \<and>
    (\<not> markedAt db' event \<longrightarrow> deliveriesFor db' event = [])"
proof -
  note e = Fanout_exact [OF assms, of event]
  have u: "distinct (map fst (wd_endpoints db))" using assms(2) by (simp add: whInv_def)
  have "distinct (map (\<lambda>(k, d). dl_dest d) (deliveriesFor db' event)) \<and>
       (\<forall>dest. dest \<in> set (map (\<lambda>(k, d). dl_dest d) (deliveriesFor db' event)) \<longleftrightarrow> endpointLive db dest) \<and>
       length (deliveriesFor db' event) \<le> MaxEndpointsPerEvent \<and>
       list_all (\<lambda>(k, d). dl_status d = Pending \<and> dl_attempts d = 0) (deliveriesFor db' event)"
    if "newRows event (endpointRefs db) (deliveriesFor db' event)" and n: "length (endpointRefs db) \<le> MaxEndpointsPerEvent"
  proof -
    note m = newRows_dests [OF that(1)]
    have "length (deliveriesFor db' event) = length (endpointRefs db)" using arg_cong [OF m, of length] by simp
    moreover have "list_all (\<lambda>(k, d). dl_status d = Pending \<and> dl_attempts d = 0) (deliveriesFor db' event)"
      using that(1) by (auto simp: newRows_def list_all_iff)
    ultimately show ?thesis unfolding m using endpointRefs_distinct [OF u] endpointRefs_live [OF u n] n by simp
  qed
  then show ?thesis using e by blast
qed

theorem fanout_exactly_once_witness:
  "map (\<lambda>(k, d). (k, dl_dest d)) (deliveriesFor (snd (Fanout goodEnv (\<lambda>_. 10) (replicate 16 CHR ''a'') (\<lambda>_. False) 10 5 10 10 sampleWh)) ''e2'') =
     [(hex_encode (replicate 16 CHR ''a''), ''x'')] \<and>
   (\<forall>dest. dest \<in> set (map (\<lambda>(k, d). dl_dest d) (deliveriesFor (snd (Fanout goodEnv (\<lambda>_. 10) (replicate 16 CHR ''a'') (\<lambda>_. False) 10 5 10 10 sampleWh)) ''e2'')) \<longleftrightarrow>
      endpointLive sampleWh dest)"
proof -
  let ?db = "snd (Fanout goodEnv (\<lambda>_. 10) (replicate 16 CHR ''a'') (\<lambda>_. False) 10 5 10 10 sampleWh)"
  have "\<not> markedAt sampleWh ''e2''" "markedAt ?db ''e2''" by code_simp+
  moreover have "map (\<lambda>(k, d). (k, dl_dest d)) (deliveriesFor ?db ''e2'') = [(hex_encode (replicate 16 CHR ''a''), ''x'')]" by code_simp
  ultimately show ?thesis using fanout_exactly_once [OF prod.collapse [symmetric] sampleWh_inv] by blast
qed

end
