(* ===== verification/WebhookWorker.thy ===== *)
theory WebhookWorker
  imports WebhookStore WebhookProtocol
begin

text \<open>
  The webhook worker of \<^verbatim>\<open>server/webhook/worker.go\<close> with its configuration (\<^verbatim>\<open>types.go\<close>)
  and the local secret resolver (\<^verbatim>\<open>secret.go\<close>). The AEAD, the HTTP client, the clock and the random source
  are parameters.
\<close>

unbundle bit_operations_syntax

section \<open>Configuration\<close>

text \<open>A \<^verbatim>\<open>float64\<close>: not a number, infinite, or a rational.\<close>

datatype goFloat = FNaN | FInf | FNum rat

fun fnum :: "goFloat \<Rightarrow> rat" where
  "fnum (FNum q) = q"
| "fnum _ = 0"

text \<open>The literal \<^verbatim>\<open>0.1\<close> as a \<^verbatim>\<open>float64\<close>.\<close>

definition tenth :: rat where
  "tenth = 3602879701896397 / 36028797018963968"

definition hour :: int where "hour = 3600000000000"

record WorkerConfig =
  wc_Owner :: bytes
  wc_BatchSize :: int
  wc_MaxConcurrent :: int
  wc_MaxPerDestination :: int
  wc_MaxAttempts :: int
  wc_MaxResponseBytes :: int
  wc_LeaseTTL :: int
  wc_RequestTimeout :: int
  wc_BaseBackoff :: int
  wc_MaxBackoff :: int
  wc_HighWater :: int
  wc_LowWater :: int
  wc_MaxDestinationQueue :: int
  wc_RatePerSecond :: goFloat
  wc_RateBurst :: goFloat
  wc_IdleDelay :: int
  wc_Jitter :: "(bytes \<Rightarrow> int \<Rightarrow> int) option"

text \<open>\<^verbatim>\<open>d + d/2\<close> on a \<^verbatim>\<open>time.Duration\<close>; Go division truncates.\<close>

definition andHalf :: "int \<Rightarrow> int" where
  "andHalf d = wrap64 (d + (if 0 \<le> d then d div 2 else - ((- d) div 2)))"

definition Config_Validate :: "WorkerConfig \<Rightarrow> (whCode, unit) result" where
  "Config_Validate c =
     (if wc_Owner c = [] \<or> 128 < length (wc_Owner c) \<or> wc_BatchSize c < 1 \<or> 1000 < wc_BatchSize c \<or>
        wc_MaxConcurrent c < 1 \<or> 64 < wc_MaxConcurrent c \<or> wc_MaxPerDestination c < 1 \<or> wc_MaxConcurrent c < wc_MaxPerDestination c \<or>
        wc_MaxAttempts c < 1 \<or> 8 < wc_MaxAttempts c \<or>
        wc_MaxResponseBytes c < 1 \<or> 2 ^ 20 < wc_MaxResponseBytes c \<or>
        wc_LeaseTTL c \<le> andHalf (wc_RequestTimeout c) \<or> 10 * minute < wc_LeaseTTL c \<or>
        wc_RequestTimeout c < millisecond \<or> minute < wc_RequestTimeout c \<or>
        wc_BaseBackoff c < millisecond \<or> minute < wc_BaseBackoff c \<or>
        wc_MaxBackoff c < wc_BaseBackoff c \<or> hour < wc_MaxBackoff c \<or>
        wc_HighWater c < 1 \<or> 1000000 < wc_HighWater c \<or> wc_LowWater c < 0 \<or> wc_HighWater c \<le> wc_LowWater c \<or>
        wc_MaxDestinationQueue c < 1 \<or> 1000000 < wc_MaxDestinationQueue c \<or>
        wc_RatePerSecond c = FNaN \<or> wc_RatePerSecond c = FInf \<or> wc_RateBurst c = FNaN \<or> wc_RateBurst c = FInf \<or>
        fnum (wc_RatePerSecond c) < tenth \<or> 1000 < fnum (wc_RatePerSecond c) \<or> fnum (wc_RateBurst c) < 1 \<or> 1000 < fnum (wc_RateBurst c) \<or>
        wc_IdleDelay c < millisecond \<or> minute < wc_IdleDelay c
      then Inl WhInvalidConfig else Inr ())"

section \<open>Retries\<close>

text \<open>\<^verbatim>\<open>hash/fnv\<close>, 64-bit FNV-1a.\<close>

definition fnv64a :: "bytes \<Rightarrow> u64" where
  "fnv64a s = foldl (\<lambda>h c. (h XOR of_nat (code c)) * 1099511628211) 14695981039346656037 s"

definition defaultJitter :: "bytes \<Rightarrow> int \<Rightarrow> int" where
  "defaultJitter deliveryID base =
     (if base \<le> 0 then 0
      else let span = base div 4 in
        if span \<le> 0 then base else wrap64 (base - span div 2 + int (unat (fnv64a deliveryID) mod nat span)))"

fun backoff_loop :: "nat \<Rightarrow> int \<Rightarrow> int \<Rightarrow> int" where
  "backoff_loop 0 delay maxBackoff = delay"
| "backoff_loop (Suc n) delay maxBackoff =
     (if delay < maxBackoff then
        let delay' = wrap64 (delay * 2) in backoff_loop n (if maxBackoff < delay' then maxBackoff else delay') maxBackoff
      else delay)"

definition backoff :: "WorkerConfig \<Rightarrow> bytes \<Rightarrow> int \<Rightarrow> int" where
  "backoff cfg deliveryID attempts =
     (let delay = backoff_loop (nat (attempts - 1)) (wc_BaseBackoff cfg) (wc_MaxBackoff cfg);
          jitter = (case wc_Jitter cfg of None \<Rightarrow> defaultJitter | Some j \<Rightarrow> j);
          jittered = jitter deliveryID delay
      in if jittered < 0 then 0 else if wc_MaxBackoff cfg < jittered then wc_MaxBackoff cfg else jittered)"

text \<open>Outcomes; the times a worker puts into one are not read by the repository.\<close>

definition terminalOutcome :: "whCode \<Rightarrow> Outcome" where
  "terminalOutcome reason = \<lparr>oc_Status = DeadLetter, oc_RetryDelay = 0, oc_HTTPStatus = 0, oc_ErrorCode = Some reason\<rparr>"

definition retryOutcome :: "whCode \<Rightarrow> int \<Rightarrow> WorkerConfig \<Rightarrow> bytes \<Rightarrow> int \<Rightarrow> Outcome" where
  "retryOutcome reason attempts cfg deliveryID retryAfter =
     (if wc_MaxAttempts cfg \<le> attempts then terminalOutcome WhDeliveryDeadLetter
      else
        let delay0 = backoff cfg deliveryID attempts;
            delay = (if 0 < retryAfter then (if wc_MaxBackoff cfg < retryAfter then wc_MaxBackoff cfg else retryAfter) else delay0)
        in \<lparr>oc_Status = Retry, oc_RetryDelay = delay, oc_HTTPStatus = 0, oc_ErrorCode = Some reason\<rparr>)"

definition persistedHTTPStatus :: "int \<Rightarrow> int" where
  "persistedHTTPStatus status = (if status < 100 \<or> 599 < status then 0 else status)"

definition retryableStatus :: "int \<Rightarrow> bool" where
  "retryableStatus status \<longleftrightarrow> status = 408 \<or> status = 429 \<or> 500 \<le> status \<and> status \<le> 599"

text \<open>\<^verbatim>\<open>ErrorCode\<close>: an error is one with a stable code or another one.\<close>

definition whErrorCode :: "whCode option \<Rightarrow> whCode" where
  "whErrorCode err = (case err of Some c \<Rightarrow> c | None \<Rightarrow> WhStorageUnavailable)"

definition outcomeForSecretError :: "whCode option \<Rightarrow> int \<Rightarrow> WorkerConfig \<Rightarrow> Outcome" where
  "outcomeForSecretError err attempts cfg =
     (if whErrorCode err = WhSecretUnavailable then retryOutcome WhSecretUnavailable attempts cfg [] 0
      else terminalOutcome (whErrorCode err))"

section \<open>Secrets\<close>

text \<open>An AEAD with the key inside: its sizes, \<^verbatim>\<open>Seal\<close> and \<^verbatim>\<open>Open\<close>.\<close>

record aead =
  ae_NonceSize :: nat
  ae_Overhead :: nat
  ae_Seal :: "bytes \<Rightarrow> bytes \<Rightarrow> bytes \<Rightarrow> bytes"
  ae_Open :: "bytes \<Rightarrow> bytes \<Rightarrow> bytes \<Rightarrow> bytes option"

definition NewLocalSecretResolver :: "(bytes \<Rightarrow> aead option) \<Rightarrow> bytes \<Rightarrow> (whCode, aead) result" where
  "NewLocalSecretResolver newGCM key =
     (if length key \<noteq> 32 then Inl WhInvalidConfig else case newGCM key of None \<Rightarrow> Inl WhInvalidConfig | Some a \<Rightarrow> Inr a)"

definition secretAAD :: "SecretMaterial \<Rightarrow> bytes" where
  "secretAAD material = sm_DestinationID material @ [CHR 0x0A] @ fmt_int (sm_Revision material) @ [CHR 0x0A] @ sm_URL material @ [CHR 0x0A] @ sm_KeyID material"

definition Resolve :: "aead \<Rightarrow> goContext \<Rightarrow> SecretMaterial \<Rightarrow> (whCode, bytes) result" where
  "Resolve a ctx material =
     (if ctx = None \<or> sm_DestinationID material = [] \<or> sm_Revision material \<le> 0 \<or> sm_URL material = [] \<or> sm_KeyID material = [] \<or>
        length (sm_Nonce material) \<noteq> ae_NonceSize a \<or> length (sm_Ciphertext material) < ae_Overhead a + 1 then Inl WhSecretInvalid
      else if ctx = Some True then Inl WhSecretUnavailable
      else case ae_Open a (sm_Nonce material) (sm_Ciphertext material) (secretAAD material) of
        None \<Rightarrow> Inl WhSecretInvalid
      | Some plaintext \<Rightarrow> if length plaintext < 32 then Inl WhSecretInvalid else Inr plaintext)"

definition SealSecret :: "aead \<Rightarrow> SecretMaterial \<Rightarrow> bytes \<Rightarrow> (whCode, bytes) result" where
  "SealSecret a material secret =
     (if length secret < 32 \<or> length (sm_Nonce material) \<noteq> ae_NonceSize a \<or> sm_DestinationID material = [] \<or> sm_Revision material \<le> 0 \<or>
        sm_URL material = [] \<or> sm_KeyID material = [] then Inl WhInvalidConfig
      else Inr (ae_Seal a (sm_Nonce material) secret (secretAAD material)))"

section \<open>The request\<close>

text \<open>\<^verbatim>\<open>json.Encoder\<close> writes a \<^verbatim>\<open>RawMessage\<close> compacted: valid JSON without the white space outside its strings.\<close>

fun strip_ws :: "bool \<Rightarrow> bytes \<Rightarrow> bytes" where
  "strip_ws quoted [] = []"
| "strip_ws False (c # cs) = (if is_ws c then strip_ws False cs else c # strip_ws (c = dquote) cs)"
| "strip_ws True (c # cs) =
     (if c = bslash then (case cs of [] \<Rightarrow> [c] | d # ds \<Rightarrow> c # d # strip_ws True ds) else c # strip_ws (c \<noteq> dquote) cs)"

definition compact_raw :: "bytes \<Rightarrow> bytes option" where
  "compact_raw raw = (if json_valid raw then Some (strip_ws False raw) else None)"

definition messagePayload :: "Event \<Rightarrow> bool \<Rightarrow> bytes \<Rightarrow> (bytes \<times> bytes) list" where
  "messagePayload event omitBody payload =
     [(''clientMsgId'', quote_string False (wv_ClientMsgID event)), (''serverMsgId'', quote_string False (wv_ServerMsgID event)),
      (''conversationId'', quote_string False (wv_ConversationID event)),
      (''conversationSeq'', quote_string False (fmt_int (wv_ConversationSeq event))), (''senderId'', quote_string False (wv_SenderID event)),
      (''protocolVersion'', fmt_int (wv_ProtocolVersion event)), (''version'', fmt_int (wv_SchemaVersion event)),
      (''type'', quote_string False (wv_MessageType event)), (''serverTime'', quote_string False (fmt_int (wv_ServerTime event))), (''payload'', payload)] @
     (if omitBody then
        [(''payloadOmitted'', ''true''), (''payloadSha256'', quote_string False (hex_encode (sha256 (wv_Payload event)))),
         (''payloadSize'', quote_string False (fmt_nat (length (wv_Payload event))))]
      else [])"

definition marshalWebhookPayload :: "Event \<Rightarrow> bool \<Rightarrow> bytes option" where
  "marshalWebhookPayload event omitBody =
     map_option (\<lambda>payload. object_text (messagePayload event omitBody payload)) (compact_raw (if omitBody then ''{}'' else wv_Payload event))"

definition envelopeOf :: "Event \<Rightarrow> bytes \<Rightarrow> WebhookEnvelope" where
  "envelopeOf event payload = \<lparr>we_EventID = wv_ID event, we_EventType = ''message.persisted'', we_OccurredAt = fmt_int (wv_ServerTime event),
     we_SchemaVersion = WebhookSchemaVersion, we_Payload = payload\<rparr>"

text \<open>Its errors are those of the worker or of the protocol package.\<close>

definition buildEnvelope :: "Event \<Rightarrow> (whCode + WebhookCode, bytes) result" where
  "buildEnvelope event =
     (if wv_ID event = [] \<or> wv_ServerMsgID event = [] \<or> wv_ClientMsgID event = [] \<or> wv_SenderID event = [] \<or> wv_ConversationID event = [] \<or>
        wv_MessageType event = [] \<or> wv_Payload event = [] then Inl (Inl WhProtocolInvalid)
      else case marshalWebhookPayload event False of
        None \<Rightarrow> Inl (Inl WhProtocolInvalid)
      | Some payload \<Rightarrow>
          (case EncodeWebhookEnvelope (envelopeOf event payload) of
             Inr body \<Rightarrow> Inr body
           | Inl reason \<Rightarrow>
               if reason \<noteq> WebhookEnvelopeTooLarge \<and> reason \<noteq> WebhookEnvelopeTooDeep then Inl (Inr reason)
               else (case marshalWebhookPayload event True of
                   None \<Rightarrow> Inl (Inl WhProtocolInvalid)
                 | Some digest \<Rightarrow>
                     (case EncodeWebhookEnvelope (envelopeOf event digest) of Inl reason \<Rightarrow> Inl (Inr reason) | Inr body \<Rightarrow> Inr body))))"

text \<open>\<^verbatim>\<open>signedHeaders\<close> reads its nonce from the random source.\<close>

definition signedHeaders :: "bytes \<Rightarrow> Delivery \<Rightarrow> bytes \<Rightarrow> instant \<Rightarrow> bytes \<Rightarrow> (bytes \<times> bytes) list option" where
  "signedHeaders secret delivery body now entropy =
     (case readFull 16 entropy of
        (None, _) \<Rightarrow> None
      | (Some nonceBytes, _) \<Rightarrow>
          let headers = \<lparr>wh_EventID = wv_ID (dv_Event delivery), wh_DeliveryID = dv_ID delivery, wh_Timestamp = fmt_int (UnixMilli now),
                wh_Nonce = b64_encode nonceBytes, wh_KeyID = dv_KeyID delivery, wh_SignatureVersion = WebhookSignatureVersion, wh_Signature = []\<rparr>
          in (case SignWebhook secret headers body of
              Inl _ \<Rightarrow> None
            | Inr signature \<Rightarrow> Some
                [(''X-NewIM-Event-Id'', wh_EventID headers), (''X-NewIM-Delivery-Id'', wh_DeliveryID headers), (''X-NewIM-Timestamp'', wh_Timestamp headers),
                 (''X-NewIM-Nonce'', wh_Nonce headers), (''X-NewIM-Key-Id'', wh_KeyID headers),
                 (''X-NewIM-Signature-Version'', wh_SignatureVersion headers), (''X-NewIM-Signature'', signature)]))"

section \<open>One delivery\<close>

record Response =
  rp_StatusCode :: int
  rp_Body :: bytes
  rp_RetryAfter :: int

type_synonym request = "bytes \<times> (bytes \<times> bytes) list \<times> bytes"
type_synonym observation = "bytes \<times> whCode"

text \<open>
  What one run of \<^verbatim>\<open>deliver\<close> meets: the clock, the two transactions and what others commit between them, the resolver, the
  random source, the HTTP exchange, and whether the worker's context is done when that fails.
\<close>

record attemptIO =
  io_now :: instant
  io_begin :: "dbEnv \<times> (nat \<Rightarrow> instant)"
  io_others :: "webhookdb \<Rightarrow> webhookdb"
  io_finish :: "dbEnv \<times> (nat \<Rightarrow> instant)"
  io_resolve :: "SecretMaterial \<Rightarrow> (whCode option, bytes) result"
  io_entropy :: bytes
  io_do :: "request \<Rightarrow> Response option"
  io_cancelled :: bool

text \<open>The middle of \<^verbatim>\<open>deliver\<close>, from the granted attempt to the outcome: what to store, what was observed, what was sent.\<close>

definition attempt :: "WorkerConfig \<Rightarrow> attemptIO \<Rightarrow> Delivery \<Rightarrow> Outcome option \<times> observation list \<times> request option" where
  "attempt cfg io delivery =
     (let attempts = int (dv_Attempts delivery) + 1 in
      case io_resolve io (dv_Secret delivery) of
        Inl err \<Rightarrow> (Some (outcomeForSecretError err attempts cfg), [(''secret'', whErrorCode err)], None)
      | Inr secret \<Rightarrow>
          if length secret < WebhookMinSecretBytes then (Some (terminalOutcome WhSecretInvalid), [(''secret'', WhSecretInvalid)], None)
          else (case buildEnvelope (dv_Event delivery) of
              Inl _ \<Rightarrow> (Some (terminalOutcome WhProtocolInvalid), [(''envelope'', WhProtocolInvalid)], None)
            | Inr body \<Rightarrow>
                (case signedHeaders secret delivery body (io_now io) (io_entropy io) of
                   None \<Rightarrow> (Some (terminalOutcome WhProtocolInvalid), [(''signature'', WhProtocolInvalid)], None)
                 | Some headers \<Rightarrow>
                     let request = (dv_URL delivery, headers, body) in
                     (case io_do io request of
                        None \<Rightarrow>
                          if io_cancelled io then (None, [], Some request)
                          else (Some (retryOutcome WhHTTPTemporary attempts cfg (dv_ID delivery) 0), [(''delivery'', WhHTTPTemporary)], Some request)
                      | Some response \<Rightarrow>
                          if 200 \<le> rp_StatusCode response \<and> rp_StatusCode response < 300 then
                            (Some \<lparr>oc_Status = Delivered, oc_RetryDelay = 0, oc_HTTPStatus = persistedHTTPStatus (rp_StatusCode response),
                               oc_ErrorCode = Some WhDeliveryDelivered\<rparr>, [(''delivery'', WhDeliveryDelivered)], Some request)
                          else if retryableStatus (rp_StatusCode response) then
                            (Some (retryOutcome WhHTTPTemporary attempts cfg (dv_ID delivery) (rp_RetryAfter response)),
                             [(''delivery'', WhHTTPTemporary)], Some request)
                          else
                            (Some \<lparr>oc_Status = DeadLetter, oc_RetryDelay = 0, oc_HTTPStatus = persistedHTTPStatus (rp_StatusCode response),
                               oc_ErrorCode = Some WhHTTPPermanent\<rparr>, [(''delivery'', WhHTTPPermanent)], Some request)))))"

definition worker_finish :: "dbEnv \<times> (nat \<Rightarrow> instant) \<Rightarrow> Delivery \<Rightarrow> int \<Rightarrow> instant \<Rightarrow> Outcome \<Rightarrow> webhookdb \<Rightarrow> observation list \<times> webhookdb" where
  "worker_finish tx delivery attempts now outcome db =
     (case Finish (fst tx) (snd tx) (dv_ID delivery) (dv_LeaseToken delivery) attempts now outcome db of
        (Inl e, db') \<Rightarrow> ([(''finish'', e)], db')
      | (Inr _, db') \<Rightarrow> ([], db'))"

definition deliver :: "WorkerConfig \<Rightarrow> attemptIO \<Rightarrow> Delivery \<Rightarrow> webhookdb \<Rightarrow> observation list \<times> request option \<times> webhookdb" where
  "deliver cfg io delivery db =
     (case BeginAttempt (fst (io_begin io)) (snd (io_begin io)) (dv_ID delivery) (dv_LeaseToken delivery) (io_now io) (nat (wc_MaxAttempts cfg))
         (andHalf (wc_RequestTimeout cfg)) db of
        (Inl e, db1) \<Rightarrow> ([(''attempt'', e)], None, db1)
      | (Inr allowed, db1) \<Rightarrow>
          if \<not> allowed then ([(''attempt'', WhLeaseLost)], None, db1)
          else
            let db2 = io_others io db1 in
            (case attempt cfg io delivery of
               (None, obs, sent) \<Rightarrow> (obs, sent, db2)
             | (Some outcome, obs, sent) \<Rightarrow>
                 let (fobs, db3) = worker_finish (io_finish io) delivery (int (dv_Attempts delivery) + 1) (io_now io) outcome db2
                 in (fobs @ obs, sent, db3)))"

definition deferDelivery :: "WorkerConfig \<Rightarrow> dbEnv \<times> (nat \<Rightarrow> instant) \<Rightarrow> Delivery \<Rightarrow> instant \<Rightarrow> webhookdb \<Rightarrow> observation list \<times> webhookdb" where
  "deferDelivery cfg tx delivery now db = worker_finish tx delivery 0 now
     \<lparr>oc_Status = Retry, oc_RetryDelay = wc_BaseBackoff cfg, oc_HTTPStatus = 0, oc_ErrorCode = Some WhBacklogPaused\<rparr> db"

end
