(* ===== verification/WebhookDispatch.thy ===== *)
theory WebhookDispatch
  imports WebhookWorker WebhookRuns
begin

text \<open>
  The dispatch loop of the webhook worker: the destination limiter of \<^verbatim>\<open>limiter.go\<close>, and \<^verbatim>\<open>Run\<close> with \<^verbatim>\<open>cycle\<close> as a step relation,
  because the deliveries of one cycle run concurrently. Every store call is one step of the repository, and others may commit
  between any two of them.
\<close>

section \<open>The limiter\<close>

record destinationState =
  ds_active :: int
  ds_tokens :: rat
  ds_last :: instant

record destinationLimiter =
  li_max :: int
  li_rate :: rat
  li_burst :: rat
  li_states :: "destinationState table"

definition newDestinationLimiter :: "int \<Rightarrow> rat \<Rightarrow> rat \<Rightarrow> destinationLimiter" where
  "newDestinationLimiter m rate burst = \<lparr>li_max = m, li_rate = rate, li_burst = burst, li_states = []\<rparr>"

text \<open>\<^verbatim>\<open>Time.Sub\<close> saturates; \<^verbatim>\<open>Duration.Seconds\<close> adds whole seconds and nanoseconds, each operation rounded by \<open>rnd\<close>.\<close>

definition timeSub :: "instant \<Rightarrow> instant \<Rightarrow> int" where
  "timeSub t u = max (- (2 ^ 63)) (min (2 ^ 63 - 1) (t - u))"

definition seconds :: "(rat \<Rightarrow> rat) \<Rightarrow> int \<Rightarrow> rat" where
  "seconds rnd d =
     (let q = sgn d * (\<bar>d\<bar> div 1000000000); r = d - q * 1000000000
      in rnd (rnd (of_int q) + rnd (rnd (of_int r) / 1000000000)))"

definition refill :: "(rat \<Rightarrow> rat) \<Rightarrow> destinationLimiter \<Rightarrow> instant \<Rightarrow> destinationState \<Rightarrow> destinationState" where
  "refill rnd l now state =
     (let elapsed = seconds rnd (timeSub now (ds_last state)) in
      if 0 < elapsed then
        let tokens = rnd (ds_tokens state + rnd (elapsed * li_rate l))
        in state\<lparr>ds_tokens := (if li_burst l < tokens then li_burst l else tokens), ds_last := now\<rparr>
      else state)"

definition acquire :: "(rat \<Rightarrow> rat) \<Rightarrow> destinationLimiter \<Rightarrow> bytes \<Rightarrow> instant \<Rightarrow> bool \<times> destinationLimiter" where
  "acquire rnd l destination now =
     (let state = refill rnd l now (case map_of (li_states l) destination of None \<Rightarrow> \<lparr>ds_active = 0, ds_tokens = li_burst l, ds_last = now\<rparr> | Some s \<Rightarrow> s)
      in if li_max l \<le> ds_active state \<or> ds_tokens state < 1 then (False, l\<lparr>li_states := AList.update destination state (li_states l)\<rparr>)
         else (True, l\<lparr>li_states := AList.update destination
           (state\<lparr>ds_active := ds_active state + 1, ds_tokens := rnd (ds_tokens state - 1)\<rparr>) (li_states l)\<rparr>))"

definition release :: "destinationLimiter \<Rightarrow> bytes \<Rightarrow> destinationLimiter" where
  "release l destination =
     (case map_of (li_states l) destination of
        None \<Rightarrow> l
      | Some state \<Rightarrow>
          if 0 < ds_active state then l\<lparr>li_states := AList.update destination (state\<lparr>ds_active := ds_active state - 1\<rparr>) (li_states l)\<rparr> else l)"

section \<open>The head of a cycle\<close>

record cycleIO =
  cy_now :: instant
  cy_cancel :: "dbEnv \<times> (nat \<Rightarrow> instant)"
  cy_counts :: "nat \<Rightarrow> bool"
  cy_fanout :: "dbEnv \<times> (nat \<Rightarrow> instant) \<times> bytes \<times> (bytes \<Rightarrow> bool)"
  cy_claim :: "dbEnv \<times> (nat \<Rightarrow> instant) \<times> bytes \<times> (bytes \<Rightarrow> bool)"
  cy_others :: "nat \<Rightarrow> webhookdb \<Rightarrow> webhookdb"

text \<open>Back pressure: fan-out pauses at the high water mark and resumes at the low one.\<close>

definition pauseGate :: "WorkerConfig \<Rightarrow> Counts \<Rightarrow> bool \<Rightarrow> bool" where
  "pauseGate cfg counts paused =
     (let above = wc_LowWater cfg < int (co_Total counts) \<or> wc_LowWater cfg < int (co_MaxDestination counts);
          paused1 = paused \<and> above
      in paused1 \<or> wc_HighWater cfg \<le> int (co_Total counts) \<or> wc_MaxDestinationQueue cfg \<le> int (co_MaxDestination counts))"

definition cycleFanout :: "WorkerConfig \<Rightarrow> cycleIO \<Rightarrow> bool \<Rightarrow> webhookdb \<Rightarrow> webhookdb" where
  "cycleFanout cfg io paused db =
     (if paused then db
      else case cy_fanout io of (env, tick, entropy, skip) \<Rightarrow>
        snd (Fanout env tick entropy skip (cy_now io) (wc_BatchSize cfg) (wc_MaxDestinationQueue cfg) (wc_HighWater cfg) db))"

text \<open>\<^verbatim>\<open>cycle\<close> up to the claimed deliveries; a fan-out that fails is only observed.\<close>

definition cycleClaim :: "WorkerConfig \<Rightarrow> cycleIO \<Rightarrow> bool \<Rightarrow> webhookdb \<Rightarrow> (whCode, Delivery list) result \<times> bool \<times> webhookdb" where
  "cycleClaim cfg io paused db =
     (case CancelRevoked (fst (cy_cancel io)) (snd (cy_cancel io)) (cy_now io) db of
        (Inl e, db1) \<Rightarrow> (Inl e, paused, db1)
      | (Inr _, db1) \<Rightarrow>
          let db2 = cy_others io 0 db1 in
          (case CountsOf (cy_counts io) db2 of
             Inl e \<Rightarrow> (Inl e, paused, db2)
           | Inr counts \<Rightarrow>
               let paused' = pauseGate cfg counts paused;
                   db3 = cycleFanout cfg io paused' (cy_others io 1 db2);
                   db4 = cy_others io 2 db3 in
               (case cy_claim io of (env, tick, entropy, skip) \<Rightarrow>
                  case Claim env tick entropy skip (cy_now io) (wc_Owner cfg) (wc_LeaseTTL cfg) (wc_BatchSize cfg) db4 of
                    (r, db5) \<Rightarrow> (r, paused', db5))))"

section \<open>The worker as a machine\<close>

record worker =
  wk_now :: instant
  wk_paused :: bool
  wk_queue :: "Delivery list"
  wk_waiting :: "Delivery option"
  wk_running :: "Delivery list"
  wk_limiter :: destinationLimiter
  wk_db :: webhookdb

definition NewWorker :: "WorkerConfig \<Rightarrow> webhookdb \<Rightarrow> (whCode, WorkerConfig \<times> worker) result" where
  "NewWorker cfg0 db =
     (let cfg = (if wc_IdleDelay cfg0 = 0 then cfg0\<lparr>wc_IdleDelay := 100 * millisecond\<rparr> else cfg0) in
      bindR (Config_Validate cfg) (\<lambda>_.
        let cfg' = (case wc_Jitter cfg of None \<Rightarrow> cfg\<lparr>wc_Jitter := Some defaultJitter\<rparr> | Some _ \<Rightarrow> cfg) in
        Inr (cfg', \<lparr>wk_now = 0, wk_paused = False, wk_queue = [], wk_waiting = None, wk_running = [],
          wk_limiter = newDestinationLimiter (wc_MaxPerDestination cfg) (fnum (wc_RatePerSecond cfg)) (fnum (wc_RateBurst cfg)), wk_db = db\<rparr>)))"

definition runsOnly :: "(webhookdb \<Rightarrow> webhookdb) \<Rightarrow> bool" where
  "runsOnly f \<longleftrightarrow> (\<forall>db. wh_step\<^sup>*\<^sup>* db (f db))"

text \<open>
  A cycle starts when the one before has drained (\<^verbatim>\<open>wg.Wait\<close>); a claimed delivery passes the limiter, waits for a place under
  the semaphore, runs and leaves, or is put back; a done context releases the waiting one and forgets the rest.
\<close>

inductive worker_step :: "(rat \<Rightarrow> rat) \<Rightarrow> WorkerConfig \<Rightarrow> worker \<Rightarrow> worker \<Rightarrow> bool" for rnd cfg where
  work_cycle: "wk_queue w = [] \<Longrightarrow> wk_waiting w = None \<Longrightarrow> wk_running w = [] \<Longrightarrow> (\<And>n. runsOnly (cy_others io n)) \<Longrightarrow>
    cycleClaim cfg io (wk_paused w) (wk_db w) = (r, paused, db') \<Longrightarrow>
    worker_step rnd cfg w (w\<lparr>wk_now := cy_now io, wk_paused := paused, wk_queue := (case r of Inl _ \<Rightarrow> [] | Inr deliveries \<Rightarrow> deliveries), wk_db := db'\<rparr>)"
| work_acquire: "wk_waiting w = None \<Longrightarrow> wk_queue w = delivery # rest \<Longrightarrow> acquire rnd (wk_limiter w) (dv_DestinationID delivery) (wk_now w) = (True, l) \<Longrightarrow>
    worker_step rnd cfg w (w\<lparr>wk_queue := rest, wk_waiting := Some delivery, wk_limiter := l\<rparr>)"
| work_defer: "wk_waiting w = None \<Longrightarrow> wk_queue w = delivery # rest \<Longrightarrow> acquire rnd (wk_limiter w) (dv_DestinationID delivery) (wk_now w) = (False, l) \<Longrightarrow>
    worker_step rnd cfg w (w\<lparr>wk_queue := rest, wk_limiter := l, wk_db := snd (deferDelivery cfg tx delivery (wk_now w) (wk_db w))\<rparr>)"
| work_admit: "wk_waiting w = Some delivery \<Longrightarrow> int (length (wk_running w)) < wc_MaxConcurrent cfg \<Longrightarrow>
    worker_step rnd cfg w (w\<lparr>wk_waiting := None, wk_running := delivery # wk_running w\<rparr>)"
| work_cancel: "wk_waiting w = Some delivery \<Longrightarrow>
    worker_step rnd cfg w (w\<lparr>wk_waiting := None, wk_queue := [], wk_limiter := release (wk_limiter w) (dv_DestinationID delivery)\<rparr>)"
| work_deliver: "wk_running w = before @ delivery # after \<Longrightarrow> runsOnly (io_others io) \<Longrightarrow> deliver cfg io delivery (wk_db w) = (obs, sent, db') \<Longrightarrow>
    worker_step rnd cfg w (w\<lparr>wk_running := before @ after, wk_limiter := release (wk_limiter w) (dv_DestinationID delivery), wk_db := db'\<rparr>)"
| work_others: "wh_step (wk_db w) db' \<Longrightarrow> worker_step rnd cfg w (w\<lparr>wk_db := db'\<rparr>)"

section \<open>The tables\<close>

lemma wh_steps: "wh_step db db' \<Longrightarrow> wh_step\<^sup>*\<^sup>* db db'"
  by (rule r_into_rtranclp)

lemma worker_finish_runs: "wh_step\<^sup>*\<^sup>* db (snd (worker_finish tx delivery attempts now outcome db))"
proof -
  obtain r db' where f: "Finish (fst tx) (snd tx) (dv_ID delivery) (dv_LeaseToken delivery) attempts now outcome db = (r, db')" by fastforce
  then show ?thesis using wh_steps [OF step_finish [OF f]] by (simp add: worker_finish_def split: sum.splits)
qed

lemma deliver_runs:
  assumes "deliver cfg io delivery db = (obs, sent, db')" "runsOnly (io_others io)"
  shows "wh_step\<^sup>*\<^sup>* db db'"
proof -
  let ?b = "BeginAttempt (fst (io_begin io)) (snd (io_begin io)) (dv_ID delivery) (dv_LeaseToken delivery) (io_now io) (nat (wc_MaxAttempts cfg))
         (andHalf (wc_RequestTimeout cfg)) db"
  obtain r db1 where b: "?b = (r, db1)" by fastforce
  have "db' = db1 \<or> db' = io_others io db1 \<or>
      (\<exists>outcome. db' = snd (worker_finish (io_finish io) delivery (int (dv_Attempts delivery) + 1) (io_now io) outcome (io_others io db1)))"
    using assms(1) by (auto simp: deliver_def b Let_def split: sum.splits if_splits prod.splits option.splits) (metis snd_conv)
  moreover have "wh_step\<^sup>*\<^sup>* db db1" by (rule wh_steps [OF step_attempt [OF b]])
  moreover have "wh_step\<^sup>*\<^sup>* db1 (io_others io db1)" using assms(2) by (simp add: runsOnly_def)
  ultimately show ?thesis using worker_finish_runs by (metis rtranclp_trans)
qed

lemma cycleFanout_runs: "wh_step\<^sup>*\<^sup>* db (cycleFanout cfg io paused db)"
proof -
  obtain env tick entropy skip where f: "cy_fanout io = (env, tick, entropy, skip)" by (metis prod_cases4)
  have "wh_step db (snd (Fanout env tick entropy skip (cy_now io) (wc_BatchSize cfg) (wc_MaxDestinationQueue cfg) (wc_HighWater cfg) db))"
    by (rule step_fanout [OF prod.collapse [symmetric]])
  then show ?thesis by (auto simp: cycleFanout_def f intro: wh_steps)
qed

lemma cycleClaim_runs:
  assumes "cycleClaim cfg io paused db = (r, paused', db')" "\<And>n. runsOnly (cy_others io n)"
  shows "wh_step\<^sup>*\<^sup>* db db'"
proof -
  obtain r1 db1 where c: "CancelRevoked (fst (cy_cancel io)) (snd (cy_cancel io)) (cy_now io) db = (r1, db1)" by fastforce
  obtain env tick entropy skip where q: "cy_claim io = (env, tick, entropy, skip)" by (metis prod_cases4)
  have o: "wh_step\<^sup>*\<^sup>* x (cy_others io n x)" for n x using assms(2) by (simp add: runsOnly_def)
  let ?db2 = "cy_others io 0 db1"
  let ?db4 = "\<lambda>p. cy_others io 2 (cycleFanout cfg io p (cy_others io 1 ?db2))"
  have "wh_step\<^sup>*\<^sup>* db db1" by (rule wh_steps [OF step_cancel [OF c]])
  moreover have "wh_step\<^sup>*\<^sup>* db1 ?db2" by (rule o)
  moreover have "wh_step\<^sup>*\<^sup>* ?db2 (?db4 p)" for p using o cycleFanout_runs by (meson rtranclp_trans)
  moreover have "wh_step\<^sup>*\<^sup>* (?db4 p) (snd (Claim env tick entropy skip (cy_now io) (wc_Owner cfg) (wc_LeaseTTL cfg) (wc_BatchSize cfg) (?db4 p)))" for p
    by (rule wh_steps [OF step_claim [OF prod.collapse [symmetric]]])
  moreover have "db' = db1 \<or> db' = ?db2 \<or> (\<exists>p. db' = snd (Claim env tick entropy skip (cy_now io) (wc_Owner cfg) (wc_LeaseTTL cfg) (wc_BatchSize cfg) (?db4 p)))"
    using assms(1) by (auto simp: cycleClaim_def c q Let_def split: sum.splits prod.splits) (metis snd_conv)+
  ultimately show ?thesis by (metis rtranclp_trans)
qed

lemma worker_step_runs: "worker_step rnd cfg w w' \<Longrightarrow> wh_step\<^sup>*\<^sup>* (wk_db w) (wk_db w')"
proof (induction rule: worker_step.induct)
  case (work_cycle w io r paused db')
  then show ?case using cycleClaim_runs [OF work_cycle(5,4)] by simp
next
  case (work_defer w delivery rest l tx)
  then show ?case by (simp add: deferDelivery_def worker_finish_runs)
next
  case (work_deliver w before delivery after io obs sent db')
  then show ?case using deliver_runs by simp
qed (auto intro: wh_steps)

section \<open>In flight\<close>

definition inFlight :: "worker \<Rightarrow> Delivery list" where
  "inFlight w = (case wk_waiting w of None \<Rightarrow> [] | Some d \<Rightarrow> [d]) @ wk_running w"

definition towards :: "bytes \<Rightarrow> Delivery list \<Rightarrow> nat" where
  "towards dest ds = length (filter (\<lambda>d. dv_DestinationID d = dest) ds)"

definition activeOf :: "destinationLimiter \<Rightarrow> bytes \<Rightarrow> int" where
  "activeOf l dest = (case map_of (li_states l) dest of None \<Rightarrow> 0 | Some s \<Rightarrow> ds_active s)"

lemma towards_simps [simp]:
  "towards dest [] = 0" "towards dest (d # ds) = (if dv_DestinationID d = dest then 1 else 0) + towards dest ds"
  "towards dest (ds @ es) = towards dest ds + towards dest es"
  by (simp_all add: towards_def)

lemma refill_active [simp]: "ds_active (refill rnd l now s) = ds_active s"
  by (simp add: refill_def Let_def)

lemma map_of_update [simp]: "map_of (AList.update k v xs) = (map_of xs)(k \<mapsto> v)"
  by (rule update_conv')

lemma acquire_active:
  assumes "acquire rnd l dest now = (ok, l')"
  shows "activeOf l' x = activeOf l x + (if ok \<and> x = dest then 1 else 0)" "li_max l' = li_max l" "ok \<Longrightarrow> activeOf l dest < li_max l"
  using assms by (auto simp: acquire_def activeOf_def Let_def split: if_splits option.splits)

lemma release_active:
  "0 < activeOf l dest \<Longrightarrow> activeOf (release l dest) x = activeOf l x - (if x = dest then 1 else 0)" "li_max (release l dest) = li_max l"
  by (auto simp: release_def activeOf_def split: option.splits)

definition workerInv :: "WorkerConfig \<Rightarrow> worker \<Rightarrow> bool" where
  "workerInv cfg w \<longleftrightarrow> li_max (wk_limiter w) = wc_MaxPerDestination cfg \<and> (wk_running w \<noteq> [] \<longrightarrow> int (length (wk_running w)) \<le> wc_MaxConcurrent cfg) \<and>
     (\<forall>dest. activeOf (wk_limiter w) dest = int (towards dest (inFlight w))) \<and>
     (\<forall>dest. 0 < towards dest (inFlight w) \<longrightarrow> int (towards dest (inFlight w)) \<le> wc_MaxPerDestination cfg)"

lemma release_inFlight:
  assumes "workerInv cfg w" "d \<in> set (inFlight w)"
  shows "activeOf (release (wk_limiter w) (dv_DestinationID d)) x = activeOf (wk_limiter w) x - (if x = dv_DestinationID d then 1 else 0)"
proof (rule release_active(1))
  have "0 < towards (dv_DestinationID d) (inFlight w)" using assms(2) by (auto simp: towards_def filter_empty_conv)
  then show "0 < activeOf (wk_limiter w) (dv_DestinationID d)" using assms(1) by (simp add: workerInv_def)
qed

lemma workerInv_shrinks:
  assumes "workerInv cfg w" "d \<in> set (inFlight w)" "\<And>x. towards x (inFlight w) = towards x ds + (if x = dv_DestinationID d then 1 else 0)"
    "inFlight w' = ds" "wk_limiter w' = release (wk_limiter w) (dv_DestinationID d)" "length (wk_running w') \<le> length (wk_running w)"
  shows "workerInv cfg w'"
proof -
  have i: "li_max (wk_limiter w) = wc_MaxPerDestination cfg" "wk_running w \<noteq> [] \<longrightarrow> int (length (wk_running w)) \<le> wc_MaxConcurrent cfg"
    "\<And>x. activeOf (wk_limiter w) x = int (towards x (inFlight w))"
    "\<And>x. 0 < towards x (inFlight w) \<longrightarrow> int (towards x (inFlight w)) \<le> wc_MaxPerDestination cfg"
    using assms(1) by (auto simp: workerInv_def)
  have "int (towards x ds) \<le> wc_MaxPerDestination cfg" if "0 < towards x ds" for x using i(4) [of x] assms(3) [of x] that by (auto split: if_splits)
  moreover have "activeOf (wk_limiter w') x = int (towards x ds)" for x
    using release_inFlight [OF assms(1,2), of x] i(3) [of x] assms(3) [of x] by (simp add: assms(5))
  moreover have "wk_running w' \<noteq> [] \<longrightarrow> int (length (wk_running w')) \<le> wc_MaxConcurrent cfg" using i(2) assms(6) by auto
  ultimately show ?thesis using i(1) by (simp add: workerInv_def assms(4,5) release_active)
qed

lemma workerInv_step: "worker_step rnd cfg w w' \<Longrightarrow> workerInv cfg w \<Longrightarrow> workerInv cfg w'"
proof (induction rule: worker_step.induct)
  case (work_acquire w delivery rest l)
  note a = acquire_active [OF work_acquire(3)]
  show ?case using work_acquire a by (auto simp: workerInv_def inFlight_def)
next
  case (work_defer w delivery rest l tx)
  note a = acquire_active [OF work_defer(3)]
  show ?case using work_defer a by (simp add: workerInv_def inFlight_def)
next
  case (work_admit w delivery)
  then show ?case by (auto simp: workerInv_def inFlight_def)
next
  case (work_cancel w delivery)
  show ?case by (rule workerInv_shrinks [OF work_cancel(2), of delivery "wk_running w"]) (use work_cancel(1) in \<open>auto simp: inFlight_def\<close>)
next
  case (work_deliver w before delivery after io obs sent db')
  show ?case
    by (rule workerInv_shrinks [OF work_deliver(4), of delivery "(case wk_waiting w of None \<Rightarrow> [] | Some d \<Rightarrow> [d]) @ before @ after"])
      (use work_deliver(1) in \<open>auto simp: inFlight_def\<close>)
qed (auto simp: workerInv_def inFlight_def)

interpretation worker_runs: store_runs "worker_step rnd cfg" "workerInv cfg" for rnd cfg
  by unfold_locales (rule workerInv_step)

lemma worker_runs_db: "(worker_step rnd cfg)\<^sup>*\<^sup>* w w' \<Longrightarrow> wh_step\<^sup>*\<^sup>* (wk_db w) (wk_db w')"
  by (induction rule: rtranclp_induct) (auto intro: rtranclp_trans worker_step_runs)

end
