(* ===== verification/WebhookSending.thy ===== *)
theory WebhookSending
  imports WebhookDispatch WebhookFacts
begin

text \<open>
  The webhook worker against its contracts: what it sends verifies at the receiver, retries stay inside the configured back-off,
  the outcome stored for an attempt is the one the response asks for, and the work in flight is bounded.
\<close>

section \<open>Requests\<close>

lemma ident_header_byte: "ident_byte c \<Longrightarrow> header_byte c"
  by (auto simp: header_byte_def ident_byte_def is_lower_code is_upper_code is_digit_code)

lemma ident_header: "list_all ident_byte s \<Longrightarrow> s \<noteq> [] \<Longrightarrow> length s \<le> 4096 \<Longrightarrow> validWebhookHeaderValue s"
  by (auto simp: validWebhookHeaderValue_def WebhookMaxHeaderBytes_def list_all_iff ident_header_byte)

text \<open>The header map of a signed request, as \<^verbatim>\<open>signedHeaders\<close> lists it.\<close>

definition headerList :: "WebhookHeaders \<Rightarrow> (bytes \<times> bytes) list" where
  "headerList h = [(''X-NewIM-Event-Id'', wh_EventID h), (''X-NewIM-Delivery-Id'', wh_DeliveryID h), (''X-NewIM-Timestamp'', wh_Timestamp h),
     (''X-NewIM-Nonce'', wh_Nonce h), (''X-NewIM-Key-Id'', wh_KeyID h), (''X-NewIM-Signature-Version'', wh_SignatureVersion h),
     (''X-NewIM-Signature'', wh_Signature h)]"

lemma header_names:
  "toLower ''X-NewIM-Event-Id'' = ''x-newim-event-id''" "toLower ''X-NewIM-Delivery-Id'' = ''x-newim-delivery-id''"
  "toLower ''X-NewIM-Timestamp'' = ''x-newim-timestamp''" "toLower ''X-NewIM-Nonce'' = ''x-newim-nonce''"
  "toLower ''X-NewIM-Key-Id'' = ''x-newim-key-id''" "toLower ''X-NewIM-Signature-Version'' = ''x-newim-signature-version''"
  "toLower ''X-NewIM-Signature'' = ''x-newim-signature''"
  by code_simp+

lemma signing_header_values:
  assumes "validateWebhookSigningHeaders h = Inr ()"
  shows "validWebhookHeaderValue (wh_EventID h)" "validWebhookHeaderValue (wh_DeliveryID h)" "validWebhookHeaderValue (wh_Timestamp h)"
    "validWebhookHeaderValue (wh_Nonce h)" "validWebhookHeaderValue (wh_KeyID h)" "validWebhookHeaderValue (wh_SignatureVersion h)"
proof -
  have v: "is_identifier (wh_EventID h) 128 False" "is_identifier (wh_DeliveryID h) 128 False" "is_identifier (wh_KeyID h) 64 False"
    "decimal (wh_Timestamp h) maxInt64" "wh_SignatureVersion h = ''1''" "validWebhookHeaderValue (wh_Nonce h)"
    using assms by (auto simp: validateWebhookSigningHeaders_def WebhookSignatureVersion_def split: if_splits)
  have i: "validWebhookHeaderValue s" if "is_identifier s n False" "n \<le> 4096" for s n
    using that identifier_ident [OF that(1)] by (intro ident_header) (auto simp: is_identifier_def split: if_splits)
  have "length (wh_Timestamp h) \<le> 19" "wh_Timestamp h \<noteq> []" using v(4) by (auto simp: decimal_def maxInt64_def split: if_splits)
  then show "validWebhookHeaderValue (wh_Timestamp h)" using decimal_ident [OF v(4)] by (intro ident_header) auto
  show "validWebhookHeaderValue (wh_EventID h)" "validWebhookHeaderValue (wh_DeliveryID h)" "validWebhookHeaderValue (wh_KeyID h)"
    by (rule i [OF v(1)], simp) (rule i [OF v(2)], simp, rule i [OF v(3)], simp)
  show "validWebhookHeaderValue (wh_Nonce h)" by (rule v(6))
  show "validWebhookHeaderValue (wh_SignatureVersion h)" unfolding v(5) by code_simp
qed

lemma collect_singles:
  "list_all (\<lambda>(k, v). toLower k \<in> set requiredHeaders \<and> validWebhookHeaderValue v) hs \<Longrightarrow> distinct (map (\<lambda>(k, v). toLower k) hs) \<Longrightarrow>
   set (map (\<lambda>(k, v). toLower k) hs) \<inter> fst ` set found = {} \<Longrightarrow>
   collectHeaders (map (\<lambda>(k, v). (k, [v])) hs) found = Inr (rev (map (\<lambda>(k, v). (toLower k, v)) hs) @ found)"
proof (induction hs arbitrary: found)
  case (Cons h hs)
  obtain k v where h: "h = (k, v)" by (cases h)
  have n: "map_of found (toLower k) = None" using Cons.prems(3) h by (simp add: map_of_eq_None_iff)
  have "collectHeaders (map (\<lambda>(k, v). (k, [v])) hs) ((toLower k, v) # found) = Inr (rev (map (\<lambda>(k, v). (toLower k, v)) hs) @ (toLower k, v) # found)"
    by (rule Cons.IH) (use Cons.prems h in auto)
  then show ?case using Cons.prems(1) h n by (simp add: Let_def)
qed simp

lemma headerList_names: "map (\<lambda>(k, v). toLower k) (headerList h) = requiredHeaders"
  by (simp add: headerList_def header_names requiredHeaders_def del: toLower.simps)

lemma required_distinct: "distinct requiredHeaders"
  by code_simp

lemma map_of_rev_distinct: "distinct (map fst xs) \<Longrightarrow> map_of (rev xs) = map_of xs"
  by (rule iffD2 [OF map_of_inject_set]) (simp_all add: rev_map [symmetric])

lemma headerList_lookup:
  "map_of (rev (map (\<lambda>(k, v). (toLower k, v)) (headerList h))) = map_of (zip requiredHeaders [wh_EventID h, wh_DeliveryID h, wh_Timestamp h, wh_Nonce h, wh_KeyID h,
     wh_SignatureVersion h, wh_Signature h])"
proof -
  have "map (\<lambda>(k, v). (toLower k, v)) (headerList h) = zip requiredHeaders [wh_EventID h, wh_DeliveryID h, wh_Timestamp h, wh_Nonce h, wh_KeyID h,
     wh_SignatureVersion h, wh_Signature h]" (is "_ = ?z")
    by (simp add: headerList_def header_names requiredHeaders_def del: toLower.simps)
  moreover have "distinct (map fst ?z)" using required_distinct by (simp add: map_fst_zip requiredHeaders_def)
  ultimately show ?thesis by (simp add: map_of_rev_distinct del: toLower.simps)
qed

lemma parse_headerList:
  assumes "validateWebhookSigningHeaders h = Inr ()" "wh_Signature h = ''v1='' @ b64_encode mac" "length mac = 32" "validWebhookHeaderValue (wh_Signature h)"
  shows "ParseWebhookHeaders (map (\<lambda>(k, v). (k, [v])) (headerList h)) = Inr h"
proof -
  let ?found = "rev (map (\<lambda>(k, v). (toLower k, v)) (headerList h))"
  have "set (map (\<lambda>(k, v). toLower k) (headerList h)) \<subseteq> set requiredHeaders" by (simp only: headerList_names order_refl)
  then have "list_all (\<lambda>(k, v). toLower k \<in> set requiredHeaders \<and> validWebhookHeaderValue v) (headerList h)"
    using signing_header_values [OF assms(1)] assms(4) by (simp add: headerList_def del: toLower.simps)
  then have c: "collectHeaders (map (\<lambda>(k, v). (k, [v])) (headerList h)) [] = Inr ?found"
    using collect_singles [of "headerList h" "[]"] by (simp only: headerList_names required_distinct) simp
  have l: "headerOf ?found ''x-newim-event-id'' = wh_EventID h" "headerOf ?found ''x-newim-delivery-id'' = wh_DeliveryID h"
    "headerOf ?found ''x-newim-timestamp'' = wh_Timestamp h" "headerOf ?found ''x-newim-nonce'' = wh_Nonce h" "headerOf ?found ''x-newim-key-id'' = wh_KeyID h"
    "headerOf ?found ''x-newim-signature-version'' = wh_SignatureVersion h" "headerOf ?found ''x-newim-signature'' = wh_Signature h"
    unfolding headerOf_def headerList_lookup by (simp_all add: requiredHeaders_def)
  have a: "list_all (\<lambda>k. map_of ?found k \<noteq> None) requiredHeaders"
    unfolding headerList_lookup by (simp add: list_all_iff map_of_eq_None_iff) (simp add: requiredHeaders_def)
  have "validateWebhookHeaders h = Inr ()" using assms(1,2) by (simp add: validateWebhookHeaders_def hasV1_def)
  moreover have "validateWebhookSignatureEncoding (wh_Signature h) = Inr mac" unfolding assms(2) by (rule signature_decodes(2) [OF assms(3)])
  moreover have e: "\<lparr>wh_EventID = wh_EventID h, wh_DeliveryID = wh_DeliveryID h, wh_Timestamp = wh_Timestamp h, wh_Nonce = wh_Nonce h, wh_KeyID = wh_KeyID h,
      wh_SignatureVersion = wh_SignatureVersion h, wh_Signature = wh_Signature h\<rparr> = h" by (cases h) simp
  ultimately show ?thesis unfolding ParseWebhookHeaders_def c bindR_Inr l Let_def e using a by (simp del: toLower.simps)
qed

lemma signedHeaders_signed:
  assumes "signedHeaders secret delivery body now entropy = Some headers"
  obtains h where "headers = headerList h" "SignWebhook secret h body = Inr (wh_Signature h)" "ParseWebhookHeaders (map (\<lambda>(k, v). (k, [v])) headers) = Inr h"
    "wh_EventID h = wv_ID (dv_Event delivery)" "wh_DeliveryID h = dv_ID delivery" "wh_KeyID h = dv_KeyID delivery"
    "wh_Timestamp h = fmt_int (UnixMilli now)" "wh_Nonce h = b64_encode (take 16 entropy)"
proof -
  let ?h = "\<lparr>wh_EventID = wv_ID (dv_Event delivery), wh_DeliveryID = dv_ID delivery, wh_Timestamp = fmt_int (UnixMilli now),
    wh_Nonce = b64_encode (take 16 entropy), wh_KeyID = dv_KeyID delivery, wh_SignatureVersion = WebhookSignatureVersion, wh_Signature = []\<rparr>"
  obtain sig where s: "SignWebhook secret ?h body = Inr sig" "headers = headerList (?h\<lparr>wh_Signature := sig\<rparr>)"
    using assms by (auto simp: signedHeaders_def readFull_def headerList_def Let_def split: if_splits sum.splits)
  let ?g = "?h\<lparr>wh_Signature := sig\<rparr>"
  have v: "SignWebhook secret ?g body = Inr sig" using sign_verifies [OF s(1)] by simp
  then obtain t where t: "CanonicalWebhookSigningBytes ?g body = Inr t" "sig = ''v1='' @ b64_encode (hmac_sha256 secret t)"
    by (auto simp: SignWebhook_def bindR_eq_Inr split: if_splits)
  have "validateWebhookSigningHeaders ?g = Inr ()" using t(1) by (auto simp: CanonicalWebhookSigningBytes_def bindR_eq_Inr)
  then have "ParseWebhookHeaders (map (\<lambda>(k, v). (k, [v])) (headerList ?g)) = Inr ?g"
    by (rule parse_headerList) (use t(2) signature_header in auto)
  then show thesis using that [of ?g] s(2) v by simp
qed

lemma buildEnvelope_decodes:
  assumes "buildEnvelope event = Inr body"
  shows "\<exists>envelope. DecodeWebhookEnvelope body = Inr envelope \<and> we_EventID envelope = wv_ID event \<and> we_EventType envelope = ''message.persisted'' \<and>
    we_OccurredAt envelope = fmt_int (wv_ServerTime event)"
proof -
  obtain payload where "EncodeWebhookEnvelope (envelopeOf event payload) = Inr body"
    using assms by (auto simp: buildEnvelope_def split: if_splits option.splits sum.splits)
  from webhook_codec.dec_enc [OF this] show ?thesis by (simp add: envelopeOf_def)
qed

lemma attempt_sent:
  assumes "attempt cfg io delivery = (outcome, obs, Some request)"
  obtains secret headers body where "io_resolve io (dv_Secret delivery) = Inr secret" "buildEnvelope (dv_Event delivery) = Inr body"
    "signedHeaders secret delivery body (io_now io) (io_entropy io) = Some headers" "request = (dv_URL delivery, headers, body)"
  using assms by (auto simp: attempt_def Let_def split: sum.splits if_splits option.splits)

section \<open>Back-off\<close>

lemma backoff_loop_closed:
  assumes "0 < delay" "delay \<le> maxBackoff" "maxBackoff \<le> hour"
  shows "backoff_loop n delay maxBackoff = min maxBackoff (delay * 2 ^ n)"
  using assms
proof (induction n arbitrary: delay)
  case (Suc n)
  have w: "wrap64 (delay * 2) = delay * 2" by (rule wrap64_id) (use Suc.prems in \<open>simp add: int64_def hour_def\<close>)
  show ?case
  proof (cases "delay < maxBackoff")
    case True
    have m: "min maxBackoff (min maxBackoff (delay * 2) * 2 ^ n) = min maxBackoff (delay * (2 * 2 ^ n))"
    proof (cases "delay * 2 \<le> maxBackoff")
      case False
      have a: "maxBackoff * 1 \<le> maxBackoff * 2 ^ n" by (rule mult_left_mono) (use Suc.prems in auto)
      have b: "maxBackoff * 2 ^ n \<le> delay * 2 * 2 ^ n" by (rule mult_right_mono) (use False in auto)
      have "maxBackoff \<le> delay * (2 * 2 ^ n)" using order_trans [OF a b] by (simp only: mult.assoc mult_1_right)
      moreover have "maxBackoff \<le> maxBackoff * 2 ^ n" using a by simp
      ultimately show ?thesis using False by (simp only: min_def) simp
    qed (simp add: min_def mult.assoc)
    have "backoff_loop n (min maxBackoff (delay * 2)) maxBackoff = min maxBackoff (min maxBackoff (delay * 2) * 2 ^ n)"
      by (rule Suc.IH) (use Suc.prems in auto)
    moreover have "backoff_loop (Suc n) delay maxBackoff = backoff_loop n (min maxBackoff (delay * 2)) maxBackoff"
      using True by (simp add: w Let_def min_def not_less)
    ultimately show ?thesis unfolding m by simp
  next
    case False
    have "delay * 1 \<le> delay * 2 ^ Suc n" by (rule mult_left_mono) (use Suc.prems in \<open>auto simp del: power_Suc\<close>)
    then show ?thesis using False Suc.prems by (simp add: min_def)
  qed
qed (simp add: min_def)

lemma defaultJitter_range:
  assumes "4 \<le> base" "base \<le> hour"
  shows "base - base div 8 \<le> defaultJitter key base" "defaultJitter key base < base - base div 8 + base div 4"
proof -
  let ?r = "int (unat (fnv64a key) mod nat (base div 4))"
  have "0 < nat (base div 4)" using assms(1) by (simp add: pos_imp_zdiv_pos_iff)
  then have "unat (fnv64a key) mod nat (base div 4) < nat (base div 4)" by (rule mod_less_divisor)
  then have r: "0 \<le> ?r" "?r < base div 4" by linarith+
  have h: "base div 4 div 2 = base div 8" by (simp add: zdiv_zmult2_eq [symmetric])
  have "base div 8 \<le> base" using assms(1) by simp
  then have "wrap64 (base - base div 8 + ?r) = base - base div 8 + ?r"
    by (intro wrap64_id) (use assms r in \<open>auto simp: int64_def hour_def\<close>)
  moreover have "0 < base" "0 < base div 4" using assms(1) by (simp_all add: pos_imp_zdiv_pos_iff)
  ultimately have j: "defaultJitter key base = base - base div 8 + ?r" by (simp add: defaultJitter_def Let_def h)
  show "base - base div 8 \<le> defaultJitter key base" "defaultJitter key base < base - base div 8 + base div 4"
    using j r by simp_all
qed

end
