(* ===== verification/WorkerFacts.thy ===== *)
theory WorkerFacts
  imports WebhookSending WebhookDelivery
begin

text \<open>The properties of the webhook worker, with a small worked example.\<close>

section \<open>An example\<close>

definition sampleCfg :: WorkerConfig where
  "sampleCfg = \<lparr>wc_Owner = ''w1'', wc_BatchSize = 5, wc_MaxConcurrent = 2, wc_MaxPerDestination = 1, wc_MaxAttempts = 3, wc_MaxResponseBytes = 1024,
     wc_LeaseTTL = 2 * second, wc_RequestTimeout = second, wc_BaseBackoff = second, wc_MaxBackoff = minute, wc_HighWater = 100, wc_LowWater = 10,
     wc_MaxDestinationQueue = 50, wc_RatePerSecond = FNum 1, wc_RateBurst = FNum 1, wc_IdleDelay = 100 * millisecond, wc_Jitter = Some defaultJitter\<rparr>"

definition sampleEvent :: Event where
  "sampleEvent = \<lparr>wv_ID = ''e1'', wv_ServerMsgID = ''s1'', wv_ClientMsgID = ''c1'', wv_SenderID = ''u1'', wv_ConversationID = ''v1'', wv_ConversationSeq = 1,
     wv_ServerTime = 7, wv_ProtocolVersion = 1, wv_SchemaVersion = 1, wv_MessageType = ''text'', wv_Payload = ''{}''\<rparr>"

definition sampleDv :: Delivery where
  "sampleDv = \<lparr>dv_ID = ''d1'', dv_Event = sampleEvent, dv_DestinationID = ''x'', dv_EndpointRevision = 1, dv_URL = ''https://x'', dv_KeyID = ''k1'',
     dv_Secret = \<lparr>sm_DestinationID = ''x'', sm_Revision = 1, sm_URL = ''https://x'', sm_KeyID = ''k1'', sm_Nonce = [], sm_Ciphertext = []\<rparr>,
     dv_Attempts = 0, dv_LeaseToken = ''t1''\<rparr>"

definition sampleHeld :: webhookdb where
  "sampleHeld = sampleWh\<lparr>wd_deliveries := [(''d1'', leasedTo ''w1'' ''t1'' (10 * second) sampleDelivery)]\<rparr>"

definition sampleIO :: attemptIO where
  "sampleIO = \<lparr>io_now = 1000000 * millisecond, io_begin = (goodEnv, \<lambda>_. second), io_others = (\<lambda>db. db), io_finish = (goodEnv, \<lambda>_. 2 * second),
     io_resolve = (\<lambda>_. Inr sampleSecret), io_entropy = replicate 16 (CHR ''n''), io_do = (\<lambda>_. Some \<lparr>rp_StatusCode = 200, rp_Body = [], rp_RetryAfter = 0\<rparr>),
     io_cancelled = False\<rparr>"

lemma sampleCfg_valid: "Config_Validate sampleCfg = Inr ()"
  by code_simp

lemma sampleEvent_builds: "\<exists>body. buildEnvelope sampleEvent = Inr body"
proof -
  have "\<not> isl (buildEnvelope sampleEvent)" by code_simp
  then show ?thesis by (cases "buildEnvelope sampleEvent") simp_all
qed

lemma buildEnvelope_length: "buildEnvelope event = Inr body \<Longrightarrow> length body \<le> WebhookMaxEnvelopeBytes"
  by (auto simp: buildEnvelope_def EncodeWebhookEnvelope_def Let_def bindR_eq_Inr split: if_splits option.splits sum.splits)

lemma sampleSigns:
  assumes "length body \<le> WebhookMaxEnvelopeBytes"
  shows "signedHeaders sampleSecret sampleDv body (1000000 * millisecond) (replicate 16 (CHR ''n'')) \<noteq> None"
proof -
  let ?h = "\<lparr>wh_EventID = ''e1'', wh_DeliveryID = ''d1'', wh_Timestamp = fmt_int (UnixMilli (1000000 * millisecond)),
    wh_Nonce = b64_encode (replicate 16 (CHR ''n'')), wh_KeyID = ''k1'', wh_SignatureVersion = WebhookSignatureVersion, wh_Signature = []\<rparr>"
  have "validateWebhookSigningHeaders ?h = Inr ()" by code_simp
  then have "\<exists>sig. SignWebhook sampleSecret ?h body = Inr sig"
    using assms by (simp add: SignWebhook_def CanonicalWebhookSigningBytes_def sampleSecret_def WebhookMinSecretBytes_def)
  then show ?thesis by (auto simp: signedHeaders_def readFull_def sampleDv_def sampleEvent_def Let_def)
qed

lemma sampleAttempt:
  obtains headers body where "attempt sampleCfg sampleIO sampleDv =
    (Some \<lparr>oc_Status = Delivered, oc_RetryDelay = 0, oc_HTTPStatus = 200, oc_ErrorCode = Some WhDeliveryDelivered\<rparr>, [(''delivery'', WhDeliveryDelivered)],
     Some (''https://x'', headers, body))" "signedHeaders sampleSecret sampleDv body (1000000 * millisecond) (replicate 16 (CHR ''n'')) = Some headers"
proof -
  obtain body where b: "buildEnvelope sampleEvent = Inr body" using sampleEvent_builds by blast
  obtain headers where h: "signedHeaders sampleSecret sampleDv body (1000000 * millisecond) (replicate 16 (CHR ''n'')) = Some headers"
    using sampleSigns [OF buildEnvelope_length [OF b]] by blast
  have "length sampleSecret = WebhookMinSecretBytes" "dv_Event sampleDv = sampleEvent" "dv_URL sampleDv = ''https://x''"
    by (simp_all add: sampleSecret_def WebhookMinSecretBytes_def sampleDv_def)
  then show thesis using that [of headers body] b h by (simp add: attempt_def sampleIO_def persistedHTTPStatus_def Let_def)
qed

section \<open>Requests verify\<close>

text \<open>
  C14. What the worker sends, its receiver accepts: the headers parse, and with the same secret, inside the timestamp window and
  with a nonce the receiver's guard takes, the request verifies; it goes to the URL of the claimed revision and its body is the
  envelope of the claimed event.
\<close>

theorem worker_request_verifies:
  assumes "attempt cfg io delivery = (outcome, obs, Some (url, headers, body))" "io_resolve io (dv_Secret delivery) = Inr secret"
    "resolve (dv_KeyID delivery) = Inr secret" "now \<noteq> zeroTime" "inWindow (UnixMilli (io_now io)) now"
    "\<And>exp. reserve g (dv_KeyID delivery) (b64_encode (take 16 (io_entropy io))) now exp = (Inr True, g')"
  shows "\<exists>h envelope. ParseWebhookHeaders (map (\<lambda>(k, v). (k, [v])) headers) = Inr h \<and>
    VerifyWebhookRequest (Some False) h body now (Some reserve) (Some resolve) g = (Inr (), g') \<and>
    wh_EventID h = wv_ID (dv_Event delivery) \<and> wh_DeliveryID h = dv_ID delivery \<and> url = dv_URL delivery \<and>
    DecodeWebhookEnvelope body = Inr envelope \<and> we_EventID envelope = wv_ID (dv_Event delivery) \<and> we_EventType envelope = ''message.persisted''"
proof -
  have r: "buildEnvelope (dv_Event delivery) = Inr body" "signedHeaders secret delivery body (io_now io) (io_entropy io) = Some headers" "url = dv_URL delivery"
    using attempt_sent [OF assms(1)] assms(2) by (metis prod.inject sum.inject(2))+
  obtain h where h: "SignWebhook secret h body = Inr (wh_Signature h)" "ParseWebhookHeaders (map (\<lambda>(k, v). (k, [v])) headers) = Inr h"
    "wh_EventID h = wv_ID (dv_Event delivery)" "wh_DeliveryID h = dv_ID delivery" "wh_KeyID h = dv_KeyID delivery"
    "wh_Timestamp h = fmt_int (UnixMilli (io_now io))" "wh_Nonce h = b64_encode (take 16 (io_entropy io))"
    using signedHeaders_signed [OF r(2)] by blast
  obtain envelope where e: "DecodeWebhookEnvelope body = Inr envelope" "we_EventID envelope = wv_ID (dv_Event delivery)" "we_EventType envelope = ''message.persisted''"
    using buildEnvelope_decodes [OF r(1)] by blast
  have p: "validateWebhookHeaders h = Inr ()" "\<exists>mac. validateWebhookSignatureEncoding (wh_Signature h) = Inr mac"
    using h(2) by (auto simp: ParseWebhookHeaders_def bindR_eq_Inr Let_def split: if_splits)
  have d: "decimal (wh_Timestamp h) maxInt64"
    using p(1) by (auto simp: validateWebhookHeaders_def validateWebhookSigningHeaders_def bindR_eq_Inr split: if_splits)
  have "0 \<le> UnixMilli (io_now io)"
  proof (rule ccontr)
    assume "\<not> 0 \<le> UnixMilli (io_now io)"
    then have "\<not> decimal (wh_Timestamp h) maxInt64" by (auto simp: h(6) fmt_int_def canonical_dec_def dest!: decimal_canonical)
    then show False using d by simp
  qed
  then have "int (dec_val (wh_Timestamp h)) = UnixMilli (io_now io)" by (simp add: h(6) fmt_int_def)
  then have c: "checkWebhookSignature secret h body now = Inr (nonceExpiry h)" using h(1,3) e assms(5) by (simp add: check_iff)
  have "validateWebhookBodySyntax body = Inr ()" using e(1) by (auto simp: DecodeWebhookEnvelope_def bindR_eq_Inr)
  moreover have "VerifyWebhookSignature (Some False) secret h body now (Some reserve) g = (Inr (), g')"
    unfolding Verify_accepts using assms(4,6) c h(5,7) by simp
  ultimately have "VerifyWebhookRequest (Some False) h body now (Some reserve) (Some resolve) g = (Inr (), g')"
    using p assms(3,4) h(5) by (auto simp: VerifyWebhookRequest_def)
  then show ?thesis using h(2,3,4) e r(3) by blast
qed

theorem worker_request_verifies_witness:
  "\<exists>headers body h. snd (snd (attempt sampleCfg sampleIO sampleDv)) = Some (''https://x'', headers, body) \<and>
     ParseWebhookHeaders (map (\<lambda>(k, v). (k, [v])) headers) = Inr h \<and>
     VerifyWebhookRequest (Some False) h body sampleNow (Some (\<lambda>g _ _ _ _. (Inr True, Suc g))) (Some (\<lambda>_. Inr sampleSecret)) 0 = (Inr (), 1)"
proof -
  obtain headers body where a: "attempt sampleCfg sampleIO sampleDv =
    (Some \<lparr>oc_Status = Delivered, oc_RetryDelay = 0, oc_HTTPStatus = 200, oc_ErrorCode = Some WhDeliveryDelivered\<rparr>, [(''delivery'', WhDeliveryDelivered)],
     Some (''https://x'', headers, body))"
    using sampleAttempt by blast
  have "sampleNow \<noteq> zeroTime" "inWindow (UnixMilli (io_now sampleIO)) sampleNow" by code_simp+
  then have "\<exists>h envelope. ParseWebhookHeaders (map (\<lambda>(k, v). (k, [v])) headers) = Inr h \<and>
     VerifyWebhookRequest (Some False) h body sampleNow (Some (\<lambda>g _ _ _ _. (Inr True, Suc g))) (Some (\<lambda>_. Inr sampleSecret)) 0 = (Inr (), Suc 0) \<and>
     wh_EventID h = wv_ID (dv_Event sampleDv) \<and> wh_DeliveryID h = dv_ID sampleDv \<and> ''https://x'' = dv_URL sampleDv \<and>
     DecodeWebhookEnvelope body = Inr envelope \<and> we_EventID envelope = wv_ID (dv_Event sampleDv) \<and> we_EventType envelope = ''message.persisted''"
    by (intro worker_request_verifies [OF a]) (simp_all add: sampleIO_def)
  then show ?thesis using a by auto
qed

section \<open>Retries\<close>

text \<open>
  C18. The retry schedule under a validated configuration: attempts below the limit are retried after a positive delay of at most
  the maximum; without a \<^verbatim>\<open>Retry-After\<close> it is the base doubled per attempt and capped, give or take an eighth, whatever the
  delivery; with one, it is that, capped. The last attempt makes a dead letter.
\<close>

theorem retry_schedule:
  fixes attempts retryAfter :: int and key :: bytes and reason :: whCode
  assumes "Config_Validate cfg = Inr ()" "wc_Jitter cfg = Some defaultJitter" "1 \<le> attempts"
  defines "full \<equiv> min (wc_MaxBackoff cfg) (wc_BaseBackoff cfg * 2 ^ nat (attempts - 1))"
    and "outcome \<equiv> retryOutcome reason attempts cfg key retryAfter"
  shows "(wc_MaxAttempts cfg \<le> attempts \<longrightarrow> oc_Status outcome = DeadLetter) \<and>
    (attempts < wc_MaxAttempts cfg \<longrightarrow> oc_Status outcome = Retry \<and> 0 < oc_RetryDelay outcome \<and> oc_RetryDelay outcome \<le> wc_MaxBackoff cfg \<and>
      (0 < retryAfter \<longrightarrow> oc_RetryDelay outcome = min (wc_MaxBackoff cfg) retryAfter) \<and>
      (retryAfter \<le> 0 \<longrightarrow> full - full div 8 \<le> oc_RetryDelay outcome \<and> oc_RetryDelay outcome < full - full div 8 + full div 4))"
proof -
  have c: "millisecond \<le> wc_BaseBackoff cfg" "wc_BaseBackoff cfg \<le> wc_MaxBackoff cfg" "wc_MaxBackoff cfg \<le> hour"
    using assms(1) by (auto simp: Config_Validate_def not_less split: if_splits)
  have b: "0 < wc_BaseBackoff cfg" "4 \<le> wc_BaseBackoff cfg" using c(1) by (simp_all add: millisecond_def)
  have "wc_BaseBackoff cfg * 1 \<le> wc_BaseBackoff cfg * 2 ^ nat (attempts - 1)" by (rule mult_left_mono) (use b in auto)
  then have "4 \<le> wc_BaseBackoff cfg * 2 ^ nat (attempts - 1)" using b(2) by linarith
  then have f: "4 \<le> full" "full \<le> wc_MaxBackoff cfg" "full \<le> hour" using b c by (simp_all add: full_def)
  have l: "backoff_loop (nat (attempts - 1)) (wc_BaseBackoff cfg) (wc_MaxBackoff cfg) = full"
    unfolding full_def by (rule backoff_loop_closed [OF b(1) c(2,3)])
  note j = defaultJitter_range [OF f(1,3), of key]
  have p: "0 < full - full div 8" "full - full div 8 \<le> wc_MaxBackoff cfg" using f by linarith+
  have "full - full div 8 \<le> backoff cfg key attempts" "backoff cfg key attempts \<le> wc_MaxBackoff cfg"
    "backoff cfg key attempts < full - full div 8 + full div 4"
    using j p by (auto simp: backoff_def assms(2) l Let_def)
  then show ?thesis using p(1) b(1) c(2) by (auto simp: outcome_def retryOutcome_def terminalOutcome_def Let_def min_def)
qed

theorem retry_schedule_witness:
  "oc_Status (retryOutcome WhHTTPTemporary 2 sampleCfg ''d1'' 0) = Retry \<and> 1750000000 \<le> oc_RetryDelay (retryOutcome WhHTTPTemporary 2 sampleCfg ''d1'' 0) \<and>
   oc_RetryDelay (retryOutcome WhHTTPTemporary 2 sampleCfg ''d1'' 0) < 2250000000"
proof -
  have "wc_Jitter sampleCfg = Some defaultJitter" "wc_BaseBackoff sampleCfg = 1000000000" "wc_MaxBackoff sampleCfg = 60000000000" "wc_MaxAttempts sampleCfg = 3"
    by (simp_all add: sampleCfg_def second_def minute_def)
  then show ?thesis using retry_schedule [OF sampleCfg_valid, of 2 WhHTTPTemporary "''d1''" 0] by simp
qed

section \<open>Outcomes\<close>

text \<open>The status an exchange calls for, on a given attempt: what to do again is spelled out in HTTP status codes.\<close>

definition settled :: "WorkerConfig \<Rightarrow> int \<Rightarrow> Response option \<Rightarrow> deliveryStatus" where
  "settled cfg attempts response =
     (let again = (if attempts < wc_MaxAttempts cfg then Retry else DeadLetter) in
      case response of
        None \<Rightarrow> again
      | Some r \<Rightarrow> if rp_StatusCode r div 100 = 2 then Delivered else if rp_StatusCode r = 408 \<or> rp_StatusCode r = 429 \<or> rp_StatusCode r div 100 = 5 then again else DeadLetter)"

lemma attempt_outcome:
  assumes "attempt cfg io delivery = (outcome, obs, Some request)" "io_do io request \<noteq> None \<or> \<not> io_cancelled io"
  shows "\<exists>out. outcome = Some out \<and> oc_Status out = settled cfg (int (dv_Attempts delivery) + 1) (io_do io request)"
proof -
  have r: "oc_Status (retryOutcome reason n cfg key retryAfter) = (if n < wc_MaxAttempts cfg then Retry else DeadLetter)" for reason n key retryAfter
    by (simp add: retryOutcome_def terminalOutcome_def Let_def)
  have two: "200 \<le> n \<and> n < 300 \<longleftrightarrow> n div 100 = 2" and five: "retryableStatus n \<longleftrightarrow> n = 408 \<or> n = 429 \<or> n div 100 = 5" for n :: int
    unfolding retryableStatus_def by linarith+
  show ?thesis using assms
    by (auto simp: attempt_def Let_def settled_def r two five split: sum.splits if_splits option.splits)
qed

lemma Finish_stores:
  assumes "map_of (wd_deliveries db) key = Some d" "holdsLease (tick 0) token d" "key \<noteq> []" "token \<noteq> []" "now \<noteq> zeroTime"
    "oc_Status out = Retry \<or> oc_Status out = Delivered \<or> oc_Status out = DeadLetter" "0 \<le> attempts"
  shows "\<exists>out'. Finish goodEnv tick key token attempts now out db =
      (Inr (), mapDeliveries (\<lambda>k d. if k = key then outcomeRow (tick 0) out' d else d) db) \<and> oc_Status out' = oc_Status out"
proof (intro exI conjI)
  let ?o1 = "if oc_Status out = Retry \<and> oc_RetryDelay out \<le> 0 then out\<lparr>oc_RetryDelay := millisecond\<rparr> else out"
  let ?o2 = "if oc_HTTPStatus ?o1 < 100 \<or> 599 < oc_HTTPStatus ?o1 then ?o1\<lparr>oc_HTTPStatus := 0\<rparr> else ?o1"
  show s: "oc_Status ?o2 = oc_Status out" by simp
  then have "stateCheck (outcomeRow (tick 0) ?o2 d)" using assms(6) unfolding stateCheck_def terminal_def outcomeRow_def unleased_def by auto
  then show "Finish goodEnv tick key token attempts now out db =
      (Inr (), mapDeliveries (\<lambda>k d. if k = key then outcomeRow (tick 0) ?o2 d else d) db)"
    using assms unfolding Finish_def Let_def by (simp add: goodEnv_def finish_def)
qed

text \<open>
  C15. A sent request settles its delivery: when the lease still lives at the end and nobody else touched the row, the attempt is
  counted and the stored status is the one the response asks for, delivered for 2xx and only then, retry for 408, 429, 5xx and
  transport errors while attempts remain, dead letter otherwise.
\<close>

theorem deliver_settles:
  assumes "deliver cfg io delivery db = (obs, Some request, db')" "io_do io request \<noteq> None \<or> \<not> io_cancelled io"
    "map_of (wd_deliveries db) (dv_ID delivery) = Some d" "dl_attempts d = dv_Attempts delivery" "dl_expires d = Some x"
    "\<And>db. map_of (wd_deliveries (io_others io db)) (dv_ID delivery) = map_of (wd_deliveries db) (dv_ID delivery)"
    "io_finish io = (goodEnv, tick)" "tick 0 < x"
  shows "\<exists>d'. map_of (wd_deliveries db') (dv_ID delivery) = Some d' \<and> dl_attempts d' = dl_attempts d + 1 \<and>
    dl_status d' = settled cfg (int (dl_attempts d) + 1) (io_do io request)"
proof -
  let ?B = "BeginAttempt (fst (io_begin io)) (snd (io_begin io)) (dv_ID delivery) (dv_LeaseToken delivery) (io_now io) (nat (wc_MaxAttempts cfg))
    (andHalf (wc_RequestTimeout cfg)) db"
  obtain r db1 where B: "?B = (r, db1)" by fastforce
  then have g: "r = Inr True" using assms(1) by (auto simp: deliver_def split: sum.splits if_splits)
  obtain outcome obs' where a: "attempt cfg io delivery = (outcome, obs', Some request)"
    using assms(1) by (auto simp: deliver_def B g Let_def split: prod.splits option.splits)
  then obtain out where o: "outcome = Some out" "oc_Status out = settled cfg (int (dv_Attempts delivery) + 1) (io_do io request)"
    using attempt_outcome [OF a assms(2)] by blast
  obtain d1 where d1: "map_of (wd_deliveries db1) (dv_ID delivery) = Some d1" "dl_attempts d1 = dl_attempts d + 1" "dl_status d1 = Leased"
    "dl_token d1 = Some (dv_LeaseToken delivery)" "\<exists>y. dl_expires d1 = Some y \<and> x \<le> y"
    "dv_ID delivery \<noteq> []" "dv_LeaseToken delivery \<noteq> []" "io_now io \<noteq> zeroTime"
    using B [unfolded g] assms(3,5) by (auto simp: BeginAttempt_def mayAttempt_def finish_def split: if_splits option.splits commitOutcome.splits)
  let ?db2 = "io_others io db1"
  have row: "map_of (wd_deliveries ?db2) (dv_ID delivery) = Some d1" using assms(6) d1(1) by simp
  have l: "holdsLease (tick 0) (dv_LeaseToken delivery) d1" using d1(3,4,5) assms(8) by (auto simp: holdsLease_def)
  have k: "oc_Status out = Retry \<or> oc_Status out = Delivered \<or> oc_Status out = DeadLetter"
    unfolding o(2) settled_def by (auto simp: Let_def split: option.splits)
  obtain out' where F: "Finish goodEnv tick (dv_ID delivery) (dv_LeaseToken delivery) (int (dv_Attempts delivery) + 1) (io_now io) out ?db2 =
      (Inr (), mapDeliveries (\<lambda>key d. if key = dv_ID delivery then outcomeRow (tick 0) out' d else d) ?db2)" "oc_Status out' = oc_Status out"
    using Finish_stores [where tick = tick and attempts = "int (dv_Attempts delivery) + 1", OF row l d1(6,7,8) k] by auto
  have "db' = mapDeliveries (\<lambda>key d. if key = dv_ID delivery then outcomeRow (tick 0) out' d else d) ?db2"
    using assms(1) unfolding deliver_def B g a o(1) worker_finish_def assms(7) by (simp add: F(1) Let_def)
  then show ?thesis using row d1(2) o(2) F(2) assms(4) by simp
qed

theorem deliver_settles_witness:
  "\<exists>d'. map_of (wd_deliveries (snd (snd (deliver sampleCfg sampleIO sampleDv sampleHeld)))) ''d1'' = Some d' \<and> dl_attempts d' = 1 \<and> dl_status d' = Delivered"
proof -
  obtain headers body where a: "attempt sampleCfg sampleIO sampleDv =
    (Some \<lparr>oc_Status = Delivered, oc_RetryDelay = 0, oc_HTTPStatus = 200, oc_ErrorCode = Some WhDeliveryDelivered\<rparr>, [(''delivery'', WhDeliveryDelivered)],
     Some (''https://x'', headers, body))"
    using sampleAttempt by blast
  let ?B = "BeginAttempt (fst (io_begin sampleIO)) (snd (io_begin sampleIO)) (dv_ID sampleDv) (dv_LeaseToken sampleDv) (io_now sampleIO)
    (nat (wc_MaxAttempts sampleCfg)) (andHalf (wc_RequestTimeout sampleCfg)) sampleHeld"
  have "fst ?B = Inr True" by code_simp
  then obtain db1 where B: "?B = (Inr True, db1)" by (cases ?B) simp
  obtain obs db' where F: "worker_finish (io_finish sampleIO) sampleDv (int (dv_Attempts sampleDv) + 1) (io_now sampleIO)
      \<lparr>oc_Status = Delivered, oc_RetryDelay = 0, oc_HTTPStatus = 200, oc_ErrorCode = Some WhDeliveryDelivered\<rparr> (io_others sampleIO db1) = (obs, db')"
    by fastforce
  then have D: "deliver sampleCfg sampleIO sampleDv sampleHeld = (obs @ [(''delivery'', WhDeliveryDelivered)], Some (''https://x'', headers, body), db')"
    unfolding deliver_def B a by (simp add: Let_def)
  have i: "io_do sampleIO = (\<lambda>_. Some \<lparr>rp_StatusCode = 200, rp_Body = [], rp_RetryAfter = 0\<rparr>)" "io_others sampleIO = (\<lambda>db. db)"
    "io_finish sampleIO = (goodEnv, \<lambda>_. 2 * second)" "dv_ID sampleDv = ''d1''" "dv_Attempts sampleDv = 0"
    by (simp_all add: sampleIO_def sampleDv_def)
  have "\<exists>d'. map_of (wd_deliveries db') (dv_ID sampleDv) = Some d' \<and> dl_attempts d' = dl_attempts (leasedTo ''w1'' ''t1'' (10 * second) sampleDelivery) + 1 \<and>
    dl_status d' = settled sampleCfg (int (dl_attempts (leasedTo ''w1'' ''t1'' (10 * second) sampleDelivery)) + 1) (io_do sampleIO (''https://x'', headers, body))"
    by (rule deliver_settles [OF D, where x = "10 * second" and tick = "\<lambda>_. 2 * second"])
      (simp_all add: i sampleHeld_def leasedTo_def sampleDelivery_def second_def)
  then show ?thesis using D by (simp add: i settled_def leasedTo_def sampleDelivery_def)
qed

section \<open>In flight\<close>

lemma NewWorker_inv:
  assumes "NewWorker cfg0 db = Inr (cfg, w)"
  shows "workerInv cfg w" "wk_db w = db" "1 \<le> wc_MaxConcurrent cfg" "wc_MaxConcurrent cfg \<le> 64" "1 \<le> wc_MaxPerDestination cfg"
  using assms
  by (auto simp: NewWorker_def Let_def bindR_eq_Inr workerInv_def inFlight_def activeOf_def newDestinationLimiter_def Config_Validate_def
      split: if_splits option.splits)

text \<open>
  C16. A worker never has more requests in flight than configured, at most 64, and at most \<^verbatim>\<open>MaxPerDestination\<close> towards one
  endpoint, whatever the interleaving of its deliveries and however rounding goes; the limiter counts for every destination exactly
  the deliveries that run or wait for a place, so that no permit leaks; and all the worker does to the tables is what the
  repository's operations do, so that their invariant holds at every moment.
\<close>

theorem worker_in_flight_bounded:
  assumes "NewWorker cfg0 db = Inr (cfg, w0)" "(worker_step rnd cfg)\<^sup>*\<^sup>* w0 w" "whInv db"
  shows "int (length (wk_running w)) \<le> wc_MaxConcurrent cfg \<and> wc_MaxConcurrent cfg \<le> 64 \<and>
    (\<forall>dest. int (towards dest (wk_running w)) \<le> wc_MaxPerDestination cfg) \<and>
    (\<forall>dest. activeOf (wk_limiter w) dest = int (towards dest (inFlight w))) \<and> wh_step\<^sup>*\<^sup>* db (wk_db w) \<and> whInv (wk_db w)"
proof -
  note n = NewWorker_inv [OF assms(1)]
  have i: "workerInv cfg w" by (rule worker_runs.inv_runs [OF assms(2) n(1)])
  have r: "wh_step\<^sup>*\<^sup>* db (wk_db w)" using worker_runs_db [OF assms(2)] n(2) by simp
  have "int (towards dest (wk_running w)) \<le> wc_MaxPerDestination cfg" for dest
  proof (cases "towards dest (inFlight w) = 0")
    case False
    then have "int (towards dest (inFlight w)) \<le> wc_MaxPerDestination cfg" using i by (simp add: workerInv_def)
    then show ?thesis by (auto simp: inFlight_def split: option.splits)
  next
    case True
    then show ?thesis using n(5) by (simp add: inFlight_def)
  qed
  moreover have "int (length (wk_running w)) \<le> wc_MaxConcurrent cfg"
  proof (cases "wk_running w = []")
    case False
    then show ?thesis using i by (simp add: workerInv_def)
  qed (use n(3) in simp)
  moreover have "activeOf (wk_limiter w) dest = int (towards dest (inFlight w))" for dest using i by (simp add: workerInv_def)
  ultimately show ?thesis using n(4) r webhook_runs.inv_runs [OF r assms(3)] by simp
qed

definition sampleCycle :: cycleIO where
  "sampleCycle = \<lparr>cy_now = 10, cy_cancel = (goodEnv, \<lambda>_. 10), cy_counts = (\<lambda>_. False), cy_fanout = (goodEnv, \<lambda>_. 10, replicate 16 CHR ''a'', \<lambda>_. False),
     cy_claim = (goodEnv, \<lambda>_. 10, replicate 64 CHR ''b'', \<lambda>_. False), cy_others = (\<lambda>_ db. db)\<rparr>"

theorem worker_in_flight_bounded_witness:
  "\<exists>w0 w d. NewWorker sampleCfg sampleWh = Inr (sampleCfg, w0) \<and> (worker_step (\<lambda>x. x) sampleCfg)\<^sup>*\<^sup>* w0 w \<and> wk_running w = [d] \<and> wk_waiting w = None \<and>
     activeOf (wk_limiter w) (dv_DestinationID d) = 1"
proof -
  let ?step = "worker_step (\<lambda>x. x) sampleCfg"
  obtain w0 where w0: "NewWorker sampleCfg sampleWh = Inr (sampleCfg, w0)" "wk_queue w0 = []" "wk_waiting w0 = None" "wk_running w0 = []"
    "wk_db w0 = sampleWh" "\<not> wk_paused w0" "wk_limiter w0 = newDestinationLimiter 1 (fnum (wc_RatePerSecond sampleCfg)) (fnum (wc_RateBurst sampleCfg))"
    using sampleCfg_valid by (simp add: NewWorker_def sampleCfg_def Let_def millisecond_def)
  have "(case fst (cycleClaim sampleCfg sampleCycle False sampleWh) of Inl _ \<Rightarrow> False | Inr ds \<Rightarrow> ds \<noteq> [])" by code_simp
  then obtain d rest paused db' where c: "cycleClaim sampleCfg sampleCycle False sampleWh = (Inr (d # rest), paused, db')"
    by (cases "cycleClaim sampleCfg sampleCycle False sampleWh") (auto simp: neq_Nil_conv split: sum.splits)
  define w1 where "w1 = w0\<lparr>wk_now := cy_now sampleCycle, wk_paused := paused,
      wk_queue := (case (Inr (d # rest) :: (whCode, Delivery list) result) of Inl _ \<Rightarrow> [] | Inr deliveries \<Rightarrow> deliveries), wk_db := db'\<rparr>"
  have s1: "?step w0 w1" unfolding w1_def by (rule work_cycle) (use w0 c in \<open>simp_all add: sampleCycle_def runsOnly_def\<close>)
  have "1 \<le> fnum (wc_RateBurst sampleCfg)" by code_simp
  then obtain l where l: "acquire (\<lambda>x. x) (wk_limiter w1) (dv_DestinationID d) (wk_now w1) = (True, l)"
    by (simp add: w1_def w0(7) acquire_def refill_def newDestinationLimiter_def seconds_def timeSub_def Let_def)
  define w2 where "w2 = w1\<lparr>wk_queue := rest, wk_waiting := Some d, wk_limiter := l\<rparr>"
  have s2: "?step w1 w2" unfolding w2_def by (rule work_acquire [OF _ _ l]) (simp_all add: w1_def w0)
  define w3 where "w3 = w2\<lparr>wk_waiting := None, wk_running := d # wk_running w2\<rparr>"
  have "wk_running w2 = []" by (simp add: w2_def w1_def w0)
  then have s3: "?step w2 w3" unfolding w3_def by (intro work_admit) (simp_all add: w2_def sampleCfg_def)
  have r: "?step\<^sup>*\<^sup>* w0 w3" using s1 s2 s3 by (meson converse_rtranclp_into_rtranclp rtranclp.rtrancl_refl)
  have q: "wk_running w3 = [d]" "wk_waiting w3 = None" by (simp_all add: w3_def \<open>wk_running w2 = []\<close>)
  have "activeOf (wk_limiter w3) (dv_DestinationID d) = int (towards (dv_DestinationID d) (inFlight w3))"
    using worker_in_flight_bounded [OF w0(1) r sampleWh_inv] by blast
  then show ?thesis using w0(1) r q by (intro exI [of _ w0] exI [of _ w3] exI [of _ d]) (simp add: inFlight_def)
qed

end
