(* ===== verification/GoStrings.thy ===== *)
theory GoStrings
  imports Json "HOL-Library.AList"
begin

text \<open>
  Functions of Go's standard library that the HTTP code uses: \<^verbatim>\<open>strings.EqualFold\<close>, \<^verbatim>\<open>ContainsAny\<close>, \<^verbatim>\<open>TrimSpace\<close>,
  \<^verbatim>\<open>HasPrefix\<close> and \<^verbatim>\<open>Split\<close>, and the UTC form of \<^verbatim>\<open>time.RFC3339Nano\<close>.
\<close>

section \<open>Strings\<close>

text \<open>\<^verbatim>\<open>strings.EqualFold\<close> as far as a comparison with an ASCII constant can tell: besides ASCII case, the long s and the Kelvin sign fold to ASCII.\<close>

fun foldAscii :: "bytes \<Rightarrow> bytes" where
  "foldAscii [] = []"
| "foldAscii (c # cs) =
     (if is_upper c then char_of (code c + 32) # foldAscii cs
      else if c = CHR 0xE2 \<and> take 2 cs = [CHR 0x84, CHR 0xAA] then CHR ''k'' # foldAscii (drop 2 cs)
      else if c = CHR 0xC5 \<and> take 1 cs = [CHR 0xBF] then CHR ''s'' # foldAscii (drop 1 cs)
      else c # foldAscii cs)"

definition EqualFold :: "bytes \<Rightarrow> bytes \<Rightarrow> bool" where
  "EqualFold s t \<longleftrightarrow> foldAscii s = foldAscii t"

definition ContainsAny :: "bytes \<Rightarrow> bytes \<Rightarrow> bool" where
  "ContainsAny s chars \<longleftrightarrow> list_ex (\<lambda>c. c \<in> set chars) s"

definition HasPrefix :: "bytes \<Rightarrow> bytes \<Rightarrow> bool" where
  "HasPrefix s p \<longleftrightarrow> take (length p) s = p"

definition HasSuffix :: "bytes \<Rightarrow> bytes \<Rightarrow> bool" where
  "HasSuffix s p \<longleftrightarrow> HasPrefix (rev s) (rev p)"

text \<open>\<^verbatim>\<open>strings.Split\<close> at one byte.\<close>

fun splitAt :: "char \<Rightarrow> bytes \<Rightarrow> bytes list" where
  "splitAt sep [] = [[]]"
| "splitAt sep (c # cs) = (if c = sep then [] # splitAt sep cs else case splitAt sep cs of [] \<Rightarrow> [[c]] | p # ps \<Rightarrow> (c # p) # ps)"

text \<open>The white space of \<^verbatim>\<open>unicode.IsSpace\<close>: how many bytes of it a string starts with, read forwards or backwards.\<close>

definition spaceByte :: "char \<Rightarrow> bool" where
  "spaceByte c \<longleftrightarrow> c = CHR '' '' \<or> 9 \<le> code c \<and> code c \<le> 13"

definition spaceRune :: "bytes \<Rightarrow> bool" where
  "spaceRune s \<longleftrightarrow> s = [CHR 0xC2, CHR 0x85] \<or> s = [CHR 0xC2, CHR 0xA0] \<or> s = [CHR 0xE1, CHR 0x9A, CHR 0x80] \<or>
     (length s = 3 \<and> take 2 s = [CHR 0xE2, CHR 0x80] \<and> (128 \<le> code (s ! 2) \<and> code (s ! 2) \<le> 138 \<or> s ! 2 = CHR 0xA8 \<or> s ! 2 = CHR 0xA9 \<or> s ! 2 = CHR 0xAF)) \<or>
     s = [CHR 0xE2, CHR 0x81, CHR 0x9F] \<or> s = [CHR 0xE3, CHR 0x80, CHR 0x80]"

fun trimWith :: "(bytes \<Rightarrow> bytes) \<Rightarrow> bytes \<Rightarrow> bytes" where
  "trimWith dir [] = []"
| "trimWith dir (c # cs) =
     (if spaceByte c then trimWith dir cs
      else if spaceRune (dir (take 2 (c # cs))) then trimWith dir (drop 1 cs)
      else if spaceRune (dir (take 3 (c # cs))) then trimWith dir (drop 2 cs)
      else c # cs)"

definition TrimSpace :: "bytes \<Rightarrow> bytes" where
  "TrimSpace s = rev (trimWith rev (rev (trimWith (\<lambda>x. x) s)))"

section \<open>Times\<close>

text \<open>The proleptic Gregorian date of a day number, counted from the Unix epoch.\<close>

definition civilDate :: "int \<Rightarrow> int \<times> int \<times> int" where
  "civilDate day =
     (let z = day + 719468; era = z div 146097; doe = z - era * 146097;
          yoe = (doe - doe div 1460 + doe div 36524 - doe div 146096) div 365;
          doy = doe - (365 * yoe + yoe div 4 - yoe div 100); mp = (5 * doy + 2) div 153;
          m = (if mp < 10 then mp + 3 else mp - 9)
      in (yoe + era * 400 + (if m \<le> 2 then 1 else 0), m, doy - (153 * mp + 2) div 5 + 1))"

text \<open>A number in exactly \<open>w\<close> digits.\<close>

fun padded :: "nat \<Rightarrow> int \<Rightarrow> bytes" where
  "padded 0 n = []"
| "padded (Suc w) n = padded w (n div 10) @ [digit_char (nat (n mod 10))]"

definition nanoText :: "int \<Rightarrow> bytes" where
  "nanoText n = (if n = 0 then [] else CHR ''.'' # rev (dropWhile (\<lambda>c. c = CHR ''0'') (rev (padded 9 n))))"

definition utcYear :: "instant \<Rightarrow> int" where
  "utcYear t = fst (civilDate (t div 86400000000000))"

definition rfc3339nano :: "instant \<Rightarrow> bytes" where
  "rfc3339nano t =
     (let s = t div 1000000000; day = s div 86400; sec = s mod 86400 in
      case civilDate day of (y, m, d) \<Rightarrow>
        padded 4 y @ ''-'' @ padded 2 m @ ''-'' @ padded 2 d @ ''T'' @ padded 2 (sec div 3600) @ '':'' @ padded 2 (sec div 60 mod 60) @ '':'' @ padded 2 (sec mod 60) @
        nanoText (t mod 1000000000) @ ''Z'')"

end
