(* ===== verification/HttpBoundary.thy ===== *)
theory HttpBoundary
  imports GoStrings AuthFacts SendServiceFacts
begin

text \<open>
  The HTTP boundary: the session and token revocation handlers of \<^verbatim>\<open>server/auth/bearerhttp\<close> and the message handler of
  \<^verbatim>\<open>server/messagehttp\<close>, on top of the authentication and send services. A response is its status, headers and body;
  \<^verbatim>\<open>mime.ParseMediaType\<close> is a parameter, and the dependencies, the response writer and the request are not nil.
\<close>

section \<open>Requests and responses\<close>

text \<open>A body is what can be read of it and how reading ends: well, at a limit of \<^verbatim>\<open>http.MaxBytesReader\<close>, or with another error.\<close>

datatype bodyEnd = EndOK | EndTooLarge | EndError

record httpRequest =
  hq_EscapedPath :: bytes
  hq_Method :: bytes
  hq_RawQuery :: bytes
  hq_ForceQuery :: bool
  hq_Fragment :: bytes
  hq_RawFragment :: bytes
  hq_ContentLength :: int
  hq_TransferEncoding :: "bytes list"
  hq_Header :: "(bytes \<times> bytes list) list"
  hq_Body :: "bytes \<times> bodyEnd"
  hq_Context :: bool

record httpResponse =
  hs_Status :: int
  hs_Header :: "(bytes \<times> bytes) list"
  hs_Body :: bytes

definition headerValues :: "httpRequest \<Rightarrow> bytes \<Rightarrow> bytes list" where
  "headerValues r k = (case map_of (hq_Header r) k of None \<Rightarrow> [] | Some vs \<Rightarrow> vs)"

definition commonHeaders :: "(bytes \<times> bytes) list" where
  "commonHeaders = [(''Cache-Control'', ''no-store''), (''X-Content-Type-Options'', ''nosniff''), (''Content-Type'', ''application/json; charset=utf-8'')]"

definition bearerChallenge :: "bytes \<times> bytes" where
  "bearerChallenge = (''WWW-Authenticate'', ''Bearer realm='' @ dquote # ''newim-session'' @ [dquote])"

definition errorText :: "bytes \<Rightarrow> bytes" where
  "errorText reason = object_text [(''error'', object_text [(''code'', quote_string True reason)])] @ [CHR 0x0A]"

section \<open>Bearer tokens\<close>

definition ParseBearerHeader :: "bytes list \<Rightarrow> bytes option" where
  "ParseBearerHeader values =
     (case values of
        [value] \<Rightarrow>
          if length value \<le> 7 \<or> \<not> EqualFold (take 7 value) ''Bearer '' then None
          else
            let token = drop 7 value in
            if token = [] \<or> TrimSpace token \<noteq> token \<or> ContainsAny token [CHR '' '', CHR 0x09, CHR 0x0D, CHR 0x0A, CHR '',''] then None
            else Some token
      | _ \<Rightarrow> None)"

definition MapAuthenticationError :: "authCode \<Rightarrow> int \<times> bytes" where
  "MapAuthenticationError e =
     (if e \<in> {AuthInvalidInput, AuthTokenMalformed, AuthTokenUnknown, AuthTokenExpired, AuthTokenRevoked, AuthSessionRevoked, AuthForbidden}
      then (401, ''AUTH_INVALID_TOKEN'') else (503, ''AUTH_UNAVAILABLE''))"

definition mapRevocationError :: "authCode \<Rightarrow> int \<times> bytes" where
  "mapRevocationError e =
     (if e \<in> {AuthInvalidInput, AuthTokenMalformed, AuthTokenUnknown, AuthForbidden} then (401, ''AUTH_INVALID_TOKEN'') else (503, ''AUTH_UNAVAILABLE''))"

definition requestHasBody :: "httpRequest \<Rightarrow> bool" where
  "requestHasBody r \<longleftrightarrow> 0 < hq_ContentLength r \<or> hq_ContentLength r < 0 \<or> hq_TransferEncoding r \<noteq> []"

definition bearerError :: "int \<Rightarrow> bytes \<Rightarrow> httpResponse" where
  "bearerError status reason = \<lparr>hs_Status = status, hs_Header = commonHeaders, hs_Body = errorText reason\<rparr>"

definition bearerUnauthorized :: httpResponse where
  "bearerUnauthorized = \<lparr>hs_Status = 401, hs_Header = bearerChallenge # commonHeaders, hs_Body = errorText ''AUTH_INVALID_TOKEN''\<rparr>"

text \<open>A time outside the years 0 to 9999 does not marshal.\<close>

definition sessionText :: "BearerSession \<Rightarrow> bytes" where
  "sessionText session = object_text [(''version'', ''1''), (''session'', object_text
     [(''userId'', quote_string True (sb_UserID (bs_binding session))), (''deviceId'', quote_string True (sb_DeviceID (bs_binding session))),
      (''sessionId'', quote_string True (sb_SessionID (bs_binding session))), (''tokenId'', quote_string True (bs_tokenID session)),
      (''expiresAt'', dquote # rfc3339nano (bs_expiresAt session) @ [dquote])])] @ [CHR 0x0A]"

definition writeSuccess :: "BearerSession \<Rightarrow> httpResponse" where
  "writeSuccess session =
     (if utcYear (bs_expiresAt session) < 0 \<or> 9999 < utcYear (bs_expiresAt session) then bearerError 503 ''AUTH_UNAVAILABLE''
      else \<lparr>hs_Status = 200, hs_Header = commonHeaders, hs_Body = sessionText session\<rparr>)"

definition Session_ServeHTTP :: "dbEnv \<Rightarrow> instant \<Rightarrow> authdb \<Rightarrow> httpRequest \<Rightarrow> httpResponse" where
  "Session_ServeHTTP env clock db r =
     (if hq_EscapedPath r \<noteq> ''/api/v1/session'' then bearerError 404 ''HTTP_ROUTE_NOT_FOUND''
      else if hq_Method r \<noteq> ''GET'' then (bearerError 405 ''HTTP_METHOD_NOT_ALLOWED'')\<lparr>hs_Header := (''Allow'', ''GET'') # commonHeaders\<rparr>
      else if requestHasBody r then bearerError 400 ''HTTP_BODY_NOT_ALLOWED''
      else case ParseBearerHeader (headerValues r ''Authorization'') of
        None \<Rightarrow> bearerUnauthorized
      | Some token \<Rightarrow>
          (case AuthenticateBearer (Some (hq_Context r)) env clock token db of
             Inl e \<Rightarrow> (case MapAuthenticationError e of (status, reason) \<Rightarrow> if status = 401 then bearerUnauthorized else bearerError status reason)
           | Inr session \<Rightarrow>
               if sb_UserID (bs_binding session) = [] \<or> sb_DeviceID (bs_binding session) = [] \<or> sb_SessionID (bs_binding session) = [] \<or>
                  bs_tokenID session = [] \<or> bs_expiresAt session = zeroTime then bearerError 503 ''AUTH_UNAVAILABLE''
               else writeSuccess session))"

definition Revoke_ServeHTTP :: "dbEnv \<Rightarrow> instant \<Rightarrow> httpRequest \<Rightarrow> authdb \<Rightarrow> httpResponse \<times> authdb" where
  "Revoke_ServeHTTP env clock r db =
     (if hq_EscapedPath r \<noteq> ''/api/v1/session/tokens/current'' then (bearerError 404 ''HTTP_ROUTE_NOT_FOUND'', db)
      else if hq_Method r \<noteq> ''DELETE'' then ((bearerError 405 ''HTTP_METHOD_NOT_ALLOWED'')\<lparr>hs_Header := (''Allow'', ''DELETE'') # commonHeaders\<rparr>, db)
      else if requestHasBody r then (bearerError 400 ''HTTP_BODY_NOT_ALLOWED'', db)
      else case ParseBearerHeader (headerValues r ''Authorization'') of
        None \<Rightarrow> (bearerUnauthorized, db)
      | Some token \<Rightarrow>
          (case RevokeBearer (Some (hq_Context r)) env clock token db of
             (Inl e, db') \<Rightarrow> (case mapRevocationError e of (status, reason) \<Rightarrow> (if status = 401 then bearerUnauthorized else bearerError status reason, db'))
           | (Inr outcome, db') \<Rightarrow>
               (\<lparr>hs_Status = 204, hs_Header = [(''Cache-Control'', ''no-store''), (''X-Content-Type-Options'', ''nosniff'')], hs_Body = []\<rparr>, db')))"

section \<open>Messages\<close>

definition messageError :: "int \<Rightarrow> bytes \<Rightarrow> bool \<Rightarrow> httpResponse" where
  "messageError status reason retry =
     \<lparr>hs_Status = status, hs_Header = commonHeaders @ (if retry then [(''Retry-After'', ''1'')] else []), hs_Body = errorText reason\<rparr>"

definition messageUnauthorized :: httpResponse where
  "messageUnauthorized = (messageError 401 ''AUTH_INVALID_TOKEN'' False)\<lparr>hs_Header := bearerChallenge # commonHeaders\<rparr>"

definition Message_validContentType :: "(bytes \<Rightarrow> (bytes \<times> (bytes \<times> bytes) list) option) \<Rightarrow> bytes list \<Rightarrow> bool" where
  "Message_validContentType parseMediaType values =
     (case values of
        [value] \<Rightarrow>
          (case parseMediaType value of
             None \<Rightarrow> False
           | Some (mediaType, params) \<Rightarrow>
               mediaType = ''application/json'' \<and> list_all (\<lambda>(name, value). EqualFold name ''charset'' \<and> EqualFold value ''utf-8'') params)
      | _ \<Rightarrow> False)"

definition validContentEncoding :: "bytes list \<Rightarrow> bool" where
  "validContentEncoding values =
     (case values of
        [] \<Rightarrow> True
      | [value] \<Rightarrow> TrimSpace value = [] \<or> EqualFold (TrimSpace value) ''identity''
      | _ \<Rightarrow> False)"

datatype bodyError = BodyTooLarge | BodyUnreadable

definition readBoundedBody :: "bytes \<times> bodyEnd \<Rightarrow> int \<Rightarrow> (bodyError, bytes) result" where
  "readBoundedBody body limit =
     (if limit < int (length (fst body)) then Inl BodyTooLarge
      else case snd body of EndOK \<Rightarrow> Inr (fst body) | EndTooLarge \<Rightarrow> Inl BodyTooLarge | EndError \<Rightarrow> Inl BodyUnreadable)"

definition mapProtocolError :: "wireError \<Rightarrow> int \<times> bytes" where
  "mapProtocolError e = (if e = Persisted TooLarge then (413, ''HTTP_BODY_TOO_LARGE'') else (400, ''SEND_INVALID_INPUT''))"

definition mapSendError :: "msgCode \<Rightarrow> int \<times> bytes \<times> bool" where
  "mapSendError e =
     (if dispositionFor e = RetrySameIntent then (503, ''SERVER_TEMPORARY_UNAVAILABLE'', True)
      else case e of
        SendInvalidInput \<Rightarrow> (400, ''SEND_INVALID_INPUT'', False)
      | SendUnauthorized \<Rightarrow> (403, ''SEND_UNAUTHORIZED'', False)
      | SendConversationMissing \<Rightarrow> (404, ''SEND_CONVERSATION_NOT_FOUND'', False)
      | SendIDConflict \<Rightarrow> (409, ''SEND_ID_CONFLICT'', False)
      | SendSequenceExhausted \<Rightarrow> (409, ''SEND_SEQUENCE_EXHAUSTED'', False)
      | _ \<Rightarrow> (500, ''SEND_UNKNOWN'', False))"

definition writeACK :: "ServerFrame \<Rightarrow> httpResponse" where
  "writeACK frame =
     (case EncodeServerFrame frame of
        Inl _ \<Rightarrow> messageError 500 ''SEND_UNKNOWN'' False
      | Inr body \<Rightarrow> \<lparr>hs_Status = 200, hs_Header = commonHeaders, hs_Body = body\<rparr>)"

text \<open>The checks before authentication, up to the body.\<close>

definition admitRequest :: "int \<Rightarrow> (bytes \<Rightarrow> (bytes \<times> (bytes \<times> bytes) list) option) \<Rightarrow> httpRequest \<Rightarrow> (httpResponse, bytes) result" where
  "admitRequest maxBodyBytes parseMediaType r =
     (if hq_EscapedPath r \<noteq> ''/api/v1/messages'' then Inl (messageError 404 ''HTTP_ROUTE_NOT_FOUND'' False)
      else if hq_Method r \<noteq> ''POST'' then Inl ((messageError 405 ''HTTP_METHOD_NOT_ALLOWED'' False)\<lparr>hs_Header := (''Allow'', ''POST'') # commonHeaders\<rparr>)
      else if hq_RawQuery r \<noteq> [] \<or> hq_ForceQuery r \<or> hq_Fragment r \<noteq> [] \<or> hq_RawFragment r \<noteq> [] then Inl (messageError 400 ''HTTP_INVALID_QUERY'' False)
      else if maxBodyBytes < hq_ContentLength r then Inl (messageError 413 ''HTTP_BODY_TOO_LARGE'' False)
      else if \<not> Message_validContentType parseMediaType (headerValues r ''Content-Type'') \<or> \<not> validContentEncoding (headerValues r ''Content-Encoding'')
      then Inl (messageError 415 ''HTTP_UNSUPPORTED_MEDIA_TYPE'' False)
      else case readBoundedBody (hq_Body r) maxBodyBytes of
        Inl BodyTooLarge \<Rightarrow> Inl (messageError 413 ''HTTP_BODY_TOO_LARGE'' False)
      | Inl BodyUnreadable \<Rightarrow> Inl (messageError 400 ''SEND_INVALID_INPUT'' False)
      | Inr body \<Rightarrow> Inr body)"

text \<open>Authentication of the request, to the identity the send runs under.\<close>

definition authenticateRequest :: "dbEnv \<Rightarrow> instant \<Rightarrow> authdb \<Rightarrow> httpRequest \<Rightarrow> (httpResponse, ConnectionIdentity) result" where
  "authenticateRequest env clock adb r =
     (case ParseBearerHeader (headerValues r ''Authorization'') of
        None \<Rightarrow> Inl messageUnauthorized
      | Some token \<Rightarrow>
          (case AuthenticateBearer (Some (hq_Context r)) env clock token adb of
             Inl e \<Rightarrow> Inl (if fst (MapAuthenticationError e) = 401 then messageUnauthorized else messageError 503 ''AUTH_UNAVAILABLE'' False)
           | Inr session \<Rightarrow>
               if bs_expiresAt session = zeroTime then Inl (messageError 503 ''AUTH_UNAVAILABLE'' False)
               else (case NewConnectionIdentity (sb_UserID (bs_binding session)) (sb_DeviceID (bs_binding session)) (sb_SessionID (bs_binding session))
                   (bs_tokenID session) (bs_tokenID session) of
                   Inl _ \<Rightarrow> Inl (messageError 503 ''AUTH_UNAVAILABLE'' False)
                 | Inr identity \<Rightarrow> Inr identity)))"

text \<open>What the handler runs on: the media type parser, the session store and clock, and the parts of the send service.\<close>

record 's messageIO =
  mi_parseMediaType :: "bytes \<Rightarrow> (bytes \<times> (bytes \<times> bytes) list) option"
  mi_authEnv :: dbEnv
  mi_clock :: instant
  mi_authdb :: authdb
  mi_tx :: txEnv
  mi_now :: instant
  mi_validator :: "mediaValidator option"
  mi_newID :: "'s \<Rightarrow> (msgCode, bytes) result \<times> 's"

definition Message_ServeHTTP :: "int \<Rightarrow> 's messageIO \<Rightarrow> httpRequest \<Rightarrow> 's \<Rightarrow> msgdb \<Rightarrow> msgdb \<Rightarrow> httpResponse \<times> 's \<times> msgdb" where
  "Message_ServeHTTP maxBodyBytes io r s db db1 =
     (case admitRequest maxBodyBytes (mi_parseMediaType io) r of
        Inl resp \<Rightarrow> (resp, s, db1)
      | Inr body \<Rightarrow>
          (case authenticateRequest (mi_authEnv io) (mi_clock io) (mi_authdb io) r of
             Inl resp \<Rightarrow> (resp, s, db1)
           | Inr identity \<Rightarrow>
               (case DecodeSend body of
                  Inl e \<Rightarrow> (case mapProtocolError e of (status, reason) \<Rightarrow> (messageError status reason False, s, db1))
                | Inr request \<Rightarrow>
                    if s_ProtocolVersion request \<noteq> 1 \<or> s_Version request \<noteq> 1 \<or> s_Type request \<noteq> ''text''
                    then (messageError 400 ''SEND_INVALID_INPUT'' False, s, db1)
                    else (case Service_Send (Some (hq_Context r)) (mi_tx io) (mi_now io) (mi_validator io) (mi_newID io) identity request s db db1 of
                        (Inl e, s', db2) \<Rightarrow> (case mapSendError e of (status, reason, retry) \<Rightarrow> (messageError status reason retry, s', db2))
                      | (Inr frame, s', db2) \<Rightarrow>
                          if f_Ack frame = None \<or> f_Error frame \<noteq> None \<or> f_Message frame \<noteq> None then (messageError 500 ''SEND_UNKNOWN'' False, s', db2)
                          else (case Correlate request (ci_userID identity) frame of
                              Panicked \<Rightarrow> (messageError 500 ''HTTP_INTERNAL_ERROR'' False, s', db2)
                            | Returned (Inl _) \<Rightarrow> (messageError 500 ''SEND_UNKNOWN'' False, s', db2)
                            | Returned (Inr _) \<Rightarrow> (writeACK frame, s', db2))))))"

section \<open>What the statuses mean\<close>

lemma errorStatus [simp]: "hs_Status (messageError status reason retry) = status" "hs_Status messageUnauthorized = 401"
  by (simp_all add: messageError_def messageUnauthorized_def)

lemma admitRequest_status: "admitRequest n parse r = Inl resp \<Longrightarrow> hs_Status resp \<in> {400, 404, 405, 413, 415}"
  by (auto simp: admitRequest_def split: if_splits sum.splits bodyError.splits)

lemma authenticateRequest_status: "authenticateRequest env clock adb r = Inl resp \<Longrightarrow> hs_Status resp \<in> {401, 503}"
  by (auto simp: authenticateRequest_def split: if_splits sum.splits option.splits)

lemma authenticateRequest_identity:
  assumes "authenticateRequest env clock adb r = Inr identity"
  obtains token session where "ParseBearerHeader (headerValues r ''Authorization'') = Some token"
    "AuthenticateBearer (Some (hq_Context r)) env clock token adb = Inr session" "ci_userID identity = sb_UserID (bs_binding session)"
  using assms by (auto simp: authenticateRequest_def NewConnectionIdentity_def split: if_splits sum.splits option.splits)

lemma mapSendError_status: "fst (mapSendError e) \<in> {400, 403, 404, 409, 500, 503}"
  by (cases e) (simp_all add: mapSendError_def dispositionFor_def)

lemma mapProtocolError_status: "fst (mapProtocolError e) \<in> {400, 413}"
  by (simp add: mapProtocolError_def)

text \<open>The path of an acknowledged request.\<close>

lemma Message_ServeHTTP_200:
  assumes "Message_ServeHTTP maxBodyBytes io r s db db1 = (resp, s', db2)" "hs_Status resp = 200"
  obtains body identity request frame where "admitRequest maxBodyBytes (mi_parseMediaType io) r = Inr body"
    "authenticateRequest (mi_authEnv io) (mi_clock io) (mi_authdb io) r = Inr identity" "DecodeSend body = Inr request" "s_Type request = ''text''"
    "Service_Send (Some (hq_Context r)) (mi_tx io) (mi_now io) (mi_validator io) (mi_newID io) identity request s db db1 = (Inr frame, s', db2)"
    "EncodeServerFrame frame = Inr (hs_Body resp)"
proof -
  have a: "admitRequest maxBodyBytes (mi_parseMediaType io) r \<noteq> Inl resp" using admitRequest_status assms(2) by fastforce
  have b: "authenticateRequest (mi_authEnv io) (mi_clock io) (mi_authdb io) r \<noteq> Inl resp" using authenticateRequest_status assms(2) by fastforce
  have p: "mapProtocolError e \<noteq> (200, x)" "mapSendError c \<noteq> (200, y)" for e c x y using mapProtocolError_status [of e] mapSendError_status [of c] by auto
  show thesis
    using assms a b p that
    by (auto simp: Message_ServeHTTP_def writeACK_def split: sum.splits prod.splits if_splits outcome.splits)
qed

section \<open>Acknowledged means stored\<close>

text \<open>
  A message the handler acknowledges is stored for the user of the presented token: a response with status 200 comes only for
  a well-formed request whose bearer token authenticates, the message is a row whose sender is the user that the session store
  binds the token to, with the intent of the decoded request, in a conversation this user is a member of, it survives any further
  sends, and the response body decodes to the acknowledgement of that row.
\<close>

lemma Message_ServeHTTP_stored:
  assumes "Message_ServeHTTP maxBodyBytes io r s db db1 = (resp, s', db2)" "hs_Status resp = 200"
    "set (db_messages db) \<subseteq> set (db_messages db1)" "msgInv db1" "send_step\<^sup>*\<^sup>* db2 db3"
  shows "\<exists>token session request row. ParseBearerHeader (headerValues r ''Authorization'') = Some token \<and>
    AuthenticateBearer (Some (hq_Context r)) (mi_authEnv io) (mi_clock io) token (mi_authdb io) = Inr session \<and>
    DecodeSend (fst (hq_Body r)) = Inr request \<and> snd (hq_Body r) = EndOK \<and> int (length (fst (hq_Body r))) \<le> maxBodyBytes \<and>
    (s_ConversationID request, sb_UserID (bs_binding session)) \<in> set (db_members db) \<and>
    row \<in> set (db_messages db3) \<and> sr_SenderID row = sb_UserID (bs_binding session) \<and> SameIntent (intent row) request = Inr True \<and>
    DecodeServerFrame (hs_Body resp) = Inr (trimFrame (noFrame\<lparr>f_Ack := Some (ackFor (persisted row))\<rparr>))"
proof -
  obtain body identity request frame where p: "admitRequest maxBodyBytes (mi_parseMediaType io) r = Inr body"
    "authenticateRequest (mi_authEnv io) (mi_clock io) (mi_authdb io) r = Inr identity" "DecodeSend body = Inr request"
    "Service_Send (Some (hq_Context r)) (mi_tx io) (mi_now io) (mi_validator io) (mi_newID io) identity request s db db1 = (Inr frame, s', db2)"
    "EncodeServerFrame frame = Inr (hs_Body resp)"
    by (rule Message_ServeHTTP_200 [OF assms(1,2)])
  have b: "body = fst (hq_Body r)" "int (length body) \<le> maxBodyBytes" "snd (hq_Body r) = EndOK"
    using p(1) by (auto simp: admitRequest_def readBoundedBody_def split: if_splits sum.splits bodyError.splits bodyEnd.splits)
  obtain token session where t: "ParseBearerHeader (headerValues r ''Authorization'') = Some token"
    "AuthenticateBearer (Some (hq_Context r)) (mi_authEnv io) (mi_clock io) token (mi_authdb io) = Inr session" "ci_userID identity = sb_UserID (bs_binding session)"
    by (rule authenticateRequest_identity [OF p(2)])
  obtain row where w: "row \<in> set (db_messages db2)" "frame = noFrame\<lparr>f_Ack := Some (ackFor (persisted row))\<rparr>" "SameIntent (intent row) request = Inr True"
    "sr_SenderID row = ci_userID identity" "(s_ConversationID request, ci_userID identity) \<in> set (db_members db)"
    using Service_Send_success [OF p(4) assms(3)] by metis
  have "msgInv db2" by (rule Service_Send_inv [OF p(4) assms(4)])
  then have "row \<in> set (db_messages db3)" using send_latch.latch_runs [OF assms(5)] w(1) by blast
  then show ?thesis using t b p(3) w frame_codec.dec_enc [OF p(5)] by auto
qed

definition httpAuthDb :: authdb where
  "httpAuthDb = \<lparr>db_sessions = [(''s1'', \<lparr>ss_user = ''u1'', ss_device = ''phone'', ss_revoked = None\<rparr>)],
     db_tokens = [(sampleTokenID, \<lparr>tk_digest = sha256 sampleRaw, tk_session = ''s1'', tk_created = 0, tk_expires = 60 * minute, tk_revoked = None\<rparr>)]\<rparr>"

definition httpIO :: "bytes messageIO" where
  "httpIO = \<lparr>mi_parseMediaType = (\<lambda>v. Some (v, [])), mi_authEnv = goodEnv, mi_clock = 1000, mi_authdb = httpAuthDb, mi_tx = goodTx, mi_now = 5000000,
     mi_validator = None, mi_newID = NewID\<rparr>"

definition httpSend :: "bytes \<Rightarrow> httpRequest" where
  "httpSend body = \<lparr>hq_EscapedPath = ''/api/v1/messages'', hq_Method = ''POST'', hq_RawQuery = [], hq_ForceQuery = False, hq_Fragment = [], hq_RawFragment = [],
     hq_ContentLength = -1, hq_TransferEncoding = [''chunked''], hq_Header = [(''Content-Type'', [''application/json'']), (''Authorization'', [''Bearer '' @ sampleRaw])],
     hq_Body = (body, EndOK), hq_Context = False\<rparr>"

lemma httpSession:
  "AuthenticateBearer (Some False) goodEnv 1000 sampleRaw httpAuthDb =
     Inr \<lparr>bs_binding = \<lparr>sb_UserID = ''u1'', sb_DeviceID = ''phone'', sb_SessionID = ''s1''\<rparr>, bs_tokenID = sampleTokenID, bs_expiresAt = 60 * minute\<rparr>"
proof -
  have "Binding_Valid \<lparr>sb_UserID = ''u1'', sb_DeviceID = ''phone'', sb_SessionID = ''s1''\<rparr>" unfolding Binding_Valid_def by code_simp
  then show ?thesis
    unfolding bearer_accepts_iff using sampleRaw_parses by (simp add: httpAuthDb_def inService_def readEnv_def goodEnv_def minute_def zeroTime_def)
qed

definition httpIdentity :: ConnectionIdentity where
  "httpIdentity = \<lparr>ci_userID = ''u1'', ci_deviceID = ''phone'', ci_sessionID = ''s1'', ci_connectionID = sampleTokenID, ci_tokenID = sampleTokenID\<rparr>"

lemma httpIdentity_ok:
  "NewConnectionIdentity ''u1'' ''phone'' ''s1'' sampleTokenID sampleTokenID = Inr httpIdentity" "validIdentity httpIdentity"
  by code_simp+

lemma httpSent:
  "Service_Send (Some False) goodTx 5000000 None NewID httpIdentity sampleSend sampleEntropy sampleMsgDb sampleMsgDb = (Inr sampleFrame, [], sampleAfter)"
proof -
  have u: "ci_userID httpIdentity = ci_userID sampleIdentity" by (simp add: httpIdentity_def sampleIdentity_def)
  have m: "validateMedia None httpIdentity sampleSend = validateMedia None sampleIdentity sampleSend" by (simp add: validateMedia_def sample_request)
  have "Service_Send (Some False) goodTx 5000000 None NewID httpIdentity sampleSend sampleEntropy sampleMsgDb sampleMsgDb =
    Service_Send (Some False) goodTx 5000000 None NewID sampleIdentity sampleSend sampleEntropy sampleMsgDb sampleMsgDb"
    unfolding Service_Send_def u m using httpIdentity_ok(2) sample_identity(1) by (simp only: simp_thms if_False)
  then show ?thesis using sample_sent [of Committed] by (simp add: goodTx_commit)
qed

lemma httpBearer: "ParseBearerHeader [''Bearer '' @ sampleRaw] = Some sampleRaw"
  by code_simp

lemma httpServed:
  obtains body resp where "Message_ServeHTTP (int MaxFrameBytes) httpIO (httpSend body) sampleEntropy sampleMsgDb sampleMsgDb = (resp, [], sampleAfter)" "hs_Status resp = 200"
    "int (length body) \<le> int MaxFrameBytes"
proof -
  have "(case EncodeSend sampleSend of Inl _ \<Rightarrow> False | Inr w \<Rightarrow> int (length w) \<le> 65536 \<and> DecodeSend w = Inr sampleSend)" by code_simp
  then obtain body where b: "int (length body) \<le> 65536" "DecodeSend body = Inr sampleSend" by (auto split: sum.splits)
  have a: "admitRequest (int MaxFrameBytes) (mi_parseMediaType httpIO) (httpSend body) = Inr body"
    using b(1) by (simp add: admitRequest_def httpSend_def httpIO_def headerValues_def Message_validContentType_def validContentEncoding_def readBoundedBody_def MaxFrameBytes_def)
  have h: "ParseBearerHeader (headerValues (httpSend body) ''Authorization'') = Some sampleRaw" using httpBearer by (simp add: headerValues_def httpSend_def)
  have "60 * minute \<noteq> zeroTime" by (simp add: minute_def zeroTime_def)
  then have i: "authenticateRequest goodEnv 1000 httpAuthDb (httpSend body) = Inr httpIdentity"
    unfolding authenticateRequest_def h using httpSession httpIdentity_ok(1) by (simp add: httpSend_def)
  have c: "Correlate sampleSend (ci_userID httpIdentity) sampleFrame = Returned (Inr ())" by code_simp
  have q: "s_ProtocolVersion sampleSend = 1" "s_Version sampleSend = 1" "s_Type sampleSend = ''text''" by (simp_all add: sampleSend_def)
  have f: "f_Ack sampleFrame = Some (ackFor (persisted sampleRow))" "f_Error sampleFrame = None" "f_Message sampleFrame = None" by (simp_all add: sampleFrame_def noFrame_def)
  have "Message_ServeHTTP (int MaxFrameBytes) httpIO (httpSend body) sampleEntropy sampleMsgDb sampleMsgDb = (writeACK sampleFrame, [], sampleAfter)"
    unfolding Message_ServeHTTP_def a using b(2) i httpSent c q f by (simp add: httpIO_def httpSend_def)
  moreover have "hs_Status (writeACK sampleFrame) = 200" using sample_frame_ok by (auto simp: writeACK_def is_ok_iff)
  moreover have "int (length body) \<le> int MaxFrameBytes" using b(1) by (simp add: MaxFrameBytes_def)
  ultimately show thesis using that by blast
qed

end
