(* ===== verification/ApiServer.thy ===== *)
theory ApiServer
  imports HttpBoundary
begin

text \<open>
  The HTTP server (\<^verbatim>\<open>server/api\<close>): its configuration, the exact routes, the handler both listeners share, and its metrics. Requests
  run concurrently, so that a request is two steps, entering and leaving, with anything in between.
\<close>

section \<open>Configuration\<close>

datatype apiCode = CodeInvalidArgument | CodeInvalidConfig | CodeAlreadyStarted | CodeBindFailed | CodeRuntimeFailed | CodeShutdownFailed
  | CodeBuildInfoUnavailable | CodeInvalidAuthConfig | CodeInvalidMessageConfig

record apiConfig =
  ac_APIAddr :: bytes
  ac_OpsAddr :: bytes
  ac_ServerVersion :: bytes

text \<open>\<^verbatim>\<open>net.SplitHostPort\<close>: the port starts after the last colon, and brackets enclose a host that has colons.\<close>

definition SplitHostPort :: "bytes \<Rightarrow> (bytes \<times> bytes) option" where
  "SplitHostPort hostport =
     (if CHR '':'' \<notin> set hostport then None
      else
        let port = rev (takeWhile (\<lambda>c. c \<noteq> CHR '':'') (rev hostport));
            front = take (length hostport - length port - 1) hostport in
        if take 1 hostport = ''['' then
          (let host = takeWhile (\<lambda>c. c \<noteq> CHR '']'') (drop 1 hostport) in
           if drop 1 front \<noteq> host @ '']'' \<or> CHR ''['' \<in> set (drop 1 hostport) \<or> CHR '']'' \<in> set port then None else Some (host, port))
        else if CHR '':'' \<in> set front \<or> CHR ''['' \<in> set hostport \<or> CHR '']'' \<in> set hostport then None
        else Some (front, port))"

definition validateAddr :: "bytes \<Rightarrow> bool" where
  "validateAddr value =
     (if TrimSpace value = [] then False
      else case SplitHostPort value of
        None \<Rightarrow> False
      | Some (host, port) \<Rightarrow>
          port \<noteq> [] \<and> \<not> ContainsAny host [CHR '' '', CHR 0x09, CHR 0x0A, CHR 0x0D] \<and> \<not> ContainsAny port [CHR '' '', CHR 0x09, CHR 0x0A, CHR 0x0D])"

definition apiConfig_Validate :: "apiConfig \<Rightarrow> (apiCode, unit) result" where
  "apiConfig_Validate c =
     (if \<not> validateAddr (ac_APIAddr c) then Inl CodeInvalidConfig
      else if \<not> validateAddr (ac_OpsAddr c) then Inl CodeInvalidConfig
      else if ac_APIAddr c = ac_OpsAddr c \<and> \<not> HasSuffix (ac_APIAddr c) '':0'' then Inl CodeInvalidConfig
      else if TrimSpace (ac_ServerVersion c) = [] then Inl CodeInvalidConfig
      else Inr ())"

section \<open>Routes\<close>

text \<open>
  What a handler did to its response writer: the headers it set before the status, the status if it wrote one, the body, and
  whether it panicked. A handler acts on the state behind the server.
\<close>

record handlerRun =
  hr_Header :: "(bytes \<times> bytes) list"
  hr_Status :: "int option"
  hr_Body :: bytes
  hr_Panicked :: bool

record 's APIRoute =
  ar_Name :: bytes
  ar_Path :: bytes
  ar_AllowedMethods :: "bytes list option"
  ar_MaxBodyBytes :: int
  ar_RejectQuery :: bool
  ar_Handler :: "(httpRequest \<Rightarrow> 's \<Rightarrow> handlerRun \<times> 's) option"

definition methodOrder :: "bytes list" where
  "methodOrder = [''GET'', ''POST'', ''DELETE'']"

definition methodRank :: "(bytes \<times> int) list" where
  "methodRank = [(''GET'', 0), (''POST'', 1), (''DELETE'', 2)]"

fun normalize_loop :: "int \<Rightarrow> bytes list \<Rightarrow> bytes list option" where
  "normalize_loop lastRank [] = Some []"
| "normalize_loop lastRank (m # ms) =
     (case map_of methodRank m of
        None \<Rightarrow> None
      | Some current \<Rightarrow> if current \<le> lastRank then None else map_option ((#) (methodOrder ! nat current)) (normalize_loop current ms))"

definition normalizeAllowedMethods :: "bytes list option \<Rightarrow> bytes list option" where
  "normalizeAllowedMethods methods =
     (case methods of None \<Rightarrow> Some [''GET''] | Some ms \<Rightarrow> if ms = [] then None else normalize_loop (-1) ms)"

definition isPostOnly :: "bytes list \<Rightarrow> bool" where
  "isPostOnly methods \<longleftrightarrow> length methods = 1 \<and> methods ! 0 = ''POST''"

definition allowsMethod :: "bytes list option \<Rightarrow> bytes \<Rightarrow> bool" where
  "allowsMethod methods m = (case methods of None \<Rightarrow> False | Some ms \<Rightarrow> list_ex (\<lambda>a. a = m) ms)"

definition validRouteName :: "bytes \<Rightarrow> bool" where
  "validRouteName value =
     (if length value = 0 \<or> 32 < length value \<or> hd value < CHR ''a'' \<or> CHR ''z'' < hd value then False
      else list_all (\<lambda>c. (CHR ''a'' \<le> c \<and> c \<le> CHR ''z'') \<or> is_digit c \<or> c = CHR ''_'') (tl value))"

definition validRoutePath :: "bytes \<Rightarrow> bool" where
  "validRoutePath value =
     (if \<not> HasPrefix value ''/api/v1/'' \<or> 128 < length value \<or> HasSuffix value ''/'' \<or> ContainsAny value [CHR ''?'', CHR ''#'', CHR 0x5C] then False
      else list_all (\<lambda>part. part \<noteq> ''..'') (splitAt (CHR ''/'') value))"

fun routes_loop :: "'s APIRoute list \<Rightarrow> (bytes \<times> 's APIRoute) list \<Rightarrow> (apiCode, (bytes \<times> 's APIRoute) list) result" where
  "routes_loop [] acc = Inr acc"
| "routes_loop (route # routes) acc =
     (if \<not> validRouteName (ar_Name route) \<or> \<not> validRoutePath (ar_Path route) \<or> ar_Handler route = None then Inl CodeInvalidConfig
      else case normalizeAllowedMethods (ar_AllowedMethods route) of
        None \<Rightarrow> Inl CodeInvalidConfig
      | Some methods \<Rightarrow>
          if ar_MaxBodyBytes route < 0 \<or> (0 < ar_MaxBodyBytes route \<and> \<not> isPostOnly methods) \<or> (ar_RejectQuery route \<and> \<not> isPostOnly methods)
          then Inl CodeInvalidConfig
          else if map_of acc (ar_Path route) \<noteq> None then Inl CodeInvalidConfig
          else routes_loop routes (AList.update (ar_Path route) (route\<lparr>ar_AllowedMethods := Some methods\<rparr>) acc))"

definition validateAPIRoutes :: "'s APIRoute list \<Rightarrow> (apiCode, (bytes \<times> 's APIRoute) list) result" where
  "validateAPIRoutes routes = (if 8 < length routes then Inl CodeInvalidConfig else routes_loop routes [])"

section \<open>Metrics\<close>

type_synonym metricKey = "bytes \<times> bytes \<times> bytes"

record metrics =
  me_serverVersion :: bytes
  me_inFlight :: "(metricKey \<times> int) list"
  me_counts :: "((metricKey \<times> bytes) \<times> u64) list"
  me_durationSum :: "(metricKey \<times> int) list"
  me_durationCount :: "(metricKey \<times> u64) list"

definition newMetrics :: "bytes \<Rightarrow> metrics" where
  "newMetrics version = \<lparr>me_serverVersion = version, me_inFlight = [], me_counts = [], me_durationSum = [], me_durationCount = []\<rparr>"

text \<open>Reading a Go map gives zero for an absent key.\<close>

definition valueAt :: "('k \<times> 'v::zero) list \<Rightarrow> 'k \<Rightarrow> 'v" where
  "valueAt m k = (case map_of m k of None \<Rightarrow> 0 | Some v \<Rightarrow> v)"

definition metrics_begin :: "metricKey \<Rightarrow> metrics \<Rightarrow> metrics" where
  "metrics_begin key m = m\<lparr>me_inFlight := AList.update key (valueAt (me_inFlight m) key + 1) (me_inFlight m)\<rparr>"

definition statusText :: "int \<Rightarrow> bytes" where
  "statusText status =
     (let t = fmt_nat (nat \<bar>status\<bar>) in if 0 \<le> status then replicate (3 - length t) (CHR ''0'') @ t else CHR ''-'' # replicate (2 - length t) (CHR ''0'') @ t)"

definition metrics_end :: "metricKey \<Rightarrow> int \<Rightarrow> int \<Rightarrow> metrics \<Rightarrow> metrics" where
  "metrics_end key status elapsed m =
     m\<lparr>me_inFlight := (if 0 < valueAt (me_inFlight m) key then AList.update key (valueAt (me_inFlight m) key - 1) (me_inFlight m) else me_inFlight m),
       me_durationSum := AList.update key (wrap64 (valueAt (me_durationSum m) key + elapsed)) (me_durationSum m),
       me_durationCount := AList.update key (valueAt (me_durationCount m) key + 1) (me_durationCount m),
       me_counts := AList.update (key, statusText status) (valueAt (me_counts m) (key, statusText status) + 1) (me_counts m)\<rparr>"

text \<open>The exposition; how floats print is a parameter (\<open>startText\<close>, \<open>secondsText\<close>).\<close>

definition replaceByte :: "char \<Rightarrow> bytes \<Rightarrow> bytes \<Rightarrow> bytes" where
  "replaceByte c w s = concat (map (\<lambda>x. if x = c then w else [x]) s)"

definition escapeLabel :: "bytes \<Rightarrow> bytes" where
  "escapeLabel value = replaceByte dquote [CHR 0x5C, dquote] (replaceByte (CHR 0x0A) [CHR 0x5C, CHR ''n''] (replaceByte (CHR 0x5C) [CHR 0x5C, CHR 0x5C] value))"

definition quoteLabel :: "bytes \<Rightarrow> bytes" where
  "quoteLabel value = dquote # escapeLabel value @ [dquote]"

fun metricKeyString :: "metricKey \<Rightarrow> bytes" where
  "metricKeyString (listener, route, m) = listener @ CHR 0x00 # route @ CHR 0x00 # m"

fun totalKeyString :: "metricKey \<times> bytes \<Rightarrow> bytes" where
  "totalKeyString (key, status) = metricKeyString key @ CHR 0x00 # status"

definition aggregated :: "(metricKey \<times> int) list \<Rightarrow> (metricKey \<times> int) list" where
  "aggregated inFlight = foldl (\<lambda>ag ((listener, route, _), n). AList.update (listener, route, []) (valueAt ag (listener, route, []) + n) ag) [] inFlight"

definition writeInflight :: "metrics \<Rightarrow> bytes" where
  "writeInflight m =
     (let ag = aggregated (me_inFlight m) in
      concat (map (\<lambda>(listener, route, x). if valueAt ag (listener, route, x) = 0 then []
        else ''newim_http_requests_in_flight{listener='' @ quoteLabel listener @ '',route='' @ quoteLabel route @ ''} '' @ fmt_int (valueAt ag (listener, route, x)) @ [CHR 0x0A])
        (sort_key metricKeyString (map fst ag))))"

definition writeDurations :: "(int \<Rightarrow> bytes) \<Rightarrow> metrics \<Rightarrow> bytes" where
  "writeDurations secondsText m =
     concat (map (\<lambda>(listener, route, me).
        let labels = ''{listener='' @ quoteLabel listener @ '',route='' @ quoteLabel route @ '',method='' @ quoteLabel me @ ''} '' in
        ''newim_http_request_duration_seconds_sum'' @ labels @ secondsText (valueAt (me_durationSum m) (listener, route, me)) @ [CHR 0x0A] @
        ''newim_http_request_duration_seconds_count'' @ labels @ fmt_nat (unat (valueAt (me_durationCount m) (listener, route, me))) @ [CHR 0x0A])
        (sort_key metricKeyString (map fst (me_durationCount m))))"

definition writeCounts :: "metrics \<Rightarrow> bytes" where
  "writeCounts m =
     concat (map (\<lambda>((listener, route, me), status).
        ''newim_http_requests_total{listener='' @ quoteLabel listener @ '',route='' @ quoteLabel route @ '',method='' @ quoteLabel me @ '',status='' @ quoteLabel status @ ''} '' @
        fmt_nat (unat (valueAt (me_counts m) ((listener, route, me), status))) @ [CHR 0x0A])
        (sort_key totalKeyString (map fst (me_counts m))))"

definition writeTo :: "bytes \<times> (int \<Rightarrow> bytes) \<Rightarrow> metrics \<Rightarrow> bytes" where
  "writeTo floats m =
     ''newim_server_info{server_version='' @ dquote # escapeLabel (me_serverVersion m) @ dquote # ''} 1'' @ [CHR 0x0A] @
     ''newim_process_start_time_seconds '' @ fst floats @ [CHR 0x0A] @ writeInflight m @ writeDurations (snd floats) m @ writeCounts m"

section \<open>The server\<close>

record 's Server =
  sv_ready :: bool
  sv_draining :: bool
  sv_observed :: bool
  sv_metrics :: metrics
  sv_apiRoutes :: "(bytes \<times> 's APIRoute) list"
  sv_world :: 's

definition NewWithRoutes :: "apiConfig \<Rightarrow> 's APIRoute list \<Rightarrow> 's \<Rightarrow> (apiCode, 's Server) result" where
  "NewWithRoutes cfg routes world =
     bindR (apiConfig_Validate cfg) (\<lambda>_. bindR (validateAPIRoutes routes) (\<lambda>routeMap.
       Inr \<lparr>sv_ready = False, sv_draining = False, sv_observed = False, sv_metrics = newMetrics (ac_ServerVersion cfg), sv_apiRoutes = routeMap, sv_world = world\<rparr>))"

definition builtin :: "bytes \<Rightarrow> bytes \<Rightarrow> 's APIRoute" where
  "builtin name path = \<lparr>ar_Name = name, ar_Path = path, ar_AllowedMethods = Some [''GET''], ar_MaxBodyBytes = 0, ar_RejectQuery = False, ar_Handler = None\<rparr>"

definition resolveRoute :: "'s Server \<Rightarrow> bytes \<Rightarrow> bytes \<Rightarrow> 's APIRoute option" where
  "resolveRoute s listener path =
     (if listener = ''api'' then (if path = ''/api/v1/health'' then Some (builtin ''health'' path) else map_of (sv_apiRoutes s) path)
      else if listener = ''ops'' then
        (if path = ''/ready'' then Some (builtin ''ready'' path) else if path = ''/metrics'' then Some (builtin ''metrics'' path) else None)
      else None)"

definition normalizeMethod :: "bytes \<Rightarrow> bytes" where
  "normalizeMethod m = (if m \<in> {''GET'', ''HEAD'', ''POST'', ''PUT'', ''PATCH'', ''DELETE'', ''OPTIONS''} then m else ''OTHER'')"

definition setHeaders :: "(bytes \<times> bytes) list \<Rightarrow> (bytes \<times> bytes) list \<Rightarrow> (bytes \<times> bytes) list" where
  "setHeaders hs headers = foldl (\<lambda>acc (k, v). AList.update k v acc) headers hs"

definition baseHeaders :: "(bytes \<times> bytes) list" where
  "baseHeaders = [(''Cache-Control'', ''no-store''), (''X-Content-Type-Options'', ''nosniff'')]"

definition writeJSON :: "(bytes \<times> bytes) list \<Rightarrow> int \<Rightarrow> bytes \<Rightarrow> httpResponse" where
  "writeJSON headers status body =
     \<lparr>hs_Status = status, hs_Header = setHeaders [(''Content-Type'', ''application/json; charset=utf-8'')] headers, hs_Body = body\<rparr>"

definition apiError :: "(bytes \<times> bytes) list \<Rightarrow> int \<Rightarrow> bytes \<Rightarrow> httpResponse" where
  "apiError headers status reason = writeJSON headers status (errorText reason)"

fun joinComma :: "bytes list \<Rightarrow> bytes" where
  "joinComma [] = []"
| "joinComma [x] = x"
| "joinComma (x # y # ys) = x @ '', '' @ joinComma (y # ys)"

text \<open>What is refused before any handler runs.\<close>

definition admit :: "'s APIRoute option \<Rightarrow> httpRequest \<Rightarrow> (httpResponse, 's APIRoute) result" where
  "admit found r =
     (case found of
        None \<Rightarrow> Inl (apiError baseHeaders 404 ''HTTP_ROUTE_NOT_FOUND'')
      | Some route \<Rightarrow>
          if \<not> allowsMethod (ar_AllowedMethods route) (hq_Method r)
          then Inl (apiError (setHeaders [(''Allow'', joinComma (case ar_AllowedMethods route of None \<Rightarrow> [] | Some ms \<Rightarrow> ms))] baseHeaders) 405 ''HTTP_METHOD_NOT_ALLOWED'')
          else if ar_RejectQuery route \<and> (hq_RawQuery r \<noteq> [] \<or> hq_ForceQuery r) then Inl (apiError baseHeaders 400 ''HTTP_INVALID_QUERY'')
          else if ar_MaxBodyBytes route = 0 \<and> requestHasBody r then Inl (apiError baseHeaders 400 ''HTTP_BODY_NOT_ALLOWED'')
          else if ar_MaxBodyBytes route \<noteq> 0 \<and> 0 \<le> hq_ContentLength r \<and> hq_TransferEncoding r = [] \<and> ar_MaxBodyBytes route < hq_ContentLength r
          then Inl (apiError baseHeaders 413 ''HTTP_BODY_TOO_LARGE'')
          else Inr route)"

text \<open>\<^verbatim>\<open>http.MaxBytesReader\<close>: at most the limit is read, and reading more is the error that says so.\<close>

definition limitBody :: "int \<Rightarrow> httpRequest \<Rightarrow> httpRequest" where
  "limitBody limit r =
     (if 0 < limit \<and> limit < int (length (fst (hq_Body r))) then r\<lparr>hq_Body := (take (nat limit) (fst (hq_Body r)), EndTooLarge)\<rparr> else r)"

definition recoverRequest :: "handlerRun \<Rightarrow> httpResponse" where
  "recoverRequest run =
     (let headers = setHeaders (hr_Header run) baseHeaders in
      case hr_Status run of
        None \<Rightarrow> if hr_Panicked run then apiError headers 500 ''HTTP_INTERNAL_ERROR'' else \<lparr>hs_Status = 200, hs_Header = headers, hs_Body = hr_Body run\<rparr>
      | Some status \<Rightarrow> \<lparr>hs_Status = status, hs_Header = headers, hs_Body = hr_Body run\<rparr>)"

definition runRoute :: "bytes \<times> (int \<Rightarrow> bytes) \<Rightarrow> 's APIRoute \<Rightarrow> httpRequest \<Rightarrow> 's Server \<Rightarrow> httpResponse \<times> 's Server" where
  "runRoute floats route r s =
     (case ar_Handler route of
        Some handler \<Rightarrow> (case handler (limitBody (ar_MaxBodyBytes route) r) (sv_world s) of (run, world) \<Rightarrow> (recoverRequest run, s\<lparr>sv_world := world\<rparr>))
      | None \<Rightarrow>
          if ar_Name route = ''health'' then (writeJSON baseHeaders 200 (object_text [(''status'', quote_string True ''ok'')] @ [CHR 0x0A]), s)
          else if ar_Name route = ''ready'' then
            (if \<not> sv_ready s then (apiError baseHeaders 503 ''SERVER_NOT_READY'', if sv_draining s then s\<lparr>sv_observed := True\<rparr> else s)
             else (writeJSON baseHeaders 200 (object_text [(''status'', quote_string True ''ready'')] @ [CHR 0x0A]), s))
          else if ar_Name route = ''metrics'' then
            (\<lparr>hs_Status = 200, hs_Header = setHeaders [(''Content-Type'', ''text/plain; version=0.0.4; charset=utf-8'')] baseHeaders, hs_Body = writeTo floats (sv_metrics s)\<rparr>, s)
          else (\<lparr>hs_Status = 200, hs_Header = baseHeaders, hs_Body = []\<rparr>, s))"

definition requestKey :: "'s Server \<Rightarrow> bytes \<Rightarrow> httpRequest \<Rightarrow> metricKey" where
  "requestKey s listener r =
     (listener, (case resolveRoute s listener (hq_EscapedPath r) of None \<Rightarrow> ''unmatched'' | Some route \<Rightarrow> ar_Name route), normalizeMethod (hq_Method r))"

text \<open>A request enters with \<^verbatim>\<open>begin\<close>, is refused or runs, and leaves with \<^verbatim>\<open>end\<close>.\<close>

definition enter :: "bytes \<Rightarrow> httpRequest \<Rightarrow> 's Server \<Rightarrow> 's Server" where
  "enter listener r s = s\<lparr>sv_metrics := metrics_begin (requestKey s listener r) (sv_metrics s)\<rparr>"

definition leave :: "bytes \<times> (int \<Rightarrow> bytes) \<Rightarrow> int \<Rightarrow> bytes \<Rightarrow> httpRequest \<Rightarrow> 's Server \<Rightarrow> httpResponse \<times> 's Server" where
  "leave floats elapsed listener r s =
     (let (resp, s1) = (case admit (resolveRoute s listener (hq_EscapedPath r)) r of Inl resp \<Rightarrow> (resp, s) | Inr route \<Rightarrow> runRoute floats route r s)
      in (resp, s1\<lparr>sv_metrics := metrics_end (requestKey s listener r) (hs_Status resp) elapsed (sv_metrics s1)\<rparr>))"

definition makeHandler :: "bytes \<times> (int \<Rightarrow> bytes) \<Rightarrow> int \<Rightarrow> ('s Server \<Rightarrow> 's Server) \<Rightarrow> bytes \<Rightarrow> httpRequest \<Rightarrow> 's Server \<Rightarrow> httpResponse \<times> 's Server" where
  "makeHandler floats elapsed during listener r s = leave floats elapsed listener r (during (enter listener r s))"

end
