(* ===== verification/ApiFacts.thy ===== *)
theory ApiFacts
  imports ApiServer
begin

text \<open>What the API server guarantees to the handlers of its routes, and that its metrics are exact, under any interleaving of requests.\<close>

section \<open>Routes\<close>

lemma routes_loop_keeps:
  assumes "routes_loop routes acc = Inr m" "\<And>p x. map_of acc p = Some x \<Longrightarrow> P p x"
    "\<And>route methods. route \<in> set routes \<Longrightarrow> validRoutePath (ar_Path route) \<Longrightarrow> ar_Handler route \<noteq> None \<Longrightarrow> 0 \<le> ar_MaxBodyBytes route \<Longrightarrow>
      normalizeAllowedMethods (ar_AllowedMethods route) = Some methods \<Longrightarrow>
      P (ar_Path route) (route\<lparr>ar_AllowedMethods := Some methods\<rparr>)"
    "map_of m path = Some x"
  shows "P path x"
  using assms
proof (induction routes acc rule: routes_loop.induct)
  case (2 route routes acc)
  obtain methods where n: "normalizeAllowedMethods (ar_AllowedMethods route) = Some methods" "validRoutePath (ar_Path route)" "ar_Handler route \<noteq> None"
    and m: "routes_loop routes (AList.update (ar_Path route) (route\<lparr>ar_AllowedMethods := Some methods\<rparr>) acc) = Inr m"
    and g: "\<not> (\<not> validRouteName (ar_Name route) \<or> \<not> validRoutePath (ar_Path route) \<or> ar_Handler route = None)"
      "\<not> (ar_MaxBodyBytes route < 0 \<or> (0 < ar_MaxBodyBytes route \<and> \<not> isPostOnly methods) \<or> (ar_RejectQuery route \<and> \<not> isPostOnly methods))"
      "\<not> map_of acc (ar_Path route) \<noteq> None"
    using "2.prems"(1) by (auto split: if_splits option.splits)
  have "P p y" if "map_of (AList.update (ar_Path route) (route\<lparr>ar_AllowedMethods := Some methods\<rparr>) acc) p = Some y" for p y
    using that "2.prems"(2,3) n g(2) by (auto simp: update_conv' split: if_splits)
  then show ?case using "2.IH" [OF g(1) n(1) g(2,3) m] "2.prems"(3,4) by simp
qed simp

lemma routes_registered:
  assumes "validateAPIRoutes routes = Inr m" "map_of m path = Some x"
  shows "\<exists>route\<in>set routes. \<exists>methods. ar_Path route = path \<and> 0 \<le> ar_MaxBodyBytes route \<and> normalizeAllowedMethods (ar_AllowedMethods route) = Some methods \<and>
    x = route\<lparr>ar_AllowedMethods := Some methods\<rparr>"
proof -
  have l: "routes_loop routes [] = Inr m" using assms(1) by (simp add: validateAPIRoutes_def split: if_splits)
  show ?thesis by (rule routes_loop_keeps [OF l _ _ assms(2)]) auto
qed

section \<open>Requests as steps\<close>

text \<open>The server, the requests inside it, and those that left, with their responses.\<close>

type_synonym 's apiRun = "'s Server \<times> (bytes \<times> httpRequest) list \<times> (bytes \<times> httpRequest \<times> httpResponse) list"

inductive api_step :: "bytes \<times> (int \<Rightarrow> bytes) \<Rightarrow> 's apiRun \<Rightarrow> 's apiRun \<Rightarrow> bool" for floats where
  api_enter: "api_step floats (s, running, left) (enter listener r s, (listener, r) # running, left)"
| api_leave: "leave floats elapsed listener r s = (resp, s') \<Longrightarrow>
    api_step floats (s, before @ (listener, r) # after, left) (s', before @ after, (listener, r, resp) # left)"
| api_state: "api_step floats (s, running, left) (s\<lparr>sv_ready := ready, sv_draining := draining\<rparr>, running, left)"
| api_world: "api_step floats (s, running, left) (s\<lparr>sv_world := world\<rparr>, running, left)"

lemma requestKey_routes: "sv_apiRoutes s = sv_apiRoutes s' \<Longrightarrow> requestKey s listener r = requestKey s' listener r"
  by (simp add: requestKey_def resolveRoute_def)

lemma requestKey_state:
  "requestKey (s\<lparr>sv_ready := ready, sv_draining := draining\<rparr>) = requestKey s" "requestKey (s\<lparr>sv_world := world\<rparr>) = requestKey s"
  by (intro ext, rule requestKey_routes, simp)+

lemma runRoute_keeps: "runRoute floats route r s = (resp, s') \<Longrightarrow> sv_apiRoutes s' = sv_apiRoutes s \<and> sv_metrics s' = sv_metrics s"
  by (auto simp: runRoute_def split: option.splits prod.splits if_splits)

lemma leave_keeps:
  assumes "leave floats elapsed listener r s = (resp, s')"
  shows "sv_apiRoutes s' = sv_apiRoutes s \<and> sv_metrics s' = metrics_end (requestKey s listener r) (hs_Status resp) elapsed (sv_metrics s)"
  using assms by (auto simp: leave_def Let_def dest!: runRoute_keeps split: prod.splits sum.splits)

section \<open>The metrics\<close>

lemma valueAt_update: "valueAt (AList.update k v m) k' = (if k' = k then v else valueAt m k')"
  by (simp add: valueAt_def update_conv')

definition metricsInv :: "'s apiRun \<Rightarrow> bool" where
  "metricsInv run = (case run of (s, running, left) \<Rightarrow>
     (\<forall>key. valueAt (me_inFlight (sv_metrics s)) key = int (length (filter (\<lambda>(l, r). requestKey s l r = key) running))) \<and>
     (\<forall>key. valueAt (me_durationCount (sv_metrics s)) key = of_nat (length (filter (\<lambda>(l, r, _). requestKey s l r = key) left))) \<and>
     (\<forall>key status. valueAt (me_counts (sv_metrics s)) (key, status) =
        of_nat (length (filter (\<lambda>(l, r, resp). requestKey s l r = key \<and> statusText (hs_Status resp) = status) left))))"

lemma metrics_step:
  assumes "api_step floats a b" "metricsInv a"
  shows "metricsInv b"
  using assms
proof (induction rule: api_step.induct)
  case (api_enter s running left listener r)
  have k: "requestKey (enter listener r s) l q = requestKey s l q" for l q by (rule requestKey_routes) (simp add: enter_def)
  have m: "sv_metrics (enter listener r s) = metrics_begin (requestKey s listener r) (sv_metrics s)" by (simp add: enter_def)
  show ?case using api_enter by (auto simp: metricsInv_def k m metrics_begin_def valueAt_update simp del: split_paired_All)
next
  case (api_leave elapsed listener r s resp s' before after left)
  note keeps = leave_keeps [OF api_leave(1)]
  have k: "requestKey s' l q = requestKey s l q" for l q by (rule requestKey_routes) (simp add: keeps)
  have "0 < valueAt (me_inFlight (sv_metrics s)) (requestKey s listener r)" using api_leave(2) by (simp add: metricsInv_def del: split_paired_All)
  then show ?case using api_leave(2) by (auto simp: metricsInv_def k keeps metrics_end_def valueAt_update simp del: split_paired_All)
qed (auto simp: metricsInv_def requestKey_state simp del: split_paired_All)

interpretation api_runs: store_runs "api_step floats" metricsInv
  by unfold_locales (rule metrics_step)

text \<open>
  The metrics are exact under any interleaving of requests: the gauge is the number of requests inside the server with
  that listener, route and method, and the counters, modulo their 64 bits, are the numbers of those that left.
\<close>

theorem api_metrics_exact:
  assumes "NewWithRoutes cfg routes world = Inr s0" "(api_step floats)\<^sup>*\<^sup>* (s0, [], []) (s, running, left)"
  shows "valueAt (me_inFlight (sv_metrics s)) key = int (length (filter (\<lambda>(l, r). requestKey s l r = key) running)) \<and>
    unat (valueAt (me_counts (sv_metrics s)) (key, status)) =
      length (filter (\<lambda>(l, r, resp). requestKey s l r = key \<and> statusText (hs_Status resp) = status) left) mod 2 ^ 64"
proof -
  have "metricsInv (s0, [], [])" using assms(1) by (auto simp: NewWithRoutes_def bindR_eq_Inr newMetrics_def metricsInv_def valueAt_def)
  from api_runs.inv_runs [OF assms(2) this] show ?thesis by (cases key) (simp add: metricsInv_def unat_of_nat)
qed

section \<open>Handlers\<close>

lemma api_routes_fixed: "api_step floats a b \<Longrightarrow> sv_apiRoutes (fst b) = sv_apiRoutes (fst a)"
  by (induction rule: api_step.induct) (auto simp: enter_def dest!: leave_keeps)

lemma routes_fixed_run:
  assumes "NewWithRoutes cfg routes world = Inr s0" "(api_step floats)\<^sup>*\<^sup>* (s0, [], []) (s, running, left)"
  obtains m where "validateAPIRoutes routes = Inr m" "sv_apiRoutes s = m"
proof -
  obtain m where m: "validateAPIRoutes routes = Inr m" "sv_apiRoutes s0 = m" using assms(1) by (auto simp: NewWithRoutes_def bindR_eq_Inr)
  have "sv_apiRoutes (fst (s, running, left)) = m" using assms(2) m(2) by (induction rule: rtranclp_induct) (auto dest!: api_routes_fixed)
  then show thesis using that m(1) by simp
qed

lemma limitBody_length: "0 < n \<Longrightarrow> int (length (fst (hq_Body (limitBody n r)))) \<le> n"
  by (simp add: limitBody_def)

lemma leave_world:
  assumes "leave floats elapsed listener r s = (resp, s')" "sv_world s' \<noteq> sv_world s"
  obtains route handler run where "listener = ''api''" "map_of (sv_apiRoutes s) (hq_EscapedPath r) = Some route" "admit (Some route) r = Inr route"
    "ar_Handler route = Some handler" "handler (limitBody (ar_MaxBodyBytes route) r) (sv_world s) = (run, sv_world s')" "resp = recoverRequest run"
proof -
  let ?found = "resolveRoute s listener (hq_EscapedPath r)"
  obtain route where a: "admit ?found r = Inr route" using assms by (auto simp: leave_def Let_def split: sum.splits)
  then have f: "?found = Some route" by (auto simp: admit_def split: option.splits if_splits)
  obtain s1 where s1: "runRoute floats route r s = (resp, s1)" "sv_world s1 = sv_world s'"
    using assms(1) a by (auto simp: leave_def Let_def split: prod.splits)
  obtain handler where h: "ar_Handler route = Some handler"
    using s1 assms(2) by (cases "ar_Handler route") (auto simp: runRoute_def split: if_splits)
  have "listener = ''api''" "map_of (sv_apiRoutes s) (hq_EscapedPath r) = Some route"
    using f h by (auto simp: resolveRoute_def builtin_def split: if_splits)
  moreover obtain run where "handler (limitBody (ar_MaxBodyBytes route) r) (sv_world s) = (run, sv_world s')" "resp = recoverRequest run"
    using s1 by (auto simp: runRoute_def h split: prod.splits)
  ultimately show thesis using that a f h by metis
qed

text \<open>
  C20. A request changes the state behind the server only through the handler of a configured route: on the API listener, at
  exactly its path, with a method it allows, with no query where the route rejects one; a route without a body limit gets no
  body, and the handler of a route with one can read no more than the limit, whatever length the request declared.
\<close>

theorem api_handler_guarded:
  assumes "NewWithRoutes cfg routes world = Inr s0" "(api_step floats)\<^sup>*\<^sup>* (s0, [], []) (s, running, left)"
    "leave floats elapsed listener r s = (resp, s')" "sv_world s' \<noteq> sv_world s"
  shows "listener = ''api'' \<and> (\<exists>route\<in>set routes. \<exists>methods handler run r'. ar_Path route = hq_EscapedPath r \<and>
    normalizeAllowedMethods (ar_AllowedMethods route) = Some methods \<and> hq_Method r \<in> set methods \<and>
    (ar_RejectQuery route \<longrightarrow> hq_RawQuery r = [] \<and> \<not> hq_ForceQuery r) \<and>
    ar_Handler route = Some handler \<and> handler r' (sv_world s) = (run, sv_world s') \<and> resp = recoverRequest run \<and> r' = r\<lparr>hq_Body := hq_Body r'\<rparr> \<and>
    (if ar_MaxBodyBytes route = 0 then r' = r \<and> \<not> requestHasBody r else int (length (fst (hq_Body r'))) \<le> ar_MaxBodyBytes route))"
proof -
  obtain m where m: "validateAPIRoutes routes = Inr m" "sv_apiRoutes s = m" using routes_fixed_run [OF assms(1,2)] by blast
  obtain x handler run where x: "listener = ''api''" "map_of m (hq_EscapedPath r) = Some x" "admit (Some x) r = Inr x" "ar_Handler x = Some handler"
    "handler (limitBody (ar_MaxBodyBytes x) r) (sv_world s) = (run, sv_world s')" "resp = recoverRequest run"
    using leave_world [OF assms(3,4)] m(2) by blast
  obtain route methods where r: "route \<in> set routes" "ar_Path route = hq_EscapedPath r" "0 \<le> ar_MaxBodyBytes route" "normalizeAllowedMethods (ar_AllowedMethods route) = Some methods"
    "x = route\<lparr>ar_AllowedMethods := Some methods\<rparr>" using routes_registered [OF m(1) x(2)] by blast
  let ?r' = "limitBody (ar_MaxBodyBytes route) r"
  have "?r' = r\<lparr>hq_Body := hq_Body ?r'\<rparr>" by (simp add: limitBody_def)
  moreover have "if ar_MaxBodyBytes route = 0 then ?r' = r \<and> \<not> requestHasBody r else int (length (fst (hq_Body ?r'))) \<le> ar_MaxBodyBytes route"
    using x(3) r(3) limitBody_length [of "ar_MaxBodyBytes route" r] by (auto simp: r(5) admit_def limitBody_def split: if_splits)
  moreover have "hq_Method r \<in> set methods" "ar_RejectQuery route \<longrightarrow> hq_RawQuery r = [] \<and> \<not> hq_ForceQuery r"
    using x(3) by (auto simp: r(5) admit_def allowsMethod_def list_ex_iff split: if_splits)
  moreover have "ar_Handler route = Some handler" "handler ?r' (sv_world s) = (run, sv_world s')" using x(4,5) by (simp_all add: r(5))
  ultimately show ?thesis using x(1,6) r(1,2,4) by blast
qed

definition sampleConfig :: apiConfig where
  "sampleConfig = \<lparr>ac_APIAddr = ''127.0.0.1:8080'', ac_OpsAddr = ''[::1]:9090'', ac_ServerVersion = ''1.0''\<rparr>"

definition countRoute :: "nat APIRoute" where
  "countRoute = \<lparr>ar_Name = ''count'', ar_Path = ''/api/v1/count'', ar_AllowedMethods = Some [''POST''], ar_MaxBodyBytes = 3, ar_RejectQuery = True,
     ar_Handler = Some (\<lambda>r n. (\<lparr>hr_Header = [], hr_Status = None, hr_Body = [], hr_Panicked = True\<rparr>, n + length (fst (hq_Body r))))\<rparr>"

definition countRequest :: httpRequest where
  "countRequest = \<lparr>hq_EscapedPath = ''/api/v1/count'', hq_Method = ''POST'', hq_RawQuery = [], hq_ForceQuery = False, hq_Fragment = [], hq_RawFragment = [],
     hq_ContentLength = -1, hq_TransferEncoding = [''chunked''], hq_Header = [], hq_Body = (''too long'', EndOK), hq_Context = False\<rparr>"

lemma sampleConfig_valid: "apiConfig_Validate sampleConfig = Inr ()"
  by code_simp

text \<open>A chunked body longer than the limit: the handler reads three bytes of it, and its panic becomes a response with status 500.\<close>

theorem api_handler_guarded_witness:
  "\<exists>s0 resp s'. NewWithRoutes sampleConfig [countRoute] 0 = Inr s0 \<and> leave ([], \<lambda>_. []) 0 ''api'' countRequest s0 = (resp, s') \<and>
     sv_world s' = 3 \<and> hs_Status resp = 500 \<and> hq_Method countRequest \<in> {''POST''}"
proof -
  let ?routes = "[(''/api/v1/count'', countRoute)]"
  have "validRouteName ''count''" "validRoutePath ''/api/v1/count''" by code_simp+
  then have "validateAPIRoutes [countRoute] = Inr ?routes"
    by (simp add: validateAPIRoutes_def countRoute_def normalizeAllowedMethods_def methodRank_def methodOrder_def isPostOnly_def)
  then obtain s0 where s0: "NewWithRoutes sampleConfig [countRoute] 0 = Inr s0" "sv_apiRoutes s0 = ?routes" "sv_world s0 = 0"
    by (simp add: NewWithRoutes_def sampleConfig_valid)
  obtain resp s' where l: "leave ([], \<lambda>_. []) 0 ''api'' countRequest s0 = (resp, s')" by fastforce
  have "sv_world s' = 3 \<and> hs_Status resp = 500"
    using l by (auto simp: leave_def resolveRoute_def s0 countRequest_def admit_def countRoute_def allowsMethod_def runRoute_def limitBody_def recoverRequest_def
        apiError_def writeJSON_def)
  moreover from this have "sv_world s' \<noteq> sv_world s0" by (simp add: s0(3))
  from api_handler_guarded [OF s0(1) rtranclp.rtrancl_refl l this] have "hq_Method countRequest \<in> {''POST''}"
    by (auto simp: countRoute_def normalizeAllowedMethods_def methodRank_def methodOrder_def)
  ultimately show ?thesis using s0(1) l by blast
qed

end
