(* ===== verification/Connections.thy ===== *)
theory Connections
  imports GoStrings MessageStore AuthToken MediaTypes MessageSync SyncCursor WebhookStore
begin

text \<open>
  How the six repositories open their pools (\<^verbatim>\<open>Open\<close> in \<^verbatim>\<open>server/storage/*/repository.go\<close>). The DSN parser, the pool
  constructor and its ping are parameters.
\<close>

section \<open>Pool configurations\<close>

record tlsConfig =
  tc_InsecureSkipVerify :: bool
  tc_ServerName :: bytes

record fallbackConfig =
  fb_Host :: bytes
  fb_TLS :: "tlsConfig option"

record poolConfig =
  pc_Host :: bytes
  pc_TLS :: "tlsConfig option"
  pc_Fallbacks :: "fallbackConfig list"
  pc_MaxConns :: int
  pc_MinConns :: int
  pc_MinIdleConns :: int
  pc_ConnectTimeout :: int
  pc_MaxBodyLen :: int
  pc_Params :: "(bytes \<times> bytes) list"
  pc_Guarded :: bool

record openConfig =
  op_DSN :: bytes
  op_AllowLocalSocket :: bool
  op_MaxConnections :: int
  op_ApplicationName :: bytes
  op_Guard :: bool

text \<open>The driver: \<^verbatim>\<open>pgxpool.ParseConfig\<close>, \<^verbatim>\<open>NewWithConfig\<close> and \<^verbatim>\<open>Ping\<close>.\<close>

record pgxDriver =
  px_Parse :: "bytes \<Rightarrow> poolConfig option"
  px_New :: "poolConfig \<Rightarrow> bool"
  px_Ping :: "poolConfig \<Rightarrow> bool"

definition verifiedTLS :: "bytes \<Rightarrow> tlsConfig option \<Rightarrow> bool" where
  "verifiedTLS host tls = (case tls of None \<Rightarrow> False | Some t \<Rightarrow> \<not> tc_InsecureSkipVerify t \<and> tc_ServerName t = host)"

definition isSocket :: "bytes \<Rightarrow> bool" where
  "isSocket host \<longleftrightarrow> 0 < length host \<and> hd host = CHR ''/''"

definition goodFallback :: "fallbackConfig \<Rightarrow> bool" where
  "goodFallback f \<longleftrightarrow> fb_Host f \<noteq> [] \<and> \<not> isSocket (fb_Host f) \<and> verifiedTLS (fb_Host f) (fb_TLS f)"

definition acceptsTargets :: "bool \<Rightarrow> poolConfig \<Rightarrow> bool" where
  "acceptsTargets allowLocalSocket c =
     (if isSocket (pc_Host c) then allowLocalSocket \<and> pc_Fallbacks c = []
      else verifiedTLS (pc_Host c) (pc_TLS c) \<and> list_all goodFallback (pc_Fallbacks c))"

text \<open>The limits every repository sets; \<open>timeouts\<close> are the statement, lock, idle and transaction timeouts.\<close>

definition bounded :: "int \<Rightarrow> (bytes \<times> bytes) list \<Rightarrow> poolConfig \<Rightarrow> poolConfig" where
  "bounded maxConnections params c = c\<lparr>pc_MaxConns := (if maxConnections \<noteq> 0 then maxConnections else 8), pc_MinConns := 0, pc_MinIdleConns := 0,
     pc_ConnectTimeout := 2 * second, pc_MaxBodyLen := 2 ^ 20, pc_Params := foldl (\<lambda>ps (k, v). AList.update k v ps) (pc_Params c) params\<rparr>"

definition timeouts :: "bytes \<Rightarrow> bytes \<Rightarrow> bytes \<Rightarrow> (bytes \<times> bytes) list" where
  "timeouts statement lock transaction = [(''statement_timeout'', statement), (''lock_timeout'', lock),
     (''idle_in_transaction_session_timeout'', transaction), (''transaction_timeout'', transaction)]"

definition applicationName :: "bytes \<Rightarrow> bytes \<Rightarrow> bytes \<times> bytes" where
  "applicationName fallback name = (''application_name'', if name \<noteq> [] then name else fallback)"

definition connectPool :: "pgxDriver \<Rightarrow> 'e \<Rightarrow> poolConfig \<Rightarrow> ('e, poolConfig) result" where
  "connectPool driver unavailable c = (if \<not> px_New driver c then Inl unavailable else if \<not> px_Ping driver c then Inl unavailable else Inr c)"

section \<open>The repositories\<close>

definition badConfig :: "goContext \<Rightarrow> openConfig \<Rightarrow> bool" where
  "badConfig ctx config \<longleftrightarrow> ctx = None \<or> op_DSN config = [] \<or> op_MaxConnections config < 0 \<or> 8 < op_MaxConnections config"

definition Message_Open :: "pgxDriver \<Rightarrow> goContext \<Rightarrow> openConfig \<Rightarrow> (msgCode, poolConfig) result" where
  "Message_Open driver ctx config =
     (if badConfig ctx config then Inl SendStorageUnavailable
      else if op_ApplicationName config \<noteq> [] \<and> \<not> validIdentifier (op_ApplicationName config) then Inl SendInvalidInput
      else case px_Parse driver (op_DSN config) of
        None \<Rightarrow> Inl SendStorageUnavailable
      | Some c \<Rightarrow>
          if \<not> acceptsTargets (op_AllowLocalSocket config) c then Inl SendStorageUnavailable
          else connectPool driver SendStorageUnavailable ((bounded (op_MaxConnections config)
            (timeouts ''3000'' ''1000'' ''5000'' @ [applicationName ''newim-message'' (op_ApplicationName config)]) c)\<lparr>pc_Guarded := op_Guard config\<rparr>))"

definition Auth_Open :: "pgxDriver \<Rightarrow> goContext \<Rightarrow> openConfig \<Rightarrow> (authCode, poolConfig) result" where
  "Auth_Open driver ctx config =
     (if badConfig ctx config then Inl AuthStorageUnavailable
      else if op_ApplicationName config \<noteq> [] \<and> \<not> validIdentifier (op_ApplicationName config) then Inl AuthInvalidInput
      else case px_Parse driver (op_DSN config) of
        None \<Rightarrow> Inl AuthStorageUnavailable
      | Some c \<Rightarrow>
          if \<not> acceptsTargets (op_AllowLocalSocket config) c then Inl AuthStorageUnavailable
          else connectPool driver AuthStorageUnavailable ((bounded (op_MaxConnections config)
            (timeouts ''3000'' ''1000'' ''5000'' @ [applicationName ''newim-authsession'' (op_ApplicationName config)]) c)\<lparr>pc_Guarded := op_Guard config\<rparr>))"

definition Media_Open :: "pgxDriver \<Rightarrow> goContext \<Rightarrow> openConfig \<Rightarrow> (mediaCode, poolConfig) result" where
  "Media_Open driver ctx config =
     (if badConfig ctx config then Inl MediaStorageUnavailable
      else if op_ApplicationName config \<noteq> [] \<and> \<not> validIdentifier (op_ApplicationName config) then Inl MediaInvalidInput
      else case px_Parse driver (op_DSN config) of
        None \<Rightarrow> Inl MediaStorageUnavailable
      | Some c \<Rightarrow>
          if \<not> acceptsTargets (op_AllowLocalSocket config) c then Inl MediaStorageUnavailable
          else connectPool driver MediaStorageUnavailable (bounded (op_MaxConnections config)
            (timeouts ''3000'' ''1000'' ''5000'' @ [applicationName ''newim-media'' (op_ApplicationName config)]) c))"

definition Sync_Open :: "pgxDriver \<Rightarrow> goContext \<Rightarrow> openConfig \<Rightarrow> (syncCode, poolConfig) result" where
  "Sync_Open driver ctx config =
     (if badConfig ctx config then Inl SyncStorageUnavailable
      else if op_ApplicationName config \<noteq> [] \<and> \<not> validIdentifier (op_ApplicationName config) then Inl SyncStorageUnavailable
      else case px_Parse driver (op_DSN config) of
        None \<Rightarrow> Inl SyncStorageUnavailable
      | Some c \<Rightarrow>
          if \<not> acceptsTargets (op_AllowLocalSocket config) c then Inl SyncStorageUnavailable
          else connectPool driver SyncStorageUnavailable (bounded (op_MaxConnections config)
            (timeouts ''3000'' ''1000'' ''5000'' @ [applicationName ''newim-messagesync'' (op_ApplicationName config)]) c))"

text \<open>The projection repository does not ask for a host in a fallback, takes no name and does not look at its context.\<close>

definition Conv_Open :: "pgxDriver \<Rightarrow> openConfig \<Rightarrow> (convCode, poolConfig) result" where
  "Conv_Open driver config =
     (if op_DSN config = [] \<or> op_MaxConnections config < 0 \<or> 8 < op_MaxConnections config then Inl ConvStorageUnavailable
      else case px_Parse driver (op_DSN config) of
        None \<Rightarrow> Inl ConvStorageUnavailable
      | Some c \<Rightarrow>
          if \<not> (if isSocket (pc_Host c) then op_AllowLocalSocket config \<and> pc_Fallbacks c = []
                else verifiedTLS (pc_Host c) (pc_TLS c) \<and>
                  list_all (\<lambda>f. \<not> isSocket (fb_Host f) \<and> verifiedTLS (fb_Host f) (fb_TLS f)) (pc_Fallbacks c)) then Inl ConvStorageUnavailable
          else connectPool driver ConvStorageUnavailable (bounded (op_MaxConnections config) (timeouts ''3000'' ''1000'' ''5000'') c))"

definition Webhook_Open :: "pgxDriver \<Rightarrow> goContext \<Rightarrow> openConfig \<Rightarrow> (whCode, poolConfig) result" where
  "Webhook_Open driver ctx config =
     (if badConfig ctx config then Inl WhInvalidConfig
      else case px_Parse driver (op_DSN config) of
        None \<Rightarrow> Inl WhStorageUnavailable
      | Some c \<Rightarrow>
          if \<not> acceptsTargets (op_AllowLocalSocket config) c then Inl WhStorageUnavailable
          else connectPool driver WhStorageUnavailable (bounded (op_MaxConnections config)
            (timeouts ''5000'' ''2000'' ''7000'' @ [applicationName ''newim-webhook'' (op_ApplicationName config)]) c))"

section \<open>What an opened pool is\<close>

text \<open>Every target of the pool proves its host by certificate, or the one target is a local socket that was asked for.\<close>

definition authenticated :: "bool \<Rightarrow> poolConfig \<Rightarrow> bool" where
  "authenticated allowLocalSocket c \<longleftrightarrow>
     list_all (\<lambda>(host, tls). verifiedTLS host tls) ((pc_Host c, pc_TLS c) # map (\<lambda>f. (fb_Host f, fb_TLS f)) (pc_Fallbacks c)) \<or>
     allowLocalSocket \<and> isSocket (pc_Host c) \<and> pc_Fallbacks c = []"

definition limited :: "poolConfig \<Rightarrow> bool" where
  "limited c \<longleftrightarrow> 1 \<le> pc_MaxConns c \<and> pc_MaxConns c \<le> 8 \<and> pc_ConnectTimeout c = 2 * second \<and> pc_MaxBodyLen c = 2 ^ 20 \<and>
     list_all (\<lambda>k. map_of (pc_Params c) k \<noteq> None) [''statement_timeout'', ''lock_timeout'', ''idle_in_transaction_session_timeout'', ''transaction_timeout'']"

lemma bounded_fields [simp]:
  "pc_Host (bounded n ps c) = pc_Host c" "pc_TLS (bounded n ps c) = pc_TLS c" "pc_Fallbacks (bounded n ps c) = pc_Fallbacks c"
  by (simp_all add: bounded_def)

lemma accepts_authenticated: "acceptsTargets allow c \<Longrightarrow> authenticated allow c"
  by (auto simp: acceptsTargets_def authenticated_def goodFallback_def list_all_iff split: if_splits)

lemma params_set: "k \<in> fst ` set params \<Longrightarrow> map_of (foldl (\<lambda>ps (k, v). AList.update k v ps) ps params) k \<noteq> None"
proof (induction params rule: rev_induct)
  case (snoc p params)
  then show ?case by (cases p) (auto simp: update_conv')
qed simp

lemma bounded_limited:
  assumes "0 \<le> n" "n \<le> 8" "set (timeouts a b t) \<subseteq> set params"
  shows "limited (bounded n params c)"
proof -
  have "map_of (pc_Params (bounded n params c)) k \<noteq> None" if "k \<in> fst ` set (timeouts a b t)" for k
    using params_set [of k params "pc_Params c"] that assms(3) by (auto simp: bounded_def)
  then have "list_all (\<lambda>k. map_of (pc_Params (bounded n params c)) k \<noteq> None) (map fst (timeouts a b t))" by (auto simp: list_all_iff)
  moreover have "map fst (timeouts a b t) = [''statement_timeout'', ''lock_timeout'', ''idle_in_transaction_session_timeout'', ''transaction_timeout'']"
    by (simp add: timeouts_def)
  moreover have "1 \<le> pc_MaxConns (bounded n params c)" "pc_MaxConns (bounded n params c) \<le> 8" using assms(1,2) by (simp_all add: bounded_def)
  moreover have "pc_ConnectTimeout (bounded n params c) = 2 * second" "pc_MaxBodyLen (bounded n params c) = 2 ^ 20" by (simp_all add: bounded_def)
  ultimately show ?thesis unfolding limited_def by metis
qed

lemma guarded_fields [simp]: "authenticated allow (c\<lparr>pc_Guarded := g\<rparr>) = authenticated allow c" "limited (c\<lparr>pc_Guarded := g\<rparr>) = limited c"
  by (simp_all add: authenticated_def limited_def)

lemma authenticated_bounded [simp]: "authenticated allow (bounded n params c) = authenticated allow c"
  by (simp add: authenticated_def)

lemma connectPool_Inr: "connectPool driver e c = Inr c' \<longleftrightarrow> c' = c \<and> px_New driver c \<and> px_Ping driver c"
  by (auto simp: connectPool_def)

lemma limited_with_name: "0 \<le> n \<Longrightarrow> n \<le> 8 \<Longrightarrow> limited (bounded n (timeouts a b t @ extra) c)"
  by (rule bounded_limited) auto

lemma limited_plain: "0 \<le> n \<Longrightarrow> n \<le> 8 \<Longrightarrow> limited (bounded n (timeouts a b t) c)"
  by (rule bounded_limited) auto

lemma conv_targets:
  "(if isSocket (pc_Host c) then allow \<and> pc_Fallbacks c = []
    else verifiedTLS (pc_Host c) (pc_TLS c) \<and> list_all (\<lambda>f. \<not> isSocket (fb_Host f) \<and> verifiedTLS (fb_Host f) (fb_TLS f)) (pc_Fallbacks c)) \<Longrightarrow> authenticated allow c"
  by (auto simp: authenticated_def list_all_iff split: if_splits)

lemma Conv_Open_pool:
  assumes "Conv_Open driver config = Inr c"
  shows "authenticated (op_AllowLocalSocket config) c \<and> limited c"
proof -
  obtain c0 where c0: "c = bounded (op_MaxConnections config) (timeouts ''3000'' ''1000'' ''5000'') c0" "0 \<le> op_MaxConnections config" "op_MaxConnections config \<le> 8"
    "if isSocket (pc_Host c0) then op_AllowLocalSocket config \<and> pc_Fallbacks c0 = []
     else verifiedTLS (pc_Host c0) (pc_TLS c0) \<and> list_all (\<lambda>f. \<not> isSocket (fb_Host f) \<and> verifiedTLS (fb_Host f) (fb_TLS f)) (pc_Fallbacks c0)"
    using assms unfolding Conv_Open_def by (auto simp: connectPool_Inr not_less split: if_splits option.splits)
  show ?thesis using conv_targets [OF c0(4)] limited_plain [OF c0(2,3)] by (simp add: c0(1))
qed

text \<open>
  Whatever DSN a repository is given, a pool it opens talks only to servers that prove the host name by certificate, the
  fallbacks included, or to one local socket when the configuration allows sockets; and it has between one and eight connections
  with all four time limits set. This holds of all six repositories.
\<close>

theorem pools_authenticated:
  "(Message_Open driver ctx config = Inr c \<longrightarrow> authenticated (op_AllowLocalSocket config) c \<and> limited c) \<and>
   (Auth_Open driver ctx config = Inr c \<longrightarrow> authenticated (op_AllowLocalSocket config) c \<and> limited c) \<and>
   (Media_Open driver ctx config = Inr c \<longrightarrow> authenticated (op_AllowLocalSocket config) c \<and> limited c) \<and>
   (Sync_Open driver ctx config = Inr c \<longrightarrow> authenticated (op_AllowLocalSocket config) c \<and> limited c) \<and>
   (Conv_Open driver config = Inr c \<longrightarrow> authenticated (op_AllowLocalSocket config) c \<and> limited c) \<and>
   (Webhook_Open driver ctx config = Inr c \<longrightarrow> authenticated (op_AllowLocalSocket config) c \<and> limited c)"
proof -
  note s = badConfig_def connectPool_Inr accepts_authenticated limited_with_name not_less
  have "Message_Open driver ctx config = Inr c \<longrightarrow> authenticated (op_AllowLocalSocket config) c \<and> limited c"
    by (auto simp: Message_Open_def s split: if_splits option.splits)
  moreover have "Auth_Open driver ctx config = Inr c \<longrightarrow> authenticated (op_AllowLocalSocket config) c \<and> limited c"
    by (auto simp: Auth_Open_def s split: if_splits option.splits)
  moreover have "Media_Open driver ctx config = Inr c \<longrightarrow> authenticated (op_AllowLocalSocket config) c \<and> limited c"
    by (auto simp: Media_Open_def s split: if_splits option.splits)
  moreover have "Sync_Open driver ctx config = Inr c \<longrightarrow> authenticated (op_AllowLocalSocket config) c \<and> limited c"
    by (auto simp: Sync_Open_def s split: if_splits option.splits)
  moreover have "Webhook_Open driver ctx config = Inr c \<longrightarrow> authenticated (op_AllowLocalSocket config) c \<and> limited c"
    by (auto simp: Webhook_Open_def s split: if_splits option.splits)
  ultimately show ?thesis using Conv_Open_pool by blast
qed

definition sampleDriver :: pgxDriver where
  "sampleDriver = \<lparr>px_Parse = (\<lambda>_. Some \<lparr>pc_Host = ''db'', pc_TLS = Some \<lparr>tc_InsecureSkipVerify = False, tc_ServerName = ''db''\<rparr>, pc_Fallbacks = [], pc_MaxConns = 4,
     pc_MinConns = 0, pc_MinIdleConns = 0, pc_ConnectTimeout = 0, pc_MaxBodyLen = 0, pc_Params = [], pc_Guarded = False\<rparr>), px_New = (\<lambda>_. True), px_Ping = (\<lambda>_. True)\<rparr>"

definition sampleOpen :: openConfig where
  "sampleOpen = \<lparr>op_DSN = ''postgres://db'', op_AllowLocalSocket = False, op_MaxConnections = 0, op_ApplicationName = [], op_Guard = True\<rparr>"

theorem pools_authenticated_witness:
  "\<exists>c. Message_Open sampleDriver (Some False) sampleOpen = Inr c \<and> authenticated False c \<and> limited c"
proof -
  have "\<not> isl (Message_Open sampleDriver (Some False) sampleOpen)" by code_simp
  then obtain c where c: "Message_Open sampleDriver (Some False) sampleOpen = Inr c" by (cases "Message_Open sampleDriver (Some False) sampleOpen") simp_all
  have "op_AllowLocalSocket sampleOpen = False" by (simp add: sampleOpen_def)
  then show ?thesis using pools_authenticated [of sampleDriver "Some False" sampleOpen c] c by simp
qed

end
