(* ===== verification/IdentityGuard.thy ===== *)
theory IdentityGuard
  imports GoStrings Payload Sha256 Database
begin

text \<open>
  The backend identity guard (\<^verbatim>\<open>server/storage/postgresidentity/guard.go\<close>): the first successful observation fixes the identity of
  the database for the process, and any other identity trips the guard for good.
\<close>

section \<open>Observations\<close>

datatype identityError = IdentityMismatch | IdentityRecovery | IdentityMalformed | IdentityConfiguration | IdentityTransient

record identity =
  id_database :: bytes
  id_oid :: u32
  id_postmasterStart :: instant
  id_systemIdentifier :: bytes
  id_timelineID :: u32

definition canonicalSystemIdentifier :: "bytes \<Rightarrow> bool" where
  "canonicalSystemIdentifier value =
     (if value = [] then False
      else if \<not> all_digits value then False
      else int (dec_val value) < 2 ^ 64 \<and> dec_val value \<noteq> 0 \<and> fmt_nat (dec_val value) = value)"

text \<open>The year is the one in UTC; the source reads it in the location of the time the driver returned, which differs within a day of the years 1 and 9999 only.\<close>

definition newIdentity :: "bytes \<Rightarrow> u32 \<Rightarrow> instant \<Rightarrow> bytes \<Rightarrow> u32 \<Rightarrow> identity option" where
  "newIdentity database oid postmasterStart systemIdentifier timelineID =
     (if database = [] \<or> \<not> utf8_valid database \<or> oid = 0 \<or> postmasterStart = zeroTime \<or> utcYear postmasterStart < 1 \<or> 9999 < utcYear postmasterStart \<or> timelineID = 0
      then None
      else if \<not> canonicalSystemIdentifier systemIdentifier then None
      else Some \<lparr>id_database = database, id_oid = oid, id_postmasterStart = postmasterStart, id_systemIdentifier = systemIdentifier, id_timelineID = timelineID\<rparr>)"

definition canonicalIdentityBytes :: "identity \<Rightarrow> bytes" where
  "canonicalIdentityBytes observed = object_text
     [(''database'', quote_string True (id_database observed)), (''oid'', fmt_nat (unat (id_oid observed))),
      (''postmasterStart'', quote_string True (rfc3339nano (id_postmasterStart observed))),
      (''systemIdentifier'', quote_string True (id_systemIdentifier observed)), (''timelineId'', fmt_nat (unat (id_timelineID observed)))]"

definition digestIdentity :: "identity \<Rightarrow> bytes" where
  "digestIdentity observed = sha256 (canonicalIdentityBytes observed)"

text \<open>The errors \<^verbatim>\<open>isTransient\<close> tells apart; a server error carries its SQLSTATE.\<close>

datatype queryError = ErrContext | ErrEOF | ErrClosed | ErrNet | ErrConnect | ErrServer bytes | ErrOther

fun isTransient :: "queryError \<Rightarrow> bool" where
  "isTransient ErrContext = True"
| "isTransient ErrEOF = True"
| "isTransient ErrClosed = True"
| "isTransient ErrNet = True"
| "isTransient ErrConnect = True"
| "isTransient (ErrServer state) = (HasPrefix state ''08'' \<or> state = ''57P01'' \<or> state = ''57P02'' \<or> state = ''57P03'' \<or> state = ''57014'')"
| "isTransient ErrOther = False"

text \<open>The answer to the identity query: an error, or the row with no timeline while the server is in recovery.\<close>

datatype answer = Failed queryError | Row bytes u32 instant bytes "u32 option"

fun observed :: "answer \<Rightarrow> (identityError, identity) result" where
  "observed (Failed e) = (if isTransient e then Inl IdentityTransient else Inl IdentityConfiguration)"
| "observed (Row database oid start system None) = Inl IdentityRecovery"
| "observed (Row database oid start system (Some timeline)) =
     (case newIdentity database oid start system timeline of None \<Rightarrow> Inl IdentityMalformed | Some i \<Rightarrow> Inr i)"

section \<open>The guard\<close>

text \<open>The state under the mutex, and what was published through \<^verbatim>\<open>onTrip\<close>.\<close>

record Guard =
  gu_baseline :: "bytes option"
  gu_tripped :: "identityError option"
  gu_published :: "identityError list"

definition NewGuard :: Guard where
  "NewGuard = \<lparr>gu_baseline = None, gu_tripped = None, gu_published = []\<rparr>"

definition tripLocked :: "identityError \<Rightarrow> Guard \<Rightarrow> identityError option \<times> Guard" where
  "tripLocked err g = (case gu_tripped g of Some e \<Rightarrow> (Some e, g) | None \<Rightarrow> (Some err, g\<lparr>gu_tripped := Some err, gu_published := gu_published g @ [err]\<rparr>))"

text \<open>
  \<^verbatim>\<open>Verify\<close> looks at the guard once before the query and takes the lock after it: \<open>before\<close> is the state it saw first, \<open>g\<close> the one
  at the lock.
\<close>

definition Verify :: "bool \<Rightarrow> answer \<Rightarrow> Guard \<Rightarrow> Guard \<Rightarrow> identityError option \<times> Guard" where
  "Verify isNil answer before g =
     (if isNil then tripLocked IdentityMalformed g
      else case gu_tripped before of
        Some e \<Rightarrow> (Some e, g)
      | None \<Rightarrow>
          (case observed answer of
             Inl e \<Rightarrow> if e = IdentityTransient then (Some e, g) else tripLocked e g
           | Inr i \<Rightarrow>
               (case gu_tripped g of
                  Some e \<Rightarrow> (Some e, g)
                | None \<Rightarrow>
                    (case gu_baseline g of
                       None \<Rightarrow> (None, g\<lparr>gu_baseline := Some (digestIdentity i)\<rparr>)
                     | Some digest \<Rightarrow> if digest \<noteq> digestIdentity i then tripLocked IdentityMismatch g else (None, g)))))"

inductive guard_step :: "Guard \<Rightarrow> Guard \<Rightarrow> bool" where
  "Verify isNil answer before g = (r, g') \<Longrightarrow> guard_step g g'"

definition guardInv :: "Guard \<Rightarrow> bool" where
  "guardInv g \<longleftrightarrow> gu_published g = (case gu_tripped g of None \<Rightarrow> [] | Some e \<Rightarrow> [e])"

lemma Verify_changes:
  assumes "Verify isNil answer before g = (r, g')"
  shows "(gu_tripped g = Some e \<longrightarrow> gu_tripped g' = Some e) \<and> (guardInv g \<longrightarrow> guardInv g') \<and> (gu_baseline g = Some k \<longrightarrow> gu_baseline g' = Some k)"
proof (cases "gu_tripped g")
  case None
  then show ?thesis using assms by (auto simp: Verify_def tripLocked_def guardInv_def split: if_splits option.splits sum.splits)
next
  case (Some e)
  then have "g' = g" using assms by (auto simp: Verify_def tripLocked_def split: if_splits option.splits sum.splits)
  then show ?thesis by simp
qed

lemma guard_step_keeps: "guard_step g g' \<Longrightarrow> guardInv g \<Longrightarrow> guardInv g'"
  using Verify_changes by (blast elim: guard_step.cases)

interpretation guard_baseline: store_latch guard_step guardInv "\<lambda>g digest. gu_baseline g = Some digest"
proof
  show "guard_step s t \<Longrightarrow> guardInv s \<Longrightarrow> guardInv t" for s t by (rule guard_step_keeps)
  show "guard_step s t \<Longrightarrow> guardInv s \<Longrightarrow> gu_baseline s = Some k \<Longrightarrow> gu_baseline t = Some k" for s t k
    using Verify_changes by (blast elim: guard_step.cases)
qed

interpretation guard_trip: store_latch guard_step guardInv "\<lambda>g e. gu_tripped g = Some e"
  by unfold_locales (use Verify_changes in \<open>blast elim: guard_step.cases\<close>)

lemma Verify_accepts_one:
  assumes "Verify isNil answer before g = (None, g')"
  shows "\<exists>i. observed answer = Inr i \<and> gu_baseline g' = Some (digestIdentity i) \<and> gu_tripped g = None \<and> gu_tripped g' = None"
  using assms by (auto simp: Verify_def tripLocked_def split: if_splits option.splits sum.splits)


definition sampleAnswer :: "u32 \<Rightarrow> answer" where
  "sampleAnswer timeline = Row ''newim'' 5 1000000000 ''7'' (Some timeline)"

text \<open>A server in recovery trips the fresh guard; the good answer after it is refused.\<close>

definition recoveryAnswer :: answer where
  "recoveryAnswer = Row ''newim'' 16384 (1000 * second) ''7300000000000000001'' None"


end
