(* ===== verification/WebhookHTTP.thy ===== *)
theory WebhookHTTP
  imports WebhookWorker GoStrings
begin

text \<open>
  The outbound HTTP client of webhooks (\<^verbatim>\<open>server/webhook/http.go\<close>): which addresses it may dial, and the request it makes.
  URL parsing, name resolution, dialling and the exchange on the connection are parameters.
\<close>

unbundle bit_operations_syntax

section \<open>Addresses\<close>

text \<open>\<^verbatim>\<open>netip.Addr\<close> without zone, and the tests of package \<^verbatim>\<open>net/netip\<close>.\<close>

datatype addr = V4 "32 word" | V6 "128 word"

definition beWord :: "bytes \<Rightarrow> nat" where
  "beWord s = foldl (\<lambda>n c. n * 256 + code c) 0 s"

definition AddrFromSlice :: "bytes \<Rightarrow> addr option" where
  "AddrFromSlice ip = (if length ip = 4 then Some (V4 (of_nat (beWord ip))) else if length ip = 16 then Some (V6 (of_nat (beWord ip))) else None)"

definition inNet :: "nat \<Rightarrow> 'a::len word \<Rightarrow> 'a word \<Rightarrow> bool" where
  "inNet bits p a \<longleftrightarrow> drop_bit (LENGTH('a) - bits) (p XOR a) = 0"

fun Unmap :: "addr \<Rightarrow> addr" where
  "Unmap (V4 a) = V4 a"
| "Unmap (V6 a) = (if inNet 96 0xFFFF00000000 a then V4 (ucast a) else V6 a)"

fun IsLoopback :: "addr \<Rightarrow> bool" where
  "IsLoopback (V4 a) = inNet 8 0x7F000000 a"
| "IsLoopback (V6 a) = (a = 1)"

fun IsPrivate :: "addr \<Rightarrow> bool" where
  "IsPrivate (V4 a) = (inNet 8 0x0A000000 a \<or> inNet 12 0xAC100000 a \<or> inNet 16 0xC0A80000 a)"
| "IsPrivate (V6 a) = inNet 7 0xFC000000000000000000000000000000 a"

fun IsMulticast :: "addr \<Rightarrow> bool" where
  "IsMulticast (V4 a) = inNet 4 0xE0000000 a"
| "IsMulticast (V6 a) = inNet 8 0xFF000000000000000000000000000000 a"

fun IsLinkLocalUnicast :: "addr \<Rightarrow> bool" where
  "IsLinkLocalUnicast (V4 a) = inNet 16 0xA9FE0000 a"
| "IsLinkLocalUnicast (V6 a) = inNet 10 0xFE800000000000000000000000000000 a"

fun IsUnspecified :: "addr \<Rightarrow> bool" where
  "IsUnspecified (V4 a) = (a = 0)"
| "IsUnspecified (V6 a) = (a = 0)"

definition v6scope :: "128 word \<Rightarrow> 128 word" where
  "v6scope a = drop_bit 112 a AND 0xFF0F"

fun IsLinkLocalMulticast :: "addr \<Rightarrow> bool" where
  "IsLinkLocalMulticast (V4 a) = inNet 24 0xE0000000 a"
| "IsLinkLocalMulticast (V6 a) = (v6scope a = 0xFF02)"

fun IsInterfaceLocalMulticast :: "addr \<Rightarrow> bool" where
  "IsInterfaceLocalMulticast (V4 a) = False"
| "IsInterfaceLocalMulticast (V6 a) = (v6scope a = 0xFF01)"

definition IsGlobalUnicast :: "addr \<Rightarrow> bool" where
  "IsGlobalUnicast addr \<longleftrightarrow> addr \<noteq> V4 0xFFFFFFFF \<and> \<not> IsUnspecified addr \<and> \<not> IsLoopback addr \<and> \<not> IsMulticast addr \<and> \<not> IsLinkLocalUnicast addr"

datatype prefix = P4 "32 word" nat | P6 "128 word" nat

fun Contains :: "prefix \<Rightarrow> addr \<Rightarrow> bool" where
  "Contains (P4 p bits) (V4 a) = inNet bits p a"
| "Contains (P6 p bits) (V6 a) = inNet bits p a"
| "Contains _ _ = False"

definition blockedPrefixes :: "prefix list" where
  "blockedPrefixes =
     [P4 0x00000000 8, P4 0x64400000 10, P4 0xC0000000 24, P4 0xC0000200 24, P4 0xC6120000 15, P4 0xC6336400 24, P4 0xCB007100 24, P4 0xF0000000 4,
      P6 0 96, P6 0 128, P6 0xFFFF000000000000 96, P6 0x20010002000000000000000000000000 48, P6 0x20010000000000000000000000000000 32,
      P6 0x20010010000000000000000000000000 28, P6 0x20010020000000000000000000000000 28, P6 0x20010030000000000000000000000000 28,
      P6 0x20010004011200000000000000000000 48, P6 0x20010DB8000000000000000000000000 32, P6 0x20020000000000000000000000000000 16,
      P6 0x01000000000000000000000000000000 64, P6 0x5F000000000000000000000000000000 16, P6 0x3FFF0000000000000000000000000000 20,
      P6 0x2620004F800000000000000000000000 48, P6 0x0064FF9B000000000000000000000000 96, P6 0x0064FF9B000100000000000000000000 48,
      P6 0xFEC00000000000000000000000000000 10]"

record Policy =
  po_AllowHTTP :: bool
  po_AllowLoopback :: bool
  po_AllowPrivate :: bool

definition allowed :: "Policy \<Rightarrow> bytes \<Rightarrow> bool" where
  "allowed policy ip =
     (case AddrFromSlice ip of
        None \<Rightarrow> False
      | Some addr0 \<Rightarrow>
          let addr = Unmap addr0 in
          if IsLoopback addr then po_AllowLoopback policy
          else if IsPrivate addr then po_AllowPrivate policy
          else if \<not> IsGlobalUnicast addr then False
          else if IsUnspecified addr \<or> IsMulticast addr \<or> IsLinkLocalUnicast addr \<or> IsLinkLocalMulticast addr \<or> IsInterfaceLocalMulticast addr then False
          else \<not> list_ex (\<lambda>p. Contains p addr) blockedPrefixes)"

section \<open>The client\<close>

record SecureClient =
  sc_policy :: Policy
  sc_timeout :: int
  sc_maxBody :: int

definition NewSecureClient :: "Policy \<Rightarrow> int \<Rightarrow> int \<Rightarrow> (whCode, SecureClient) result" where
  "NewSecureClient policy timeout maxBody =
     (if timeout \<le> 0 \<or> minute < timeout \<or> maxBody \<le> 0 \<or> 2 ^ 20 < maxBody then Inl WhInvalidConfig
      else Inr \<lparr>sc_policy = policy, sc_timeout = timeout, sc_maxBody = maxBody\<rparr>)"

record parsedURL =
  pu_Scheme :: bytes
  pu_Host :: bytes
  pu_Hostname :: bytes
  pu_Port :: bytes
  pu_User :: bool
  pu_Fragment :: bytes
  pu_Opaque :: bytes

text \<open>
  The network as one request meets it: the parser, the resolver's answer, which dials succeed, and the exchange, with the
  read of the body as an option.
\<close>

record httpReply =
  hr_Status :: int
  hr_Body :: "bytes option"
  hr_RetryAfter :: bytes

record netEnv =
  ne_parse :: "bytes \<Rightarrow> parsedURL option"
  ne_lookup :: "bytes \<Rightarrow> bytes list option"
  ne_requestFails :: bool
  ne_dial :: "bytes \<Rightarrow> bool"
  ne_exchange :: "bytes \<Rightarrow> (bytes \<times> bytes) list \<Rightarrow> bytes \<Rightarrow> httpReply option"
  ne_ctxDone :: bool
  ne_parseTime :: "bytes \<Rightarrow> instant option"
  ne_now :: instant

definition parseRetryAfter :: "(bytes \<Rightarrow> instant option) \<Rightarrow> instant \<Rightarrow> bytes \<Rightarrow> int" where
  "parseRetryAfter parseTime now value =
     (if value = [] then 0
      else
        let date = (case parseTime value of None \<Rightarrow> 0 | Some when \<Rightarrow> let delay = max (- (2 ^ 63)) (min (2 ^ 63 - 1) (when - now)) in if 0 < delay then delay else 0)
        in (case ParseInt64 value of
              None \<Rightarrow> date
            | Some n \<Rightarrow> if 0 < n then (if 3600 < n then hour else n * second) else date))"

text \<open>The dialer tries the approved addresses in order; the result is what it dialled and whether it connected.\<close>

fun dialApproved :: "(bytes \<Rightarrow> bool) \<Rightarrow> bytes list \<Rightarrow> bytes list \<times> bool" where
  "dialApproved dial [] = ([], False)"
| "dialApproved dial (ip # ips) = (if dial ip then ([ip], True) else (case dialApproved dial ips of (ds, ok) \<Rightarrow> (ip # ds, ok)))"

text \<open>The checks on the URL, up to the host and the port that is dialled.\<close>

definition targetHost :: "Policy \<Rightarrow> parsedURL option \<Rightarrow> (whCode, bytes \<times> bytes) result" where
  "targetHost policy parsed =
     (case parsed of
        None \<Rightarrow> Inl WhInvalidConfig
      | Some target \<Rightarrow>
          if pu_Scheme target = [] \<or> pu_Host target = [] \<or> pu_User target \<or> pu_Fragment target \<noteq> [] \<or> pu_Opaque target \<noteq> [] then Inl WhInvalidConfig
          else if pu_Hostname target = [] \<or> ContainsAny (pu_Hostname target) [CHR 0x0D, CHR 0x0A, CHR 0x09, CHR '' ''] then Inl WhInvalidConfig
          else if \<not> EqualFold (pu_Scheme target) ''https'' \<and> \<not> po_AllowHTTP policy then Inl WhInvalidConfig
          else if \<not> EqualFold (pu_Scheme target) ''https'' \<and> \<not> EqualFold (pu_Scheme target) ''http'' then Inl WhInvalidConfig
          else Inr (pu_Hostname target,
            if pu_Port target = [] then (if EqualFold (pu_Scheme target) ''https'' then ''443'' else ''80'') else pu_Port target))"

definition badHeader :: "bytes \<times> bytes \<Rightarrow> bool" where
  "badHeader = (\<lambda>(key, value). EqualFold key ''Host'' \<or> ContainsAny key [CHR 0x0D, CHR 0x0A] \<or> ContainsAny value [CHR 0x0D, CHR 0x0A])"

text \<open>\<^verbatim>\<open>Do\<close> with the addresses it dialled; an error without a stable code is the context's.\<close>

definition secureDo :: "SecureClient \<Rightarrow> netEnv \<Rightarrow> bytes \<Rightarrow> (bytes \<times> bytes) list \<Rightarrow> bytes \<Rightarrow> (whCode option, Response) result \<times> bytes list" where
  "secureDo c net rawURL headers body =
     (if sc_maxBody c < int (length body) then (Inl (Some WhInvalidConfig), [])
      else case targetHost (sc_policy c) (ne_parse net rawURL) of
        Inl e \<Rightarrow> (Inl (Some e), [])
      | Inr (host, port) \<Rightarrow>
          (case ne_lookup net host of
             None \<Rightarrow> (Inl (Some WhHTTPTemporary), [])
           | Some addresses \<Rightarrow>
               if addresses = [] then (Inl (Some WhHTTPTemporary), [])
               else
                 let approved = filter (allowed (sc_policy c)) addresses in
                 if approved = [] then (Inl (Some WhEndpointRevoked), [])
                 else if ne_requestFails net \<or> list_ex badHeader headers then (Inl (Some WhInvalidConfig), [])
                 else (case dialApproved (ne_dial net) approved of
                     (dialled, ok) \<Rightarrow>
                       (case (if ok then ne_exchange net rawURL headers body else None) of
                          None \<Rightarrow> (Inl (if ne_ctxDone net then None else Some WhHTTPTemporary), dialled)
                        | Some reply \<Rightarrow>
                            (case hr_Body reply of
                               None \<Rightarrow> (Inl (Some WhHTTPTemporary), dialled)
                             | Some read \<Rightarrow>
                                 let responseBody = take (nat (sc_maxBody c + 1)) read in
                                 if sc_maxBody c < int (length responseBody) then (Inl (Some WhResponseTooLarge), dialled)
                                 else (Inr \<lparr>rp_StatusCode = hr_Status reply, rp_Body = responseBody,
                                        rp_RetryAfter = parseRetryAfter (ne_parseTime net) (ne_now net) (hr_RetryAfter reply)\<rparr>, dialled)))))) "

section \<open>Prefixes as intervals\<close>

lemma xor_zero_iff: "x XOR y = 0 \<longleftrightarrow> x = (y :: 'a::len word)"
proof
  assume z: "x XOR y = 0"
  have "x = (x XOR y) XOR y" by (simp add: xor.assoc)
  then show "x = y" unfolding z by simp
qed simp

lemma inNet_div: "bits \<le> LENGTH('a) \<Longrightarrow> inNet bits p (a :: 'a::len word) \<longleftrightarrow> unat a div 2 ^ (LENGTH('a) - bits) = unat p div 2 ^ (LENGTH('a) - bits)"
proof -
  let ?k = "LENGTH('a) - bits"
  have "inNet bits p a \<longleftrightarrow> drop_bit ?k p = drop_bit ?k a" by (simp add: inNet_def drop_bit_xor xor_zero_iff)
  also have "\<dots> \<longleftrightarrow> unat (drop_bit ?k p) = unat (drop_bit ?k a)" by (rule word_unat_eq_iff)
  also have "\<dots> \<longleftrightarrow> unat p div 2 ^ ?k = unat a div 2 ^ ?k" unfolding unat_drop_bit_eq by (simp only: drop_bit_eq_div)
  finally show ?thesis by auto
qed

lemma div_eq_interval: "0 < k \<Longrightarrow> n div k = m \<longleftrightarrow> m * k \<le> n \<and> n < (m + 1) * (k :: nat)"
  by (metis Suc_eq_plus1 div_nat_eqI div_times_less_eq_dividend dividend_less_div_times mult.commute mult_Suc_right add.commute)

section \<open>Special-purpose addresses\<close>

text \<open>
  The blocks no webhook may reach, as intervals: a first address and the number of host bits. IPv4: this network, private
  (three blocks), shared, loopback, link-local, protocol assignments, documentation (three blocks), benchmarking, multicast and
  reserved. IPv6: IPv4-compatible with unspecified and loopback, IPv4-mapped, IPv4-translated, both NAT64 prefixes, discard-only,
  Teredo, benchmarking, AS112 (two blocks), ORCHID, ORCHIDv2, drone remote ID, documentation (two blocks), 6to4, segment routing,
  unique-local, link-local, site-local and multicast. The rest of 2001::/23, of which Teredo and others are parts, is not in the list.
\<close>

definition special4 :: "(nat \<times> nat) list" where
  "special4 = [(0x00000000, 24), (0x0A000000, 24), (0x64400000, 22), (0x7F000000, 24), (0xA9FE0000, 16), (0xAC100000, 20), (0xC0000000, 8), (0xC0000200, 8),
     (0xC0A80000, 16), (0xC6120000, 17), (0xC6336400, 8), (0xCB007100, 8), (0xE0000000, 28), (0xF0000000, 28)]"

definition special6 :: "(nat \<times> nat) list" where
  "special6 = [(0x00000000000000000000000000000000, 32), (0x00000000000000000000FFFF00000000, 32), (0x0000000000000000FFFF000000000000, 32),
     (0x0064FF9B000000000000000000000000, 32), (0x0064FF9B000100000000000000000000, 80), (0x01000000000000000000000000000000, 64),
     (0x20010000000000000000000000000000, 96), (0x20010002000000000000000000000000, 80), (0x20010004011200000000000000000000, 80),
     (0x20010010000000000000000000000000, 100), (0x20010020000000000000000000000000, 100), (0x20010030000000000000000000000000, 100),
     (0x2620004F800000000000000000000000, 80), (0x20010DB8000000000000000000000000, 96), (0x20020000000000000000000000000000, 112),
     (0x3FFF0000000000000000000000000000, 108), (0x5F000000000000000000000000000000, 112), (0xFC000000000000000000000000000000, 121),
     (0xFE800000000000000000000000000000, 118), (0xFEC00000000000000000000000000000, 118), (0xFF000000000000000000000000000000, 120)]"

definition inBlock :: "nat \<Rightarrow> nat \<times> nat \<Rightarrow> bool" where
  "inBlock n = (\<lambda>(first, hostBits). first \<le> n \<and> n < first + 2 ^ hostBits)"

fun public :: "addr \<Rightarrow> bool" where
  "public (V4 a) = (\<not> list_ex (inBlock (unat a)) special4)"
| "public (V6 a) = (\<not> list_ex (inBlock (unat a)) special6)"

lemma inNet_block:
  assumes "bits \<le> LENGTH('a)" "unat p mod 2 ^ (LENGTH('a) - bits) = 0"
  shows "inNet bits p (a :: 'a::len word) \<longleftrightarrow> inBlock (unat a) (unat p, LENGTH('a) - bits)"
proof -
  let ?k = "LENGTH('a) - bits"
  define q where "q = unat p div 2 ^ ?k"
  have e: "unat p = q * 2 ^ ?k" using div_mult_mod_eq [of "unat p" "2 ^ ?k"] assms(2) by (simp add: q_def)
  have "(q + 1) * 2 ^ ?k = unat p + 2 ^ ?k" unfolding e by (simp add: add_mult_distrib)
  then have "unat a div 2 ^ ?k = q \<longleftrightarrow> unat p \<le> unat a \<and> unat a < unat p + 2 ^ ?k"
    using div_eq_interval [of "2 ^ ?k" "unat a" q] e by (simp add: add.commute)
  then show ?thesis unfolding inNet_div [OF assms(1)] inBlock_def q_def by simp
qed

lemma allowed_public4:
  assumes "\<not> IsLoopback (V4 a)" "\<not> IsPrivate (V4 a)" "IsGlobalUnicast (V4 a)" "\<not> list_ex (\<lambda>p. Contains p (V4 a)) blockedPrefixes"
  shows "public (V4 a)"
  using assms by (simp add: IsGlobalUnicast_def blockedPrefixes_def special4_def inNet_block)

lemma allowed_public6:
  assumes "Unmap addr = V6 a" "\<not> IsPrivate (V6 a)" "IsGlobalUnicast (V6 a)" "\<not> list_ex (\<lambda>p. Contains p (V6 a)) blockedPrefixes"
  shows "public (V6 a)"
proof -
  have "\<not> inNet 96 0xFFFF00000000 a" using assms(1) by (cases addr) (auto split: if_splits)
  then show ?thesis using assms(2-4) by (simp add: IsGlobalUnicast_def blockedPrefixes_def special6_def inNet_block)
qed

lemma allowed_public:
  assumes "allowed policy ip" "\<not> po_AllowLoopback policy" "\<not> po_AllowPrivate policy"
  shows "\<exists>addr. AddrFromSlice ip = Some addr \<and> public (Unmap addr)"
proof -
  obtain addr where a: "AddrFromSlice ip = Some addr" using assms(1) by (auto simp: allowed_def split: option.splits)
  have "public (Unmap addr)"
  proof (cases "Unmap addr")
    case (V4 x)
    then show ?thesis using assms a allowed_public4 [of x] by (simp add: allowed_def Let_def split: if_splits)
  next
    case (V6 x)
    then show ?thesis using assms a allowed_public6 [OF V6] by (simp add: allowed_def Let_def split: if_splits)
  qed
  then show ?thesis using a by blast
qed

lemma dialApproved_subset: "set (fst (dialApproved dial ips)) \<subseteq> set ips"
  by (induction ips) (auto split: prod.splits)

lemma secureDo_dials:
  assumes "secureDo c net rawURL headers body = (r, dialled)" "dialled \<noteq> []"
  obtains host port addresses where "targetHost (sc_policy c) (ne_parse net rawURL) = Inr (host, port)" "ne_lookup net host = Some addresses"
    "set dialled \<subseteq> set (filter (allowed (sc_policy c)) addresses)" "\<not> list_ex badHeader headers" "int (length body) \<le> sc_maxBody c"
proof -
  obtain host port addresses where h: "targetHost (sc_policy c) (ne_parse net rawURL) = Inr (host, port)" "ne_lookup net host = Some addresses"
    "\<not> list_ex badHeader headers" "int (length body) \<le> sc_maxBody c"
    "dialled = fst (dialApproved (ne_dial net) (filter (allowed (sc_policy c)) addresses))"
    using assms by (auto simp: secureDo_def Let_def split: if_splits sum.splits option.splits prod.splits)
  then show thesis using that dialApproved_subset by blast
qed

definition productionPolicy :: Policy where
  "productionPolicy = \<lparr>po_AllowHTTP = False, po_AllowLoopback = False, po_AllowPrivate = False\<rparr>"

definition octets :: "nat list \<Rightarrow> bytes" where
  "octets ns = map char_of ns"

text \<open>
  C17. Under the production policy a webhook request leaves only over https and only towards public addresses: every address
  that is dialled was resolved for the host of the endpoint's URL and lies outside every block of \<open>special4\<close> and
  \<open>special6\<close>, also when it is written as an IPv4-mapped IPv6 address.
\<close>

theorem webhook_dials_public_only:
  assumes "secureDo c net rawURL headers body = (r, dialled)" "sc_policy c = productionPolicy" "ip \<in> set dialled"
  shows "\<exists>target addresses addr. ne_parse net rawURL = Some target \<and> EqualFold (pu_Scheme target) ''https'' \<and>
    ne_lookup net (pu_Hostname target) = Some addresses \<and> ip \<in> set addresses \<and> AddrFromSlice ip = Some addr \<and> public (Unmap addr)"
proof -
  have n: "dialled \<noteq> []" using assms(3) by auto
  obtain host port addresses where h: "targetHost (sc_policy c) (ne_parse net rawURL) = Inr (host, port)" "ne_lookup net host = Some addresses"
    "set dialled \<subseteq> set (filter (allowed (sc_policy c)) addresses)"
    by (rule secureDo_dials [OF assms(1) n])
  obtain target where t: "ne_parse net rawURL = Some target" "EqualFold (pu_Scheme target) ''https''" "host = pu_Hostname target"
    using h(1) by (auto simp: targetHost_def assms(2) productionPolicy_def split: option.splits if_splits)
  have "allowed productionPolicy ip" "ip \<in> set addresses" using h(3) assms(2,3) by auto
  then show ?thesis using allowed_public [of productionPolicy ip] t h(2) by (simp add: productionPolicy_def)
qed

definition sampleNet :: netEnv where
  "sampleNet = \<lparr>ne_parse = (\<lambda>_. Some \<lparr>pu_Scheme = ''https'', pu_Host = ''x'', pu_Hostname = ''x'', pu_Port = [], pu_User = False, pu_Fragment = [], pu_Opaque = []\<rparr>),
     ne_lookup = (\<lambda>_. Some [octets [10, 0, 0, 1], octets [0, 0, 0, 0, 0, 0, 0, 0, 0, 0, 255, 255, 169, 254, 169, 254], octets [8, 8, 8, 8]]),
     ne_requestFails = False, ne_dial = (\<lambda>_. True), ne_exchange = (\<lambda>_ _ _. None), ne_ctxDone = False, ne_parseTime = (\<lambda>_. None), ne_now = 0\<rparr>"

definition sampleClient :: SecureClient where
  "sampleClient = \<lparr>sc_policy = productionPolicy, sc_timeout = second, sc_maxBody = 1024\<rparr>"

theorem webhook_dials_public_only_witness:
  "snd (secureDo sampleClient sampleNet ''https://x'' [] ''{}'') = [octets [8, 8, 8, 8]] \<and> (\<exists>addr. AddrFromSlice (octets [8, 8, 8, 8]) = Some addr \<and> public (Unmap addr))"
proof -
  have d: "snd (secureDo sampleClient sampleNet ''https://x'' [] ''{}'') = [octets [8, 8, 8, 8]]" by code_simp
  have "\<exists>target addresses addr. ne_parse sampleNet ''https://x'' = Some target \<and> EqualFold (pu_Scheme target) ''https'' \<and>
    ne_lookup sampleNet (pu_Hostname target) = Some addresses \<and> octets [8, 8, 8, 8] \<in> set addresses \<and> AddrFromSlice (octets [8, 8, 8, 8]) = Some addr \<and> public (Unmap addr)"
    by (rule webhook_dials_public_only [where c = sampleClient and headers = "[]" and body = "''{}''", OF prod.collapse [symmetric]])
      (simp add: sampleClient_def, simp add: d)
  then show ?thesis using d by blast
qed

end
