(* ===== verification/Runtime.thy ===== *)
theory Runtime
  imports ApiFacts Connections IdentityGuard WebhookHTTP
begin

text \<open>
  The process composition of \<^verbatim>\<open>server/cmd/newim-server/auth_runtime.go\<close>: which pools and routes a configuration of the environment
  gives, and the message endpoint as the assembled server serves it.
\<close>

section \<open>Routes\<close>

text \<open>The state behind the routes.\<close>

record 's backing =
  wo_auth :: authdb
  wo_entropy :: 's
  wo_msg :: msgdb

definition plainRun :: "httpResponse \<Rightarrow> handlerRun" where
  "plainRun resp = \<lparr>hr_Header = hs_Header resp, hr_Status = Some (hs_Status resp), hr_Body = hs_Body resp, hr_Panicked = False\<rparr>"

definition sessionHandler :: "'s messageIO \<Rightarrow> httpRequest \<Rightarrow> 's backing \<Rightarrow> handlerRun \<times> 's backing" where
  "sessionHandler io r w = (plainRun (Session_ServeHTTP (mi_authEnv io) (mi_clock io) (wo_auth w) r), w)"

definition revokeHandler :: "'s messageIO \<Rightarrow> httpRequest \<Rightarrow> 's backing \<Rightarrow> handlerRun \<times> 's backing" where
  "revokeHandler io r w = (case Revoke_ServeHTTP (mi_authEnv io) (mi_clock io) r (wo_auth w) of (resp, adb) \<Rightarrow> (plainRun resp, w\<lparr>wo_auth := adb\<rparr>))"

text \<open>\<open>others\<close> are the sends that commit between what this one reads and writes.\<close>

definition messageHandler :: "'s messageIO \<Rightarrow> (msgdb \<Rightarrow> msgdb) \<Rightarrow> httpRequest \<Rightarrow> 's backing \<Rightarrow> handlerRun \<times> 's backing" where
  "messageHandler io others r w =
     (case Message_ServeHTTP (int MaxFrameBytes) (io\<lparr>mi_authdb := wo_auth w\<rparr>) r (wo_entropy w) (wo_msg w) (others (wo_msg w)) of
        (resp, entropy, db) \<Rightarrow> (plainRun resp, w\<lparr>wo_entropy := entropy, wo_msg := db\<rparr>))"

definition authRoutes :: "'s messageIO \<Rightarrow> 's backing APIRoute list" where
  "authRoutes io =
     [\<lparr>ar_Name = ''session'', ar_Path = ''/api/v1/session'', ar_AllowedMethods = None, ar_MaxBodyBytes = 0, ar_RejectQuery = False, ar_Handler = Some (sessionHandler io)\<rparr>,
      \<lparr>ar_Name = ''session_token_revoke'', ar_Path = ''/api/v1/session/tokens/current'', ar_AllowedMethods = Some [''DELETE''], ar_MaxBodyBytes = 0, ar_RejectQuery = False,
        ar_Handler = Some (revokeHandler io)\<rparr>]"

definition messageRoute :: "'s messageIO \<Rightarrow> (msgdb \<Rightarrow> msgdb) \<Rightarrow> 's backing APIRoute" where
  "messageRoute io others =
     \<lparr>ar_Name = ''message_send'', ar_Path = ''/api/v1/messages'', ar_AllowedMethods = Some [''POST''], ar_MaxBodyBytes = int MaxFrameBytes, ar_RejectQuery = True,
      ar_Handler = Some (messageHandler io others)\<rparr>"

section \<open>Startup\<close>

datatype startError = ApiFailure apiCode | AuthFailure authCode | MessageFailure msgCode | MessageConfigInvalid

record environment =
  en_AuthDSN :: bytes
  en_AllowLocalSocket :: bytes
  en_MessageHTTP :: bytes

record 's authRuntime =
  rt_authPool :: poolConfig
  rt_messagePool :: "poolConfig option"
  rt_routes :: "'s backing APIRoute list"

text \<open>\<^verbatim>\<open>net.ParseIP\<close> is a parameter.\<close>

definition loopbackAPIAddress :: "(bytes \<Rightarrow> bytes option) \<Rightarrow> bytes \<Rightarrow> bool" where
  "loopbackAPIAddress parseIP value =
     (case SplitHostPort value of
        None \<Rightarrow> False
      | Some (host, _) \<Rightarrow>
          (case parseIP host of None \<Rightarrow> False | Some ip \<Rightarrow> (case AddrFromSlice ip of None \<Rightarrow> False | Some a \<Rightarrow> IsLoopback (Unmap a))))"

definition newAuthRuntimeWithGuard :: "(bytes \<Rightarrow> bytes option) \<Rightarrow> pgxDriver \<Rightarrow> goContext \<Rightarrow> apiConfig \<Rightarrow> bytes \<Rightarrow> bool \<Rightarrow> bool \<Rightarrow> 's messageIO \<Rightarrow>
    (startError, 's authRuntime) result" where
  "newAuthRuntimeWithGuard parseIP driver ctx cfg dsn allowLocalSocket guarded io =
     (if \<not> loopbackAPIAddress parseIP (ac_APIAddr cfg) then Inl (ApiFailure CodeInvalidAuthConfig)
      else case Auth_Open driver ctx \<lparr>op_DSN = dsn, op_AllowLocalSocket = allowLocalSocket, op_MaxConnections = 8, op_ApplicationName = ''newim-auth-http'', op_Guard = guarded\<rparr> of
        Inl e \<Rightarrow> Inl (AuthFailure e)
      | Inr pool \<Rightarrow> Inr \<lparr>rt_authPool = pool, rt_messagePool = None, rt_routes = authRoutes io\<rparr>)"

definition validateMessageRuntimeConfig :: "(bytes \<Rightarrow> bytes option) \<Rightarrow> pgxDriver \<Rightarrow> apiConfig \<Rightarrow> bytes \<Rightarrow> bool \<Rightarrow> bool" where
  "validateMessageRuntimeConfig parseIP driver cfg dsn allowLocalSocket =
     (if dsn = [] \<or> \<not> allowLocalSocket \<or> \<not> loopbackAPIAddress parseIP (ac_APIAddr cfg) then False
      else case px_Parse driver dsn of
        None \<Rightarrow> False
      | Some c \<Rightarrow> \<not> (pc_Host c = [] \<or> \<not> HasPrefix (pc_Host c) ''/'' \<or> CHR '','' \<in> set (pc_Host c) \<or> pc_Fallbacks c \<noteq> []))"

definition messageStartupError :: "Guard \<Rightarrow> startError \<Rightarrow> startError" where
  "messageStartupError guard e =
     (if gu_tripped guard \<noteq> None then MessageConfigInvalid else if e = ApiFailure CodeInvalidAuthConfig then MessageConfigInvalid else e)"

text \<open>\<open>guards\<close> are the states of the identity guard after opening the auth pool, after opening the message pool and at the last look.\<close>

definition newAuthRuntimeFromEnv :: "environment \<Rightarrow> (bytes \<Rightarrow> bytes option) \<Rightarrow> pgxDriver \<Rightarrow> Guard \<times> Guard \<times> Guard \<Rightarrow> goContext \<Rightarrow> apiConfig \<Rightarrow>
    's messageIO \<Rightarrow> (msgdb \<Rightarrow> msgdb) \<Rightarrow> (startError, 's authRuntime option) result" where
  "newAuthRuntimeFromEnv env parseIP driver guards ctx cfg io others =
     (let dsn = TrimSpace (en_AuthDSN env); allowLocalSocket = (en_AllowLocalSocket env = ''1''); messageEnabled = (en_MessageHTTP env = ''1'') in
      if \<not> messageEnabled then
        (if dsn = [] then Inr None
         else case newAuthRuntimeWithGuard parseIP driver ctx cfg dsn allowLocalSocket False io of Inl e \<Rightarrow> Inl e | Inr rt \<Rightarrow> Inr (Some rt))
      else if \<not> validateMessageRuntimeConfig parseIP driver cfg dsn allowLocalSocket then Inl MessageConfigInvalid
      else case newAuthRuntimeWithGuard parseIP driver ctx cfg dsn allowLocalSocket True io of
        Inl e \<Rightarrow> Inl (messageStartupError (fst guards) e)
      | Inr rt \<Rightarrow>
          (case Message_Open driver ctx \<lparr>op_DSN = dsn, op_AllowLocalSocket = allowLocalSocket, op_MaxConnections = 8, op_ApplicationName = ''newim-message-http'', op_Guard = True\<rparr> of
             Inl e \<Rightarrow> Inl (messageStartupError (fst (snd guards)) (MessageFailure e))
           | Inr pool \<Rightarrow>
               if gu_tripped (snd (snd guards)) \<noteq> None then Inl MessageConfigInvalid
               else Inr (Some (rt\<lparr>rt_messagePool := Some pool, rt_routes := rt_routes rt @ [messageRoute io others]\<rparr>))))"

section \<open>Startup fails closed\<close>

text \<open>A socket pool under guard with no other target.\<close>

definition localGuarded :: "poolConfig \<Rightarrow> bool" where
  "localGuarded c \<longleftrightarrow> isSocket (pc_Host c) \<and> pc_Fallbacks c = [] \<and> pc_Guarded c \<and> pc_MaxConns c = 8"

lemma Auth_Open_parsed:
  assumes "Auth_Open driver ctx config = Inr c"
  obtains c0 where "px_Parse driver (op_DSN config) = Some c0" "acceptsTargets (op_AllowLocalSocket config) c0" "pc_Host c = pc_Host c0" "pc_TLS c = pc_TLS c0"
    "pc_Fallbacks c = pc_Fallbacks c0" "pc_Guarded c = op_Guard config" "pc_MaxConns c = (if op_MaxConnections config \<noteq> 0 then op_MaxConnections config else 8)"
  using assms by (auto simp: Auth_Open_def connectPool_Inr bounded_def split: if_splits option.splits)

lemma Message_Open_parsed:
  assumes "Message_Open driver ctx config = Inr c"
  obtains c0 where "px_Parse driver (op_DSN config) = Some c0" "acceptsTargets (op_AllowLocalSocket config) c0" "pc_Host c = pc_Host c0" "pc_TLS c = pc_TLS c0"
    "pc_Fallbacks c = pc_Fallbacks c0" "pc_Guarded c = op_Guard config" "pc_MaxConns c = (if op_MaxConnections config \<noteq> 0 then op_MaxConnections config else 8)"
  using assms by (auto simp: Message_Open_def connectPool_Inr bounded_def split: if_splits option.splits)

lemma guardedRuntime:
  assumes "newAuthRuntimeWithGuard parseIP driver ctx cfg dsn allow guarded io = Inr rt"
  shows "loopbackAPIAddress parseIP (ac_APIAddr cfg) \<and> authenticated allow (rt_authPool rt) \<and> rt_messagePool rt = None \<and> rt_routes rt = authRoutes io \<and>
    (\<exists>c0. px_Parse driver dsn = Some c0 \<and> pc_Host (rt_authPool rt) = pc_Host c0 \<and> pc_Fallbacks (rt_authPool rt) = pc_Fallbacks c0) \<and>
    pc_Guarded (rt_authPool rt) = guarded \<and> pc_MaxConns (rt_authPool rt) = 8"
proof -
  obtain pool where a: "loopbackAPIAddress parseIP (ac_APIAddr cfg)" "rt = \<lparr>rt_authPool = pool, rt_messagePool = None, rt_routes = authRoutes io\<rparr>"
    "Auth_Open driver ctx \<lparr>op_DSN = dsn, op_AllowLocalSocket = allow, op_MaxConnections = 8, op_ApplicationName = ''newim-auth-http'', op_Guard = guarded\<rparr> = Inr pool"
    using assms by (auto simp: newAuthRuntimeWithGuard_def split: if_splits sum.splits)
  obtain c0 where c: "px_Parse driver dsn = Some c0" "acceptsTargets allow c0" "pc_Host pool = pc_Host c0" "pc_TLS pool = pc_TLS c0"
    "pc_Fallbacks pool = pc_Fallbacks c0" "pc_Guarded pool = guarded" "pc_MaxConns pool = 8"
    using Auth_Open_parsed [OF a(3)] by auto
  moreover have "authenticated allow pool" using accepts_authenticated [OF c(2)] c(3,4,5) by (simp add: authenticated_def)
  ultimately show ?thesis using a by simp
qed

lemma authRoutes_paths: "messageRoute io others \<notin> set (authRoutes io')"
  by (simp add: messageRoute_def authRoutes_def)

text \<open>
  C24. The process serves its session endpoints only on a loopback address and over pools that authenticate the database; it
  serves the message endpoint only when that is asked for, with both pools on one local socket, both under the identity guard
  and the guard not tripped.
\<close>

theorem startup_fails_closed:
  assumes "newAuthRuntimeFromEnv env parseIP driver guards ctx cfg io others = Inr (Some rt)"
  shows "loopbackAPIAddress parseIP (ac_APIAddr cfg) \<and> authenticated (en_AllowLocalSocket env = ''1'') (rt_authPool rt) \<and> pc_MaxConns (rt_authPool rt) = 8 \<and>
    (messageRoute io others \<in> set (rt_routes rt) \<longrightarrow> en_MessageHTTP env = ''1'' \<and> en_AllowLocalSocket env = ''1'' \<and> gu_tripped (snd (snd guards)) = None \<and>
      (\<exists>pool. rt_messagePool rt = Some pool \<and> localGuarded pool \<and> localGuarded (rt_authPool rt) \<and> pc_Host pool = pc_Host (rt_authPool rt)))"
proof (cases "en_MessageHTTP env = ''1''")
  case False
  then have "newAuthRuntimeWithGuard parseIP driver ctx cfg (TrimSpace (en_AuthDSN env)) (en_AllowLocalSocket env = ''1'') False io = Inr rt"
    using assms by (auto simp: newAuthRuntimeFromEnv_def Let_def split: if_splits sum.splits)
  from guardedRuntime [OF this] show ?thesis using authRoutes_paths [of io others io] by simp
next
  case True
  let ?dsn = "TrimSpace (en_AuthDSN env)" and ?allow = "en_AllowLocalSocket env = ''1''"
  obtain rt0 pool where r: "validateMessageRuntimeConfig parseIP driver cfg ?dsn ?allow" "newAuthRuntimeWithGuard parseIP driver ctx cfg ?dsn ?allow True io = Inr rt0"
    "Message_Open driver ctx \<lparr>op_DSN = ?dsn, op_AllowLocalSocket = ?allow, op_MaxConnections = 8, op_ApplicationName = ''newim-message-http'', op_Guard = True\<rparr> = Inr pool"
    "gu_tripped (snd (snd guards)) = None" "rt = rt0\<lparr>rt_messagePool := Some pool, rt_routes := rt_routes rt0 @ [messageRoute io others]\<rparr>"
    using assms True by (auto simp: newAuthRuntimeFromEnv_def Let_def split: if_splits sum.splits)
  note g = guardedRuntime [OF r(2)]
  obtain c where c: "px_Parse driver ?dsn = Some c" "HasPrefix (pc_Host c) ''/''" "pc_Fallbacks c = []" ?allow
    using r(1) by (auto simp: validateMessageRuntimeConfig_def split: if_splits option.splits)
  have "isSocket (pc_Host c)" using c(2) by (cases "pc_Host c") (auto simp: HasPrefix_def isSocket_def)
  moreover obtain "pc_Host pool = pc_Host c" "pc_Fallbacks pool = pc_Fallbacks c" "pc_Guarded pool" "pc_MaxConns pool = 8"
    using Message_Open_parsed [OF r(3)] c(1) by auto
  moreover have "pc_Host (rt_authPool rt0) = pc_Host c" "pc_Fallbacks (rt_authPool rt0) = pc_Fallbacks c" using g c(1) by auto
  ultimately show ?thesis using g c(3,4) r(4,5) True by (simp add: localGuarded_def)
qed

definition socketDriver :: pgxDriver where
  "socketDriver = \<lparr>px_Parse = (\<lambda>_. Some \<lparr>pc_Host = ''/run/pg'', pc_TLS = None, pc_Fallbacks = [], pc_MaxConns = 4, pc_MinConns = 1, pc_MinIdleConns = 1,
     pc_ConnectTimeout = 0, pc_MaxBodyLen = 0, pc_Params = [], pc_Guarded = False\<rparr>), px_New = (\<lambda>_. True), px_Ping = (\<lambda>_. True)\<rparr>"

definition sampleEnv :: environment where
  "sampleEnv = \<lparr>en_AuthDSN = '' host=/run/pg '', en_AllowLocalSocket = ''1'', en_MessageHTTP = ''1''\<rparr>"

theorem startup_fails_closed_witness:
  "\<exists>rt. newAuthRuntimeFromEnv sampleEnv (\<lambda>_. Some (octets [127, 0, 0, 1])) socketDriver (NewGuard, NewGuard, NewGuard) (Some False) sampleConfig httpIO (\<lambda>db. db) = Inr (Some rt) \<and>
     messageRoute httpIO (\<lambda>db. db) \<in> set (rt_routes rt) \<and> localGuarded (rt_authPool rt)"
proof -
  let ?ip = "\<lambda>_ :: bytes. Some (octets [127, 0, 0, 1])" and ?dsn = "TrimSpace (en_AuthDSN sampleEnv)"
  have v: "validateMessageRuntimeConfig ?ip socketDriver sampleConfig ?dsn True" "loopbackAPIAddress ?ip (ac_APIAddr sampleConfig)" by code_simp+
  have o: "is_ok (Auth_Open socketDriver (Some False)
      \<lparr>op_DSN = ?dsn, op_AllowLocalSocket = True, op_MaxConnections = 8, op_ApplicationName = ''newim-auth-http'', op_Guard = True\<rparr>)"
    "is_ok (Message_Open socketDriver (Some False)
      \<lparr>op_DSN = ?dsn, op_AllowLocalSocket = True, op_MaxConnections = 8, op_ApplicationName = ''newim-message-http'', op_Guard = True\<rparr>)" by code_simp+
  have e: "en_AllowLocalSocket sampleEnv = ''1''" "en_MessageHTTP sampleEnv = ''1''" "gu_tripped NewGuard = None" by (simp_all add: sampleEnv_def NewGuard_def)
  obtain rt where r: "newAuthRuntimeFromEnv sampleEnv ?ip socketDriver (NewGuard, NewGuard, NewGuard) (Some False) sampleConfig httpIO (\<lambda>db. db) = Inr (Some rt)"
    "messageRoute httpIO (\<lambda>db. db) \<in> set (rt_routes rt)"
    using v o e by (auto simp: newAuthRuntimeFromEnv_def newAuthRuntimeWithGuard_def is_ok_iff)
  then show ?thesis using startup_fails_closed [OF r(1)] by blast
qed

section \<open>Messages through the server\<close>

lemma messageRoute_registered:
  assumes "validateAPIRoutes (authRoutes io @ [messageRoute io others]) = Inr m" "map_of m ''/api/v1/messages'' = Some x"
  shows "x = messageRoute io others"
  using routes_registered [OF assms] by (auto simp: authRoutes_def messageRoute_def normalizeAllowedMethods_def methodRank_def methodOrder_def)

lemma leave_message:
  assumes "leave floats elapsed ''api'' r s = (resp, s')" "hq_EscapedPath r = ''/api/v1/messages''" "hs_Status resp = 200"
    "\<And>x. map_of (sv_apiRoutes s) ''/api/v1/messages'' = Some x \<Longrightarrow> x = messageRoute io others"
  obtains resp0 where "hq_Method r = ''POST''" "hq_RawQuery r = []" "hs_Status resp0 = 200" "hs_Body resp0 = hs_Body resp"
    "Message_ServeHTTP (int MaxFrameBytes) (io\<lparr>mi_authdb := wo_auth (sv_world s)\<rparr>) (limitBody (int MaxFrameBytes) r) (wo_entropy (sv_world s)) (wo_msg (sv_world s))
       (others (wo_msg (sv_world s))) = (resp0, wo_entropy (sv_world s'), wo_msg (sv_world s'))"
proof -
  let ?found = "resolveRoute s ''api'' ''/api/v1/messages''"
  have f: "?found = map_of (sv_apiRoutes s) ''/api/v1/messages''" by (simp add: resolveRoute_def)
  obtain route where a: "admit ?found r = Inr route"
    using assms(1-3) by (auto simp: leave_def Let_def admit_def apiError_def writeJSON_def split: sum.splits option.splits if_splits)
  then have x: "?found = Some route" by (auto simp: admit_def split: option.splits if_splits)
  then have route: "route = messageRoute io others" using assms(4) f by simp
  obtain s1 where s1: "runRoute floats route r s = (resp, s1)" "sv_world s1 = sv_world s'"
    using assms(1,2) a by (auto simp: leave_def Let_def split: prod.splits)
  obtain run where h: "messageHandler io others (limitBody (int MaxFrameBytes) r) (sv_world s) = (run, sv_world s')" "resp = recoverRequest run"
    using s1 by (auto simp: runRoute_def route messageRoute_def split: prod.splits)
  have "hq_Method r = ''POST''" "hq_RawQuery r = []"
    using a x by (auto simp: admit_def route messageRoute_def allowsMethod_def split: if_splits)
  moreover obtain resp0 entropy db where q: "Message_ServeHTTP (int MaxFrameBytes) (io\<lparr>mi_authdb := wo_auth (sv_world s)\<rparr>) (limitBody (int MaxFrameBytes) r)
      (wo_entropy (sv_world s)) (wo_msg (sv_world s)) (others (wo_msg (sv_world s))) = (resp0, entropy, db)" by (metis prod_cases3)
  moreover have "run = plainRun resp0" "(sv_world s)\<lparr>wo_entropy := entropy, wo_msg := db\<rparr> = sv_world s'" using h(1) q by (simp_all add: messageHandler_def)
  moreover from this(2) have "entropy = wo_entropy (sv_world s')" "db = wo_msg (sv_world s')" by (metis backing.select_convs backing.surjective backing.update_convs)+
  ultimately show thesis using that [of resp0] h(2) assms(3) by (simp add: recoverRequest_def plainRun_def)
qed

lemma limitBody_fields [simp]: "headerValues (limitBody n r) k = headerValues r k" "hq_Context (limitBody n r) = hq_Context r"
  by (simp_all add: limitBody_def headerValues_def)

lemma limitBody_whole: "snd (hq_Body (limitBody n r)) = EndOK \<Longrightarrow> hq_Body (limitBody n r) = hq_Body r"
  by (auto simp: limitBody_def split: if_splits)

text \<open>
  C1. A message acknowledged by the server is stored for the user of the presented token: under any interleaving of requests, a
  response with status 200 at the message path comes only for a POST whose bearer token authenticates; the message is a row whose
  sender is the user that the session store binds the token to, with the intent of the decoded request, in a conversation this user
  is a member of; it survives any further sends, and the response body decodes to the acknowledgement of that row.
\<close>

theorem http_acknowledged_stored:
  assumes "NewWithRoutes cfg (authRoutes io @ [messageRoute io others]) w0 = Inr s0" "(api_step floats)\<^sup>*\<^sup>* (s0, [], []) (s, running, left)"
    "leave floats elapsed ''api'' r s = (resp, s')" "hq_EscapedPath r = ''/api/v1/messages''" "hs_Status resp = 200"
    "\<And>db. set (db_messages db) \<subseteq> set (db_messages (others db))" "msgInv (others (wo_msg (sv_world s)))" "send_step\<^sup>*\<^sup>* (wo_msg (sv_world s')) db3"
  shows "\<exists>token session request row. hq_Method r = ''POST'' \<and> hq_RawQuery r = [] \<and> ParseBearerHeader (headerValues r ''Authorization'') = Some token \<and>
    AuthenticateBearer (Some (hq_Context r)) (mi_authEnv io) (mi_clock io) token (wo_auth (sv_world s)) = Inr session \<and>
    DecodeSend (fst (hq_Body r)) = Inr request \<and> (s_ConversationID request, sb_UserID (bs_binding session)) \<in> set (db_members (wo_msg (sv_world s))) \<and>
    row \<in> set (db_messages db3) \<and> sr_SenderID row = sb_UserID (bs_binding session) \<and> SameIntent (intent row) request = Inr True \<and>
    DecodeServerFrame (hs_Body resp) = Inr (trimFrame (noFrame\<lparr>f_Ack := Some (ackFor (persisted row))\<rparr>))"
proof -
  obtain m where m: "validateAPIRoutes (authRoutes io @ [messageRoute io others]) = Inr m" "sv_apiRoutes s = m"
    using routes_fixed_run [OF assms(1,2)] by blast
  have reg: "x = messageRoute io others" if "map_of (sv_apiRoutes s) ''/api/v1/messages'' = Some x" for x
    using messageRoute_registered [OF m(1)] that m(2) by simp
  obtain resp0 where p: "hq_Method r = ''POST''" "hq_RawQuery r = []" "hs_Status resp0 = 200" "hs_Body resp0 = hs_Body resp"
    "Message_ServeHTTP (int MaxFrameBytes) (io\<lparr>mi_authdb := wo_auth (sv_world s)\<rparr>) (limitBody (int MaxFrameBytes) r) (wo_entropy (sv_world s)) (wo_msg (sv_world s))
       (others (wo_msg (sv_world s))) = (resp0, wo_entropy (sv_world s'), wo_msg (sv_world s'))"
    by (rule leave_message [OF assms(3,4,5) reg])
  obtain token session request row where q: "ParseBearerHeader (headerValues r ''Authorization'') = Some token"
    "AuthenticateBearer (Some (hq_Context r)) (mi_authEnv io) (mi_clock io) token (wo_auth (sv_world s)) = Inr session"
    "DecodeSend (fst (hq_Body (limitBody (int MaxFrameBytes) r))) = Inr request" "snd (hq_Body (limitBody (int MaxFrameBytes) r)) = EndOK"
    "(s_ConversationID request, sb_UserID (bs_binding session)) \<in> set (db_members (wo_msg (sv_world s)))"
    "row \<in> set (db_messages db3)" "sr_SenderID row = sb_UserID (bs_binding session)" "SameIntent (intent row) request = Inr True"
    "DecodeServerFrame (hs_Body resp0) = Inr (trimFrame (noFrame\<lparr>f_Ack := Some (ackFor (persisted row))\<rparr>))"
    using Message_ServeHTTP_stored [OF p(5,3) assms(6,7,8)] by auto
  then show ?thesis using p(1,2,4) limitBody_whole [OF q(4)] by metis
qed

definition sampleWorld :: "bytes backing" where
  "sampleWorld = \<lparr>wo_auth = httpAuthDb, wo_entropy = sampleEntropy, wo_msg = sampleMsgDb\<rparr>"

lemma runtime_served:
  obtains s0 where "NewWithRoutes sampleConfig (authRoutes io @ [messageRoute io others]) w = Inr s0" "sv_world s0 = w"
    "map_of (sv_apiRoutes s0) ''/api/v1/messages'' = Some (messageRoute io others)"
proof -
  have v: "validRouteName ''session''" "validRouteName ''session_token_revoke''" "validRouteName ''message_send''" "validRoutePath ''/api/v1/session''"
    "validRoutePath ''/api/v1/session/tokens/current''" "validRoutePath ''/api/v1/messages''" by code_simp+
  obtain m where "validateAPIRoutes (authRoutes io @ [messageRoute io others]) = Inr m" "map_of m ''/api/v1/messages'' = Some (messageRoute io others)"
    by (simp add: validateAPIRoutes_def authRoutes_def messageRoute_def v normalizeAllowedMethods_def methodRank_def methodOrder_def isPostOnly_def)
  then show thesis using that by (simp add: NewWithRoutes_def sampleConfig_valid)
qed

theorem http_acknowledged_stored_witness:
  "\<exists>s0 body resp s'. NewWithRoutes sampleConfig (authRoutes httpIO @ [messageRoute httpIO (\<lambda>db. db)]) sampleWorld = Inr s0 \<and>
     leave ([], \<lambda>_. []) 0 ''api'' (httpSend body) s0 = (resp, s') \<and> hs_Status resp = 200 \<and> (\<exists>row \<in> set (db_messages (wo_msg (sv_world s'))). sr_SenderID row = ''u1'')"
proof -
  obtain s0 where s0: "NewWithRoutes sampleConfig (authRoutes httpIO @ [messageRoute httpIO (\<lambda>db. db)]) sampleWorld = Inr s0" "sv_world s0 = sampleWorld"
    "map_of (sv_apiRoutes s0) ''/api/v1/messages'' = Some (messageRoute httpIO (\<lambda>db. db))" by (rule runtime_served)
  obtain body resp0 where b: "Message_ServeHTTP (int MaxFrameBytes) httpIO (httpSend body) sampleEntropy sampleMsgDb sampleMsgDb = (resp0, [], sampleAfter)"
    "hs_Status resp0 = 200" "int (length body) \<le> int MaxFrameBytes" by (rule httpServed)
  have i: "httpIO\<lparr>mi_authdb := httpAuthDb\<rparr> = httpIO" "limitBody (int MaxFrameBytes) (httpSend body) = httpSend body"
    using b(3) by (simp_all add: httpIO_def limitBody_def httpSend_def)
  obtain resp s' where l: "leave ([], \<lambda>_. []) 0 ''api'' (httpSend body) s0 = (resp, s')" by fastforce
  have q: "hq_EscapedPath (httpSend body) = ''/api/v1/messages''" by (simp add: httpSend_def)
  have "admit (Some (messageRoute httpIO (\<lambda>db. db))) (httpSend body) = Inr (messageRoute httpIO (\<lambda>db. db))"
    by (simp add: admit_def messageRoute_def httpSend_def allowsMethod_def MaxFrameBytes_def)
  then have w: "hs_Status resp = 200" "wo_msg (sv_world s') = sampleAfter"
    using l b(1,2) i by (auto simp: leave_def resolveRoute_def s0 q runRoute_def messageRoute_def messageHandler_def sampleWorld_def recoverRequest_def plainRun_def Let_def)
  have "mi_authEnv httpIO = goodEnv" "mi_clock httpIO = 1000" "hq_Context (httpSend body) = False"
    "ParseBearerHeader (headerValues (httpSend body) ''Authorization'') = ParseBearerHeader [''Bearer '' @ sampleRaw]"
    by (simp_all add: httpIO_def httpSend_def headerValues_def)
  moreover note httpBearer
  moreover have "msgInv (wo_msg (sv_world s0))" using sampleMsgDb_inv by (simp add: s0(2) sampleWorld_def)
  ultimately have "\<exists>row \<in> set (db_messages (wo_msg (sv_world s'))). sr_SenderID row = ''u1''"
    using http_acknowledged_stored [OF s0(1) rtranclp.rtrancl_refl l q w(1) subset_refl _ rtranclp.rtrancl_refl] httpSession by (auto simp: s0(2) sampleWorld_def)
  then show ?thesis using s0(1) l w(1) by blast
qed

end
