(* ===== verification/Lifecycle.thy ===== *)
theory Lifecycle
  imports Database
begin

text \<open>
  How the process ends (\<^verbatim>\<open>run_lifecycle.go\<close>, \<^verbatim>\<open>runtime_lifecycle.go\<close> and the end of \<^verbatim>\<open>run\<close> in \<^verbatim>\<open>server/cmd/newim-server\<close>): the
  coordinator \<^verbatim>\<open>joinRuntimeServerAndFatal\<close> as a machine whose \<^verbatim>\<open>select\<close> takes any ready case, while the guard may trip and the pools
  may finish closing at any moment.
\<close>

section \<open>The terminal state and the closer\<close>

definition Trip :: "'e \<Rightarrow> 'e option \<Rightarrow> 'e option" where
  "Trip e t = (case t of Some first \<Rightarrow> Some first | None \<Rightarrow> Some e)"

text \<open>\<open>orderedCloser\<close>: whether \<^verbatim>\<open>once\<close> has run, and what was closed.\<close>

definition Closer_Close :: "'r option \<Rightarrow> 'r option \<Rightarrow> bool \<times> 'r list \<Rightarrow> bool \<times> 'r list" where
  "Closer_Close closeMessage closeAuth c =
     (if fst c then c else (True, snd c @ (case closeMessage of None \<Rightarrow> [] | Some m \<Rightarrow> [m]) @ (case closeAuth of None \<Rightarrow> [] | Some a \<Rightarrow> [a])))"

section \<open>The coordinator\<close>

datatype phase = Loop | Select | Returned

text \<open>The channels it still waits for, its timer and close latch, what it cancelled, the result, and the terminal state it watches.\<close>

record 'e join =
  jn_phase :: phase
  jn_serverDone :: bool
  jn_workerDone :: bool
  jn_shutdown :: bool
  jn_closeDone :: bool
  jn_armed :: bool
  jn_closing :: bool
  jn_closed :: bool
  jn_cancelledServer :: bool
  jn_cancelledWorker :: bool
  jn_serverErr :: "'e option"
  jn_workerErr :: "'e option"
  jn_terminalErr :: "'e option"
  jn_timedOut :: bool
  jn_terminal :: "'e option"

definition joinStart :: "bool \<Rightarrow> 'e option \<Rightarrow> 'e join" where
  "joinStart worker terminal =
     \<lparr>jn_phase = Loop, jn_serverDone = True, jn_workerDone = worker, jn_shutdown = True, jn_closeDone = True, jn_armed = False, jn_closing = False, jn_closed = False,
      jn_cancelledServer = False, jn_cancelledWorker = False, jn_serverErr = None, jn_workerErr = None, jn_terminalErr = None, jn_timedOut = False, jn_terminal = terminal\<rparr>"

definition waiting :: "'e join \<Rightarrow> bool" where
  "waiting s \<longleftrightarrow> jn_serverDone s \<or> jn_workerDone s \<or> jn_shutdown s \<or> jn_closeDone s"

definition syncTerminal :: "'e join \<Rightarrow> 'e join" where
  "syncTerminal s =
     (if jn_terminalErr s \<noteq> None then s
      else case jn_terminal s of
        None \<Rightarrow> s
      | Some e \<Rightarrow> s\<lparr>jn_terminalErr := Some e, jn_shutdown := False, jn_cancelledServer := True, jn_cancelledWorker := True, jn_armed := True\<rparr>)"

definition beginClose :: "'e join \<Rightarrow> 'e join" where
  "beginClose s = s\<lparr>jn_closing := True\<rparr>"

definition loopTop :: "'e join \<Rightarrow> 'e join" where
  "loopTop s = (let s1 = syncTerminal s in if jn_terminalErr s1 \<noteq> None \<and> \<not> jn_serverDone s1 then beginClose s1 else s1)"

definition onShutdown :: "'e join \<Rightarrow> 'e join" where
  "onShutdown s =
     (let s1 = (syncTerminal (s\<lparr>jn_shutdown := False\<rparr>))\<lparr>jn_cancelledServer := True, jn_cancelledWorker := True, jn_armed := True\<rparr>
      in if \<not> jn_serverDone s1 then beginClose s1 else s1)"

definition onServer :: "'e option \<Rightarrow> 'e join \<Rightarrow> 'e join" where
  "onServer err s =
     (beginClose ((syncTerminal (s\<lparr>jn_serverDone := False, jn_shutdown := False, jn_serverErr := err\<rparr>))\<lparr>jn_cancelledWorker := True\<rparr>))\<lparr>jn_armed := True\<rparr>"

definition onWorker :: "'e option \<Rightarrow> 'e join \<Rightarrow> 'e join" where
  "onWorker err s =
     (let s1 = (syncTerminal (s\<lparr>jn_workerDone := False, jn_shutdown := False, jn_workerErr := err\<rparr>))\<lparr>jn_cancelledServer := True, jn_armed := True\<rparr>
      in if \<not> jn_serverDone s1 then beginClose s1 else s1)"

definition onDeadline :: "'e join \<Rightarrow> 'e join" where
  "onDeadline s =
     (let s1 = (syncTerminal s)\<lparr>jn_cancelledServer := True, jn_cancelledWorker := True\<rparr>;
          s2 = (if jn_terminalErr s1 = None then s1\<lparr>jn_timedOut := True\<rparr> else s1)
      in beginClose s2)"

text \<open>
  The moves the coordinator makes by itself, with the terminal state and its own timer: the head of the loop, its end, and the cases
  of the closed terminal channel and of the deadline.
\<close>

inductive own_step :: "'e join \<Rightarrow> 'e join \<Rightarrow> bool" where
  join_top: "jn_phase s = Loop \<Longrightarrow> waiting s \<Longrightarrow> own_step s ((loopTop s)\<lparr>jn_phase := Select\<rparr>)"
| join_exit: "jn_phase s = Loop \<Longrightarrow> \<not> waiting s \<Longrightarrow> own_step s ((syncTerminal s)\<lparr>jn_phase := Returned\<rparr>)"
| case_terminal: "jn_phase s = Select \<Longrightarrow> jn_terminalErr s = None \<Longrightarrow> jn_terminal s \<noteq> None \<Longrightarrow> own_step s ((syncTerminal s)\<lparr>jn_phase := Loop\<rparr>)"
| case_deadline: "jn_phase s = Select \<Longrightarrow> jn_armed s \<Longrightarrow> own_step s ((onDeadline s)\<lparr>jn_phase := Returned\<rparr>)"

text \<open>All moves: also those where others have something to say, and what happens around the coordinator.\<close>

inductive join_step :: "'e join \<Rightarrow> 'e join \<Rightarrow> bool" where
  join_own: "own_step s t \<Longrightarrow> join_step s t"
| join_trip: "jn_phase s \<noteq> Returned \<Longrightarrow> join_step s (s\<lparr>jn_terminal := Trip e (jn_terminal s)\<rparr>)"
| join_closed: "jn_closing s \<Longrightarrow> join_step s (s\<lparr>jn_closed := True\<rparr>)"
| case_shutdown: "jn_phase s = Select \<Longrightarrow> jn_shutdown s \<Longrightarrow> join_step s ((onShutdown s)\<lparr>jn_phase := Loop\<rparr>)"
| case_server: "jn_phase s = Select \<Longrightarrow> jn_serverDone s \<Longrightarrow> join_step s ((onServer err s)\<lparr>jn_phase := Loop\<rparr>)"
| case_worker: "jn_phase s = Select \<Longrightarrow> jn_workerDone s \<Longrightarrow> join_step s ((onWorker err s)\<lparr>jn_phase := Loop\<rparr>)"
| case_closed: "jn_phase s = Select \<Longrightarrow> jn_closeDone s \<Longrightarrow> jn_closed s \<Longrightarrow> join_step s (s\<lparr>jn_closeDone := False, jn_phase := Loop\<rparr>)"

text \<open>The exit code \<^verbatim>\<open>run\<close> gives for the result.\<close>

definition exitCode :: "'e join \<Rightarrow> int" where
  "exitCode s =
     (if jn_terminalErr s \<noteq> None then 1
      else if jn_timedOut s then 1
      else
        let serverErr = (if jn_serverErr s = None \<and> jn_workerErr s \<noteq> None then jn_workerErr s else jn_serverErr s)
        in if serverErr \<noteq> None then 1 else 0)"

section \<open>Its invariant\<close>

definition joinInv :: "'e join \<Rightarrow> bool" where
  "joinInv s \<longleftrightarrow>
     (jn_closing s \<longrightarrow> \<not> jn_serverDone s \<or> jn_phase s = Returned \<and> jn_armed s) \<and>
     (\<not> jn_serverDone s \<longrightarrow> jn_closing s \<and> jn_armed s) \<and> (\<not> jn_shutdown s \<longrightarrow> jn_armed s) \<and>
     (jn_terminalErr s \<noteq> None \<longrightarrow> jn_terminalErr s = jn_terminal s \<and> jn_armed s \<and> jn_cancelledServer s \<and> jn_cancelledWorker s) \<and>
     (jn_armed s \<longrightarrow> (jn_cancelledServer s \<or> \<not> jn_serverDone s) \<and> (jn_cancelledWorker s \<or> \<not> jn_workerDone s)) \<and>
     (\<not> jn_closeDone s \<longrightarrow> jn_closed s) \<and> (jn_closed s \<longrightarrow> jn_closing s) \<and>
     (jn_timedOut s \<longrightarrow> jn_phase s = Returned \<and> jn_armed s) \<and>
     (jn_phase s = Returned \<longrightarrow> jn_terminalErr s = jn_terminal s \<and> (jn_terminalErr s = None \<longrightarrow> jn_timedOut s \<or> \<not> waiting s))"

lemmas join_ops = syncTerminal_def beginClose_def loopTop_def onShutdown_def onServer_def onWorker_def onDeadline_def Let_def

lemma joinInvD:
  assumes "joinInv s"
  shows "\<not> jn_shutdown s \<Longrightarrow> jn_armed s" "\<not> jn_serverDone s \<Longrightarrow> jn_armed s" "\<not> jn_closeDone s \<Longrightarrow> jn_closed s"
    "jn_phase s = Returned \<Longrightarrow> jn_terminalErr s = jn_terminal s" "jn_phase s = Returned \<Longrightarrow> jn_terminalErr s = None \<Longrightarrow> jn_timedOut s \<or> \<not> waiting s"
    "jn_closing s \<Longrightarrow> \<not> jn_serverDone s \<or> jn_phase s = Returned \<and> jn_armed s"
  using assms unfolding joinInv_def by blast+

lemma joinInv_start: "joinInv (joinStart worker terminal)"
  by (simp add: joinInv_def joinStart_def)

lemma joinInv_own: "own_step s t \<Longrightarrow> joinInv s \<Longrightarrow> joinInv t"
  by (induction rule: own_step.induct) (auto simp: joinInv_def join_ops waiting_def split: option.splits)

lemma joinInv_step: "join_step s t \<Longrightarrow> joinInv s \<Longrightarrow> joinInv t"
proof (induction rule: join_step.induct)
  case (join_own s t)
  then show ?case by (rule joinInv_own)
next
  case (join_trip s e)
  then show ?case by (auto simp: joinInv_def Trip_def waiting_def split: option.splits)
qed (auto simp: joinInv_def join_ops waiting_def split: option.splits)

interpretation join_runs: store_runs join_step joinInv
  by unfold_locales (rule joinInv_step)

lemma Trip_latch: "t = Some e \<Longrightarrow> Trip x t = Some e"
  by (simp add: Trip_def)

interpretation join_terminal: store_latch join_step joinInv "\<lambda>s e. jn_terminal s = Some e"
proof
  fix s t :: "'a join" and e
  assume "join_step s t" "joinInv s" "jn_terminal s = Some e"
  then show "jn_terminal t = Some e"
    by (induction rule: join_step.induct) (auto simp: join_ops Trip_latch elim!: own_step.cases split: option.splits)
qed

section \<open>Returning unaided\<close>

text \<open>How many own moves are left at most: a head of the loop looks at the terminal state, so that the terminal case comes once.\<close>

definition movesLeft :: "'e join \<Rightarrow> nat" where
  "movesLeft s = (case jn_phase s of Loop \<Rightarrow> 2 | Select \<Rightarrow> (if jn_terminalErr s = None \<and> jn_terminal s \<noteq> None then 3 else 1) | Returned \<Rightarrow> 0)"

lemma movesLeft_step: "own_step s t \<Longrightarrow> movesLeft t < movesLeft s"
  by (induction rule: own_step.induct) (auto simp: movesLeft_def join_ops split: option.splits)

lemma movesLeft_run: "(own_step ^^ n) s t \<Longrightarrow> n + movesLeft t \<le> movesLeft s"
proof (induction n arbitrary: t)
  case (Suc n)
  then obtain u where "(own_step ^^ n) s u" "own_step u t" by auto
  then show ?case using Suc.IH movesLeft_step by fastforce
qed simp

lemma workerDone_armed: "join_step\<^sup>*\<^sup>* (joinStart True terminal) s \<Longrightarrow> \<not> jn_workerDone s \<Longrightarrow> jn_armed s"
proof (induction rule: rtranclp_induct)
  case (step s t)
  then show ?case by (auto simp: join_ops elim!: join_step.cases own_step.cases split: option.splits if_splits)
qed (simp add: joinStart_def)

text \<open>What starts the end, and that it lasts.\<close>

definition ending :: "'e join \<Rightarrow> bool" where
  "ending s \<longleftrightarrow> jn_armed s \<or> jn_terminal s \<noteq> None"

lemma ending_own: "own_step s t \<Longrightarrow> ending s \<Longrightarrow> ending t"
  by (induction rule: own_step.induct) (auto simp: ending_def join_ops split: option.splits)

lemma own_run_keeps: "(own_step ^^ n) s t \<Longrightarrow> joinInv s \<Longrightarrow> ending s \<Longrightarrow> joinInv t \<and> ending t"
proof (induction n arbitrary: t)
  case (Suc n)
  then obtain u where "(own_step ^^ n) s u" "own_step u t" by auto
  then show ?case using Suc joinInv_own ending_own by blast
qed simp

lemma own_enabled:
  assumes "joinInv s" "ending s" "jn_phase s \<noteq> Returned"
  shows "\<exists>t. own_step s t"
proof (cases "jn_phase s")
  case Loop
  then show ?thesis using join_top join_exit by blast
next
  case Select
  show ?thesis
  proof (cases "jn_armed s")
    case False
    then have "jn_terminalErr s = None" "jn_terminal s \<noteq> None" using assms(1,2) by (auto simp: joinInv_def ending_def)
    then show ?thesis using case_terminal [OF Select] by blast
  qed (use case_deadline [OF Select] in blast)
qed (use assms(3) in simp)

text \<open>
  C22. However the events of a shutdown interleave: the pools start to close only after the HTTP server is done, or when the grace
  period is over; a trip of the identity guard before the coordinator's last look is never lost, whatever else ends or times out
  first, and makes the exit code 1; exit code 0 means that server, worker and pools all ended without an error and the guard did
  not trip. And after a trip, a signal, or the end of the server or the worker, the coordinator returns unaided: with server, worker
  and pools silent for ever, every run of its own moves has at most three of them and does not stop before the return.
\<close>

theorem shutdown_coordinated:
  assumes "join_step\<^sup>*\<^sup>* (joinStart worker terminal) s"
  shows "(jn_closing s \<longrightarrow> \<not> jn_serverDone s \<or> jn_phase s = Returned \<and> jn_armed s) \<and>
    (jn_phase s = Returned \<longrightarrow> jn_terminalErr s = jn_terminal s \<and> (jn_terminal s \<noteq> None \<longrightarrow> exitCode s = 1)) \<and>
    (jn_phase s = Returned \<and> exitCode s = 0 \<longrightarrow> jn_terminal s = None \<and> \<not> jn_serverDone s \<and> \<not> jn_workerDone s \<and> jn_closed s \<and>
      jn_serverErr s = None \<and> jn_workerErr s = None) \<and>
    (jn_terminal s \<noteq> None \<or> \<not> jn_shutdown s \<or> \<not> jn_serverDone s \<or> worker \<and> \<not> jn_workerDone s \<longrightarrow>
      (\<forall>n t. (own_step ^^ n) s t \<longrightarrow> n \<le> 3 \<and> (jn_phase t = Returned \<or> (\<exists>u. own_step t u))))"
proof -
  have i: "joinInv s" by (rule join_runs.inv_runs [OF assms joinInv_start])
  have w: "worker \<and> \<not> jn_workerDone s \<longrightarrow> jn_armed s" using workerDone_armed assms by (cases worker) auto
  have "n \<le> 3 \<and> (jn_phase t = Returned \<or> (\<exists>u. own_step t u))"
    if e: "jn_terminal s \<noteq> None \<or> \<not> jn_shutdown s \<or> \<not> jn_serverDone s \<or> worker \<and> \<not> jn_workerDone s" and r: "(own_step ^^ n) s t" for n t
  proof -
    have "ending s" using e w joinInvD(1,2) [OF i] by (auto simp: ending_def)
    then have k: "joinInv t" "ending t" using own_run_keeps [OF r i] by simp_all
    have "movesLeft s \<le> 3" by (simp add: movesLeft_def split: phase.splits)
    then show ?thesis using movesLeft_run [OF r] own_enabled [OF k] by auto
  qed
  moreover have "exitCode s = 1" if "jn_phase s = Returned" "jn_terminal s \<noteq> None"
    using joinInvD(4) [OF i that(1)] that(2) by (simp add: exitCode_def)
  moreover have "jn_terminal s = None \<and> \<not> jn_serverDone s \<and> \<not> jn_workerDone s \<and> jn_closed s \<and> jn_serverErr s = None \<and> jn_workerErr s = None"
    if z: "jn_phase s = Returned" "exitCode s = 0"
  proof -
    have e: "jn_terminalErr s = None" "\<not> jn_timedOut s" "jn_serverErr s = None" "jn_workerErr s = None"
      using z(2) by (auto simp: exitCode_def Let_def split: if_splits)
    then have "\<not> waiting s" "jn_terminal s = None" using joinInvD(5) [OF i z(1) e(1)] joinInvD(4) [OF i z(1)] by auto
    then show ?thesis using joinInvD(3) [OF i] e(3,4) by (simp add: waiting_def)
  qed
  moreover note joinInvD(4,6) [OF i]
  ultimately show ?thesis by blast
qed

text \<open>A run in which the guard trips while the server drains: the trip wins over the clean end.\<close>

theorem shutdown_coordinated_witness:
  "\<exists>s. join_step\<^sup>*\<^sup>* (joinStart False None) s \<and> jn_phase s = Returned \<and> jn_terminal s = Some ''mismatch'' \<and> exitCode s = 1"
proof -
  let ?s0 = "joinStart False None :: bytes join"
  let ?s1 = "(loopTop ?s0)\<lparr>jn_phase := Select\<rparr>"
  let ?s2 = "?s1\<lparr>jn_terminal := Trip ''mismatch'' (jn_terminal ?s1)\<rparr>"
  let ?s3 = "(onServer None ?s2)\<lparr>jn_phase := Loop\<rparr>"
  let ?s4 = "(loopTop ?s3)\<lparr>jn_phase := Select\<rparr>"
  let ?s5 = "(onDeadline ?s4)\<lparr>jn_phase := Returned\<rparr>"
  note ev = joinStart_def join_ops Trip_def waiting_def
  have "join_step ?s0 ?s1" by (rule join_own, rule join_top) (simp_all add: ev)
  moreover have "join_step ?s1 ?s2" by (rule join_trip) simp
  moreover have "join_step ?s2 ?s3" by (rule case_server) (simp_all add: ev)
  moreover have "join_step ?s3 ?s4" by (rule join_own, rule join_top) (simp_all add: ev)
  moreover have "join_step ?s4 ?s5" by (rule join_own, rule case_deadline) (simp_all add: ev)
  ultimately have r: "join_step\<^sup>*\<^sup>* ?s0 ?s5" by (meson converse_rtranclp_into_rtranclp rtranclp.rtrancl_refl)
  have p: "jn_phase ?s5 = Returned" "jn_terminal ?s5 = Some ''mismatch''" by (simp_all add: ev)
  have "jn_phase ?s5 = Returned \<longrightarrow> jn_terminalErr ?s5 = jn_terminal ?s5 \<and> (jn_terminal ?s5 \<noteq> None \<longrightarrow> exitCode ?s5 = 1)"
    using shutdown_coordinated [OF r] by blast
  then show ?thesis using r p by (intro exI [of _ ?s5]) simp
qed

end
