(* ===== verification/Spec2Isabelle.thy ===== *)
theory Spec2Isabelle
  imports WebhookFacts AuthFacts MediaMessages ConversationPages WebhookDelivery WorkerFacts Runtime Lifecycle
begin

text \<open>
  A verification development of the NewIM messaging server, whose Go sources are under \<^verbatim>\<open>core/protocol/go\<close> and \<^verbatim>\<open>server\<close>.

  \<^bold>\<open>The program.\<close> A client presents a bearer token at an HTTP endpoint and sends a message; the send service checks the identity, the
  frame and, for media, the asset; the repository stores the message with the next sequence number of its conversation, an outbox
  event and the changes of every member's conversation list in one transaction; only then the client gets an acknowledgement, and
  repeating the same intent gives the same one. Clients read back the messages of a conversation in pages, and their list of
  conversations by a bootstrap and then by changes, with signed cursors. A worker turns outbox events into webhook deliveries,
  leases them, signs them and posts them to endpoints, whose receivers verify signatures and reject replays. The process
  opens its database pools under an identity guard and coordinates its own end.

  \<^bold>\<open>Theories and sources\<close>, in the order in which they build on each other.

  \<^item> \<^verbatim>\<open>Prelude\<close>, \<^verbatim>\<open>Grammar\<close>, \<^verbatim>\<open>Json\<close>, \<^verbatim>\<open>JsonFacts\<close>, \<^verbatim>\<open>JsonQuote\<close>, \<^verbatim>\<open>Base64\<close>, \<^verbatim>\<open>Sha256\<close>, \<^verbatim>\<open>GoStrings\<close>, \<^verbatim>\<open>ObjectText\<close>: bytes, 64-bit wrap-around,
    decimal and lexical forms, and what the sources use of the Go library, down to bytes and 32-bit words. Shared
    lemmas and the locale \<^verbatim>\<open>codec\<close> are here.
  \<^item> \<^verbatim>\<open>Strict\<close>, \<^verbatim>\<open>StrictFacts\<close>, \<^verbatim>\<open>Payload\<close>, \<^verbatim>\<open>Message\<close>, \<^verbatim>\<open>MediaPayload\<close>, \<^verbatim>\<open>Numbers\<close>, \<^verbatim>\<open>Send\<close>, \<^verbatim>\<open>SendFacts\<close>, \<^verbatim>\<open>Intent\<close>: the protocol of
    \<^verbatim>\<open>message.go\<close>, \<^verbatim>\<open>media.go\<close>, \<^verbatim>\<open>send.go\<close> and \<^verbatim>\<open>intent.go\<close>. Encoders and decoders are interpretations of \<^verbatim>\<open>codec\<close>; accepted documents are
    unambiguous; intents compare by the value of their numbers.
  \<^item> \<^verbatim>\<open>WebhookProtocol\<close>, \<^verbatim>\<open>WebhookFacts\<close>: \<^verbatim>\<open>webhook.go\<close>. A signed request is accepted at most once by the guard in memory, which
    is an interpretation of the locale \<^verbatim>\<open>replay_guard\<close>.
  \<^item> \<^verbatim>\<open>Database\<close>: transactions with failing statements and three outcomes of a commit, and the locales \<^verbatim>\<open>store_runs\<close> (an invariant over
    runs) and \<^verbatim>\<open>store_latch\<close> (what stays true once it is), which every step relation of the development interprets.
  \<^item> \<^verbatim>\<open>AuthToken\<close>, \<^verbatim>\<open>AuthStore\<close>, \<^verbatim>\<open>AuthService\<close>, \<^verbatim>\<open>AuthFacts\<close>: \<^verbatim>\<open>server/auth/session\<close> over \<^verbatim>\<open>storage/authsession\<close>. When a token is accepted,
    that a fresh one is, and that revocation is for ever.
  \<^item> \<^verbatim>\<open>MessageStore\<close>, \<^verbatim>\<open>SendService\<close>, \<^verbatim>\<open>SendServiceFacts\<close>: \<^verbatim>\<open>server/message\<close> over \<^verbatim>\<open>storage/message\<close> and the database function it calls.
    Sequences without gaps, durable acknowledgements, idempotent retries, and that a valid send of a member is stored.
  \<^item> \<^verbatim>\<open>MediaTypes\<close>, \<^verbatim>\<open>LocalFS\<close>, \<^verbatim>\<open>MediaStore\<close>, \<^verbatim>\<open>MediaService\<close>, \<^verbatim>\<open>MediaFacts\<close>, \<^verbatim>\<open>MediaMessages\<close>: \<^verbatim>\<open>server/media\<close>, \<^verbatim>\<open>media/localfs\<close> and
    \<^verbatim>\<open>storage/media\<close>. The directory refines a write-once store (locale \<^verbatim>\<open>object_store\<close>); a media message is stored only if its object is.
  \<^item> \<^verbatim>\<open>MessageSync\<close>, \<^verbatim>\<open>MessageSyncFacts\<close>: \<^verbatim>\<open>server/sync/message\<close> over \<^verbatim>\<open>storage/messagesync\<close>. Pages are the next pieces of the history and
    paging catches up.
  \<^item> \<^verbatim>\<open>SyncCursor\<close>, \<^verbatim>\<open>ConversationStore\<close>, \<^verbatim>\<open>ConversationSync\<close>, \<^verbatim>\<open>ProjectionFacts\<close>, \<^verbatim>\<open>ConversationFacts\<close>, \<^verbatim>\<open>ConversationRounds\<close>, \<^verbatim>\<open>BootstrapFacts\<close>,
    \<^verbatim>\<open>SyncConvergence\<close>, \<^verbatim>\<open>ConversationPages\<close>: \<^verbatim>\<open>server/sync/conversation\<close> over \<^verbatim>\<open>storage/conversationsync\<close>. Rounds are interpretations of
    the locales \<^verbatim>\<open>paged_round\<close>, \<^verbatim>\<open>bounded_round\<close> and \<^verbatim>\<open>measured_round\<close>; a client that bootstraps and follows the changes ends with the projection of its
    account, while the projection moves on.
  \<^item> \<^verbatim>\<open>WebhookStore\<close>, \<^verbatim>\<open>WebhookLease\<close>, \<^verbatim>\<open>WebhookFanout\<close>, \<^verbatim>\<open>WebhookRuns\<close>, \<^verbatim>\<open>WebhookDelivery\<close>: \<^verbatim>\<open>storage/webhook\<close>. The lifecycle of a delivery as a
    machine that the repository refines, the exclusion of a live lease, exactly one delivery per event and live endpoint.
  \<^item> \<^verbatim>\<open>WebhookWorker\<close>, \<^verbatim>\<open>WebhookDispatch\<close>, \<^verbatim>\<open>WebhookSending\<close>, \<^verbatim>\<open>WorkerFacts\<close>, \<^verbatim>\<open>WebhookHTTP\<close>: \<^verbatim>\<open>server/webhook\<close>. What the worker sends its receiver
    accepts, what each response leaves in the table, the retry schedule, the bound on requests in flight under any interleaving,
    and that no address in the listed special-purpose blocks is dialled.
  \<^item> \<^verbatim>\<open>Connections\<close>, \<^verbatim>\<open>IdentityGuard\<close>: \<^verbatim>\<open>Open\<close> of the six repositories and \<^verbatim>\<open>storage/postgresidentity\<close>. Pools authenticate their servers; all
    connections that pass the guard saw one database.
  \<^item> \<^verbatim>\<open>HttpBoundary\<close>, \<^verbatim>\<open>ApiServer\<close>, \<^verbatim>\<open>ApiFacts\<close>, \<^verbatim>\<open>Runtime\<close>, \<^verbatim>\<open>Lifecycle\<close>: \<^verbatim>\<open>server/auth/bearerhttp\<close>, \<^verbatim>\<open>server/messagehttp\<close>, \<^verbatim>\<open>server/api\<close> and
    \<^verbatim>\<open>server/cmd/newim-server\<close>. Handlers to the bytes of their responses; routes, body limits and metrics with requests interleaving; the
    message endpoint of the assembled server, down to the stored row; start-up that fails closed; the shutdown coordinator, its own moves
    (\<^verbatim>\<open>own_step\<close>) apart from those of the server, the worker and the pools, so that it is shown to return unaided.

  \<^bold>\<open>Conventions.\<close> A Go string or byte slice is a list of characters, all 256 of them. A \<^verbatim>\<open>nil\<close> that the source tells from empty is an option.
  Errors are values of the code types of the source in \<^verbatim>\<open>error + result\<close>, and a panic that the source can reach is a value too. Struct
  types are records, fields with a two-letter prefix. Times and durations are integers of nanoseconds, wrapped to 64 bits where the
  source can overflow. Tables are association lists by primary key. A repository operation is one step: the locks it takes make
  it serial on the rows it touches; its parameter says which statement fails and how the commit ends, and \<^verbatim>\<open>tick n\<close> is the time that
  statement \<^verbatim>\<open>n\<close> reads. Between two calls of a service other clients may commit: the later call takes another table. Interfaces the
  source takes (media validator, object store, signer, replay guard, key resolver), randomness, clocks, DNS, connections,
  URL, media type and DSN parsing, AEAD and the rounding of floats are parameters. Observers, logs and metrics hooks other than those
  of the API server see results after they are decided and are left out.

  \<^bold>\<open>Fuel.\<close> The scanner and the strict walk recurse with fuel taken from the length of the text; \<^verbatim>\<open>pv_enough\<close> and the lemmas of
  \<^verbatim>\<open>StrictFacts\<close> show that it is never used up, so that running out is not a verdict. Sync rounds of a client take fuel for pages:
  a delta round ends with fuel for the changes in the log at its start, and a bootstrap round ends because its cursors only move
  forward through the finitely many identifiers, even while keys keep arriving; with enough fuel a client always gets a result. Loops with a limit in the source
  (attempts, batches, pages) keep that limit.

  \<^bold>\<open>Not modelled.\<close> Listener start-up and draining of \<^verbatim>\<open>server/api\<close> (\<^verbatim>\<open>Run\<close>, \<^verbatim>\<open>bind\<close>, \<^verbatim>\<open>doShutdown\<close>), flags, signals and build information
  are the operating system and the Go library. Opening the media directory and its ownership checks are system calls. The worker lock of
  \<^verbatim>\<open>storage/webhook\<close> is an advisory lock of the database session; no theorem relies on it, and the ones on leases hold with any
  number of workers. \<^verbatim>\<open>webhook_runtime.go\<close> fills in constants. \<^verbatim>\<open>joinRuntimeServerAndAuth\<close> in \<^verbatim>\<open>main.go\<close> is not called by \<^verbatim>\<open>run\<close>.
  Tests, the Rust implementation of the protocol and the infrastructure scripts are other programs.
\<close>

end
